(* ===== verification/Prelude.thy ===== *)
theory Prelude
  imports Main "HOL-Library.Word"
begin

text \<open>
  Types, error values and list lemmas shared by all the components.

  The C++ types of common/misc/fixed_types.h are words of their width; \<open>core_id_t\<close> is a
  signed 32-bit integer whose only special value is -1, so it is an \<open>int\<close> here. Array indexes,
  loop counters and associativities (\<open>UInt32\<close> values that the code only compares, uses as
  indexes or divides by) are \<open>nat\<close>.

  A failing \<open>assert\<close>, \<open>LOG_ASSERT_ERROR\<close> or \<open>LOG_PRINT_ERROR\<close> ends the simulation;
  it is a left value of a sum. So are the two undefined behaviours the code can reach (a call
  through a null pointer, an index outside an array) and a recursion that does not return.
\<close>

unbundle bit_operations_syntax

type_synonym u8 = "8 word"
type_synonym u32 = "32 word"
type_synonym u64 = "64 word"
type_synonym addr = "64 word"
type_synonym core_id = int
type_synonym time = "64 word"

definition INVALID_CORE_ID :: core_id where
  "INVALID_CORE_ID = -1"

definition INVALID_ADDRESS :: addr where
  "INVALID_ADDRESS = -1"

datatype sim_error = Assert_Failed string | Log_Error string | Null_Pointer string
  | Out_Of_Range string | No_Return string

type_synonym 'a res = "sim_error + 'a"

definition bindE :: "'a res \<Rightarrow> ('a \<Rightarrow> 'b res) \<Rightarrow> 'b res" where
  "bindE m f = (case m of Inl e \<Rightarrow> Inl e | Inr x \<Rightarrow> f x)"

definition assertE :: "bool \<Rightarrow> string \<Rightarrow> 'b res \<Rightarrow> 'b res" where
  "assertE b msg k = (if b then k else Inl (Assert_Failed msg))"

text \<open>A loop that runs \<open>f\<close> on each element and keeps the results.\<close>

fun mapE :: "('a \<Rightarrow> 'b res) \<Rightarrow> 'a list \<Rightarrow> 'b list res" where
  "mapE f [] = Inr []"
| "mapE f (x # xs) = bindE (f x) (\<lambda>y. bindE (mapE f xs) (\<lambda>ys. Inr (y # ys)))"

subsection \<open>The error monad\<close>

lemma bindE_simps [simp]: "bindE (Inl e) f = Inl e" "bindE (Inr x) f = f x"
  by (simp_all add: bindE_def)

lemma bindE_Inr_iff: "bindE m f = Inr y \<longleftrightarrow> (\<exists>x. m = Inr x \<and> f x = Inr y)"
  by (cases m) auto

lemma bindE_Inl_iff: "bindE m f = Inl e \<longleftrightarrow> m = Inl e \<or> (\<exists>x. m = Inr x \<and> f x = Inl e)"
  by (cases m) auto

lemma bindE_InrE [elim]:
  assumes "bindE m f = Inr y"
  obtains x where "m = Inr x" and "f x = Inr y"
  using assms by (auto simp: bindE_Inr_iff)

lemma assertE_True [simp]: "b \<Longrightarrow> assertE b msg k = k"
  by (simp add: assertE_def)

lemma assertE_Inr_iff [simp]: "assertE b msg k = Inr y \<longleftrightarrow> b \<and> k = Inr y"
  by (simp add: assertE_def)

lemma assertE_Inl_iff: "assertE b msg k = Inl e \<longleftrightarrow> (\<not> b \<and> e = Assert_Failed msg) \<or> (b \<and> k = Inl e)"
  by (auto simp: assertE_def)

lemma mapE_Inr:
  "mapE f xs = Inr ys \<Longrightarrow> length ys = length xs \<and> (\<forall>i<length xs. f (xs ! i) = Inr (ys ! i))"
proof (induction xs arbitrary: ys)
  case (Cons x xs)
  then show ?case by (auto simp: bindE_Inr_iff nth_Cons split: nat.splits)
qed simp

lemma mapE_all_Inr: "(\<And>x. x \<in> set xs \<Longrightarrow> f x = Inr (g x)) \<Longrightarrow> mapE f xs = Inr (map g xs)"
  by (induction xs) auto

subsection \<open>Search loops\<close>

text \<open>\<open>for (i = 0; i < n; i++) if (P(a[i])) return i;\<close> and the loop that counts down.\<close>

fun find_first :: "('a \<Rightarrow> bool) \<Rightarrow> 'a list \<Rightarrow> nat option" where
  "find_first P [] = None"
| "find_first P (x # xs) = (if P x then Some 0 else map_option Suc (find_first P xs))"

fun find_last :: "('a \<Rightarrow> bool) \<Rightarrow> 'a list \<Rightarrow> nat option" where
  "find_last P [] = None"
| "find_last P (x # xs) =
     (case find_last P xs of Some i \<Rightarrow> Some (Suc i) | None \<Rightarrow> if P x then Some 0 else None)"

lemma find_first_SomeD:
  "find_first P xs = Some i \<Longrightarrow> i < length xs \<and> P (xs ! i) \<and> (\<forall>j<i. \<not> P (xs ! j))"
proof (induction xs arbitrary: i)
  case Nil
  then show ?case by simp
next
  case (Cons x xs)
  show ?case
  proof (cases "P x")
    case True
    with Cons.prems show ?thesis by simp
  next
    case False
    with Cons.prems obtain k where "find_first P xs = Some k" and "i = Suc k" by auto
    with False Cons.IH [of k] show ?thesis by (auto simp: nth_Cons split: nat.splits)
  qed
qed

lemma find_first_None_iff: "find_first P xs = None \<longleftrightarrow> (\<forall>x \<in> set xs. \<not> P x)"
  by (induction xs) auto

lemma find_last_None_iff: "find_last P xs = None \<longleftrightarrow> (\<forall>x \<in> set xs. \<not> P x)"
  by (induction xs) (auto split: option.splits)

lemma find_last_SomeD:
  "find_last P xs = Some i \<Longrightarrow> i < length xs \<and> P (xs ! i) \<and> (\<forall>j. i < j \<and> j < length xs \<longrightarrow> \<not> P (xs ! j))"
proof (induction xs arbitrary: i)
  case Nil
  then show ?case by simp
next
  case (Cons x xs)
  show ?case
  proof (cases "find_last P xs")
    case None
    then have "\<forall>j<length xs. \<not> P (xs ! j)" by (simp add: find_last_None_iff)
    with None Cons.prems show ?thesis by (auto simp: nth_Cons split: if_splits nat.splits)
  next
    case (Some k)
    with Cons.prems have "i = Suc k" by simp
    with Cons.IH [OF Some] show ?thesis by (auto simp: nth_Cons split: nat.splits)
  qed
qed

lemma find_first_unique:
  assumes "i < length xs" and "P (xs ! i)" and "\<And>j. j < length xs \<Longrightarrow> P (xs ! j) \<Longrightarrow> j = i"
  shows "find_first P xs = Some i"
proof (cases "find_first P xs")
  case None
  with assms(1,2) show ?thesis by (auto simp: find_first_None_iff)
next
  case (Some k)
  from find_first_SomeD [OF this] assms(3) [of k] Some show ?thesis by simp
qed

lemma find_last_unique:
  assumes "i < length xs" and "P (xs ! i)" and "\<And>j. j < length xs \<Longrightarrow> P (xs ! j) \<Longrightarrow> j = i"
  shows "find_last P xs = Some i"
proof (cases "find_last P xs")
  case None
  with assms(1,2) show ?thesis by (auto simp: find_last_None_iff)
next
  case (Some k)
  from find_last_SomeD [OF this] assms(3) [of k] Some show ?thesis by simp
qed

subsection \<open>Words\<close>

lemma unat_and_mask: "unat (x AND mask n :: 'a::len word) = unat x mod 2 ^ n"
proof -
  have "unat (take_bit n x) = take_bit n (unat x)"
    by (simp add: unsigned_take_bit_eq)
  then show ?thesis
    by (simp only: take_bit_eq_mask [symmetric] take_bit_eq_mod)
qed

lemma unat_u8_less: "unat (x :: u8) < 256"
  and unat_u32_less: "unat (y :: u32) < 4294967296"
  and unat_u64_less: "unat (z :: u64) < 18446744073709551616"
  using unsigned_less [of x, where 'a = nat] unsigned_less [of y, where 'a = nat]
    unsigned_less [of z, where 'a = nat] by simp_all

lemma sint_u32_small:
  assumes "unat (w :: u32) < 2147483648"
  shows "sint w = int (unat w)"
proof -
  have i: "uint w = int (unat w)" by simp
  have lt: "uint w < 2147483648" unfolding i using assms by linarith
  have "uint w div 2147483648 = 0" using lt by (intro div_pos_pos_trivial) simp_all
  then have "\<not> bit (uint w) 31" by (simp add: bit_iff_odd)
  then have "signed_take_bit 31 (uint w) = take_bit 31 (uint w)"
    by (rule signed_take_bit_eq_if_positive)
  also have "\<dots> = uint w"
    using lt by (intro take_bit_int_eq_self) simp_all
  finally show ?thesis
    by (simp only: sint_uint i) simp
qed

lemma unat_mod_less: "n \<noteq> 0 \<Longrightarrow> unat (x mod n :: 'a::len word) < unat n"
  by (simp add: unat_mod unat_gt_0)

end
