(* ===== verification/Sim_Utils.thy ===== *)
theory Sim_Utils
  imports Prelude
begin

text \<open>
  common/misc/utils.cc (bit tricks on unsigned integers), common/misc/rng.h (the 48-bit linear
  congruential generator that hashes set indexes and draws random numbers) and
  common/misc/random.h (the generator behind random replacement and \<open>getOneSharer\<close>).
\<close>

subsection \<open>utils.cc\<close>

definition isPower2 :: "u32 \<Rightarrow> bool" where
  "isPower2 n \<longleftrightarrow> n AND (n - 1) = 0"

definition floorLog2 :: "u32 \<Rightarrow> int" where
  "floorLog2 n = (if n = 0 then -1 else
     (let p = 0;
          (p, n) = (if n AND 0xffff0000 \<noteq> 0 then (p + 16, drop_bit 16 n) else (p, n));
          (p, n) = (if n AND 0x0000ff00 \<noteq> 0 then (p + 8, drop_bit 8 n) else (p, n));
          (p, n) = (if n AND 0x000000f0 \<noteq> 0 then (p + 4, drop_bit 4 n) else (p, n));
          (p, n) = (if n AND 0x0000000c \<noteq> 0 then (p + 2, drop_bit 2 n) else (p, n));
          p = (if n AND 0x00000002 \<noteq> 0 then p + 1 else p)
      in p))"

definition ceilLog2 :: "u32 \<Rightarrow> int" where
  "ceilLog2 n = floorLog2 (n - 1) + 1"

text \<open>Clearing the lowest set bit makes a word smaller: the loop of \<open>countBits\<close> ends.\<close>

lemma and_pred_less: "unat (n AND (n - 1) :: u64) < unat n" if "n \<noteq> 0"
proof -
  have "n AND (n - 1) \<le> n - 1"
    by (simp add: word_and_le1)
  moreover have "n - 1 < n"
    using that by (simp add: word_less_nat_alt unat_minus_one unat_gt_0)
  ultimately show ?thesis
    by (simp add: word_less_nat_alt word_le_nat_alt)
qed

function countBits_loop :: "u64 \<Rightarrow> u64 \<Rightarrow> u64" where
  "countBits_loop n result =
     (let n' = n AND (n - 1) in if n' \<noteq> 0 then countBits_loop n' (result + 1) else result)"
  by pat_completeness auto
termination
  by (relation "measure (\<lambda>(n, result). unat n)") (auto intro!: and_pred_less)

declare countBits_loop.simps [simp del]

definition countBits :: "u64 \<Rightarrow> u64" where
  "countBits n = (if n = 0 then 0 else countBits_loop n 1)"

subsection \<open>rng.h and random.h\<close>

definition RNG_A :: u64 where "RNG_A = 0x5DEECE66D"
definition RNG_C :: u64 where "RNG_C = 0xB"
definition RNG_M :: u64 where "RNG_M = push_bit 48 1 - 1"

text \<open>\<open>rng_next\<close> returns the drawn number and the new state.\<close>

definition rng_next :: "u64 \<Rightarrow> u64 \<times> u64" where
  "rng_next state = (let state' = (RNG_A * state + RNG_C) AND RNG_M in (drop_bit 16 state', state'))"

definition rng_seed :: "u64 \<Rightarrow> u64" where
  "rng_seed seed = push_bit 16 seed + 0x330E"

text \<open>\<open>Random::next\<close> with its limit; the default limit is 32768.\<close>

definition random_next :: "u32 \<Rightarrow> u32 \<Rightarrow> u32 \<times> u32" where
  "random_next limit seed =
     (let seed' = seed * 1103515245 + 12345 in ((seed' div 65536) mod limit, seed'))"

subsection \<open>Lemmas\<close>

lemma less_exp_iff_bits: "(m::nat) < 2 ^ k \<longleftrightarrow> (\<forall>i. bit m i \<longrightarrow> i < k)"
  by (auto simp flip: take_bit_nat_eq_self_iff simp: bit_eq_iff bit_take_bit_iff)

lemma and_high_half:
  assumes "unat n < 2 ^ (2 * k)"
  shows "n AND push_bit k (mask k) = 0 \<longleftrightarrow> unat (n :: 'a::len word) < 2 ^ k"
proof -
  have low: "i < k + k" if "bit n i" for i
    using assms that by (simp add: less_exp_iff_bits bit_unsigned_iff mult_2)
  have "bit (n AND push_bit k (mask k)) i \<longleftrightarrow> bit n i \<and> k \<le> i" for i
    using low [of i] bit_imp_le_length [of n i]
    by (cases "bit n i") (auto simp: bit_and_iff bit_push_bit_iff bit_mask_iff)
  moreover have "unat n < 2 ^ k \<longleftrightarrow> (\<forall>i. bit n i \<longrightarrow> i < k)"
    by (simp add: less_exp_iff_bits bit_unsigned_iff)
  ultimately show ?thesis
    by (auto simp: bit_eq_iff not_le dest: bit_imp_le_length)
qed

text \<open>One step of the binary search for the most significant bit, on naturals.\<close>

definition log_step :: "nat \<Rightarrow> nat \<times> nat \<Rightarrow> nat \<times> nat" where
  "log_step k pn = (if 2 ^ k \<le> snd pn then (fst pn + k, snd pn div 2 ^ k) else pn)"

definition log_brackets :: "nat \<Rightarrow> nat \<times> nat \<Rightarrow> bool" where
  "log_brackets m pn \<longleftrightarrow> 0 < snd pn \<and> 2 ^ fst pn * snd pn \<le> m \<and> m < 2 ^ fst pn * (snd pn + 1)"

lemma log_step_brackets: "log_brackets m pn \<Longrightarrow> log_brackets m (log_step k pn)"
proof -
  assume b: "log_brackets m pn"
  obtain p n where pn: "pn = (p, n)" by (cases pn)
  show ?thesis
  proof (cases "2 ^ k \<le> n")
    case False
    with b pn show ?thesis by (simp add: log_step_def)
  next
    case True
    let ?d = "(2::nat) ^ k"
    have lo: "?d * (n div ?d) \<le> n" by simp
    have hi: "n + 1 \<le> ?d * (n div ?d + 1)"
      by (metis Suc_eq_plus1 Suc_leI dividend_less_times_div less_eq_Suc_le mult_Suc_right
          add.commute mult.commute zero_less_numeral zero_less_power)
    have "2 ^ (p + k) * (n div ?d) \<le> 2 ^ p * n"
      using lo by (simp add: power_add mult.assoc)
    moreover have "2 ^ p * (n + 1) \<le> 2 ^ (p + k) * (n div ?d + 1)"
      using mult_le_mono2 [OF hi, of "2 ^ p"] by (simp only: power_add mult.assoc)
    ultimately show ?thesis
      using b True pn by (auto simp: log_brackets_def log_step_def div_greater_zero_iff)
  qed
qed

text \<open>Each mask test of \<open>floorLog2\<close> is the comparison of one step.\<close>

lemma and_hi_step:
  fixes n :: u32
  assumes "m = push_bit k (mask k)" and "unat n < 2 ^ (2 * k)"
  shows "(n AND m \<noteq> 0) \<longleftrightarrow> 2 ^ k \<le> unat n"
  using assms and_high_half [of n k] by (simp add: not_less)

lemma log_step_less: "snd pn < 2 ^ (2 * k) \<Longrightarrow> snd (log_step k pn) < 2 ^ k"
  by (auto simp: log_step_def less_mult_imp_div_less mult_2 power_add)

definition log_word :: "nat \<Rightarrow> int \<times> u32 \<Rightarrow> nat \<times> nat \<Rightarrow> bool" where
  "log_word k pw pn \<longleftrightarrow> fst pw = int (fst pn) \<and> unat (snd pw) = snd pn \<and> snd pn < 2 ^ k"

lemma log_word_step:
  assumes "log_word (2 * k) (p, n) pn" and "m = push_bit k (mask k)"
  shows "log_word k (if n AND m \<noteq> 0 then (p + int k, drop_bit k n) else (p, n)) (log_step k pn)"
proof -
  have "unat n < 2 ^ (2 * k)" and "unat n = snd pn" and "p = int (fst pn)"
    using assms(1) by (auto simp: log_word_def)
  moreover from this and_hi_step [OF assms(2)] have "(n AND m \<noteq> 0) = (2 ^ k \<le> snd pn)" by simp
  moreover have "unat (drop_bit k n) = unat n div 2 ^ k"
    using unat_drop_bit_eq [of k n] drop_bit_eq_div [of k "unat n"] by (rule trans)
  ultimately show ?thesis
    using log_step_less [of pn k]
    by (auto simp: log_word_def log_step_def)
qed

text \<open>\<open>floorLog2\<close> is the position of the most significant bit.\<close>

lemma floorLog2_brackets:
  assumes "n \<noteq> 0"
  shows "\<exists>p. floorLog2 n = int p \<and> 2 ^ p \<le> unat n \<and> unat n < 2 ^ (p + 1)"
proof -
  define s where "s k pw m = (if snd pw AND m \<noteq> 0 then (fst pw + int k, drop_bit k (snd pw)) else pw)"
    for k :: nat and pw :: "int \<times> u32" and m :: u32
  define pn where "pn = log_step 1 (log_step 2 (log_step 4 (log_step 8 (log_step 16 (0, unat n)))))"
  have step: "log_word k (s k pw m) (log_step k q)"
    if "log_word j pw q" and "j = 2 * k" and "m = push_bit k (mask k)" for j k pw m q
    using log_word_step [of k "fst pw" "snd pw" q m] that by (simp add: s_def split: if_splits)
  let ?w = "s 1 (s 2 (s 4 (s 8 (s 16 (0, n) 0xffff0000) 0x0000ff00) 0x000000f0) 0x0000000c) 0x00000002"
  have "unat n < 2 ^ 32" using unsigned_less [of n] by simp
  then have w32: "log_word 32 (0, n) (0, unat n)" by (simp add: log_word_def)
  have w: "log_word 1 ?w pn"
    unfolding pn_def
    by (rule step [OF step [OF step [OF step [OF step [OF w32]]]]])
       (simp_all add: mask_eq_exp_minus_1 push_bit_eq_mult)
  have eq: "floorLog2 n = fst ?w"
    using assms by (simp add: floorLog2_def s_def Let_def split_beta split del: if_split) (simp split: if_splits)
  have "log_brackets (unat n) (0, unat n)"
    using assms by (simp add: log_brackets_def unat_gt_0)
  then have "log_brackets (unat n) pn"
    unfolding pn_def by (intro log_step_brackets)
  moreover from this w have "snd pn = 1"
    by (simp add: log_brackets_def log_word_def)
  ultimately show ?thesis
    using w eq by (intro exI [of _ "fst pn"]) (auto simp: log_brackets_def log_word_def)
qed

lemma floorLog2_unique:
  assumes "2 ^ p \<le> unat n" and "unat n < 2 ^ (p + 1)"
  shows "floorLog2 n = int p"
proof -
  have "n \<noteq> 0" using assms(1) by (metis not_less unat_0 zero_less_numeral zero_less_power)
  then obtain q where q: "floorLog2 n = int q" "2 ^ q \<le> unat n" "unat n < 2 ^ (q + 1)"
    using floorLog2_brackets by blast
  have "q < p + 1" "p < q + 1"
    using assms q by (metis le_less_trans power_less_imp_less_exp one_less_numeral_iff semiring_norm(76))+
  with q(1) show ?thesis by simp
qed

lemma floorLog2_power: "unat n = 2 ^ p \<Longrightarrow> floorLog2 n = int p"
  by (rule floorLog2_unique) simp_all

text \<open>\<open>n & (n - 1)\<close> clears exactly the lowest set bit.\<close>

lemma nat_and_pred:
  "0 < (m::nat) \<Longrightarrow> \<exists>l. bit m l \<and> (\<forall>i. bit (m AND (m - 1)) i \<longleftrightarrow> bit m i \<and> i \<noteq> l)"
proof (induction m rule: less_induct)
  case (less m)
  show ?case
  proof (cases "odd m")
    case True
    then obtain k where k: "m = 2 * k + 1" by (rule oddE)
    have "bit (m - 1) i \<longleftrightarrow> bit m i \<and> i \<noteq> 0" for i
      by (cases i) (simp_all add: k bit_Suc bit_0)
    then have "\<forall>i. bit (m AND (m - 1)) i \<longleftrightarrow> bit m i \<and> i \<noteq> 0"
      by (simp add: bit_and_iff)
    moreover have "bit m 0" using True by (simp add: bit_0)
    ultimately show ?thesis by blast
  next
    case False
    then obtain k where k: "m = 2 * k" by (auto elim: evenE)
    with less.prems have "k < m" and "0 < k" by auto
    with less.IH obtain l where l: "bit k l" "\<And>i. bit (k AND (k - 1)) i \<longleftrightarrow> bit k i \<and> i \<noteq> l"
      by blast
    have half: "(m - 1) div 2 = k - 1" "m div 2 = k"
      using k \<open>0 < k\<close> by auto
    have "bit (m AND (m - 1)) i \<longleftrightarrow> bit m i \<and> i \<noteq> Suc l" for i
    proof (cases i)
      case 0
      with k show ?thesis by (simp add: even_and_iff bit_0)
    next
      case (Suc j)
      have "bit (m AND (m - 1)) (Suc j) \<longleftrightarrow> bit m (Suc j) \<and> bit (m - 1) (Suc j)"
        by (rule bit_and_iff)
      with l(2) [of j] half Suc show ?thesis
        by (simp only: bit_Suc bit_and_iff [of k] nat.inject)
    qed
    moreover have "bit m (Suc l)" using l(1) half by (simp add: bit_Suc)
    ultimately show ?thesis by blast
  qed
qed

lemma bit_unat: "bit (unat w) i \<longleftrightarrow> bit (w :: 'a::len word) i"
  by (simp add: bit_unsigned_iff)

lemma word_and_pred:
  assumes "n \<noteq> (0 :: 'a::len word)"
  shows "\<exists>l. bit n l \<and> (\<forall>i. bit (n AND (n - 1)) i \<longleftrightarrow> bit n i \<and> i \<noteq> l)"
proof -
  have pos: "0 < unat n" using assms by (simp add: unat_gt_0)
  have "unat (n AND (n - 1)) = unat n AND (unat n - 1)"
    using assms by (simp add: unsigned_and_eq unat_minus_one)
  moreover obtain l where "bit (unat n) l"
    and "\<And>i. bit (unat n AND (unat n - 1)) i \<longleftrightarrow> bit (unat n) i \<and> i \<noteq> l"
    using nat_and_pred [OF pos] by blast
  ultimately have "bit n l" and "bit (n AND (n - 1)) i \<longleftrightarrow> bit n i \<and> i \<noteq> l" for i
    by (simp_all add: bit_unat flip: bit_unat [of "n AND (n - 1)"])
  then show ?thesis by blast
qed

definition set_bits_of :: "'a::len word \<Rightarrow> nat set" where
  "set_bits_of n = {i. bit n i}"

lemma finite_set_bits_of [simp]: "finite (set_bits_of n)"
  by (rule finite_subset [of _ "{..<LENGTH('a)}" for n :: "'a::len word"])
     (auto simp: set_bits_of_def dest: bit_imp_le_length)

lemma card_set_bits_of_le: "card (set_bits_of (n :: 'a::len word)) \<le> LENGTH('a)"
proof -
  have "set_bits_of n \<subseteq> {..<LENGTH('a)}"
    by (auto simp: set_bits_of_def dest: bit_imp_le_length)
  then show ?thesis
    using card_mono [of "{..<LENGTH('a)}" "set_bits_of n"] by simp
qed

lemma set_bits_of_and_pred:
  assumes "n \<noteq> 0"
  shows "\<exists>l. l \<in> set_bits_of n \<and> set_bits_of (n AND (n - 1)) = set_bits_of n - {l}"
  using word_and_pred [OF assms] by (auto simp: set_bits_of_def)

lemma set_bits_of_empty [simp]: "set_bits_of n = {} \<longleftrightarrow> n = 0"
proof -
  have "n = 0 \<longleftrightarrow> (\<forall>i. \<not> bit n i)"
    by (metis bit_0_eq bit_word_eqI bot_apply bot_bool_def)
  then show ?thesis by (simp add: set_bits_of_def)
qed

lemma set_bits_of_0 [simp]: "set_bits_of 0 = {}"
  by simp

lemma card_and_pred: "n \<noteq> 0 \<Longrightarrow> Suc (card (set_bits_of (n AND (n - 1)))) = card (set_bits_of n)"
  using set_bits_of_and_pred [of n] by (metis card_Suc_Diff1 finite_set_bits_of)

lemma countBits_loop_card:
  "n \<noteq> 0 \<Longrightarrow> countBits_loop n r + 1 = r + of_nat (card (set_bits_of n))"
proof (induction n r rule: countBits_loop.induct)
  case (1 n r)
  let ?n' = "n AND (n - 1)"
  have c: "Suc (card (set_bits_of ?n')) = card (set_bits_of n)"
    using "1.prems" by (rule card_and_pred)
  show ?case
  proof (cases "?n' = 0")
    case True
    with c have "card (set_bits_of n) = 1" by simp
    with True show ?thesis by (subst countBits_loop.simps) simp
  next
    case False
    with "1.IH" [OF refl False False] c show ?thesis
      by (subst countBits_loop.simps) (simp flip: c)
  qed
qed

lemma countBits_card: "countBits n = of_nat (card (set_bits_of n))"
  using countBits_loop_card [of n 1] by (auto simp: countBits_def)

lemma isPower2_card: "isPower2 n \<longleftrightarrow> card (set_bits_of n) \<le> 1"
proof (cases "n = 0")
  case True
  then show ?thesis by (simp add: isPower2_def set_bits_of_def)
next
  case False
  then have "Suc (card (set_bits_of (n AND (n - 1)))) = card (set_bits_of n)"
    by (rule card_and_pred)
  then have "card (set_bits_of n) \<le> 1 \<longleftrightarrow> card (set_bits_of (n AND (n - 1))) = 0"
    by linarith
  then show ?thesis
    by (simp add: isPower2_def)
qed

lemma unat_push_bit_1: "p < 32 \<Longrightarrow> unat (push_bit p (1 :: u32)) = 2 ^ p"
proof -
  assume p: "p < 32"
  then have "(2::nat) ^ p < 2 ^ 32" by (rule power_strict_increasing) simp
  moreover have "unat (push_bit p (1 :: u32)) = take_bit 32 (push_bit p 1)"
    using unsigned_push_bit_eq [of p "1 :: u32", where 'a = nat] by simp
  ultimately show ?thesis
    by (simp add: take_bit_eq_mod)
qed

lemma floorLog2_push_bit: "p < 32 \<Longrightarrow> floorLog2 (push_bit p 1) = int p"
  by (rule floorLog2_power) (rule unat_push_bit_1)

end
