(* ===== verification/Cache_Block.thy ===== *)
theory Cache_Block
  imports Sim_Utils
begin

text \<open>
  The per-line state of a cache: common/core/memory_subsystem/cache/cache_state.h,
  cache_block_info.cc, pr_l1_cache_block_info.h, pr_l2_cache_block_info.cc and
  shared_cache_block_info.cc, with the component numbers of mem_component.h.

  One record holds the fields of \<open>CacheBlockInfo\<close> and the one field a subclass adds
  (\<open>m_cached_loc_bitvec\<close> of \<open>PrL2CacheBlockInfo\<close>). The virtual \<open>invalidate\<close> and
  \<open>clone\<close> dispatch on \<open>block_kind\<close>, the object's dynamic type. The sharer set of
  \<open>SharedCacheBlockInfo\<close> is compiled out (\<open>ENABLE_TRACK_SHARING_PREVCACHES\<close> is undefined).
\<close>

datatype component_t = INVALID_MEM_COMPONENT | CORE | L1_ICACHE | L1_DCACHE | L2_CACHE | L3_CACHE
  | L4_CACHE | UNNAMED_CACHE nat | LAST_LEVEL_CACHE | TAG_DIR | NUCA_CACHE | DRAM_CACHE | DRAM

text \<open>The enumerators' values; \<open>UNNAMED_CACHE k\<close> is one of the levels between L4 and the last.\<close>

fun component_num :: "component_t \<Rightarrow> nat" where
  "component_num INVALID_MEM_COMPONENT = 0"
| "component_num CORE = 1"
| "component_num L1_ICACHE = 2"
| "component_num L1_DCACHE = 3"
| "component_num L2_CACHE = 4"
| "component_num L3_CACHE = 5"
| "component_num L4_CACHE = 6"
| "component_num (UNNAMED_CACHE k) = 7 + k"
| "component_num LAST_LEVEL_CACHE = 20"
| "component_num TAG_DIR = 21"
| "component_num NUCA_CACHE = 22"
| "component_num DRAM_CACHE = 23"
| "component_num DRAM = 24"

fun MemComponentString :: "component_t \<Rightarrow> string" where
  "MemComponentString CORE = ''core''"
| "MemComponentString L1_ICACHE = ''l1i''"
| "MemComponentString L1_DCACHE = ''l1d''"
| "MemComponentString L2_CACHE = ''l2''"
| "MemComponentString L3_CACHE = ''l3''"
| "MemComponentString L4_CACHE = ''l4''"
| "MemComponentString TAG_DIR = ''directory''"
| "MemComponentString NUCA_CACHE = ''nuca-cache''"
| "MemComponentString DRAM_CACHE = ''dram-cache''"
| "MemComponentString DRAM = ''dram''"
| "MemComponentString _ = ''????''"

text \<open>The kinds of memory accesses of a core (core.h).\<close>

datatype mem_op_t = MEM_READ | MEM_READ_EX | MEM_WRITE

datatype cstate_t = INVALID | SHARED | SHARED_UPGRADING | EXCLUSIVE | OWNED | MODIFIED
  | INVALID_COLD | INVALID_EVICT | INVALID_COHERENCY

definition readable :: "cstate_t \<Rightarrow> bool" where
  "readable c \<longleftrightarrow> c = MODIFIED \<or> c = OWNED \<or> c = SHARED \<or> c = EXCLUSIVE"

definition writable :: "cstate_t \<Rightarrow> bool" where
  "writable c \<longleftrightarrow> c = MODIFIED"

datatype cache_t = INVALID_CACHE_TYPE | PR_L1_CACHE | PR_L2_CACHE | SHARED_CACHE

datatype block_kind = BaseBlock | PrL1Block | PrL2Block | SharedBlock

datatype option_t = PREFETCH | WARMUP

fun option_num :: "option_t \<Rightarrow> nat" where
  "option_num PREFETCH = 0"
| "option_num WARMUP = 1"

fun getOptionName :: "option_t \<Rightarrow> string" where
  "getOptionName PREFETCH = ''prefetch''"
| "getOptionName WARMUP = ''warmup''"

record cache_block =
  kind :: block_kind
  m_tag :: addr
  m_cstate :: cstate_t
  m_owner :: u64
  m_used :: u8
  m_options :: u8
  m_cached_loc_bitvec :: u32

definition CacheBlockInfo :: "block_kind \<Rightarrow> addr \<Rightarrow> cstate_t \<Rightarrow> u64 \<Rightarrow> cache_block" where
  "CacheBlockInfo k tag cstate options =
     \<lparr>kind = k, m_tag = tag, m_cstate = cstate, m_owner = 0, m_used = 0, m_options = ucast options,
      m_cached_loc_bitvec = 0\<rparr>"

fun create_block :: "cache_t \<Rightarrow> cache_block res" where
  "create_block PR_L1_CACHE = Inr (CacheBlockInfo PrL1Block (-1) INVALID 0)"
| "create_block PR_L2_CACHE = Inr (CacheBlockInfo PrL2Block (-1) INVALID 0)"
| "create_block SHARED_CACHE = Inr (CacheBlockInfo SharedBlock (-1) INVALID 0)"
| "create_block INVALID_CACHE_TYPE = Inl (Log_Error ''Unrecognized cache type'')"

definition isValid :: "cache_block \<Rightarrow> bool" where
  "isValid b \<longleftrightarrow> m_tag b \<noteq> -1"

definition base_invalidate :: "cache_block \<Rightarrow> cache_block" where
  "base_invalidate b = b\<lparr>m_tag := -1, m_cstate := INVALID\<rparr>"

definition l2_invalidate :: "cache_block \<Rightarrow> cache_block" where
  "l2_invalidate b = base_invalidate (b\<lparr>m_cached_loc_bitvec := 0\<rparr>)"

definition shared_invalidate :: "cache_block \<Rightarrow> cache_block" where
  "shared_invalidate b = base_invalidate b"

definition invalidate :: "cache_block \<Rightarrow> cache_block" where
  "invalidate b = (case kind b of PrL2Block \<Rightarrow> l2_invalidate b | SharedBlock \<Rightarrow> shared_invalidate b
     | _ \<Rightarrow> base_invalidate b)"

text \<open>\<open>clone\<close> overwrites the fields of \<open>this\<close>, the first argument.\<close>

definition base_clone :: "cache_block \<Rightarrow> cache_block \<Rightarrow> cache_block" where
  "base_clone b src = b\<lparr>m_tag := m_tag src, m_cstate := m_cstate src, m_owner := m_owner src,
     m_used := m_used src, m_options := m_options src\<rparr>"

definition l2_clone :: "cache_block \<Rightarrow> cache_block \<Rightarrow> cache_block" where
  "l2_clone b src = base_clone (b\<lparr>m_cached_loc_bitvec := m_cached_loc_bitvec src\<rparr>) src"

definition shared_clone :: "cache_block \<Rightarrow> cache_block \<Rightarrow> cache_block" where
  "shared_clone b src = base_clone b src"

definition clone :: "cache_block \<Rightarrow> cache_block \<Rightarrow> cache_block" where
  "clone b src = (case kind b of PrL2Block \<Rightarrow> l2_clone b src | SharedBlock \<Rightarrow> shared_clone b src
     | _ \<Rightarrow> base_clone b src)"

definition hasOption :: "cache_block \<Rightarrow> option_t \<Rightarrow> bool" where
  "hasOption b opt \<longleftrightarrow> m_options b AND push_bit (option_num opt) 1 \<noteq> 0"

definition setOption :: "cache_block \<Rightarrow> option_t \<Rightarrow> cache_block" where
  "setOption b opt = b\<lparr>m_options := m_options b OR push_bit (option_num opt) 1\<rparr>"

definition clearOption :: "cache_block \<Rightarrow> option_t \<Rightarrow> cache_block" where
  "clearOption b opt = b\<lparr>m_options := m_options b AND ucast (NOT (push_bit (option_num opt) 1 :: u64))\<rparr>"

text \<open>Usage is tracked per 8-byte element; the result says whether a bit was newly set.\<close>

definition BitsUsedOffset :: nat where "BitsUsedOffset = 3"

definition updateUsage_mask :: "cache_block \<Rightarrow> u8 \<Rightarrow> bool \<times> cache_block" where
  "updateUsage_mask b used = (used AND NOT (m_used b) \<noteq> 0, b\<lparr>m_used := m_used b OR used\<rparr>)"

definition usage_mask :: "u32 \<Rightarrow> u32 \<Rightarrow> u64" where
  "usage_mask off sz =
     (let first = drop_bit BitsUsedOffset off;
          last = drop_bit BitsUsedOffset (off + sz - 1);
          first_mask = push_bit (unat first) 1 - 1;
          last_mask = push_bit (unat last + 1) 1 - 1
      in last_mask AND NOT first_mask)"

definition updateUsage :: "cache_block \<Rightarrow> u32 \<Rightarrow> u32 \<Rightarrow> bool \<times> cache_block" where
  "updateUsage b off sz = updateUsage_mask b (ucast (usage_mask off sz))"

subsection \<open>PrL2CacheBlockInfo: which L1 holds the line\<close>

definition getCachedLoc :: "cache_block \<Rightarrow> component_t res" where
  "getCachedLoc b =
     (let v = m_cached_loc_bitvec b in
      assertE (v \<noteq> push_bit (component_num L1_ICACHE) 1 OR push_bit (component_num L1_DCACHE) 1)
        ''m_cached_loc_bitvec''
        (if v = push_bit (component_num L1_ICACHE) 1 then Inr L1_ICACHE
         else if v = push_bit (component_num L1_DCACHE) 1 then Inr L1_DCACHE
         else if v = 0 then Inr INVALID_MEM_COMPONENT
         else Inl (Log_Error ''m_cached_loc_bitvec'')))"

definition setCachedLoc :: "cache_block \<Rightarrow> component_t \<Rightarrow> cache_block res" where
  "setCachedLoc b cached_loc =
     assertE (cached_loc \<noteq> INVALID_MEM_COMPONENT) ''cached_loc''
     (assertE (m_cached_loc_bitvec b AND push_bit (component_num cached_loc) 1 = 0) ''cached_loc already set''
       (Inr (b\<lparr>m_cached_loc_bitvec := m_cached_loc_bitvec b OR push_bit (component_num cached_loc) 1\<rparr>)))"

definition clearCachedLoc :: "cache_block \<Rightarrow> component_t \<Rightarrow> cache_block res" where
  "clearCachedLoc b cached_loc =
     assertE (cached_loc \<noteq> INVALID_MEM_COMPONENT) ''cached_loc''
     (assertE (m_cached_loc_bitvec b AND push_bit (component_num cached_loc) 1 \<noteq> 0) ''cached_loc not set''
       (Inr (b\<lparr>m_cached_loc_bitvec := m_cached_loc_bitvec b AND NOT (push_bit (component_num cached_loc) 1)\<rparr>)))"

subsection \<open>Lemmas\<close>

lemma isValid_invalidate [simp]: "\<not> isValid (invalidate b)"
  by (simp add: isValid_def invalidate_def l2_invalidate_def shared_invalidate_def base_invalidate_def
      split: block_kind.split)

lemma m_tag_invalidate [simp]: "m_tag (invalidate b) = -1"
  and m_cstate_invalidate [simp]: "m_cstate (invalidate b) = INVALID"
  by (simp_all add: invalidate_def l2_invalidate_def shared_invalidate_def base_invalidate_def
      split: block_kind.split)

lemmas clone_defs = clone_def l2_clone_def shared_clone_def base_clone_def

lemma m_tag_clone [simp]: "m_tag (clone b src) = m_tag src"
  and m_cstate_clone [simp]: "m_cstate (clone b src) = m_cstate src"
  and kind_clone [simp]: "kind (clone b src) = kind b"
  by (simp_all add: clone_defs split: block_kind.split)

lemma isValid_clone [simp]: "isValid (clone b src) \<longleftrightarrow> isValid src"
  by (simp add: isValid_def)

lemma create_block_Inr:
  "create_block t = Inr b \<Longrightarrow> m_tag b = -1 \<and> m_cstate b = INVALID \<and> \<not> isValid b"
  by (cases t) (auto simp: CacheBlockInfo_def isValid_def)

lemma mask_sub_1: "push_bit k (1 :: 'a::len word) - 1 = mask k"
  by (simp add: mask_eq_exp_minus_1 push_bit_eq_mult)

text \<open>The mask covers exactly the elements from the first to the last byte accessed.\<close>

lemma bit_usage_mask:
  assumes "0 < unat sz" and "unat off + unat sz < 2 ^ 32" and "i < 64"
  shows "bit (usage_mask off sz) i \<longleftrightarrow> unat off div 8 \<le> i \<and> i \<le> (unat off + unat sz - 1) div 8"
proof -
  have sum: "unat (off + sz) = unat off + unat sz"
    using assms(2) unat_add_lem [of off sz] by simp
  then have "off + sz \<noteq> 0" using assms(1) by (metis add_gr_0 less_irrefl unat_0)
  then have pred: "unat (off + sz - 1) = unat off + unat sz - 1"
    by (simp add: unat_minus_one sum)
  have dr: "unat (drop_bit BitsUsedOffset w) = unat w div 8" for w :: u32
    using unat_drop_bit_eq [of BitsUsedOffset w]
    by (simp add: BitsUsedOffset_def drop_bit_eq_div [of 3 "unat w"])
  have "usage_mask off sz = mask ((unat off + unat sz - 1) div 8 + 1) AND NOT (mask (unat off div 8))"
    by (simp only: usage_mask_def Let_def mask_sub_1 dr pred)
  then show ?thesis
    using assms(3) by (auto simp: bit_and_iff bit_not_iff bit_mask_iff)
qed

lemma and_push_bit_1: "w AND push_bit k 1 \<noteq> 0 \<longleftrightarrow> bit (w :: 'a::len word) k"
  by (simp add: and_exp_eq_0_iff_not_bit)

end
