(* ===== verification/Replacement.thy ===== *)
theory Replacement
  imports Cache_Block
begin

text \<open>
  The replacement policies of common/core/memory_subsystem/cache/cache_set_*.cc, each as a
  state, \<open>getReplacementIndex\<close> (the way to fill next and the new state) and
  \<open>updateReplacementIndex\<close> (a hit on a way). The state sees the set's blocks only through
  \<open>isValid\<close> and \<open>isValidReplacement\<close>; the associativity is the number of blocks.
  \<open>UInt8\<close> counters are 8-bit words. The recursions of round robin and random replacement,
  which need not end, are partial functions.
\<close>

definition isValidReplacement :: "cache_block list \<Rightarrow> nat \<Rightarrow> bool" where
  "isValidReplacement bs i \<longleftrightarrow> m_cstate (bs ! i) \<noteq> SHARED_UPGRADING"

definition first_free :: "cache_block list \<Rightarrow> nat option" where
  "first_free bs = find_first (\<lambda>b. \<not> isValid b) bs"

subsection \<open>Round robin\<close>

partial_function (option) rr_getReplacementIndex ::
  "cache_block list \<Rightarrow> nat \<Rightarrow> (nat \<times> nat) option" where [code]:
  "rr_getReplacementIndex bs r =
     (let r' = (if r = 0 then length bs - 1 else r - 1) in
      if \<not> isValidReplacement bs r' then rr_getReplacementIndex bs r' else Some (r, r'))"

definition rr_init :: "nat \<Rightarrow> nat" where
  "rr_init n = n - 1"

definition rr_updateReplacementIndex :: "nat \<Rightarrow> nat \<Rightarrow> nat" where
  "rr_updateReplacementIndex accessed_index r = r"

subsection \<open>LRU\<close>

definition lru_init :: "nat \<Rightarrow> u8 list" where
  "lru_init n = map of_nat [0..<n]"

definition moveToMRU :: "nat \<Rightarrow> u8 list \<Rightarrow> u8 list" where
  "moveToMRU accessed_index bits =
     (map (\<lambda>x. if x < bits ! accessed_index then x + 1 else x) bits)[accessed_index := 0]"

text \<open>The scan: the first free way, else the replaceable way with the highest bits.\<close>

fun lru_scan :: "nat \<Rightarrow> nat \<Rightarrow> u8 \<Rightarrow> (cache_block \<times> u8) list \<Rightarrow> nat" where
  "lru_scan i index max_bits [] = index"
| "lru_scan i index max_bits ((b, l) # rest) =
     (if \<not> isValid b then i
      else if max_bits < l \<and> m_cstate b \<noteq> SHARED_UPGRADING then lru_scan (Suc i) i l rest
      else lru_scan (Suc i) index max_bits rest)"

definition lru_getReplacementIndex :: "cache_block list \<Rightarrow> u8 list \<Rightarrow> (nat \<times> u8 list) res" where
  "lru_getReplacementIndex bs bits =
     (let index = lru_scan 0 0 0 (zip bs bits) in
      assertE (index < length bs) ''Error Finding LRU bits'' (Inr (index, moveToMRU index bits)))"

text \<open>The hit counters per stack position, shared by all sets of a cache; a null pointer when
  the set was created without them.\<close>

type_synonym set_info = "u64 list option"

definition set_info_init :: "nat \<Rightarrow> u64 list" where
  "set_info_init n = replicate n 0"

definition set_info_increment :: "nat \<Rightarrow> set_info \<Rightarrow> set_info res" where
  "set_info_increment index info = (case info of
       None \<Rightarrow> Inl (Null_Pointer ''m_set_info'')
     | Some acc \<Rightarrow> assertE (index < length acc) ''Index >= Associativity''
         (Inr (Some (acc[index := acc ! index + 1]))))"

definition lru_updateReplacementIndex :: "nat \<Rightarrow> set_info \<Rightarrow> u8 list \<Rightarrow> (set_info \<times> u8 list) res" where
  "lru_updateReplacementIndex accessed_index info bits =
     bindE (set_info_increment (unat (bits ! accessed_index)) info)
       (\<lambda>info'. Inr (info', moveToMRU accessed_index bits))"

subsection \<open>MRU\<close>

definition mru_updateReplacementIndex :: "nat \<Rightarrow> u8 list \<Rightarrow> u8 list" where
  "mru_updateReplacementIndex accessed_index bits = moveToMRU accessed_index bits"

fun mru_search :: "cache_block list \<Rightarrow> u8 list \<Rightarrow> nat \<Rightarrow> nat \<Rightarrow> nat option" where
  "mru_search bs bits 0 target = None"
| "mru_search bs bits (Suc k) target =
     (case find_first (\<lambda>(b, l). unat l = target \<and> m_cstate b \<noteq> SHARED_UPGRADING) (zip bs bits) of
        Some i \<Rightarrow> Some i
      | None \<Rightarrow> mru_search bs bits k (Suc target))"

definition mru_getReplacementIndex :: "cache_block list \<Rightarrow> u8 list \<Rightarrow> (nat \<times> u8 list) res" where
  "mru_getReplacementIndex bs bits = (case first_free bs of
       Some i \<Rightarrow> Inr (i, mru_updateReplacementIndex i bits)
     | None \<Rightarrow> (case mru_search bs bits (length bs) 0 of
         Some i \<Rightarrow> Inr (i, mru_updateReplacementIndex i bits)
       | None \<Rightarrow> Inl (Log_Error ''Error Finding LRU bits'')))"

subsection \<open>NMRU, NRU: a search from a replacement pointer\<close>

definition next_ptr :: "nat \<Rightarrow> u8 \<Rightarrow> u8" where
  "next_ptr n ptr = of_nat ((unat ptr + 1) mod n)"

text \<open>\<open>k\<close> steps of the pointer; the pointer ends one past a hit.\<close>

fun ptr_search :: "(nat \<Rightarrow> bool) \<Rightarrow> nat \<Rightarrow> nat \<Rightarrow> u8 \<Rightarrow> nat option \<times> u8" where
  "ptr_search P n 0 ptr = (None, ptr)"
| "ptr_search P n (Suc k) ptr =
     (if P (unat ptr) then (Some (unat ptr), next_ptr n ptr) else ptr_search P n k (next_ptr n ptr))"

definition nmru_updateReplacementIndex :: "nat \<Rightarrow> u8 list \<times> u8 \<Rightarrow> u8 list \<times> u8" where
  "nmru_updateReplacementIndex accessed_index s = (moveToMRU accessed_index (fst s), snd s)"

definition nmru_getReplacementIndex ::
  "cache_block list \<Rightarrow> u8 list \<times> u8 \<Rightarrow> (nat \<times> u8 list \<times> u8) res" where
  "nmru_getReplacementIndex bs s = (case first_free bs of
       Some i \<Rightarrow> Inr (i, nmru_updateReplacementIndex i s)
     | None \<Rightarrow> (let (bits, ptr) = s in
         case ptr_search (\<lambda>i. bits ! i \<noteq> 0 \<and> isValidReplacement bs i) (length bs) (length bs) ptr of
           (Some index, ptr') \<Rightarrow> Inr (index, nmru_updateReplacementIndex index (bits, ptr'))
         | (None, ptr') \<Rightarrow> Inl (Log_Error ''Error Finding LRU bits'')))"

record nru =
  nru_bits :: "u8 list"
  nru_num_bits_set :: u8
  nru_pointer :: u8

definition nru_init :: "nat \<Rightarrow> nru" where
  "nru_init n = \<lparr>nru_bits = replicate n 0, nru_num_bits_set = 0, nru_pointer = 0\<rparr>"

definition nru_updateReplacementIndex :: "nat \<Rightarrow> nat \<Rightarrow> nru \<Rightarrow> nru" where
  "nru_updateReplacementIndex n accessed_index s =
     (let bits = (nru_bits s)[accessed_index := 1]; num = nru_num_bits_set s + 1 in
      if unat num = n then s\<lparr>nru_bits := map (\<lambda>_. 0) bits, nru_num_bits_set := 0\<rparr>
      else s\<lparr>nru_bits := bits, nru_num_bits_set := num\<rparr>)"

definition nru_getReplacementIndex :: "cache_block list \<Rightarrow> nru \<Rightarrow> (nat \<times> nru) res" where
  "nru_getReplacementIndex bs s = (case first_free bs of
       Some i \<Rightarrow> Inr (i, nru_updateReplacementIndex (length bs) i s)
     | None \<Rightarrow> (case ptr_search (\<lambda>i. nru_bits s ! i = 0 \<and> isValidReplacement bs i)
           (length bs) (length bs) (nru_pointer s) of
           (Some index, ptr') \<Rightarrow>
             Inr (index, nru_updateReplacementIndex (length bs) index (s\<lparr>nru_pointer := ptr'\<rparr>))
         | (None, ptr') \<Rightarrow> Inl (Log_Error ''Error Finding LRU bits'')))"

subsection \<open>Tree PLRU for 4 and 8 ways\<close>

definition plru_init :: "nat \<Rightarrow> u8 list res" where
  "plru_init n = assertE (n = 4 \<or> n = 8) ''PLRU not implemted for associativity'' (Inr (replicate 8 0))"

definition plru_updateReplacementIndex :: "nat \<Rightarrow> nat \<Rightarrow> u8 list \<Rightarrow> u8 list res" where
  "plru_updateReplacementIndex n a b =
     (if n = 4 then Inr
       (if a = 0 then b[0 := 1, 1 := 1]
        else if a = 1 then b[0 := 1, 1 := 0]
        else if a = 2 then b[0 := 0, 2 := 1]
        else if a = 3 then b[0 := 0, 2 := 0]
        else b)
      else if n = 8 then Inr
       (if a = 0 then b[0 := 1, 1 := 1, 2 := 1]
        else if a = 1 then b[0 := 1, 1 := 1, 2 := 0]
        else if a = 2 then b[0 := 1, 1 := 0, 3 := 1]
        else if a = 3 then b[0 := 1, 1 := 0, 3 := 0]
        else if a = 4 then b[0 := 0, 4 := 1, 5 := 1]
        else if a = 5 then b[0 := 0, 4 := 1, 5 := 0]
        else if a = 6 then b[0 := 0, 4 := 0, 6 := 1]
        else if a = 7 then b[0 := 0, 4 := 0, 6 := 0]
        else b)
      else Inl (Log_Error ''PLRU doesn't support associativity''))"

definition plru_victim :: "nat \<Rightarrow> u8 list \<Rightarrow> nat res" where
  "plru_victim n b =
     (if n = 4 then Inr
       (if b ! 0 = 0 then (if b ! 1 = 0 then 0 else 1) else (if b ! 2 = 0 then 2 else 3))
      else if n = 8 then Inr
       (if b ! 0 = 0
        then (if b ! 1 = 0 then (if b ! 2 = 0 then 0 else 1) else (if b ! 3 = 0 then 2 else 3))
        else (if b ! 4 = 0 then (if b ! 5 = 0 then 4 else 5) else (if b ! 6 = 0 then 6 else 7)))
      else Inl (Log_Error ''PLRU doesn't support associativity''))"

definition plru_getReplacementIndex :: "cache_block list \<Rightarrow> u8 list \<Rightarrow> (nat \<times> u8 list) res" where
  "plru_getReplacementIndex bs b = (case first_free bs of
       Some i \<Rightarrow> bindE (plru_updateReplacementIndex (length bs) i b) (\<lambda>b'. Inr (i, b'))
     | None \<Rightarrow> bindE (plru_victim (length bs) b) (\<lambda>retValue.
         assertE (isValidReplacement bs retValue) ''PLRU selected an invalid replacement candidate''
         (bindE (plru_updateReplacementIndex (length bs) retValue b) (\<lambda>b'. Inr (retValue, b')))))"

subsection \<open>SRRIP\<close>

record srrip =
  rrip_numbits :: u8
  rrip_max :: u8
  rrip_insert :: u8
  rrip_bits :: "u8 list"
  rrip_pointer :: u8

definition srrip_init :: "u8 \<Rightarrow> nat \<Rightarrow> srrip" where
  "srrip_init numbits n =
     (let mx = ucast (push_bit (unat numbits) 1 - 1 :: u32); ins = mx - 1 in
      \<lparr>rrip_numbits = numbits, rrip_max = mx, rrip_insert = ins, rrip_bits = replicate n ins,
       rrip_pointer = 0\<rparr>)"

fun srrip_search :: "nat \<Rightarrow> u8 \<Rightarrow> nat \<Rightarrow> u8 list \<Rightarrow> u8 \<Rightarrow> (nat \<times> u8 list \<times> u8) option" where
  "srrip_search n mx 0 bits ptr = None"
| "srrip_search n mx (Suc k) bits ptr =
     (case ptr_search (\<lambda>i. bits ! i = mx) n n ptr of
        (Some i, ptr') \<Rightarrow> Some (i, bits, ptr')
      | (None, ptr') \<Rightarrow> srrip_search n mx k (map (\<lambda>x. x + 1) bits) ptr')"

definition srrip_getReplacementIndex :: "cache_block list \<Rightarrow> srrip \<Rightarrow> (nat \<times> srrip) res" where
  "srrip_getReplacementIndex bs s = (case first_free bs of
       Some i \<Rightarrow> Inr (i, s\<lparr>rrip_bits := (rrip_bits s)[i := rrip_insert s]\<rparr>)
     | None \<Rightarrow> (case srrip_search (length bs) (rrip_max s) (unat (rrip_max s) + 1) (rrip_bits s) (rrip_pointer s) of
         Some (index, bits, ptr) \<Rightarrow>
           assertE (isValidReplacement bs index) ''SRRIP selected an invalid replacement candidate''
             (Inr (index, s\<lparr>rrip_bits := bits[index := rrip_insert s], rrip_pointer := ptr\<rparr>))
       | None \<Rightarrow> Inl (Log_Error ''Error finding replacement index'')))"

definition srrip_updateReplacementIndex :: "nat \<Rightarrow> srrip \<Rightarrow> srrip" where
  "srrip_updateReplacementIndex accessed_index s =
     (if rrip_bits s ! accessed_index > 0
      then s\<lparr>rrip_bits := (rrip_bits s)[accessed_index := rrip_bits s ! accessed_index - 1]\<rparr> else s)"

subsection \<open>Random\<close>

partial_function (option) random_getReplacementIndex ::
  "cache_block list \<Rightarrow> u32 \<Rightarrow> (nat \<times> u32) option" where [code]:
  "random_getReplacementIndex bs seed = (case first_free bs of
       Some i \<Rightarrow> Some (i, seed)
     | None \<Rightarrow> (let index = unat (fst (random_next 32768 seed)) mod length bs;
                   seed' = snd (random_next 32768 seed) in
         if isValidReplacement bs index then Some (index, seed')
         else random_getReplacementIndex bs seed'))"

definition random_updateReplacementIndex :: "nat \<Rightarrow> u32 \<Rightarrow> u32" where
  "random_updateReplacementIndex accessed_index seed = seed"

end
