(* ===== verification/Replacement_Props.thy ===== *)
theory Replacement_Props
  imports Replacement
begin

text \<open>
  What each replacement policy promises, and the interface the cache sets rely on.
  The stack-based policies (LRU, MRU, NMRU) keep in \<open>m_lru_bits\<close> a permutation of the stack
  positions; \<open>recency\<close> reads it as the list of ways, most recently used first, and
  \<open>moveToMRU\<close> is shown to be move-to-front on that list.
\<close>

subsection \<open>Stack positions as a permutation\<close>

lemma unat_eq_iff: "unat x = unat y \<longleftrightarrow> x = (y :: 'a::len word)"
  by (simp add: word_unat_eq_iff)

lemma unat_u8_inc: "unat (x :: u8) < 255 \<Longrightarrow> unat (x + 1) = unat x + 1"
  using unat_add_lem [of x 1] by simp

definition stack_ok :: "nat \<Rightarrow> u8 list \<Rightarrow> bool" where
  "stack_ok n bits \<longleftrightarrow> 0 < n \<and> n \<le> 256 \<and> length bits = n \<and> distinct bits \<and> (\<forall>x \<in> set bits. unat x < n)"

lemma stack_ok_nth: "stack_ok n bits \<Longrightarrow> i < n \<Longrightarrow> unat (bits ! i) < n"
  by (auto simp: stack_ok_def)

lemma stack_ok_inj:
  "stack_ok n bits \<Longrightarrow> i < n \<Longrightarrow> j < n \<Longrightarrow> bits ! i = bits ! j \<longleftrightarrow> i = j"
  by (auto simp: stack_ok_def nth_eq_iff_index_eq)

lemma stack_ok_surj:
  assumes "stack_ok n bits" and "k < n"
  shows "\<exists>i<n. unat (bits ! i) = k"
proof -
  have "card (unat ` set bits) = n"
    using assms(1) by (subst card_image) (auto simp: stack_ok_def distinct_card unat_eq_iff intro: inj_onI)
  moreover have "unat ` set bits \<subseteq> {..<n}" using assms(1) by (auto simp: stack_ok_def)
  ultimately have "unat ` set bits = {..<n}"
    by (metis card_lessThan card_subset_eq finite_lessThan)
  with assms(2) have "k \<in> unat ` set bits" by simp
  then obtain x where "x \<in> set bits" "unat x = k" by auto
  with assms(1) show ?thesis by (metis in_set_conv_nth stack_ok_def)
qed

lemma stack_ok_lru_init: "0 < n \<Longrightarrow> n \<le> 256 \<Longrightarrow> stack_ok n (lru_init n)"
proof -
  assume n: "0 < n" "n \<le> 256"
  have u: "unat (of_nat x :: u8) = x" if "x < n" for x
    using that n by (simp add: unat_of_nat)
  have "inj_on (of_nat :: nat \<Rightarrow> u8) {0..<n}"
    by (rule inj_onI) (metis atLeastLessThan_iff u)
  with n u show ?thesis
    by (auto simp: stack_ok_def lru_init_def distinct_map)
qed

lemma length_moveToMRU [simp]: "length (moveToMRU a bits) = length bits"
  by (simp add: moveToMRU_def)

lemma unat_moveToMRU:
  assumes "stack_ok n bits" and "a < n" and "i < n"
  shows "unat (moveToMRU a bits ! i) =
    (if i = a then 0 else if unat (bits ! i) < unat (bits ! a) then unat (bits ! i) + 1 else unat (bits ! i))"
proof -
  have len: "length bits = n" using assms(1) by (simp add: stack_ok_def)
  have "unat (bits ! i + 1) = unat (bits ! i) + 1" if "bits ! i < bits ! a"
    using that unat_u8_less [of "bits ! a"] by (intro unat_u8_inc) (simp add: word_less_nat_alt)
  with assms(2,3) len show ?thesis
    by (simp add: moveToMRU_def word_less_nat_alt)
qed

lemma stack_ok_moveToMRU:
  assumes "stack_ok n bits" and "a < n"
  shows "stack_ok n (moveToMRU a bits)"
proof -
  let ?b = "moveToMRU a bits"
  have len: "length ?b = n" using assms(1) by (simp add: stack_ok_def)
  have lt: "unat (?b ! i) < n" if "i < n" for i
    using unat_moveToMRU [OF assms that] stack_ok_nth [OF assms(1) that] stack_ok_nth [OF assms]
    by (auto split: if_splits)
  have "i = j" if "i < n" "j < n" "?b ! i = ?b ! j" for i j
  proof -
    let ?u = "\<lambda>k. unat (bits ! k)"
    have eq: "?u k = ?u l \<longleftrightarrow> k = l" if "k < n" "l < n" for k l
      using stack_ok_inj [OF assms(1) that] by (simp add: unat_eq_iff)
    have b: "(if i = a then 0 else if ?u i < ?u a then ?u i + 1 else ?u i) =
        (if j = a then 0 else if ?u j < ?u a then ?u j + 1 else ?u j)"
      using unat_moveToMRU [OF assms that(1)] unat_moveToMRU [OF assms that(2)] that(3) by simp
    have "?u i = ?u j"
      using b eq [OF that(1) assms(2)] eq [OF that(2) assms(2)]
      by (cases "i = a"; cases "j = a"; simp split: if_splits)
    with eq [OF that(1,2)] show ?thesis by simp
  qed
  then have "distinct ?b" unfolding distinct_conv_nth len by blast
  with assms(1) len lt show ?thesis
    by (auto simp: stack_ok_def in_set_conv_nth)
qed

subsection \<open>The recency list\<close>

definition recency :: "u8 list \<Rightarrow> nat list" where
  "recency bits = map (\<lambda>k. the (find_first (\<lambda>x. unat x = k) bits)) [0..<length bits]"

lemma recency_nth:
  assumes "stack_ok n bits" and "i < n"
  shows "recency bits ! unat (bits ! i) = i"
proof -
  have len: "length bits = n" using assms(1) by (simp add: stack_ok_def)
  have "find_first (\<lambda>x. unat x = unat (bits ! i)) bits = Some i"
    by (rule find_first_unique) (use assms len stack_ok_inj [OF assms(1)] in \<open>auto simp: unat_eq_iff\<close>)
  with stack_ok_nth [OF assms] len show ?thesis by (simp add: recency_def)
qed

lemma length_recency [simp]: "length (recency bits) = length bits"
  by (simp add: recency_def)

lemma recency_pos:
  assumes "stack_ok n bits" and "k < n"
  shows "recency bits ! k < n" and "unat (bits ! (recency bits ! k)) = k"
proof -
  obtain i where "i < n" "unat (bits ! i) = k" using stack_ok_surj [OF assms] by blast
  with recency_nth [OF assms(1)] show "recency bits ! k < n" "unat (bits ! (recency bits ! k)) = k"
    by auto
qed

lemma recency_unique:
  assumes "stack_ok n bits" and "length r = n" and "\<And>k. k < n \<Longrightarrow> r ! k < n \<and> unat (bits ! (r ! k)) = k"
  shows "recency bits = r"
proof (rule nth_equalityI)
  show "length (recency bits) = length r" using assms by (simp add: stack_ok_def)
next
  fix k assume "k < length (recency bits)"
  then have k: "k < n" using assms(1) by (simp add: stack_ok_def)
  with assms(3) recency_nth [OF assms(1), of "r ! k"] show "recency bits ! k = r ! k" by auto
qed

lemma distinct_recency:
  assumes "stack_ok n bits"
  shows "distinct (recency bits)"
proof -
  have len: "length (recency bits) = n" using assms by (simp add: stack_ok_def)
  have "i = j" if "i < n" "j < n" "recency bits ! i = recency bits ! j" for i j
    using recency_pos(2) [OF assms that(1)] recency_pos(2) [OF assms that(2)] that(3) by metis
  then show ?thesis unfolding distinct_conv_nth len by blast
qed

lemma set_recency: "stack_ok n bits \<Longrightarrow> set (recency bits) = {..<n}"
proof -
  assume s: "stack_ok n bits"
  have "set (recency bits) \<subseteq> {..<n}"
    using recency_pos(1) [OF s] s by (auto simp: in_set_conv_nth stack_ok_def)
  moreover have "card (set (recency bits)) = n"
    using distinct_recency [OF s] s by (simp add: distinct_card stack_ok_def)
  ultimately show ?thesis by (metis card_lessThan card_subset_eq finite_lessThan)
qed

lemma nth_remove1_distinct:
  "distinct xs \<Longrightarrow> p < length xs \<Longrightarrow> k < length xs - 1 \<Longrightarrow>
    remove1 (xs ! p) xs ! k = (if k < p then xs ! k else xs ! Suc k)"
proof (induction xs arbitrary: p k)
  case Nil
  then show ?case by simp
next
  case (Cons x xs)
  show ?case
  proof (cases p)
    case 0
    then show ?thesis by simp
  next
    case (Suc q)
    with Cons.prems have q: "q < length xs" "x \<noteq> xs ! q" by auto
    show ?thesis
    proof (cases k)
      case 0
      with Suc q show ?thesis by simp
    next
      case (Suc j)
      with Cons.prems Cons.IH [of q j] q \<open>p = Suc q\<close> show ?thesis by auto
    qed
  qed
qed

lemma recency_moveToMRU:
  assumes "stack_ok n bits" and "a < n"
  shows "recency (moveToMRU a bits) = a # remove1 a (recency bits)"
proof (rule recency_unique [OF stack_ok_moveToMRU [OF assms]])
  let ?r = "recency bits" and ?p = "unat (bits ! a)"
  have len: "length ?r = n" using assms(1) by (simp add: stack_ok_def)
  have p: "?p < n" "?r ! ?p = a" using stack_ok_nth [OF assms] recency_nth [OF assms] by auto
  then have "a \<in> set ?r" using len by (metis nth_mem)
  then show "length (a # remove1 a ?r) = n" using len p(1) by (simp add: length_remove1)
  fix k assume k: "k < n"
  show "(a # remove1 a ?r) ! k < n \<and> unat (moveToMRU a bits ! ((a # remove1 a ?r) ! k)) = k"
  proof (cases k)
    case 0
    with assms k show ?thesis by (simp add: unat_moveToMRU)
  next
    case (Suc j)
    let ?i = "if j < ?p then ?r ! j else ?r ! Suc j"
    have nth: "remove1 a ?r ! j = ?i"
      using nth_remove1_distinct [OF distinct_recency [OF assms(1)], of ?p j] p len k Suc by simp
    have "?i < n" "unat (bits ! ?i) = (if j < ?p then j else Suc j)"
      using recency_pos [OF assms(1), of j] recency_pos [OF assms(1), of "Suc j"] k Suc by auto
    with nth Suc unat_moveToMRU [OF assms, of ?i] show ?thesis
      by (auto split: if_splits)
  qed
qed

text \<open>Histories: accessing the ways \<open>as\<close> in order moves each to the front in turn.\<close>

definition touch_all :: "nat list \<Rightarrow> u8 list \<Rightarrow> u8 list" where
  "touch_all as bits = fold moveToMRU as bits"

definition move_to_front :: "nat \<Rightarrow> nat list \<Rightarrow> nat list" where
  "move_to_front a r = a # remove1 a r"

lemma recency_lru_init: "0 < n \<Longrightarrow> n \<le> 256 \<Longrightarrow> recency (lru_init n) = [0..<n]"
proof (rule recency_unique [OF stack_ok_lru_init])
  fix k assume "0 < n" "n \<le> 256" "k < n"
  then show "[0..<n] ! k < n \<and> unat (lru_init n ! ([0..<n] ! k)) = k"
    by (simp add: lru_init_def unat_of_nat)
qed simp_all

lemma touch_all_refines:
  assumes "stack_ok n bits" and "\<forall>a \<in> set as. a < n"
  shows "stack_ok n (touch_all as bits) \<and> recency (touch_all as bits) = fold move_to_front as (recency bits)"
  using assms
proof (induction as arbitrary: bits)
  case Nil
  then show ?case by (simp add: touch_all_def)
next
  case (Cons a as)
  then have "stack_ok n (moveToMRU a bits)" and "recency (moveToMRU a bits) = move_to_front a (recency bits)"
    by (simp_all add: stack_ok_moveToMRU recency_moveToMRU move_to_front_def)
  with Cons show ?case by (simp add: touch_all_def)
qed

subsection \<open>Free and replaceable ways\<close>

definition all_valid :: "cache_block list \<Rightarrow> bool" where
  "all_valid bs \<longleftrightarrow> list_all isValid bs"

definition all_replaceable :: "cache_block list \<Rightarrow> bool" where
  "all_replaceable bs \<longleftrightarrow> list_all (\<lambda>b. m_cstate b \<noteq> SHARED_UPGRADING) bs"

lemma first_free_None_iff: "first_free bs = None \<longleftrightarrow> all_valid bs"
  by (simp add: first_free_def find_first_None_iff all_valid_def list_all_iff)

lemma first_free_SomeD: "first_free bs = Some i \<Longrightarrow> i < length bs \<and> \<not> isValid (bs ! i)"
  using find_first_SomeD [of _ bs i] by (auto simp: first_free_def)

lemma all_replaceable_nth: "all_replaceable bs \<Longrightarrow> i < length bs \<Longrightarrow> isValidReplacement bs i"
  by (simp add: all_replaceable_def isValidReplacement_def list_all_length)

subsection \<open>LRU\<close>

lemma lru_scan_free:
  "find_first (\<lambda>b. \<not> isValid b) bs = Some k \<Longrightarrow> length bits = length bs \<Longrightarrow>
    lru_scan i index mx (zip bs bits) = i + k"
proof (induction bs arbitrary: bits i index mx k)
  case Nil
  then show ?case by simp
next
  case (Cons b bs)
  from Cons.prems(2) obtain l ls where l: "bits = l # ls" "length ls = length bs" by (cases bits) auto
  show ?case
  proof (cases "isValid b")
    case False
    with Cons.prems(1) l show ?thesis by simp
  next
    case True
    with Cons.prems(1) obtain j where "find_first (\<lambda>b. \<not> isValid b) bs = Some j" "k = Suc j" by auto
    with Cons.IH [OF _ l(2)] True l show ?thesis by simp
  qed
qed

definition scan_max :: "nat \<Rightarrow> nat \<Rightarrow> u8 \<Rightarrow> (cache_block \<times> u8) list \<Rightarrow> nat \<Rightarrow> bool" where
  "scan_max i index mx xs r \<longleftrightarrow>
    (\<exists>k<length xs. r = i + k \<and> m_cstate (fst (xs ! k)) \<noteq> SHARED_UPGRADING \<and> mx < snd (xs ! k) \<and>
       (\<forall>x \<in> set xs. m_cstate (fst x) \<noteq> SHARED_UPGRADING \<longrightarrow> snd x \<le> snd (xs ! k))) \<or>
    (r = index \<and> (\<forall>x \<in> set xs. m_cstate (fst x) \<noteq> SHARED_UPGRADING \<longrightarrow> snd x \<le> mx))"

lemma lru_scan_max:
  "\<forall>x \<in> set xs. isValid (fst x) \<Longrightarrow> scan_max i index mx xs (lru_scan i index mx xs)"
proof (induction xs arbitrary: i index mx)
  case Nil
  then show ?case by (simp add: scan_max_def)
next
  case (Cons x xs)
  obtain b l where x: "x = (b, l)" by (cases x)
  show ?case
  proof (cases "mx < l \<and> m_cstate b \<noteq> SHARED_UPGRADING")
    case True
    have ih: "scan_max (Suc i) i l xs (lru_scan (Suc i) i l xs)" using Cons by simp
    let ?r = "lru_scan (Suc i) i l xs"
    from ih have "scan_max i index mx (x # xs) ?r"
      unfolding scan_max_def [of "Suc i"]
    proof
      assume "\<exists>k<length xs. ?r = Suc i + k \<and> m_cstate (fst (xs ! k)) \<noteq> SHARED_UPGRADING \<and> l < snd (xs ! k) \<and>
       (\<forall>x \<in> set xs. m_cstate (fst x) \<noteq> SHARED_UPGRADING \<longrightarrow> snd x \<le> snd (xs ! k))"
      then obtain k where "k < length xs" "?r = Suc i + k" "m_cstate (fst (xs ! k)) \<noteq> SHARED_UPGRADING"
        "l < snd (xs ! k)" "\<forall>x \<in> set xs. m_cstate (fst x) \<noteq> SHARED_UPGRADING \<longrightarrow> snd x \<le> snd (xs ! k)"
        by blast
      then show ?thesis
        unfolding scan_max_def using True x by (intro disjI1 exI [of _ "Suc k"]) auto
    next
      assume "?r = i \<and> (\<forall>x \<in> set xs. m_cstate (fst x) \<noteq> SHARED_UPGRADING \<longrightarrow> snd x \<le> l)"
      then show ?thesis
        unfolding scan_max_def using True x by (intro disjI1 exI [of _ 0]) auto
    qed
    with True x Cons.prems show ?thesis by simp
  next
    case False
    have ih: "scan_max (Suc i) index mx xs (lru_scan (Suc i) index mx xs)" using Cons by simp
    let ?r = "lru_scan (Suc i) index mx xs"
    from ih have "scan_max i index mx (x # xs) ?r"
      unfolding scan_max_def [of "Suc i"]
    proof
      assume "\<exists>k<length xs. ?r = Suc i + k \<and> m_cstate (fst (xs ! k)) \<noteq> SHARED_UPGRADING \<and> mx < snd (xs ! k) \<and>
       (\<forall>x \<in> set xs. m_cstate (fst x) \<noteq> SHARED_UPGRADING \<longrightarrow> snd x \<le> snd (xs ! k))"
      then obtain k where "k < length xs" "?r = Suc i + k" "m_cstate (fst (xs ! k)) \<noteq> SHARED_UPGRADING"
        "mx < snd (xs ! k)" "\<forall>x \<in> set xs. m_cstate (fst x) \<noteq> SHARED_UPGRADING \<longrightarrow> snd x \<le> snd (xs ! k)"
        by blast
      then show ?thesis
        unfolding scan_max_def using False x by (intro disjI1 exI [of _ "Suc k"]) auto
    next
      assume "?r = index \<and> (\<forall>x \<in> set xs. m_cstate (fst x) \<noteq> SHARED_UPGRADING \<longrightarrow> snd x \<le> mx)"
      then show ?thesis
        unfolding scan_max_def using False x by (intro disjI2) auto
    qed
    with False x Cons.prems show ?thesis by auto
  qed
qed

lemma zip_nth_mem: "j < length xs \<Longrightarrow> length ys = length xs \<Longrightarrow> (xs ! j, ys ! j) \<in> set (zip xs ys)"
  by (auto simp: set_zip)

lemma all_valid_zip:
  "all_valid bs \<Longrightarrow> \<forall>x \<in> set (zip bs bits). isValid (fst x)"
  by (auto simp: all_valid_def list_all_iff dest: set_zip_leftD)

lemma lru_scan_cases:
  assumes "length bits = length bs" and "0 < length bs" and "all_valid bs"
  shows "\<exists>i<length bs. lru_scan 0 0 0 (zip bs bits) = i \<and>
    (\<forall>j<length bs. isValidReplacement bs j \<and> 0 < bits ! j \<longrightarrow> isValidReplacement bs i \<and> bits ! j \<le> bits ! i)"
proof -
  let ?r = "lru_scan 0 0 0 (zip bs bits)"
  from lru_scan_max [OF all_valid_zip [OF assms(3), of bits], of 0 0 0]
  show ?thesis
    unfolding scan_max_def
  proof
    assume "\<exists>k<length (zip bs bits). ?r = 0 + k \<and> m_cstate (fst (zip bs bits ! k)) \<noteq> SHARED_UPGRADING \<and>
       0 < snd (zip bs bits ! k) \<and>
       (\<forall>x \<in> set (zip bs bits). m_cstate (fst x) \<noteq> SHARED_UPGRADING \<longrightarrow> snd x \<le> snd (zip bs bits ! k))"
    then obtain k where k: "k < length bs" "?r = k" "isValidReplacement bs k"
      and ball: "\<forall>x \<in> set (zip bs bits). m_cstate (fst x) \<noteq> SHARED_UPGRADING \<longrightarrow> snd x \<le> bits ! k"
      using assms(1) by (auto simp: isValidReplacement_def)
    have "bits ! j \<le> bits ! k" if "j < length bs" "isValidReplacement bs j" for j
      using ball zip_nth_mem [of j bs bits] that assms(1) by (force simp: isValidReplacement_def)
    with k show ?thesis by blast
  next
    assume "?r = 0 \<and> (\<forall>x \<in> set (zip bs bits). m_cstate (fst x) \<noteq> SHARED_UPGRADING \<longrightarrow> snd x \<le> 0)"
    then have r: "?r = 0" and ball: "\<forall>x \<in> set (zip bs bits). m_cstate (fst x) \<noteq> SHARED_UPGRADING \<longrightarrow> snd x \<le> 0"
      by blast+
    have "bits ! j \<le> 0" if "j < length bs" "isValidReplacement bs j" for j
      using ball zip_nth_mem [of j bs bits] that assms(1) by (force simp: isValidReplacement_def)
    with r assms(2) show ?thesis by fastforce
  qed
qed

lemma lru_get_free:
  assumes "length bits = length bs" and "first_free bs = Some i"
  shows "lru_getReplacementIndex bs bits = Inr (i, moveToMRU i bits)"
proof -
  have "lru_scan 0 0 0 (zip bs bits) = i"
    using lru_scan_free [of bs i bits 0 0 0] assms by (simp add: first_free_def)
  with first_free_SomeD [OF assms(2)] show ?thesis by (simp add: lru_getReplacementIndex_def)
qed

lemma lru_get_Inr:
  assumes "length bits = length bs" and "0 < length bs"
  shows "\<exists>i<length bs. lru_getReplacementIndex bs bits = Inr (i, moveToMRU i bits)"
proof (cases "first_free bs")
  case None
  then show ?thesis
    using lru_scan_cases [OF assms] by (auto simp: first_free_None_iff lru_getReplacementIndex_def Let_def)
next
  case (Some i)
  with lru_get_free [OF assms(1) Some] first_free_SomeD [OF Some] show ?thesis by blast
qed

text \<open>With every way valid, the victim is the deepest replaceable way of the stack.\<close>

lemma lru_get_deepest:
  assumes "stack_ok (length bs) bits" and "all_valid bs"
    and "lru_getReplacementIndex bs bits = Inr (i, bits')"
    and "j < length bs" and "isValidReplacement bs j" and "0 < bits ! j"
  shows "isValidReplacement bs i \<and> bits ! j \<le> bits ! i"
proof -
  have "length bits = length bs" "0 < length bs" using assms(1) by (auto simp: stack_ok_def)
  with lru_scan_cases [of bits bs] assms show ?thesis
    by (auto simp: lru_getReplacementIndex_def Let_def)
qed

lemma lru_get_last:
  assumes st: "stack_ok (length bs) bits" and "all_valid bs" and "all_replaceable bs"
  shows "lru_getReplacementIndex bs bits =
    Inr (last (recency bits), moveToMRU (last (recency bits)) bits)"
proof -
  let ?n = "length bs"
  have n: "length bits = ?n" "0 < ?n" using st by (auto simp: stack_ok_def)
  let ?l = "recency bits ! (?n - 1)"
  have l: "?l < ?n" "unat (bits ! ?l) = ?n - 1"
    using recency_pos [OF st, of "?n - 1"] n by auto
  have last: "last (recency bits) = ?l"
    using n by (simp add: last_conv_nth flip: length_greater_0_conv)
  obtain i where i: "i < ?n" "lru_getReplacementIndex bs bits = Inr (i, moveToMRU i bits)"
    using lru_get_Inr [OF n] by blast
  have "i = ?l"
  proof (cases "?n = 1")
    case True
    with i l show ?thesis by simp
  next
    case False
    then have "0 < unat (bits ! ?l)" using l(2) n(2) by linarith
    then have "0 < bits ! ?l" by (simp add: word_less_nat_alt)
    then have "?n - 1 \<le> unat (bits ! i)"
      using lru_get_deepest [OF st assms(2) i(2) l(1) all_replaceable_nth [OF assms(3) l(1)]] l(2)
      by (simp add: word_le_nat_alt)
    then have "unat (bits ! i) = ?n - 1"
      using stack_ok_nth [OF st i(1)] by simp
    with recency_nth [OF st i(1)] show ?thesis by simp
  qed
  with i last show ?thesis by simp
qed

end
