(* ===== verification/Replacement_Policies.thy ===== *)
theory Replacement_Policies
  imports Replacement_Props
begin

text \<open>
  The contract a cache set relies on (locales \<open>replacement\<close>, \<open>replacement_free\<close>,
  \<open>replacement_live\<close>) and its proof for each policy. Round robin meets only the first: it
  looks at neither the free ways nor the way it returns.
\<close>

locale replacement =
  fixes wf :: "nat \<Rightarrow> 's \<Rightarrow> bool"
    and victim :: "cache_block list \<Rightarrow> 's \<Rightarrow> (nat \<times> 's) res"
    and touch :: "nat \<Rightarrow> nat \<Rightarrow> 's \<Rightarrow> 's res"
  assumes victim_range: "wf (length bs) s \<Longrightarrow> victim bs s = Inr (i, s') \<Longrightarrow> i < length bs"
    and victim_wf: "wf (length bs) s \<Longrightarrow> victim bs s = Inr (i, s') \<Longrightarrow> wf (length bs) s'"
    and touch_wf: "wf n s \<Longrightarrow> a < n \<Longrightarrow> touch n a s = Inr s' \<Longrightarrow> wf n s'"
begin

lemma fill_nth:
  "wf (length bs) s \<Longrightarrow> victim bs s = Inr (i, s') \<Longrightarrow> bs[i := b] ! i = b"
  by (simp add: victim_range)

lemma victim_touch_wf:
  "wf (length bs) s \<Longrightarrow> victim bs s = Inr (i, s') \<Longrightarrow> touch (length bs) i s' = Inr s'' \<Longrightarrow> wf (length bs) s''"
  by (meson touch_wf victim_range victim_wf)

end

locale replacement_free = replacement +
  assumes victim_free: "wf (length bs) s \<Longrightarrow> first_free bs = Some i \<Longrightarrow> victim bs s = Inr (j, s') \<Longrightarrow> j = i"
begin

lemma no_early_eviction:
  assumes "wf (length bs) s" and "victim bs s = Inr (i, s')" and "\<not> all_valid bs"
  shows "\<not> isValid (bs ! i)"
proof -
  obtain k where k: "first_free bs = Some k"
    using assms(3) first_free_None_iff by (cases "first_free bs") auto
  with victim_free [OF assms(1) k assms(2)] show ?thesis
    using first_free_SomeD by blast
qed

end

locale replacement_live = replacement_free +
  assumes victim_live: "wf (length bs) s \<Longrightarrow> all_replaceable bs \<Longrightarrow> \<exists>i s'. victim bs s = Inr (i, s')"
begin

lemma victim_obtains:
  assumes "wf (length bs) s" and "all_replaceable bs"
  shows "\<exists>i s'. victim bs s = Inr (i, s') \<and> i < length bs \<and> wf (length bs) s'"
  using victim_live [OF assms] victim_range [OF assms(1)] victim_wf [OF assms(1)] by blast

end

subsection \<open>LRU and MRU\<close>

definition lru_touch :: "nat \<Rightarrow> nat \<Rightarrow> u8 list \<Rightarrow> u8 list res" where
  "lru_touch n a bits = Inr (moveToMRU a bits)"

interpretation lru: replacement_live stack_ok lru_getReplacementIndex lru_touch
proof unfold_locales
  fix bs :: "cache_block list" and s i s'
  assume wf: "stack_ok (length bs) s" and v: "lru_getReplacementIndex bs s = Inr (i, s')"
  have "length s = length bs" "0 < length bs" using wf by (auto simp: stack_ok_def)
  then obtain k where "k < length bs" "lru_getReplacementIndex bs s = Inr (k, moveToMRU k s)"
    using lru_get_Inr by blast
  with v wf show "i < length bs" "stack_ok (length bs) s'" by (auto intro: stack_ok_moveToMRU)
next
  fix n s a s'
  assume "stack_ok n s" "a < n" "lru_touch n a s = Inr s'"
  then show "stack_ok n s'" by (auto simp: lru_touch_def intro: stack_ok_moveToMRU)
next
  fix bs :: "cache_block list" and s i j s'
  assume "stack_ok (length bs) s" "first_free bs = Some i" "lru_getReplacementIndex bs s = Inr (j, s')"
  then show "j = i" using lru_get_free [of s bs i] by (simp add: stack_ok_def)
next
  fix bs :: "cache_block list" and s
  assume "stack_ok (length bs) s"
  then have "length s = length bs" "0 < length bs" by (auto simp: stack_ok_def)
  then show "\<exists>i s'. lru_getReplacementIndex bs s = Inr (i, s')" using lru_get_Inr by blast
qed

lemma mru_search_Some:
  assumes "stack_ok (length bs) bits"
    and "mru_search bs bits k target = Some i" and "k + target = length bs"
  shows "i < length bs \<and> isValidReplacement bs i \<and> target \<le> unat (bits ! i) \<and>
    (\<forall>j<length bs. isValidReplacement bs j \<longrightarrow> target \<le> unat (bits ! j) \<longrightarrow> unat (bits ! i) \<le> unat (bits ! j))"
  using assms(2,3)
proof (induction k arbitrary: target)
  case 0
  then show ?case by simp
next
  case (Suc k)
  have len: "length bits = length bs" using assms(1) by (simp add: stack_ok_def)
  let ?f = "find_first (\<lambda>(b, l). unat l = target \<and> m_cstate b \<noteq> SHARED_UPGRADING) (zip bs bits)"
  show ?case
  proof (cases ?f)
    case None
    then have none: "unat (bits ! j) \<noteq> target" if "j < length bs" "isValidReplacement bs j" for j
      using zip_nth_mem [OF that(1) len] that(2)
      by (auto simp: find_first_None_iff isValidReplacement_def)
    from None Suc.prems Suc.IH [of "Suc target"] have
      "i < length bs \<and> isValidReplacement bs i \<and> Suc target \<le> unat (bits ! i) \<and>
      (\<forall>j<length bs. isValidReplacement bs j \<longrightarrow> Suc target \<le> unat (bits ! j) \<longrightarrow> unat (bits ! i) \<le> unat (bits ! j))"
      by simp
    with none show ?thesis by (metis Suc_leD Suc_leI le_neq_implies_less)
  next
    case (Some m)
    with Suc.prems have m: "m = i" by simp
    with find_first_SomeD [OF Some] len show ?thesis
      by (auto simp: isValidReplacement_def)
  qed
qed

lemma mru_search_live:
  assumes "stack_ok (length bs) bits" and "j < length bs" and "isValidReplacement bs j"
    and "target \<le> unat (bits ! j)" and "k + target = length bs"
  shows "\<exists>i. mru_search bs bits k target = Some i"
  using assms(4,5)
proof (induction k arbitrary: target)
  case 0
  with stack_ok_nth [OF assms(1,2)] show ?case by simp
next
  case (Suc k)
  have len: "length bits = length bs" using assms(1) by (simp add: stack_ok_def)
  let ?f = "find_first (\<lambda>(b, l). unat l = target \<and> m_cstate b \<noteq> SHARED_UPGRADING) (zip bs bits)"
  show ?case
  proof (cases ?f)
    case None
    then have "unat (bits ! j) \<noteq> target"
      using zip_nth_mem [OF assms(2) len] assms(3)
      by (auto simp: find_first_None_iff isValidReplacement_def)
    with None Suc show ?thesis by simp
  next
    case (Some m)
    then show ?thesis by simp
  qed
qed

lemma mru_get_cases:
  assumes "mru_getReplacementIndex bs bits = Inr (i, bits')"
  obtains "first_free bs = Some i" "bits' = moveToMRU i bits"
  | "all_valid bs" "mru_search bs bits (length bs) 0 = Some i" "bits' = moveToMRU i bits"
  using assms
  by (auto simp: mru_getReplacementIndex_def mru_updateReplacementIndex_def first_free_None_iff
      split: option.splits)

definition mru_touch :: "nat \<Rightarrow> nat \<Rightarrow> u8 list \<Rightarrow> u8 list res" where
  "mru_touch n a bits = Inr (mru_updateReplacementIndex a bits)"

interpretation mru: replacement_live stack_ok mru_getReplacementIndex mru_touch
proof unfold_locales
  fix bs :: "cache_block list" and s i s'
  assume wf: "stack_ok (length bs) s" and v: "mru_getReplacementIndex bs s = Inr (i, s')"
  from v have "i < length bs \<and> s' = moveToMRU i s"
    by (rule mru_get_cases) (use first_free_SomeD mru_search_Some [OF wf] in auto)
  with wf show "i < length bs" "stack_ok (length bs) s'" by (auto intro: stack_ok_moveToMRU)
next
  fix n s a s'
  assume "stack_ok n s" "a < n" "mru_touch n a s = Inr s'"
  then show "stack_ok n s'"
    by (auto simp: mru_touch_def mru_updateReplacementIndex_def intro: stack_ok_moveToMRU)
next
  fix bs :: "cache_block list" and s i j s'
  assume "first_free bs = Some i" "mru_getReplacementIndex bs s = Inr (j, s')"
  then show "j = i" by (simp add: mru_getReplacementIndex_def)
next
  fix bs :: "cache_block list" and s
  assume wf: "stack_ok (length bs) s" and "all_replaceable bs"
  moreover have "0 < length bs" using wf by (auto simp: stack_ok_def)
  ultimately obtain i where "mru_search bs s (length bs) 0 = Some i"
    using mru_search_live [OF wf, of 0 0 "length bs"] all_replaceable_nth by auto
  then show "\<exists>i s'. mru_getReplacementIndex bs s = Inr (i, s')"
    by (cases "first_free bs") (auto simp: mru_getReplacementIndex_def)
qed

text \<open>MRU evicts the replaceable way nearest the top of the stack.\<close>

lemma mru_get_nearest:
  assumes "stack_ok (length bs) bits" and "all_valid bs"
    and "mru_getReplacementIndex bs bits = Inr (i, bits')"
    and "j < length bs" and "isValidReplacement bs j"
  shows "isValidReplacement bs i \<and> unat (bits ! i) \<le> unat (bits ! j)"
  using assms(3)
proof (cases rule: mru_get_cases)
  case 1
  with assms(2) show ?thesis by (simp flip: first_free_None_iff)
next
  case 2
  with mru_search_Some [OF assms(1) 2(2)] assms(4,5) show ?thesis by simp
qed

end
