(* ===== verification/Replacement_Pointer.thy ===== *)
theory Replacement_Pointer
  imports Replacement_Policies
begin

text \<open>
  The contract of Replacement_Policies for the other policies: NMRU, NRU and SRRIP (a search
  from a replacement pointer), tree PLRU, round robin and random.
\<close>

subsection \<open>The search from a pointer\<close>

lemma unat_of_nat_u8: "k < 256 \<Longrightarrow> unat (of_nat k :: u8) = k"
  by (simp add: unat_of_nat)

lemma unat_next_ptr:
  assumes "0 < n" and "n \<le> 256"
  shows "unat (next_ptr n p) = (unat p + 1) mod n"
proof -
  have "(unat p + 1) mod n < 256" using assms mod_less_divisor [of n "unat p + 1"] by linarith
  then show ?thesis unfolding next_ptr_def by (rule unat_of_nat_u8)
qed

lemma ptr_search_Some:
  assumes "0 < n" and "n \<le> 256" and "unat ptr < n" and "ptr_search P n k ptr = (Some i, ptr')"
  shows "\<exists>d<k. i = (unat ptr + d) mod n \<and> P i \<and> (\<forall>e<d. \<not> P ((unat ptr + e) mod n)) \<and> unat ptr' = (i + 1) mod n"
  using assms(3,4)
proof (induction k arbitrary: ptr)
  case 0
  then show ?case by simp
next
  case (Suc k)
  show ?case
  proof (cases "P (unat ptr)")
    case True
    with Suc.prems show ?thesis
      by (intro exI [of _ 0]) (auto simp: unat_next_ptr [OF assms(1,2)])
  next
    case False
    have lt: "unat (next_ptr n ptr) < n" using assms(1) by (simp add: unat_next_ptr [OF assms(1,2)])
    have shift: "(unat (next_ptr n ptr) + d) mod n = (unat ptr + Suc d) mod n" for d
      unfolding unat_next_ptr [OF assms(1,2)] by (simp add: mod_add_left_eq)
    from False Suc.prems Suc.IH [OF lt] obtain d where d: "d < k" "i = (unat ptr + Suc d) mod n" "P i"
      "\<forall>e<d. \<not> P ((unat ptr + Suc e) mod n)" "unat ptr' = (i + 1) mod n"
      unfolding shift by auto
    have "\<not> P ((unat ptr + e) mod n)" if "e < Suc d" for e
      using that d(4) False Suc.prems(1) by (cases e) auto
    with d show ?thesis by (intro exI [of _ "Suc d"]) auto
  qed
qed

lemma ptr_search_None:
  assumes "0 < n" and "n \<le> 256" and "unat ptr < n" and "ptr_search P n k ptr = (None, ptr')"
  shows "(\<forall>d<k. \<not> P ((unat ptr + d) mod n)) \<and> unat ptr' = (unat ptr + k) mod n"
  using assms(3,4)
proof (induction k arbitrary: ptr)
  case 0
  then show ?case by simp
next
  case (Suc k)
  then have np: "\<not> P (unat ptr)" by (auto split: if_splits)
  have lt: "unat (next_ptr n ptr) < n" using assms(1) by (simp add: unat_next_ptr [OF assms(1,2)])
  have shift: "(unat (next_ptr n ptr) + d) mod n = (unat ptr + Suc d) mod n" for d
    unfolding unat_next_ptr [OF assms(1,2)] by (simp add: mod_add_left_eq)
  have ih: "\<forall>d<k. \<not> P ((unat ptr + Suc d) mod n)" "unat ptr' = (unat ptr + Suc k) mod n"
    using Suc.IH [OF lt] Suc.prems(2) np unfolding shift by auto
  have "\<not> P ((unat ptr + e) mod n)" if "e < Suc k" for e
    using that ih(1) np Suc.prems(1) by (cases e) auto
  with ih(2) show ?case by blast
qed

lemma cyclic_cover:
  assumes "j < n" and "p < (n :: nat)"
  shows "\<exists>d<n. (p + d) mod n = j"
proof (cases "p \<le> j")
  case True
  with assms show ?thesis by (intro exI [of _ "j - p"]) auto
next
  case False
  then have "p + (n + j - p) = n + j" using assms by linarith
  with False assms show ?thesis by (intro exI [of _ "n + j - p"]) auto
qed

lemma ptr_search_hit:
  assumes "0 < n" and "n \<le> 256" and "unat ptr < n" and "ptr_search P n n ptr = (Some i, ptr')"
  shows "i < n" and "P i" and "unat ptr' < n"
  using ptr_search_Some [OF assms] assms(1) by auto

lemma ptr_search_miss:
  assumes "0 < n" and "n \<le> 256" and "unat ptr < n" and "ptr_search P n n ptr = (None, ptr')"
  shows "\<forall>j<n. \<not> P j" and "unat ptr' = unat ptr"
  using ptr_search_None [OF assms] cyclic_cover assms(3) by (metis, simp)

lemma ptr_search_finds:
  assumes "0 < n" and "n \<le> 256" and "unat ptr < n" and "j < n" and "P j"
  shows "\<exists>i ptr'. ptr_search P n n ptr = (Some i, ptr')"
  using ptr_search_miss(1) [OF assms(1-3)] assms(4,5)
  by (metis option.exhaust surj_pair)

subsection \<open>NMRU\<close>

definition nmru_ok :: "nat \<Rightarrow> u8 list \<times> u8 \<Rightarrow> bool" where
  "nmru_ok n s \<longleftrightarrow> 2 \<le> n \<and> stack_ok n (fst s) \<and> unat (snd s) < n"

definition nmru_touch :: "nat \<Rightarrow> nat \<Rightarrow> u8 list \<times> u8 \<Rightarrow> (u8 list \<times> u8) res" where
  "nmru_touch n a s = Inr (nmru_updateReplacementIndex a s)"

lemma stack_ok_bounds: "stack_ok n bits \<Longrightarrow> 0 < n \<and> n \<le> 256"
  by (simp add: stack_ok_def)

lemma nmru_get_cases:
  assumes "nmru_ok (length bs) (bits, ptr)" and "nmru_getReplacementIndex bs (bits, ptr) = Inr (i, s')"
  shows "i < length bs \<and> fst s' = moveToMRU i bits \<and> unat (snd s') < length bs \<and>
    (first_free bs = Some i \<or> (all_valid bs \<and> bits ! i \<noteq> 0 \<and> isValidReplacement bs i))"
proof -
  have n: "0 < length bs" "length bs \<le> 256" "unat ptr < length bs"
    using assms(1) by (auto simp: nmru_ok_def stack_ok_def)
  show ?thesis
  proof (cases "first_free bs")
    case None
    with assms(2) obtain p where
      "ptr_search (\<lambda>i. bits ! i \<noteq> 0 \<and> isValidReplacement bs i) (length bs) (length bs) ptr = (Some i, p)"
      "s' = nmru_updateReplacementIndex i (bits, p)"
      by (auto simp: nmru_getReplacementIndex_def split: prod.splits option.splits)
    with None ptr_search_hit [OF n this(1)] show ?thesis
      by (simp add: nmru_updateReplacementIndex_def first_free_None_iff)
  next
    case (Some k)
    with assms(2) n first_free_SomeD [OF Some] show ?thesis
      by (auto simp: nmru_getReplacementIndex_def nmru_updateReplacementIndex_def)
  qed
qed

lemma nmru_get_live:
  assumes "nmru_ok (length bs) (bits, ptr)" and "all_replaceable bs"
  shows "\<exists>i s'. nmru_getReplacementIndex bs (bits, ptr) = Inr (i, s')"
proof (cases "first_free bs")
  case None
  have st: "stack_ok (length bs) bits" and two: "1 < length bs" and p: "unat ptr < length bs"
    using assms(1) by (auto simp: nmru_ok_def)
  obtain j where j: "j < length bs" "unat (bits ! j) = 1" using stack_ok_surj [OF st two] by blast
  then have "bits ! j \<noteq> 0" by auto
  with j all_replaceable_nth [OF assms(2) j(1)]
  obtain i p' where "ptr_search (\<lambda>i. bits ! i \<noteq> 0 \<and> isValidReplacement bs i) (length bs) (length bs) ptr = (Some i, p')"
    using ptr_search_finds [OF _ _ p j(1), of "\<lambda>i. bits ! i \<noteq> 0 \<and> isValidReplacement bs i"]
      stack_ok_bounds [OF st] by blast
  with None show ?thesis by (simp add: nmru_getReplacementIndex_def)
qed (simp add: nmru_getReplacementIndex_def)

interpretation nmru: replacement_live nmru_ok nmru_getReplacementIndex nmru_touch
proof unfold_locales
  fix bs :: "cache_block list" and s i s'
  assume wf: "nmru_ok (length bs) s" and v: "nmru_getReplacementIndex bs s = Inr (i, s')"
  obtain bits ptr where s: "s = (bits, ptr)" by (cases s)
  note c = nmru_get_cases [OF wf [unfolded s] v [unfolded s]]
  from c show "i < length bs" by simp
  with c wf s show "nmru_ok (length bs) s'" by (auto simp: nmru_ok_def intro: stack_ok_moveToMRU)
next
  fix n s a s'
  assume "nmru_ok n s" "a < n" "nmru_touch n a s = Inr s'"
  then show "nmru_ok n s'"
    by (auto simp: nmru_touch_def nmru_updateReplacementIndex_def nmru_ok_def intro: stack_ok_moveToMRU)
next
  fix bs :: "cache_block list" and s i j s'
  assume "first_free bs = Some i" "nmru_getReplacementIndex bs s = Inr (j, s')"
  then show "j = i" by (simp add: nmru_getReplacementIndex_def)
next
  fix bs :: "cache_block list" and s
  assume "nmru_ok (length bs) s" "all_replaceable bs"
  then show "\<exists>i s'. nmru_getReplacementIndex bs s = Inr (i, s')"
    using nmru_get_live by (cases s) blast
qed

subsection \<open>NRU\<close>

text \<open>The counter bounds the number of set bits, so a clear bit is always left.\<close>

definition nru_ok :: "nat \<Rightarrow> nru \<Rightarrow> bool" where
  "nru_ok n s \<longleftrightarrow> 0 < n \<and> n \<le> 255 \<and> length (nru_bits s) = n \<and> unat (nru_pointer s) < n \<and>
     card {i. i < n \<and> nru_bits s ! i \<noteq> 0} \<le> unat (nru_num_bits_set s) \<and> unat (nru_num_bits_set s) < n"

definition nru_touch :: "nat \<Rightarrow> nat \<Rightarrow> nru \<Rightarrow> nru res" where
  "nru_touch n a s = Inr (nru_updateReplacementIndex n a s)"

lemma nru_ok_init: "0 < n \<Longrightarrow> n \<le> 255 \<Longrightarrow> nru_ok n (nru_init n)"
  by (auto simp: nru_ok_def nru_init_def)

lemma card_set_bits_update:
  "card {i. i < n \<and> bits[a := 1] ! i \<noteq> (0::u8)} \<le> Suc (card {i. i < n \<and> bits ! i \<noteq> 0})"
proof -
  have "{i. i < n \<and> bits[a := 1] ! i \<noteq> 0} \<subseteq> insert a {i. i < n \<and> bits ! i \<noteq> 0}"
    by (auto simp: nth_list_update split: if_splits)
  then have "card {i. i < n \<and> bits[a := 1] ! i \<noteq> 0} \<le> card (insert a {i. i < n \<and> bits ! i \<noteq> 0})"
    by (intro card_mono) auto
  also have "\<dots> \<le> Suc (card {i. i < n \<and> bits ! i \<noteq> 0})" by (simp add: card_insert_if)
  finally show ?thesis .
qed

lemma nru_ok_update:
  assumes "nru_ok n s"
  shows "nru_ok n (nru_updateReplacementIndex n a s)"
proof -
  have inc: "unat (nru_num_bits_set s + 1) = unat (nru_num_bits_set s) + 1"
    by (rule unat_u8_inc) (use assms in \<open>simp add: nru_ok_def\<close>)
  show ?thesis
  proof (cases "unat (nru_num_bits_set s) + 1 = n")
    case True
    with assms inc show ?thesis by (simp add: nru_ok_def nru_updateReplacementIndex_def)
  next
    case False
    with assms inc card_set_bits_update [of n "nru_bits s" a] show ?thesis
      by (simp add: nru_ok_def nru_updateReplacementIndex_def)
  qed
qed

lemma nru_clear_bit: "nru_ok n s \<Longrightarrow> \<exists>j<n. nru_bits s ! j = 0"
proof (rule ccontr)
  assume ok: "nru_ok n s" and "\<not> (\<exists>j<n. nru_bits s ! j = 0)"
  then have "{i. i < n \<and> nru_bits s ! i \<noteq> 0} = {..<n}" by blast
  then have "card {i. i < n \<and> nru_bits s ! i \<noteq> 0} = n" by (simp only: card_lessThan)
  with ok show False unfolding nru_ok_def by linarith
qed

lemma nru_ok_pointer: "nru_ok n s \<Longrightarrow> unat p < n \<Longrightarrow> nru_ok n (s\<lparr>nru_pointer := p\<rparr>)"
  by (simp add: nru_ok_def)

lemma nru_ok_bounds: "nru_ok n s \<Longrightarrow> 0 < n \<and> n \<le> 256 \<and> unat (nru_pointer s) < n"
  by (simp add: nru_ok_def)

lemma nru_get_cases:
  assumes "nru_ok (length bs) s" and "nru_getReplacementIndex bs s = Inr (i, s')"
  shows "i < length bs \<and> nru_ok (length bs) s' \<and>
    (first_free bs = Some i \<or> (all_valid bs \<and> nru_bits s ! i = 0 \<and> isValidReplacement bs i))"
proof -
  have n: "0 < length bs" "length bs \<le> 256" "unat (nru_pointer s) < length bs"
    using nru_ok_bounds [OF assms(1)] by auto
  show ?thesis
  proof (cases "first_free bs")
    case None
    with assms(2) obtain p where
      "ptr_search (\<lambda>i. nru_bits s ! i = 0 \<and> isValidReplacement bs i) (length bs) (length bs) (nru_pointer s) = (Some i, p)"
      "s' = nru_updateReplacementIndex (length bs) i (s\<lparr>nru_pointer := p\<rparr>)"
      by (auto simp: nru_getReplacementIndex_def split: prod.splits option.splits)
    with None ptr_search_hit [OF n this(1)] assms(1) show ?thesis
      by (simp add: first_free_None_iff nru_ok_update nru_ok_pointer)
  next
    case (Some k)
    with assms first_free_SomeD [OF Some] show ?thesis
      by (auto simp: nru_getReplacementIndex_def nru_ok_update)
  qed
qed

lemma nru_get_live:
  assumes "nru_ok (length bs) s" and "all_replaceable bs"
  shows "\<exists>i s'. nru_getReplacementIndex bs s = Inr (i, s')"
proof (cases "first_free bs")
  case None
  obtain j where j: "j < length bs" "nru_bits s ! j = 0" using nru_clear_bit [OF assms(1)] by blast
  with all_replaceable_nth [OF assms(2) j(1)] nru_ok_bounds [OF assms(1)]
  obtain i p' where "ptr_search (\<lambda>i. nru_bits s ! i = 0 \<and> isValidReplacement bs i)
      (length bs) (length bs) (nru_pointer s) = (Some i, p')"
    using ptr_search_finds [of "length bs" "nru_pointer s" j "\<lambda>i. nru_bits s ! i = 0 \<and> isValidReplacement bs i"]
    by blast
  with None show ?thesis by (simp add: nru_getReplacementIndex_def)
qed (simp add: nru_getReplacementIndex_def)

interpretation nru: replacement_live nru_ok nru_getReplacementIndex nru_touch
proof unfold_locales
  fix bs :: "cache_block list" and s i s'
  assume "nru_ok (length bs) s" "nru_getReplacementIndex bs s = Inr (i, s')"
  then show "i < length bs" "nru_ok (length bs) s'" using nru_get_cases by blast+
next
  fix n s a s'
  assume "nru_ok n s" "a < n" "nru_touch n a s = Inr s'"
  then show "nru_ok n s'" by (auto simp: nru_touch_def nru_ok_update)
next
  fix bs :: "cache_block list" and s i j s'
  assume "first_free bs = Some i" "nru_getReplacementIndex bs s = Inr (j, s')"
  then show "j = i" by (simp add: nru_getReplacementIndex_def)
next
  fix bs :: "cache_block list" and s
  assume "nru_ok (length bs) s" "all_replaceable bs"
  then show "\<exists>i s'. nru_getReplacementIndex bs s = Inr (i, s')" by (rule nru_get_live)
qed

subsection \<open>Tree PLRU\<close>

definition plru_ok :: "nat \<Rightarrow> u8 list \<Rightarrow> bool" where
  "plru_ok n b \<longleftrightarrow> (n = 4 \<or> n = 8) \<and> length b = 8"

lemma plru_update_Inr: "plru_ok n b \<Longrightarrow> \<exists>b'. plru_updateReplacementIndex n a b = Inr b' \<and> plru_ok n b'"
  by (auto simp: plru_ok_def plru_updateReplacementIndex_def)

lemma plru_update_ok: "plru_ok n b \<Longrightarrow> plru_updateReplacementIndex n a b = Inr b' \<Longrightarrow> plru_ok n b'"
  using plru_update_Inr [of n b a] by auto

lemma plru_victim_Inr: "plru_ok n b \<Longrightarrow> \<exists>i<n. plru_victim n b = Inr i"
  by (auto simp: plru_ok_def plru_victim_def)

lemma plru_get_cases:
  assumes "plru_ok (length bs) b" and "plru_getReplacementIndex bs b = Inr (i, b')"
  shows "i < length bs \<and> plru_updateReplacementIndex (length bs) i b = Inr b' \<and>
    (first_free bs = Some i \<or> (all_valid bs \<and> plru_victim (length bs) b = Inr i \<and> isValidReplacement bs i))"
proof (cases "first_free bs")
  case None
  with assms plru_victim_Inr [OF assms(1)] show ?thesis
    by (auto simp: plru_getReplacementIndex_def first_free_None_iff bindE_Inr_iff)
next
  case (Some k)
  with assms(2) first_free_SomeD [OF Some] show ?thesis
    by (auto simp: plru_getReplacementIndex_def bindE_Inr_iff)
qed

lemma plru_get_live:
  assumes "plru_ok (length bs) b" and "all_replaceable bs"
  shows "\<exists>i b'. plru_getReplacementIndex bs b = Inr (i, b')"
proof (cases "first_free bs")
  case None
  obtain i where i: "i < length bs" "plru_victim (length bs) b = Inr i" using plru_victim_Inr [OF assms(1)] by blast
  with None plru_update_Inr [OF assms(1), of i] all_replaceable_nth [OF assms(2) i(1)] show ?thesis
    by (auto simp: plru_getReplacementIndex_def)
next
  case (Some k)
  with plru_update_Inr [OF assms(1), of k] show ?thesis by (auto simp: plru_getReplacementIndex_def)
qed

interpretation plru: replacement_live plru_ok plru_getReplacementIndex plru_updateReplacementIndex
proof unfold_locales
  fix bs :: "cache_block list" and s i s'
  assume "plru_ok (length bs) s" "plru_getReplacementIndex bs s = Inr (i, s')"
  then show "i < length bs" "plru_ok (length bs) s'" using plru_get_cases plru_update_ok by blast+
next
  fix n s a s'
  assume "plru_ok n s" "plru_updateReplacementIndex n a s = Inr s'"
  then show "plru_ok n s'" by (rule plru_update_ok)
next
  fix bs :: "cache_block list" and s i j s'
  assume "first_free bs = Some i" "plru_getReplacementIndex bs s = Inr (j, s')"
  then show "j = i" by (auto simp: plru_getReplacementIndex_def bindE_Inr_iff)
next
  fix bs :: "cache_block list" and s
  assume "plru_ok (length bs) s" "all_replaceable bs"
  then show "\<exists>i s'. plru_getReplacementIndex bs s = Inr (i, s')" by (rule plru_get_live)
qed

text \<open>The way just touched is not the next victim, whatever the tree holds.\<close>

lemma nat_less_8_cases: "(a :: nat) < 8 \<Longrightarrow> a = 0 \<or> a = 1 \<or> a = 2 \<or> a = 3 \<or> a = 4 \<or> a = 5 \<or> a = 6 \<or> a = 7"
  by arith

lemma plru_touch_protects:
  assumes "plru_ok n b" and "a < n" and "plru_updateReplacementIndex n a b = Inr b'"
  shows "plru_victim n b' \<noteq> Inr a"
proof -
  have len: "length b = 8" and n: "n = 4 \<or> n = 8" using assms(1) by (auto simp: plru_ok_def)
  from n assms(2) have "a < 8" by auto
  from nat_less_8_cases [OF this] n assms(2,3) len show ?thesis
    by (elim disjE) (auto simp: plru_updateReplacementIndex_def plru_victim_def)
qed

subsection \<open>SRRIP\<close>

definition srrip_ok :: "nat \<Rightarrow> srrip \<Rightarrow> bool" where
  "srrip_ok n s \<longleftrightarrow> 0 < n \<and> n \<le> 256 \<and> length (rrip_bits s) = n \<and> unat (rrip_pointer s) < n \<and>
     rrip_insert s \<le> rrip_max s \<and> (\<forall>x \<in> set (rrip_bits s). x \<le> rrip_max s)"

definition srrip_touch :: "nat \<Rightarrow> nat \<Rightarrow> srrip \<Rightarrow> srrip res" where
  "srrip_touch n a s = Inr (srrip_updateReplacementIndex a s)"

lemma u8_inc_le: "x \<le> mx \<Longrightarrow> x \<noteq> mx \<Longrightarrow> x + 1 \<le> mx \<and> unat (x + 1) = unat x + 1" for x mx :: u8
proof -
  assume le: "x \<le> mx" and ne: "x \<noteq> mx"
  then have "unat x < unat mx" by (metis order_le_less word_less_nat_alt)
  with unat_u8_less [of mx] have "unat (x + 1) = unat x + 1" by (intro unat_u8_inc) linarith
  with \<open>unat x < unat mx\<close> show ?thesis by (simp add: word_le_nat_alt)
qed

lemma srrip_aged:
  fixes bits :: "u8 list"
  assumes "\<forall>x \<in> set bits. x \<le> mx" and "\<forall>j<length bits. bits ! j \<noteq> mx"
  shows "\<forall>x \<in> set (map (\<lambda>x. x + 1) bits). x \<le> mx"
    and "j < length bits \<Longrightarrow> unat (bits ! j + 1) = unat (bits ! j) + 1"
proof -
  have inc: "x + 1 \<le> mx" if x: "x \<in> set bits" for x
  proof -
    from x obtain k where k: "k < length bits" "x = bits ! k" by (metis in_set_conv_nth)
    have le: "x \<le> mx" using assms(1) x by (rule bspec)
    have "x \<noteq> mx" unfolding k(2) using assms(2) k(1) by (metis)
    from u8_inc_le [OF le this] show ?thesis by (rule conjunct1)
  qed
  show "\<forall>x \<in> set (map (\<lambda>x. x + 1) bits). x \<le> mx"
    unfolding set_map by (rule ballI, erule imageE, simp only: inc)
  show "unat (bits ! j + 1) = unat (bits ! j) + 1" if j: "j < length bits"
  proof -
    have le: "bits ! j \<le> mx" by (rule bspec [OF assms(1) nth_mem [OF j]])
    have "bits ! j \<noteq> mx" using assms(2) j by (metis)
    from u8_inc_le [OF le this] show ?thesis by (rule conjunct2)
  qed
qed

lemma srrip_search_Some:
  assumes "0 < n" and "n \<le> 256" and "unat ptr < n" and "length bits = n" and "\<forall>x \<in> set bits. x \<le> mx"
    and "srrip_search n mx k bits ptr = Some (i, bits', ptr')"
  shows "i < n \<and> length bits' = n \<and> unat ptr' < n \<and> (\<forall>x \<in> set bits'. x \<le> mx) \<and>
    (\<forall>j<n. unat (bits ! j) \<le> unat (bits ! i))"
  using assms(3-6)
proof (induction k arbitrary: bits ptr)
  case 0
  then show ?case by simp
next
  case (Suc k)
  note n = assms(1,2) Suc.prems(1)
  show ?case
  proof (cases "fst (ptr_search (\<lambda>i. bits ! i = mx) n n ptr)")
    case None
    then obtain p where p: "ptr_search (\<lambda>i. bits ! i = mx) n n ptr = (None, p)" by (metis prod.collapse)
    note miss = ptr_search_miss [OF n p]
    with Suc.prems(2) have ne: "\<forall>j<length bits. bits ! j \<noteq> mx" by simp
    from p Suc.prems Suc.IH [of p "map (\<lambda>x. x + 1) bits"] srrip_aged(1) [OF Suc.prems(3) ne] miss(2)
    have "i < n \<and> length bits' = n \<and> unat ptr' < n \<and> (\<forall>x \<in> set bits'. x \<le> mx) \<and>
        (\<forall>j<n. unat (map (\<lambda>x. x + 1) bits ! j) \<le> unat (map (\<lambda>x. x + 1) bits ! i))"
      by (simp del: nth_map)
    with srrip_aged(2) [OF Suc.prems(3) ne] Suc.prems(2) show ?thesis by auto
  next
    case (Some m)
    then obtain p where p: "ptr_search (\<lambda>i. bits ! i = mx) n n ptr = (Some m, p)" by (metis prod.collapse)
    note hit = ptr_search_hit [OF n p]
    have "m = i" "bits' = bits" "ptr' = p" using p Suc.prems(4) by auto
    with hit Suc.prems(2,3) have "bits ! j \<le> bits ! i" if "j < n" for j using that by (metis nth_mem)
    with hit Suc.prems(2,3) \<open>m = i\<close> \<open>bits' = bits\<close> \<open>ptr' = p\<close> show ?thesis
      by (simp add: word_le_nat_alt)
  qed
qed

lemma srrip_search_live:
  assumes "0 < n" and "n \<le> 256" and "unat ptr < n" and "length bits = n" and "\<forall>x \<in> set bits. x \<le> mx"
    and "unat mx < k + unat (bits ! 0)"
  shows "\<exists>r. srrip_search n mx k bits ptr = Some r"
  using assms(3-6)
proof (induction k arbitrary: bits ptr)
  case 0
  then have "bits ! 0 \<in> set bits" using assms(1) by simp
  with 0 have "unat (bits ! 0) \<le> unat mx" unfolding word_le_nat_alt by blast
  with 0 show ?case by simp
next
  case (Suc k)
  note n = assms(1,2) Suc.prems(1)
  show ?case
  proof (cases "fst (ptr_search (\<lambda>i. bits ! i = mx) n n ptr)")
    case None
    then obtain p where p: "ptr_search (\<lambda>i. bits ! i = mx) n n ptr = (None, p)" by (metis prod.collapse)
    note miss = ptr_search_miss [OF n p]
    with Suc.prems(2) have ne: "\<forall>j<length bits. bits ! j \<noteq> mx" by simp
    have "0 < length bits" using assms(1) Suc.prems(2) by simp
    from srrip_aged(2) [OF Suc.prems(3) ne this] Suc.prems(4)
    have "unat mx < k + unat (bits ! 0 + 1)" by linarith
    with p Suc.prems Suc.IH [of p "map (\<lambda>x. x + 1) bits"] srrip_aged(1) [OF Suc.prems(3) ne] miss(2)
      \<open>0 < length bits\<close>
    show ?thesis by simp
  next
    case (Some m)
    then obtain p where "ptr_search (\<lambda>i. bits ! i = mx) n n ptr = (Some m, p)" by (metis prod.collapse)
    then show ?thesis by simp
  qed
qed

lemma srrip_ok_insert:
  assumes "srrip_ok n s" and "\<forall>x \<in> set bits. x \<le> rrip_max s" and "length bits = n" and "unat p < n"
  shows "srrip_ok n (s\<lparr>rrip_bits := bits[i := rrip_insert s], rrip_pointer := p\<rparr>)"
  using assms set_update_subset_insert [of bits i "rrip_insert s"] by (auto simp: srrip_ok_def)

lemma srrip_get_cases:
  assumes "srrip_ok (length bs) s" and "srrip_getReplacementIndex bs s = Inr (i, s')"
  shows "i < length bs \<and> srrip_ok (length bs) s' \<and> (first_free bs = Some i \<or> (all_valid bs \<and>
    isValidReplacement bs i \<and> (\<forall>j<length bs. unat (rrip_bits s ! j) \<le> unat (rrip_bits s ! i))))"
proof -
  have n: "0 < length bs" "length bs \<le> 256" "unat (rrip_pointer s) < length bs"
    "length (rrip_bits s) = length bs" "\<forall>x \<in> set (rrip_bits s). x \<le> rrip_max s"
    using assms(1) by (auto simp: srrip_ok_def)
  show ?thesis
  proof (cases "first_free bs")
    case None
    with assms(2) obtain bits p where
      g: "srrip_search (length bs) (rrip_max s) (unat (rrip_max s) + 1) (rrip_bits s) (rrip_pointer s) = Some (i, bits, p)"
      and r: "isValidReplacement bs i" "s' = s\<lparr>rrip_bits := bits[i := rrip_insert s], rrip_pointer := p\<rparr>"
      by (auto simp: srrip_getReplacementIndex_def split: prod.splits option.splits)
    from None srrip_search_Some [OF n g] r srrip_ok_insert [OF assms(1), of bits p i] show ?thesis
      by (simp add: first_free_None_iff)
  next
    case (Some k)
    with assms first_free_SomeD [OF Some] srrip_ok_insert [OF assms(1) n(5,4,3), of k] show ?thesis
      by (auto simp: srrip_getReplacementIndex_def)
  qed
qed

lemma srrip_get_live:
  assumes "srrip_ok (length bs) s" and "all_replaceable bs"
  shows "\<exists>i s'. srrip_getReplacementIndex bs s = Inr (i, s')"
proof (cases "first_free bs")
  case None
  have n: "0 < length bs" "length bs \<le> 256" "unat (rrip_pointer s) < length bs"
    "length (rrip_bits s) = length bs" "\<forall>x \<in> set (rrip_bits s). x \<le> rrip_max s"
    using assms(1) by (auto simp: srrip_ok_def)
  have "unat (rrip_max s) < unat (rrip_max s) + 1 + unat (rrip_bits s ! 0)" by simp
  from srrip_search_live [OF n this] obtain i bits p where
    g: "srrip_search (length bs) (rrip_max s) (unat (rrip_max s) + 1) (rrip_bits s) (rrip_pointer s) = Some (i, bits, p)"
    by auto
  with srrip_search_Some [OF n g] all_replaceable_nth [OF assms(2), of i] None show ?thesis
    by (auto simp: srrip_getReplacementIndex_def)
qed (simp add: srrip_getReplacementIndex_def)

lemma srrip_touch_ok: "srrip_ok n s \<Longrightarrow> a < n \<Longrightarrow> srrip_ok n (srrip_updateReplacementIndex a s)"
proof -
  assume s: "srrip_ok n s" and a: "a < n"
  let ?x = "rrip_bits s ! a"
  have le: "?x - 1 \<le> rrip_max s" if "0 < ?x"
  proof -
    have "?x \<le> rrip_max s" using s a by (auto simp: srrip_ok_def)
    moreover have "?x - 1 \<le> ?x" using that by (simp add: word_le_nat_alt unat_minus_one word_gt_0)
    ultimately show ?thesis by (rule order_trans [rotated])
  qed
  with s a set_update_subset_insert [of "rrip_bits s" a "?x - 1"] show ?thesis
    by (auto simp: srrip_ok_def srrip_updateReplacementIndex_def)
qed

interpretation srrip: replacement_live srrip_ok srrip_getReplacementIndex srrip_touch
proof unfold_locales
  fix bs :: "cache_block list" and s i s'
  assume "srrip_ok (length bs) s" "srrip_getReplacementIndex bs s = Inr (i, s')"
  then show "i < length bs" "srrip_ok (length bs) s'" using srrip_get_cases by blast+
next
  fix n s a s'
  assume "srrip_ok n s" "a < n" "srrip_touch n a s = Inr s'"
  then show "srrip_ok n s'" by (auto simp: srrip_touch_def srrip_touch_ok)
next
  fix bs :: "cache_block list" and s i j s'
  assume "first_free bs = Some i" "srrip_getReplacementIndex bs s = Inr (j, s')"
  then show "j = i" by (simp add: srrip_getReplacementIndex_def)
next
  fix bs :: "cache_block list" and s
  assume "srrip_ok (length bs) s" "all_replaceable bs"
  then show "\<exists>i s'. srrip_getReplacementIndex bs s = Inr (i, s')" by (rule srrip_get_live)
qed

subsection \<open>Round robin\<close>

definition res_of :: "'a option \<Rightarrow> 'a res" where
  "res_of r = (case r of None \<Rightarrow> Inl (No_Return ''getReplacementIndex'') | Some x \<Rightarrow> Inr x)"

lemma res_of_Inr_iff [simp]: "res_of r = Inr x \<longleftrightarrow> r = Some x"
  by (simp add: res_of_def split: option.splits)

definition rr_ok :: "nat \<Rightarrow> nat \<Rightarrow> bool" where
  "rr_ok n r \<longleftrightarrow> r < n"

definition rr_get :: "cache_block list \<Rightarrow> nat \<Rightarrow> (nat \<times> nat) res" where
  "rr_get bs r = res_of (rr_getReplacementIndex bs r)"

definition rr_touch :: "nat \<Rightarrow> nat \<Rightarrow> nat \<Rightarrow> nat res" where
  "rr_touch n a r = Inr (rr_updateReplacementIndex a r)"

definition rr_prev :: "nat \<Rightarrow> nat \<Rightarrow> nat" where
  "rr_prev n r = (if r = 0 then n - 1 else r - 1)"

lemma rr_prev_less: "r < n \<Longrightarrow> rr_prev n r < n"
  by (auto simp: rr_prev_def)

lemma rr_unfold:
  "rr_getReplacementIndex bs r =
    (if isValidReplacement bs (rr_prev (length bs) r) then Some (r, rr_prev (length bs) r)
     else rr_getReplacementIndex bs (rr_prev (length bs) r))"
  by (subst rr_getReplacementIndex.simps) (simp add: rr_prev_def Let_def)

lemma rr_get_SomeD:
  assumes "rr_getReplacementIndex bs r = Some x"
  shows "r < length bs \<longrightarrow> fst x < length bs \<and> snd x = rr_prev (length bs) (fst x) \<and> isValidReplacement bs (snd x)"
proof (rule rr_getReplacementIndex.raw_induct [OF _ assms])
  fix f bs r x
  assume ih: "\<And>bs r x. f bs r = Some x \<Longrightarrow>
      r < length bs \<longrightarrow> fst x < length bs \<and> snd x = rr_prev (length bs) (fst x) \<and> isValidReplacement bs (snd x)"
    and eq: "(let r' = if r = 0 then length bs - 1 else r - 1
      in if \<not> isValidReplacement bs r' then f bs r' else Some (r, r')) = Some x"
  have eq': "(if isValidReplacement bs (rr_prev (length bs) r) then Some (r, rr_prev (length bs) r)
      else f bs (rr_prev (length bs) r)) = Some x"
    using eq by (simp add: rr_prev_def Let_def split: if_splits)
  show "r < length bs \<longrightarrow> fst x < length bs \<and> snd x = rr_prev (length bs) (fst x) \<and> isValidReplacement bs (snd x)"
    using eq' ih [of bs "rr_prev (length bs) r" x] by (auto simp: rr_prev_less split: if_splits)
qed

definition rr_distance :: "nat \<Rightarrow> nat \<Rightarrow> nat \<Rightarrow> nat" where
  "rr_distance n j r = (if j < r then r - j else r + n - j)"

lemma rr_distance_prev:
  "r < n \<Longrightarrow> j < n \<Longrightarrow> rr_prev n r \<noteq> j \<Longrightarrow> rr_distance n j (rr_prev n r) < rr_distance n j r"
  by (auto simp: rr_distance_def rr_prev_def)

lemma rr_get_live:
  assumes "r < length bs" and "j < length bs" and "isValidReplacement bs j"
  shows "\<exists>x. rr_getReplacementIndex bs r = Some x"
  using assms(1)
proof (induction "rr_distance (length bs) j r" arbitrary: r rule: less_induct)
  case less
  show ?case
  proof (cases "isValidReplacement bs (rr_prev (length bs) r)")
    case True
    then show ?thesis by (subst rr_unfold) simp
  next
    case False
    with assms(3) have "rr_prev (length bs) r \<noteq> j" by auto
    from less.hyps [OF rr_distance_prev [OF less.prems assms(2) this] rr_prev_less [OF less.prems]]
    show ?thesis by (subst rr_unfold) (simp add: False)
  qed
qed

lemma rr_returns_iff:
  assumes "r < length bs"
  shows "(\<exists>x. rr_getReplacementIndex bs r = Some x) \<longleftrightarrow> (\<exists>j<length bs. isValidReplacement bs j)"
  using assms rr_get_SomeD rr_get_live rr_prev_less by metis

interpretation rr: replacement rr_ok rr_get rr_touch
proof unfold_locales
  fix bs :: "cache_block list" and s i s'
  assume "rr_ok (length bs) s" "rr_get bs s = Inr (i, s')"
  then show "i < length bs" "rr_ok (length bs) s'"
    using rr_get_SomeD [of bs s "(i, s')"] by (auto simp: rr_ok_def rr_get_def rr_prev_less)
next
  fix n s a s'
  assume "rr_ok n s" "rr_touch n a s = Inr s'"
  then show "rr_ok n s'" by (simp add: rr_touch_def rr_updateReplacementIndex_def)
qed

subsection \<open>Random\<close>

definition random_ok :: "nat \<Rightarrow> u32 \<Rightarrow> bool" where
  "random_ok n seed \<longleftrightarrow> 0 < n"

definition random_get :: "cache_block list \<Rightarrow> u32 \<Rightarrow> (nat \<times> u32) res" where
  "random_get bs seed = res_of (random_getReplacementIndex bs seed)"

definition random_touch :: "nat \<Rightarrow> nat \<Rightarrow> u32 \<Rightarrow> u32 res" where
  "random_touch n a seed = Inr (random_updateReplacementIndex a seed)"

lemma random_get_SomeD:
  assumes "random_getReplacementIndex bs seed = Some x"
  shows "0 < length bs \<longrightarrow> fst x < length bs \<and> (first_free bs = Some (fst x) \<or>
    (all_valid bs \<and> isValidReplacement bs (fst x)))"
proof (rule random_getReplacementIndex.raw_induct [OF _ assms])
  fix f bs seed x
  assume ih: "\<And>bs seed x. f bs seed = Some x \<Longrightarrow> 0 < length bs \<longrightarrow> fst x < length bs \<and>
      (first_free bs = Some (fst x) \<or> (all_valid bs \<and> isValidReplacement bs (fst x)))"
    and eq: "(case first_free bs of None \<Rightarrow> let index = unat (fst (random_next 32768 seed)) mod length bs;
        seed' = snd (random_next 32768 seed) in
        if isValidReplacement bs index then Some (index, seed') else f bs seed'
      | Some i \<Rightarrow> Some (i, seed)) = Some x"
  show "0 < length bs \<longrightarrow> fst x < length bs \<and>
      (first_free bs = Some (fst x) \<or> (all_valid bs \<and> isValidReplacement bs (fst x)))"
  proof (cases "first_free bs")
    case None
    with eq ih [of bs _ x] show ?thesis
      by (auto simp: Let_def first_free_None_iff split: if_splits)
  next
    case (Some k)
    with eq first_free_SomeD [OF Some] show ?thesis by auto
  qed
qed

interpretation random: replacement_live random_ok random_get random_touch
proof unfold_locales
  fix bs :: "cache_block list" and s i s'
  assume "random_ok (length bs) s" "random_get bs s = Inr (i, s')"
  then show "i < length bs" "random_ok (length bs) s'"
    using random_get_SomeD [of bs s "(i, s')"] by (auto simp: random_ok_def random_get_def)
next
  fix n s a s'
  assume "random_ok n s"
  then show "random_ok n s'" by (simp add: random_ok_def)
next
  fix bs :: "cache_block list" and s i j s'
  assume "first_free bs = Some i" "random_get bs s = Inr (j, s')"
  then show "j = i" unfolding random_get_def res_of_Inr_iff
    by (subst (asm) random_getReplacementIndex.simps) simp
next
  fix bs :: "cache_block list" and s
  assume ok: "random_ok (length bs) s" and all: "all_replaceable bs"
  have "unat (fst (random_next 32768 s)) mod length bs < length bs" using ok by (simp add: random_ok_def)
  from all_replaceable_nth [OF all this] show "\<exists>i s'. random_get bs s = Inr (i, s')"
    unfolding random_get_def res_of_Inr_iff
    by (subst random_getReplacementIndex.simps) (simp add: Let_def split: option.splits)
qed

end
