(* ===== verification/Cache_Set.thy ===== *)
theory Cache_Set
  imports Replacement_Pointer
begin

text \<open>
  common/core/memory_subsystem/cache/cache_set.cc: a set of cache blocks with its data array and
  its replacement policy. The virtual calls of the policy subclasses are a dispatch on the
  constructor of \<open>repl\<close>. The hit statistics (\<open>CacheSetInfo\<close>), one object shared by all the sets
  of a cache, is an extra argument and result. \<open>m_blocks\<close> is only allocated with fault
  injection; otherwise it is a null pointer, \<open>None\<close>.
\<close>

datatype repl = RoundRobin nat | Lru "u8 list" | Nru nru | Mru "u8 list" | Nmru "u8 list \<times> u8"
  | Plru "u8 list" | Srrip srrip | RandomRepl u32

definition map_repl :: "('s \<Rightarrow> repl) \<Rightarrow> (nat \<times> 's) res \<Rightarrow> (nat \<times> repl) res" where
  "map_repl C r = bindE r (\<lambda>(i, s). Inr (i, C s))"

fun getReplacementIndex :: "cache_block list \<Rightarrow> repl \<Rightarrow> (nat \<times> repl) res" where
  "getReplacementIndex bs (RoundRobin s) = map_repl RoundRobin (rr_get bs s)"
| "getReplacementIndex bs (Lru s) = map_repl Lru (lru_getReplacementIndex bs s)"
| "getReplacementIndex bs (Nru s) = map_repl Nru (nru_getReplacementIndex bs s)"
| "getReplacementIndex bs (Mru s) = map_repl Mru (mru_getReplacementIndex bs s)"
| "getReplacementIndex bs (Nmru s) = map_repl Nmru (nmru_getReplacementIndex bs s)"
| "getReplacementIndex bs (Plru s) = map_repl Plru (plru_getReplacementIndex bs s)"
| "getReplacementIndex bs (Srrip s) = map_repl Srrip (srrip_getReplacementIndex bs s)"
| "getReplacementIndex bs (RandomRepl s) = map_repl RandomRepl (random_get bs s)"

fun updateReplacementIndex :: "nat \<Rightarrow> nat \<Rightarrow> set_info \<times> repl \<Rightarrow> (set_info \<times> repl) res" where
  "updateReplacementIndex n a (info, RoundRobin s) = Inr (info, RoundRobin (rr_updateReplacementIndex a s))"
| "updateReplacementIndex n a (info, Lru s) =
     bindE (lru_updateReplacementIndex a info s) (\<lambda>(info', s'). Inr (info', Lru s'))"
| "updateReplacementIndex n a (info, Nru s) = Inr (info, Nru (nru_updateReplacementIndex n a s))"
| "updateReplacementIndex n a (info, Mru s) = Inr (info, Mru (mru_updateReplacementIndex a s))"
| "updateReplacementIndex n a (info, Nmru s) = Inr (info, Nmru (nmru_updateReplacementIndex a s))"
| "updateReplacementIndex n a (info, Plru s) =
     bindE (plru_updateReplacementIndex n a s) (\<lambda>s'. Inr (info, Plru s'))"
| "updateReplacementIndex n a (info, Srrip s) = Inr (info, Srrip (srrip_updateReplacementIndex a s))"
| "updateReplacementIndex n a (info, RandomRepl s) = Inr (info, RandomRepl (random_updateReplacementIndex a s))"

subsection \<open>Construction\<close>

datatype policy = ROUND_ROBIN | LRU | NRU | MRU | NMRU | PLRU | SRRIP | RANDOM

definition parsePolicyType :: "string \<Rightarrow> policy option" where
  "parsePolicyType policy =
     (if policy = ''round_robin'' then Some ROUND_ROBIN
      else if policy = ''lru'' then Some LRU
      else if policy = ''nru'' then Some NRU
      else if policy = ''mru'' then Some MRU
      else if policy = ''nmru'' then Some NMRU
      else if policy = ''plru'' then Some PLRU
      else if policy = ''srrip'' then Some SRRIP
      else if policy = ''random'' then Some RANDOM
      else None)"

record cache_set =
  cs_blocks :: "cache_block list"
  cs_data :: "u8 list option"
  cs_blocksize :: nat
  cs_repl :: repl

text \<open>What the constructors read from outside: the fault-injection switch, the configured number
  of SRRIP bits and the seed \<open>time(NULL)\<close> of the random policy when set \<open>k\<close> is built.\<close>

record cache_env =
  env_fault :: bool
  env_srrip_bits :: u8
  env_seed :: "nat \<Rightarrow> u32"

definition CacheSet :: "cache_env \<Rightarrow> cache_t \<Rightarrow> nat \<Rightarrow> nat \<Rightarrow> repl \<Rightarrow> cache_set res" where
  "CacheSet env cache_type associativity blocksize r =
     bindE (create_block cache_type) (\<lambda>b.
       Inr \<lparr>cs_blocks = replicate associativity b,
            cs_data = (if env_fault env then Some (replicate (associativity * blocksize) 0) else None),
            cs_blocksize = blocksize, cs_repl = r\<rparr>)"

definition createCacheSet :: "cache_env \<Rightarrow> string \<Rightarrow> cache_t \<Rightarrow> nat \<Rightarrow> nat \<Rightarrow> nat \<Rightarrow> cache_set res" where
  "createCacheSet env replacement_policy cache_type associativity blocksize k =
     (case parsePolicyType replacement_policy of
        Some ROUND_ROBIN \<Rightarrow> CacheSet env cache_type associativity blocksize (RoundRobin (rr_init associativity))
      | Some LRU \<Rightarrow> CacheSet env cache_type associativity blocksize (Lru (lru_init associativity))
      | Some NRU \<Rightarrow> CacheSet env cache_type associativity blocksize (Nru (nru_init associativity))
      | Some MRU \<Rightarrow> CacheSet env cache_type associativity blocksize (Mru (lru_init associativity))
      | Some NMRU \<Rightarrow> CacheSet env cache_type associativity blocksize (Nmru (lru_init associativity, 0))
      | Some PLRU \<Rightarrow> bindE (plru_init associativity)
          (\<lambda>s. CacheSet env cache_type associativity blocksize (Plru s))
      | Some SRRIP \<Rightarrow> CacheSet env cache_type associativity blocksize
          (Srrip (srrip_init (env_srrip_bits env) associativity))
      | Some RANDOM \<Rightarrow> CacheSet env cache_type associativity blocksize (RandomRepl (env_seed env k))
      | None \<Rightarrow> Inl (Log_Error ''Unrecognized Cache Replacement Policy''))"

definition createCacheSetInfo :: "string \<Rightarrow> nat \<Rightarrow> set_info" where
  "createCacheSetInfo replacement_policy associativity =
     (if parsePolicyType replacement_policy = Some LRU then Some (set_info_init associativity) else None)"

subsection \<open>Operations\<close>

text \<open>\<open>memcpy\<close> out of and into an array; leaving the array is an error.\<close>

definition mem_read :: "u8 list \<Rightarrow> nat \<Rightarrow> nat \<Rightarrow> u8 list res" where
  "mem_read m off n = (if off + n \<le> length m then Inr (take n (drop off m)) else Inl (Out_Of_Range ''memcpy''))"

definition mem_write :: "u8 list \<Rightarrow> nat \<Rightarrow> nat \<Rightarrow> u8 list \<Rightarrow> u8 list res" where
  "mem_write m off n xs = (if off + n \<le> length m \<and> n \<le> length xs
     then Inr (take off m @ take n xs @ drop (off + n) m) else Inl (Out_Of_Range ''memcpy''))"

definition set_update_replacement :: "nat \<Rightarrow> set_info \<times> cache_set \<Rightarrow> (set_info \<times> cache_set) res" where
  "set_update_replacement line_index = (\<lambda>(info, s).
     bindE (updateReplacementIndex (length (cs_blocks s)) line_index (info, cs_repl s))
       (\<lambda>(info', r). Inr (info', s\<lparr>cs_repl := r\<rparr>)))"

text \<open>\<open>out\<close> says whether \<open>out_buff\<close> is not null; the result is what was copied into it. The sum
  \<open>offset + bytes\<close> is a 32-bit sum.\<close>

definition read_line ::
  "nat \<Rightarrow> nat \<Rightarrow> bool \<Rightarrow> nat \<Rightarrow> bool \<Rightarrow> set_info \<times> cache_set \<Rightarrow> (u8 list option \<times> set_info \<times> cache_set) res" where
  "read_line line_index offset out bytes update_replacement = (\<lambda>(info, s).
     assertE ((offset + bytes) mod 2 ^ 32 \<le> cs_blocksize s) ''offset + bytes <= m_blocksize''
     (bindE (case cs_data s of
         Some m \<Rightarrow> if out then bindE (mem_read m (line_index * cs_blocksize s + offset) bytes) (\<lambda>xs. Inr (Some xs))
                   else Inr None
       | None \<Rightarrow> Inr None) (\<lambda>buff.
      if update_replacement
      then bindE (set_update_replacement line_index (info, s)) (\<lambda>st. Inr (buff, st))
      else Inr (buff, info, s))))"

definition write_line ::
  "nat \<Rightarrow> nat \<Rightarrow> u8 list option \<Rightarrow> nat \<Rightarrow> bool \<Rightarrow> set_info \<times> cache_set \<Rightarrow> (set_info \<times> cache_set) res" where
  "write_line line_index offset in_buff bytes update_replacement = (\<lambda>(info, s).
     assertE ((offset + bytes) mod 2 ^ 32 \<le> cs_blocksize s) ''offset + bytes <= m_blocksize''
     (bindE (case (in_buff, cs_data s) of
         (Some xs, Some m) \<Rightarrow>
           bindE (mem_write m (line_index * cs_blocksize s + offset) bytes xs)
             (\<lambda>m'. Inr (s\<lparr>cs_data := Some m'\<rparr>))
       | _ \<Rightarrow> Inr s) (\<lambda>s.
      if update_replacement then set_update_replacement line_index (info, s) else Inr (info, s))))"

text \<open>The loop counts down: the last way with the tag.\<close>

definition find_tag :: "addr \<Rightarrow> cache_set \<Rightarrow> nat option" where
  "find_tag tag s = find_last (\<lambda>b. m_tag b = tag) (cs_blocks s)"

definition set_invalidate :: "addr \<Rightarrow> cache_set \<Rightarrow> bool \<times> cache_set" where
  "set_invalidate tag s = (case find_tag tag s of
       Some i \<Rightarrow> (True, s\<lparr>cs_blocks := (cs_blocks s)[i := invalidate (cs_blocks s ! i)]\<rparr>)
     | None \<Rightarrow> (False, s))"

text \<open>The result: whether a block was evicted, \<open>evict_block_info\<close>, and \<open>evict_buff\<close> (when it is
  not null and data is kept).\<close>

definition set_insert ::
  "cache_block \<Rightarrow> u8 list option \<Rightarrow> cache_block \<Rightarrow> bool \<Rightarrow> cache_set \<Rightarrow>
     (bool \<times> cache_block \<times> u8 list option \<times> cache_set) res" where
  "set_insert block fill_buff evict_block want_buff s =
     bindE (getReplacementIndex (cs_blocks s) (cs_repl s)) (\<lambda>(index, r).
     assertE (index < length (cs_blocks s)) ''index < m_associativity''
     (let old = cs_blocks s ! index; ev = isValid old in
      bindE (case cs_data s of
          Some m \<Rightarrow> if ev \<and> want_buff
            then bindE (mem_read m (index * cs_blocksize s) (cs_blocksize s)) (\<lambda>xs. Inr (Some xs)) else Inr None
        | None \<Rightarrow> Inr None) (\<lambda>evict_buff.
      bindE (case (fill_buff, cs_data s) of
          (Some xs, Some m) \<Rightarrow>
            bindE (mem_write m (index * cs_blocksize s) (cs_blocksize s) xs) (\<lambda>m'. Inr (Some m'))
        | _ \<Rightarrow> Inr (cs_data s)) (\<lambda>data'.
      Inr (ev, if ev then clone evict_block old else evict_block, evict_buff,
        s\<lparr>cs_blocks := (cs_blocks s)[index := clone old block], cs_data := data', cs_repl := r\<rparr>)))))"

end
