(* ===== verification/Cache_Set_Props.thy ===== *)
theory Cache_Set_Props
  imports Cache_Set
begin

text \<open>
  The invariant of a cache set, kept by all its operations; what a set holds after an insertion,
  a hit or an invalidation; and the refinement of an LRU set to a bounded list of tags.
\<close>

subsection \<open>The policies behind the dispatch\<close>

fun repl_ok :: "nat \<Rightarrow> repl \<Rightarrow> bool" where
  "repl_ok n (RoundRobin s) = rr_ok n s"
| "repl_ok n (Lru s) = stack_ok n s"
| "repl_ok n (Nru s) = nru_ok n s"
| "repl_ok n (Mru s) = stack_ok n s"
| "repl_ok n (Nmru s) = nmru_ok n s"
| "repl_ok n (Plru s) = plru_ok n s"
| "repl_ok n (Srrip s) = srrip_ok n s"
| "repl_ok n (RandomRepl s) = random_ok n s"

fun is_rr :: "repl \<Rightarrow> bool" where
  "is_rr (RoundRobin s) = True"
| "is_rr _ = False"

fun is_lru :: "repl \<Rightarrow> bool" where
  "is_lru (Lru s) = True"
| "is_lru _ = False"

lemma map_repl_Inr_iff: "map_repl C r = Inr (i, x) \<longleftrightarrow> (\<exists>s. r = Inr (i, s) \<and> x = C s)"
  by (auto simp: map_repl_def bindE_Inr_iff)

lemma repl_victim_range: "repl_ok (length bs) r \<Longrightarrow> getReplacementIndex bs r = Inr (i, r') \<Longrightarrow> i < length bs"
  by (cases r) (auto simp: map_repl_Inr_iff intro: rr.victim_range lru.victim_range nru.victim_range
      mru.victim_range nmru.victim_range plru.victim_range srrip.victim_range random.victim_range)

lemma repl_victim_ok:
  "repl_ok (length bs) r \<Longrightarrow> getReplacementIndex bs r = Inr (i, r') \<Longrightarrow> repl_ok (length bs) r'"
  by (cases r) (auto simp: map_repl_Inr_iff intro: rr.victim_wf lru.victim_wf nru.victim_wf
      mru.victim_wf nmru.victim_wf plru.victim_wf srrip.victim_wf random.victim_wf)

lemma set_info_increment_Inr:
  "set_info_increment k info = Inr info' \<longleftrightarrow>
    (\<exists>acc. info = Some acc \<and> k < length acc \<and> info' = Some (acc[k := acc ! k + 1]))"
  by (auto simp: set_info_increment_def split: option.splits)

lemma repl_touch_ok:
  "repl_ok n r \<Longrightarrow> a < n \<Longrightarrow> updateReplacementIndex n a (info, r) = Inr (info', r') \<Longrightarrow> repl_ok n r'"
  by (cases r) (auto simp: lru_updateReplacementIndex_def bindE_Inr_iff
      rr_ok_def rr_updateReplacementIndex_def random_ok_def nru_ok_update srrip_touch_ok
      mru_updateReplacementIndex_def nmru_updateReplacementIndex_def nmru_ok_def
      intro: stack_ok_moveToMRU plru_update_ok)

lemma touch_info_length:
  "updateReplacementIndex n a (info, r) = Inr (info', r') \<Longrightarrow> map_option length info' = map_option length info"
  by (cases r) (auto simp: lru_updateReplacementIndex_def bindE_Inr_iff set_info_increment_Inr)

lemma repl_victim_free:
  assumes "repl_ok (length bs) r" and "\<not> is_rr r" and "first_free bs = Some i"
    and "getReplacementIndex bs r = Inr (j, r')"
  shows "j = i"
  using assms
  by (cases r) (auto simp: map_repl_Inr_iff dest: lru.victim_free nru.victim_free
      mru.victim_free nmru.victim_free plru.victim_free srrip.victim_free random.victim_free)

lemma repl_victim_live:
  assumes "repl_ok (length bs) r" and "all_replaceable bs"
  shows "\<exists>i r'. getReplacementIndex bs r = Inr (i, r')"
proof -
  have rr: "\<exists>i r'. rr_get bs s = Inr (i, r')" if "rr_ok (length bs) s" for s
    using that rr_get_live [of s bs s] all_replaceable_nth [OF assms(2)] by (auto simp: rr_ok_def rr_get_def)
  from assms show ?thesis
    by (cases r) (auto simp: map_repl_Inr_iff dest: rr lru.victim_live nru.victim_live
      mru.victim_live nmru.victim_live plru.victim_live srrip.victim_live random.victim_live)
qed

definition repl_step_ok :: "nat \<Rightarrow> set_info \<times> repl \<Rightarrow> bool" where
  "repl_step_ok n x \<longleftrightarrow> repl_ok n (snd x) \<and> \<not> is_rr (snd x)"

definition repl_victim :: "cache_block list \<Rightarrow> set_info \<times> repl \<Rightarrow> (nat \<times> set_info \<times> repl) res" where
  "repl_victim bs x = bindE (getReplacementIndex bs (snd x)) (\<lambda>(i, r). Inr (i, fst x, r))"

lemma is_rr_victim: "getReplacementIndex bs r = Inr (i, r') \<Longrightarrow> is_rr r' = is_rr r"
  by (cases r) (auto simp: map_repl_Inr_iff)

lemma is_rr_touch: "updateReplacementIndex n a (info, r) = Inr (info', r') \<Longrightarrow> is_rr r' = is_rr r"
  by (cases r) (auto simp: bindE_Inr_iff)

interpretation repl: replacement_live repl_step_ok repl_victim updateReplacementIndex
proof unfold_locales
  fix bs :: "cache_block list" and s i s'
  assume "repl_step_ok (length bs) s" "repl_victim bs s = Inr (i, s')"
  then show "i < length bs" "repl_step_ok (length bs) s'"
    by (auto simp: repl_step_ok_def repl_victim_def bindE_Inr_iff is_rr_victim
        dest: repl_victim_range repl_victim_ok)
next
  fix n a s s'
  assume "repl_step_ok n s" "a < n" "updateReplacementIndex n a s = Inr s'"
  then show "repl_step_ok n s'"
    by (cases s; cases s') (auto simp: repl_step_ok_def is_rr_touch dest: repl_touch_ok)
next
  fix bs :: "cache_block list" and s i j s'
  assume "repl_step_ok (length bs) s" "first_free bs = Some i" "repl_victim bs s = Inr (j, s')"
  then show "j = i" by (auto simp: repl_step_ok_def repl_victim_def bindE_Inr_iff dest: repl_victim_free)
next
  fix bs :: "cache_block list" and s
  assume "repl_step_ok (length bs) s" "all_replaceable bs"
  then show "\<exists>i s'. repl_victim bs s = Inr (i, s')"
    using repl_victim_live [of bs "snd s"] by (auto simp: repl_step_ok_def repl_victim_def)
qed

subsection \<open>The invariant\<close>

definition tags_unique :: "cache_block list \<Rightarrow> bool" where
  "tags_unique bs \<longleftrightarrow> (\<forall>i<length bs. \<forall>j<length bs. m_tag (bs ! i) = m_tag (bs ! j) \<longrightarrow> isValid (bs ! i) \<longrightarrow> i = j)"

definition set_wf :: "nat \<Rightarrow> cache_set \<Rightarrow> bool" where
  "set_wf n s \<longleftrightarrow> length (cs_blocks s) = n \<and> repl_ok n (cs_repl s) \<and>
     (\<forall>m. cs_data s = Some m \<longrightarrow> length m = n * cs_blocksize s)"

definition set_ok :: "nat \<Rightarrow> cache_set \<Rightarrow> bool" where
  "set_ok n s \<longleftrightarrow> set_wf n s \<and> tags_unique (cs_blocks s)"

definition set_tags :: "cache_set \<Rightarrow> addr set" where
  "set_tags s = {m_tag b | b. b \<in> set (cs_blocks s) \<and> isValid b}"

lemma set_tagsI: "b \<in> set (cs_blocks s) \<Longrightarrow> isValid b \<Longrightarrow> m_tag b \<in> set_tags s"
  by (auto simp: set_tags_def)

lemma tags_unique_update:
  assumes "tags_unique bs" and "\<forall>j<length bs. j \<noteq> i \<longrightarrow> isValid b \<longrightarrow> m_tag (bs ! j) \<noteq> m_tag b"
  shows "tags_unique (bs[i := b])"
  unfolding tags_unique_def
proof (intro allI impI)
  fix k j assume k: "k < length (bs[i := b])" and j: "j < length (bs[i := b])"
    and eq: "m_tag (bs[i := b] ! k) = m_tag (bs[i := b] ! j)" and v: "isValid (bs[i := b] ! k)"
  from eq v have v': "isValid (bs[i := b] ! j)" by (simp add: isValid_def)
  show "k = j"
  proof (cases "k = i \<or> j = i")
    case True
    with assms(2) k j eq v v' show ?thesis by (metis length_list_update nth_list_update)
  next
    case False
    with assms(1) k j eq v show ?thesis by (auto simp: tags_unique_def)
  qed
qed

lemma find_tag_Some:
  "find_tag tag s = Some i \<Longrightarrow> i < length (cs_blocks s) \<and> m_tag (cs_blocks s ! i) = tag"
  using find_last_SomeD [of _ "cs_blocks s" i] by (auto simp: find_tag_def)

lemma find_tag_iff:
  assumes "tags_unique (cs_blocks s)" and "tag \<noteq> -1"
  shows "find_tag tag s = Some i \<longleftrightarrow> i < length (cs_blocks s) \<and> m_tag (cs_blocks s ! i) = tag"
proof
  assume i: "i < length (cs_blocks s) \<and> m_tag (cs_blocks s ! i) = tag"
  then have v: "isValid (cs_blocks s ! i)" using assms(2) by (simp add: isValid_def)
  show "find_tag tag s = Some i" unfolding find_tag_def
    using i v assms(1) by (intro find_last_unique) (auto simp: tags_unique_def)
qed (rule find_tag_Some)

lemma find_tag_None_iff:
  "tag \<noteq> -1 \<Longrightarrow> find_tag tag s = None \<longleftrightarrow> tag \<notin> set_tags s"
  by (auto simp: find_tag_def find_last_None_iff set_tags_def isValid_def)

lemma set_wf_invalidate:
  "set_wf n s \<Longrightarrow> set_wf n (snd (set_invalidate tag s)) \<and> cs_blocksize (snd (set_invalidate tag s)) = cs_blocksize s \<and>
    (cs_data (snd (set_invalidate tag s)) = None \<longleftrightarrow> cs_data s = None)"
  by (auto simp: set_wf_def set_invalidate_def split: option.splits)

lemma set_ok_invalidate:
  assumes "set_ok n s"
  shows "set_ok n (snd (set_invalidate tag s))"
proof -
  have "tags_unique (cs_blocks (snd (set_invalidate tag s)))"
    using assms by (auto simp: set_ok_def set_invalidate_def tags_unique_update split: option.splits)
  with set_wf_invalidate assms show ?thesis by (simp add: set_ok_def)
qed

lemma set_wf_update_replacement:
  assumes "set_wf n s" and "a < n" and "set_update_replacement a (info, s) = Inr (info', s')"
  shows "set_wf n s' \<and> cs_blocks s' = cs_blocks s \<and> cs_data s' = cs_data s \<and> cs_blocksize s' = cs_blocksize s \<and>
    map_option length info' = map_option length info"
  using assms repl_touch_ok [of n "cs_repl s" a info info'] touch_info_length [of n a info "cs_repl s" info']
  by (auto simp: set_wf_def set_update_replacement_def bindE_Inr_iff)

subsection \<open>Insertion\<close>

lemma mem_read_Inr: "mem_read m off n = Inr xs \<longleftrightarrow> off + n \<le> length m \<and> xs = take n (drop off m)"
  by (auto simp: mem_read_def)

lemma mem_write_Inr:
  "mem_write m off n xs = Inr m' \<longleftrightarrow> off + n \<le> length m \<and> n \<le> length xs \<and> m' = take off m @ take n xs @ drop (off + n) m"
  by (auto simp: mem_write_def)

lemma mem_write_length: "mem_write m off n xs = Inr m' \<Longrightarrow> length m' = length m"
  by (auto simp: mem_write_Inr)

lemma mem_read_write_same:
  "mem_write m off n xs = Inr m' \<Longrightarrow> mem_read m' off n = Inr (take n xs)"
  by (auto simp: mem_write_Inr mem_read_def)

lemma mem_read_write_other:
  assumes "mem_write m off n xs = Inr m'" and "off' + k \<le> off \<or> off + n \<le> off'"
  shows "mem_read m' off' k = mem_read m off' k"
proof -
  have m: "off + n \<le> length m" "n \<le> length xs" "m' = take off m @ take n xs @ drop (off + n) m"
    using assms(1) by (auto simp: mem_write_Inr)
  have len: "length m' = length m" using m by simp
  have nth: "m' ! j = m ! j" if "j < off \<or> off + n \<le> j" "j < length m" for j
    using m(1,2) that unfolding m(3) by (auto simp: nth_append min_def)
  show ?thesis
  proof (cases "off' + k \<le> length m")
    case True
    then have "take k (drop off' m') = take k (drop off' m)"
      using assms(2) len nth by (intro nth_equalityI) auto
    with True len show ?thesis by (simp add: mem_read_def)
  qed (simp add: mem_read_def len)
qed

text \<open>A line reads back what was written to it, and the other lines what they held.\<close>

lemma set_update_replacement_data:
  "set_update_replacement i (info, s) = Inr (info', s') \<Longrightarrow> cs_data s' = cs_data s \<and> cs_blocksize s' = cs_blocksize s"
  by (auto simp: set_update_replacement_def bindE_Inr_iff)

lemma write_line_data:
  assumes "write_line i off (Some xs) n upd (info, s) = Inr (info', s')" and "cs_data s = Some m"
  shows "cs_blocksize s' = cs_blocksize s \<and>
    (\<exists>m'. mem_write m (i * cs_blocksize s + off) n xs = Inr m' \<and> cs_data s' = Some m')"
  using assms by (auto simp: write_line_def bindE_Inr_iff dest: set_update_replacement_data split: if_splits)

lemma read_line_data:
  assumes "read_line i off True n upd (info, s) = Inr (out, info', s')" and "cs_data s = Some m"
  shows "\<exists>xs. mem_read m (i * cs_blocksize s + off) n = Inr xs \<and> out = Some xs"
  using assms by (auto simp: read_line_def bindE_Inr_iff split: if_splits)

lemma lines_apart:
  assumes "i \<noteq> j" and "off + n \<le> (b :: nat)" and "off' + k \<le> b"
  shows "j * b + off' + k \<le> i * b + off \<or> i * b + off + n \<le> j * b + off'"
proof (cases "i < j")
  case True
  then have "(i + 1) * b \<le> j * b" by (intro mult_right_mono) auto
  with assms(2) show ?thesis by simp
next
  case False
  with assms(1) have "(j + 1) * b \<le> i * b" by (intro mult_right_mono) auto
  with assms(3) show ?thesis by simp
qed

lemma read_after_write:
  assumes w: "write_line i off (Some xs) n upd (info, s) = Inr (info', s')" and d: "cs_data s = Some m"
    and r: "read_line j off' True k upd' (info', s') = Inr (out, info'', s'')"
  shows "i = j \<and> off' = off \<and> k = n \<Longrightarrow> out = Some (take n xs)"
    and "i \<noteq> j \<and> off + n \<le> cs_blocksize s \<and> off' + k \<le> cs_blocksize s \<Longrightarrow>
      map_option Inr out = Some (mem_read m (j * cs_blocksize s + off') k)"
proof -
  from write_line_data [OF w d] obtain m' where m: "mem_write m (i * cs_blocksize s + off) n xs = Inr m'"
    "cs_data s' = Some m'" "cs_blocksize s' = cs_blocksize s" by blast
  from read_line_data [OF r m(2)] m(3) obtain ys where y: "mem_read m' (j * cs_blocksize s + off') k = Inr ys"
    "out = Some ys" by auto
  show "out = Some (take n xs)" if "i = j \<and> off' = off \<and> k = n"
    using mem_read_write_same [OF m(1)] y that by simp
  show "map_option Inr out = Some (mem_read m (j * cs_blocksize s + off') k)"
    if "i \<noteq> j \<and> off + n \<le> cs_blocksize s \<and> off' + k \<le> cs_blocksize s"
    using mem_read_write_other [OF m(1), of "j * cs_blocksize s + off'" k] lines_apart [of i j off n _ off' k] that y
    by simp
qed

lemma set_insert_cases:
  assumes "set_wf n s" and "set_insert b fill evb want s = Inr (ev, evb', buf, s')"
  obtains i r where "getReplacementIndex (cs_blocks s) (cs_repl s) = Inr (i, r)" and "i < n"
    and "ev = isValid (cs_blocks s ! i)" and "evb' = (if ev then clone evb (cs_blocks s ! i) else evb)"
    and "cs_blocks s' = (cs_blocks s)[i := clone (cs_blocks s ! i) b]" and "cs_repl s' = r"
    and "cs_blocksize s' = cs_blocksize s"
    and "case (fill, cs_data s) of (Some xs, Some m) \<Rightarrow>
        (\<exists>m'. mem_write m (i * cs_blocksize s) (cs_blocksize s) xs = Inr m' \<and> cs_data s' = Some m')
      | _ \<Rightarrow> cs_data s' = cs_data s"
proof -
  from assms(2) obtain i r where g: "getReplacementIndex (cs_blocks s) (cs_repl s) = Inr (i, r)"
    unfolding set_insert_def by (auto simp: bindE_Inr_iff)
  have "i < n" using assms(1) g repl_victim_range [of "cs_blocks s" "cs_repl s" i r] by (auto simp: set_ok_def set_wf_def)
  with assms(2) g show ?thesis
    unfolding set_insert_def Let_def
    by (intro that [of i r]) (auto simp: bindE_Inr_iff split: option.splits if_splits)
qed

lemma set_wf_insert:
  assumes "set_wf n s" and "set_insert b fill evb want s = Inr (ev, evb', buf, s')"
  shows "set_wf n s' \<and> cs_blocksize s' = cs_blocksize s \<and> (cs_data s' = None \<longleftrightarrow> cs_data s = None)"
  using assms
proof (cases rule: set_insert_cases)
  case (1 i r)
  have "repl_ok n r" using assms(1) 1(1) repl_victim_ok [of "cs_blocks s"] by (auto simp: set_wf_def)
  moreover have "\<forall>m. cs_data s' = Some m \<longrightarrow> length m = n * cs_blocksize s'"
    using assms(1) 1(7,8) by (auto simp: set_wf_def dest: mem_write_length split: option.splits)
  ultimately show ?thesis using assms(1) 1(5-8) by (auto simp: set_wf_def split: option.splits)
qed

lemma set_ok_wf: "set_ok n s \<Longrightarrow> set_wf n s"
  by (simp add: set_ok_def)

lemma set_ok_insert:
  assumes "set_ok n s" and "set_insert b fill evb want s = Inr (ev, evb', buf, s')"
    and "m_tag b \<notin> set_tags s"
  shows "set_ok n s'"
  using set_ok_wf [OF assms(1)] assms(2)
proof (cases rule: set_insert_cases)
  case (1 i r)
  have "m_tag (cs_blocks s ! j) \<noteq> m_tag b" if "j < length (cs_blocks s)" "isValid b" for j
  proof
    assume "m_tag (cs_blocks s ! j) = m_tag b"
    moreover from this that(2) have "isValid (cs_blocks s ! j)" by (simp add: isValid_def)
    moreover have "cs_blocks s ! j \<in> set (cs_blocks s)" using that(1) by simp
    ultimately have "m_tag b \<in> set_tags s" unfolding set_tags_def by (metis (mono_tags, lifting) mem_Collect_eq)
    with assms(3) show False by simp
  qed
  then have "tags_unique (cs_blocks s')"
    using assms(1) unfolding 1(5) by (intro tags_unique_update) (auto simp: set_ok_def)
  with set_wf_insert [OF set_ok_wf [OF assms(1)] assms(2)] show ?thesis by (simp add: set_ok_def)
qed

text \<open>Without unique tags an insertion may leave another copy of the tag it evicts.\<close>

lemma set_tags_insert_wf:
  assumes "set_wf n s" and "set_insert b fill evb want s = Inr (ev, evb', buf, s')" and "isValid b"
  shows "m_tag b \<in> set_tags s'" and "set_tags s' \<subseteq> insert (m_tag b) (set_tags s)"
    and "ev \<Longrightarrow> m_tag evb' \<in> set_tags s"
    and "insert (m_tag b) (set_tags s - (if ev then {m_tag evb'} else {})) \<subseteq> set_tags s'"
  using assms(1,2)
proof (atomize (full), cases rule: set_insert_cases)
  case (1 i r)
  have len: "i < length (cs_blocks s)" using assms(1) 1(2) by (simp add: set_wf_def)
  let ?bs = "cs_blocks s"
  have sub: "set (cs_blocks s') \<subseteq> insert (clone (?bs ! i) b) (set ?bs)"
    unfolding 1(5) by (rule set_update_subset_insert)
  have new: "clone (?bs ! i) b \<in> set (cs_blocks s')" unfolding 1(5) by (rule set_update_memI [OF len])
  have keep: "x \<in> set (cs_blocks s')" if x: "x \<in> set ?bs" "x \<noteq> ?bs ! i" for x
  proof -
    from x(1) obtain j where j: "j < length ?bs" "x = ?bs ! j" by (metis in_set_conv_nth)
    with x(2) have "j \<noteq> i" by auto
    with j show ?thesis unfolding 1(5) by (metis length_list_update nth_list_update_neq nth_mem)
  qed
  have a: "m_tag b \<in> set_tags s'" using set_tagsI [OF new] assms(3) by simp
  have b: "set_tags s' \<subseteq> insert (m_tag b) (set_tags s)" using sub by (auto simp: set_tags_def)
  have c: "ev \<longrightarrow> m_tag evb' \<in> set_tags s" using 1(3,4) len by (auto simp: set_tags_def)
  have d: "insert (m_tag b) (set_tags s - (if ev then {m_tag evb'} else {})) \<subseteq> set_tags s'"
    using a keep 1(3,4) by (auto simp: set_tags_def split: if_splits)
  from a b c d show "(m_tag b \<in> set_tags s' \<and> set_tags s' \<subseteq> insert (m_tag b) (set_tags s)) \<and>
    (ev \<longrightarrow> m_tag evb' \<in> set_tags s) \<and> insert (m_tag b) (set_tags s - (if ev then {m_tag evb'} else {})) \<subseteq> set_tags s'"
    by blast
qed

lemma set_tags_update:
  assumes "tags_unique bs" and "i < length bs"
  shows "{m_tag b | b. b \<in> set (bs[i := b']) \<and> isValid b} =
    {m_tag b | b. b \<in> set bs \<and> isValid b} - (if isValid (bs ! i) then {m_tag (bs ! i)} else {}) \<union>
    (if isValid b' then {m_tag b'} else {})"
proof -
  have split: "{m_tag b | b. b \<in> set (bs[i := x]) \<and> isValid b} =
      {m_tag (bs ! j) | j. j < length bs \<and> j \<noteq> i \<and> isValid (bs ! j)} \<union> (if isValid x then {m_tag x} else {})" for x
    using assms(2) by (auto simp: set_conv_nth nth_list_update split: if_splits)
  have "{m_tag b | b. b \<in> set bs \<and> isValid b} =
      {m_tag (bs ! j) | j. j < length bs \<and> j \<noteq> i \<and> isValid (bs ! j)} \<union> (if isValid (bs ! i) then {m_tag (bs ! i)} else {})"
    using split [of "bs ! i"] by simp
  moreover have "m_tag (bs ! i) \<notin> {m_tag (bs ! j) | j. j < length bs \<and> j \<noteq> i \<and> isValid (bs ! j)}"
    using assms by (auto simp: tags_unique_def)
  ultimately show ?thesis unfolding split by auto
qed

lemma set_tags_insert:
  assumes "set_ok n s" and "set_insert b fill evb want s = Inr (ev, evb', buf, s')" and "isValid b"
  shows "set_tags s' = insert (m_tag b) (set_tags s - (if ev then {m_tag evb'} else {}))"
  using set_ok_wf [OF assms(1)] assms(2)
proof (cases rule: set_insert_cases)
  case (1 i r)
  have "tags_unique (cs_blocks s)" "i < length (cs_blocks s)" using assms(1) 1(2) by (auto simp: set_ok_def set_wf_def)
  from set_tags_update [OF this] assms(3) 1 show ?thesis by (auto simp: set_tags_def)
qed

lemma find_tag_insert:
  assumes "set_ok n s" and "set_insert b fill evb want s = Inr (ev, evb', buf, s')"
    and "isValid b" and "m_tag b \<notin> set_tags s"
  shows "\<exists>i r. find_tag (m_tag b) s' = Some i \<and> i < n \<and> getReplacementIndex (cs_blocks s) (cs_repl s) = Inr (i, r) \<and>
    cs_blocks s' ! i = clone (cs_blocks s ! i) b"
  using set_ok_wf [OF assms(1)] assms(2)
proof (cases rule: set_insert_cases)
  case (1 i r)
  have ok: "set_ok n s'" by (rule set_ok_insert [OF assms(1,2,4)])
  have "find_tag (m_tag b) s' = Some i"
    using ok 1(2,5) assms(1,3) by (subst find_tag_iff) (auto simp: set_ok_def set_wf_def isValid_def)
  moreover have "cs_blocks s' ! i = clone (cs_blocks s ! i) b" using 1(2,5) assms(1) by (simp add: set_ok_def set_wf_def)
  ultimately show ?thesis using 1(1,2) by blast
qed

lemma set_tags_invalidate:
  assumes "set_ok n s" and "tag \<noteq> -1"
  shows "set_tags (snd (set_invalidate tag s)) = set_tags s - {tag}"
    and "fst (set_invalidate tag s) \<longleftrightarrow> tag \<in> set_tags s"
proof -
  have u: "tags_unique (cs_blocks s)" using assms(1) by (simp add: set_ok_def set_wf_def)
  show "fst (set_invalidate tag s) \<longleftrightarrow> tag \<in> set_tags s"
    using find_tag_None_iff [OF assms(2), of s] by (auto simp: set_invalidate_def split: option.splits)
  show "set_tags (snd (set_invalidate tag s)) = set_tags s - {tag}"
  proof (cases "find_tag tag s")
    case None
    then show ?thesis using find_tag_None_iff [OF assms(2), of s] by (simp add: set_invalidate_def)
  next
    case (Some i)
    from find_tag_Some [OF this] have i: "i < length (cs_blocks s)" "m_tag (cs_blocks s ! i) = tag" by auto
    with set_tags_update [OF u i(1), of "invalidate (cs_blocks s ! i)"] Some assms(2) show ?thesis
      by (simp add: set_invalidate_def set_tags_def isValid_def)
  qed
qed

subsection \<open>Construction\<close>

text \<open>The associativities a policy works with.\<close>

definition policy_fits :: "cache_env \<Rightarrow> string \<Rightarrow> nat \<Rightarrow> bool" where
  "policy_fits env pol n \<longleftrightarrow> 0 < n \<and> n \<le> 256 \<and>
     (parsePolicyType pol = Some NRU \<longrightarrow> n \<le> 255) \<and> (parsePolicyType pol = Some NMRU \<longrightarrow> 2 \<le> n) \<and>
     (parsePolicyType pol = Some SRRIP \<longrightarrow> 1 \<le> unat (env_srrip_bits env) \<and> unat (env_srrip_bits env) \<le> 8)"

lemma srrip_max_nz:
  assumes "1 \<le> unat b" and "unat b \<le> 8"
  shows "rrip_max (srrip_init b n) \<noteq> 0"
proof -
  have "unat b \<in> {1..8}" using assms by simp
  also have "{1..8} = {1,2,3,4,5,6,7,8::nat}" by auto
  finally show ?thesis by (auto simp: srrip_init_def Let_def)
qed

lemma srrip_ok_init:
  assumes "0 < n" and "n \<le> 256" and "1 \<le> unat b" and "unat b \<le> 8"
  shows "srrip_ok n (srrip_init b n)"
proof -
  let ?m = "rrip_max (srrip_init b n)"
  have "?m - 1 \<le> ?m" using srrip_max_nz [OF assms(3,4), of n]
    by (simp add: word_le_nat_alt unat_minus_one)
  moreover have "rrip_insert (srrip_init b n) = ?m - 1"
    "rrip_bits (srrip_init b n) = replicate n (?m - 1)" "rrip_pointer (srrip_init b n) = 0"
    by (simp_all add: srrip_init_def Let_def)
  ultimately show ?thesis using assms(1,2) by (simp add: srrip_ok_def)
qed

lemma CacheSet_Inr:
  assumes "CacheSet env ty n bs r = Inr s" and "repl_ok n r"
  shows "set_wf n s \<and> tags_unique (cs_blocks s) \<and> set_tags s = {} \<and> cs_repl s = r \<and> cs_blocksize s = bs"
proof -
  from assms(1) obtain b where b: "create_block ty = Inr b"
    and s: "s = \<lparr>cs_blocks = replicate n b,
      cs_data = (if env_fault env then Some (replicate (n * bs) 0) else None), cs_blocksize = bs, cs_repl = r\<rparr>"
    by (auto simp: CacheSet_def)
  from create_block_Inr [OF b] have "\<not> isValid b" by simp
  with s assms(2) show ?thesis by (auto simp: set_wf_def tags_unique_def set_tags_def)
qed

lemma createCacheSet_Inr:
  assumes "createCacheSet env pol ty n bs k = Inr s" and "policy_fits env pol n"
  shows "set_wf n s \<and> tags_unique (cs_blocks s) \<and> set_tags s = {} \<and> cs_blocksize s = bs \<and>
    is_lru (cs_repl s) = (parsePolicyType pol = Some LRU)"
proof -
  have st: "stack_ok n (lru_init n)" and nru: "n \<le> 255 \<Longrightarrow> nru_ok n (nru_init n)"
    using assms(2) by (auto simp: policy_fits_def stack_ok_lru_init nru_ok_init)
  have "\<exists>r. CacheSet env ty n bs r = Inr s \<and> repl_ok n r \<and> is_lru r = (parsePolicyType pol = Some LRU)"
  proof (cases "parsePolicyType pol")
    case (Some p)
    then show ?thesis
      using assms st nru
      by (cases p)
        (auto simp: createCacheSet_def policy_fits_def rr_init_def rr_ok_def nmru_ok_def random_ok_def
          plru_init_def plru_ok_def bindE_Inr_iff assertE_Inr_iff srrip_ok_init)
  qed (use assms(1) in \<open>simp add: createCacheSet_def\<close>)
  then obtain r where r: "CacheSet env ty n bs r = Inr s" "repl_ok n r" "is_lru r = (parsePolicyType pol = Some LRU)"
    by blast
  from CacheSet_Inr [OF r(1,2)] r(3) show ?thesis by simp
qed

end
