(* ===== verification/Cache_Set_LRU.thy ===== *)
theory Cache_Set_LRU
  imports Cache_Set_Props
begin

text \<open>
  An LRU set refines a bounded list of tags, most recently used first: an insertion puts its tag
  in front and drops what no longer fits, a hit moves the tag to the front, an invalidation
  removes it.
\<close>

definition lru_order :: "cache_set \<Rightarrow> addr list" where
  "lru_order s = (case cs_repl s of
     Lru bits \<Rightarrow> map (\<lambda>i. m_tag (cs_blocks s ! i)) (filter (\<lambda>i. isValid (cs_blocks s ! i)) (recency bits))
   | _ \<Rightarrow> [])"

lemma lru_set_ok:
  assumes "set_ok n s" and "cs_repl s = Lru bits"
  shows "stack_ok n bits" and "length (cs_blocks s) = n" and "set (recency bits) = {..<n}"
    and "distinct (recency bits)" and "length (recency bits) = n"
proof -
  show st: "stack_ok n bits" and "length (cs_blocks s) = n" using assms by (auto simp: set_ok_def set_wf_def)
  show "set (recency bits) = {..<n}" by (rule set_recency [OF st])
  show "distinct (recency bits)" by (rule distinct_recency [OF st])
  show "length (recency bits) = n" using st by (simp add: stack_ok_def)
qed

lemma set_lru_order:
  assumes "set_ok n s" and "cs_repl s = Lru bits"
  shows "set (lru_order s) = set_tags s"
  using lru_set_ok [OF assms] assms(2)
  by (auto simp: lru_order_def set_tags_def in_set_conv_nth)

lemma distinct_lru_order:
  assumes "set_ok n s" and "cs_repl s = Lru bits"
  shows "distinct (lru_order s)"
proof -
  have u: "tags_unique (cs_blocks s)" using assms(1) by (simp add: set_ok_def set_wf_def)
  have "inj_on (\<lambda>i. m_tag (cs_blocks s ! i)) (set (filter (\<lambda>i. isValid (cs_blocks s ! i)) (recency bits)))"
    using u lru_set_ok [OF assms] by (auto simp: inj_on_def tags_unique_def)
  with lru_set_ok(4) [OF assms] assms(2) show ?thesis
    by (simp add: lru_order_def distinct_map)
qed

lemma filter_remove1_false: "\<not> P a \<Longrightarrow> filter P (remove1 a xs) = filter P xs"
  by (induction xs) auto

lemma map_remove1_inj:
  "inj_on f (set xs) \<Longrightarrow> x \<in> set xs \<Longrightarrow> map f (remove1 x xs) = remove1 (f x) (map f xs)"
  by (induction xs) (auto simp: inj_on_def)

lemma remove1_last: "distinct xs \<Longrightarrow> xs \<noteq> [] \<Longrightarrow> remove1 (last xs) xs = butlast xs"
  by (induction xs) (auto simp: last_in_set)

text \<open>What the order becomes when way \<open>i\<close> is moved to the front and given a valid block.\<close>

lemma lru_order_fill:
  assumes "set_ok n s" and "cs_repl s = Lru bits" and "i < n" and "isValid b"
    and "cs_blocks s' = (cs_blocks s)[i := b]" and "cs_repl s' = Lru (moveToMRU i bits)"
  shows "lru_order s' = m_tag b # map (\<lambda>i. m_tag (cs_blocks s ! i))
    (filter (\<lambda>i. isValid (cs_blocks s ! i)) (remove1 i (recency bits)))"
proof -
  note ok = lru_set_ok [OF assms(1,2)]
  have other: "cs_blocks s' ! j = cs_blocks s ! j" if "j \<in> set (remove1 i (recency bits))" for j
    using that ok(4) assms(5) by (auto simp: nth_list_update)
  have "filter (\<lambda>i. isValid (cs_blocks s' ! i)) (remove1 i (recency bits)) =
      filter (\<lambda>i. isValid (cs_blocks s ! i)) (remove1 i (recency bits))"
    using other by (intro filter_cong) auto
  moreover have "map (\<lambda>i. m_tag (cs_blocks s' ! i)) (filter P (remove1 i (recency bits))) =
      map (\<lambda>i. m_tag (cs_blocks s ! i)) (filter P (remove1 i (recency bits)))" for P
    using other by (intro map_cong) auto
  ultimately show ?thesis
    using assms(3-6) ok(2) by (simp add: lru_order_def recency_moveToMRU [OF ok(1) assms(3)])
qed

lemma lru_order_free_length:
  assumes "set_ok n s" and "cs_repl s = Lru bits" and "i < n" and "\<not> isValid (cs_blocks s ! i)"
  shows "length (lru_order s) < n"
proof -
  note ok = lru_set_ok [OF assms(1,2)]
  have "length (filter (\<lambda>i. isValid (cs_blocks s ! i)) (recency bits)) < length (recency bits)"
    by (rule length_filter_less [of i]) (use ok(3) assms(3,4) in auto)
  with ok(5) assms(2) show ?thesis by (simp add: lru_order_def)
qed

lemma lru_order_insert:
  assumes ok: "set_ok n s" and l: "cs_repl s = Lru bits" and rep: "all_replaceable (cs_blocks s)"
    and ins: "set_insert b fill evb want s = Inr (ev, evb', buf, s')" and v: "isValid b"
  shows "lru_order s' = take n (m_tag b # lru_order s) \<and>
    (ev \<longleftrightarrow> length (lru_order s) = n) \<and> (ev \<longrightarrow> m_tag evb' = last (lru_order s))"
  using set_ok_wf [OF ok] ins
proof (cases rule: set_insert_cases)
  case (1 i r)
  note o = lru_set_ok [OF ok l]
  from 1(1) l obtain bits' where r: "r = Lru bits'"
    and g: "lru_getReplacementIndex (cs_blocks s) bits = Inr (i, bits')" by (auto simp: map_repl_Inr_iff)
  show ?thesis
  proof (cases "first_free (cs_blocks s)")
    case (Some k)
    with lru_get_free [OF _ Some] o(1,2) g have k: "k = i" "bits' = moveToMRU i bits" by (auto simp: stack_ok_def)
    have inv: "\<not> isValid (cs_blocks s ! i)" using first_free_SomeD [OF Some] k by simp
    have "lru_order s' = m_tag b # lru_order s"
      using lru_order_fill [OF ok l 1(2), of "clone (cs_blocks s ! i) b" s'] 1(5,6) r k(2) v l
        filter_remove1_false [of "\<lambda>i. isValid (cs_blocks s ! i)" i "recency bits"] inv
      by (simp add: lru_order_def)
    with lru_order_free_length [OF ok l 1(2) inv] 1(3) inv show ?thesis by simp
  next
    case None
    then have all: "all_valid (cs_blocks s)" by (simp add: first_free_None_iff)
    have "i = last (recency bits)" "bits' = moveToMRU i bits"
      using lru_get_last [OF _ all rep, of bits] o(1,2) g by auto
    moreover have ne: "recency bits \<noteq> []" using o(5) 1(2) by (metis list.size(3) not_less_zero)
    ultimately have rm: "remove1 i (recency bits) = butlast (recency bits)"
      using remove1_last o(4) by blast
    have valid: "isValid (cs_blocks s ! j)" if "j \<in> set (recency bits)" for j
      using that all o(2,3) by (auto simp: all_valid_def list_all_length)
    have f: "filter (\<lambda>i. isValid (cs_blocks s ! i)) (recency bits) = recency bits"
      using valid by simp
    have fb: "filter (\<lambda>i. isValid (cs_blocks s ! i)) (butlast (recency bits)) = butlast (recency bits)"
      using valid by (simp add: filter_id_conv) (meson in_set_butlastD)
    have order: "lru_order s = map (\<lambda>i. m_tag (cs_blocks s ! i)) (recency bits)"
      by (simp only: lru_order_def l repl.case f)
    have "lru_order s' = m_tag b # map (\<lambda>i. m_tag (cs_blocks s ! i)) (butlast (recency bits))"
      using lru_order_fill [OF ok l 1(2), of "clone (cs_blocks s ! i) b" s'] 1(5,6) r v
        \<open>bits' = moveToMRU i bits\<close> rm fb by simp
    also have "\<dots> = take n (m_tag b # lru_order s)"
      using o(5) ne 1(2) by (cases n) (auto simp: order butlast_conv_take take_map)
    finally show ?thesis
      using 1(2-4) o(2,5) order ne \<open>i = last (recency bits)\<close> all
      by (auto simp: all_valid_def list_all_length last_map)
  qed
qed

lemma lru_order_touch:
  assumes ok: "set_ok n s" and l: "cs_repl s = Lru bits" and f: "find_tag tag s = Some i" and t: "tag \<noteq> -1"
    and up: "set_update_replacement i (info, s) = Inr (info', s')"
  shows "lru_order s' = tag # remove1 tag (lru_order s)"
proof -
  note o = lru_set_ok [OF ok l]
  from find_tag_Some [OF f] o(2) have i: "i < n" "m_tag (cs_blocks s ! i) = tag" by auto
  then have v: "isValid (cs_blocks s ! i)" using t by (simp add: isValid_def)
  from up l have "cs_blocks s' = cs_blocks s" "cs_repl s' = Lru (moveToMRU i bits)"
    by (auto simp: set_update_replacement_def lru_updateReplacementIndex_def bindE_Inr_iff)
  with lru_order_fill [OF ok l i(1) v, of s'] i(2)
  have "lru_order s' = tag # map (\<lambda>i. m_tag (cs_blocks s ! i))
      (filter (\<lambda>i. isValid (cs_blocks s ! i)) (remove1 i (recency bits)))" by simp
  also have "map (\<lambda>i. m_tag (cs_blocks s ! i)) (filter (\<lambda>i. isValid (cs_blocks s ! i)) (remove1 i (recency bits))) =
      remove1 tag (lru_order s)"
  proof -
    let ?g = "\<lambda>i. m_tag (cs_blocks s ! i)" and ?v = "filter (\<lambda>i. isValid (cs_blocks s ! i)) (recency bits)"
    have d: "distinct (map ?g ?v)" using distinct_lru_order [OF ok l] l by (simp add: lru_order_def)
    have "i \<in> set ?v" using o(3) i(1) v by simp
    then have "remove1 (?g i) (map ?g ?v) = map ?g (remove1 i ?v)"
      using d map_remove1_inj [of ?g ?v i] by (simp add: distinct_map)
    then show ?thesis using i(2) l by (simp add: lru_order_def filter_remove1)
  qed
  finally show ?thesis .
qed

lemma lru_order_invalidate:
  assumes ok: "set_ok n s" and l: "cs_repl s = Lru bits" and t: "tag \<noteq> -1"
  shows "lru_order (snd (set_invalidate tag s)) = remove1 tag (lru_order s)"
proof (cases "find_tag tag s")
  case None
  then have "tag \<notin> set (lru_order s)"
    using find_tag_None_iff [OF t, of s] set_lru_order [OF ok l] by simp
  with None show ?thesis by (simp add: set_invalidate_def remove1_idem)
next
  case (Some i)
  note o = lru_set_ok [OF ok l]
  let ?g = "\<lambda>i. m_tag (cs_blocks s ! i)" and ?v = "filter (\<lambda>i. isValid (cs_blocks s ! i)) (recency bits)"
  let ?s = "s\<lparr>cs_blocks := (cs_blocks s)[i := invalidate (cs_blocks s ! i)]\<rparr>"
  from find_tag_Some [OF Some] o(2) have i: "i < n" "m_tag (cs_blocks s ! i) = tag" by auto
  then have v: "isValid (cs_blocks s ! i)" using t by (simp add: isValid_def)
  have d: "distinct (map ?g ?v)" using distinct_lru_order [OF ok l] l by (simp add: lru_order_def)
  have "i \<in> set ?v" using o(3) i(1) v by simp
  then have rm: "remove1 tag (map ?g ?v) = map ?g (remove1 i ?v)"
    using d i(2) map_remove1_inj [of ?g ?v i] by (simp add: distinct_map)
  have "filter (\<lambda>j. isValid (cs_blocks ?s ! j)) (recency bits) = filter (\<lambda>j. isValid (cs_blocks s ! j) \<and> i \<noteq> j) (recency bits)"
    using o(2) i(1) by (intro filter_cong) (auto simp: nth_list_update)
  also have "\<dots> = remove1 i ?v"
    using o(4) by (simp add: distinct_remove1_removeAll removeAll_filter_not_eq)
  finally have "lru_order ?s = map (\<lambda>j. m_tag (cs_blocks ?s ! j)) (remove1 i ?v)"
    using l by (simp add: lru_order_def)
  also have "\<dots> = map ?g (remove1 i ?v)" using o(4) by (auto simp: nth_list_update)
  finally show ?thesis using rm l Some by (simp add: set_invalidate_def lru_order_def)
qed

end
