(* ===== verification/Cache_Base.thy ===== *)
theory Cache_Base
  imports Sim_Utils
begin

text \<open>
  common/core/memory_subsystem/address_home_lookup.cc (which module is the home of an address) and
  common/core/memory_subsystem/cache/cache_base.cc (how a cache splits an address into tag, set
  index and block offset, with the four hash functions).

  A \<open>UInt32\<close> that is a shift amount (\<open>m_ahl_param\<close>, \<open>m_log_blocksize\<close>) is a \<open>nat\<close>.
  Division by zero, which traps, is an \<open>Out_Of_Range\<close> error.
\<close>

subsection \<open>AddressHomeLookup\<close>

record address_home_lookup =
  m_ahl_param :: nat
  m_core_list :: "core_id list"
  m_cache_block_size :: u32

definition AddressHomeLookup :: "nat \<Rightarrow> core_id list \<Rightarrow> u32 \<Rightarrow> address_home_lookup res" where
  "AddressHomeLookup ahl_param core_list cache_block_size =
     assertE (sint (push_bit ahl_param 1 :: u32) \<ge> sint cache_block_size) ''2^AHL param < Cache Block Size''
       (Inr \<lparr>m_ahl_param = ahl_param, m_core_list = core_list, m_cache_block_size = cache_block_size\<rparr>)"

definition m_total_modules :: "address_home_lookup \<Rightarrow> u32" where
  "m_total_modules ahl = of_nat (length (m_core_list ahl))"

definition getHome :: "address_home_lookup \<Rightarrow> addr \<Rightarrow> core_id res" where
  "getHome ahl address =
     (if m_total_modules ahl = 0 then Inl (Out_Of_Range ''division by zero'') else
      let module_num = sint (ucast (drop_bit (m_ahl_param ahl) address mod ucast (m_total_modules ahl)) :: u32)
      in assertE (0 \<le> module_num \<and> module_num < sint (m_total_modules ahl)) ''module_num out of range''
           (Inr (m_core_list ahl ! nat module_num)))"

definition ahl_getTag :: "address_home_lookup \<Rightarrow> addr \<Rightarrow> addr res" where
  "ahl_getTag ahl address =
     (if m_total_modules ahl = 0 then Inl (Out_Of_Range ''division by zero'')
      else Inr (drop_bit (m_ahl_param ahl) address div ucast (m_total_modules ahl)))"

subsection \<open>CacheBase\<close>

datatype hash_t = INVALID_HASH_TYPE | HASH_MASK | HASH_MOD | HASH_RNG1_MOD | HASH_RNG2_MOD

record cache_base =
  cb_name :: string
  m_cache_size :: u64
  m_associativity :: u32
  m_blocksize :: u32
  m_hash :: hash_t
  m_num_sets :: u32
  m_ahl :: "address_home_lookup option"
  m_log_blocksize :: nat

definition k_KILO :: u64 where "k_KILO = 1024"

definition CacheBase ::
  "string \<Rightarrow> u32 \<Rightarrow> u32 \<Rightarrow> u32 \<Rightarrow> hash_t \<Rightarrow> address_home_lookup option \<Rightarrow> cache_base res" where
  "CacheBase name cache_size associativity cache_block_size hash ahl =
     (let size = k_KILO * ucast cache_size; way = associativity * cache_block_size in
      if way = 0 then Inl (Out_Of_Range ''division by zero'') else
      let num_sets = ucast (size div ucast way) :: u32; lg = floorLog2 num_sets in
      assertE ((0 \<le> lg \<and> ucast num_sets = (push_bit (nat lg) 1 :: u64)) \<or> hash \<noteq> HASH_MASK)
        ''Caches of non-power of 2 size need funky hash function''
        (Inr \<lparr>cb_name = name, m_cache_size = size, m_associativity = associativity,
              m_blocksize = cache_block_size, m_hash = hash, m_num_sets = num_sets, m_ahl = ahl,
              m_log_blocksize = nat (floorLog2 cache_block_size)\<rparr>))"

definition parseAddressHash :: "string \<Rightarrow> hash_t res" where
  "parseAddressHash hash_name =
     (if hash_name = ''mask'' then Inr HASH_MASK
      else if hash_name = ''mod'' then Inr HASH_MOD
      else if hash_name = ''rng1_mod'' then Inr HASH_RNG1_MOD
      else if hash_name = ''rng2_mod'' then Inr HASH_RNG2_MOD
      else Inl (Log_Error ''Invalid address hash function''))"

text \<open>The \<open>switch\<close> on the hash function.\<close>

definition hash_set_index :: "hash_t \<Rightarrow> u32 \<Rightarrow> u64 \<Rightarrow> u32 res" where
  "hash_set_index h num_sets block_num =
     (if h = INVALID_HASH_TYPE then Inl (Log_Error ''Invalid hash function'')
      else if h = HASH_MASK then Inr (ucast (block_num AND ucast (num_sets - 1)))
      else if num_sets = 0 then Inl (Out_Of_Range ''division by zero'')
      else if h = HASH_MOD then Inr (ucast (block_num mod ucast num_sets))
      else if h = HASH_RNG1_MOD then
        (let (r, state) = rng_next (rng_seed block_num) in Inr (ucast (r mod ucast num_sets)))
      else
        (let (r, state) = rng_next (rng_seed block_num); (r, state) = rng_next state
         in Inr (ucast (r mod ucast num_sets))))"

definition splitAddress :: "cache_base \<Rightarrow> addr \<Rightarrow> (addr \<times> u32) res" where
  "splitAddress cb address =
     (let tag = drop_bit (m_log_blocksize cb) address in
      bindE (case m_ahl cb of Some ahl \<Rightarrow> ahl_getTag ahl address | None \<Rightarrow> Inr tag) (\<lambda>block_num.
      bindE (hash_set_index (m_hash cb) (m_num_sets cb) block_num) (\<lambda>set_index.
      Inr (tag, set_index))))"

definition splitAddress_offset :: "cache_base \<Rightarrow> addr \<Rightarrow> (addr \<times> u32 \<times> u32) res" where
  "splitAddress_offset cb address =
     (let block_offset = ucast (address AND ucast (m_blocksize cb - 1)) in
      bindE (splitAddress cb address) (\<lambda>(tag, set_index). Inr (tag, set_index, block_offset)))"

definition tagToAddress :: "cache_base \<Rightarrow> addr \<Rightarrow> addr" where
  "tagToAddress cb tag = push_bit (m_log_blocksize cb) tag"

subsection \<open>Lemmas\<close>

text \<open>Below, a well-formed cache base: what the constructor establishes for a non-empty cache.\<close>

definition cache_base_ok :: "cache_base \<Rightarrow> bool" where
  "cache_base_ok cb \<longleftrightarrow> m_num_sets cb \<noteq> 0 \<and> m_hash cb \<noteq> INVALID_HASH_TYPE \<and>
     (m_hash cb = HASH_MASK \<longrightarrow> (\<exists>p<32. m_num_sets cb = push_bit p 1)) \<and>
     (\<forall>ahl. m_ahl cb = Some ahl \<longrightarrow> m_total_modules ahl \<noteq> 0 \<and> m_log_blocksize cb \<le> m_ahl_param ahl)"

lemma unat_ucast_u32_u64 [simp]: "unat (ucast (x :: u32) :: u64) = unat x"
  by (simp add: unsigned_ucast_eq unsigned_take_bit_eq take_bit_nat_eq_self order_less_le_trans [OF unsigned_less])

lemma ucast_u32_eq_0 [simp]: "(ucast (x :: u32) :: u64) = 0 \<longleftrightarrow> x = 0"
  by (metis unat_eq_zero unat_ucast_u32_u64)

lemma unat_ucast_u64_u32: "unat (y :: u64) < 2 ^ 32 \<Longrightarrow> unat (ucast y :: u32) = unat y"
  by (simp add: unsigned_ucast_eq take_bit_nat_eq_self)

lemma ucast_push_bit_1: "p < 32 \<Longrightarrow> (ucast (push_bit p (1 :: u32)) :: u64) = push_bit p 1"
  by (rule bit_word_eqI) (auto simp: bit_ucast_iff bit_exp_iff)

lemma unat_mod_ucast: "(n :: u32) \<noteq> 0 \<Longrightarrow> unat (ucast (y mod ucast n :: u64) :: u32) = unat y mod unat n"
proof -
  assume "n \<noteq> 0"
  then have "unat y mod unat n < unat n" by (simp add: unat_gt_0)
  also have "\<dots> < 2 ^ 32" using unat_u32_less [of n] by simp
  finally have "unat (y mod ucast n) < 2 ^ 32" by (simp add: unat_mod)
  then show ?thesis by (simp add: unat_ucast_u64_u32 unat_mod)
qed

lemma unat_and_pow2:
  assumes "p < 32"
  shows "unat (ucast (y AND ucast (push_bit p 1 - 1 :: u32) :: u64) :: u32) = unat y mod 2 ^ p"
proof -
  have "push_bit p 1 - 1 = (mask p :: u32)" by (simp add: mask_eq_exp_minus_1 push_bit_eq_mult)
  moreover have "ucast (mask p :: u32) = (mask p :: u64)"
    using assms by (auto simp: bit_eq_iff bit_ucast_iff bit_mask_iff)
  ultimately have e: "y AND ucast (push_bit p 1 - 1 :: u32) = y AND mask p" by simp
  have "unat y mod 2 ^ p < 2 ^ 32"
    by (rule less_le_trans [of _ "2 ^ p"]) (use assms power_increasing [of p 32 "2::nat"] in simp_all)
  then show ?thesis
    unfolding e by (subst unat_ucast_u64_u32) (simp_all only: unat_and_mask)
qed

lemma hash_set_index_less:
  assumes "cache_base_ok cb"
  shows "\<exists>i. hash_set_index (m_hash cb) (m_num_sets cb) b = Inr i \<and> i < m_num_sets cb"
proof -
  have nz: "m_num_sets cb \<noteq> 0" using assms by (simp add: cache_base_ok_def)
  then have m: "ucast (y mod ucast (m_num_sets cb) :: u64) < m_num_sets cb" for y
    by (simp add: word_less_nat_alt unat_mod_ucast unat_gt_0)
  show ?thesis
  proof (cases "m_hash cb = HASH_MASK")
    case True
    then obtain p where p: "p < 32" "m_num_sets cb = push_bit p 1"
      using assms by (auto simp: cache_base_ok_def)
    have "ucast (b AND ucast (m_num_sets cb - 1)) < m_num_sets cb"
      by (simp only: word_less_nat_alt p unat_and_pow2 unat_push_bit_1) simp
    with True show ?thesis by (simp add: hash_set_index_def)
  next
    case False
    with assms m nz show ?thesis
      by (cases "m_hash cb") (auto simp: hash_set_index_def cache_base_ok_def split_beta Let_def)
  qed
qed

lemma splitAddress_Inr:
  assumes "cache_base_ok cb"
  shows "\<exists>i. splitAddress cb a = Inr (drop_bit (m_log_blocksize cb) a, i) \<and> i < m_num_sets cb"
proof (cases "m_ahl cb")
  case None
  then show ?thesis
    using hash_set_index_less [OF assms, of "drop_bit (m_log_blocksize cb) a"]
    by (auto simp: splitAddress_def Let_def)
next
  case (Some ahl)
  then obtain t where "ahl_getTag ahl a = Inr t"
    using assms by (auto simp: cache_base_ok_def ahl_getTag_def)
  with Some show ?thesis
    using hash_set_index_less [OF assms, of t] by (auto simp: splitAddress_def Let_def)
qed

lemma drop_push_drop:
  "k \<le> j \<Longrightarrow> drop_bit j (push_bit k (drop_bit k (a :: 'a::len word))) = drop_bit j a"
  by (auto simp: bit_eq_iff bit_drop_bit_eq bit_push_bit_iff dest: bit_imp_le_length)

text \<open>The address rebuilt from a tag falls into the same block and the same set.\<close>

lemma splitAddress_tagToAddress:
  assumes "cache_base_ok cb" and "splitAddress cb a = Inr (tag, i)"
  shows "splitAddress cb (tagToAddress cb tag) = Inr (tag, i)"
proof -
  let ?b = "m_log_blocksize cb"
  have tag: "tag = drop_bit ?b a"
    using splitAddress_Inr [OF assms(1), of a] assms(2) by auto
  have "ahl_getTag ahl (push_bit ?b (drop_bit ?b a)) = ahl_getTag ahl a" if "m_ahl cb = Some ahl" for ahl
    using assms(1) that by (simp add: cache_base_ok_def ahl_getTag_def drop_push_drop)
  then have "splitAddress cb (push_bit ?b (drop_bit ?b a)) = splitAddress cb a"
    by (auto simp: splitAddress_def Let_def drop_push_drop split: option.splits)
  with assms(2) tag show ?thesis by (simp add: tagToAddress_def)
qed

lemma tagToAddress_aligned:
  "tagToAddress cb (drop_bit (m_log_blocksize cb) a) = a AND NOT (mask (m_log_blocksize cb))"
  by (auto simp: tagToAddress_def bit_eq_iff bit_drop_bit_eq bit_push_bit_iff bit_and_iff bit_not_iff
      bit_mask_iff not_less)

lemma CacheBase_ok:
  assumes "CacheBase name cs assoc bs h None = Inr cb" and "m_num_sets cb \<noteq> 0" and "h \<noteq> INVALID_HASH_TYPE"
  shows "cache_base_ok cb"
proof -
  let ?n = "m_num_sets cb"
  have h: "m_hash cb = h" and ahl: "m_ahl cb = None"
    and pow: "h = HASH_MASK \<Longrightarrow> 0 \<le> floorLog2 ?n \<and> ucast ?n = (push_bit (nat (floorLog2 ?n)) 1 :: u64)"
    using assms(1) by (auto simp: CacheBase_def Let_def split: if_splits)
  obtain p where p: "floorLog2 ?n = int p" "2 ^ p \<le> unat ?n"
    using floorLog2_brackets [OF assms(2)] by blast
  have "(2::nat) ^ p < 2 ^ 32"
    using p(2) unat_u32_less [of ?n] by simp
  then have p32: "p < 32" by (metis one_less_numeral_iff power_less_imp_less_exp semiring_norm(76))
  have "?n = push_bit p 1" if "h = HASH_MASK"
  proof -
    have "ucast ?n = (ucast (push_bit p 1 :: u32) :: u64)"
      using pow [OF that] p(1) by (simp only: ucast_push_bit_1 [OF p32] nat_int)
    then have "unat ?n = unat (push_bit p 1 :: u32)" by (metis unat_ucast_u32_u64)
    then show ?thesis by (simp only: word_unat_eq_iff)
  qed
  with p32 assms(2,3) h ahl show ?thesis
    by (auto simp: cache_base_ok_def)
qed

text \<open>Home and per-home tag together determine the block: the interleaving loses nothing.\<close>

lemma getHome_Inr:
  assumes "m_core_list ahl \<noteq> []" and "length (m_core_list ahl) < 2 ^ 31"
  shows "getHome ahl a =
    Inr (m_core_list ahl ! (unat (drop_bit (m_ahl_param ahl) a) mod length (m_core_list ahl)))"
proof -
  let ?n = "m_total_modules ahl"
  let ?m = "ucast (drop_bit (m_ahl_param ahl) a mod ucast ?n) :: u32"
  have len: "unat ?n = length (m_core_list ahl)"
    using assms(2) by (simp add: m_total_modules_def unat_of_nat)
  with assms(1) have nz: "?n \<noteq> 0" by auto
  have um: "unat ?m = unat (drop_bit (m_ahl_param ahl) a) mod length (m_core_list ahl)"
    by (simp only: unat_mod_ucast [OF nz] len)
  also have "\<dots> < length (m_core_list ahl)" using assms(1) by simp
  finally have lt: "unat ?m < length (m_core_list ahl)" .
  have "sint ?m = int (unat ?m)" "sint ?n = int (length (m_core_list ahl))"
    using sint_u32_small [of ?m] sint_u32_small [of ?n] lt assms(2) len by simp_all
  with nz lt um show ?thesis
    by (simp add: getHome_def Let_def)
qed

end
