(* ===== verification/Fault_Injection.thy ===== *)
theory Fault_Injection
  imports Cache_Base Cache_Block
begin

text \<open>
  common/fault_injection: the manager's configuration, the application of a fault mask to data, and
  the two injectors. A fault mask is the data array of a cache set, addressed by an offset; without
  one (\<open>None\<close>) a write to it goes through a null pointer.
\<close>

datatype fault_type_t = FAULT_TYPE_TOGGLE | FAULT_TYPE_SET0 | FAULT_TYPE_SET1

datatype fault_injector_t = FAULT_INJECTOR_NONE | FAULT_INJECTOR_RANDOM

record fault_manager =
  fm_type :: fault_type_t
  fm_injector :: fault_injector_t

definition fault_create :: "string \<Rightarrow> string \<Rightarrow> fault_manager option res" where
  "fault_create s_type s_injector =
     (if s_type = ''none'' then Inr None else
      bindE (if s_type = ''toggle'' then Inr FAULT_TYPE_TOGGLE
             else if s_type = ''set0'' then Inr FAULT_TYPE_SET0
             else if s_type = ''set1'' then Inr FAULT_TYPE_SET1
             else Inl (Log_Error ''Unknown fault-injection scheme'')) (\<lambda>type.
      bindE (if s_injector = ''none'' then Inr FAULT_INJECTOR_NONE
             else if s_injector = ''random'' then Inr FAULT_INJECTOR_RANDOM
             else Inl (Log_Error ''Unknown fault injector'')) (\<lambda>injector.
      Inr (Some \<lparr>fm_type = type, fm_injector = injector\<rparr>))))"

fun fault_byte :: "fault_type_t \<Rightarrow> u8 \<Rightarrow> u8 \<Rightarrow> u8" where
  "fault_byte FAULT_TYPE_TOGGLE d f = d XOR f"
| "fault_byte FAULT_TYPE_SET0 d f = d AND NOT f"
| "fault_byte FAULT_TYPE_SET1 d f = d OR f"

text \<open>\<open>data\<close> and \<open>fault\<close> both have \<open>data_size\<close> bytes.\<close>

definition applyFault :: "fault_manager \<Rightarrow> u8 list \<Rightarrow> u8 list \<Rightarrow> u8 list" where
  "applyFault fm data fault = map2 (fault_byte (fm_type fm)) data fault"

record fault_injector =
  fi_kind :: fault_injector_t
  fi_component :: component_t
  fi_active :: bool
  fi_rng :: u64

definition getFaultInjector :: "fault_manager \<Rightarrow> component_t \<Rightarrow> fault_injector" where
  "getFaultInjector fm mem_component = (case fm_injector fm of
       FAULT_INJECTOR_NONE \<Rightarrow>
         \<lparr>fi_kind = FAULT_INJECTOR_NONE, fi_component = mem_component, fi_active = False, fi_rng = 0\<rparr>
     | FAULT_INJECTOR_RANDOM \<Rightarrow>
         \<lparr>fi_kind = FAULT_INJECTOR_RANDOM, fi_component = mem_component,
          fi_active = (mem_component = L1_DCACHE), fi_rng = rng_seed 0\<rparr>)"

definition preRead ::
  "fault_injector \<Rightarrow> u32 \<Rightarrow> u8 list option \<Rightarrow> nat \<Rightarrow> (fault_injector \<times> u8 list option) res" where
  "preRead fi data_size fault off = (case fi_kind fi of
       FAULT_INJECTOR_NONE \<Rightarrow> Inr (fi, fault)
     | FAULT_INJECTOR_RANDOM \<Rightarrow>
        (if \<not> fi_active fi then Inr (fi, fault) else
         let (r, state) = rng_next (fi_rng fi) in
         if r mod 0xffff \<noteq> 0 then Inr (fi\<lparr>fi_rng := state\<rparr>, fault)
         else if data_size = 0 then Inl (Out_Of_Range ''division by zero'')
         else let (r', state') = rng_next state;
                  bit_location = ucast (r' mod ucast data_size) :: u32;
                  k = off + unat (bit_location div 8)
              in (case fault of
                   None \<Rightarrow> Inl (Null_Pointer ''fault'')
                 | Some m \<Rightarrow> if k < length m
                     then Inr (fi\<lparr>fi_rng := state'\<rparr>,
                               Some (m[k := m ! k OR push_bit (unat (bit_location mod 8)) 1]))
                     else Inl (Out_Of_Range ''fault''))))"

definition postWrite ::
  "fault_injector \<Rightarrow> u32 \<Rightarrow> u8 list option \<Rightarrow> nat \<Rightarrow> (fault_injector \<times> u8 list option) res" where
  "postWrite fi data_size fault off = Inr (fi, fault)"

subsection \<open>Lemmas\<close>

lemma unat_ucast_mod_u32:
  "(n :: u32) \<noteq> 0 \<Longrightarrow> unat (ucast (r mod ucast n :: u64) :: u32) < unat n"
  by (simp add: unat_mod_ucast unat_gt_0)

text \<open>An injected fault lies in the first eighth of the bytes read, and sets one bit.\<close>

lemma preRead_range:
  assumes "preRead fi data_size (Some m) off = Inr (fi', fault')" and "0 < unat data_size"
  shows "\<exists>m'. fault' = Some m' \<and> length m' = length m \<and>
    (\<forall>k<length m. m' ! k = m ! k \<or>
       (off \<le> k \<and> 8 * (k - off) < unat data_size \<and> (\<exists>b<8. m' ! k = m ! k OR push_bit b 1)))"
proof -
  have bit: "unat (x mod 8) < 8" for x :: u32 using unat_mod_less [of 8 x] by simp
  have sz: "data_size \<noteq> 0" using assms(2) by auto
  have loc: "8 * unat (ucast (r mod ucast data_size :: u64) div 8 :: u32) < unat data_size" for r
    using unat_ucast_mod_u32 [OF sz, of r] by (simp add: unat_div)
  have ex: "\<exists>b<8. d OR 2 ^ unat (x mod 8) = d OR (2 :: u8) ^ b" for d and x :: u32 using bit by blast
  show ?thesis
    using assms(1) sz loc ex
    by (auto simp: preRead_def Let_def nth_list_update split: fault_injector_t.splits prod.splits if_splits)
qed

lemma preRead_length:
  assumes "preRead fi data_size fault off = Inr (fi', fault')"
  shows "map_option length fault' = map_option length fault"
  using assms
  by (auto simp: preRead_def Let_def split: fault_injector_t.splits prod.splits if_splits option.splits)

lemma fault_toggle_twice: "fault_byte FAULT_TYPE_TOGGLE (fault_byte FAULT_TYPE_TOGGLE d f) f = d"
  by (simp add: xor.assoc)

lemma fault_set_twice: "t \<noteq> FAULT_TYPE_TOGGLE \<Longrightarrow> fault_byte t (fault_byte t d f) f = fault_byte t d f"
  by (cases t) (simp_all add: and.assoc or.assoc)

lemma applyFault_twice:
  assumes "length data = length fault"
  shows "applyFault fm (applyFault fm data fault) fault =
    (if fm_type fm = FAULT_TYPE_TOGGLE then data else applyFault fm data fault)"
  using assms
  by (auto intro!: nth_equalityI simp: applyFault_def fault_set_twice xor.assoc)

end
