(* ===== verification/Cache_Model.thy ===== *)
theory Cache_Model
  imports Cache_Set_LRU Fault_Injection
begin

text \<open>
  common/core/memory_subsystem/cache/cache.cc: a cache is its address split, its sets, the shared
  hit statistics and an optional fault injector. A \<open>CacheBlockInfo*\<close> into the cache is a pair of
  a set index and a way; \<open>deref\<close> reads through it and \<open>store_block\<close> writes through it.
  The argument \<open>now\<close> only reaches the fault injectors, which do not use it; it is left out.
\<close>

datatype access_t = INVALID_ACCESS_TYPE | LOAD | STORE

record cache =
  c_base :: cache_base
  c_enabled :: bool
  c_num_accesses :: u64
  c_num_hits :: u64
  c_cache_type :: cache_t
  c_sets :: "cache_set list"
  c_set_info :: set_info
  c_fault :: "fault_injector option"

type_synonym block_ptr = "nat \<times> nat"

definition Cache ::
  "cache_env \<Rightarrow> string \<Rightarrow> u32 \<Rightarrow> u32 \<Rightarrow> u32 \<Rightarrow> string \<Rightarrow> cache_t \<Rightarrow> hash_t \<Rightarrow> fault_injector option \<Rightarrow>
     address_home_lookup option \<Rightarrow> cache res" where
  "Cache env name cache_size associativity cache_block_size replacement_policy cache_type hash fi ahl =
     bindE (CacheBase name cache_size associativity cache_block_size hash ahl) (\<lambda>cb.
     bindE (mapE (createCacheSet env replacement_policy cache_type (unat (m_associativity cb)) (unat (m_blocksize cb)))
              [0..<unat (m_num_sets cb)]) (\<lambda>sets.
     Inr \<lparr>c_base = cb, c_enabled = False, c_num_accesses = 0, c_num_hits = 0, c_cache_type = cache_type,
          c_sets = sets, c_set_info = createCacheSetInfo replacement_policy (unat (m_associativity cb)),
          c_fault = fi\<rparr>))"

definition get_set :: "cache \<Rightarrow> u32 \<Rightarrow> cache_set res" where
  "get_set c set_index = (if unat set_index < length (c_sets c) then Inr (c_sets c ! unat set_index)
     else Inl (Out_Of_Range ''m_sets''))"

definition put_set :: "cache \<Rightarrow> u32 \<Rightarrow> cache_set \<Rightarrow> cache" where
  "put_set c set_index s = c\<lparr>c_sets := (c_sets c)[unat set_index := s]\<rparr>"

definition deref :: "cache \<Rightarrow> block_ptr \<Rightarrow> cache_block" where
  "deref c p = cs_blocks (c_sets c ! fst p) ! snd p"

definition store_block :: "block_ptr \<Rightarrow> cache_block \<Rightarrow> cache \<Rightarrow> cache" where
  "store_block p b c = (let s = c_sets c ! fst p in
     c\<lparr>c_sets := (c_sets c)[fst p := s\<lparr>cs_blocks := (cs_blocks s)[snd p := b]\<rparr>]\<rparr>)"

definition invalidateSingleLine :: "addr \<Rightarrow> cache \<Rightarrow> (bool \<times> cache) res" where
  "invalidateSingleLine a c =
     bindE (splitAddress (c_base c) a) (\<lambda>(tag, set_index).
     assertE (set_index < m_num_sets (c_base c)) ''set_index < m_num_sets''
     (bindE (get_set c set_index) (\<lambda>s.
       let (found, s') = set_invalidate tag s in Inr (found, put_set c set_index s'))))"

definition fault_preRead :: "u32 \<Rightarrow> nat \<Rightarrow> cache_set \<Rightarrow> cache \<Rightarrow> (cache_set \<times> cache) res" where
  "fault_preRead bytes off s c = (case c_fault c of
       None \<Rightarrow> Inr (s, c)
     | Some fi \<Rightarrow> bindE (preRead fi bytes (cs_data s) off) (\<lambda>(fi', data').
         Inr (s\<lparr>cs_data := data'\<rparr>, c\<lparr>c_fault := Some fi'\<rparr>)))"

definition fault_postWrite :: "u32 \<Rightarrow> nat \<Rightarrow> cache_set \<Rightarrow> cache \<Rightarrow> (cache_set \<times> cache) res" where
  "fault_postWrite bytes off s c = (case c_fault c of
       None \<Rightarrow> Inr (s, c)
     | Some fi \<Rightarrow> bindE (postWrite fi bytes (cs_data s) off) (\<lambda>(fi', data').
         Inr (s\<lparr>cs_data := data'\<rparr>, c\<lparr>c_fault := Some fi'\<rparr>)))"

text \<open>\<open>buff\<close> is the buffer to store from, or for a load whether there is one to load into.\<close>

definition accessSingleLine ::
  "addr \<Rightarrow> access_t \<Rightarrow> u8 list option \<Rightarrow> u32 \<Rightarrow> bool \<Rightarrow> cache \<Rightarrow> (block_ptr option \<times> u8 list option \<times> cache) res" where
  "accessSingleLine a access_type buff bytes update_replacement c =
     bindE (splitAddress_offset (c_base c) a) (\<lambda>(tag, set_index, block_offset).
     bindE (get_set c set_index) (\<lambda>s.
     case find_tag tag s of
       None \<Rightarrow> Inr (None, None, c)
     | Some line_index \<Rightarrow>
        (let off = line_index * cs_blocksize s + unat block_offset in
         if access_type = LOAD then
           bindE (fault_preRead bytes off s c) (\<lambda>(s, c).
           bindE (read_line line_index (unat block_offset) (buff \<noteq> None) (unat bytes) update_replacement
                    (c_set_info c, s)) (\<lambda>(out, info, s).
           Inr (Some (unat set_index, line_index), out, put_set (c\<lparr>c_set_info := info\<rparr>) set_index s)))
         else
           bindE (write_line line_index (unat block_offset) buff (unat bytes) update_replacement
                    (c_set_info c, s)) (\<lambda>(info, s).
           bindE (fault_postWrite bytes off s c) (\<lambda>(s, c).
           Inr (Some (unat set_index, line_index), None, put_set (c\<lparr>c_set_info := info\<rparr>) set_index s))))))"

text \<open>The result: \<open>eviction\<close>, \<open>evict_addr\<close>, \<open>evict_block_info\<close>, \<open>evict_buff\<close>.\<close>

definition insertSingleLine ::
  "addr \<Rightarrow> u8 list option \<Rightarrow> cache_block \<Rightarrow> bool \<Rightarrow> cache \<Rightarrow>
     (bool \<times> addr \<times> cache_block \<times> u8 list option \<times> cache) res" where
  "insertSingleLine a fill_buff evict_block_info want_buff c =
     bindE (splitAddress (c_base c) a) (\<lambda>(tag, set_index).
     bindE (create_block (c_cache_type c)) (\<lambda>b.
     bindE (get_set c set_index) (\<lambda>s.
     bindE (set_insert (b\<lparr>m_tag := tag\<rparr>) fill_buff evict_block_info want_buff s) (\<lambda>(ev, evb, evbuff, s).
     bindE (case c_fault c of
         None \<Rightarrow> Inr (s, c)
       | Some fi \<Rightarrow> (case find_tag tag s of
           None \<Rightarrow> Inl (Assert_Failed ''Inserted line no longer there?'')
         | Some line_index \<Rightarrow>
             fault_postWrite (of_nat (cs_blocksize s)) (line_index * cs_blocksize s) s c)) (\<lambda>(s, c).
     Inr (ev, tagToAddress (c_base c) (m_tag evb), evb, evbuff, put_set c set_index s))))))"

definition peekSingleLine :: "addr \<Rightarrow> cache \<Rightarrow> block_ptr option res" where
  "peekSingleLine a c =
     bindE (splitAddress (c_base c) a) (\<lambda>(tag, set_index).
     bindE (get_set c set_index) (\<lambda>s. Inr (map_option (\<lambda>w. (unat set_index, w)) (find_tag tag s))))"

definition updateCounters :: "bool \<Rightarrow> cache \<Rightarrow> cache" where
  "updateCounters cache_hit c = (if c_enabled c
     then c\<lparr>c_num_accesses := c_num_accesses c + 1,
            c_num_hits := (if cache_hit then c_num_hits c + 1 else c_num_hits c)\<rparr> else c)"

definition updateHits :: "u64 \<Rightarrow> cache \<Rightarrow> cache" where
  "updateHits hits c = (if c_enabled c
     then c\<lparr>c_num_accesses := c_num_accesses c + hits, c_num_hits := c_num_hits c + hits\<rparr> else c)"

definition cache_enable :: "cache \<Rightarrow> cache" where
  "cache_enable c = c\<lparr>c_enabled := True\<rparr>"

definition cache_disable :: "cache \<Rightarrow> cache" where
  "cache_disable c = c\<lparr>c_enabled := False\<rparr>"

end
