(* ===== verification/Cache_Props.thy ===== *)
theory Cache_Props
  imports Cache_Model
begin

text \<open>
  The invariant of a cache: every set is well formed and a valid tag lies in the set its address
  maps to. Under it a cache is a set of lines: a lookup hits exactly the lines it holds,
  an insertion adds one and loses at most the evicted one, an invalidation removes one.
\<close>

definition blk_tag :: "cache \<Rightarrow> addr \<Rightarrow> addr" where
  "blk_tag c a = drop_bit (m_log_blocksize (c_base c)) a"

definition placed :: "cache_base \<Rightarrow> nat \<Rightarrow> addr \<Rightarrow> bool" where
  "placed cb i t \<longleftrightarrow> (\<exists>k. unat k = i \<and> splitAddress cb (tagToAddress cb t) = Inr (t, k))"

definition cache_wf :: "cache \<Rightarrow> bool" where
  "cache_wf c \<longleftrightarrow> cache_base_ok (c_base c) \<and> 0 < m_log_blocksize (c_base c) \<and>
     c_cache_type c \<noteq> INVALID_CACHE_TYPE \<and> length (c_sets c) = unat (m_num_sets (c_base c)) \<and>
     (\<forall>i<length (c_sets c). set_wf (unat (m_associativity (c_base c))) (c_sets c ! i) \<and>
        (\<forall>t \<in> set_tags (c_sets c ! i). placed (c_base c) i t))"

definition cache_unique :: "cache \<Rightarrow> bool" where
  "cache_unique c \<longleftrightarrow> (\<forall>s \<in> set (c_sets c). tags_unique (cs_blocks s))"

definition cache_lines :: "cache \<Rightarrow> addr set" where
  "cache_lines c = (\<Union>s \<in> set (c_sets c). set_tags s)"

lemma drop_bit_not_minus_1: "0 < k \<Longrightarrow> drop_bit k (a :: addr) \<noteq> -1"
proof
  assume k: "0 < k" and "drop_bit k a = -1"
  then have "bit (drop_bit k a) 63" by simp
  with k show False by (auto simp: bit_drop_bit_eq dest: bit_imp_le_length)
qed

lemma cache_split:
  assumes "cache_wf c"
  obtains k where "splitAddress (c_base c) a = Inr (blk_tag c a, k)" and "unat k < length (c_sets c)"
    and "blk_tag c a \<noteq> -1" and "placed (c_base c) (unat k) (blk_tag c a)"
    and "get_set c k = Inr (c_sets c ! unat k)" and "k < m_num_sets (c_base c)"
proof -
  have cb: "cache_base_ok (c_base c)" using assms by (simp add: cache_wf_def)
  from splitAddress_Inr [OF cb, of a] obtain k where
    k: "splitAddress (c_base c) a = Inr (blk_tag c a, k)" "k < m_num_sets (c_base c)"
    by (auto simp: blk_tag_def)
  then have "unat k < length (c_sets c)" using assms by (simp add: cache_wf_def word_less_nat_alt)
  with k splitAddress_tagToAddress [OF cb k(1)] assms show ?thesis
    by (intro that [of k]) (auto simp: blk_tag_def placed_def get_set_def cache_wf_def drop_bit_not_minus_1)
qed

lemma placed_unique: "placed cb i t \<Longrightarrow> placed cb j t \<Longrightarrow> i = j"
  by (auto simp: placed_def)

lemma cache_wf_tags:
  "cache_wf c \<Longrightarrow> j < length (c_sets c) \<Longrightarrow> t \<in> set_tags (c_sets c ! j) \<Longrightarrow> placed (c_base c) j t"
  by (simp add: cache_wf_def)

lemma cache_wf_set: "cache_wf c \<Longrightarrow> j < length (c_sets c) \<Longrightarrow> set_wf (unat (m_associativity (c_base c))) (c_sets c ! j)"
  by (simp add: cache_wf_def)

lemma in_cache_lines:
  assumes "cache_wf c" and "i < length (c_sets c)" and "placed (c_base c) i t"
  shows "t \<in> cache_lines c \<longleftrightarrow> t \<in> set_tags (c_sets c ! i)"
proof
  assume "t \<in> cache_lines c"
  then obtain j where j: "j < length (c_sets c)" "t \<in> set_tags (c_sets c ! j)"
    by (auto simp: cache_lines_def in_set_conv_nth)
  with placed_unique [OF cache_wf_tags [OF assms(1) j] assms(3)] show "t \<in> set_tags (c_sets c ! i)" by simp
qed (use assms(2) in \<open>auto simp: cache_lines_def\<close>)

lemma cache_lines_placed:
  assumes "cache_wf c" and "t \<in> cache_lines c"
  shows "blk_tag c (tagToAddress (c_base c) t) = t" and "t \<noteq> -1"
proof -
  from assms(2) obtain j where "j < length (c_sets c)" "t \<in> set_tags (c_sets c ! j)"
    by (auto simp: cache_lines_def in_set_conv_nth)
  from cache_wf_tags [OF assms(1) this] obtain k where
    k: "splitAddress (c_base c) (tagToAddress (c_base c) t) = Inr (t, k)" by (auto simp: placed_def)
  obtain k' where "splitAddress (c_base c) (tagToAddress (c_base c) t) = Inr (blk_tag c (tagToAddress (c_base c) t), k')"
    "blk_tag c (tagToAddress (c_base c) t) \<noteq> -1"
    by (rule cache_split [OF assms(1), of "tagToAddress (c_base c) t"])
  with k show "blk_tag c (tagToAddress (c_base c) t) = t" "t \<noteq> -1" by auto
qed

subsection \<open>Replacing one set\<close>

lemma c_sets_put_set [simp]: "c_sets (put_set c k s) = (c_sets c)[unat k := s]"
  and put_set_base [simp]: "c_base (put_set c k s) = c_base c"
  and put_set_type [simp]: "c_cache_type (put_set c k s) = c_cache_type c"
  and put_set_fault [simp]: "c_fault (put_set c k s) = c_fault c"
  and put_set_info [simp]: "c_set_info (put_set c k s) = c_set_info c"
  by (simp_all add: put_set_def)

lemma cache_wf_put:
  assumes "cache_wf c" and "c_base c' = c_base c" and "c_cache_type c' = c_cache_type c"
    and "c_sets c' = (c_sets c)[i := s]" and "set_wf (unat (m_associativity (c_base c))) s"
    and "\<forall>t \<in> set_tags s. placed (c_base c) i t"
  shows "cache_wf c'"
proof -
  have "set_wf (unat (m_associativity (c_base c))) (c_sets c' ! j) \<and> (\<forall>t \<in> set_tags (c_sets c' ! j). placed (c_base c) j t)"
    if "j < length (c_sets c)" for j
    using assms that cache_wf_set [OF assms(1) that] cache_wf_tags [OF assms(1) that]
    by (cases "j = i") auto
  with assms(1-4) show ?thesis by (simp add: cache_wf_def)
qed

lemma cache_lines_put:
  assumes "cache_wf c" and "c_sets c' = (c_sets c)[i := s]" and "i < length (c_sets c)"
    and "\<forall>t \<in> set_tags s. placed (c_base c) i t"
  shows "cache_lines c' = (cache_lines c - set_tags (c_sets c ! i)) \<union> set_tags s"
proof -
  have c': "cache_lines c' = (\<Union>j \<in> {..<length (c_sets c)} - {i}. set_tags (c_sets c ! j)) \<union> set_tags s"
    using assms(2,3) by (auto simp: cache_lines_def set_conv_nth nth_list_update split: if_splits)
  have c: "cache_lines c = (\<Union>j \<in> {..<length (c_sets c)} - {i}. set_tags (c_sets c ! j)) \<union> set_tags (c_sets c ! i)"
    using assms(3) by (auto simp: cache_lines_def set_conv_nth)
  have "set_tags (c_sets c ! j) \<inter> set_tags (c_sets c ! i) = {}" if "j < length (c_sets c)" "j \<noteq> i" for j
    using cache_wf_tags [OF assms(1)] that assms(3) placed_unique by blast
  then show ?thesis unfolding c' c by blast
qed

lemma cache_unique_put:
  "cache_unique c \<Longrightarrow> c_sets c' = (c_sets c)[i := s] \<Longrightarrow> tags_unique (cs_blocks s) \<Longrightarrow> cache_unique c'"
  by (auto simp: cache_unique_def dest!: set_update_subset_insert [THEN subsetD])

subsection \<open>Lookups\<close>

lemma peekSingleLine_iff:
  assumes "cache_wf c"
  shows "\<exists>p. peekSingleLine a c = Inr p \<and> (p \<noteq> None \<longleftrightarrow> blk_tag c a \<in> cache_lines c)"
proof -
  obtain k where k: "splitAddress (c_base c) a = Inr (blk_tag c a, k)" "unat k < length (c_sets c)"
    "blk_tag c a \<noteq> -1" "placed (c_base c) (unat k) (blk_tag c a)" "get_set c k = Inr (c_sets c ! unat k)"
    by (rule cache_split [OF assms])
  have "blk_tag c a \<in> cache_lines c \<longleftrightarrow> find_tag (blk_tag c a) (c_sets c ! unat k) \<noteq> None"
    using in_cache_lines [OF assms k(2,4)] find_tag_None_iff [OF k(3), of "c_sets c ! unat k"] by simp
  with k show ?thesis by (auto simp: peekSingleLine_def)
qed

lemma peek_points_to_tag:
  assumes "cache_wf c" and "peekSingleLine a c = Inr (Some p)"
  shows "m_tag (deref c p) = blk_tag c a"
proof -
  obtain k where k: "splitAddress (c_base c) a = Inr (blk_tag c a, k)" "get_set c k = Inr (c_sets c ! unat k)"
    by (rule cache_split [OF assms(1)])
  with assms(2) find_tag_Some [of "blk_tag c a" "c_sets c ! unat k"] show ?thesis
    by (auto simp: peekSingleLine_def deref_def)
qed

subsection \<open>Invalidation\<close>

lemma set_tags_invalidate_subset: "set_tags (snd (set_invalidate tag s)) \<subseteq> set_tags s"
proof (cases "find_tag tag s")
  case (Some i)
  have "set ((cs_blocks s)[i := invalidate (cs_blocks s ! i)]) \<subseteq> insert (invalidate (cs_blocks s ! i)) (set (cs_blocks s))"
    by (rule set_update_subset_insert)
  with Some show ?thesis by (auto simp: set_tags_def set_invalidate_def)
qed (simp add: set_invalidate_def)

lemma invalidateSingleLine_spec:
  assumes "cache_wf c"
  shows "\<exists>found c'. invalidateSingleLine a c = Inr (found, c') \<and> cache_wf c' \<and> c_base c' = c_base c \<and>
    (cache_unique c \<longrightarrow> cache_unique c' \<and> (found \<longleftrightarrow> blk_tag c a \<in> cache_lines c) \<and>
       cache_lines c' = cache_lines c - {blk_tag c a})"
proof -
  obtain k where k: "splitAddress (c_base c) a = Inr (blk_tag c a, k)" "unat k < length (c_sets c)"
    "blk_tag c a \<noteq> -1" "placed (c_base c) (unat k) (blk_tag c a)" "get_set c k = Inr (c_sets c ! unat k)"
    "k < m_num_sets (c_base c)"
    by (rule cache_split [OF assms])
  let ?s = "c_sets c ! unat k" and ?n = "unat (m_associativity (c_base c))"
  let ?r = "set_invalidate (blk_tag c a) ?s"
  have eq: "invalidateSingleLine a c = Inr (fst ?r, put_set c k (snd ?r))"
    using k by (simp add: invalidateSingleLine_def case_prod_beta)
  have wf: "set_wf ?n ?s" by (rule cache_wf_set [OF assms k(2)])
  have pl: "\<forall>t \<in> set_tags (snd ?r). placed (c_base c) (unat k) t"
    using set_tags_invalidate_subset cache_wf_tags [OF assms k(2)] by blast
  have wf': "cache_wf (put_set c k (snd ?r))"
    by (rule cache_wf_put [OF assms _ _ _ _ pl]) (use set_wf_invalidate [OF wf] in simp_all)
  show ?thesis
  proof (cases "cache_unique c")
    case False
    with eq wf' show ?thesis by simp
  next
    case True
    then have "tags_unique (cs_blocks ?s)" using k(2) by (simp add: cache_unique_def)
    with wf have ok: "set_ok ?n ?s" by (simp add: set_ok_def)
    have "cache_unique (put_set c k (snd ?r))"
      by (rule cache_unique_put [OF True]) (use set_ok_invalidate [OF ok] in \<open>auto simp: set_ok_def\<close>)
    moreover have "cache_lines (put_set c k (snd ?r)) = cache_lines c - {blk_tag c a}"
    proof -
      have "cache_lines (put_set c k (snd ?r)) = (cache_lines c - set_tags ?s) \<union> (set_tags ?s - {blk_tag c a})"
        using cache_lines_put [OF assms _ k(2) pl, of "put_set c k (snd ?r)"]
        unfolding set_tags_invalidate(1) [OF ok k(3)] by simp
      moreover have "set_tags ?s \<subseteq> cache_lines c" using nth_mem [OF k(2)] unfolding cache_lines_def by blast
      moreover have "blk_tag c a \<in> cache_lines c \<longleftrightarrow> blk_tag c a \<in> set_tags ?s"
        by (rule in_cache_lines [OF assms k(2,4)])
      ultimately show ?thesis by blast
    qed
    ultimately show ?thesis
      using eq wf' set_tags_invalidate(2) [OF ok k(3)] in_cache_lines [OF assms k(2,4)] by simp
  qed
qed

subsection \<open>Accesses\<close>

lemma read_line_wf:
  assumes "set_wf n s" and "i < n" and "read_line i off out bytes upd (info, s) = Inr (xs, info', s')"
  shows "set_wf n s' \<and> cs_blocks s' = cs_blocks s \<and> cs_blocksize s' = cs_blocksize s \<and> cs_data s' = cs_data s"
proof -
  have "(s' = s) \<or> set_update_replacement i (info, s) = Inr (info', s')"
    using assms(3) by (auto simp: read_line_def bindE_Inr_iff split: if_splits option.splits)
  with set_wf_update_replacement [OF assms(1,2)] assms(1) show ?thesis by auto
qed

lemma set_wf_data:
  "set_wf n s \<Longrightarrow> map_option length d = map_option length (cs_data s) \<Longrightarrow> set_wf n (s\<lparr>cs_data := d\<rparr>)"
  by (cases "cs_data s") (auto simp: set_wf_def)

lemma write_line_wf:
  assumes "set_wf n s" and "i < n" and "write_line i off buff bytes upd (info, s) = Inr (info', s')"
  shows "set_wf n s' \<and> cs_blocks s' = cs_blocks s \<and> cs_blocksize s' = cs_blocksize s"
proof -
  from assms(3) obtain d where d: "map_option length d = map_option length (cs_data s)"
    "(info' = info \<and> s' = s\<lparr>cs_data := d\<rparr>) \<or> set_update_replacement i (info, s\<lparr>cs_data := d\<rparr>) = Inr (info', s')"
    by (auto simp: write_line_def bindE_Inr_iff split: if_splits option.splits dest!: mem_write_length)
      (metis cache_set.surjective cache_set.update_convs(2) map_option_cong option.map_sel)+
  with set_wf_data [OF assms(1) d(1)] set_wf_update_replacement [OF set_wf_data [OF assms(1) d(1)] assms(2)]
  show ?thesis by auto
qed

text \<open>Replacing a set by one with the same blocks leaves the lines as they are.\<close>

lemma put_same_blocks:
  assumes "cache_wf c" and "i < length (c_sets c)" and "c_base c' = c_base c" and "c_cache_type c' = c_cache_type c"
    and "c_sets c' = (c_sets c)[i := s]" and "set_wf (unat (m_associativity (c_base c))) s"
    and "cs_blocks s = cs_blocks (c_sets c ! i)"
  shows "cache_wf c' \<and> cache_lines c' = cache_lines c \<and> (cache_unique c \<longrightarrow> cache_unique c')"
proof -
  have t: "set_tags s = set_tags (c_sets c ! i)" using assms(7) by (simp add: set_tags_def)
  have pl: "\<forall>t \<in> set_tags s. placed (c_base c) i t"
    unfolding t using cache_wf_tags [OF assms(1,2)] by blast
  have "set_tags s \<subseteq> cache_lines c" unfolding t using nth_mem [OF assms(2)] unfolding cache_lines_def by blast
  then have "cache_lines c' = cache_lines c"
    using cache_lines_put [OF assms(1,5,2) pl] t by auto
  moreover have "tags_unique (cs_blocks s)" if "cache_unique c"
    using that assms(2,7) by (simp add: cache_unique_def)
  ultimately show ?thesis
    using cache_wf_put [OF assms(1,3,4,5,6) pl] cache_unique_put [OF _ assms(5)] by blast
qed

lemma fault_preRead_set:
  "fault_preRead bytes off s c = Inr (s', c') \<Longrightarrow>
    (\<exists>d. s' = s\<lparr>cs_data := d\<rparr> \<and> map_option length d = map_option length (cs_data s)) \<and> (\<exists>f. c' = c\<lparr>c_fault := f\<rparr>)"
  by (auto simp: fault_preRead_def bindE_Inr_iff split: option.splits dest!: preRead_length intro: exI [of _ "c_fault c"])
    (metis cache.surjective cache.update_convs(8) cache_set.surjective cache_set.update_convs(2))

lemma fault_postWrite_id [simp]: "fault_postWrite bytes off s c = Inr (s, c)"
  by (cases c) (auto simp: fault_postWrite_def postWrite_def split: option.splits)

lemma accessSingleLine_spec:
  assumes wf: "cache_wf c" and acc: "accessSingleLine a ty buff bytes upd c = Inr (p, out, c')"
  shows "cache_wf c' \<and> c_base c' = c_base c \<and> cache_lines c' = cache_lines c \<and>
    (cache_unique c \<longrightarrow> cache_unique c') \<and> (p \<noteq> None \<longleftrightarrow> blk_tag c a \<in> cache_lines c)"
proof -
  obtain k where k: "splitAddress (c_base c) a = Inr (blk_tag c a, k)" "unat k < length (c_sets c)"
    "blk_tag c a \<noteq> -1" "placed (c_base c) (unat k) (blk_tag c a)" "get_set c k = Inr (c_sets c ! unat k)"
    by (rule cache_split [OF wf])
  let ?s = "c_sets c ! unat k" and ?n = "unat (m_associativity (c_base c))"
  have lines: "blk_tag c a \<in> cache_lines c \<longleftrightarrow> find_tag (blk_tag c a) ?s \<noteq> None"
    using in_cache_lines [OF wf k(2,4)] find_tag_None_iff [OF k(3), of ?s] by simp
  have swf: "set_wf ?n ?s" by (rule cache_wf_set [OF wf k(2)])
  show ?thesis
  proof (cases "find_tag (blk_tag c a) ?s")
    case None
    with acc k have "p = None" "c' = c" by (auto simp: accessSingleLine_def splitAddress_offset_def)
    with wf lines None show ?thesis by simp
  next
    case (Some i)
    from find_tag_Some [OF Some] swf have i: "i < ?n" by (simp add: set_wf_def)
    have "p \<noteq> None \<and> (\<exists>s' info f. c' = put_set (c\<lparr>c_fault := f, c_set_info := info\<rparr>) k s' \<and>
        set_wf ?n s' \<and> cs_blocks s' = cs_blocks ?s)"
    proof (cases "ty = LOAD")
      case True
      with acc k Some obtain s1 c1 xs info s2 where
        f: "fault_preRead bytes (i * cs_blocksize ?s + unat (ucast (a AND ucast (m_blocksize (c_base c) - 1)) :: u32)) ?s c = Inr (s1, c1)"
        and r: "read_line i (unat (ucast (a AND ucast (m_blocksize (c_base c) - 1)) :: u32)) (buff \<noteq> None) (unat bytes) upd
            (c_set_info c1, s1) = Inr (xs, info, s2)"
        and c': "p = Some (unat k, i)" "c' = put_set (c1\<lparr>c_set_info := info\<rparr>) k s2"
        by (auto simp: accessSingleLine_def splitAddress_offset_def bindE_Inr_iff)
      from fault_preRead_set [OF f] obtain d g where d: "s1 = ?s\<lparr>cs_data := d\<rparr>"
        "map_option length d = map_option length (cs_data ?s)" "c1 = c\<lparr>c_fault := g\<rparr>" by blast
      have "set_wf ?n s1" unfolding d(1) by (rule set_wf_data [OF swf d(2)])
      from read_line_wf [OF this i r] d c' show ?thesis by auto
    next
      case False
      with acc k Some obtain info s1 s2 c1 where
        w: "write_line i (unat (ucast (a AND ucast (m_blocksize (c_base c) - 1)) :: u32)) buff (unat bytes) upd
            (c_set_info c, ?s) = Inr (info, s1)"
        and f: "fault_postWrite bytes (i * cs_blocksize ?s + unat (ucast (a AND ucast (m_blocksize (c_base c) - 1)) :: u32)) s1 c = Inr (s2, c1)"
        and c': "p = Some (unat k, i)" "c' = put_set (c1\<lparr>c_set_info := info\<rparr>) k s2"
        by (auto simp: accessSingleLine_def splitAddress_offset_def bindE_Inr_iff)
      from f have "s2 = s1" "c1 = c\<lparr>c_fault := c_fault c\<rparr>" by simp_all
      with write_line_wf [OF swf i w] c' show ?thesis by blast
    qed
    then obtain s' info f where c': "p \<noteq> None" "c' = put_set (c\<lparr>c_fault := f, c_set_info := info\<rparr>) k s'"
      "set_wf ?n s'" "cs_blocks s' = cs_blocks ?s" by blast
    with put_same_blocks [OF wf k(2) _ _ _ c'(3,4), of c'] Some lines show ?thesis by simp
  qed
qed

subsection \<open>Insertion\<close>

lemma insertSingleLine_cases:
  assumes "cache_wf c" and "insertSingleLine a fill evb want c = Inr (ev, ea, evb', buf, c')"
  obtains k b s' f where "unat k < length (c_sets c)" and "placed (c_base c) (unat k) (blk_tag c a)"
    and "m_tag b = blk_tag c a" and "isValid b" and "create_block (c_cache_type c) = Inr (b\<lparr>m_tag := -1\<rparr>)"
    and "set_insert b fill evb want (c_sets c ! unat k) = Inr (ev, evb', buf, s')"
    and "ea = tagToAddress (c_base c) (m_tag evb')" and "c' = put_set (c\<lparr>c_fault := f\<rparr>) k s'"
proof -
  obtain k where k: "splitAddress (c_base c) a = Inr (blk_tag c a, k)" "unat k < length (c_sets c)"
    "blk_tag c a \<noteq> -1" "placed (c_base c) (unat k) (blk_tag c a)" "get_set c k = Inr (c_sets c ! unat k)"
    by (rule cache_split [OF assms(1)])
  obtain b where b: "create_block (c_cache_type c) = Inr b"
    using assms(1) by (cases "c_cache_type c") (auto simp: cache_wf_def)
  have fp: "(case c_fault c of None \<Rightarrow> Inr (s, c) | Some fi \<Rightarrow> (case find_tag t s of
      None \<Rightarrow> Inl (Assert_Failed ''Inserted line no longer there?'')
    | Some l \<Rightarrow> fault_postWrite n (m l) s c)) = Inr (s2, c2) \<Longrightarrow> s2 = s \<and> c2 = c" for s t n m s2 c2
    by (auto split: option.splits)
  have "\<exists>s1. set_insert (b\<lparr>m_tag := blk_tag c a\<rparr>) fill evb want (c_sets c ! unat k) = Inr (ev, evb', buf, s1) \<and>
      ea = tagToAddress (c_base c) (m_tag evb') \<and> c' = put_set c k s1"
    using assms(2) unfolding insertSingleLine_def k(1,5) b bindE_simps prod.case
    by (elim bindE_InrE) (auto dest!: fp)
  then obtain s1 where s1: "set_insert (b\<lparr>m_tag := blk_tag c a\<rparr>) fill evb want (c_sets c ! unat k) = Inr (ev, evb', buf, s1)"
    "ea = tagToAddress (c_base c) (m_tag evb')" "c' = put_set (c\<lparr>c_fault := c_fault c\<rparr>) k s1" by auto
  from create_block_Inr [OF b] have "b\<lparr>m_tag := blk_tag c a, m_tag := -1\<rparr> = b" by simp
  with k(3) b show ?thesis
    by (intro that [OF k(2,4) _ _ _ s1]) (simp_all add: isValid_def)
qed

lemma insertSingleLine_wf:
  assumes "cache_wf c" and "insertSingleLine a fill evb want c = Inr (ev, ea, evb', buf, c')"
  shows "cache_wf c' \<and> c_base c' = c_base c \<and> blk_tag c a \<in> cache_lines c' \<and>
    cache_lines c' \<subseteq> insert (blk_tag c a) (cache_lines c) \<and>
    insert (blk_tag c a) (cache_lines c - (if ev then {m_tag evb'} else {})) \<subseteq> cache_lines c' \<and>
    (ev \<longrightarrow> m_tag evb' \<in> cache_lines c \<and> blk_tag c ea = m_tag evb')"
  using assms
proof (cases rule: insertSingleLine_cases)
  case (1 k b s' f)
  let ?s = "c_sets c ! unat k" and ?n = "unat (m_associativity (c_base c))"
  have swf: "set_wf ?n ?s" by (rule cache_wf_set [OF assms(1) 1(1)])
  note ins = set_tags_insert_wf [OF swf 1(6,4)]
  have pl: "\<forall>t \<in> set_tags s'. placed (c_base c) (unat k) t"
    using ins(2) 1(2,3) cache_wf_tags [OF assms(1) 1(1)] by auto
  have "cache_wf c'"
    by (rule cache_wf_put [OF assms(1) _ _ _ _ pl]) (use 1(8) set_wf_insert [OF swf 1(6)] in simp_all)
  moreover have l: "cache_lines c' = (cache_lines c - set_tags ?s) \<union> set_tags s'"
    by (rule cache_lines_put [OF assms(1) _ 1(1) pl]) (use 1(8) in simp)
  moreover have sub: "set_tags ?s \<subseteq> cache_lines c" using nth_mem [OF 1(1)] unfolding cache_lines_def by blast
  moreover have "blk_tag c ea = m_tag evb'" if ev: ev
  proof -
    from sub ins(3) [OF ev] have "m_tag evb' \<in> cache_lines c" by blast
    from cache_lines_placed(1) [OF assms(1) this] show ?thesis by (simp add: 1(7))
  qed
  ultimately show ?thesis using ins 1(3,8) by auto
qed

lemma insertSingleLine_unique:
  assumes "cache_wf c" and "cache_unique c" and "insertSingleLine a fill evb want c = Inr (ev, ea, evb', buf, c')"
    and "blk_tag c a \<notin> cache_lines c"
  shows "cache_unique c' \<and> cache_lines c' = insert (blk_tag c a) (cache_lines c - (if ev then {m_tag evb'} else {}))"
  using assms(1,3)
proof (cases rule: insertSingleLine_cases)
  case (1 k b s' f)
  let ?s = "c_sets c ! unat k" and ?n = "unat (m_associativity (c_base c))"
  have swf: "set_wf ?n ?s" by (rule cache_wf_set [OF assms(1) 1(1)])
  have ok: "set_ok ?n ?s" using swf assms(2) 1(1) by (simp add: set_ok_def cache_unique_def)
  have "m_tag b \<notin> set_tags ?s" using assms(4) in_cache_lines [OF assms(1) 1(1,2)] 1(3) by simp
  then have ok': "set_ok ?n s'" by (rule set_ok_insert [OF ok 1(6)])
  have "cache_unique c'"
    by (rule cache_unique_put [OF assms(2)]) (use 1(8) ok' in \<open>auto simp: set_ok_def\<close>)
  moreover have pl: "\<forall>t \<in> set_tags s'. placed (c_base c) (unat k) t"
    using set_tags_insert_wf(2) [OF swf 1(6,4)] 1(2,3) cache_wf_tags [OF assms(1) 1(1)] by auto
  have l: "cache_lines c' = (cache_lines c - set_tags ?s) \<union> set_tags s'"
    by (rule cache_lines_put [OF assms(1) _ 1(1) pl]) (use 1(8) in simp)
  have sub: "set_tags ?s \<subseteq> cache_lines c" using nth_mem [OF 1(1)] unfolding cache_lines_def by blast
  have "ev \<Longrightarrow> m_tag evb' \<in> set_tags ?s" by (rule set_tags_insert_wf(3) [OF swf 1(6,4)])
  with l sub set_tags_insert [OF ok 1(6,4)] 1(3) have
    "cache_lines c' = insert (blk_tag c a) (cache_lines c - (if ev then {m_tag evb'} else {}))"
    by auto
  ultimately show ?thesis by blast
qed

subsection \<open>Writing through a block pointer\<close>

lemma store_block_spec:
  assumes wf: "cache_wf c" and p: "peekSingleLine a c = Inr (Some p)" and t: "m_tag b = m_tag (deref c p)"
  shows "cache_wf (store_block p b c) \<and> c_base (store_block p b c) = c_base c \<and>
    cache_lines (store_block p b c) = cache_lines c \<and> (cache_unique c \<longrightarrow> cache_unique (store_block p b c)) \<and>
    peekSingleLine x (store_block p b c) = peekSingleLine x c \<and> deref (store_block p b c) p = b"
proof -
  obtain k where k: "splitAddress (c_base c) a = Inr (blk_tag c a, k)" "unat k < length (c_sets c)"
    "get_set c k = Inr (c_sets c ! unat k)"
    by (rule cache_split [OF wf])
  let ?s = "c_sets c ! unat k" and ?n = "unat (m_associativity (c_base c))"
  from p k obtain w where w: "p = (unat k, w)" "find_tag (blk_tag c a) ?s = Some w" by (auto simp: peekSingleLine_def)
  have swf: "set_wf ?n ?s" by (rule cache_wf_set [OF wf k(2)])
  from find_tag_Some [OF w(2)] have wl: "w < length (cs_blocks ?s)" by simp
  have tg: "m_tag b = m_tag (cs_blocks ?s ! w)" using t w(1) by (simp add: deref_def)
  let ?s' = "?s\<lparr>cs_blocks := (cs_blocks ?s)[w := b]\<rparr>"
  have tags: "map m_tag (cs_blocks ?s') = map m_tag (cs_blocks ?s)"
    using tg by (simp add: map_update list_update_same_conv wl)
  have v: "isValid x \<longleftrightarrow> m_tag x \<noteq> -1" for x by (simp add: isValid_def)
  have st: "set_tags s = set (map m_tag (cs_blocks s)) - {-1}" for s
    by (auto simp: set_tags_def v)
  have st': "set_tags ?s' = set_tags ?s" unfolding st tags ..
  have nth: "m_tag (cs_blocks ?s' ! i) = m_tag (cs_blocks ?s ! i)" for i
    using tg wl by (cases "i = w") auto
  have tu: "tags_unique (cs_blocks ?s') \<longleftrightarrow> tags_unique (cs_blocks ?s)"
    unfolding tags_unique_def v nth by simp
  have ft: "find_tag x ?s' = find_tag x ?s" for x
  proof -
    have fl: "find_last (\<lambda>b. m_tag b = x) bs = find_last (\<lambda>t. t = x) (map m_tag bs)" for bs :: "cache_block list"
      by (induction bs) (auto split: option.splits)
    show ?thesis unfolding find_tag_def fl tags ..
  qed
  have eq: "store_block p b c = c\<lparr>c_sets := (c_sets c)[unat k := ?s']\<rparr>"
    using w(1) by (simp add: store_block_def Let_def)
  have swf': "set_wf ?n ?s'" using swf by (simp add: set_wf_def)
  have pl: "\<forall>t \<in> set_tags ?s'. placed (c_base c) (unat k) t"
    unfolding st' using cache_wf_tags [OF wf k(2)] by blast
  have wf': "cache_wf (store_block p b c)"
    by (rule cache_wf_put [OF wf _ _ _ swf' pl]) (simp_all add: eq)
  have sub: "set_tags ?s \<subseteq> cache_lines c" using nth_mem [OF k(2)] unfolding cache_lines_def by blast
  have lines: "cache_lines (store_block p b c) = cache_lines c"
    using cache_lines_put [OF wf _ k(2) pl, of "store_block p b c"] sub unfolding st' by (auto simp: eq)
  have un: "cache_unique c \<longrightarrow> cache_unique (store_block p b c)"
    using cache_unique_put [of c "store_block p b c" "unat k" ?s'] tu k(2) by (auto simp: eq cache_unique_def)
  have gs: "bindE (get_set (store_block p b c) j) (\<lambda>s. Inr (map_option f (find_tag x s))) =
      bindE (get_set c j) (\<lambda>s. Inr (map_option f (find_tag x s)))" for j x and f :: "nat \<Rightarrow> block_ptr"
    using k(2) ft by (cases "unat j = unat k") (simp_all add: get_set_def eq)
  have pk: "peekSingleLine x (store_block p b c) = peekSingleLine x c"
    unfolding peekSingleLine_def gs by (simp add: eq)
  have "c_base (store_block p b c) = c_base c" "deref (store_block p b c) p = b"
    using k(2) w(1) wl unfolding eq by (simp_all add: deref_def)
  with wf' lines un pk show ?thesis by blast
qed

subsection \<open>Construction\<close>

lemma Cache_Inr:
  assumes "Cache env name sz assoc bs pol ty hash fi None = Inr c" and "policy_fits env pol (unat assoc)"
    and "m_num_sets (c_base c) \<noteq> 0" and "hash \<noteq> INVALID_HASH_TYPE" and "ty \<noteq> INVALID_CACHE_TYPE"
    and "0 < m_log_blocksize (c_base c)"
  shows "cache_wf c \<and> cache_unique c \<and> cache_lines c = {}"
proof -
  from assms(1) obtain cb sets where cb: "CacheBase name sz assoc bs hash None = Inr cb"
    and sets: "mapE (createCacheSet env pol ty (unat (m_associativity cb)) (unat (m_blocksize cb)))
      [0..<unat (m_num_sets cb)] = Inr sets"
    and c: "c_base c = cb" "c_cache_type c = ty" "c_sets c = sets"
    by (auto simp: Cache_def bindE_Inr_iff)
  have assoc: "m_associativity cb = assoc" using cb by (auto simp: CacheBase_def Let_def split: if_splits)
  have ok: "cache_base_ok cb" using CacheBase_ok [OF cb] assms(3,4) c(1) by simp
  from mapE_Inr [OF sets] have len: "length sets = unat (m_num_sets cb)" by simp
  have s: "set_wf (unat assoc) (sets ! i) \<and> tags_unique (cs_blocks (sets ! i)) \<and> set_tags (sets ! i) = {}"
    if "i < length sets" for i
  proof -
    have "createCacheSet env pol ty (unat assoc) (unat (m_blocksize cb)) i = Inr (sets ! i)"
      using mapE_Inr [OF sets] that len assoc by simp
    from createCacheSet_Inr [OF this assms(2)] show ?thesis by simp
  qed
  show ?thesis
    using s ok len assoc c assms(5,6)
    by (auto simp: cache_wf_def cache_unique_def cache_lines_def in_set_conv_nth)
qed

end
