(* ===== verification/Cache_Store.thy ===== *)
theory Cache_Store
  imports Cache_Props
begin

text \<open>
  The contract a cache's clients (TLB, NUCA cache, tag directory) rely on: locale
  \<open>line_store\<close> for a lookup that updates the replacement state and a fill that may evict one
  line, \<open>line_set\<close> when lines are not duplicated, \<open>live_store\<close> when nothing fails.
\<close>

locale line_store =
  fixes wf :: "'c \<Rightarrow> bool"
    and line :: "'c \<Rightarrow> addr \<Rightarrow> addr"
    and lines :: "'c \<Rightarrow> addr set"
    and access :: "addr \<Rightarrow> 'c \<Rightarrow> (bool \<times> 'c) res"
    and fill :: "addr \<Rightarrow> 'c \<Rightarrow> (addr option \<times> 'c) res"
  assumes access_spec: "wf c \<Longrightarrow> access a c = Inr (hit, c') \<Longrightarrow>
      wf c' \<and> line c' = line c \<and> lines c' = lines c \<and> (hit \<longleftrightarrow> line c a \<in> lines c)"
    and fill_spec: "wf c \<Longrightarrow> fill a c = Inr (e, c') \<Longrightarrow>
      wf c' \<and> line c' = line c \<and> line c a \<in> lines c' \<and> lines c' \<subseteq> insert (line c a) (lines c) \<and>
      (case e of None \<Rightarrow> lines c \<subseteq> lines c'
       | Some x \<Rightarrow> line c x \<in> lines c \<and> lines c - {line c x} \<subseteq> lines c')"
begin

definition touch :: "addr \<Rightarrow> 'c \<Rightarrow> (bool \<times> addr option \<times> 'c) res" where
  "touch a c = bindE (access a c) (\<lambda>(hit, c).
     if hit then Inr (True, None, c) else bindE (fill a c) (\<lambda>(e, c). Inr (False, e, c)))"

lemma touch_spec:
  assumes "wf c" and "touch a c = Inr (hit, e, c')"
  shows "wf c' \<and> line c' = line c \<and> line c a \<in> lines c' \<and> hit = (line c a \<in> lines c) \<and>
    lines c' \<subseteq> insert (line c a) (lines c) \<and>
    lines c \<subseteq> lines c' \<union> (case e of None \<Rightarrow> {} | Some x \<Rightarrow> {line c x})"
proof -
  from assms(2) obtain h c1 where c1: "access a c = Inr (h, c1)"
    and r: "if h then hit \<and> e = None \<and> c' = c1 else \<not> hit \<and> fill a c1 = Inr (e, c')"
    by (auto simp: touch_def bindE_Inr_iff split: if_splits)
  from access_spec [OF assms(1) c1] have a: "wf c1" "line c1 = line c" "lines c1 = lines c" "h \<longleftrightarrow> line c a \<in> lines c"
    by auto
  show ?thesis
  proof (cases h)
    case True
    with r a show ?thesis by auto
  next
    case False
    with r have "fill a c1 = Inr (e, c')" "\<not> hit" by auto
    from fill_spec [OF a(1) this(1)] a False \<open>\<not> hit\<close> show ?thesis by (cases e) auto
  qed
qed

end

locale line_set = line_store wf line lines access fill
  for wf :: "'c \<Rightarrow> bool" and line and lines and access and fill +
  fixes unique :: "'c \<Rightarrow> bool"
  assumes access_unique: "wf c \<Longrightarrow> unique c \<Longrightarrow> access a c = Inr (hit, c') \<Longrightarrow> unique c'"
    and fill_unique: "wf c \<Longrightarrow> unique c \<Longrightarrow> line c a \<notin> lines c \<Longrightarrow> fill a c = Inr (e, c') \<Longrightarrow> unique c' \<and>
      lines c' = insert (line c a) (lines c - (case e of None \<Rightarrow> {} | Some x \<Rightarrow> {line c x}))"
begin

lemma touch_unique:
  assumes "wf c" and "unique c" and "touch a c = Inr (hit, e, c')"
  shows "unique c' \<and> lines c' = insert (line c a) (lines c - (case e of None \<Rightarrow> {} | Some x \<Rightarrow> {line c x}))"
proof -
  from assms(3) obtain h c1 where c1: "access a c = Inr (h, c1)"
    and r: "if h then hit \<and> e = None \<and> c' = c1 else \<not> hit \<and> fill a c1 = Inr (e, c')"
    by (auto simp: touch_def bindE_Inr_iff split: if_splits)
  from access_spec [OF assms(1) c1] have a: "wf c1" "line c1 = line c" "lines c1 = lines c" "h \<longleftrightarrow> line c a \<in> lines c"
    by auto
  from access_unique [OF assms(1,2) c1] have u: "unique c1" .
  show ?thesis
  proof (cases h)
    case True
    with r a u show ?thesis by auto
  next
    case False
    with r a have "fill a c1 = Inr (e, c')" "line c1 a \<notin> lines c1" by auto
    from fill_unique [OF a(1) u this(2,1)] show ?thesis by (simp only: a(2,3))
  qed
qed

end

locale live_store = line_store wf line lines access fill
  for wf :: "'c \<Rightarrow> bool" and line and lines and access and fill +
  fixes live :: "'c \<Rightarrow> bool"
  assumes access_live: "wf c \<Longrightarrow> live c \<Longrightarrow> \<exists>hit c'. access a c = Inr (hit, c') \<and> live c'"
    and fill_live: "wf c \<Longrightarrow> live c \<Longrightarrow> \<exists>e c'. fill a c = Inr (e, c') \<and> live c'"
begin

lemma touch_live:
  assumes "wf c" and "live c"
  shows "\<exists>hit e c'. touch a c = Inr (hit, e, c') \<and> live c'"
proof -
  obtain h c1 where c1: "access a c = Inr (h, c1)" "live c1" using access_live [OF assms] by blast
  then have "wf c1" using access_spec [OF assms(1) c1(1)] by simp
  from fill_live [OF this c1(2), of a] c1 show ?thesis by (auto simp: touch_def split: if_splits)
qed

end

subsection \<open>The cache model meets the contract\<close>

text \<open>A lookup of zero bytes and a fill without data, as the TLB uses them.\<close>

definition tag_access :: "addr \<Rightarrow> cache \<Rightarrow> (bool \<times> cache) res" where
  "tag_access a c = bindE (accessSingleLine a LOAD None 0 True c) (\<lambda>(p, _, c'). Inr (p \<noteq> None, c'))"

definition tag_fill :: "addr \<Rightarrow> cache \<Rightarrow> (addr option \<times> cache) res" where
  "tag_fill a c = bindE (insertSingleLine a None (CacheBlockInfo BaseBlock (-1) INVALID 0) False c)
     (\<lambda>(ev, ea, _, _, c'). Inr (if ev then Some ea else None, c'))"

lemma blk_tag_base: "c_base c' = c_base c \<Longrightarrow> blk_tag c' = blk_tag c"
  by (simp add: blk_tag_def fun_eq_iff)

lemma tag_access_spec:
  assumes "cache_wf c" and "tag_access a c = Inr (hit, c')"
  shows "cache_wf c' \<and> c_base c' = c_base c \<and> cache_lines c' = cache_lines c \<and>
    (cache_unique c \<longrightarrow> cache_unique c') \<and> (hit \<longleftrightarrow> blk_tag c a \<in> cache_lines c)"
  using assms(2) accessSingleLine_spec [OF assms(1), of a LOAD None 0 True _ _ c']
  by (auto simp: tag_access_def bindE_Inr_iff)

lemma tag_fill_cases:
  assumes "tag_fill a c = Inr (e, c')"
  obtains ev ea evb buf where "e = (if ev then Some ea else None)"
    and "insertSingleLine a None (CacheBlockInfo BaseBlock (-1) INVALID 0) False c = Inr (ev, ea, evb, buf, c')"
  using assms by (auto simp: tag_fill_def bindE_Inr_iff)

interpretation tags: line_set cache_wf blk_tag cache_lines tag_access tag_fill cache_unique
proof unfold_locales
  fix c a hit c'
  assume "cache_wf c" "tag_access a c = Inr (hit, c')"
  from tag_access_spec [OF this] show "cache_wf c' \<and> blk_tag c' = blk_tag c \<and>
    cache_lines c' = cache_lines c \<and> hit = (blk_tag c a \<in> cache_lines c)"
    using blk_tag_base [of c' c] by simp
next
  fix c a e c'
  assume wf: "cache_wf c" and f: "tag_fill a c = Inr (e, c')"
  from f obtain ev ea evb buf where e: "e = (if ev then Some ea else None)"
    and i: "insertSingleLine a None (CacheBlockInfo BaseBlock (-1) INVALID 0) False c = Inr (ev, ea, evb, buf, c')"
    by (rule tag_fill_cases)
  note w = insertSingleLine_wf [OF wf i]
  have b: "blk_tag c' = blk_tag c" using w by (intro blk_tag_base) simp
  show "cache_wf c' \<and> blk_tag c' = blk_tag c \<and> blk_tag c a \<in> cache_lines c' \<and>
    cache_lines c' \<subseteq> insert (blk_tag c a) (cache_lines c) \<and>
    (case e of None \<Rightarrow> cache_lines c \<subseteq> cache_lines c'
     | Some x \<Rightarrow> blk_tag c x \<in> cache_lines c \<and> cache_lines c - {blk_tag c x} \<subseteq> cache_lines c')"
    using w unfolding e b by (cases ev) simp_all
next
  fix c a hit c'
  assume "cache_wf c" "cache_unique c" "tag_access a c = Inr (hit, c')"
  then show "cache_unique c'" using tag_access_spec by blast
next
  fix c a e c'
  assume wf: "cache_wf c" and u: "cache_unique c" "blk_tag c a \<notin> cache_lines c" and f: "tag_fill a c = Inr (e, c')"
  from f obtain ev ea evb buf where e: "e = (if ev then Some ea else None)"
    and i: "insertSingleLine a None (CacheBlockInfo BaseBlock (-1) INVALID 0) False c = Inr (ev, ea, evb, buf, c')"
    by (rule tag_fill_cases)
  note w = insertSingleLine_wf [OF wf i] insertSingleLine_unique [OF wf u(1) i u(2)]
  show "cache_unique c' \<and> cache_lines c' =
    insert (blk_tag c a) (cache_lines c - (case e of None \<Rightarrow> {} | Some x \<Rightarrow> {blk_tag c x}))"
    using w unfolding e by (cases ev) simp_all
qed

subsection \<open>An LRU cache without data never fails\<close>

definition lru_live :: "cache \<Rightarrow> bool" where
  "lru_live c \<longleftrightarrow> c_fault c = None \<and> m_blocksize (c_base c) \<noteq> 0 \<and>
     map_option length (c_set_info c) = Some (unat (m_associativity (c_base c))) \<and>
     (\<forall>s \<in> set (c_sets c). is_lru (cs_repl s) \<and> cs_data s = None \<and> cs_blocksize s = unat (m_blocksize (c_base c)))"

lemma lru_live_put:
  assumes "lru_live c" and "c_base c' = c_base c" and "c_fault c' = None"
    and "map_option length (c_set_info c') = map_option length (c_set_info c)"
    and "c_sets c' = (c_sets c)[i := s]" and "is_lru (cs_repl s)" and "cs_data s = None"
    and "cs_blocksize s = unat (m_blocksize (c_base c))"
  shows "lru_live c'"
proof -
  have "set (c_sets c') \<subseteq> insert s (set (c_sets c))" unfolding assms(5) by (rule set_update_subset_insert)
  with assms(1-4,6-8) show ?thesis unfolding lru_live_def by fastforce
qed

lemma is_lru_D: "is_lru r \<Longrightarrow> \<exists>bits. r = Lru bits"
  by (cases r) auto

lemma block_offset_le: "(unat (ucast ((a :: addr) AND ucast (b :: u32)) :: u32) + unat (0 :: u32)) mod 2 ^ 32 \<le> unat b"
proof -
  let ?w = "a AND ucast b"
  have le: "unat ?w \<le> unat b"
    using word_and_le1 [of a "ucast b"] unfolding word_le_nat_alt unat_ucast_u32_u64 .
  also have "unat b < 2 ^ 32" using unat_u32_less [of b] by simp
  finally have lt: "unat ?w < 2 ^ 32" .
  have "unat (ucast ?w :: u32) = unat ?w" by (rule unat_ucast_u64_u32 [OF lt])
  with le lt show ?thesis unfolding unat_0 add_0_right by (simp only: mod_less)
qed

lemma lru_touch_live:
  assumes "set_wf n s" and "is_lru (cs_repl s)" and "i < n" and "map_option length info = Some n"
  shows "\<exists>info' r. set_update_replacement i (info, s) = Inr (info', s\<lparr>cs_repl := r\<rparr>) \<and> is_lru r \<and>
    map_option length info' = Some n"
proof -
  from is_lru_D [OF assms(2)] obtain bits where bits: "cs_repl s = Lru bits" by blast
  with assms(1) have st: "stack_ok n bits" by (simp add: set_wf_def)
  from assms(4) obtain acc where acc: "info = Some acc" "length acc = n" by (cases info) auto
  from stack_ok_nth [OF st assms(3)] acc bits show ?thesis
    by (auto simp: set_update_replacement_def lru_updateReplacementIndex_def set_info_increment_def)
qed

lemma tag_access_live:
  assumes wf: "cache_wf c" and l: "lru_live c"
  shows "\<exists>hit c'. tag_access a c = Inr (hit, c') \<and> lru_live c'"
proof -
  obtain k where k: "splitAddress (c_base c) a = Inr (blk_tag c a, k)" "unat k < length (c_sets c)"
    "get_set c k = Inr (c_sets c ! unat k)"
    by (rule cache_split [OF wf])
  let ?s = "c_sets c ! unat k" and ?n = "unat (m_associativity (c_base c))"
  have s: "is_lru (cs_repl ?s)" "cs_data ?s = None" "cs_blocksize ?s = unat (m_blocksize (c_base c))"
    and cf: "c_fault c = None" and info: "map_option length (c_set_info c) = Some ?n" and nz: "m_blocksize (c_base c) \<noteq> 0"
    using l nth_mem [OF k(2)] by (auto simp: lru_live_def)
  have swf: "set_wf ?n ?s" by (rule cache_wf_set [OF wf k(2)])
  show ?thesis
  proof (cases "find_tag (blk_tag c a) ?s")
    case None
    with k have "tag_access a c = Inr (False, c)"
      by (simp add: tag_access_def accessSingleLine_def splitAddress_offset_def)
    with l show ?thesis by blast
  next
    case (Some i)
    from find_tag_Some [OF Some] swf have i: "i < ?n" by (simp add: set_wf_def)
    from lru_touch_live [OF swf s(1) i info] obtain info' r where
      up: "set_update_replacement i (c_set_info c, ?s) = Inr (info', ?s\<lparr>cs_repl := r\<rparr>)" "is_lru r"
      "map_option length info' = Some ?n" by blast
    let ?off = "unat (ucast (a AND ucast (m_blocksize (c_base c) - 1)) :: u32)"
    have "unat (m_blocksize (c_base c) - 1) \<le> unat (m_blocksize (c_base c))"
      using nz by (simp add: unat_minus_one)
    with block_offset_le [of a "m_blocksize (c_base c) - 1"]
    have off: "(?off + unat (0 :: u32)) mod 2 ^ 32 \<le> cs_blocksize ?s" unfolding s(3) by (rule order_trans)
    have rd: "read_line i ?off False (unat (0 :: u32)) True (c_set_info c, ?s) = Inr (None, info', ?s\<lparr>cs_repl := r\<rparr>)"
      unfolding read_line_def prod.case using off s(2) up(1) by (simp only: assertE_True) simp
    let ?c' = "put_set (c\<lparr>c_set_info := info'\<rparr>) k (?s\<lparr>cs_repl := r\<rparr>)"
    have "tag_access a c = Inr (True, ?c')"
      unfolding tag_access_def accessSingleLine_def splitAddress_offset_def k(1,3) bindE_simps prod.case Let_def Some option.case
        fault_preRead_def cf using rd by simp
    moreover have "lru_live ?c'"
      by (rule lru_live_put [OF l, where i = "unat k" and s = "?s\<lparr>cs_repl := r\<rparr>"])
        (use cf up(2) s in \<open>simp_all add: put_set_def up(3) info del: map_option_eq_Some\<close>)
    ultimately show ?thesis by blast
  qed
qed

lemma lru_insert_live:
  assumes "set_wf n s" and "is_lru (cs_repl s)" and "cs_data s = None" and "0 < n"
  shows "\<exists>ev evb' s'. set_insert b fill evb want s = Inr (ev, evb', None, s') \<and> is_lru (cs_repl s') \<and>
    cs_data s' = None \<and> cs_blocksize s' = cs_blocksize s"
proof -
  from is_lru_D [OF assms(2)] obtain bits where bits: "cs_repl s = Lru bits" by blast
  with assms(1) have "length bits = length (cs_blocks s)" "length (cs_blocks s) = n" by (auto simp: set_wf_def stack_ok_def)
  with lru_get_Inr [of bits "cs_blocks s"] assms(4) obtain i where
    "i < length (cs_blocks s)" "lru_getReplacementIndex (cs_blocks s) bits = Inr (i, moveToMRU i bits)" by auto
  with bits assms(3) show ?thesis by (auto simp: set_insert_def map_repl_def Let_def split: option.splits)
qed

lemma insertSingleLine_live:
  assumes wf: "cache_wf c" and l: "lru_live c"
  shows "\<exists>ev ea evb' c'. insertSingleLine a fill evb want c = Inr (ev, ea, evb', None, c') \<and> lru_live c'"
proof -
  obtain k where k: "splitAddress (c_base c) a = Inr (blk_tag c a, k)" "unat k < length (c_sets c)"
    "get_set c k = Inr (c_sets c ! unat k)"
    by (rule cache_split [OF wf])
  let ?s = "c_sets c ! unat k" and ?n = "unat (m_associativity (c_base c))"
  have s: "is_lru (cs_repl ?s)" "cs_data ?s = None" "cs_blocksize ?s = unat (m_blocksize (c_base c))"
    and cf: "c_fault c = None" and info: "map_option length (c_set_info c) = Some ?n"
    using l nth_mem [OF k(2)] by (auto simp: lru_live_def)
  have swf: "set_wf ?n ?s" by (rule cache_wf_set [OF wf k(2)])
  have n: "0 < ?n" using swf is_lru_D [OF s(1)] by (auto simp: set_wf_def stack_ok_def)
  obtain b where b: "create_block (c_cache_type c) = Inr b"
    using wf by (cases "c_cache_type c") (auto simp: cache_wf_def)
  from lru_insert_live [OF swf s(1,2) n] obtain ev evb' s' where
    ins: "set_insert (b\<lparr>m_tag := blk_tag c a\<rparr>) fill evb want ?s = Inr (ev, evb', None, s')"
    and s': "is_lru (cs_repl s')" "cs_data s' = None" "cs_blocksize s' = cs_blocksize ?s" by blast
  let ?c' = "put_set c k s'"
  have "insertSingleLine a fill evb want c = Inr (ev, tagToAddress (c_base c) (m_tag evb'), evb', None, ?c')"
    unfolding insertSingleLine_def k(1,3) bindE_simps prod.case b ins cf option.case ..
  moreover have "lru_live ?c'"
    by (rule lru_live_put [OF l, where i = "unat k" and s = s']) (use cf s s' in simp_all)
  ultimately show ?thesis by blast
qed

lemma tag_fill_live:
  assumes "cache_wf c" and "lru_live c"
  shows "\<exists>e c'. tag_fill a c = Inr (e, c') \<and> lru_live c'"
  using insertSingleLine_live [OF assms, of a None "CacheBlockInfo BaseBlock (-1) INVALID 0" False]
  by (auto simp: tag_fill_def)

interpretation lru_tags: live_store cache_wf blk_tag cache_lines tag_access tag_fill lru_live
proof unfold_locales
  fix c a assume "cache_wf c" "lru_live c"
  then show "\<exists>hit c'. tag_access a c = Inr (hit, c') \<and> lru_live c'" by (rule tag_access_live)
next
  fix c a assume "cache_wf c" "lru_live c"
  then show "\<exists>e c'. tag_fill a c = Inr (e, c') \<and> lru_live c'" by (rule tag_fill_live)
qed

end
