(* ===== verification/Tlb.thy ===== *)
theory Tlb
  imports Cache_Store
begin

text \<open>
  common/core/memory_subsystem/parametric_dram_directory_msi/tlb.cc: a chain of translation
  buffers, each an LRU cache of pages. A \<open>TLB*\<close> with its \<open>m_next_level\<close> pointers is a list,
  first level first.
\<close>

definition SIM_PAGE_SIZE :: u32 where "SIM_PAGE_SIZE = 4096"

record tlb =
  tlb_size :: u32
  tlb_associativity :: u32
  tlb_cache :: cache
  tlb_access :: u64
  tlb_miss :: u64

definition TLB :: "cache_env \<Rightarrow> string \<Rightarrow> u32 \<Rightarrow> u32 \<Rightarrow> tlb res" where
  "TLB env name sz associativity =
     bindE (Cache env (name @ ''_cache'') sz associativity SIM_PAGE_SIZE ''lru'' PR_L1_CACHE HASH_MASK None None)
       (\<lambda>c. Inr \<lparr>tlb_size = sz, tlb_associativity = associativity, tlb_cache = c, tlb_access = 0, tlb_miss = 0\<rparr>)"

text \<open>An evicted page goes to the next level, which is used as a victim cache.\<close>

primrec tlb_allocate :: "addr \<Rightarrow> tlb list \<Rightarrow> tlb list res" where
  "tlb_allocate a [] = Inl (Null_Pointer ''this'')"
| "tlb_allocate a (t # next_level) =
     bindE (insertSingleLine a None (CacheBlockInfo BaseBlock (-1) INVALID 0) False (tlb_cache t))
       (\<lambda>(eviction, evict_addr, _, _, c).
     if eviction \<and> next_level \<noteq> []
     then bindE (tlb_allocate evict_addr next_level) (\<lambda>next_level. Inr (t\<lparr>tlb_cache := c\<rparr> # next_level))
     else Inr (t\<lparr>tlb_cache := c\<rparr> # next_level))"

primrec tlb_lookup :: "addr \<Rightarrow> bool \<Rightarrow> tlb list \<Rightarrow> (bool \<times> tlb list) res" where
  "tlb_lookup a allocate_on_miss [] = Inl (Null_Pointer ''this'')"
| "tlb_lookup a allocate_on_miss (t # next_level) =
     bindE (accessSingleLine a LOAD None 0 True (tlb_cache t)) (\<lambda>(p, _, c).
     let t = t\<lparr>tlb_cache := c, tlb_access := tlb_access t + 1\<rparr> in
     if p \<noteq> None then Inr (True, t # next_level)
     else let t = t\<lparr>tlb_miss := tlb_miss t + 1\<rparr> in
       bindE (if next_level \<noteq> [] then tlb_lookup a False next_level else Inr (False, next_level))
         (\<lambda>(hit, next_level).
       if allocate_on_miss
       then bindE (tlb_allocate a (t # next_level)) (\<lambda>ts. Inr (hit, ts))
       else Inr (hit, t # next_level)))"

subsection \<open>The pages a chain holds\<close>

definition page :: "addr \<Rightarrow> addr" where
  "page a = drop_bit 12 a"

definition tlb_pages :: "tlb \<Rightarrow> addr set" where
  "tlb_pages t = cache_lines (tlb_cache t)"

definition tlb_ok :: "tlb \<Rightarrow> bool" where
  "tlb_ok t \<longleftrightarrow> cache_wf (tlb_cache t) \<and> lru_live (tlb_cache t) \<and> m_log_blocksize (c_base (tlb_cache t)) = 12"

definition pages :: "tlb list \<Rightarrow> addr set" where
  "pages ts = (\<Union>t \<in> set ts. tlb_pages t)"

lemma tlb_ok_page: "tlb_ok t \<Longrightarrow> blk_tag (tlb_cache t) = page"
  by (simp add: tlb_ok_def blk_tag_def page_def fun_eq_iff)

lemma tag_access_of:
  "tag_access a c = Inr (hit, c') \<longleftrightarrow> (\<exists>p x. accessSingleLine a LOAD None 0 True c = Inr (p, x, c') \<and> hit = (p \<noteq> None))"
  by (auto simp: tag_access_def bindE_Inr_iff)

lemma tag_fill_of:
  "tag_fill a c = Inr (e, c') \<longleftrightarrow> (\<exists>ev ea evb buf.
     insertSingleLine a None (CacheBlockInfo BaseBlock (-1) INVALID 0) False c = Inr (ev, ea, evb, buf, c') \<and>
     e = (if ev then Some ea else None))"
  by (auto simp: tag_fill_def bindE_Inr_iff)

lemma tlb_fill_live:
  assumes "tlb_ok t"
  obtains e c' where "tag_fill a (tlb_cache t) = Inr (e, c')" and "tlb_ok (t\<lparr>tlb_cache := c'\<rparr>)"
    and "page a \<in> cache_lines c'" and "cache_lines c' \<subseteq> insert (page a) (tlb_pages t)"
    and "tlb_pages t \<subseteq> cache_lines c' \<union> (case e of None \<Rightarrow> {} | Some x \<Rightarrow> {page x})"
    and "case e of None \<Rightarrow> True | Some x \<Rightarrow> page x \<in> tlb_pages t"
proof -
  have wf: "cache_wf (tlb_cache t)" and l: "lru_live (tlb_cache t)" using assms by (auto simp: tlb_ok_def)
  from lru_tags.fill_live [OF wf l, of a] obtain e c' where f: "tag_fill a (tlb_cache t) = Inr (e, c')" "lru_live c'"
    by blast
  have b: "c_base c' = c_base (tlb_cache t)"
    using f(1) insertSingleLine_wf [OF wf] unfolding tag_fill_of by blast
  note s = tags.fill_spec [OF wf f(1)]
  show ?thesis
    by (rule that [OF f(1)])
      (use s f(2) b tlb_ok_page [OF assms] assms in \<open>auto simp: tlb_ok_def tlb_pages_def split: option.splits\<close>)
qed

lemma tlb_access_live:
  assumes "tlb_ok t"
  obtains c' p where "accessSingleLine a LOAD None 0 True (tlb_cache t) = Inr (p, c')"
    and "p \<noteq> None \<longleftrightarrow> page a \<in> tlb_pages t" and "\<And>t'. tlb_cache t' = snd c' \<Longrightarrow> tlb_ok t'"
    and "cache_lines (snd c') = tlb_pages t"
proof -
  have wf: "cache_wf (tlb_cache t)" and l: "lru_live (tlb_cache t)" using assms by (auto simp: tlb_ok_def)
  from lru_tags.access_live [OF wf l, of a] obtain hit c' where
    f: "tag_access a (tlb_cache t) = Inr (hit, c')" "lru_live c'" by blast
  from f(1) obtain p x where px: "accessSingleLine a LOAD None 0 True (tlb_cache t) = Inr (p, x, c')" "hit = (p \<noteq> None)"
    unfolding tag_access_of by blast
  from accessSingleLine_spec [OF wf px(1)] have b: "c_base c' = c_base (tlb_cache t)" by simp
  note s = tags.access_spec [OF wf f(1)]
  show ?thesis
    by (rule that [of p "(x, c')"])
      (use s f(2) b px tlb_ok_page [OF assms] assms in \<open>auto simp: tlb_ok_def tlb_pages_def\<close>)
qed

lemma pages_Cons: "pages (t # ts) = tlb_pages t \<union> pages ts"
  by (simp add: pages_def)

lemma pages_butlast: "pages (butlast ts) \<subseteq> pages ts"
  by (auto simp: pages_def dest: in_set_butlastD)

lemma pages_butlast_Cons: "pages (butlast (t # u # us)) = tlb_pages t \<union> pages (butlast (u # us))"
  by (simp add: pages_def)

lemma pages_map: "pages ts = \<Union>(set (map tlb_pages ts))"
  by (simp add: pages_def)

text \<open>What a lookup leaves behind: after an allocation the page is in the first level, no other
  page is new, and only the last level can lose one.\<close>

definition lookup_post :: "addr \<Rightarrow> bool \<Rightarrow> tlb list \<Rightarrow> tlb list \<Rightarrow> bool" where
  "lookup_post a alloc ts ts' \<longleftrightarrow> list_all tlb_ok ts' \<and> length ts' = length ts \<and>
     (if alloc then page a \<in> tlb_pages (hd ts') \<and> pages ts' \<subseteq> insert (page a) (pages ts) \<and>
        pages (butlast ts) \<subseteq> pages ts' \<and> (\<exists>x. pages ts \<subseteq> insert x (pages ts'))
      else map tlb_pages ts' = map tlb_pages ts)"

lemma tlb_allocate_spec:
  assumes "list_all tlb_ok ts" and "ts \<noteq> []"
  shows "\<exists>ts'. tlb_allocate a ts = Inr ts' \<and> lookup_post a True ts ts'"
  using assms
proof (induction ts arbitrary: a)
  case (Cons t us)
  then have ok: "tlb_ok t" and rest: "list_all tlb_ok us" by auto
  from ok obtain e c' where c': "tag_fill a (tlb_cache t) = Inr (e, c')" "tlb_ok (t\<lparr>tlb_cache := c'\<rparr>)"
    "page a \<in> cache_lines c'" "cache_lines c' \<subseteq> insert (page a) (tlb_pages t)"
    "tlb_pages t \<subseteq> cache_lines c' \<union> (case e of None \<Rightarrow> {} | Some x \<Rightarrow> {page x})"
    "case e of None \<Rightarrow> True | Some x \<Rightarrow> page x \<in> tlb_pages t" by (rule tlb_fill_live)
  let ?t = "t\<lparr>tlb_cache := c'\<rparr>"
  have tp: "tlb_pages ?t = cache_lines c'" by (simp add: tlb_pages_def)
  show ?case
  proof (cases "us = [] \<or> e = None")
    case True
    with c'(1) have r: "tlb_allocate a (t # us) = Inr (?t # us)" unfolding tag_fill_of by (auto split: if_splits)
    have sub: "pages (butlast (t # us)) \<subseteq> pages (?t # us)"
    proof (cases us)
      case (Cons u ws)
      with True have "tlb_pages t \<subseteq> cache_lines c'" using c'(5) by simp
      moreover have "pages (butlast us) \<subseteq> pages us" by (rule pages_butlast)
      ultimately show ?thesis unfolding Cons pages_butlast_Cons unfolding pages_Cons tp by blast
    qed (simp add: pages_def)
    have "\<exists>x. tlb_pages t \<subseteq> insert x (cache_lines c')" using c'(5) by (cases e) auto
    then obtain x where "pages (t # us) \<subseteq> insert x (pages (?t # us))" unfolding pages_Cons tp by blast
    moreover have "pages (?t # us) \<subseteq> insert (page a) (pages (t # us))"
      using c'(4) unfolding pages_Cons tp by blast
    ultimately have "lookup_post a True (t # us) (?t # us)"
      unfolding lookup_post_def using sub c'(2,3) rest tp by auto
    with r show ?thesis by blast
  next
    case False
    then obtain x u ws where x: "e = Some x" and us: "us = u # ws" by (cases us) auto
    from Cons.IH [OF rest, of x] False obtain us' where u': "tlb_allocate x us = Inr us'" "lookup_post x True us us'"
      by blast
    have post: "list_all tlb_ok us'" "length us' = length us" "page x \<in> tlb_pages (hd us')"
      "pages us' \<subseteq> insert (page x) (pages us)" "pages (butlast us) \<subseteq> pages us'" "\<exists>y. pages us \<subseteq> insert y (pages us')"
      using u'(2) by (simp_all add: lookup_post_def)
    have px: "page x \<in> pages us'" using post(2,3) us by (cases us') (auto simp: pages_Cons)
    from c'(1) x u'(1) False have r: "tlb_allocate a (t # us) = Inr (?t # us')"
      unfolding tag_fill_of by (auto split: if_splits)
    have t: "tlb_pages t \<subseteq> insert (page x) (cache_lines c')" using c'(5) x by auto
    from post(6) obtain y where "pages us \<subseteq> insert y (pages us')" by blast
    then have "pages (t # us) \<subseteq> insert y (pages (?t # us'))" using t px unfolding pages_Cons tp by blast
    moreover have "pages (butlast (t # us)) \<subseteq> pages (?t # us')"
      using t px post(5) unfolding us pages_butlast_Cons unfolding pages_Cons tp by blast
    moreover have "pages (?t # us') \<subseteq> insert (page a) (pages (t # us))"
      using c'(4,6) post(4) x unfolding pages_Cons tp by auto
    ultimately have "lookup_post a True (t # us) (?t # us')"
      unfolding lookup_post_def using c'(2,3) post(1,2) tp by auto
    with r show ?thesis by blast
  qed
qed simp

text \<open>A lookup succeeds and tells whether some level holds the page.\<close>

lemma lookup_post_same:
  assumes "list_all tlb_ok ts'" and "map tlb_pages ts' = map tlb_pages ts" and "ts \<noteq> []"
    and "alloc \<longrightarrow> page a \<in> tlb_pages (hd ts)"
  shows "lookup_post a alloc ts ts'"
proof -
  have l: "length ts' = length ts" using assms(2) by (rule map_eq_imp_length_eq)
  moreover have "pages ts' = pages ts" by (simp only: pages_map assms(2))
  moreover have "pages (butlast ts) \<subseteq> pages ts" by (rule pages_butlast)
  moreover have "tlb_pages (hd ts') = tlb_pages (hd ts)"
    using assms(2,3) l by (metis hd_map length_0_conv)
  ultimately show ?thesis using assms by (auto simp: lookup_post_def)
qed

lemma lookup_post_allocate:
  assumes "list_all tlb_ok ts1" and "map tlb_pages ts1 = map tlb_pages ts" and "ts1 \<noteq> []"
  shows "\<exists>ts'. tlb_allocate a ts1 = Inr ts' \<and> lookup_post a True ts ts'"
proof -
  obtain ts' where r: "tlb_allocate a ts1 = Inr ts'" "lookup_post a True ts1 ts'"
    using tlb_allocate_spec [OF assms(1,3)] by blast
  have "length ts1 = length ts" using assms(2) by (metis length_map)
  moreover have "pages ts1 = pages ts" by (simp only: pages_map assms(2))
  moreover have "pages (butlast ts1) = pages (butlast ts)" by (simp only: pages_map map_butlast assms(2))
  ultimately show ?thesis using r by (auto simp: lookup_post_def)
qed

lemma tlb_lookup_spec:
  assumes "list_all tlb_ok ts" and "ts \<noteq> []"
  shows "\<exists>ts'. tlb_lookup a alloc ts = Inr (page a \<in> pages ts, ts') \<and> lookup_post a alloc ts ts'"
  using assms
proof (induction ts arbitrary: alloc)
  case (Cons t next_level)
  then have ok: "tlb_ok t" and rest: "list_all tlb_ok next_level" by auto
  from ok obtain p c' where c': "accessSingleLine a LOAD None 0 True (tlb_cache t) = Inr (p, c')"
    "p \<noteq> None \<longleftrightarrow> page a \<in> tlb_pages t" "\<And>t'. tlb_cache t' = snd c' \<Longrightarrow> tlb_ok t'"
    "cache_lines (snd c') = tlb_pages t" by (rule tlb_access_live [where a = a]) auto
  let ?t1 = "t\<lparr>tlb_cache := snd c', tlb_access := tlb_access t + 1\<rparr>"
  let ?t2 = "?t1\<lparr>tlb_miss := tlb_miss t + 1\<rparr>"
  have t12: "tlb_ok ?t1" "tlb_ok ?t2" "tlb_pages ?t1 = tlb_pages t" "tlb_pages ?t2 = tlb_pages t"
    using c'(3,4) by (auto simp: tlb_pages_def)
  show ?case
  proof (cases "p = None")
    case False
    then have r: "tlb_lookup a alloc (t # next_level) = Inr (True, ?t1 # next_level)" and i: "page a \<in> tlb_pages t"
      using c'(1,2) by (auto simp: case_prod_beta Let_def)
    have "lookup_post a alloc (t # next_level) (?t1 # next_level)"
      by (rule lookup_post_same) (use t12 rest i in auto)
    with r i show ?thesis by (auto simp: pages_Cons)
  next
    case True
    then have ni: "page a \<notin> tlb_pages t" using c'(2) by simp
    have "\<exists>next'. (if next_level \<noteq> [] then tlb_lookup a False next_level else Inr (False, next_level)) =
        Inr (page a \<in> pages next_level, next') \<and> list_all tlb_ok next' \<and> map tlb_pages next' = map tlb_pages next_level"
    proof (cases "next_level = []")
      case False
      from Cons.IH [OF rest False, of False] False show ?thesis by (auto simp: lookup_post_def)
    qed (simp add: pages_def)
    then obtain next' where n': "(if next_level \<noteq> [] then tlb_lookup a False next_level else Inr (False, next_level)) =
        Inr (page a \<in> pages next_level, next')" "list_all tlb_ok next'" "map tlb_pages next' = map tlb_pages next_level"
      by blast
    have eq: "tlb_lookup a alloc (t # next_level) = (if alloc
        then bindE (tlb_allocate a (?t2 # next')) (\<lambda>ts. Inr (page a \<in> pages next_level, ts))
        else Inr (page a \<in> pages next_level, ?t2 # next'))"
      using c'(1) True n'(1) by (simp add: case_prod_beta Let_def)
    have same: "list_all tlb_ok (?t2 # next')" "map tlb_pages (?t2 # next') = map tlb_pages (t # next_level)"
      using t12 n'(2,3) by auto
    have hit: "page a \<in> pages (t # next_level) \<longleftrightarrow> page a \<in> pages next_level" using ni by (simp add: pages_Cons)
    show ?thesis
    proof (cases alloc)
      case True
      from lookup_post_allocate [OF same, of a] obtain ts' where
        "tlb_allocate a (?t2 # next') = Inr ts'" "lookup_post a True (t # next_level) ts'" by blast
      with eq True show ?thesis unfolding hit by simp
    next
      case False
      from lookup_post_same [OF same, where a = a and alloc = False] False eq show ?thesis unfolding hit by simp
    qed
  qed
qed simp

subsection \<open>Construction, and how many entries there are\<close>

lemma floorLog2_page: "floorLog2 SIM_PAGE_SIZE = 12"
proof -
  have "unat (4096 :: u32) = 2 ^ 12" by simp
  from floorLog2_power [OF this] show ?thesis by (simp add: SIM_PAGE_SIZE_def)
qed

lemma TLB_base:
  assumes "TLB env name sz assoc = Inr t"
  shows "CacheBase (name @ ''_cache'') sz assoc SIM_PAGE_SIZE HASH_MASK None = Inr (c_base (tlb_cache t))"
  using assms by (auto simp: TLB_def Cache_def bindE_Inr_iff)

lemma CacheBase_fields:
  assumes "CacheBase name sz assoc bs h ahl = Inr cb"
  shows "m_associativity cb = assoc" and "m_blocksize cb = bs" and "m_log_blocksize cb = nat (floorLog2 bs)"
    and "m_hash cb = h" and "m_num_sets cb = ucast ((k_KILO * ucast sz) div ucast (assoc * bs))"
  using assms by (auto simp: CacheBase_def Let_def split: if_splits)

lemma Cache_fields:
  assumes "Cache env name sz assoc bs pol ty h fi ahl = Inr c"
  shows "mapE (createCacheSet env pol ty (unat (m_associativity (c_base c))) (unat (m_blocksize (c_base c))))
      [0..<unat (m_num_sets (c_base c))] = Inr (c_sets c)"
    and "c_fault c = fi" and "c_set_info c = createCacheSetInfo pol (unat (m_associativity (c_base c)))"
  using assms by (auto simp: Cache_def bindE_Inr_iff)

lemma TLB_ok:
  assumes "TLB env name sz assoc = Inr t" and "0 < unat assoc" and "unat assoc \<le> 256"
    and "m_num_sets (c_base (tlb_cache t)) \<noteq> 0" and "\<not> env_fault env"
  shows "tlb_ok t \<and> tlb_pages t = {} \<and> cache_unique (tlb_cache t)"
proof -
  from assms(1) have c: "Cache env (name @ ''_cache'') sz assoc SIM_PAGE_SIZE ''lru'' PR_L1_CACHE HASH_MASK None None
      = Inr (tlb_cache t)" by (auto simp: TLB_def bindE_Inr_iff)
  note cb = CacheBase_fields [OF TLB_base [OF assms(1)]]
  have lg: "m_log_blocksize (c_base (tlb_cache t)) = 12" using cb(3) by (simp add: floorLog2_page)
  have lru: "parsePolicyType ''lru'' = Some LRU" by (simp add: parsePolicyType_def)
  have fits: "policy_fits env ''lru'' (unat assoc)" using assms(2,3) by (simp add: policy_fits_def lru)
  obtain sets where sets: "mapE (createCacheSet env ''lru'' PR_L1_CACHE (unat assoc) (unat SIM_PAGE_SIZE))
      [0..<unat (m_num_sets (c_base (tlb_cache t)))] = Inr sets"
    and f: "c_sets (tlb_cache t) = sets" "c_fault (tlb_cache t) = None"
      "c_set_info (tlb_cache t) = createCacheSetInfo ''lru'' (unat assoc)"
    using Cache_fields [OF c] cb(1,2) by simp
  have s: "is_lru (cs_repl x) \<and> cs_data x = None \<and> cs_blocksize x = unat SIM_PAGE_SIZE" if "x \<in> set sets" for x
  proof -
    from that obtain i where "i < length sets" "x = sets ! i" by (metis in_set_conv_nth)
    with mapE_Inr [OF sets] have cs: "createCacheSet env ''lru'' PR_L1_CACHE (unat assoc) (unat SIM_PAGE_SIZE)
        ([0..<unat (m_num_sets (c_base (tlb_cache t)))] ! i) = Inr x" by auto
    have "cs_data x = None"
      using cs assms(5) by (auto simp: createCacheSet_def lru CacheSet_def)
    with createCacheSet_Inr [OF cs fits] lru show ?thesis by simp
  qed
  have "lru_live (tlb_cache t)"
    using s f cb(1,2) by (auto simp: lru_live_def createCacheSetInfo_def lru set_info_init_def SIM_PAGE_SIZE_def)
  with Cache_Inr [OF c fits assms(4)] lg show ?thesis by (simp add: tlb_ok_def tlb_pages_def)
qed

text \<open>The size is passed on as a number of kilobytes, so a page of 4 KB takes four of it.\<close>

lemma TLB_entries:
  assumes "TLB env name sz assoc = Inr t" and "unat assoc < 2 ^ 19"
  shows "unat (m_num_sets (c_base (tlb_cache t))) = unat sz div (4 * unat assoc)"
proof -
  let ?p = "assoc * SIM_PAGE_SIZE"
  have p: "unat ?p = unat assoc * 4096"
    using unat_mult_lem [of assoc SIM_PAGE_SIZE] assms(2) by (simp add: SIM_PAGE_SIZE_def)
  have k: "unat (k_KILO * ucast sz) = 1024 * unat sz"
    using unat_mult_lem [of k_KILO "ucast sz :: u64"] unat_u32_less [of sz] by (simp add: k_KILO_def)
  have "unat ((k_KILO * ucast sz) div ucast ?p) = (1024 * unat sz) div (unat assoc * 4096)"
    unfolding unat_div k unat_ucast_u32_u64 p ..
  also have "(1024 * unat sz) div (unat assoc * 4096) = unat sz div (4 * unat assoc)"
    using div_mult_mult1 [of 1024 "unat sz" "4 * unat assoc"] by (simp add: mult.assoc mult.commute)
  finally have e: "unat ((k_KILO * ucast sz) div ucast ?p) = unat sz div (4 * unat assoc)" .
  have "unat sz div (4 * unat assoc) \<le> unat sz" by (rule div_le_dividend)
  also have "unat sz < 2 ^ 32" using unat_u32_less [of sz] by simp
  finally have "unat ((k_KILO * ucast sz) div ucast ?p) < 2 ^ 32" unfolding e .
  from unat_ucast_u64_u32 [OF this] e CacheBase_fields(5) [OF TLB_base [OF assms(1)]] show ?thesis by simp
qed

end
