(* ===== verification/Tlb_Lru.thy ===== *)
theory Tlb_Lru
  imports Tlb
begin

text \<open>
  A single translation buffer refines a bounded recency list per set: it hits exactly the pages
  in the list of the page's set, and a lookup moves the page to the front of that list.
\<close>

definition home :: "cache_base \<Rightarrow> addr \<Rightarrow> nat" where
  "home cb a = (case splitAddress cb a of Inr (t, k) \<Rightarrow> unat k | Inl _ \<Rightarrow> 0)"

definition set_order :: "cache \<Rightarrow> nat \<Rightarrow> addr list" where
  "set_order c k = lru_order (c_sets c ! k)"

text \<open>No block is waiting for an upgrade, so every way can be replaced.\<close>

definition cache_quiet :: "cache \<Rightarrow> bool" where
  "cache_quiet c \<longleftrightarrow> (\<forall>s \<in> set (c_sets c). all_replaceable (cs_blocks s))"

lemma home_split:
  assumes "cache_wf c"
  obtains k where "splitAddress (c_base c) a = Inr (blk_tag c a, k)" and "unat k = home (c_base c) a"
    and "home (c_base c) a < length (c_sets c)" and "blk_tag c a \<noteq> -1"
    and "get_set c k = Inr (c_sets c ! home (c_base c) a)"
proof -
  obtain k where "splitAddress (c_base c) a = Inr (blk_tag c a, k)" "unat k < length (c_sets c)"
    "blk_tag c a \<noteq> -1" "get_set c k = Inr (c_sets c ! unat k)" by (rule cache_split [OF assms])
  then show ?thesis by (intro that [of k]) (auto simp: home_def)
qed

lemma lru_live_set:
  assumes "cache_wf c" and "lru_live c" and "k < length (c_sets c)"
  obtains bits where "cs_repl (c_sets c ! k) = Lru bits"
  using assms(2) nth_mem [OF assms(3)] is_lru_D that by (auto simp: lru_live_def)

lemma tag_access_sets:
  assumes wf: "cache_wf c" and l: "lru_live c" and acc: "tag_access a c = Inr (hit, c')"
  shows "(find_tag (blk_tag c a) (c_sets c ! home (c_base c) a) = None \<and> \<not> hit \<and> c' = c) \<or>
    (\<exists>i info s'. find_tag (blk_tag c a) (c_sets c ! home (c_base c) a) = Some i \<and> hit \<and>
       set_update_replacement i (c_set_info c, c_sets c ! home (c_base c) a) = Inr (info, s') \<and>
       c_sets c' = (c_sets c)[home (c_base c) a := s'])"
proof -
  obtain k where k: "splitAddress (c_base c) a = Inr (blk_tag c a, k)" "unat k = home (c_base c) a"
    "home (c_base c) a < length (c_sets c)" "get_set c k = Inr (c_sets c ! home (c_base c) a)"
    by (rule home_split [OF wf])
  let ?s = "c_sets c ! home (c_base c) a"
  have cf: "c_fault c = None" and d: "cs_data ?s = None"
    using l nth_mem [OF k(3)] by (auto simp: lru_live_def)
  show ?thesis
  proof (cases "find_tag (blk_tag c a) ?s")
    case None
    with acc k show ?thesis by (simp add: tag_access_def accessSingleLine_def splitAddress_offset_def)
  next
    case (Some i)
    from acc obtain info s' where
      "set_update_replacement i (c_set_info c, ?s) = Inr (info, s')"
      "hit" "c' = put_set (c\<lparr>c_set_info := info\<rparr>) k s'"
      unfolding tag_access_def accessSingleLine_def splitAddress_offset_def k(1,4) bindE_simps prod.case Let_def Some
        option.case fault_preRead_def cf read_line_def d
      by (auto simp: bindE_Inr_iff)
    with Some k(2) show ?thesis by auto
  qed
qed

lemma tag_fill_sets:
  assumes wf: "cache_wf c" and l: "lru_live c" and f: "tag_fill a c = Inr (e, c')"
  shows "\<exists>b evb ev evb' s'. set_insert b None evb False (c_sets c ! home (c_base c) a) = Inr (ev, evb', None, s') \<and>
    m_tag b = blk_tag c a \<and> isValid b \<and> m_cstate b = INVALID \<and> c_sets c' = (c_sets c)[home (c_base c) a := s']"
proof -
  obtain k where k: "splitAddress (c_base c) a = Inr (blk_tag c a, k)" "unat k = home (c_base c) a"
    "home (c_base c) a < length (c_sets c)" "blk_tag c a \<noteq> -1" "get_set c k = Inr (c_sets c ! home (c_base c) a)"
    by (rule home_split [OF wf])
  have cf: "c_fault c = None" using l by (simp add: lru_live_def)
  obtain b where b: "create_block (c_cache_type c) = Inr b"
    using wf by (cases "c_cache_type c") (auto simp: cache_wf_def)
  have bits: "cs_data (c_sets c ! home (c_base c) a) = None"
    using l nth_mem [OF k(3)] by (auto simp: lru_live_def)
  from f obtain ev evb buf s' where
    ins: "set_insert (b\<lparr>m_tag := blk_tag c a\<rparr>) None (CacheBlockInfo BaseBlock (-1) INVALID 0) False
      (c_sets c ! home (c_base c) a) = Inr (ev, evb, buf, s')"
    and c': "c' = put_set c k s'"
    unfolding tag_fill_def insertSingleLine_def k(1,5) bindE_simps prod.case b cf option.case
    by (auto simp: bindE_Inr_iff)
  from ins bits have "buf = None" by (auto simp: set_insert_def bindE_Inr_iff Let_def)
  with ins c' k(2,4) create_block_Inr [OF b] show ?thesis
    by (intro exI [of _ "b\<lparr>m_tag := blk_tag c a\<rparr>"] exI [of _ "CacheBlockInfo BaseBlock (-1) INVALID 0"])
      (auto simp: isValid_def)
qed

lemma all_replaceable_insert:
  assumes "set_wf n s" and "set_insert b fill evb want s = Inr (ev, evb', buf, s')"
    and "all_replaceable (cs_blocks s)" and "m_cstate b \<noteq> SHARED_UPGRADING"
  shows "all_replaceable (cs_blocks s')"
  using assms(1,2)
proof (cases rule: set_insert_cases)
  case (1 i r)
  have "set (cs_blocks s') \<subseteq> insert (clone (cs_blocks s ! i) b) (set (cs_blocks s))"
    unfolding 1(5) by (rule set_update_subset_insert)
  with assms(3,4) show ?thesis by (auto simp: all_replaceable_def list_all_iff)
qed

definition lru_push :: "nat \<Rightarrow> addr \<Rightarrow> addr list \<Rightarrow> addr list" where
  "lru_push n t xs = take n (t # remove1 t xs)"

definition lru_ready :: "cache \<Rightarrow> bool" where
  "lru_ready c \<longleftrightarrow> cache_wf c \<and> lru_live c \<and> cache_unique c \<and> cache_quiet c"

lemma cache_quiet_put:
  assumes "cache_quiet c" and "c_sets c' = (c_sets c)[i := s]" and "all_replaceable (cs_blocks s)"
  shows "cache_quiet c'"
  using assms set_update_subset_insert [of "c_sets c" i s] by (auto simp: cache_quiet_def)

lemma lru_ready_set:
  assumes "lru_ready c" and "k < length (c_sets c)"
  shows "set_ok (unat (m_associativity (c_base c))) (c_sets c ! k) \<and> all_replaceable (cs_blocks (c_sets c ! k))"
  using assms cache_wf_set [of c k] nth_mem [OF assms(2)]
  by (auto simp: lru_ready_def set_ok_def cache_unique_def cache_quiet_def)

lemma touch_order:
  assumes r: "lru_ready c" and t: "tags.touch a c = Inr (hit, e, c')"
  shows "lru_ready c' \<and> c_base c' = c_base c \<and> (hit \<longleftrightarrow> blk_tag c a \<in> set (set_order c (home (c_base c) a))) \<and>
    (\<forall>k. set_order c' k = (if k = home (c_base c) a
       then lru_push (unat (m_associativity (c_base c))) (blk_tag c a) (set_order c k) else set_order c k))"
proof -
  let ?h = "home (c_base c) a" and ?n = "unat (m_associativity (c_base c))" and ?t = "blk_tag c a"
  let ?s = "c_sets c ! ?h"
  have wf: "cache_wf c" and l: "lru_live c" and u: "cache_unique c" and q: "cache_quiet c"
    using r by (auto simp: lru_ready_def)
  obtain k where k: "?h < length (c_sets c)" "?t \<noteq> -1" by (rule home_split [OF wf, of a])
  from lru_ready_set [OF r k(1)] have ok: "set_ok ?n ?s" and rep: "all_replaceable (cs_blocks ?s)" by auto
  obtain bits where bits: "cs_repl ?s = Lru bits" by (rule lru_live_set [OF wf l k(1)])
  have mem: "?t \<in> set (lru_order ?s) \<longleftrightarrow> find_tag ?t ?s \<noteq> None"
    using set_lru_order [OF ok bits] find_tag_None_iff [OF k(2), of ?s] by simp
  obtain hit1 c1 where a1: "tag_access a c = Inr (hit1, c1)" "lru_live c1"
    using tag_access_live [OF wf l] by blast
  note s1 = tag_access_spec [OF wf a1(1)]
  from tag_access_sets [OF wf l a1(1)] show ?thesis
  proof (elim disjE exE conjE)
    assume nf: "find_tag ?t ?s = None" and "\<not> hit1" and c1: "c1 = c"
    with t a1 obtain e' where f: "tag_fill a c = Inr (e', c')" "\<not> hit"
      by (auto simp: tags.touch_def bindE_Inr_iff)
    from tag_fill_live [OF wf l, of a] f(1) have l': "lru_live c'" by simp
    from tag_fill_sets [OF wf l f(1)] obtain b evb ev evb' s' where
      ins: "set_insert b None evb False ?s = Inr (ev, evb', None, s')" "m_tag b = ?t" "isValid b" "m_cstate b = INVALID"
      and c': "c_sets c' = (c_sets c)[?h := s']" by blast
    have notin: "?t \<notin> cache_lines c" using s1 \<open>\<not> hit1\<close> by simp
    have "c_base c' = c_base c" using f(1) insertSingleLine_wf [OF wf] unfolding tag_fill_of by blast
    moreover have "cache_wf c'" using tags.fill_spec [OF wf f(1)] by simp
    moreover have "cache_unique c'" using tags.fill_unique [OF wf u notin f(1)] by simp
    moreover have "cache_quiet c'"
      by (rule cache_quiet_put [OF q c' all_replaceable_insert [OF set_ok_wf [OF ok] ins(1) rep]]) (simp add: ins(4))
    moreover have "lru_order s' = lru_push ?n ?t (lru_order ?s)"
      using lru_order_insert [OF ok bits rep ins(1,3)] mem nf by (simp add: lru_push_def ins(2) remove1_idem)
    ultimately show ?thesis
      using l' c' k(1) mem nf f(2) by (simp add: lru_ready_def set_order_def nth_list_update)
  next
    fix i info s'
    assume fd: "find_tag ?t ?s = Some i" and "hit1"
      and up: "set_update_replacement i (c_set_info c, ?s) = Inr (info, s')" and c1: "c_sets c1 = (c_sets c)[?h := s']"
    with t a1 have c': "c' = c1" "hit" by (auto simp: tags.touch_def)
    from find_tag_Some [OF fd] ok have i: "i < ?n" by (simp add: set_ok_def set_wf_def)
    have bl: "cs_blocks s' = cs_blocks ?s" using set_wf_update_replacement [OF set_ok_wf [OF ok] i up] by simp
    have quiet: "cache_quiet c1" by (rule cache_quiet_put [OF q c1]) (simp add: bl rep)
    have len: "length (lru_order ?s) \<le> ?n"
      using lru_set_ok(5) [OF ok bits] length_filter_le [of "\<lambda>i. isValid (cs_blocks ?s ! i)" "recency bits"]
      by (simp add: lru_order_def bits)
    have "lru_order s' = ?t # remove1 ?t (lru_order ?s)" by (rule lru_order_touch [OF ok bits fd k(2) up])
    also have "\<dots> = lru_push ?n ?t (lru_order ?s)"
    proof -
      have m: "?t \<in> set (lru_order ?s)" using mem fd by simp
      then have "0 < length (lru_order ?s)" by (rule length_pos_if_in_set)
      with m len have "length (?t # remove1 ?t (lru_order ?s)) \<le> ?n" by (simp add: length_remove1)
      then show ?thesis unfolding lru_push_def by (rule take_all [symmetric])
    qed
    finally have "lru_order s' = lru_push ?n ?t (lru_order ?s)" .
    then show ?thesis
      using quiet s1 a1(2) u c1 k(1) mem fd c' by (simp add: lru_ready_def set_order_def nth_list_update)
  qed
qed

subsection \<open>A sequence of lookups\<close>

fun tlb_run :: "addr list \<Rightarrow> tlb \<Rightarrow> (bool list \<times> tlb) res" where
  "tlb_run [] t = Inr ([], t)"
| "tlb_run (a # as) t = bindE (tlb_lookup a True [t]) (\<lambda>(hit, ts).
     bindE (tlb_run as (hd ts)) (\<lambda>(hits, t). Inr (hit # hits, t)))"

fun lru_run :: "nat \<Rightarrow> (addr \<Rightarrow> nat) \<Rightarrow> addr list \<Rightarrow> (nat \<Rightarrow> addr list) \<Rightarrow> bool list" where
  "lru_run n h [] ord = []"
| "lru_run n h (a # as) ord =
     (page a \<in> set (ord (h a))) # lru_run n h as (ord (h a := lru_push n (page a) (ord (h a))))"

lemma tlb_lookup_single:
  "tlb_lookup a True [t] = bindE (tags.touch a (tlb_cache t)) (\<lambda>(hit, e, c).
     Inr (hit, [t\<lparr>tlb_cache := c, tlb_access := tlb_access t + 1,
       tlb_miss := (if hit then tlb_miss t else tlb_miss t + 1)\<rparr>]))"
proof (cases "accessSingleLine a LOAD None 0 True (tlb_cache t)")
  case (Inr x)
  obtain p y c where x: "x = (p, y, c)" by (cases x) auto
  show ?thesis
  proof (cases "p = None")
    case True
    then show ?thesis
      by (cases "insertSingleLine a None (CacheBlockInfo BaseBlock (-1) INVALID 0) False c")
        (auto simp: tags.touch_def tag_access_def tag_fill_def Inr x)
  qed (simp add: tags.touch_def tag_access_def Inr x)
qed (simp add: tags.touch_def tag_access_def)

definition tlb_ready :: "tlb \<Rightarrow> bool" where
  "tlb_ready t \<longleftrightarrow> lru_ready (tlb_cache t) \<and> m_log_blocksize (c_base (tlb_cache t)) = 12"

lemma tlb_lookup_step:
  assumes "tlb_ready t"
  shows "\<exists>t'. tlb_lookup a True [t] = Inr (page a \<in> set (set_order (tlb_cache t) (home (c_base (tlb_cache t)) a)), [t']) \<and>
    tlb_ready t' \<and> c_base (tlb_cache t') = c_base (tlb_cache t) \<and>
    set_order (tlb_cache t') = (set_order (tlb_cache t))(home (c_base (tlb_cache t)) a :=
      lru_push (unat (m_associativity (c_base (tlb_cache t)))) (page a)
        (set_order (tlb_cache t) (home (c_base (tlb_cache t)) a)))"
proof -
  have r: "lru_ready (tlb_cache t)" and b: "m_log_blocksize (c_base (tlb_cache t)) = 12"
    using assms by (auto simp: tlb_ready_def)
  have "cache_wf (tlb_cache t)" "lru_live (tlb_cache t)" using r by (auto simp: lru_ready_def)
  from lru_tags.touch_live [OF this, of a] obtain hit e c' where t: "tags.touch a (tlb_cache t) = Inr (hit, e, c')" by blast
  have pg: "blk_tag (tlb_cache t) a = page a" using b by (simp add: blk_tag_def page_def)
  from touch_order [OF r t] b pg t show ?thesis
    unfolding tlb_lookup_single by (auto simp: tlb_ready_def fun_eq_iff)
qed

lemma tlb_run_refines:
  assumes "tlb_ready t"
  shows "\<exists>t'. tlb_run as t = Inr (lru_run (unat (m_associativity (c_base (tlb_cache t))))
      (home (c_base (tlb_cache t))) as (set_order (tlb_cache t)), t') \<and> tlb_ready t'"
  using assms
proof (induction as arbitrary: t)
  case (Cons a as)
  from tlb_lookup_step [OF Cons.prems, of a] obtain t1 where t1:
    "tlb_lookup a True [t] = Inr (page a \<in> set (set_order (tlb_cache t) (home (c_base (tlb_cache t)) a)), [t1])"
    "tlb_ready t1" "c_base (tlb_cache t1) = c_base (tlb_cache t)"
    "set_order (tlb_cache t1) = (set_order (tlb_cache t))(home (c_base (tlb_cache t)) a :=
      lru_push (unat (m_associativity (c_base (tlb_cache t)))) (page a)
        (set_order (tlb_cache t) (home (c_base (tlb_cache t)) a)))" by blast
  from Cons.IH [OF t1(2)] obtain t2 where t2: "tlb_run as t1 = Inr (lru_run (unat (m_associativity (c_base (tlb_cache t1))))
      (home (c_base (tlb_cache t1))) as (set_order (tlb_cache t1)), t2)" "tlb_ready t2" by blast
  show ?case
    by (rule exI [of _ t2]) (use t1(1) t2 in \<open>simp add: t1(3,4)\<close>)
qed simp

lemma TLB_ready:
  assumes "TLB env name sz assoc = Inr t" and "0 < unat assoc" and "unat assoc \<le> 256"
    and "m_num_sets (c_base (tlb_cache t)) \<noteq> 0" and "\<not> env_fault env"
  shows "tlb_ready t \<and> (\<forall>k < length (c_sets (tlb_cache t)). set_order (tlb_cache t) k = [])"
proof -
  from TLB_ok [OF assms] have ok: "tlb_ok t" "tlb_pages t = {}" "cache_unique (tlb_cache t)" by auto
  have inv: "\<not> isValid b" if "s \<in> set (c_sets (tlb_cache t))" "b \<in> set (cs_blocks s)" for s b
    using ok(2) that by (auto simp: tlb_pages_def cache_lines_def set_tags_def)
  from assms(1) have c: "Cache env (name @ ''_cache'') sz assoc SIM_PAGE_SIZE ''lru'' PR_L1_CACHE HASH_MASK None None
      = Inr (tlb_cache t)" by (auto simp: TLB_def bindE_Inr_iff)
  have st: "m_cstate b = INVALID" if s: "s \<in> set (c_sets (tlb_cache t))" and b: "b \<in> set (cs_blocks s)" for s b
  proof -
    from s obtain i where i: "i < length (c_sets (tlb_cache t))" "s = c_sets (tlb_cache t) ! i" by (metis in_set_conv_nth)
    with mapE_Inr [OF Cache_fields(1) [OF c]] obtain k n m where "createCacheSet env ''lru'' PR_L1_CACHE n m k = Inr s"
      by auto
    then have "CacheSet env PR_L1_CACHE n m (Lru (lru_init n)) = Inr s"
      by (simp add: createCacheSet_def parsePolicyType_def)
    with b show ?thesis by (auto simp: CacheSet_def CacheBlockInfo_def)
  qed
  have "cache_quiet (tlb_cache t)" using st by (auto simp: cache_quiet_def all_replaceable_def list_all_iff)
  moreover have "set_order (tlb_cache t) k = []" if k: "k < length (c_sets (tlb_cache t))" for k
  proof -
    from k have m: "c_sets (tlb_cache t) ! k \<in> set (c_sets (tlb_cache t))" by simp
    have wf: "cache_wf (tlb_cache t)" "lru_live (tlb_cache t)" using ok(1) by (auto simp: tlb_ok_def)
    obtain bits where bits: "cs_repl (c_sets (tlb_cache t) ! k) = Lru bits" by (rule lru_live_set [OF wf k])
    have s: "set_ok (unat (m_associativity (c_base (tlb_cache t)))) (c_sets (tlb_cache t) ! k)"
      using cache_wf_set [OF wf(1) k] ok(3) m by (simp add: set_ok_def cache_unique_def)
    have "set_tags (c_sets (tlb_cache t) ! k) = {}" using inv [OF m] by (auto simp: set_tags_def)
    with set_lru_order [OF s bits] show ?thesis by (simp add: set_order_def)
  qed
  ultimately show ?thesis using ok by (simp add: tlb_ready_def lru_ready_def tlb_ok_def)
qed

end
