(* ===== verification/Sim_Time.thy ===== *)
theory Sim_Time
  imports Sim_Utils
begin

text \<open>
  common/misc/subsecond_time.h: simulated time is a 64-bit number of femtoseconds that wraps; a
  component has a period, a latency is a number of its cycles, a bandwidth gives the time to
  transmit a number of bits.
\<close>

definition FS_1 :: u64 where "FS_1 = 1"
definition PS_1 :: u64 where "PS_1 = FS_1 * 1000"
definition NS_1 :: u64 where "NS_1 = PS_1 * 1000"
definition US_1 :: u64 where "US_1 = NS_1 * 1000"
definition MS_1 :: u64 where "MS_1 = US_1 * 1000"
definition SEC_1 :: u64 where "SEC_1 = MS_1 * 1000"

definition TimeNS :: "u64 \<Rightarrow> time" where "TimeNS ns = ns * NS_1"
definition MaxTime :: time where "MaxTime = 0xffffffffffffffff"
definition getPS :: "time \<Rightarrow> u64" where "getPS t = t div PS_1"
definition getNS :: "time \<Rightarrow> u64" where "getNS t = t div NS_1"

text \<open>Division by zero, which traps, is an error.\<close>

definition divE :: "u64 \<Rightarrow> u64 \<Rightarrow> u64 res" where
  "divE a b = (if b = 0 then Inl (Out_Of_Range ''division by zero'') else Inr (a div b))"

definition divideRounded :: "time \<Rightarrow> time \<Rightarrow> u64 res" where
  "divideRounded lhs rhs = divE (lhs + ((rhs div 2) + 1)) rhs"

subsection \<open>Periods and cycles\<close>

definition fromFreqHz :: "u64 \<Rightarrow> time res" where
  "fromFreqHz freq_in_hz = divE SEC_1 freq_in_hz"

definition getPeriodInFreqMHz :: "time \<Rightarrow> u64 res" where
  "getPeriodInFreqMHz period = divE US_1 period"

definition cyclesToSubsecondTime :: "time \<Rightarrow> u64 \<Rightarrow> time" where
  "cyclesToSubsecondTime period cycles = period * cycles"

definition subsecondTimeToCycles :: "time \<Rightarrow> time \<Rightarrow> u64 res" where
  "subsecondTimeToCycles period t = divE t period"

subsection \<open>Latency and bandwidth\<close>

record latency =
  lat_period :: time
  lat_cycles :: u64

definition getLatency :: "latency \<Rightarrow> time" where
  "getLatency l = lat_period l * lat_cycles l"

text \<open>\<open>ComponentBandwidth\<close> in bits per microsecond, \<open>ComponentBandwidthPerCycle\<close> in bits per cycle.\<close>

definition bw_getLatency :: "u64 \<Rightarrow> u64 \<Rightarrow> time res" where
  "bw_getLatency bw_in_bits_per_us bits_transmitted = divE (bits_transmitted * US_1) bw_in_bits_per_us"

definition bw_getRoundedLatency :: "u64 \<Rightarrow> u64 \<Rightarrow> time res" where
  "bw_getRoundedLatency bw_in_bits_per_us bits_transmitted =
     divE (bits_transmitted * US_1 + US_1 div 2) bw_in_bits_per_us"

record bandwidth_per_cycle =
  bpc_period :: time
  bpc_bits :: u64

definition bpc_isInfinite :: "bandwidth_per_cycle \<Rightarrow> bool" where
  "bpc_isInfinite b \<longleftrightarrow> bpc_bits b = 0"

definition bpc_getLatency :: "bandwidth_per_cycle \<Rightarrow> u64 \<Rightarrow> time res" where
  "bpc_getLatency b bits_transmitted = divE (bits_transmitted * bpc_period b) (bpc_bits b)"

definition bpc_getRoundedLatency :: "bandwidth_per_cycle \<Rightarrow> u64 \<Rightarrow> time res" where
  "bpc_getRoundedLatency b bits_transmitted =
     divE (bits_transmitted * bpc_period b + bpc_period b div 2) (bpc_bits b)"

subsection \<open>ComponentTime\<close>

text \<open>The period is a pointer that two times may share; here it is its number and its value.\<close>

record component_time =
  ct_period_id :: nat
  ct_period :: time
  ct_time :: time

definition addCycleLatency :: "u64 \<Rightarrow> component_time \<Rightarrow> component_time" where
  "addCycleLatency num_cycles t = t\<lparr>ct_time := ct_time t + ct_period t * num_cycles\<rparr>"

definition addLatency :: "time \<Rightarrow> component_time \<Rightarrow> component_time" where
  "addLatency time_to_add t = t\<lparr>ct_time := ct_time t + time_to_add\<rparr>"

definition addLatency_time :: "component_time \<Rightarrow> component_time \<Rightarrow> component_time res" where
  "addLatency_time time_to_add t = assertE (ct_period_id time_to_add = ct_period_id t) ''m_period''
     (Inr (t\<lparr>ct_time := ct_time t + ct_time time_to_add\<rparr>))"

definition getLatencyGenerator :: "component_time \<Rightarrow> component_time" where
  "getLatencyGenerator t = t\<lparr>ct_time := 0\<rparr>"

definition getCycleCount :: "component_time \<Rightarrow> u64 res" where
  "getCycleCount t = divideRounded (ct_time t) (ct_period t)"

subsection \<open>Lemmas\<close>

lemma divE_Inr_iff: "divE a b = Inr q \<longleftrightarrow> b \<noteq> 0 \<and> q = a div b"
  by (auto simp: divE_def)

lemma unat_mult_u64: "unat a * unat b < 2 ^ 64 \<Longrightarrow> unat (a * b :: u64) = unat a * unat b"
  using unat_mult_lem [of a b] by simp

lemma unat_add_u64: "unat a + unat b < 2 ^ 64 \<Longrightarrow> unat (a + b :: u64) = unat a + unat b"
  using unat_add_lem [of a b] by simp

lemma unat_sub_u64: "(b :: u64) \<le> a \<Longrightarrow> unat (a - b) = unat a - unat b"
  by (simp add: unat_sub)

lemma cycles_roundtrip:
  assumes "p \<noteq> 0" and "unat p * unat n < 2 ^ 64"
  shows "subsecondTimeToCycles p (cyclesToSubsecondTime p n) = Inr n"
proof -
  have "unat (p * n div p) = unat n"
    unfolding unat_div unat_mult_u64 [OF assms(2)] using assms(1) by (simp add: unat_eq_zero)
  then show ?thesis
    using assms(1) by (simp add: subsecondTimeToCycles_def cyclesToSubsecondTime_def divE_def word_unat_eq_iff)
qed

text \<open>Rounding adds half a period and one: a whole number of periods of at least 3 fs is exact.\<close>

lemma unat_divideRounded:
  assumes "divideRounded l r = Inr q" and "unat l + unat r + 1 < 2 ^ 64"
  shows "unat q = (unat l + (unat r div 2 + 1)) div unat r"
proof -
  have h: "unat (r div 2 + 1) = unat r div 2 + 1"
    using unat_add_u64 [of "r div 2" 1] assms(2) by (simp add: unat_div)
  then have "unat (l + (r div 2 + 1)) = unat l + (unat r div 2 + 1)"
    using unat_add_u64 [of l "r div 2 + 1"] assms(2) by simp
  with assms(1) show ?thesis by (auto simp: divideRounded_def divE_Inr_iff unat_div)
qed

end
