(* ===== verification/Moving_Average.thy ===== *)
theory Moving_Average
  imports Sim_Time
begin

text \<open>
  common/misc/modulo_num.cc (counters modulo a maximum) and common/misc/moving_average.h (a circular
  window of the last samples with their mean or median), and the refinement of the window to
  the list of the last samples.
\<close>

subsection \<open>ModuloNum\<close>

record modulo_num =
  mn_value :: u32
  mn_max :: u32

definition ModuloNum :: "u32 \<Rightarrow> u32 \<Rightarrow> modulo_num" where
  "ModuloNum max_value v = \<lparr>mn_value = v, mn_max = max_value\<rparr>"

definition mn_add :: "modulo_num \<Rightarrow> modulo_num \<Rightarrow> modulo_num res" where
  "mn_add a num = assertE (mn_max a = mn_max num) ''m_max_value''
     (if mn_max a = 0 then Inl (Out_Of_Range ''division by zero'')
      else Inr \<lparr>mn_value = (mn_value a + mn_value num) mod mn_max a, mn_max = mn_max a\<rparr>)"

definition mn_sub :: "modulo_num \<Rightarrow> modulo_num \<Rightarrow> modulo_num res" where
  "mn_sub a num = assertE (mn_max a = mn_max num) ''m_max_value''
     (Inr \<lparr>mn_value = (if mn_value a \<ge> mn_value num then mn_value a - mn_value num
                       else mn_max a - mn_value num + mn_value a), mn_max = mn_max a\<rparr>)"

definition mn_add_value :: "modulo_num \<Rightarrow> u32 \<Rightarrow> modulo_num res" where
  "mn_add_value a v = (if mn_max a = 0 then Inl (Out_Of_Range ''division by zero'')
     else mn_add a \<lparr>mn_value = v mod mn_max a, mn_max = mn_max a\<rparr>)"

definition mn_sub_value :: "modulo_num \<Rightarrow> u32 \<Rightarrow> modulo_num res" where
  "mn_sub_value a v = (if mn_max a = 0 then Inl (Out_Of_Range ''division by zero'')
     else mn_sub a \<lparr>mn_value = v mod mn_max a, mn_max = mn_max a\<rparr>)"

definition mn_eq :: "modulo_num \<Rightarrow> modulo_num \<Rightarrow> bool" where
  "mn_eq a num \<longleftrightarrow> mn_value a = mn_value num \<and> mn_max a = mn_max num"

subsection \<open>MovingAverage\<close>

datatype avg_type = ARITHMETIC_MEAN | GEOMETRIC_MEAN | MEDIAN

definition parseAvgType :: "string \<Rightarrow> avg_type res" where
  "parseAvgType s =
     (if s = ''arithmetic_mean'' then Inr ARITHMETIC_MEAN
      else if s = ''geometric_mean'' then Inr GEOMETRIC_MEAN
      else if s = ''median'' then Inr MEDIAN
      else Inl (Log_Error ''Unsupported Average Type''))"

record moving_average =
  ma_type :: avg_type
  m_num_list :: "time list"
  m_max_window_size :: u32
  m_curr_window_front :: modulo_num
  m_curr_window_back :: modulo_num
  ma_sum :: time

definition createAvgType :: "avg_type \<Rightarrow> u32 \<Rightarrow> moving_average" where
  "createAvgType ty max_window_size =
     \<lparr>ma_type = ty, m_num_list = replicate (unat (max_window_size + 1)) 0,
      m_max_window_size = max_window_size,
      m_curr_window_front = ModuloNum (max_window_size + 1) 0,
      m_curr_window_back = ModuloNum (max_window_size + 1) 0, ma_sum = 0\<rparr>"

definition num_at :: "moving_average \<Rightarrow> u32 \<Rightarrow> time res" where
  "num_at ma i = (if unat i < length (m_num_list ma) then Inr (m_num_list ma ! unat i)
     else Inl (Out_Of_Range ''m_num_list''))"

definition addToWindow :: "time \<Rightarrow> moving_average \<Rightarrow> moving_average res" where
  "addToWindow next_num ma =
     (if unat (mn_value (m_curr_window_back ma)) < length (m_num_list ma) then
        bindE (mn_add_value (m_curr_window_back ma) 1) (\<lambda>back.
        bindE (if mn_eq back (m_curr_window_front ma)
               then mn_add_value (m_curr_window_front ma) 1 else Inr (m_curr_window_front ma)) (\<lambda>front.
        Inr (ma\<lparr>m_num_list := (m_num_list ma)[unat (mn_value (m_curr_window_back ma)) := next_num],
                m_curr_window_back := back, m_curr_window_front := front\<rparr>)))
      else Inl (Out_Of_Range ''m_num_list''))"

definition window_size :: "moving_average \<Rightarrow> u32 res" where
  "window_size ma = bindE (mn_sub (m_curr_window_back ma) (m_curr_window_front ma)) (\<lambda>d. Inr (mn_value d))"

definition ma_update :: "time \<Rightarrow> moving_average \<Rightarrow> moving_average res" where
  "ma_update next_num ma =
     (if ma_type ma = ARITHMETIC_MEAN then
        bindE (window_size ma) (\<lambda>curr_window_size.
        bindE (if curr_window_size = m_max_window_size ma
               then bindE (num_at ma (mn_value (m_curr_window_front ma))) (\<lambda>old. Inr (ma_sum ma - old))
               else Inr (ma_sum ma)) (\<lambda>sum.
        addToWindow next_num (ma\<lparr>ma_sum := sum + next_num\<rparr>)))
      else addToWindow next_num ma)"

text \<open>The samples from front to back, as the loop of the geometric mean visits them.\<close>

definition window :: "moving_average \<Rightarrow> time list" where
  "window ma = (case window_size ma of
       Inr n \<Rightarrow> map (\<lambda>k. m_num_list ma ! ((unat (mn_value (m_curr_window_front ma)) + k) mod length (m_num_list ma))) [0..<unat n]
     | Inl _ \<Rightarrow> [])"

text \<open>\<open>root x n\<close> stands for \<open>pow(x, 1.0 / n)\<close> on doubles.\<close>

definition ma_compute :: "(u64 \<Rightarrow> u32 \<Rightarrow> u64) \<Rightarrow> moving_average \<Rightarrow> time res" where
  "ma_compute root ma = bindE (window_size ma) (\<lambda>curr_window_size.
     case ma_type ma of
       ARITHMETIC_MEAN \<Rightarrow> divE (ma_sum ma) (ucast curr_window_size)
     | GEOMETRIC_MEAN \<Rightarrow> Inr (root (fold (\<lambda>x g. g * x) (window ma) 1) curr_window_size)
     | MEDIAN \<Rightarrow> bindE (mn_add_value (m_curr_window_front ma) (curr_window_size div 2))
         (\<lambda>i. num_at ma (mn_value i)))"

definition ma_compute_next :: "(u64 \<Rightarrow> u32 \<Rightarrow> u64) \<Rightarrow> time \<Rightarrow> moving_average \<Rightarrow> (time \<times> moving_average) res" where
  "ma_compute_next root next_num ma =
     bindE (ma_update next_num ma) (\<lambda>ma. bindE (ma_compute root ma) (\<lambda>t. Inr (t, ma)))"

subsection \<open>The window is the list of the last samples\<close>

definition ma_ok :: "moving_average \<Rightarrow> bool" where
  "ma_ok ma \<longleftrightarrow> (let n = unat (m_max_window_size ma) + 1 in
     1 < n \<and> n < 2 ^ 31 \<and> length (m_num_list ma) = n \<and>
     unat (mn_max (m_curr_window_front ma)) = n \<and> unat (mn_max (m_curr_window_back ma)) = n \<and>
     unat (mn_value (m_curr_window_front ma)) < n \<and> unat (mn_value (m_curr_window_back ma)) < n \<and>
     (ma_type ma = ARITHMETIC_MEAN \<longrightarrow> ma_sum ma = sum_list (window ma)))"

lemma unat_add_u32: "unat a + unat b < 2 ^ 32 \<Longrightarrow> unat (a + b :: u32) = unat a + unat b"
  using unat_add_lem [of a b] by simp

lemma mn_add_value_Inr:
  assumes "unat (mn_value a) < unat (mn_max a)" and "unat (mn_max a) < 2 ^ 31"
  shows "\<exists>c. mn_add_value a v = Inr c \<and> mn_max c = mn_max a \<and>
    unat (mn_value c) = (unat (mn_value a) + unat v) mod unat (mn_max a)"
proof -
  have nz: "mn_max a \<noteq> 0" using assms(1) by auto
  let ?c = "\<lparr>mn_value = (mn_value a + v mod mn_max a) mod mn_max a, mn_max = mn_max a\<rparr>"
  have "unat (v mod mn_max a) < unat (mn_max a)" by (rule unat_mod_less [OF nz])
  with assms have "unat (mn_value a) + unat (v mod mn_max a) < 2 ^ 32" by simp
  from unat_add_u32 [OF this]
  have "unat (mn_value a + v mod mn_max a) = unat (mn_value a) + unat v mod unat (mn_max a)"
    by (simp only: unat_mod)
  then have "unat (mn_value ?c) = (unat (mn_value a) + unat v) mod unat (mn_max a)"
    by (simp add: unat_mod mod_add_right_eq)
  moreover have "mn_add_value a v = Inr ?c" using nz by (simp add: mn_add_value_def mn_add_def)
  ultimately show ?thesis by (intro exI [of _ ?c]) simp
qed

text \<open>The number of steps from front to back.\<close>

definition cyc_dist :: "nat \<Rightarrow> nat \<Rightarrow> nat \<Rightarrow> nat" where
  "cyc_dist n f b = (if f \<le> b then b - f else n - f + b)"

lemma window_size_Inr:
  assumes "ma_ok ma"
  shows "\<exists>d. window_size ma = Inr d \<and> unat d = cyc_dist (length (m_num_list ma))
    (unat (mn_value (m_curr_window_front ma))) (unat (mn_value (m_curr_window_back ma)))"
proof -
  let ?f = "mn_value (m_curr_window_front ma)" and ?b = "mn_value (m_curr_window_back ma)"
  let ?m = "mn_max (m_curr_window_back ma)"
  have m: "mn_max (m_curr_window_back ma) = mn_max (m_curr_window_front ma)"
    using assms by (auto simp: ma_ok_def Let_def word_unat_eq_iff)
  have b: "unat ?f < unat ?m" "unat ?b < unat ?m" "unat ?m = length (m_num_list ma)" "unat ?m < 2 ^ 31"
    using assms by (auto simp: ma_ok_def Let_def)
  have 1: "unat (?b - ?f) = unat ?b - unat ?f" if "?f \<le> ?b" using that by (simp add: unat_sub)
  have "?f \<le> ?m" using b(1) by (simp add: word_le_nat_alt)
  then have s: "unat (?m - ?f) = unat ?m - unat ?f" by (simp add: unat_sub)
  then have 2: "unat (?m - ?f + ?b) = unat ?m - unat ?f + unat ?b"
    using unat_add_u32 [of "?m - ?f" ?b] b by simp
  show ?thesis
    using 1 2 b(3) m by (auto simp: window_size_def mn_sub_def cyc_dist_def word_le_nat_alt)
qed

lemma cyc_dist_less: "f < n \<Longrightarrow> b < n \<Longrightarrow> cyc_dist n f b < n"
  by (auto simp: cyc_dist_def)

lemma cyc_dist_pos: "f < n \<Longrightarrow> b < n \<Longrightarrow> (f + cyc_dist n f b) mod n = b"
  by (auto simp: cyc_dist_def)

lemma cyc_dist_unique: "f < n \<Longrightarrow> k < n \<Longrightarrow> cyc_dist n f ((f + k) mod n) = k"
  by (cases "f + k < n") (auto simp: cyc_dist_def mod_if)

lemma cyc_dist_inj:
  fixes f j k n :: nat
  assumes "f < n" and "j < n" and "k < n" and "(f + j) mod n = (f + k) mod n"
  shows "j = k"
  using cyc_dist_unique [OF assms(1,2)] cyc_dist_unique [OF assms(1,3)] assms(4) by metis

lemma window_sum [simp]: "window (ma\<lparr>ma_sum := s\<rparr>) = window ma"
  by (simp add: window_def window_size_def split: sum.split)

definition win :: "nat \<Rightarrow> nat \<Rightarrow> time list \<Rightarrow> time list" where
  "win f d xs = map (\<lambda>k. xs ! ((f + k) mod length xs)) [0..<d]"

lemma window_win:
  assumes "ma_ok ma"
  shows "window ma = win (unat (mn_value (m_curr_window_front ma)))
    (cyc_dist (length (m_num_list ma)) (unat (mn_value (m_curr_window_front ma)))
      (unat (mn_value (m_curr_window_back ma)))) (m_num_list ma)"
  using window_size_Inr [OF assms] by (auto simp: window_def win_def)

lemma win_push:
  assumes "f < length xs" and "d < length xs" and "b = (f + d) mod length xs"
  shows "win f (Suc d) (xs[b := x]) = win f d xs @ [x]"
proof -
  have "(xs[b := x]) ! ((f + k) mod length xs) = xs ! ((f + k) mod length xs)" if "k < d" for k
  proof -
    have "k < length xs" using that assms(2) by simp
    from cyc_dist_inj [OF assms(1) this assms(2)] that have "(f + k) mod length xs \<noteq> b"
      unfolding assms(3) by blast
    then show ?thesis by simp
  qed
  moreover have "0 < length xs" using assms(1) by linarith
  then have "b < length xs" unfolding assms(3) by (rule mod_less_divisor)
  ultimately show ?thesis by (simp add: win_def assms(3) [symmetric])
qed

lemma win_tl:
  assumes "0 < length xs"
  shows "win ((f + 1) mod length xs) d xs = tl (win f (Suc d) xs)"
proof -
  have "win f (Suc d) xs = xs ! (f mod length xs) # map (\<lambda>k. xs ! ((f + Suc k) mod length xs)) [0..<d]"
    by (simp add: win_def upt_conv_Cons map_Suc_upt [symmetric] del: upt_Suc)
  then show ?thesis by (simp add: win_def mod_add_left_eq)
qed

lemma addToWindow_spec:
  assumes ok: "ma_ok (ma\<lparr>ma_sum := s0\<rparr>)" and lenw: "w = window ma"
  shows "\<exists>ma'. addToWindow x ma = Inr ma' \<and> ma_ok (ma'\<lparr>ma_sum := sum_list (window ma')\<rparr>) \<and>
    window ma' = drop (length w + 1 - unat (m_max_window_size ma)) (w @ [x]) \<and>
    m_max_window_size ma' = m_max_window_size ma \<and> ma_type ma' = ma_type ma \<and> ma_sum ma' = ma_sum ma"
proof -
  let ?f = "m_curr_window_front ma" and ?b = "m_curr_window_back ma" and ?l = "m_num_list ma"
  define n where "n = length ?l"
  define f where "f = unat (mn_value ?f)"
  define b where "b = unat (mn_value ?b)"
  define d where "d = cyc_dist n f b"
  have len: "n = unat (m_max_window_size ma) + 1" "1 < n" "n < 2 ^ 31"
    and mx: "unat (mn_max ?f) = n" "unat (mn_max ?b) = n" and fb: "f < n" "b < n"
    using ok by (auto simp: ma_ok_def Let_def n_def f_def b_def)
  have mxeq: "mn_max ?b = mn_max ?f" using mx by (simp add: word_unat_eq_iff)
  have w: "w = win f d ?l"
    using window_win [OF ok] lenw by (simp add: n_def f_def b_def d_def)
  have d: "d < n" "(f + d) mod n = b" using cyc_dist_less [OF fb] cyc_dist_pos [OF fb] by (auto simp: d_def)
  have lw: "length w = d" by (simp add: w win_def)
  have push: "win f (Suc d) (?l[b := x]) = w @ [x]"
    unfolding w by (rule win_push) (use fb d in \<open>simp_all add: n_def\<close>)
  from mn_add_value_Inr [of ?b 1] fb mx len obtain bk where
    bk: "mn_add_value ?b 1 = Inr bk" "mn_max bk = mn_max ?b" "unat (mn_value bk) = (b + 1) mod n"
    by (auto simp: b_def)
  from mn_add_value_Inr [of ?f 1] fb mx len obtain fr where
    fr: "mn_add_value ?f 1 = Inr fr" "mn_max fr = mn_max ?f" "unat (mn_value fr) = (f + 1) mod n"
    by (auto simp: f_def)
  have full: "mn_eq bk ?f \<longleftrightarrow> (b + 1) mod n = f"
    using bk(2,3) mxeq by (simp add: mn_eq_def word_unat_eq_iff f_def)
  have full': "(b + 1) mod n = f \<longleftrightarrow> d = n - 1"
  proof -
    have "(b + 1) mod n = (f + (d + 1)) mod n" using d(2) by (metis add.assoc mod_add_left_eq)
    moreover have "(f + (d + 1)) mod n = f \<longleftrightarrow> d + 1 = n"
    proof (cases "d + 1 < n")
      case True
      then show ?thesis using cyc_dist_inj [OF fb(1), of "d + 1" 0] fb(1) by auto
    next
      case False
      with d(1) have "d + 1 = n" by linarith
      with fb(1) show ?thesis by simp
    qed
    ultimately show ?thesis using d(1) by auto
  qed
  let ?fr = "if d = n - 1 then fr else ?f"
  let ?ma = "ma\<lparr>m_num_list := ?l[b := x], m_curr_window_back := bk, m_curr_window_front := ?fr\<rparr>"
  have eq: "addToWindow x ma = Inr ?ma"
    using fb(2) bk(1) fr(1) full full' by (simp add: addToWindow_def b_def n_def)
  have fv: "unat (mn_value ?fr) = (if d = n - 1 then (f + 1) mod n else f)" using fr(3) by (simp add: f_def)
  have okm: "ma_ok (?ma\<lparr>ma_sum := sum_list (window ?ma)\<rparr>)"
    using len mx fb bk fr by (auto simp: ma_ok_def Let_def n_def f_def)
  have "window ?ma = win (unat (mn_value ?fr)) (cyc_dist n (unat (mn_value ?fr)) ((b + 1) mod n)) (?l[b := x])"
    using window_win [OF okm] bk(3) by (simp add: n_def)
  also have "\<dots> = drop (length w + 1 - unat (m_max_window_size ma)) (w @ [x])"
  proof (cases "d = n - 1")
    case True
    have "cyc_dist n ((f + 1) mod n) ((b + 1) mod n) = n - 1"
    proof -
      have "(b + 1) mod n = ((f + 1) mod n + (n - 1)) mod n"
      proof -
        have "((f + 1) mod n + (n - 1)) mod n = (f + 1 + (n - 1)) mod n" by (rule mod_add_left_eq)
        also have "f + 1 + (n - 1) = f + n" using len(2) by simp
        finally show ?thesis using full' True fb(1) by simp
      qed
      then show ?thesis using cyc_dist_unique [of "(f + 1) mod n" n "n - 1"] len(2) by simp
    qed
    moreover have "win ((f + 1) mod n) (n - 1) (?l[b := x]) = tl (w @ [x])"
    proof -
      have "0 < length (?l[b := x])" unfolding length_list_update using len(2) n_def by linarith
      from win_tl [OF this, of f "n - 1"] have "win ((f + 1) mod n) (n - 1) (?l[b := x]) = tl (win f (Suc (n - 1)) (?l[b := x]))"
        by (simp only: length_list_update n_def)
      with push True show ?thesis by simp
    qed
    moreover have "w \<noteq> []" using lw True len(2) by auto
    ultimately show ?thesis using fv True lw len by (simp add: drop_Suc)
  next
    case False
    then have "cyc_dist n f ((b + 1) mod n) = Suc d"
    proof -
      have "(b + 1) mod n = (f + Suc d) mod n" using d(2) by (metis add.assoc add_Suc_right mod_add_left_eq Suc_eq_plus1)
      then show ?thesis using cyc_dist_unique [OF fb(1), of "Suc d"] False d(1) by simp
    qed
    then show ?thesis using fv False lw len push d(1) by simp
  qed
  finally show ?thesis using eq okm by (intro exI [of _ ?ma]) simp
qed

text \<open>An update keeps the last \<open>m_max_window_size\<close> samples, and the sum of the arithmetic mean is theirs.\<close>

lemma ma_update_spec:
  assumes ok: "ma_ok ma"
  shows "\<exists>ma'. ma_update x ma = Inr ma' \<and> ma_ok ma' \<and> m_max_window_size ma' = m_max_window_size ma \<and>
    ma_type ma' = ma_type ma \<and>
    window ma' = drop (length (window ma) + 1 - unat (m_max_window_size ma)) (window ma @ [x])"
proof (cases "ma_type ma = ARITHMETIC_MEAN")
  case False
  have "ma_ok (ma\<lparr>ma_sum := ma_sum ma\<rparr>)" using ok by simp
  from addToWindow_spec [OF this refl, of x] obtain ma' where a: "addToWindow x ma = Inr ma'"
    "ma_ok (ma'\<lparr>ma_sum := sum_list (window ma')\<rparr>)"
    "window ma' = drop (length (window ma) + 1 - unat (m_max_window_size ma)) (window ma @ [x])"
    "m_max_window_size ma' = m_max_window_size ma" "ma_type ma' = ma_type ma" by blast
  moreover have "ma_ok ma'" using a(2,5) False by (auto simp: ma_ok_def Let_def)
  ultimately show ?thesis using False by (simp add: ma_update_def)
next
  case True
  let ?m = "unat (m_max_window_size ma)"
  from window_size_Inr [OF ok] obtain d where d: "window_size ma = Inr d" by blast
  have len: "length (window ma) = unat d" by (simp add: window_def d)
  have m: "0 < ?m" "length (m_num_list ma) = ?m + 1" and fr: "unat (mn_value (m_curr_window_front ma)) < ?m + 1"
    and bk: "unat (mn_value (m_curr_window_back ma)) < ?m + 1"
    using ok by (auto simp: ma_ok_def Let_def)
  have dm: "unat d \<le> ?m"
    using window_size_Inr [OF ok] d cyc_dist_less [OF fr bk] m(2) by auto
  have sum: "ma_sum ma = sum_list (window ma)" using ok True by (simp add: ma_ok_def Let_def)
  define s1 where "s1 = (if d = m_max_window_size ma then ma_sum ma - hd (window ma) else ma_sum ma)"
  have front: "num_at ma (mn_value (m_curr_window_front ma)) = Inr (hd (window ma))" if "d = m_max_window_size ma"
  proof -
    have "window ma \<noteq> []" using len that m(1) by auto
    then have "hd (window ma) = m_num_list ma ! (unat (mn_value (m_curr_window_front ma)) mod length (m_num_list ma))"
      by (simp add: window_def d hd_map upt_conv_Cons)
    then show ?thesis using fr m(2) by (simp add: num_at_def)
  qed
  have upd: "ma_update x ma = addToWindow x (ma\<lparr>ma_sum := s1 + x\<rparr>)"
    using True d front by (auto simp: ma_update_def s1_def)
  have "ma_ok ((ma\<lparr>ma_sum := s1 + x\<rparr>)\<lparr>ma_sum := ma_sum ma\<rparr>)" using ok by simp
  from addToWindow_spec [OF this refl, of x] obtain ma' where a: "addToWindow x (ma\<lparr>ma_sum := s1 + x\<rparr>) = Inr ma'"
    "ma_ok (ma'\<lparr>ma_sum := sum_list (window ma')\<rparr>)"
    "window ma' = drop (length (window ma) + 1 - ?m) (window ma @ [x])"
    "m_max_window_size ma' = m_max_window_size ma" "ma_type ma' = ma_type ma" "ma_sum ma' = s1 + x" by auto
  have "sum_list (window ma') = s1 + x"
  proof (cases "d = m_max_window_size ma")
    case True
    then obtain y ys where y: "window ma = y # ys" using len m(1) by (cases "window ma") auto
    with True len have "window ma' = ys @ [x]" by (simp add: a(3))
    with True y sum show ?thesis by (simp add: s1_def)
  next
    case False
    then have "unat d < ?m" using dm by (metis le_neq_implies_less word_unat_eq_iff)
    then have "window ma' = window ma @ [x]" using len by (simp add: a(3))
    with False sum show ?thesis by (simp add: s1_def)
  qed
  then have "ma_ok ma'" using a(2,6) by (simp add: ma_ok_def Let_def)
  with a upd show ?thesis by auto
qed

lemma ma_ok_create: "0 < unat n \<Longrightarrow> unat n < 2 ^ 31 - 1 \<Longrightarrow> ma_ok (createAvgType ty n) \<and> window (createAvgType ty n) = []"
proof -
  assume n: "0 < unat n" "unat n < 2 ^ 31 - 1"
  then have "unat (n + 1) = unat n + 1" using unat_add_u32 [of n 1] by simp
  moreover have "window (createAvgType ty n) = []"
    by (simp add: window_def window_size_def mn_sub_def createAvgType_def ModuloNum_def)
  ultimately show ?thesis using n by (simp add: ma_ok_def Let_def) (simp add: createAvgType_def ModuloNum_def)
qed

text \<open>A run of updates.\<close>

fun ma_updates :: "time list \<Rightarrow> moving_average \<Rightarrow> moving_average res" where
  "ma_updates [] ma = Inr ma"
| "ma_updates (x # xs) ma = bindE (ma_update x ma) (ma_updates xs)"

definition last_n :: "nat \<Rightarrow> 'a list \<Rightarrow> 'a list" where
  "last_n n xs = drop (length xs - n) xs"

lemma last_n_snoc: "last_n n (last_n n xs @ ys) = last_n n (xs @ ys)"
proof (cases "length xs \<le> n")
  case False
  then have len: "length (last_n n xs) = n" by (simp add: last_n_def)
  have "length xs + length ys - n = length ys + (length xs - n)" using False by simp
  then have "last_n n (xs @ ys) = drop (length ys) (drop (length xs - n) (xs @ ys))"
    by (simp add: last_n_def)
  also have "drop (length xs - n) (xs @ ys) = last_n n xs @ ys" by (simp add: last_n_def)
  finally show ?thesis using len by (simp add: last_n_def [of n "last_n n xs @ ys"])
qed (simp add: last_n_def)

lemma ma_updates_spec:
  assumes "ma_ok ma" and "length (window ma) \<le> unat (m_max_window_size ma)"
  shows "\<exists>ma'. ma_updates xs ma = Inr ma' \<and> ma_ok ma' \<and> ma_type ma' = ma_type ma \<and>
    m_max_window_size ma' = m_max_window_size ma \<and>
    window ma' = last_n (unat (m_max_window_size ma)) (window ma @ xs)"
  using assms
proof (induction xs arbitrary: ma)
  case Nil
  then show ?case by (simp add: last_n_def)
next
  case (Cons x xs)
  let ?m = "unat (m_max_window_size ma)"
  from ma_update_spec [OF Cons.prems(1), of x] obtain m1 where m1: "ma_update x ma = Inr m1" "ma_ok m1"
    "m_max_window_size m1 = m_max_window_size ma" "ma_type m1 = ma_type ma"
    "window m1 = last_n ?m (window ma @ [x])" by (auto simp: last_n_def)
  have "length (window m1) \<le> unat (m_max_window_size m1)" by (simp add: m1(3,5) last_n_def)
  from Cons.IH [OF m1(2) this] obtain m2 where m2: "ma_updates xs m1 = Inr m2" "ma_ok m2" "ma_type m2 = ma_type ma"
    "m_max_window_size m2 = m_max_window_size ma" "window m2 = last_n ?m (window m1 @ xs)"
    using m1(3,4) by auto
  then show ?case using m1(1,5) by (simp add: last_n_snoc)
qed

end
