(* ===== verification/Queue_Models.thy ===== *)
theory Queue_Models
  imports Moving_Average
begin

text \<open>
  common/performance_model: \<open>ContentionModel\<close> (a resource with several units) and the queue models
  behind the virtual \<open>QueueModel::computeQueueDelay\<close>: basic, history_list, contention and
  windowed_mg1. The statistics a request updates are modelled; registering them is not.
\<close>

subsection \<open>ContentionModel\<close>

text \<open>One pair of completion time and tag per unit; \<open>m_num_outstanding\<close> is the list's length.\<close>

record contention =
  cm_time :: "(time \<times> u64) list"
  cm_t_last :: time
  cm_period :: time
  cm_n_requests :: u64
  cm_n_barriers :: u64
  cm_n_outoforder :: u64
  cm_n_simultaneous :: u64
  cm_n_hasfreefail :: u64
  cm_total_delay :: time
  cm_total_barrier_delay :: time

definition ContentionModel :: "time \<Rightarrow> nat \<Rightarrow> contention" where
  "ContentionModel period num_outstanding =
     \<lparr>cm_time = replicate num_outstanding (0, 0), cm_t_last = 0, cm_period = period, cm_n_requests = 0,
      cm_n_barriers = 0, cm_n_outoforder = 0, cm_n_simultaneous = 0, cm_n_hasfreefail = 0,
      cm_total_delay = 0, cm_total_barrier_delay = 0\<rparr>"

definition getNumUsed :: "time \<Rightarrow> contention \<Rightarrow> nat" where
  "getNumUsed t_start m = length (filter (\<lambda>(t, _). t > t_start) (cm_time m))"

definition getTagCompletionTime :: "u64 \<Rightarrow> contention \<Rightarrow> time" where
  "getTagCompletionTime tag m = (case find_first (\<lambda>(_, g). g = tag) (cm_time m) of
       Some i \<Rightarrow> fst (cm_time m ! i) | None \<Rightarrow> MaxTime)"

definition hasFreeSlot :: "time \<Rightarrow> u64 \<Rightarrow> contention \<Rightarrow> bool \<times> contention" where
  "hasFreeSlot t_start tag m =
     (if list_ex (\<lambda>(t, g). t \<le> t_start \<or> g = tag) (cm_time m) then (True, m)
      else (False, m\<lparr>cm_n_hasfreefail := cm_n_hasfreefail m + 1\<rparr>))"

definition hasTag :: "u64 \<Rightarrow> contention \<Rightarrow> bool" where
  "hasTag tag m \<longleftrightarrow> list_ex (\<lambda>(_, g). g = tag) (cm_time m)"

definition getBarrierCompletionTime :: "time \<Rightarrow> time \<Rightarrow> u64 \<Rightarrow> contention \<Rightarrow> time \<times> contention" where
  "getBarrierCompletionTime t_start t_delay tag m =
     (if cm_time m = [] then (t_start + t_delay, m) else
      let max_time = fold (\<lambda>(t, _) mx. if t > mx then t else mx) (cm_time m) t_start in
      (max_time + t_delay,
       m\<lparr>cm_time := map (\<lambda>_. (max_time + t_delay, tag)) (cm_time m),
         cm_total_barrier_delay := cm_total_barrier_delay m + (max_time - t_start),
         cm_n_barriers := cm_n_barriers m + 1\<rparr>))"

text \<open>The scan for a unit: the first one free, else the first to become free.\<close>

fun find_unit :: "time \<Rightarrow> nat \<Rightarrow> nat \<Rightarrow> time \<Rightarrow> (time \<times> u64) list \<Rightarrow> nat" where
  "find_unit t_start i unit t_unit [] = unit"
| "find_unit t_start i unit t_unit ((t, g) # rest) =
     (if t \<le> t_start then i
      else if t < t_unit then find_unit t_start (Suc i) i t rest
      else find_unit t_start (Suc i) unit t_unit rest)"

definition getCompletionTime :: "time \<Rightarrow> time \<Rightarrow> u64 \<Rightarrow> contention \<Rightarrow> time \<times> contention" where
  "getCompletionTime t_start t_delay tag m =
     (if cm_time m = [] then (t_start + t_delay, m) else
      let (t_end, m) =
        (if t_start = 0 then (t_delay, m)
         else if t_start < cm_t_last m
         then (t_start + t_delay, m\<lparr>cm_n_outoforder := cm_n_outoforder m + 1\<rparr>)
         else
           (let m = (if t_start = cm_t_last m then m\<lparr>cm_n_simultaneous := cm_n_simultaneous m + 1\<rparr> else m);
                unit = find_unit t_start 0 0 (fst (hd (cm_time m))) (cm_time m);
                t_unit = fst (cm_time m ! unit);
                t_begin = (if t_start < t_unit then t_unit else t_start);
                t_end = t_begin + t_delay
            in (t_end, m\<lparr>cm_time := (cm_time m)[unit := (t_end, tag)],
                         cm_total_delay := cm_total_delay m + (t_begin - t_start),
                         cm_t_last := t_start\<rparr>)))
      in (t_end, m\<lparr>cm_n_requests := cm_n_requests m + 1\<rparr>))"

definition getStartTime :: "time \<Rightarrow> contention \<Rightarrow> time" where
  "getStartTime t_start m =
     (if cm_time m = [] then t_start
      else if t_start < cm_t_last m then t_start
      else let unit = find_unit t_start 0 0 (fst (hd (cm_time m))) (cm_time m);
               t_unit = fst (cm_time m ! unit)
           in if t_start < t_unit then t_unit else t_start)"

text \<open>The versions in cycles of the core's clock.\<close>

definition getNumUsed_cycles :: "u64 \<Rightarrow> contention \<Rightarrow> nat" where
  "getNumUsed_cycles t_start m = getNumUsed (cyclesToSubsecondTime (cm_period m) t_start) m"

definition hasFreeSlot_cycles :: "u64 \<Rightarrow> u64 \<Rightarrow> contention \<Rightarrow> bool \<times> contention" where
  "hasFreeSlot_cycles t_start tag m = hasFreeSlot (cyclesToSubsecondTime (cm_period m) t_start) tag m"

definition getBarrierCompletionTime_cycles :: "u64 \<Rightarrow> u64 \<Rightarrow> u64 \<Rightarrow> contention \<Rightarrow> (u64 \<times> contention) res" where
  "getBarrierCompletionTime_cycles t_start t_delay tag m =
     (let (t, m') = getBarrierCompletionTime (cyclesToSubsecondTime (cm_period m) t_start)
                      (cyclesToSubsecondTime (cm_period m) t_delay) tag m
      in bindE (subsecondTimeToCycles (cm_period m) t) (\<lambda>c. Inr (c, m')))"

definition getCompletionTime_cycles :: "u64 \<Rightarrow> u64 \<Rightarrow> u64 \<Rightarrow> contention \<Rightarrow> (u64 \<times> contention) res" where
  "getCompletionTime_cycles t_start t_delay tag m =
     (let (t, m') = getCompletionTime (cyclesToSubsecondTime (cm_period m) t_start)
                      (cyclesToSubsecondTime (cm_period m) t_delay) tag m
      in bindE (subsecondTimeToCycles (cm_period m) t) (\<lambda>c. Inr (c, m')))"

definition getStartTime_cycles :: "u64 \<Rightarrow> contention \<Rightarrow> u64 res" where
  "getStartTime_cycles t_start m =
     subsecondTimeToCycles (cm_period m) (getStartTime (cyclesToSubsecondTime (cm_period m) t_start) m)"

subsection \<open>The queue models\<close>

text \<open>\<open>root\<close> is the root function of the geometric mean.\<close>

record queue_basic =
  qb_queue_time :: time
  qb_moving_average :: "moving_average option"

definition QueueModelBasic :: "bool \<Rightarrow> u32 \<Rightarrow> string \<Rightarrow> queue_basic res" where
  "QueueModelBasic moving_avg_enabled moving_avg_window_size moving_avg_type_str =
     (if moving_avg_enabled
      then bindE (parseAvgType moving_avg_type_str) (\<lambda>ty.
        Inr \<lparr>qb_queue_time = 0, qb_moving_average = Some (createAvgType ty moving_avg_window_size)\<rparr>)
      else Inr \<lparr>qb_queue_time = 0, qb_moving_average = None\<rparr>)"

definition basic_computeQueueDelay ::
  "(u64 \<Rightarrow> u32 \<Rightarrow> u64) \<Rightarrow> time \<Rightarrow> time \<Rightarrow> queue_basic \<Rightarrow> (time \<times> queue_basic) res" where
  "basic_computeQueueDelay root pkt_time processing_time q =
     bindE (case qb_moving_average q of
         Some ma \<Rightarrow> bindE (ma_compute_next root pkt_time ma) (\<lambda>(t, ma'). Inr (t, Some ma'))
       | None \<Rightarrow> Inr (pkt_time, None)) (\<lambda>(ref_time, ma').
     let queue_delay = (if qb_queue_time q > ref_time then qb_queue_time q - ref_time else 0) in
     Inr (queue_delay,
       q\<lparr>qb_moving_average := ma',
         qb_queue_time := (if qb_queue_time q > ref_time then qb_queue_time q else ref_time) + processing_time\<rparr>))"

record queue_history =
  qh_min_processing_time :: time
  qh_max_list_size :: nat
  qh_free :: "(time \<times> time) list"
  qh_utilized_time :: time
  qh_total_queue_delay :: time
  qh_average_delay :: moving_average
  qh_analytical :: bool
  qh_total_requests :: u64
  qh_requests_analytical :: u64

definition QueueModelHistoryList :: "time \<Rightarrow> bool \<Rightarrow> u32 \<Rightarrow> queue_history" where
  "QueueModelHistoryList min_processing_time analytical_model_enabled max_list_size =
     \<lparr>qh_min_processing_time = min_processing_time, qh_max_list_size = unat max_list_size,
      qh_free = [(0, push_bit 63 1)], qh_utilized_time = 0, qh_total_queue_delay = 0,
      qh_average_delay = createAvgType ARITHMETIC_MEAN max_list_size,
      qh_analytical = analytical_model_enabled, qh_total_requests = 0, qh_requests_analytical = 0\<rparr>"

text \<open>The walk over the free intervals: the delay and the new list, or nothing when no interval is
  taken. All differences wrap.\<close>

fun history_walk :: "time \<Rightarrow> time \<Rightarrow> time \<Rightarrow> (time \<times> time) list \<Rightarrow> (time \<times> (time \<times> time) list) option" where
  "history_walk mn pkt_time processing_time [] = None"
| "history_walk mn pkt_time processing_time ((a, b) # rest) =
     (if pkt_time \<ge> a \<and> pkt_time + processing_time \<le> b then
        Some (0, (if pkt_time - a \<ge> mn then [(a, pkt_time)] else []) @
                 (if b - (pkt_time + processing_time) \<ge> mn then [(pkt_time + processing_time, b)] else []) @ rest)
      else if pkt_time < a then
        Some (a - pkt_time, (if b - (a + processing_time) \<ge> mn then [(a + processing_time, b)] else []) @ rest)
      else map_option (\<lambda>(d, l). (d, (a, b) # l)) (history_walk mn pkt_time processing_time rest))"

definition computeUsingHistoryList :: "time \<Rightarrow> time \<Rightarrow> queue_history \<Rightarrow> (time \<times> queue_history) res" where
  "computeUsingHistoryList pkt_time processing_time q =
     assertE (length (qh_free q) \<le> qh_max_list_size q) ''Free Interval list size''
     (case history_walk (qh_min_processing_time q) pkt_time processing_time (qh_free q) of
        None \<Rightarrow> Inl (Assert_Failed ''free interval not found'')
      | Some (d, l) \<Rightarrow> assertE (d \<noteq> MaxTime) ''free interval not found''
          (Inr (d, q\<lparr>qh_free := (if length l > qh_max_list_size q then tl l else l)\<rparr>)))"

definition history_computeQueueDelay ::
  "(u64 \<Rightarrow> u32 \<Rightarrow> u64) \<Rightarrow> time \<Rightarrow> time \<Rightarrow> queue_history \<Rightarrow> (time \<times> queue_history) res" where
  "history_computeQueueDelay root pkt_time processing_time q =
     assertE (length (qh_free q) \<ge> 1) ''Free Interval list size < 1''
     (bindE (if qh_analytical q \<and> pkt_time + processing_time \<le> fst (hd (qh_free q))
        then bindE (ma_compute root (qh_average_delay q)) (\<lambda>d.
          Inr (d, q\<lparr>qh_requests_analytical := qh_requests_analytical q + 1\<rparr>))
        else bindE (computeUsingHistoryList pkt_time processing_time q) (\<lambda>(d, q).
          bindE (ma_update d (qh_average_delay q)) (\<lambda>ma. Inr (d, q\<lparr>qh_average_delay := ma\<rparr>))))
      (\<lambda>(queue_delay, q).
      Inr (queue_delay, q\<lparr>qh_utilized_time := qh_utilized_time q + processing_time,
        qh_total_requests := qh_total_requests q + 1,
        qh_total_queue_delay := qh_total_queue_delay q + queue_delay\<rparr>)))"

definition contention_computeQueueDelay :: "time \<Rightarrow> time \<Rightarrow> contention \<Rightarrow> time \<times> contention" where
  "contention_computeQueueDelay pkt_time processing_time m =
     (let (t_complete, m') = getCompletionTime pkt_time processing_time 0 m
      in (t_complete - pkt_time - processing_time, m'))"

text \<open>The window of the M/G/1 model is a multimap: a list sorted by arrival time, equal keys in
  order of insertion.\<close>

record queue_mg1 =
  qm_window_size :: time
  qm_total_requests :: u64
  qm_total_utilized_time :: time
  qm_total_queue_delay :: time
  qm_window :: "(time \<times> time) list"
  qm_num_arrivals :: u64
  qm_service_time_sum :: u64
  qm_service_time_sum2 :: u64

definition QueueModelWindowedMG1 :: "u64 \<Rightarrow> queue_mg1" where
  "QueueModelWindowedMG1 window_ns =
     \<lparr>qm_window_size = TimeNS window_ns, qm_total_requests = 0, qm_total_utilized_time = 0,
      qm_total_queue_delay = 0, qm_window = [], qm_num_arrivals = 0, qm_service_time_sum = 0,
      qm_service_time_sum2 = 0\<rparr>"

fun multimap_insert :: "time \<times> time \<Rightarrow> (time \<times> time) list \<Rightarrow> (time \<times> time) list" where
  "multimap_insert x [] = [x]"
| "multimap_insert x (y # ys) = (if fst x < fst y then x # y # ys else y # multimap_insert x ys)"

definition addItem :: "time \<Rightarrow> time \<Rightarrow> queue_mg1 \<Rightarrow> queue_mg1" where
  "addItem pkt_time service_time q =
     q\<lparr>qm_window := multimap_insert (pkt_time, service_time) (qm_window q),
       qm_num_arrivals := qm_num_arrivals q + 1,
       qm_service_time_sum := qm_service_time_sum q + getPS service_time,
       qm_service_time_sum2 := qm_service_time_sum2 q + getPS service_time * getPS service_time\<rparr>"

fun remove_loop :: "time \<Rightarrow> (time \<times> time) list \<Rightarrow> u64 \<times> u64 \<times> u64 \<Rightarrow> (time \<times> time) list \<times> u64 \<times> u64 \<times> u64" where
  "remove_loop earliest_time [] s = ([], s)"
| "remove_loop earliest_time ((t, sv) # rest) (n, s1, s2) =
     (if t < earliest_time
      then remove_loop earliest_time rest (n - 1, s1 - getPS sv, s2 - getPS sv * getPS sv)
      else ((t, sv) # rest, n, s1, s2))"

definition removeItems :: "time \<Rightarrow> queue_mg1 \<Rightarrow> queue_mg1" where
  "removeItems earliest_time q =
     (case remove_loop earliest_time (qm_window q) (qm_num_arrivals q, qm_service_time_sum q, qm_service_time_sum2 q) of
        (w, n, s1, s2) \<Rightarrow> q\<lparr>qm_window := w, qm_num_arrivals := n, qm_service_time_sum := s1, qm_service_time_sum2 := s2\<rparr>)"

text \<open>\<open>mg1 sum n es2 window\<close> stands for the waiting-time formula on doubles; \<open>global_time\<close> is the
  barrier's time.\<close>

definition mg1_computeQueueDelay ::
  "(u64 \<Rightarrow> u64 \<Rightarrow> u64 \<Rightarrow> u64 \<Rightarrow> time) \<Rightarrow> time \<Rightarrow> time \<Rightarrow> time \<Rightarrow> queue_mg1 \<Rightarrow> time \<times> queue_mg1" where
  "mg1_computeQueueDelay mg1 global_time pkt_time processing_time q =
     (let q = removeItems (max (global_time - qm_window_size q) (pkt_time - 10 * qm_window_size q)) q;
          t_queue =
            (if qm_num_arrivals q > 1 then
               let t = mg1 (qm_service_time_sum q) (qm_num_arrivals q)
                         (qm_service_time_sum2 q div qm_num_arrivals q) (getPS (qm_window_size q))
               in if t > qm_window_size q then qm_window_size q else t
             else 0);
          q = addItem pkt_time processing_time q
      in (t_queue, q\<lparr>qm_total_requests := qm_total_requests q + 1,
                     qm_total_utilized_time := qm_total_utilized_time q + processing_time,
                     qm_total_queue_delay := qm_total_queue_delay q + t_queue\<rparr>))"

subsection \<open>QueueModel\<close>

datatype queue_model = QBasic queue_basic | QHistory queue_history | QContention contention | QMg1 queue_mg1

text \<open>The configuration and the run-time services the models read.\<close>

record queue_env =
  qe_moving_avg_enabled :: bool
  qe_moving_avg_window_size :: u32
  qe_moving_avg_type :: string
  qe_analytical :: bool
  qe_max_list_size :: u32
  qe_mg1_window :: u64
  qe_core_period :: time
  qe_root :: "u64 \<Rightarrow> u32 \<Rightarrow> u64"
  qe_mg1 :: "u64 \<Rightarrow> u64 \<Rightarrow> u64 \<Rightarrow> u64 \<Rightarrow> time"

definition queue_create :: "queue_env \<Rightarrow> string \<Rightarrow> time \<Rightarrow> queue_model res" where
  "queue_create env model_type min_processing_time =
     (if model_type = ''basic''
      then bindE (QueueModelBasic (qe_moving_avg_enabled env) (qe_moving_avg_window_size env) (qe_moving_avg_type env))
        (\<lambda>q. Inr (QBasic q))
      else if model_type = ''history_list''
      then Inr (QHistory (QueueModelHistoryList min_processing_time (qe_analytical env) (qe_max_list_size env)))
      else if model_type = ''contention'' then Inr (QContention (ContentionModel (qe_core_period env) 1))
      else if model_type = ''windowed_mg1'' then Inr (QMg1 (QueueModelWindowedMG1 (qe_mg1_window env)))
      else Inl (Log_Error ''Unrecognized Queue Model Type''))"

fun computeQueueDelay :: "queue_env \<Rightarrow> time \<Rightarrow> time \<Rightarrow> time \<Rightarrow> queue_model \<Rightarrow> (time \<times> queue_model) res" where
  "computeQueueDelay env global_time pkt_time processing_time (QBasic q) =
     bindE (basic_computeQueueDelay (qe_root env) pkt_time processing_time q) (\<lambda>(d, q). Inr (d, QBasic q))"
| "computeQueueDelay env global_time pkt_time processing_time (QHistory q) =
     bindE (history_computeQueueDelay (qe_root env) pkt_time processing_time q) (\<lambda>(d, q). Inr (d, QHistory q))"
| "computeQueueDelay env global_time pkt_time processing_time (QContention m) =
     (let (d, m) = contention_computeQueueDelay pkt_time processing_time m in Inr (d, QContention m))"
| "computeQueueDelay env global_time pkt_time processing_time (QMg1 q) =
     (let (d, q) = mg1_computeQueueDelay (qe_mg1 env) global_time pkt_time processing_time q in Inr (d, QMg1 q))"

end
