(* ===== verification/Queue_Props.thy ===== *)
theory Queue_Props
  imports Queue_Models "HOL-Library.Multiset"
begin

text \<open>
  What the queue models guarantee: a unit of a contended resource serves one request at a time
  and the earliest unit is chosen; the history list never hands out the same time twice while
  requests fit; the sums of the windowed model are those of its window.
\<close>

subsection \<open>ContentionModel\<close>

lemma find_unit_cases:
  assumes "\<forall>j < i. t_start < ts j" and "unit \<le> i" and "t_unit = ts unit"
    and "\<forall>j < i. t_unit \<le> ts j" and "i = 0 \<longrightarrow> unit = 0"
    and "map fst rest = map ts [i..<n]" and "i \<le> n" and "unit < n"
  shows "find_unit t_start i unit t_unit rest < n \<and>
    (ts (find_unit t_start i unit t_unit rest) \<le> t_start \<or>
     (\<forall>j < n. t_start < ts j \<and> ts (find_unit t_start i unit t_unit rest) \<le> ts j))"
  using assms
proof (induction rest arbitrary: i unit t_unit)
  case Nil
  then have "i = n" by simp
  with Nil show ?case by auto
next
  case (Cons x rest)
  obtain t g where x: "x = (t, g)" by (cases x)
  have "i < n" using Cons.prems(6,7) by (cases "i < n") auto
  then have up: "[i..<n] = i # [Suc i..<n]" by (simp add: upt_conv_Cons)
  have t: "t = ts i" "map fst rest = map ts [Suc i..<n]" using Cons.prems(6) x up by auto
  show ?case
  proof (cases "t \<le> t_start")
    case True
    with \<open>i < n\<close> t show ?thesis by (simp add: x)
  next
    case False
    then have busy: "\<forall>j < Suc i. t_start < ts j" using Cons.prems(1) t by (auto simp: less_Suc_eq)
    show ?thesis
    proof (cases "t < t_unit")
      case True
      then have "\<forall>j < Suc i. t \<le> ts j" using Cons.prems(4) t by (auto simp: less_Suc_eq intro: order_trans less_imp_le)
      from Cons.IH [of "Suc i" i t] busy t this \<open>i < n\<close> False True show ?thesis by (simp add: x)
    next
      case F: False
      then have "\<forall>j < Suc i. t_unit \<le> ts j" using Cons.prems(4) t by (auto simp: less_Suc_eq)
      from Cons.IH [of "Suc i" unit t_unit] busy t this Cons.prems \<open>i < n\<close> False F show ?thesis by (simp add: x)
    qed
  qed
qed

lemma find_unit_spec:
  fixes t_start :: time
  assumes "ps \<noteq> []"
  defines "u \<equiv> find_unit t_start 0 0 (fst (hd ps)) ps"
  shows "u < length ps" and "fst (ps ! u) \<le> t_start \<or> (\<forall>j < length ps. t_start < fst (ps ! j) \<and> fst (ps ! u) \<le> fst (ps ! j))"
proof -
  have "map fst ps = map (\<lambda>j. fst (ps ! j)) [0..<length ps]"
    by (rule nth_equalityI) simp_all
  with find_unit_cases [of 0 t_start "\<lambda>j. fst (ps ! j)" 0 "fst (hd ps)" ps "length ps"] assms
  show "u < length ps" "fst (ps ! u) \<le> t_start \<or> (\<forall>j < length ps. t_start < fst (ps ! j) \<and> fst (ps ! u) \<le> fst (ps ! j))"
    by (auto simp: hd_conv_nth u_def)
qed

text \<open>When an in-order request can start: at once if a unit is free, else when the first one is.\<close>

definition earliest_start :: "time \<Rightarrow> contention \<Rightarrow> time" where
  "earliest_start t m = (if list_ex (\<lambda>(c, _). c \<le> t) (cm_time m) then t else Min (fst ` set (cm_time m)))"

lemma find_unit_start:
  fixes t :: time
  assumes "cm_time m \<noteq> []"
  defines "u \<equiv> find_unit t 0 0 (fst (hd (cm_time m))) (cm_time m)"
  shows "(if t < fst (cm_time m ! u) then fst (cm_time m ! u) else t) = earliest_start t m"
    and "fst (cm_time m ! u) \<le> earliest_start t m" and "u < length (cm_time m)"
proof -
  note s = find_unit_spec [OF assms(1), of t, folded u_def]
  show "u < length (cm_time m)" by (rule s(1))
  have mem: "cm_time m ! u \<in> set (cm_time m)" using s(1) by simp
  show eq: "(if t < fst (cm_time m ! u) then fst (cm_time m ! u) else t) = earliest_start t m"
  proof (cases "fst (cm_time m ! u) \<le> t")
    case True
    with s(1) have "list_ex (\<lambda>(c, _). c \<le> t) (cm_time m)" by (auto simp: list_ex_length case_prod_beta)
    with True show ?thesis by (simp add: earliest_start_def not_less [symmetric])
  next
    case False
    with s(2) have all: "\<forall>j < length (cm_time m). t < fst (cm_time m ! j) \<and> fst (cm_time m ! u) \<le> fst (cm_time m ! j)"
      by blast
    then have "\<not> list_ex (\<lambda>(c, _). c \<le> t) (cm_time m)"
      by (auto simp: list_ex_length case_prod_beta not_le)
    moreover have "\<forall>p \<in> set (cm_time m). fst (cm_time m ! u) \<le> fst p"
      using all by (metis in_set_conv_nth)
    then have "Min (fst ` set (cm_time m)) = fst (cm_time m ! u)"
      using mem by (intro Min_eqI) auto
    ultimately show ?thesis using False by (simp add: earliest_start_def not_le)
  qed
  show "fst (cm_time m ! u) \<le> earliest_start t m" unfolding eq [symmetric] by (simp add: not_less)
qed

lemma getStartTime_spec:
  "cm_time m \<noteq> [] \<Longrightarrow> cm_t_last m \<le> t \<Longrightarrow> getStartTime t m = earliest_start t m"
  using find_unit_start(1) [of m t] by (simp add: getStartTime_def Let_def not_less [symmetric])

lemma getCompletionTime_spec:
  assumes "cm_time m \<noteq> []" and "t \<noteq> 0" and "cm_t_last m \<le> t"
  shows "\<exists>u < length (cm_time m). fst (cm_time m ! u) \<le> earliest_start t m \<and>
    fst (getCompletionTime t d tag m) = earliest_start t m + d \<and>
    cm_time (snd (getCompletionTime t d tag m)) = (cm_time m)[u := (earliest_start t m + d, tag)] \<and>
    cm_t_last (snd (getCompletionTime t d tag m)) = t"
proof -
  let ?u = "find_unit t 0 0 (fst (hd (cm_time m))) (cm_time m)"
  note u = find_unit_start [OF assms(1), of t]
  have nl: "\<not> t < cm_t_last m" using assms(3) by simp
  show ?thesis
    by (rule exI [of _ ?u], cases "t = cm_t_last m")
      (use u assms nl in \<open>auto simp: getCompletionTime_def Let_def case_prod_beta split: if_splits\<close>)
qed

subsection \<open>The history list\<close>

definition interval :: "time \<times> time \<Rightarrow> nat set" where
  "interval p = {unat (fst p)..<unat (snd p)}"

definition free_time :: "(time \<times> time) list \<Rightarrow> nat set" where
  "free_time l = (\<Union>p \<in> set l. interval p)"

text \<open>Free intervals are in order and do not overlap.\<close>

fun intervals_ok :: "(time \<times> time) list \<Rightarrow> bool" where
  "intervals_ok [] = True"
| "intervals_ok [(a, b)] = (a \<le> b)"
| "intervals_ok ((a, b) # (c, d) # rest) = (a \<le> b \<and> b \<le> c \<and> intervals_ok ((c, d) # rest))"

lemma intervals_ok_Cons: "intervals_ok ((a, b) # l) \<longleftrightarrow> a \<le> b \<and> (\<forall>c d r. l = (c, d) # r \<longrightarrow> b \<le> c) \<and> intervals_ok l"
  by (cases l) auto

lemma intervals_ok_lower: "intervals_ok ((a, b) # l) \<Longrightarrow> p \<in> set l \<Longrightarrow> b \<le> fst p \<and> fst p \<le> snd p"
proof (induction l arbitrary: a b)
  case (Cons q l)
  obtain c d where q: "q = (c, d)" by (cases q)
  have ok: "b \<le> c" "c \<le> d" "intervals_ok ((c, d) # l)" using Cons.prems(1) q by (auto simp: intervals_ok_Cons)
  show ?case
  proof (cases "p = q")
    case True
    with ok q show ?thesis by simp
  next
    case False
    with Cons.prems(2) Cons.IH [OF ok(3)] have "d \<le> fst p \<and> fst p \<le> snd p" by simp
    with ok show ?thesis by auto
  qed
qed simp

lemma intervals_ok_cut: "intervals_ok ((a, b) # l) \<Longrightarrow> a \<le> a' \<Longrightarrow> a' \<le> b \<Longrightarrow> intervals_ok ((a', b) # l)"
  by (simp add: intervals_ok_Cons)

lemma free_time_after: "intervals_ok ((a, b) # l) \<Longrightarrow> x \<in> free_time l \<Longrightarrow> unat b \<le> x"
  using intervals_ok_lower [of a b l] by (fastforce simp: free_time_def interval_def word_le_nat_alt)

text \<open>A request served from the interval it finds: the time it takes was free and no longer is.\<close>

definition served :: "time \<Rightarrow> time \<Rightarrow> time \<Rightarrow> nat set" where
  "served p d delay = {unat p + unat delay..<unat p + unat delay + unat d}"

text \<open>The request fits in the interval it is moved to.\<close>

fun history_fits :: "time \<Rightarrow> time \<Rightarrow> (time \<times> time) list \<Rightarrow> bool" where
  "history_fits p d [] = True"
| "history_fits p d ((a, b) # rest) =
     (if p \<ge> a \<and> p + d \<le> b then True
      else if p < a then unat a + unat d \<le> unat b else history_fits p d rest)"

lemma intervals_ok_rest: "intervals_ok ((a, b) # l) \<Longrightarrow> intervals_ok l \<and> a \<le> b"
  by (simp add: intervals_ok_Cons)

lemma intervals_ok_push:
  "intervals_ok ((c, b) # l) \<Longrightarrow> a \<le> a' \<Longrightarrow> a' \<le> c \<Longrightarrow> intervals_ok ((a, a') # (c, b) # l)"
  by simp

lemma intervals_ok_replace:
  "intervals_ok ((a, b) # l) \<Longrightarrow> a' \<le> b' \<Longrightarrow> b' \<le> b \<Longrightarrow> intervals_ok ((a', b') # l)"
  by (auto simp: intervals_ok_Cons intro: order_trans)

lemma free_time_Cons: "free_time (p # l) = interval p \<union> free_time l"
  by (simp add: free_time_def)

lemma history_walk_spec:
  assumes "intervals_ok l" and "history_walk mn p d l = Some (delay, l')" and "history_fits p d l"
    and "unat p + unat d < 2 ^ 64"
  shows "served p d delay \<subseteq> free_time l \<and> free_time l' \<subseteq> free_time l - served p d delay \<and> intervals_ok l' \<and>
    (\<forall>x y r. l' = (x, y) # r \<longrightarrow> (\<exists>x' y' r'. l = (x', y') # r' \<and> x' \<le> x))"
  using assms(1-3)
proof (induction l arbitrary: delay l')
  case Nil
  then show ?case by simp
next
  case (Cons q rest)
  obtain a b where q: "q = (a, b)" by (cases q)
  have ok: "intervals_ok ((a, b) # rest)" using Cons.prems(1) q by simp
  have ab: "a \<le> b" and okr: "intervals_ok rest" using intervals_ok_rest [OF ok] by auto
  have pd: "unat (p + d) = unat p + unat d" by (rule unat_add_u64 [OF assms(4)])
  have low: "a \<le> x" if "rest = (x, y) # r" for x y r
    using intervals_ok_lower [OF ok, of "(x, y)"] that ab by (auto intro: order_trans)
  have after: "x \<in> free_time rest \<Longrightarrow> unat b \<le> x" for x by (rule free_time_after [OF ok])
  consider (take) "p \<ge> a" "p + d \<le> b" | (shift) "p < a" "\<not> (p \<ge> a \<and> p + d \<le> b)"
    | (skip) "\<not> p < a" "\<not> (p \<ge> a \<and> p + d \<le> b)" by blast
  then show ?case
  proof cases
    case take
    define l1 where "l1 = (if p - a \<ge> mn then [(a, p)] else [])"
    define l2 where "l2 = (if b - (p + d) \<ge> mn then [(p + d, b)] else [])"
    have r: "delay = 0" "l' = l1 @ l2 @ rest" using Cons.prems(2) q take by (auto simp: l1_def l2_def)
    have u: "unat a \<le> unat p" "unat p + unat d \<le> unat b" using take pd by (auto simp: word_le_nat_alt)
    have pp: "p \<le> p + d" using pd by (simp add: word_le_nat_alt)
    have ok2: "intervals_ok (l2 @ rest)"
      using intervals_ok_replace [OF ok, of "p + d" b] take(2) okr by (simp add: l2_def)
    have ok1: "intervals_ok l'"
    proof (cases "p - a \<ge> mn")
      case True
      have "intervals_ok ((a, p) # l2 @ rest)"
        using intervals_ok_replace [OF ok take(1)] take pp ok2 by (auto simp: l2_def)
      with True r show ?thesis by (simp add: l1_def)
    qed (use ok2 r in \<open>simp add: l1_def\<close>)
    have f: "free_time l' \<subseteq> {unat a..<unat p} \<union> {unat p + unat d..<unat b} \<union> free_time rest"
      by (auto simp: r(2) l1_def l2_def free_time_def interval_def pd)
    have sv: "served p d delay = {unat p..<unat p + unat d}" by (simp add: served_def r(1))
    have hd: "\<forall>x y r. l' = (x, y) # r \<longrightarrow> a \<le> x"
      using take(1) pp low by (auto simp: r(2) l1_def l2_def split: if_splits)
    have "free_time l' \<subseteq> free_time (q # rest) - served p d delay"
      using f u after unfolding sv q free_time_Cons interval_def by force
    moreover have "served p d delay \<subseteq> free_time (q # rest)"
      using u unfolding sv q free_time_Cons interval_def by auto
    ultimately show ?thesis using ok1 hd q by blast
  next
    case shift
    then have fit: "unat a + unat d \<le> unat b" using Cons.prems(3) q by auto
    have ad: "unat (a + d) = unat a + unat d"
      using unat_add_u64 [of a d] fit unat_u64_less [of b] by simp
    define l2 where "l2 = (if b - (a + d) \<ge> mn then [(a + d, b)] else [])"
    have r: "delay = a - p" "l' = l2 @ rest" using Cons.prems(2) q shift by (auto simp: l2_def)
    have adb: "a + d \<le> b" "a \<le> a + d" using ad fit by (auto simp: word_le_nat_alt)
    have ok2: "intervals_ok l'"
      using intervals_ok_replace [OF ok, of "a + d" b] adb okr by (simp add: l2_def r(2))
    have "unat (a - p) = unat a - unat p" using shift(1) by (simp add: unat_sub_u64)
    then have pa: "unat p + unat delay = unat a" using shift(1) r(1) by (simp add: word_less_nat_alt)
    have f: "free_time l' \<subseteq> {unat a + unat d..<unat b} \<union> free_time rest"
      by (auto simp: r(2) l2_def free_time_def interval_def ad)
    have sv: "served p d delay = {unat a..<unat a + unat d}" unfolding served_def pa ..
    have hd: "\<forall>x y r. l' = (x, y) # r \<longrightarrow> a \<le> x"
      using adb low by (auto simp: r(2) l2_def split: if_splits)
    have "free_time l' \<subseteq> free_time (q # rest) - served p d delay"
      using f fit after unfolding sv q free_time_Cons interval_def by force
    moreover have "served p d delay \<subseteq> free_time (q # rest)"
      using fit unfolding sv q free_time_Cons interval_def by auto
    ultimately show ?thesis using ok2 hd q by blast
  next
    case skip
    then obtain l1 where l1: "history_walk mn p d rest = Some (delay, l1)" "l' = (a, b) # l1"
      using Cons.prems(2) q by auto
    have fit: "history_fits p d rest" using Cons.prems(3) q skip by auto
    note ih = Cons.IH [OF okr l1(1) fit]
    have hd: "b \<le> x" if x: "l1 = (x, y) # r" for x y r
    proof -
      from ih x obtain x' y' r' where r': "rest = (x', y') # r'" "x' \<le> x" by blast
      have "b \<le> x'" using intervals_ok_lower [OF ok, of "(x', y')"] r'(1) by simp
      with r'(2) show ?thesis by simp
    qed
    have ok1: "intervals_ok l'" using ih hd ab l1(2) by (simp add: intervals_ok_Cons)
    have disj: "interval (a, b) \<inter> served p d delay = {}"
    proof -
      have "unat b \<le> x" if "x \<in> served p d delay" for x using ih that after by blast
      then show ?thesis by (force simp: interval_def)
    qed
    have "free_time l' \<subseteq> free_time (q # rest) - served p d delay"
    proof -
      have "free_time l1 \<subseteq> free_time rest - served p d delay" using ih by (elim conjE)
      then show ?thesis using disj unfolding l1(2) q free_time_Cons by auto
    qed
    moreover have "served p d delay \<subseteq> free_time (q # rest)"
    proof -
      have "served p d delay \<subseteq> free_time rest" using ih by (elim conjE)
      then show ?thesis unfolding free_time_Cons by auto
    qed
    ultimately show ?thesis using ok1 q l1(2) by auto
  qed
qed

text \<open>A run of requests that all fit, with the delays they got.\<close>

fun history_trace :: "(time \<times> time) list \<Rightarrow> queue_history \<Rightarrow> (time \<times> time \<times> time) list option" where
  "history_trace [] q = Some []"
| "history_trace ((p, d) # rs) q =
     (if history_fits p d (qh_free q) \<and> unat p + unat d < 2 ^ 64 then
        (case computeUsingHistoryList p d q of
           Inr (delay, q') \<Rightarrow> map_option (Cons (p, d, delay)) (history_trace rs q')
         | Inl _ \<Rightarrow> None)
      else None)"

definition served_of :: "time \<times> time \<times> time \<Rightarrow> nat set" where
  "served_of x = (case x of (p, d, delay) \<Rightarrow> served p d delay)"

lemma free_time_tl: "free_time (tl l) \<subseteq> free_time l"
  by (cases l) (auto simp: free_time_def)

lemma intervals_ok_tl: "intervals_ok l \<Longrightarrow> intervals_ok (tl l)"
  by (cases l) (auto simp: intervals_ok_Cons)

lemma computeUsingHistoryList_spec:
  assumes "intervals_ok (qh_free q)" and "computeUsingHistoryList p d q = Inr (delay, q')"
    and "history_fits p d (qh_free q)" and "unat p + unat d < 2 ^ 64"
  shows "served p d delay \<subseteq> free_time (qh_free q) \<and> intervals_ok (qh_free q') \<and>
    free_time (qh_free q') \<subseteq> free_time (qh_free q) - served p d delay"
proof -
  from assms(2) obtain l where l: "history_walk (qh_min_processing_time q) p d (qh_free q) = Some (delay, l)"
    and q': "qh_free q' = (if length l > qh_max_list_size q then tl l else l)"
    by (auto simp: computeUsingHistoryList_def split: option.splits)
  note w = history_walk_spec [OF assms(1) l assms(3,4)]
  then have "intervals_ok l" "free_time l \<subseteq> free_time (qh_free q) - served p d delay" by auto
  with w q' free_time_tl [of l] intervals_ok_tl [of l] show ?thesis by auto
qed

lemma history_trace_free:
  assumes "intervals_ok (qh_free q)" and "history_trace rs q = Some tr" and "x \<in> set tr"
  shows "served_of x \<subseteq> free_time (qh_free q)"
  using assms
proof (induction rs arbitrary: q tr)
  case (Cons r rs)
  obtain p d where r: "r = (p, d)" by (cases r)
  from Cons.prems(2) r obtain delay q' tr' where
    c: "computeUsingHistoryList p d q = Inr (delay, q')" "history_trace rs q' = Some tr'" "tr = (p, d, delay) # tr'"
      "history_fits p d (qh_free q)" "unat p + unat d < 2 ^ 64"
    by (auto split: if_splits sum.splits)
  note s = computeUsingHistoryList_spec [OF Cons.prems(1) c(1,4,5)]
  then have ok: "intervals_ok (qh_free q')" by simp
  show ?case
  proof (cases "x = (p, d, delay)")
    case True
    with s show ?thesis by (simp add: served_of_def)
  next
    case False
    with Cons.prems(3) c(3) have "x \<in> set tr'" by simp
    from Cons.IH [OF ok c(2) this] s show ?thesis by auto
  qed
qed simp

lemma history_trace_disjoint:
  assumes "intervals_ok (qh_free q)" and "history_trace rs q = Some tr" and "i < j" and "j < length tr"
  shows "served_of (tr ! i) \<inter> served_of (tr ! j) = {}"
  using assms
proof (induction rs arbitrary: q tr i j)
  case (Cons r rs)
  obtain p d where r: "r = (p, d)" by (cases r)
  from Cons.prems(2) r obtain delay q' tr' where
    c: "computeUsingHistoryList p d q = Inr (delay, q')" "history_trace rs q' = Some tr'" "tr = (p, d, delay) # tr'"
      "history_fits p d (qh_free q)" "unat p + unat d < 2 ^ 64"
    by (auto split: if_splits sum.splits)
  note s = computeUsingHistoryList_spec [OF Cons.prems(1) c(1,4,5)]
  then have ok: "intervals_ok (qh_free q')" by simp
  obtain j' where j: "j = Suc j'" using Cons.prems(3) by (cases j) auto
  then have j': "tr ! j = tr' ! j'" "j' < length tr'" using Cons.prems(4) c(3) by auto
  show ?case
  proof (cases i)
    case 0
    have "served_of (tr' ! j') \<subseteq> free_time (qh_free q')"
      by (rule history_trace_free [OF ok c(2)]) (simp add: j'(2))
    with s have "served p d delay \<inter> served_of (tr' ! j') = {}" by blast
    with 0 j'(1) c(3) show ?thesis by (simp add: served_of_def)
  next
    case (Suc i')
    with Cons.IH [OF ok c(2), of i' j'] Cons.prems(3) j j' c(3) show ?thesis by simp
  qed
qed simp

lemma QueueModelHistoryList_ok: "intervals_ok (qh_free (QueueModelHistoryList mn an n))"
  by (simp add: QueueModelHistoryList_def)

text \<open>The list never grows beyond its maximum.\<close>

lemma history_walk_length:
  "history_walk mn p d l = Some (delay, l') \<Longrightarrow> length l' \<le> length l + 1"
  by (induction l arbitrary: delay l') (auto split: if_splits prod.splits)

lemma computeUsingHistoryList_length:
  "computeUsingHistoryList p d q = Inr (delay, q') \<Longrightarrow>
    length (qh_free q') \<le> qh_max_list_size q \<and> qh_max_list_size q' = qh_max_list_size q"
  by (auto simp: computeUsingHistoryList_def split: option.splits if_splits dest!: history_walk_length)

subsection \<open>The windowed model\<close>

definition mg1_ok :: "queue_mg1 \<Rightarrow> bool" where
  "mg1_ok q \<longleftrightarrow> sorted (map fst (qm_window q)) \<and> qm_num_arrivals q = of_nat (length (qm_window q)) \<and>
     qm_service_time_sum q = sum_list (map (\<lambda>(_, s). getPS s) (qm_window q)) \<and>
     qm_service_time_sum2 q = sum_list (map (\<lambda>(_, s). getPS s * getPS s) (qm_window q))"

lemma set_multimap_insert: "set (multimap_insert x l) = insert x (set l)"
  by (induction l) auto

lemma mset_multimap_insert: "mset (multimap_insert x l) = add_mset x (mset l)"
  by (induction l) auto

lemma sorted_multimap_insert: "sorted (map fst l) \<Longrightarrow> sorted (map fst (multimap_insert x l))"
  by (induction l) (auto simp: set_multimap_insert not_less intro: order_trans less_imp_le)

lemma sum_list_mset: "mset xs = mset ys \<Longrightarrow> sum_list (map f xs) = sum_list (map f ys)" for f :: "'a \<Rightarrow> u64"
  by (metis mset_map sum_mset_sum_list)

lemma mg1_ok_addItem: "mg1_ok q \<Longrightarrow> mg1_ok (addItem p s q)"
proof -
  assume ok: "mg1_ok q"
  have m: "mset (multimap_insert (p, s) (qm_window q)) = mset ((p, s) # qm_window q)"
    by (simp add: mset_multimap_insert)
  have "length (multimap_insert (p, s) (qm_window q)) = Suc (length (qm_window q))"
    using arg_cong [OF m, of size] by simp
  with ok sum_list_mset [OF m] show ?thesis
    by (simp add: mg1_ok_def addItem_def sorted_multimap_insert add.commute)
qed

lemma remove_loop_spec:
  "remove_loop e w (of_nat (length w), sum_list (map (\<lambda>(_, s). getPS s) w),
      sum_list (map (\<lambda>(_, s). getPS s * getPS s) w)) =
    (dropWhile (\<lambda>(t, _). t < e) w, of_nat (length (dropWhile (\<lambda>(t, _). t < e) w)),
     sum_list (map (\<lambda>(_, s). getPS s) (dropWhile (\<lambda>(t, _). t < e) w)),
     sum_list (map (\<lambda>(_, s). getPS s * getPS s) (dropWhile (\<lambda>(t, _). t < e) w)))"
  by (induction w) auto

lemma sorted_dropWhile_key: "sorted (map fst w) \<Longrightarrow> sorted (map fst (dropWhile P w))"
  by (induction w) auto

lemma dropWhile_filter_sorted:
  "sorted (map fst w) \<Longrightarrow> dropWhile (\<lambda>(t, _). t < e) w = filter (\<lambda>(t, _). e \<le> t) w" for e :: time
proof (induction w)
  case (Cons x w)
  obtain t s where x: "x = (t, s)" by (cases x)
  show ?case
  proof (cases "t < e")
    case True
    with Cons x show ?thesis by auto
  next
    case False
    with Cons.prems x have "\<forall>y \<in> set w. e \<le> fst y" by (auto simp: not_less intro: order_trans)
    then have "filter (\<lambda>(t, _). e \<le> t) w = w" by (auto simp: filter_id_conv)
    with False x show ?thesis by auto
  qed
qed simp

lemma removeItems_spec:
  assumes "mg1_ok q"
  shows "mg1_ok (removeItems e q) \<and> qm_window (removeItems e q) = filter (\<lambda>(t, _). e \<le> t) (qm_window q) \<and>
    qm_window_size (removeItems e q) = qm_window_size q"
proof -
  have s: "sorted (map fst (qm_window q))" using assms by (simp add: mg1_ok_def)
  have eq: "removeItems e q = q\<lparr>qm_window := dropWhile (\<lambda>(t, _). t < e) (qm_window q),
    qm_num_arrivals := of_nat (length (dropWhile (\<lambda>(t, _). t < e) (qm_window q))),
    qm_service_time_sum := sum_list (map (\<lambda>(_, s). getPS s) (dropWhile (\<lambda>(t, _). t < e) (qm_window q))),
    qm_service_time_sum2 := sum_list (map (\<lambda>(_, s). getPS s * getPS s) (dropWhile (\<lambda>(t, _). t < e) (qm_window q)))\<rparr>"
    using assms remove_loop_spec [of e "qm_window q"] by (simp add: removeItems_def mg1_ok_def)
  show ?thesis
    unfolding eq using sorted_filter [OF s] dropWhile_filter_sorted [OF s, of e] by (simp add: mg1_ok_def)
qed

lemma mg1_computeQueueDelay_spec:
  assumes "mg1_ok q" and "mg1_computeQueueDelay mg1 g p s q = (delay, q')"
  shows "mg1_ok q' \<and> delay \<le> qm_window_size q \<and> qm_window_size q' = qm_window_size q \<and>
    mset (qm_window q') = add_mset (p, s)
      (mset (filter (\<lambda>(t, _). max (g - qm_window_size q) (p - 10 * qm_window_size q) \<le> t) (qm_window q)))"
proof -
  let ?e = "max (g - qm_window_size q) (p - 10 * qm_window_size q)"
  let ?a = "addItem p s (removeItems ?e q)"
  note r = removeItems_spec [OF assms(1), of ?e]
  have a: "mg1_ok ?a" using r mg1_ok_addItem by blast
  have eq: "mg1_ok q' = mg1_ok ?a \<and> qm_window q' = qm_window ?a \<and> qm_window_size q' = qm_window_size ?a"
    using arg_cong [OF assms(2), of snd] by (simp add: mg1_computeQueueDelay_def Let_def mg1_ok_def flip: snd_conv) auto
  have d: "delay \<le> qm_window_size (removeItems ?e q)"
    using arg_cong [OF assms(2), of fst] by (simp add: mg1_computeQueueDelay_def Let_def split: if_splits)
  show ?thesis
    using r a eq d by (simp add: addItem_def mset_multimap_insert)
qed

subsection \<open>The basic model\<close>

lemma basic_computeQueueDelay_spec:
  assumes "qb_moving_average q = None"
  shows "\<exists>d q'. basic_computeQueueDelay root p s q = Inr (d, q') \<and> qb_moving_average q' = None \<and>
    p + d = max p (qb_queue_time q) \<and> qb_queue_time q' = p + d + s"
  using assms by (auto simp: basic_computeQueueDelay_def Let_def max_def)

end
