(* ===== verification/Branch_Predictors.thy ===== *)
theory Branch_Predictors
  imports Prelude
begin

text \<open>
  common/performance_model/branch_predictor.cc and branch_predictors/: saturating counters, the
  one-bit predictor, and the parts of the Pentium M predictor (bimodal table, branch target
  buffers, global predictor, loop predictor) with the predictor that combines them.

  The sizes are those of pentium_m_*.h, so every index is in range (\<open>btb_ok\<close>, \<open>gp_ok\<close> and \<open>lpb_ok\<close>
  in \<open>Branch_Props\<close>). A way keeps one record per index where the code keeps one vector per field.
  The counter of a \<open>SaturatingPredictor<n>\<close> is an \<open>int\<close>: it stays within n bits.
\<close>

subsection \<open>SaturatingPredictor\<close>

definition sat_predict :: "int \<Rightarrow> bool" where
  "sat_predict c \<longleftrightarrow> c \<ge> 0"

definition sat_reset :: "nat \<Rightarrow> bool \<Rightarrow> int" where
  "sat_reset n prediction = (if prediction then 2 ^ (n - 1) - 1 else - (2 ^ (n - 1)))"

definition sat_inc :: "nat \<Rightarrow> int \<Rightarrow> int" where
  "sat_inc n c = (if c \<noteq> 2 ^ (n - 1) - 1 then c + 1 else c)"

definition sat_dec :: "nat \<Rightarrow> int \<Rightarrow> int" where
  "sat_dec n c = (if c \<noteq> - (2 ^ (n - 1)) then c - 1 else c)"

definition sat_update :: "nat \<Rightarrow> bool \<Rightarrow> int \<Rightarrow> int" where
  "sat_update n actual c = (if actual then sat_inc n c else sat_dec n c)"

subsection \<open>BranchPredictor and the one-bit predictor\<close>

record bp_counters =
  bp_correct :: u64
  bp_incorrect :: u64

definition bp_counters_init :: bp_counters where
  "bp_counters_init = \<lparr>bp_correct = 0, bp_incorrect = 0\<rparr>"

definition bp_updateCounters :: "bool \<Rightarrow> bool \<Rightarrow> bp_counters \<Rightarrow> bp_counters" where
  "bp_updateCounters predicted actual c =
     (if predicted = actual then c\<lparr>bp_correct := bp_correct c + 1\<rparr>
      else c\<lparr>bp_incorrect := bp_incorrect c + 1\<rparr>)"

record one_bit =
  ob_counters :: bp_counters
  ob_bits :: "bool list"

definition OneBitBranchPredictor :: "u32 \<Rightarrow> one_bit" where
  "OneBitBranchPredictor sz = \<lparr>ob_counters = bp_counters_init, ob_bits = replicate (unat sz) False\<rparr>"

definition one_bit_index :: "addr \<Rightarrow> one_bit \<Rightarrow> nat res" where
  "one_bit_index ip p = (if ob_bits p = [] then Inl (Out_Of_Range ''division by zero'')
     else Inr (unat ip mod length (ob_bits p)))"

definition one_bit_predict :: "addr \<Rightarrow> one_bit \<Rightarrow> bool res" where
  "one_bit_predict ip p = bindE (one_bit_index ip p) (\<lambda>i. Inr (ob_bits p ! i))"

definition one_bit_update :: "bool \<Rightarrow> bool \<Rightarrow> addr \<Rightarrow> one_bit \<Rightarrow> one_bit res" where
  "one_bit_update predicted actual ip p = bindE (one_bit_index ip p) (\<lambda>i.
     Inr (p\<lparr>ob_counters := bp_updateCounters predicted actual (ob_counters p), ob_bits := (ob_bits p)[i := actual]\<rparr>))"

subsection \<open>What a lookup returns\<close>

datatype branch_type = InvalidBranch | DirectBranch | IndirectBranch | UnconditionalBranch | ConditionalBranch

record bp_return =
  bpr_prediction :: bool
  bpr_hit :: bool
  bpr_target :: addr
  bpr_type :: branch_type

definition bp_no_hit :: bp_return where
  "bp_no_hit = \<lparr>bpr_prediction = False, bpr_hit = False, bpr_target = 0, bpr_type = InvalidBranch\<rparr>"

subsection \<open>SimpleBimodalTable\<close>

fun ilog2_loop :: "nat \<Rightarrow> nat" where
  "ilog2_loop n = (if n > 0 then Suc (ilog2_loop (n div 2)) else 0)"

declare ilog2_loop.simps [simp del]

definition ilog2 :: "nat \<Rightarrow> nat" where
  "ilog2 n = ilog2_loop n - 1"

record bimodal =
  bm_mask :: addr
  bm_table :: "int list"

definition SimpleBimodalTable :: "nat \<Rightarrow> bimodal" where
  "SimpleBimodalTable entries =
     \<lparr>bm_mask = fold (\<lambda>i m. m OR push_bit i 1) [0..<ilog2 entries] 0,
      bm_table = replicate entries (sat_reset 2 False)\<rparr>"

definition bimodal_index :: "addr \<Rightarrow> bimodal \<Rightarrow> nat" where
  "bimodal_index ip p = unat (ip AND bm_mask p) mod 2 ^ 32"

definition bimodal_predict :: "addr \<Rightarrow> bimodal \<Rightarrow> bool" where
  "bimodal_predict ip p = sat_predict (bm_table p ! bimodal_index ip p)"

definition bimodal_update :: "bool \<Rightarrow> addr \<Rightarrow> bimodal \<Rightarrow> bimodal" where
  "bimodal_update actual ip p = (let i = bimodal_index ip p; c = bm_table p ! i in
     p\<lparr>bm_table := (bm_table p)[i := (if actual then sat_inc 2 c else sat_dec 2 c)]\<rparr>)"

subsection \<open>Indirect branch target buffer\<close>

definition ibtb_index :: "addr \<Rightarrow> nat" where
  "ibtb_index ip = unat (drop_bit 6 ip AND 0xFF)"

definition ibtb_tag :: "addr \<Rightarrow> u32" where
  "ibtb_tag ip = ucast (drop_bit 8 (ip AND 0x4000) OR (ip AND 0x3F))"

text \<open>The table holds bytes: a stored tag loses its upper bits, a compared one is widened.\<close>

definition ibtb_init :: "nat \<Rightarrow> u8 list" where
  "ibtb_init entries = replicate entries 0"

definition ibtb_predict :: "addr \<Rightarrow> u8 list \<Rightarrow> bool" where
  "ibtb_predict ip t \<longleftrightarrow> ucast (t ! ibtb_index ip) = ibtb_tag ip"

definition ibtb_update :: "addr \<Rightarrow> u8 list \<Rightarrow> u8 list" where
  "ibtb_update ip t = t[ibtb_index ip := ucast (ibtb_tag ip)]"

subsection \<open>Ways\<close>

text \<open>The entries of all the ways at an index, and the update of one of them.\<close>

definition row :: "nat \<Rightarrow> 'e list list \<Rightarrow> 'e list" where
  "row index ways = map (\<lambda>w. w ! index) ways"

definition put_way :: "nat \<Rightarrow> nat \<Rightarrow> 'e \<Rightarrow> 'e list list \<Rightarrow> 'e list list" where
  "put_way w index e ways = ways[w := (ways ! w)[index := e]]"

text \<open>The loop the update functions share: the first way that matches, else the way with the
  smallest use count seen.\<close>

fun scan_ways :: "('e \<Rightarrow> bool) \<Rightarrow> ('e \<Rightarrow> u64) \<Rightarrow> nat \<Rightarrow> nat \<Rightarrow> u64 \<Rightarrow> 'e list \<Rightarrow> bool \<times> nat" where
  "scan_ways hit lru w lru_way least [] = (False, lru_way)"
| "scan_ways hit lru w lru_way least (e # es) =
     (if hit e then (True, w)
      else if lru e < least then scan_ways hit lru (Suc w) w (lru e) es
      else scan_ways hit lru (Suc w) lru_way least es)"

definition search_ways :: "('e \<Rightarrow> bool) \<Rightarrow> ('e \<Rightarrow> u64) \<Rightarrow> 'e list \<Rightarrow> bool \<times> nat" where
  "search_ways hit lru es = scan_ways hit lru 0 0 (lru (hd es)) es"

subsection \<open>PentiumMBranchTargetBuffer\<close>

record btb_entry =
  bt_tag_offset :: u32
  bt_plru :: u64

record btb =
  btb_ways :: "btb_entry list list"
  btb_use :: u64

definition btb_index :: "addr \<Rightarrow> nat" where
  "btb_index ip = unat (drop_bit 4 ip AND 0x1ff)"

definition btb_tagoff :: "addr \<Rightarrow> u32" where
  "btb_tagoff ip = ucast (ip AND 0x3fe00f)"

definition PentiumMBranchTargetBuffer :: btb where
  "PentiumMBranchTargetBuffer =
     \<lparr>btb_ways = replicate 4 (replicate 512 \<lparr>bt_tag_offset = 0, bt_plru = 0\<rparr>), btb_use = 0\<rparr>"

definition btb_lookup :: "addr \<Rightarrow> btb \<Rightarrow> bp_return" where
  "btb_lookup ip p = bp_no_hit\<lparr>bpr_hit :=
     list_ex (\<lambda>e. bt_tag_offset e = btb_tagoff ip) (row (btb_index ip) (btb_ways p))\<rparr>"

definition btb_update :: "addr \<Rightarrow> btb \<Rightarrow> btb" where
  "btb_update ip p =
     (let i = btb_index ip; es = row i (btb_ways p) in
      case search_ways (\<lambda>e. bt_tag_offset e = btb_tagoff ip) bt_plru es of
        (True, w) \<Rightarrow> p\<lparr>btb_ways := put_way w i ((es ! w)\<lparr>bt_plru := btb_use p\<rparr>) (btb_ways p), btb_use := btb_use p + 1\<rparr>
      | (False, w) \<Rightarrow> p\<lparr>btb_ways := put_way w i \<lparr>bt_tag_offset = btb_tagoff ip, bt_plru = btb_use p\<rparr> (btb_ways p),
                        btb_use := btb_use p + 1\<rparr>)"

subsection \<open>GlobalPredictor\<close>

record gp_entry =
  gp_valid :: bool
  gp_tag :: u8
  gp_pred :: int
  gp_lru :: u64

record gpred =
  gp_ways :: "gp_entry list list"
  gp_use :: u64

definition gp_index :: "addr \<Rightarrow> addr \<Rightarrow> nat" where
  "gp_index ip pir = unat ((drop_bit 4 ip XOR drop_bit 6 pir) AND 0x1FF)"

definition gp_mktag :: "addr \<Rightarrow> addr \<Rightarrow> u32" where
  "gp_mktag ip pir = ucast ((drop_bit 13 ip XOR pir) AND 0x3F)"

definition GlobalPredictor :: "nat \<Rightarrow> nat \<Rightarrow> gpred" where
  "GlobalPredictor entries ways =
     \<lparr>gp_ways = replicate ways (replicate (entries div ways)
        \<lparr>gp_valid = False, gp_tag = 0, gp_pred = 0, gp_lru = 0\<rparr>), gp_use = 0\<rparr>"

definition gp_match :: "addr \<Rightarrow> addr \<Rightarrow> gp_entry \<Rightarrow> bool" where
  "gp_match ip pir e \<longleftrightarrow> gp_valid e \<and> ucast (gp_tag e) = gp_mktag ip pir"

definition gp_predict :: "addr \<Rightarrow> addr \<Rightarrow> gpred \<Rightarrow> bool" where
  "gp_predict ip pir p = list_ex (gp_match ip pir) (row (gp_index ip pir) (gp_ways p))"

definition gp_lookup :: "addr \<Rightarrow> addr \<Rightarrow> gpred \<Rightarrow> bp_return" where
  "gp_lookup ip pir p = (case List.find (gp_match ip pir) (row (gp_index ip pir) (gp_ways p)) of
       Some e \<Rightarrow> bp_no_hit\<lparr>bpr_hit := True, bpr_prediction := sat_predict (gp_pred e)\<rparr>
     | None \<Rightarrow> bp_no_hit)"

definition gp_update :: "bool \<Rightarrow> addr \<Rightarrow> addr \<Rightarrow> gpred \<Rightarrow> gpred" where
  "gp_update actual ip pir p =
     (let i = gp_index ip pir; es = row i (gp_ways p) in
      case search_ways (gp_match ip pir) gp_lru es of
        (True, w) \<Rightarrow> p\<lparr>gp_ways := put_way w i
            ((es ! w)\<lparr>gp_pred := sat_update 2 actual (gp_pred (es ! w)), gp_lru := gp_use p\<rparr>) (gp_ways p),
          gp_use := gp_use p + 1\<rparr>
      | (False, w) \<Rightarrow> p\<lparr>gp_ways := put_way w i
            \<lparr>gp_valid = True, gp_tag = ucast (gp_mktag ip pir), gp_pred = sat_reset 2 actual, gp_lru = gp_use p\<rparr> (gp_ways p),
          gp_use := gp_use p + 1\<rparr>)"

subsection \<open>LoopBranchPredictor\<close>

record lpb_entry =
  lp_tag :: u8
  lp_previous_actual :: bool
  lp_enabled :: bool
  lp_pred :: int
  lp_lru :: u64
  lp_count :: u32
  lp_limit :: u32

record lpb =
  lpb_ways :: "lpb_entry list list"
  lpb_use :: u64

definition lpb_index :: "addr \<Rightarrow> nat" where
  "lpb_index ip = unat (drop_bit 4 ip AND 0x3F)"

definition lpb_mktag :: "addr \<Rightarrow> u32" where
  "lpb_mktag ip = ucast (drop_bit 10 ip AND 0x3F)"

definition LoopBranchPredictor :: "nat \<Rightarrow> nat \<Rightarrow> lpb" where
  "LoopBranchPredictor entries ways =
     \<lparr>lpb_ways = replicate ways (replicate (entries div ways)
        \<lparr>lp_tag = 0, lp_previous_actual = False, lp_enabled = False, lp_pred = 0, lp_lru = 0,
         lp_count = 0, lp_limit = 0\<rparr>), lpb_use = 0\<rparr>"

definition lpb_prediction :: "lpb_entry \<Rightarrow> bool" where
  "lpb_prediction e = (if lp_count e = lp_limit e then \<not> sat_predict (lp_pred e) else sat_predict (lp_pred e))"

definition lpb_lookup :: "addr \<Rightarrow> lpb \<Rightarrow> bp_return \<times> lpb" where
  "lpb_lookup ip p =
     (let i = lpb_index ip; es = row i (lpb_ways p) in
      case find_first (\<lambda>e. lp_enabled e \<and> ucast (lp_tag e) = lpb_mktag ip) es of
        Some w \<Rightarrow> (bp_no_hit\<lparr>bpr_hit := True, bpr_prediction := lpb_prediction (es ! w)\<rparr>,
          p\<lparr>lpb_ways := put_way w i ((es ! w)\<lparr>lp_lru := lpb_use p\<rparr>) (lpb_ways p), lpb_use := lpb_use p + 1\<rparr>)
      | None \<Rightarrow> (bp_no_hit, p))"

definition prediction_match :: "bool \<Rightarrow> lpb_entry \<Rightarrow> bool" where
  "prediction_match actual e \<longleftrightarrow>
     (if lp_count e = lp_limit e then sat_predict (lp_pred e) \<noteq> actual else sat_predict (lp_pred e) = actual)"

text \<open>The next counter, limit and enable bit when the loop keeps its direction.\<close>

definition lpb_same_direction :: "bool \<Rightarrow> lpb_entry \<Rightarrow> u32 \<times> u32 \<times> bool" where
  "lpb_same_direction actual e =
     (if \<not> prediction_match actual e then
        (if lp_count e < lp_limit e then (0, lp_count e, lp_enabled e)
         else (lp_count e + 1, lp_count e + 1, False))
      else ((if lp_count e = lp_limit e then 0 else lp_count e + 1), lp_limit e, lp_enabled e))"

definition lpb_next :: "bool \<Rightarrow> lpb_entry \<Rightarrow> lpb_entry" where
  "lpb_next actual e =
     (let prediction = sat_predict (lp_pred e); (counter, limit, enabled) = lpb_same_direction actual e in
      if lp_previous_actual e = actual \<and> actual = (\<not> prediction) then
        e\<lparr>lp_count := 1, lp_limit := 1, lp_pred := sat_update 1 actual (lp_pred e), lp_enabled := False\<rparr>
      else if lp_previous_actual e \<noteq> actual \<and> actual = (\<not> prediction) \<and> \<not> lp_enabled e then
        e\<lparr>lp_enabled := True, lp_count := 0\<rparr>
      else e\<lparr>lp_enabled := enabled, lp_count := counter, lp_limit := limit\<rparr>)"

definition lpb_update :: "bool \<Rightarrow> addr \<Rightarrow> lpb \<Rightarrow> lpb" where
  "lpb_update actual ip p =
     (let i = lpb_index ip; es = row i (lpb_ways p) in
      case search_ways (\<lambda>e. ucast (lp_tag e) = lpb_mktag ip) lp_lru es of
        (True, w) \<Rightarrow> p\<lparr>lpb_ways := put_way w i
            ((lpb_next actual (es ! w))\<lparr>lp_previous_actual := actual, lp_lru := lpb_use p\<rparr>) (lpb_ways p),
          lpb_use := lpb_use p + 1\<rparr>
      | (False, w) \<Rightarrow> p\<lparr>lpb_ways := put_way w i
            ((es ! w)\<lparr>lp_tag := ucast (lpb_mktag ip), lp_pred := sat_reset 1 actual, lp_previous_actual := actual,
              lp_lru := lpb_use p, lp_count := 1, lp_limit := 1\<rparr>) (lpb_ways p),
          lpb_use := lpb_use p + 1\<rparr>)"

subsection \<open>PentiumMBranchPredictor\<close>

record pentium_m =
  pm_counters :: bp_counters
  pm_global :: gpred
  pm_btb :: btb
  pm_bimodal :: bimodal
  pm_lpb :: lpb
  pm_pir :: addr
  pm_last_gp_hit :: bool
  pm_last_lpb_hit :: bool

definition PentiumMBranchPredictor :: pentium_m where
  "PentiumMBranchPredictor =
     \<lparr>pm_counters = bp_counters_init, pm_global = GlobalPredictor 2048 4, pm_btb = PentiumMBranchTargetBuffer,
      pm_bimodal = SimpleBimodalTable 4096, pm_lpb = LoopBranchPredictor 128 2, pm_pir = 0,
      pm_last_gp_hit = False, pm_last_lpb_hit = False\<rparr>"

definition pentium_m_predict :: "addr \<Rightarrow> pentium_m \<Rightarrow> bool \<times> pentium_m" where
  "pentium_m_predict ip p =
     (let g = gp_lookup ip (pm_pir p) (pm_global p);
          b = btb_lookup ip (pm_btb p);
          (l, lpb) = lpb_lookup ip (pm_lpb p);
          m = bimodal_predict ip (pm_bimodal p);
          p = p\<lparr>pm_lpb := lpb, pm_last_gp_hit := bpr_hit g, pm_last_lpb_hit := bpr_hit l \<and> bpr_hit b\<rparr>
      in (if bpr_hit g then bpr_prediction g
          else if bpr_hit l \<and> bpr_hit b then bpr_prediction l else m, p))"

definition update_pir :: "bool \<Rightarrow> addr \<Rightarrow> addr \<Rightarrow> branch_type \<Rightarrow> addr \<Rightarrow> addr" where
  "update_pir actual ip target branch_type pir =
     (if branch_type = ConditionalBranch \<and> actual then (push_bit 2 pir XOR drop_bit 4 ip) AND 0x7fff
      else if branch_type = IndirectBranch then (push_bit 2 pir XOR (drop_bit 4 ip OR target)) AND 0x7fff
      else pir)"

definition pentium_m_update :: "bool \<Rightarrow> bool \<Rightarrow> addr \<Rightarrow> addr \<Rightarrow> pentium_m \<Rightarrow> pentium_m" where
  "pentium_m_update predicted actual ip target p =
     p\<lparr>pm_counters := bp_updateCounters predicted actual (pm_counters p),
       pm_btb := btb_update ip (pm_btb p),
       pm_lpb := lpb_update actual ip (pm_lpb p),
       pm_bimodal := (if \<not> pm_last_gp_hit p \<and> \<not> pm_last_lpb_hit p
                      then bimodal_update actual ip (pm_bimodal p) else pm_bimodal p),
       pm_global := (if predicted \<noteq> actual then gp_update actual ip (pm_pir p) (pm_global p) else pm_global p),
       pm_pir := update_pir actual ip target ConditionalBranch (pm_pir p)\<rparr>"

text \<open>\<open>BranchPredictor::create\<close> with the configured penalty, type and size; the result is the static
  penalty and the predictor, \<open>None\<close> for the null pointer of type "none".\<close>

datatype branch_predictor = OneBit one_bit | PentiumM pentium_m

definition bp_create :: "u64 \<Rightarrow> string \<Rightarrow> u32 \<Rightarrow> (u64 \<times> branch_predictor option) res" where
  "bp_create penalty type sz =
     (if type = ''none'' then Inr (penalty, None)
      else if type = ''one_bit'' then Inr (penalty, Some (OneBit (OneBitBranchPredictor sz)))
      else if type = ''pentium_m'' then Inr (penalty, Some (PentiumM PentiumMBranchPredictor))
      else Inl (Log_Error ''Invalid branch predictor type.''))"

fun bp_predict :: "addr \<Rightarrow> branch_predictor \<Rightarrow> (bool \<times> branch_predictor) res" where
  "bp_predict ip (OneBit p) = bindE (one_bit_predict ip p) (\<lambda>b. Inr (b, OneBit p))"
| "bp_predict ip (PentiumM p) = (let (b, p) = pentium_m_predict ip p in Inr (b, PentiumM p))"

fun bp_update :: "bool \<Rightarrow> bool \<Rightarrow> addr \<Rightarrow> addr \<Rightarrow> branch_predictor \<Rightarrow> branch_predictor res" where
  "bp_update predicted actual ip target (OneBit p) =
     bindE (one_bit_update predicted actual ip p) (\<lambda>p. Inr (OneBit p))"
| "bp_update predicted actual ip target (PentiumM p) = Inr (PentiumM (pentium_m_update predicted actual ip target p))"

end
