(* ===== verification/Branch_Props.thy ===== *)
theory Branch_Props
  imports Branch_Predictors
begin

text \<open>
  The branch predictors at work: counters that stay in range, tables that hit after an update and
  evict the least recently used way, and the loop predictor learning a loop.
\<close>

subsection \<open>Saturating counters\<close>

definition sat_ok :: "nat \<Rightarrow> int \<Rightarrow> bool" where
  "sat_ok n c \<longleftrightarrow> - (2 ^ (n - 1)) \<le> c \<and> c \<le> 2 ^ (n - 1) - 1"

lemma sat_ok_reset: "sat_ok n (sat_reset n b)"
  by (simp add: sat_ok_def sat_reset_def)

lemma sat_ok_update: "sat_ok n c \<Longrightarrow> sat_ok n (sat_update n b c)"
  by (auto simp: sat_ok_def sat_update_def sat_inc_def sat_dec_def)

lemma sat_reset_predict: "sat_predict (sat_reset n b) = b"
  by (simp add: sat_predict_def sat_reset_def)

lemma sat_updates_predict:
  assumes "sat_ok n c"
  shows "sat_predict ((sat_update n b ^^ (2 ^ (n - 1))) c) = b"
proof -
  have up: "(sat_update n True ^^ k) c = min (c + int k) (2 ^ (n - 1) - 1)" for k
    using assms by (induction k) (auto simp: sat_ok_def sat_update_def sat_inc_def)
  have dn: "(sat_update n False ^^ k) c = max (c - int k) (- (2 ^ (n - 1)))" for k
    using assms by (induction k) (auto simp: sat_ok_def sat_update_def sat_dec_def)
  show ?thesis using assms
    by (cases b) (auto simp: up dn sat_ok_def sat_predict_def)
qed

lemma sat_hysteresis:
  assumes "sat_predict c = b" and "sat_predict (sat_update 2 (\<not> b) c) = (\<not> b)"
  shows "c = 0 \<or> c = -1"
  using assms by (auto simp: sat_predict_def sat_update_def sat_inc_def sat_dec_def split: if_splits)

subsection \<open>Searching the ways\<close>

lemma scan_ways_hit:
  "scan_ways hit lru w lw least es = (True, k) \<Longrightarrow>
    w \<le> k \<and> k < w + length es \<and> hit (es ! (k - w)) \<and> (\<forall>j < k - w. \<not> hit (es ! j))"
proof (induction es arbitrary: w lw least)
  case (Cons e es)
  show ?case
  proof (cases "hit e")
    case True
    with Cons.prems show ?thesis by simp
  next
    case False
    with Cons.prems obtain lw' l' where "scan_ways hit lru (Suc w) lw' l' es = (True, k)"
      by (auto split: if_splits)
    from Cons.IH [OF this] False show ?thesis
      by (auto simp: nth_Cons Suc_diff_le less_Suc_eq_0_disj split: nat.splits)
  qed
qed simp

lemma nth_Cons_diff: "Suc w \<le> k \<Longrightarrow> (e # es) ! (k - w) = es ! (k - Suc w)"
  by (simp add: nth_Cons' )

lemma scan_ways_miss:
  assumes "scan_ways hit lru w lw least es = (False, k)"
  shows "(\<forall>e \<in> set es. \<not> hit e) \<and>
    ((k = lw \<and> (\<forall>e \<in> set es. least \<le> lru e)) \<or>
     (w \<le> k \<and> k < w + length es \<and> lru (es ! (k - w)) < least \<and> (\<forall>e \<in> set es. lru (es ! (k - w)) \<le> lru e)))"
  using assms
proof (induction es arbitrary: w lw least)
  case (Cons e es)
  then have nh: "\<not> hit e" by (auto split: if_splits)
  show ?case
  proof (cases "lru e < least")
    case True
    with Cons.prems nh have "scan_ways hit lru (Suc w) w (lru e) es = (False, k)" by simp
    note ih = Cons.IH [OF this]
    show ?thesis
    proof (cases "k = w")
      case True
      with ih nh \<open>lru e < least\<close> show ?thesis by simp
    next
      case False
      with ih have "Suc w \<le> k" and "lru (es ! (k - Suc w)) < lru e" by auto
      moreover from this True have "lru (es ! (k - Suc w)) < least" by (simp only: order.strict_trans)
      ultimately show ?thesis using ih nh by (simp add: nth_Cons_diff less_imp_le)
    qed
  next
    case False
    with Cons.prems nh have "scan_ways hit lru (Suc w) lw least es = (False, k)" by simp
    note ih = Cons.IH [OF this]
    show ?thesis
    proof (cases "k = lw \<and> (\<forall>e \<in> set es. least \<le> lru e)")
      case True
      with False nh ih show ?thesis by (simp add: not_less)
    next
      case not: False
      with ih have "Suc w \<le> k" and "lru (es ! (k - Suc w)) < least" by auto
      moreover from this False have "lru (es ! (k - Suc w)) \<le> lru e" by (metis less_imp_le not_less order.strict_trans2)
      ultimately show ?thesis using ih nh not by (simp add: nth_Cons_diff)
    qed
  qed
qed simp

lemma search_ways_cases:
  assumes "es \<noteq> []" and "search_ways hit lru es = (found, k)"
  shows "k < length es \<and> (if found then hit (es ! k) \<and> (\<forall>j<k. \<not> hit (es ! j))
    else (\<forall>e \<in> set es. \<not> hit e \<and> lru (es ! k) \<le> lru e))"
proof (cases found)
  case True
  with assms scan_ways_hit [of hit lru 0 0 "lru (hd es)" es k] show ?thesis by (simp add: search_ways_def)
next
  case False
  then have "scan_ways hit lru 0 0 (lru (hd es)) es = (False, k)" using assms(2) by (simp add: search_ways_def)
  note m = scan_ways_miss [OF this]
  show ?thesis
  proof (cases "k = 0 \<and> (\<forall>e \<in> set es. lru (hd es) \<le> lru e)")
    case True
    with m \<open>\<not> found\<close> assms(1) show ?thesis by (simp add: hd_conv_nth)
  next
    case not: False
    with m False show ?thesis by simp
  qed
qed

subsection \<open>Tables\<close>

definition table_ok :: "nat \<Rightarrow> nat \<Rightarrow> 'e list list \<Rightarrow> bool" where
  "table_ok n m ways \<longleftrightarrow> length ways = n \<and> (\<forall>w \<in> set ways. length w = m)"

lemma table_ok_replicate: "table_ok n m (replicate n (replicate m e))"
  by (simp add: table_ok_def)

lemma length_row [simp]: "length (row i ways) = length ways"
  by (simp add: row_def)

lemma nth_row: "w < length ways \<Longrightarrow> row i ways ! w = ways ! w ! i"
  by (simp add: row_def)

lemma table_ok_put: "table_ok n m ways \<Longrightarrow> table_ok n m (put_way w i e ways)"
proof (cases "w < length ways")
  case True
  then show "table_ok n m ways \<Longrightarrow> table_ok n m (put_way w i e ways)"
    by (auto simp: table_ok_def put_way_def dest!: subsetD [OF set_update_subset_insert])
qed (simp add: put_way_def list_update_beyond)

lemma row_put_way:
  assumes "table_ok n m ways" and "w < n" and "i < m"
  shows "row j (put_way w i e ways) = (if j = i then (row i ways)[w := e] else row j ways)"
proof -
  have "length (ways ! w) = m" using assms by (simp add: table_ok_def)
  with assms show ?thesis
    by (auto simp: row_def put_way_def table_ok_def list_eq_iff_nth_eq nth_list_update)
qed

lemma unat_and_mask_less: "unat (x AND mask k) < 2 ^ k"
  by (simp add: unat_and_mask)

lemma btb_index_less: "btb_index ip < 512"
  using unat_and_mask_less [of "drop_bit 4 ip" 9] by (simp add: btb_index_def mask_eq_exp_minus_1)

lemma gp_index_less: "gp_index ip pir < 512"
  using unat_and_mask_less [of "drop_bit 4 ip XOR drop_bit 6 pir" 9] by (simp add: gp_index_def mask_eq_exp_minus_1)

lemma lpb_index_less: "lpb_index ip < 64"
  using unat_and_mask_less [of "drop_bit 4 ip" 6] by (simp add: lpb_index_def mask_eq_exp_minus_1)

lemma ibtb_index_less: "ibtb_index ip < 256"
  using unat_and_mask_less [of "drop_bit 6 ip" 8] by (simp add: ibtb_index_def mask_eq_exp_minus_1)

text \<open>A tag of at most eight bits survives the byte it is stored in.\<close>

lemma tag_byte:
  fixes x :: addr
  assumes "m = mask k" and "k \<le> 8"
  shows "(ucast (ucast (ucast (x AND m) :: u32) :: u8) :: u32) = ucast (x AND m)"
  using assms by (auto simp: bit_eq_iff bit_ucast_iff bit_and_iff bit_mask_iff)

lemma gp_tag_byte: "(ucast (ucast (gp_mktag ip pir) :: u8) :: u32) = gp_mktag ip pir"
  unfolding gp_mktag_def by (rule tag_byte [where k = 6]) (simp_all add: mask_eq_exp_minus_1)

lemma lpb_tag_byte: "(ucast (ucast (lpb_mktag ip) :: u8) :: u32) = lpb_mktag ip"
  unfolding lpb_mktag_def by (rule tag_byte [where k = 6]) (simp_all add: mask_eq_exp_minus_1)

subsection \<open>A table hits on what was trained last\<close>

locale trained_table =
  fixes ok :: "'p \<Rightarrow> bool"
    and hit :: "addr \<Rightarrow> 'p \<Rightarrow> bool"
    and train :: "bool \<Rightarrow> addr \<Rightarrow> 'p \<Rightarrow> 'p"
  assumes train_ok: "ok p \<Longrightarrow> ok (train b ip p)"
    and train_hit: "ok p \<Longrightarrow> hit ip (train b ip p)"
begin

lemma train_all_ok: "ok p \<Longrightarrow> ok (fold (\<lambda>(b, ip). train b ip) xs p)"
  by (induction xs arbitrary: p) (auto simp: train_ok)

lemma last_trained_hits:
  assumes "ok p" and "xs \<noteq> []"
  shows "hit (snd (last xs)) (fold (\<lambda>(b, ip). train b ip) xs p)"
proof -
  from assms(2) obtain ys b ip where xs: "xs = ys @ [(b, ip)]" by (cases xs rule: rev_cases) auto
  show ?thesis
    using train_hit [OF train_all_ok [OF assms(1)], of ip b ys] by (simp add: xs)
qed

end

definition btb_ok :: "btb \<Rightarrow> bool" where
  "btb_ok p \<longleftrightarrow> table_ok 4 512 (btb_ways p)"

definition gp_ok :: "gpred \<Rightarrow> bool" where
  "gp_ok p \<longleftrightarrow> table_ok 4 512 (gp_ways p)"

lemma row_nonempty: "table_ok n m ways \<Longrightarrow> 0 < n \<Longrightarrow> row i ways \<noteq> [] \<and> length (row i ways) = n"
  by (auto simp: table_ok_def row_def)

lemma btb_update_row:
  assumes "btb_ok p"
  shows "\<exists>w e. w < 4 \<and> bt_tag_offset e = btb_tagoff ip \<and> bt_plru e = btb_use p \<and>
    btb_ways (btb_update ip p) = put_way w (btb_index ip) e (btb_ways p) \<and>
    btb_use (btb_update ip p) = btb_use p + 1 \<and>
    ((bt_tag_offset (row (btb_index ip) (btb_ways p) ! w) = btb_tagoff ip) \<or>
     (\<forall>e' \<in> set (row (btb_index ip) (btb_ways p)). bt_plru (row (btb_index ip) (btb_ways p) ! w) \<le> bt_plru e'))"
proof -
  let ?es = "row (btb_index ip) (btb_ways p)"
  obtain found w where s: "search_ways (\<lambda>e. bt_tag_offset e = btb_tagoff ip) bt_plru ?es = (found, w)"
    by fastforce
  have len: "?es \<noteq> []" "length ?es = 4" using assms by (auto simp: btb_ok_def table_ok_def row_def)
  note c = search_ways_cases [OF len(1) s]
  show ?thesis
  proof (cases found)
    case True
    with s c len show ?thesis
      by (intro exI [of _ w] exI [of _ "(?es ! w)\<lparr>bt_plru := btb_use p\<rparr>"]) (simp add: btb_update_def Let_def)
  next
    case False
    with s c len show ?thesis
      by (intro exI [of _ w] exI [of _ "\<lparr>bt_tag_offset = btb_tagoff ip, bt_plru = btb_use p\<rparr>"])
         (simp add: btb_update_def Let_def)
  qed
qed

lemma btb_update_ok: "btb_ok p \<Longrightarrow> btb_ok (btb_update ip p)"
  using btb_update_row [of p ip] by (auto simp: btb_ok_def table_ok_put)

lemma btb_update_hit: "btb_ok p \<Longrightarrow> bpr_hit (btb_lookup ip (btb_update ip p))"
proof -
  assume ok: "btb_ok p"
  obtain w e where u: "w < 4" "bt_tag_offset e = btb_tagoff ip"
      "btb_ways (btb_update ip p) = put_way w (btb_index ip) e (btb_ways p)"
    using btb_update_row [OF ok] by blast
  have "row (btb_index ip) (btb_ways (btb_update ip p)) = (row (btb_index ip) (btb_ways p))[w := e]"
    using row_put_way [of 4 512 "btb_ways p" w] ok u btb_index_less by (simp add: btb_ok_def)
  moreover have "w < length (row (btb_index ip) (btb_ways p))" using ok u by (simp add: btb_ok_def table_ok_def)
  ultimately have "e \<in> set (row (btb_index ip) (btb_ways (btb_update ip p)))"
    by (simp add: set_update_memI)
  with u(2) show ?thesis by (auto simp: btb_lookup_def list_ex_iff)
qed

interpretation btb: trained_table btb_ok "\<lambda>ip p. bpr_hit (btb_lookup ip p)" "\<lambda>b. btb_update"
  by unfold_locales (simp_all add: btb_update_ok btb_update_hit)

interpretation ibtb: trained_table "\<lambda>t. length t = 256" ibtb_predict "\<lambda>b. ibtb_update"
proof unfold_locales
  fix t :: "u8 list" and ip
  have "(ucast (ucast (ibtb_tag ip) :: u8) :: u32) = ibtb_tag ip"
  proof -
    have b: "bit (64 :: int) n \<Longrightarrow> n < 7" "bit (63 :: int) n \<Longrightarrow> n < 7" for n
      using bit_exp_iff [where 'a = int, of 6 n] bit_mask_iff [where 'a = int, of 6 n]
      by (simp_all add: mask_eq_exp_minus_1)
    have "ibtb_tag ip = ucast ((drop_bit 8 (ip AND 0x4000) OR (ip AND 0x3F)) AND mask 7)"
      unfolding ibtb_tag_def
      by (rule arg_cong [of _ _ ucast]) (auto simp: bit_eq_iff bit_and_iff bit_or_iff bit_drop_bit_eq bit_mask_iff dest: b)
    then show ?thesis using tag_byte [of "mask 7" 7 "drop_bit 8 (ip AND 0x4000) OR (ip AND 0x3F)"] by simp
  qed
  moreover assume "length t = 256"
  ultimately show "ibtb_predict ip (ibtb_update ip t)"
    using ibtb_index_less [of ip] by (simp add: ibtb_predict_def ibtb_update_def)
qed (simp add: ibtb_update_def)

subsection \<open>The most recently trained branch is not evicted by the next one\<close>

lemma btb_update_survives:
  assumes "btb_ok p"
    and older: "\<forall>e \<in> set (row (btb_index ip) (btb_ways p)). bt_plru e < btb_use p"
  shows "bpr_hit (btb_lookup ip (btb_update ip' (btb_update ip p)))"
proof -
  let ?p = "btb_update ip p" and ?i = "btb_index ip"
  obtain w e where u: "w < 4" "bt_tag_offset e = btb_tagoff ip" "bt_plru e = btb_use p"
      "btb_ways ?p = put_way w ?i e (btb_ways p)"
    using btb_update_row [OF assms(1), of ip] by blast
  have ok: "btb_ok ?p" by (rule btb_update_ok [OF assms(1)])
  obtain w' e' where u': "w' < 4" "bt_tag_offset e' = btb_tagoff ip'"
      "btb_ways (btb_update ip' ?p) = put_way w' (btb_index ip') e' (btb_ways ?p)"
      "bt_tag_offset (row (btb_index ip') (btb_ways ?p) ! w') = btb_tagoff ip' \<or>
       (\<forall>f \<in> set (row (btb_index ip') (btb_ways ?p)). bt_plru (row (btb_index ip') (btb_ways ?p) ! w') \<le> bt_plru f)"
    using btb_update_row [OF ok, of ip'] by blast
  have r: "row ?i (btb_ways ?p) = (row ?i (btb_ways p))[w := e]"
    using row_put_way [of 4 512 "btb_ways p" w ?i ?i e] assms(1) u btb_index_less by (simp add: btb_ok_def)
  have l: "length (row ?i (btb_ways p)) = 4" using assms(1) by (simp add: btb_ok_def table_ok_def)
  have r': "row ?i (btb_ways (btb_update ip' ?p)) =
      (if ?i = btb_index ip' then (row ?i (btb_ways ?p))[w' := e'] else row ?i (btb_ways ?p))"
    using row_put_way [of 4 512 "btb_ways ?p" w' "btb_index ip'" ?i e'] ok u' btb_index_less by (simp add: btb_ok_def)
  have "\<exists>f \<in> set (row ?i (btb_ways (btb_update ip' ?p))). bt_tag_offset f = btb_tagoff ip"
  proof (cases "?i = btb_index ip' \<and> w' = w")
    case False
    have "row ?i (btb_ways (btb_update ip' ?p)) ! w = e"
      using False r r' u(1) l by auto
    moreover have "w < length (row ?i (btb_ways (btb_update ip' ?p)))"
      using arg_cong [OF r, of length] r' u(1) l by simp
    ultimately show ?thesis using u(2) nth_mem by blast
  next
    case True
    have tag: "bt_tag_offset e = btb_tagoff ip'"
    proof (rule ccontr)
      assume "bt_tag_offset e \<noteq> btb_tagoff ip'"
      with u'(4) True r l u(1) have le: "\<forall>f \<in> set ((row ?i (btb_ways p))[w := e]). bt_plru e \<le> bt_plru f"
        by simp
      let ?v = "if w = 0 then 1 else 0 :: nat"
      have "(row ?i (btb_ways p))[w := e] ! ?v = row ?i (btb_ways p) ! ?v" by auto
      moreover have "?v < length ((row ?i (btb_ways p))[w := e])" using l by simp
      ultimately have "bt_plru e \<le> bt_plru (row ?i (btb_ways p) ! ?v)" using le nth_mem by metis
      moreover have "bt_plru (row ?i (btb_ways p) ! ?v) < btb_use p" using older l by simp
      ultimately show False using u(3) by simp
    qed
    have "e' \<in> set (row ?i (btb_ways (btb_update ip' ?p)))"
      using True r r' u'(1) l by (simp add: set_update_memI)
    with u'(2) u(2) tag show ?thesis by auto
  qed
  then show ?thesis by (auto simp: btb_lookup_def list_ex_iff)
qed

subsection \<open>The global predictor\<close>

lemma find_nth: "k < length xs \<Longrightarrow> P (xs ! k) \<Longrightarrow> \<forall>j<k. \<not> P (xs ! j) \<Longrightarrow> List.find P xs = Some (xs ! k)"
  by (auto simp: find_Some_iff)

definition gp_counters_ok :: "gpred \<Rightarrow> bool" where
  "gp_counters_ok p \<longleftrightarrow> gp_ok p \<and> (\<forall>w \<in> set (gp_ways p). \<forall>e \<in> set w. sat_ok 2 (gp_pred e))"

lemma gp_update_entry:
  assumes "gp_ok p"
  shows "\<exists>w e. w < 4 \<and> gp_ways (gp_update b ip pir p) = put_way w (gp_index ip pir) e (gp_ways p) \<and>
    List.find (gp_match ip pir) (row (gp_index ip pir) (gp_ways (gp_update b ip pir p))) = Some e \<and>
    gp_pred e = (case List.find (gp_match ip pir) (row (gp_index ip pir) (gp_ways p)) of
       Some e' \<Rightarrow> sat_update 2 b (gp_pred e') | None \<Rightarrow> sat_reset 2 b)"
proof -
  let ?i = "gp_index ip pir"
  let ?es = "row ?i (gp_ways p)"
  obtain found w where s: "search_ways (gp_match ip pir) gp_lru ?es = (found, w)" by fastforce
  have len: "?es \<noteq> []" "length ?es = 4" using assms by (auto simp: gp_ok_def table_ok_def row_def)
  note c = search_ways_cases [OF len(1) s]
  have r: "row ?i (put_way w ?i e (gp_ways p)) = ?es[w := e]" for e
    using row_put_way [of 4 512 "gp_ways p" w ?i ?i e] assms c len gp_index_less by (simp add: gp_ok_def)
  show ?thesis
  proof (cases found)
    case True
    let ?e = "(?es ! w)\<lparr>gp_pred := sat_update 2 b (gp_pred (?es ! w)), gp_lru := gp_use p\<rparr>"
    have up: "gp_ways (gp_update b ip pir p) = put_way w ?i ?e (gp_ways p)"
      using s True by (simp add: gp_update_def Let_def)
    have "List.find (gp_match ip pir) (?es[w := ?e]) = Some (?es[w := ?e] ! w)"
      using c True by (intro find_nth) (auto simp: gp_match_def)
    moreover have "List.find (gp_match ip pir) ?es = Some (?es ! w)"
      using c True by (intro find_nth) auto
    ultimately show ?thesis using c len up r by (intro exI [of _ w] exI [of _ ?e]) simp
  next
    case False
    let ?e = "\<lparr>gp_valid = True, gp_tag = ucast (gp_mktag ip pir), gp_pred = sat_reset 2 b, gp_lru = gp_use p\<rparr>"
    have up: "gp_ways (gp_update b ip pir p) = put_way w ?i ?e (gp_ways p)"
      using s False by (simp add: gp_update_def Let_def)
    have "List.find (gp_match ip pir) (?es[w := ?e]) = Some (?es[w := ?e] ! w)"
      using c False by (intro find_nth) (auto simp: gp_match_def gp_tag_byte)
    moreover have "List.find (gp_match ip pir) ?es = None"
      using c False by (auto simp: find_None_iff)
    ultimately show ?thesis using c len up r by (intro exI [of _ w] exI [of _ ?e]) simp
  qed
qed

lemma gp_update_ok: "gp_ok p \<Longrightarrow> gp_ok (gp_update b ip pir p)"
  using gp_update_entry [of p b ip pir] by (auto simp: gp_ok_def table_ok_put)

lemma gp_find_row:
  assumes "gp_counters_ok p" and "List.find P (row (gp_index ip pir) (gp_ways p)) = Some e"
  shows "sat_ok 2 (gp_pred e)"
proof -
  obtain k where k: "k < length (gp_ways p)" "e = gp_ways p ! k ! gp_index ip pir"
    using assms(2) by (auto simp: find_Some_iff row_def)
  moreover from this assms(1) gp_index_less have "e \<in> set (gp_ways p ! k)"
    by (simp add: gp_counters_ok_def gp_ok_def table_ok_def)
  ultimately show ?thesis using assms(1) by (auto simp: gp_counters_ok_def)
qed

lemma gp_two_updates:
  assumes "gp_counters_ok p"
  shows "gp_lookup ip pir (gp_update b ip pir (gp_update b ip pir p)) =
    bp_no_hit\<lparr>bpr_hit := True, bpr_prediction := b\<rparr>"
proof -
  let ?p = "gp_update b ip pir p"
  have ok: "gp_ok p" using assms by (simp add: gp_counters_ok_def)
  obtain e where e: "List.find (gp_match ip pir) (row (gp_index ip pir) (gp_ways ?p)) = Some e"
      "gp_pred e = (case List.find (gp_match ip pir) (row (gp_index ip pir) (gp_ways p)) of
       Some e' \<Rightarrow> sat_update 2 b (gp_pred e') | None \<Rightarrow> sat_reset 2 b)"
    using gp_update_entry [OF ok, of b ip pir] by blast
  obtain f where f: "List.find (gp_match ip pir) (row (gp_index ip pir) (gp_ways (gp_update b ip pir ?p))) = Some f"
      "gp_pred f = sat_update 2 b (gp_pred e)"
    using gp_update_entry [OF gp_update_ok [OF ok], of b ip pir b ip pir] e(1) by auto
  have "sat_predict (gp_pred f) = b"
  proof (cases "List.find (gp_match ip pir) (row (gp_index ip pir) (gp_ways p))")
    case None
    with e f show ?thesis by (simp add: sat_predict_def sat_reset_def sat_update_def sat_inc_def sat_dec_def)
  next
    case (Some e')
    with gp_find_row [OF assms Some] e f sat_updates_predict [of 2 "gp_pred e'" b] show ?thesis
      by (simp add: funpow_swap1 numeral_2_eq_2)
  qed
  with f(1) show ?thesis by (simp add: gp_lookup_def)
qed

interpretation gp: trained_table gp_ok "\<lambda>ip p. bpr_hit (gp_lookup ip pir p)" "\<lambda>b ip. gp_update b ip pir" for pir
proof unfold_locales
  fix p b ip
  assume ok: "gp_ok p"
  then show "gp_ok (gp_update b ip pir p)" by (rule gp_update_ok)
  from gp_update_entry [OF ok, of b ip pir] show "bpr_hit (gp_lookup ip pir (gp_update b ip pir p))"
    by (auto simp: gp_lookup_def)
qed

subsection \<open>The loop predictor learns a loop\<close>

text \<open>One branch, run alone: look it up, then train it. The result says whether the lookup hit and
  what it predicted.\<close>

definition lpb_step :: "addr \<Rightarrow> bool \<Rightarrow> lpb \<Rightarrow> (bool \<times> bool) \<times> lpb" where
  "lpb_step ip actual p = (let (r, p) = lpb_lookup ip p in ((bpr_hit r, bpr_prediction r), lpb_update actual ip p))"

fun lpb_run :: "addr \<Rightarrow> bool list \<Rightarrow> lpb \<Rightarrow> (bool \<times> bool) list \<times> lpb" where
  "lpb_run ip [] p = ([], p)"
| "lpb_run ip (b # bs) p = (let (r, p) = lpb_step ip b p; (rs, p) = lpb_run ip bs p in (r # rs, p))"

text \<open>The branch owns way \<open>w\<close>: the first way with its tag; no other way with that tag is enabled.\<close>

definition lpb_match :: "addr \<Rightarrow> lpb_entry \<Rightarrow> bool" where
  "lpb_match ip e \<longleftrightarrow> ucast (lp_tag e) = lpb_mktag ip"

definition lpb_core :: "lpb_entry \<Rightarrow> int \<times> bool \<times> bool \<times> u32 \<times> u32" where
  "lpb_core e = (lp_pred e, lp_previous_actual e, lp_enabled e, lp_count e, lp_limit e)"

definition lpb_at :: "addr \<Rightarrow> lpb_entry \<Rightarrow> lpb \<Rightarrow> bool" where
  "lpb_at ip e p \<longleftrightarrow> table_ok 2 64 (lpb_ways p) \<and> (\<exists>w<2. let es = row (lpb_index ip) (lpb_ways p) in
     lpb_match ip (es ! w) \<and> lpb_core (es ! w) = lpb_core e \<and> (\<forall>j<w. \<not> lpb_match ip (es ! j)) \<and>
     (\<forall>j<2. j \<noteq> w \<longrightarrow> \<not> (lp_enabled (es ! j) \<and> lpb_match ip (es ! j))))"

definition lpb_train :: "bool \<Rightarrow> lpb_entry \<Rightarrow> lpb_entry" where
  "lpb_train b e = (lpb_next b e)\<lparr>lp_previous_actual := b\<rparr>"

lemma lpb_core_next: "lpb_core e = lpb_core f \<Longrightarrow> lpb_core (lpb_train b e) = lpb_core (lpb_train b f)"
  by (simp add: lpb_core_def lpb_train_def lpb_next_def lpb_same_direction_def prediction_match_def Let_def split_beta)

lemma lpb_next_tag [simp]: "lp_tag (lpb_next b e) = lp_tag e"
  by (simp add: lpb_next_def Let_def split_beta)

lemma search_first:
  assumes "w < length es" and "hit (es ! w)" and "\<forall>j<w. \<not> hit (es ! j)"
  shows "search_ways hit lru es = (True, w)"
proof -
  obtain found k where s: "search_ways hit lru es = (found, k)" by fastforce
  note c = search_ways_cases [OF _ s]
  have ne: "es \<noteq> []" using assms(1) by auto
  have found using c [OF ne] assms(1,2) nth_mem by (auto split: if_splits)
  with c [OF ne] assms have "k = w" by (metis linorder_neqE_nat)
  with s \<open>found\<close> show ?thesis by simp
qed

lemma find_first_only:
  assumes "w < length es" and "\<forall>j<length es. P (es ! j) \<longleftrightarrow> j = w \<and> q"
  shows "find_first P es = (if q then Some w else None)"
proof (cases q)
  case False
  with assms show ?thesis by (auto simp: find_first_None_iff in_set_conv_nth)
next
  case True
  then have "P (es ! w)" using assms by simp
  then have "find_first P es \<noteq> None" using assms(1) nth_mem [of w es] by (auto simp: find_first_None_iff)
  then obtain k where k: "find_first P es = Some k" by blast
  from find_first_SomeD [OF k] assms True k show ?thesis by auto
qed

lemma lpb_at_put:
  assumes "table_ok 2 64 ways" and "w < 2" and es: "es = row (lpb_index ip) ways"
    and "lpb_match ip f" and "lpb_core f = lpb_core e" and "\<forall>j<w. \<not> lpb_match ip (es ! j)"
    and "\<forall>j<2. j \<noteq> w \<longrightarrow> \<not> (lp_enabled (es ! j) \<and> lpb_match ip (es ! j))"
    and "lpb_ways p = put_way w (lpb_index ip) f ways"
  shows "lpb_at ip e p"
proof -
  have "row (lpb_index ip) (lpb_ways p) = es[w := f]"
    using row_put_way [of 2 64 ways w "lpb_index ip" "lpb_index ip" f] assms lpb_index_less by simp
  moreover have "length es = 2" using assms(1) es by (simp add: table_ok_def)
  ultimately show ?thesis
    using assms unfolding lpb_at_def Let_def by (intro conjI exI [of _ w]) (auto simp: table_ok_put)
qed

lemma lpb_step_at:
  assumes at: "lpb_at ip e p"
  shows "\<exists>p'. lpb_step ip b p = ((lp_enabled e, lp_enabled e \<and> lpb_prediction e), p') \<and> lpb_at ip (lpb_train b e) p'"
proof -
  let ?i = "lpb_index ip"
  let ?es = "row ?i (lpb_ways p)"
  obtain w where w: "table_ok 2 64 (lpb_ways p)" "w < 2" "lpb_match ip (?es ! w)" "lpb_core (?es ! w) = lpb_core e"
      "\<forall>j<w. \<not> lpb_match ip (?es ! j)" "\<forall>j<2. j \<noteq> w \<longrightarrow> \<not> (lp_enabled (?es ! j) \<and> lpb_match ip (?es ! j))"
    using at by (auto simp: lpb_at_def Let_def)
  have len: "length ?es = 2" using w(1) by (simp add: table_ok_def)
  have en: "lp_enabled (?es ! w) = lp_enabled e" and pr: "lpb_prediction (?es ! w) = lpb_prediction e"
    using w(4) by (auto simp: lpb_core_def lpb_prediction_def)
  have ff: "find_first (\<lambda>e. lp_enabled e \<and> ucast (lp_tag e) = lpb_mktag ip) ?es = (if lp_enabled e then Some w else None)"
    by (rule find_first_only) (use w len en in \<open>auto simp: lpb_match_def\<close>)
  define r where "r = fst (lpb_lookup ip p)"
  define q where "q = snd (lpb_lookup ip p)"
  have lk: "lpb_lookup ip p = (r, q)" by (simp add: r_def q_def)
  have r: "(bpr_hit r, bpr_prediction r) = (lp_enabled e, lp_enabled e \<and> lpb_prediction e)"
    using ff pr by (simp add: r_def lpb_lookup_def Let_def bp_no_hit_def)
  have atq: "lpb_at ip e q"
  proof (cases "lp_enabled e")
    case False
    then show ?thesis using at ff by (simp add: q_def lpb_lookup_def Let_def)
  next
    case True
    then have q: "lpb_ways q = put_way w ?i ((?es ! w)\<lparr>lp_lru := lpb_use p\<rparr>) (lpb_ways p)"
      using ff by (simp add: q_def lpb_lookup_def Let_def)
    show ?thesis
      by (rule lpb_at_put [OF w(1,2) refl _ _ w(5,6) q]) (use w in \<open>simp_all add: lpb_match_def lpb_core_def\<close>)
  qed
  let ?fs = "row ?i (lpb_ways q)"
  obtain v where v: "table_ok 2 64 (lpb_ways q)" "v < 2" "lpb_match ip (?fs ! v)" "lpb_core (?fs ! v) = lpb_core e"
      "\<forall>j<v. \<not> lpb_match ip (?fs ! j)" "\<forall>j<2. j \<noteq> v \<longrightarrow> \<not> (lp_enabled (?fs ! j) \<and> lpb_match ip (?fs ! j))"
    using atq by (auto simp: lpb_at_def Let_def)
  have "search_ways (\<lambda>e. ucast (lp_tag e) = lpb_mktag ip) lp_lru ?fs = (True, v)"
    by (rule search_first) (use v in \<open>auto simp: lpb_match_def table_ok_def\<close>)
  then have up: "lpb_ways (lpb_update b ip q) = put_way v ?i ((lpb_train b (?fs ! v))\<lparr>lp_lru := lpb_use q\<rparr>) (lpb_ways q)"
    by (simp add: lpb_update_def Let_def lpb_train_def)
  have "lpb_at ip (lpb_train b e) (lpb_update b ip q)"
  proof (rule lpb_at_put [OF v(1,2) refl _ _ v(5,6) up])
    show "lpb_match ip ((lpb_train b (?fs ! v))\<lparr>lp_lru := lpb_use q\<rparr>)"
      using v(3) by (simp add: lpb_match_def lpb_train_def)
    show "lpb_core ((lpb_train b (?fs ! v))\<lparr>lp_lru := lpb_use q\<rparr>) = lpb_core (lpb_train b e)"
      using lpb_core_next [OF v(4), of b] by (simp add: lpb_core_def)
  qed
  then show ?thesis using lk r by (simp add: lpb_step_def Let_def)
qed

text \<open>So a branch run alone sees one entry.\<close>

fun lpb_entry_run :: "bool list \<Rightarrow> lpb_entry \<Rightarrow> (bool \<times> bool) list \<times> lpb_entry" where
  "lpb_entry_run [] e = ([], e)"
| "lpb_entry_run (b # bs) e = (let (rs, f) = lpb_entry_run bs (lpb_train b e) in
     ((lp_enabled e, lp_enabled e \<and> lpb_prediction e) # rs, f))"

lemma lpb_run_refines:
  "lpb_at ip e p \<Longrightarrow> \<exists>p'. lpb_run ip bs p = (fst (lpb_entry_run bs e), p') \<and> lpb_at ip (snd (lpb_entry_run bs e)) p'"
proof (induction bs arbitrary: e p)
  case (Cons b bs)
  obtain p1 where p1: "lpb_step ip b p = ((lp_enabled e, lp_enabled e \<and> lpb_prediction e), p1)" "lpb_at ip (lpb_train b e) p1"
    using lpb_step_at [OF Cons.prems] by blast
  from Cons.IH [OF p1(2)] p1(1) show ?case by (auto simp: split_beta)
qed simp

lemmas lpb_train_simps = lpb_core_def lpb_train_def lpb_next_def lpb_same_direction_def prediction_match_def Let_def
  sat_reset_predict

lemma lpb_climb: "lpb_core e = (sat_reset 1 b, b, False, c, c) \<Longrightarrow>
    lpb_core (lpb_train b e) = (sat_reset 1 b, b, False, c + 1, c + 1)"
  by (auto simp: lpb_train_simps)

lemma lpb_exit: "lpb_core e = (sat_reset 1 b, b, False, c, c) \<Longrightarrow>
    lpb_core (lpb_train (\<not> b) e) = (sat_reset 1 b, \<not> b, True, 0, c)"
  by (auto simp: lpb_train_simps)

lemma lpb_count: "lpb_core e = (sat_reset 1 b, prev, True, c, l) \<Longrightarrow> c \<noteq> l \<Longrightarrow>
    lpb_core (lpb_train b e) = (sat_reset 1 b, b, True, c + 1, l) \<and> lp_enabled e \<and> lpb_prediction e = b"
  by (auto simp: lpb_train_simps lpb_prediction_def)

lemma lpb_wrap: "lpb_core e = (sat_reset 1 b, b, True, l, l) \<Longrightarrow>
    lpb_core (lpb_train (\<not> b) e) = (sat_reset 1 b, \<not> b, True, 0, l) \<and> lp_enabled e \<and> lpb_prediction e = (\<not> b)"
  by (auto simp: lpb_train_simps lpb_prediction_def)

lemma lpb_entry_run_append:
  "lpb_entry_run (xs @ ys) e = (fst (lpb_entry_run xs e) @ fst (lpb_entry_run ys (snd (lpb_entry_run xs e))),
     snd (lpb_entry_run ys (snd (lpb_entry_run xs e))))"
  by (induction xs arbitrary: e) (auto simp: split_beta)

lemma lpb_entry_run_length: "length (fst (lpb_entry_run xs e)) = length xs"
  by (induction xs arbitrary: e) (auto simp: split_beta)

lemma lpb_climb_run:
  "lpb_core e = (sat_reset 1 b, b, False, c, c) \<Longrightarrow>
    lpb_core (snd (lpb_entry_run (replicate k b) e)) = (sat_reset 1 b, b, False, c + of_nat k, c + of_nat k)"
proof (induction k arbitrary: e c)
  case (Suc k)
  from Suc.IH [OF lpb_climb [OF Suc.prems]] show ?case by (simp add: split_beta algebra_simps)
qed simp

lemma lpb_count_run:
  assumes "lpb_core e = (sat_reset 1 b, prev, True, of_nat c, of_nat n)" and "c + k \<le> n" and "n < 2 ^ 32"
  shows "fst (lpb_entry_run (replicate k b) e) = replicate k (True, b) \<and>
    lpb_core (snd (lpb_entry_run (replicate k b) e)) =
      (sat_reset 1 b, if k = 0 then prev else b, True, of_nat (c + k), of_nat n)"
  using assms
proof (induction k arbitrary: e c prev)
  case (Suc k)
  have "of_nat c \<noteq> (of_nat n :: u32)"
    using Suc.prems by (simp add: word_of_nat_eq_iff take_bit_nat_eq_self)
  note c = lpb_count [OF Suc.prems(1) this]
  from c have "lpb_core (lpb_train b e) = (sat_reset 1 b, b, True, of_nat (Suc c), of_nat n)"
    by (simp add: add.commute)
  from Suc.IH [OF this] Suc.prems c show ?case by (auto simp: split_beta)
qed simp

lemma lpb_pass:
  assumes "lpb_core e = (sat_reset 1 b, prev, True, 0, of_nat n)" and "0 < n" and "n < 2 ^ 32"
  shows "fst (lpb_entry_run (replicate n b @ [\<not> b]) e) = map (Pair True) (replicate n b @ [\<not> b]) \<and>
    lpb_core (snd (lpb_entry_run (replicate n b @ [\<not> b]) e)) = (sat_reset 1 b, \<not> b, True, 0, of_nat n)"
proof -
  have "lpb_core e = (sat_reset 1 b, prev, True, of_nat 0, of_nat n)" using assms(1) by simp
  note r = lpb_count_run [OF this, of n]
  with assms have "lpb_core (snd (lpb_entry_run (replicate n b) e)) = (sat_reset 1 b, b, True, of_nat n, of_nat n)"
    by simp
  from lpb_wrap [OF this] r assms(2,3) show ?thesis
    by (simp add: lpb_entry_run_append map_replicate_const split_beta)
qed

lemma lpb_passes:
  assumes "lpb_core e = (sat_reset 1 b, prev, True, 0, of_nat n)" and "0 < n" and "n < 2 ^ 32"
  shows "fst (lpb_entry_run (concat (replicate k (replicate n b @ [\<not> b]))) e) =
    map (Pair True) (concat (replicate k (replicate n b @ [\<not> b])))"
  using assms(1)
proof (induction k arbitrary: e prev)
  case (Suc k)
  define ps where "ps = replicate n b @ [\<not> b]"
  note p = lpb_pass [OF Suc.prems assms(2,3), folded ps_def]
  note ih = Suc.IH [folded ps_def, of "snd (lpb_entry_run ps e)" "\<not> b"]
  show ?case
    unfolding ps_def [symmetric] using p ih by (simp add: lpb_entry_run_append)
qed simp

subsection \<open>From an empty predictor\<close>

definition lpb_empty_entry :: lpb_entry where
  "lpb_empty_entry = \<lparr>lp_tag = 0, lp_previous_actual = False, lp_enabled = False, lp_pred = 0, lp_lru = 0,
     lp_count = 0, lp_limit = 0\<rparr>"

lemma lpb_empty_row: "row (lpb_index ip) (lpb_ways (LoopBranchPredictor 128 2)) = [lpb_empty_entry, lpb_empty_entry]"
proof -
  have "replicate 2 x = [x, x]" for x :: "lpb_entry list" by (simp add: numeral_2_eq_2)
  then show ?thesis using lpb_index_less [of ip] by (simp add: LoopBranchPredictor_def row_def lpb_empty_entry_def)
qed

lemma lpb_first:
  "\<exists>e p'. lpb_step ip b (LoopBranchPredictor 128 2) = ((False, False), p') \<and> lpb_at ip e p' \<and>
    lpb_core e = (sat_reset 1 b, b, False, 1, 1)"
proof -
  let ?p = "LoopBranchPredictor 128 2"
  let ?i = "lpb_index ip"
  have lk: "lpb_lookup ip ?p = (bp_no_hit, ?p)"
    by (simp add: lpb_lookup_def lpb_empty_row Let_def) (simp add: lpb_empty_entry_def)
  have tab: "table_ok 2 64 (lpb_ways ?p)" by (simp add: LoopBranchPredictor_def table_ok_replicate)
  have step: "lpb_step ip b ?p = ((False, False), lpb_update b ip ?p)"
    by (simp add: lpb_step_def lk bp_no_hit_def)
  have "\<exists>f. lpb_ways (lpb_update b ip ?p) = put_way 0 ?i f (lpb_ways ?p) \<and> lpb_match ip f \<and>
    lpb_core f = (sat_reset 1 b, b, False, 1, 1)"
  proof (cases "lpb_mktag ip = 0")
    case True
    then have "lpb_ways (lpb_update b ip ?p) = put_way 0 ?i
        ((lpb_next b lpb_empty_entry)\<lparr>lp_previous_actual := b, lp_lru := lpb_use ?p\<rparr>) (lpb_ways ?p)"
      by (simp add: lpb_update_def Let_def lpb_empty_row search_ways_def lpb_empty_entry_def)
    moreover have "lpb_core (lpb_train b lpb_empty_entry) = (sat_reset 1 b, b, False, 1, 1)"
      by (cases b) (simp_all add: lpb_train_simps lpb_empty_entry_def sat_predict_def sat_reset_def sat_update_def sat_dec_def)
    ultimately show ?thesis using True
      by (auto simp: lpb_match_def lpb_empty_entry_def lpb_core_def lpb_train_def)
  next
    case False
    then have "lpb_ways (lpb_update b ip ?p) = put_way 0 ?i
        (lpb_empty_entry\<lparr>lp_tag := ucast (lpb_mktag ip), lp_pred := sat_reset 1 b, lp_previous_actual := b,
              lp_lru := lpb_use ?p, lp_count := 1, lp_limit := 1\<rparr>) (lpb_ways ?p)"
      by (simp add: lpb_update_def Let_def lpb_empty_row search_ways_def) (simp add: lpb_empty_entry_def)
    then show ?thesis
      by (intro exI [of _ "lpb_empty_entry\<lparr>lp_tag := ucast (lpb_mktag ip), lp_pred := sat_reset 1 b,
            lp_previous_actual := b, lp_lru := lpb_use ?p, lp_count := 1, lp_limit := 1\<rparr>"])
         (simp add: lpb_match_def lpb_core_def lpb_tag_byte, simp add: lpb_empty_entry_def)
  qed
  then obtain f where f: "lpb_ways (lpb_update b ip ?p) = put_way 0 ?i f (lpb_ways ?p)" "lpb_match ip f"
      "lpb_core f = (sat_reset 1 b, b, False, 1, 1)" by blast
  have "lpb_at ip f (lpb_update b ip ?p)"
  proof (rule lpb_at_put [OF tab _ refl f(2) refl _ _ f(1)])
    show "\<forall>j<2. j \<noteq> 0 \<longrightarrow> \<not> (lp_enabled (row ?i (lpb_ways ?p) ! j) \<and> lpb_match ip (row ?i (lpb_ways ?p) ! j))"
      by (simp add: lpb_empty_row less_2_cases_iff) (simp add: lpb_empty_entry_def)
  qed simp_all
  with step f(3) show ?thesis by blast
qed

lemma lpb_learns_loop:
  assumes "0 < n" and "n < 2 ^ 32"
  shows "\<exists>first. length first = n + 1 \<and>
    fst (lpb_run ip (concat (replicate (Suc k) (replicate n b @ [\<not> b]))) (LoopBranchPredictor 128 2)) =
      first @ map (Pair True) (concat (replicate k (replicate n b @ [\<not> b])))"
proof -
  let ?pass = "replicate n b @ [\<not> b]"
  obtain m where n: "n = Suc m" using assms(1) by (cases n) auto
  obtain e p' where e: "lpb_step ip b (LoopBranchPredictor 128 2) = ((False, False), p')" "lpb_at ip e p'"
      "lpb_core e = (sat_reset 1 b, b, False, 1, 1)"
    using lpb_first by blast
  define f where "f = snd (lpb_entry_run (replicate m b) e)"
  have "lpb_core f = (sat_reset 1 b, b, False, of_nat n, of_nat n)"
    using lpb_climb_run [OF e(3), of m] by (simp add: f_def n)
  note g = lpb_exit [OF this]
  define rest where "rest = replicate m b @ [\<not> b]"
  have run: "lpb_entry_run rest e = (fst (lpb_entry_run rest e), lpb_train (\<not> b) f)"
    by (simp add: rest_def lpb_entry_run_append f_def split_beta)
  have all: "fst (lpb_entry_run (rest @ concat (replicate k ?pass)) e) =
      fst (lpb_entry_run rest e) @ map (Pair True) (concat (replicate k ?pass))"
    using lpb_passes [OF g assms, of k] run
    by (metis fst_conv lpb_entry_run_append snd_conv)
  obtain p'' where "lpb_run ip (rest @ concat (replicate k ?pass)) p' =
      (fst (lpb_entry_run (rest @ concat (replicate k ?pass)) e), p'')"
    using lpb_run_refines [OF e(2)] by blast
  with e(1) all have "fst (lpb_run ip (b # rest @ concat (replicate k ?pass)) (LoopBranchPredictor 128 2)) =
      ((False, False) # fst (lpb_entry_run rest e)) @ map (Pair True) (concat (replicate k ?pass))"
    by simp
  moreover have "concat (replicate (Suc k) ?pass) = b # rest @ concat (replicate k ?pass)"
    by (simp add: rest_def n)
  ultimately show ?thesis
    by (intro exI [of _ "(False, False) # fst (lpb_entry_run rest e)"])
       (simp add: lpb_entry_run_length rest_def n del: lpb_run.simps)
qed

subsection \<open>The combined predictor\<close>

lemma update_pir_bound: "unat pir < 2 ^ 15 \<Longrightarrow> unat (update_pir actual ip target ty pir) < 2 ^ 15"
  using unat_and_mask_less [of "push_bit 2 pir XOR drop_bit 4 ip" 15]
    unat_and_mask_less [of "push_bit 2 pir XOR (drop_bit 4 ip OR target)" 15]
  by (simp add: update_pir_def mask_eq_exp_minus_1)

end
