(* ===== verification/Shmem.thy ===== *)
theory Shmem
  imports Cache_Block Sim_Time
begin

text \<open>
  The shared-memory messages between the last-level caches, the tag directories and DRAM, with what
  travels with them (common/core/memory_subsystem/pr_l1_pr_l2_dram_directory_msi: shmem_msg,
  shmem_req, shmem_perf; req_queue_list_template.h; common/performance_model/shmem_perf_model.cc).

  A \<open>ShmemPerf*\<close> is the number of an object in a store of them, \<open>None\<close> for NULL: \<open>updateTime\<close> may be
  called on NULL. A data buffer is the list of its bytes. The clock of the simulation thread
  (\<open>_SIM_THREAD\<close>) is a \<open>time\<close>.
\<close>

subsection \<open>ShmemPerf\<close>

datatype shmem_reason = R_NOC_BASE | R_NOC_QUEUE | R_TD_ACCESS | R_INV_IMBALANCE | R_REMOTE_CACHE_INV
  | R_REMOTE_CACHE_WB | R_NUCA_TAGS | R_NUCA_QUEUE | R_NUCA_BUS | R_NUCA_DATA | R_DRAM_CACHE
  | R_DRAM_CACHE_TAGS | R_DRAM_CACHE_QUEUE | R_DRAM_CACHE_BUS | R_DRAM_CACHE_DATA | R_DRAM | R_DRAM_QUEUE
  | R_DRAM_BUS | R_DRAM_DEVICE | R_UNKNOWN

record shmem_perf =
  sp_time_begin :: time
  sp_time_last :: time
  sp_times :: "shmem_reason \<Rightarrow> time"

definition ShmemPerf :: shmem_perf where
  "ShmemPerf = \<lparr>sp_time_begin = 0, sp_time_last = 0, sp_times = (\<lambda>_. 0)\<rparr>"

definition perf_disable :: "shmem_perf \<Rightarrow> shmem_perf" where
  "perf_disable p = p\<lparr>sp_time_last := MaxTime\<rparr>"

definition perf_reset :: "time \<Rightarrow> shmem_perf \<Rightarrow> shmem_perf" where
  "perf_reset t p = \<lparr>sp_time_begin = t, sp_time_last = t, sp_times = (\<lambda>_. 0)\<rparr>"

definition perf_updateTime :: "time \<Rightarrow> shmem_reason \<Rightarrow> shmem_perf \<Rightarrow> shmem_perf" where
  "perf_updateTime t reason p =
     (if t > sp_time_last p
      then p\<lparr>sp_times := (sp_times p)(reason := sp_times p reason + (t - sp_time_last p)), sp_time_last := t\<rparr>
      else p)"

text \<open>\<open>packet_time\<close> and \<open>queue_delay\<close> are the fields of the \<open>NetPacket\<close> that are read.\<close>

definition perf_updatePacket :: "time \<Rightarrow> time \<Rightarrow> shmem_perf \<Rightarrow> shmem_perf" where
  "perf_updatePacket packet_time queue_delay p =
     (if packet_time > sp_time_last p
      then perf_updateTime packet_time R_NOC_BASE
        (p\<lparr>sp_times := (sp_times p)(R_NOC_QUEUE := sp_times p R_NOC_QUEUE + queue_delay),
           sp_time_last := sp_time_last p + queue_delay\<rparr>)
      else p)"

definition perf_add :: "shmem_perf \<Rightarrow> shmem_perf \<Rightarrow> shmem_perf" where
  "perf_add q p = p\<lparr>sp_times := (\<lambda>r. sp_times p r + sp_times q r)\<rparr>"

type_synonym perf_store = "nat \<Rightarrow> shmem_perf"

definition updateTime :: "nat option \<Rightarrow> time \<Rightarrow> shmem_reason \<Rightarrow> perf_store \<Rightarrow> perf_store" where
  "updateTime perf t reason ps =
     (case perf of None \<Rightarrow> ps | Some k \<Rightarrow> ps(k := perf_updateTime t reason (ps k)))"

subsection \<open>ShmemPerfModel\<close>

definition setElapsedTime :: "time \<Rightarrow> time \<Rightarrow> time" where
  "setElapsedTime t elapsed = t"

definition updateElapsedTime :: "time \<Rightarrow> time \<Rightarrow> time" where
  "updateElapsedTime t elapsed = (if elapsed < t then t else elapsed)"

definition incrElapsedTime :: "time \<Rightarrow> time \<Rightarrow> time res" where
  "incrElapsedTime t elapsed =
     (if elapsed + t \<ge> elapsed then Inr (elapsed + t) else Inl (Log_Error ''t_elapsed_time < i_elapsed_time''))"

subsection \<open>ShmemMsg\<close>

datatype where_t = HW_L1I | HW_L1_OWN | HW_L2_OWN | HW_L3_OWN | HW_L4_OWN | HW_MISS | HW_NUCA_CACHE
  | HW_DRAM_CACHE | HW_DRAM | HW_DRAM_LOCAL | HW_DRAM_REMOTE | HW_CACHE_REMOTE | HW_SIBLING
  | HW_L1_SIBLING | HW_L2_SIBLING | HW_L3_SIBLING | HW_L4_SIBLING | HW_UNKNOWN | HW_PREDICATE_FALSE

datatype msg_t = INVALID_MSG_TYPE | EX_REQ | SH_REQ | UPGRADE_REQ | INV_REQ | FLUSH_REQ | WB_REQ
  | EX_REP | SH_REP | UPGRADE_REP | INV_REP | FLUSH_REP | WB_REP | NULLIFY_REQ
  | DRAM_READ_REQ | DRAM_WRITE_REQ | DRAM_READ_REP

record shmem_msg =
  msg_type :: msg_t
  msg_sender :: component_t
  msg_receiver :: component_t
  msg_requester :: core_id
  msg_where :: where_t
  msg_address :: addr
  msg_data :: "u8 list option"
  msg_length :: u32
  msg_perf :: "nat option"

definition ShmemMsg ::
  "msg_t \<Rightarrow> component_t \<Rightarrow> component_t \<Rightarrow> core_id \<Rightarrow> addr \<Rightarrow> u8 list option \<Rightarrow> u32 \<Rightarrow> nat option \<Rightarrow> shmem_msg" where
  "ShmemMsg type sender receiver requester address data_buf data_length perf =
     \<lparr>msg_type = type, msg_sender = sender, msg_receiver = receiver, msg_requester = requester,
      msg_where = HW_UNKNOWN, msg_address = address, msg_data = data_buf, msg_length = data_length, msg_perf = perf\<rparr>"

text \<open>\<open>sizeof(IntPtr)\<close> is 8.\<close>

definition getModeledLength :: "shmem_msg \<Rightarrow> u32 res" where
  "getModeledLength m =
     (if msg_type m \<in> {EX_REQ, SH_REQ, INV_REQ, FLUSH_REQ, WB_REQ, UPGRADE_REP, UPGRADE_REQ, INV_REP, DRAM_READ_REQ}
      then Inr (1 + 8)
      else if msg_type m \<in> {EX_REP, SH_REP, FLUSH_REP, WB_REP, DRAM_WRITE_REQ, DRAM_READ_REP}
      then Inr (1 + 8 + msg_length m)
      else Inl (Log_Error ''Unrecognized Msg Type''))"

subsection \<open>ShmemReq\<close>

text \<open>The request holds a copy of the message; the copy's \<open>m_where\<close> is left uninitialised by the
  copy constructor and never read, so it is not kept.\<close>

record shmem_req =
  rq_type :: msg_t
  rq_requester :: core_id
  rq_address :: addr
  rq_data :: "u8 list option"
  rq_perf :: "nat option"
  rq_time :: time
  rq_wait :: bool
  rq_forwarding :: core_id

definition ShmemReq :: "shmem_msg \<Rightarrow> time \<Rightarrow> shmem_req res" where
  "ShmemReq m t =
     (if msg_data m = None
      then Inr \<lparr>rq_type = msg_type m, rq_requester = msg_requester m, rq_address = msg_address m,
                rq_data = msg_data m, rq_perf = msg_perf m, rq_time = t, rq_wait = False,
                rq_forwarding = INVALID_CORE_ID\<rparr>
      else Inl (Log_Error ''Shmem Reqs should not have data payloads''))"

definition rq_updateTime :: "time \<Rightarrow> shmem_req \<Rightarrow> shmem_req" where
  "rq_updateTime t r = (if t > rq_time r then r\<lparr>rq_time := t\<rparr> else r)"

definition isForwarding :: "shmem_req \<Rightarrow> bool" where
  "isForwarding r \<longleftrightarrow> rq_forwarding r \<noteq> INVALID_CORE_ID"

subsection \<open>ReqQueueListTemplate\<close>

text \<open>The map from addresses to queues: an address that is not a key has no requests, and a queue
  that becomes empty is erased. A requested front of no queue is an error.\<close>

type_synonym 'r req_queue = "addr \<Rightarrow> 'r list"

definition q_enqueue :: "addr \<Rightarrow> 'r \<Rightarrow> 'r req_queue \<Rightarrow> 'r req_queue" where
  "q_enqueue a r q = q(a := q a @ [r])"

definition q_dequeue :: "addr \<Rightarrow> 'r req_queue \<Rightarrow> ('r \<times> 'r req_queue) res" where
  "q_dequeue a q = (case q a of [] \<Rightarrow> Inl (Log_Error ''Could not find a request'')
     | r # rs \<Rightarrow> Inr (r, q(a := rs)))"

definition q_front :: "addr \<Rightarrow> 'r req_queue \<Rightarrow> 'r res" where
  "q_front a q = (case q a of [] \<Rightarrow> Inl (Log_Error ''Could not find a request'') | r # rs \<Rightarrow> Inr r)"

definition q_back :: "addr \<Rightarrow> 'r req_queue \<Rightarrow> 'r res" where
  "q_back a q = (if q a = [] then Inl (Log_Error ''Could not find a request'') else Inr (last (q a)))"

definition q_size :: "addr \<Rightarrow> 'r req_queue \<Rightarrow> nat" where
  "q_size a q = length (q a)"

definition q_empty :: "addr \<Rightarrow> 'r req_queue \<Rightarrow> bool" where
  "q_empty a q \<longleftrightarrow> q a = []"

text \<open>Writing through the pointer that \<open>front\<close> returned.\<close>

definition q_modify_front :: "addr \<Rightarrow> ('r \<Rightarrow> 'r) \<Rightarrow> 'r req_queue \<Rightarrow> 'r req_queue" where
  "q_modify_front a f q = (case q a of [] \<Rightarrow> q | r # rs \<Rightarrow> q(a := f r # rs))"

subsection \<open>Lemmas\<close>

lemma q_size_enqueue: "q_size b (q_enqueue a r q) = q_size b q + (if b = a then 1 else 0)"
  by (simp add: q_size_def q_enqueue_def)

lemma q_dequeue_Inr: "q_dequeue a q = Inr (r, q') \<longleftrightarrow> q a = r # q' a \<and> q' = q(a := q' a)"
  by (auto simp: q_dequeue_def split: list.splits)

lemma q_size_dequeue: "q_dequeue a q = Inr (r, q') \<Longrightarrow> q_size a q = Suc (q_size a q') \<and> (\<forall>b. b \<noteq> a \<longrightarrow> q' b = q b)"
  by (auto simp: q_dequeue_def q_size_def split: list.splits)

lemma q_size_modify_front [simp]: "q_size b (q_modify_front a f q) = q_size b q"
  by (auto simp: q_size_def q_modify_front_def split: list.splits)

text \<open>Requests on one address leave in the order they arrived.\<close>

fun q_enqueue_all :: "addr \<Rightarrow> 'r list \<Rightarrow> 'r req_queue \<Rightarrow> 'r req_queue" where
  "q_enqueue_all a [] q = q"
| "q_enqueue_all a (r # rs) q = q_enqueue_all a rs (q_enqueue a r q)"

fun q_dequeue_all :: "addr \<Rightarrow> nat \<Rightarrow> 'r req_queue \<Rightarrow> ('r list \<times> 'r req_queue) res" where
  "q_dequeue_all a 0 q = Inr ([], q)"
| "q_dequeue_all a (Suc n) q = bindE (q_dequeue a q) (\<lambda>(r, q). bindE (q_dequeue_all a n q) (\<lambda>(rs, q). Inr (r # rs, q)))"

lemma q_enqueue_all_append: "q_enqueue_all a rs q = q(a := q a @ rs)"
  by (induction rs arbitrary: q) (simp_all add: q_enqueue_def)

lemma q_dequeue_all_take:
  "n \<le> length (q a) \<Longrightarrow> q_dequeue_all a n q = Inr (take n (q a), q(a := drop n (q a)))"
proof (induction n arbitrary: q)
  case (Suc n)
  then obtain r rs where "q a = r # rs" by (cases "q a") auto
  with Suc show ?case by (simp add: q_dequeue_def fun_eq_iff)
qed (simp add: fun_upd_idem)

lemma q_fifo: "q_dequeue_all a (length (q a) + length rs) (q_enqueue_all a rs q) = Inr (q a @ rs, q(a := []))"
  by (simp add: q_dequeue_all_take q_enqueue_all_append)

text \<open>While an access is timed, its components add up to the time since its start.\<close>

definition perf_total :: "shmem_perf \<Rightarrow> time" where
  "perf_total p = sum_list (map (sp_times p) [R_NOC_BASE, R_NOC_QUEUE, R_TD_ACCESS, R_INV_IMBALANCE, R_REMOTE_CACHE_INV,
     R_REMOTE_CACHE_WB, R_NUCA_TAGS, R_NUCA_QUEUE, R_NUCA_BUS, R_NUCA_DATA, R_DRAM_CACHE, R_DRAM_CACHE_TAGS,
     R_DRAM_CACHE_QUEUE, R_DRAM_CACHE_BUS, R_DRAM_CACHE_DATA, R_DRAM, R_DRAM_QUEUE, R_DRAM_BUS, R_DRAM_DEVICE, R_UNKNOWN])"

definition perf_accounted :: "shmem_perf \<Rightarrow> bool" where
  "perf_accounted p \<longleftrightarrow> sp_time_begin p + perf_total p = sp_time_last p"

lemma perf_total_add:
  "perf_total (p\<lparr>sp_times := (sp_times p)(r := sp_times p r + d)\<rparr>) = perf_total p + d"
  by (cases r) (simp_all add: perf_total_def)

lemma perf_total_last [simp]: "perf_total (p\<lparr>sp_time_last := t\<rparr>) = perf_total p"
  by (simp add: perf_total_def)

lemma perf_accounted_reset: "perf_accounted (perf_reset t p)"
  by (simp add: perf_accounted_def perf_reset_def perf_total_def)

lemma perf_charge:
  "perf_accounted p \<Longrightarrow>
    perf_accounted (p\<lparr>sp_times := (sp_times p)(r := sp_times p r + d), sp_time_last := sp_time_last p + d\<rparr>)"
  using perf_total_add [of p r d] by (simp add: perf_accounted_def algebra_simps)

lemma perf_accounted_updateTime: "perf_accounted p \<Longrightarrow> perf_accounted (perf_updateTime t r p)"
  using perf_charge [where p = p and r = r and d = "t - sp_time_last p"] by (simp add: perf_updateTime_def)

lemma perf_accounted_updatePacket: "perf_accounted p \<Longrightarrow> perf_accounted (perf_updatePacket t d p)"
  using perf_charge [where p = p and r = R_NOC_QUEUE and d = d] by (simp add: perf_updatePacket_def perf_accounted_updateTime)

end
