(* ===== verification/Nuca.thy ===== *)
theory Nuca
  imports Cache_Store Queue_Props Shmem
begin

text \<open>
  common/core/memory_subsystem/parametric_dram_directory_msi/nuca_cache.cc: the cache beside a tag
  directory, with the queue in front of its data array. The bandwidth (a float in the
  configuration) is given in bits per microsecond; \<open>global_time\<close> is the barrier's time the windowed
  queue model reads.
\<close>

record nuca =
  nu_core_id :: core_id
  nu_block_size :: u32
  nu_data_access_time :: latency
  nu_tags_access_time :: latency
  nu_bandwidth :: u64
  nu_cache :: cache
  nu_queue :: "queue_model option"
  nu_reads :: u64
  nu_writes :: u64
  nu_read_misses :: u64
  nu_write_misses :: u64

definition NucaCache ::
  "cache_env \<Rightarrow> queue_env \<Rightarrow> core_id \<Rightarrow> address_home_lookup option \<Rightarrow> u32 \<Rightarrow> latency \<Rightarrow> latency \<Rightarrow> u64 \<Rightarrow>
     u32 \<Rightarrow> u32 \<Rightarrow> string \<Rightarrow> string \<Rightarrow> string option \<Rightarrow> nuca res" where
  "NucaCache env qenv core_id home_lookup cache_block_size data_time tags_time bandwidth
     sz associativity replacement_policy hash_function queue_type =
     bindE (parseAddressHash hash_function) (\<lambda>hash.
     bindE (Cache env ''nuca-cache'' sz associativity cache_block_size replacement_policy PR_L1_CACHE hash None
              home_lookup) (\<lambda>c.
     bindE (case queue_type of None \<Rightarrow> Inr None
       | Some ty \<Rightarrow> bindE (bw_getRoundedLatency bandwidth (ucast (8 * cache_block_size))) (\<lambda>t.
           bindE (queue_create qenv ty t) (\<lambda>q. Inr (Some q)))) (\<lambda>q.
     Inr \<lparr>nu_core_id = core_id, nu_block_size = cache_block_size, nu_data_access_time = data_time,
          nu_tags_access_time = tags_time, nu_bandwidth = bandwidth, nu_cache = c, nu_queue = q,
          nu_reads = 0, nu_writes = 0, nu_read_misses = 0, nu_write_misses = 0\<rparr>)))"

definition accessDataArray ::
  "queue_env \<Rightarrow> time \<Rightarrow> time \<Rightarrow> nat option \<Rightarrow> nuca \<times> perf_store \<Rightarrow> (time \<times> nuca \<times> perf_store) res" where
  "accessDataArray qenv global_time t_start perf = (\<lambda>(nu, ps).
     let ps = updateTime perf t_start R_UNKNOWN ps; data_time = getLatency (nu_data_access_time nu) in
     bindE (case nu_queue nu of
         Some q \<Rightarrow>
           bindE (bw_getRoundedLatency (nu_bandwidth nu) (ucast (8 * nu_block_size nu))) (\<lambda>processing_time.
           bindE (computeQueueDelay qenv global_time t_start processing_time q) (\<lambda>(d, q).
           let queue_delay = processing_time + d;
               ps = updateTime perf (t_start + processing_time) R_NUCA_BUS ps;
               ps = updateTime perf (t_start + queue_delay) R_NUCA_QUEUE ps
           in Inr (queue_delay, nu\<lparr>nu_queue := Some q\<rparr>, ps)))
       | None \<Rightarrow> Inr (0, nu, ps)) (\<lambda>(queue_delay, nu, ps).
     Inr (queue_delay + data_time, nu, updateTime perf (t_start + queue_delay + data_time) R_NUCA_DATA ps)))"

text \<open>The latency, where the access hit, and what was copied into \<open>data_buf\<close> (nothing without fault
  injection, when caches keep no data).\<close>

definition nuca_read ::
  "queue_env \<Rightarrow> time \<Rightarrow> addr \<Rightarrow> time \<Rightarrow> nat option \<Rightarrow> nuca \<times> perf_store \<Rightarrow>
     ((time \<times> where_t \<times> u8 list option) \<times> nuca \<times> perf_store) res" where
  "nuca_read qenv global_time address now perf = (\<lambda>(nu, ps).
     let ps = updateTime perf now R_UNKNOWN ps in
     bindE (peekSingleLine address (nu_cache nu)) (\<lambda>block_info.
     let latency = getLatency (nu_tags_access_time nu);
         ps = updateTime perf (now + latency) R_NUCA_TAGS ps in
     bindE (if block_info \<noteq> None then
         bindE (accessSingleLine address LOAD (Some []) (nu_block_size nu) True (nu_cache nu)) (\<lambda>(_, out, c).
         bindE (accessDataArray qenv global_time (now + latency) perf (nu\<lparr>nu_cache := c\<rparr>, ps)) (\<lambda>(d, nu, ps).
         Inr ((latency + d, HW_NUCA_CACHE, out), nu, ps)))
       else Inr ((latency, HW_MISS, None), nu\<lparr>nu_read_misses := nu_read_misses nu + 1\<rparr>, ps)) (\<lambda>(r, nu, ps).
     Inr (r, nu\<lparr>nu_reads := nu_reads nu + 1\<rparr>, ps))))"

text \<open>Besides latency and place: \<open>eviction\<close> and \<open>evict_address\<close>, which a hit leaves unset
  (\<open>None\<close>), and what was copied into \<open>evict_buf\<close>.\<close>

definition nuca_write ::
  "queue_env \<Rightarrow> time \<Rightarrow> addr \<Rightarrow> u8 list option \<Rightarrow> time \<Rightarrow> nuca \<times> perf_store \<Rightarrow>
     ((time \<times> where_t \<times> (bool \<times> addr) option \<times> u8 list option) \<times> nuca \<times> perf_store) res" where
  "nuca_write qenv global_time address data_buf now = (\<lambda>(nu, ps).
     bindE (peekSingleLine address (nu_cache nu)) (\<lambda>block_info.
     let latency = getLatency (nu_tags_access_time nu) in
     bindE (case block_info of
         Some p \<Rightarrow>
           (let c = store_block p ((deref (nu_cache nu) p)\<lparr>m_cstate := MODIFIED\<rparr>) (nu_cache nu) in
            bindE (accessSingleLine address STORE data_buf (nu_block_size nu) True c) (\<lambda>(_, _, c).
            bindE (accessDataArray qenv global_time (now + latency) None (nu\<lparr>nu_cache := c\<rparr>, ps)) (\<lambda>(d, nu, ps).
            Inr ((latency + d, HW_NUCA_CACHE, None, None), nu, ps))))
       | None \<Rightarrow>
           bindE (insertSingleLine address data_buf (CacheBlockInfo PrL1Block (-1) INVALID 0) True (nu_cache nu))
             (\<lambda>(eviction, evict_address, evict_block_info, evict_buf, c).
           let eviction = (if eviction \<and> m_cstate evict_block_info \<noteq> MODIFIED then False else eviction) in
           Inr ((latency, HW_MISS, Some (eviction, evict_address), evict_buf),
                nu\<lparr>nu_cache := c, nu_write_misses := nu_write_misses nu + 1\<rparr>, ps))) (\<lambda>(r, nu, ps).
     Inr (r, nu\<lparr>nu_writes := nu_writes nu + 1\<rparr>, ps))))"

subsection \<open>Lemmas\<close>

definition nuca_lines :: "nuca \<Rightarrow> addr set" where
  "nuca_lines nu = cache_lines (nu_cache nu)"

definition nuca_line :: "nuca \<Rightarrow> addr \<Rightarrow> addr" where
  "nuca_line nu = blk_tag (nu_cache nu)"

lemma accessDataArray_cache:
  "accessDataArray qenv gt t perf (nu, ps) = Inr (d, nu', ps') \<Longrightarrow> nu_cache nu' = nu_cache nu"
  by (auto simp: accessDataArray_def Let_def bindE_Inr_iff split: option.splits)

text \<open>A read finds exactly the lines that are there, and keeps them.\<close>

lemma nuca_read_spec:
  assumes wf: "cache_wf (nu_cache nu)" and r: "nuca_read qenv gt a now perf (nu, ps) = Inr ((t, w, out), nu', ps')"
  shows "cache_wf (nu_cache nu') \<and> nuca_line nu' = nuca_line nu \<and> nuca_lines nu' = nuca_lines nu \<and>
    w = (if nuca_line nu a \<in> nuca_lines nu then HW_NUCA_CACHE else HW_MISS)"
proof -
  obtain p where p: "peekSingleLine a (nu_cache nu) = Inr p" "p \<noteq> None \<longleftrightarrow> nuca_line nu a \<in> nuca_lines nu"
    using peekSingleLine_iff [OF wf, of a] by (auto simp: nuca_lines_def nuca_line_def)
  show ?thesis
  proof (cases p)
    case None
    with p r show ?thesis by (auto simp: nuca_read_def Let_def nuca_lines_def nuca_line_def wf)
  next
    case (Some q)
    with p r obtain x y c d nu1 ps1 where acc: "accessSingleLine a LOAD (Some []) (nu_block_size nu) True (nu_cache nu) = Inr (x, y, c)"
      and arr: "accessDataArray qenv gt (now + getLatency (nu_tags_access_time nu)) perf (nu\<lparr>nu_cache := c\<rparr>, ps1) = Inr (d, nu1, ps')"
      and nu': "nu' = nu1\<lparr>nu_reads := nu_reads nu1 + 1\<rparr>" and w: "w = HW_NUCA_CACHE"
      by (auto simp: nuca_read_def Let_def bindE_Inr_iff)
    have c: "nu_cache nu' = c" using accessDataArray_cache [OF arr] by (simp add: nu')
    from accessSingleLine_spec [OF wf acc] p Some w c show ?thesis
      by (simp add: nuca_lines_def nuca_line_def blk_tag_base [of c "nu_cache nu"])
  qed
qed

text \<open>After a write the line is there; a line is only handed back for writing to DRAM when a
  miss evicted it.\<close>

lemma nuca_write_spec:
  assumes wf: "cache_wf (nu_cache nu)" and w: "nuca_write qenv gt a data now (nu, ps) = Inr ((t, hw, ev, buf), nu', ps')"
  shows "cache_wf (nu_cache nu') \<and> nuca_line nu' = nuca_line nu \<and> nuca_line nu a \<in> nuca_lines nu' \<and>
    nuca_lines nu' \<subseteq> insert (nuca_line nu a) (nuca_lines nu) \<and> ps' = ps \<and>
    hw = (if nuca_line nu a \<in> nuca_lines nu then HW_NUCA_CACHE else HW_MISS) \<and>
    (ev = None \<longleftrightarrow> nuca_line nu a \<in> nuca_lines nu) \<and>
    (\<forall>ea. ev = Some (True, ea) \<longrightarrow> nuca_line nu ea \<in> nuca_lines nu)"
proof -
  obtain p where p: "peekSingleLine a (nu_cache nu) = Inr p" "p \<noteq> None \<longleftrightarrow> nuca_line nu a \<in> nuca_lines nu"
    using peekSingleLine_iff [OF wf, of a] by (auto simp: nuca_lines_def nuca_line_def)
  show ?thesis
  proof (cases p)
    case None
    with p w obtain e ea evb c where ins: "insertSingleLine a data (CacheBlockInfo PrL1Block (-1) INVALID 0) True (nu_cache nu) = Inr (e, ea, evb, buf, c)"
      and ev: "ev = Some (if e \<and> m_cstate evb \<noteq> MODIFIED then False else e, ea)"
      and nu': "nu' = nu\<lparr>nu_cache := c, nu_write_misses := nu_write_misses nu + 1, nu_writes := nu_writes nu + 1\<rparr>"
      and ps: "ps' = ps" and hw: "hw = HW_MISS"
      by (auto simp: nuca_write_def Let_def bindE_Inr_iff)
    note i = insertSingleLine_wf [OF wf ins]
    have "blk_tag c = blk_tag (nu_cache nu)" using i by (intro blk_tag_base) simp
    with i p None ev hw ps nu' show ?thesis by (auto simp: nuca_lines_def nuca_line_def split: if_splits)
  next
    case (Some q)
    define b where "b = (deref (nu_cache nu) q)\<lparr>m_cstate := MODIFIED\<rparr>"
    define c0 where "c0 = store_block q b (nu_cache nu)"
    from p w Some obtain x y c d nu1 ps1 where acc: "accessSingleLine a STORE data (nu_block_size nu) True c0 = Inr (x, y, c)"
      and arr: "accessDataArray qenv gt (now + getLatency (nu_tags_access_time nu)) None (nu\<lparr>nu_cache := c\<rparr>, ps) = Inr (d, nu1, ps1)"
      and nu': "nu' = nu1\<lparr>nu_writes := nu_writes nu1 + 1\<rparr>" and r: "hw = HW_NUCA_CACHE" "ev = None" "ps' = ps1"
      by (auto simp: nuca_write_def Let_def bindE_Inr_iff b_def c0_def)
    have "ps1 = ps" using arr by (auto simp: accessDataArray_def Let_def bindE_Inr_iff updateTime_def split: option.splits)
    moreover have "nu_cache nu' = c" using accessDataArray_cache [OF arr] by (simp add: nu')
    moreover have c0: "cache_wf c0 \<and> c_base c0 = c_base (nu_cache nu) \<and> cache_lines c0 = cache_lines (nu_cache nu)"
      using store_block_spec [OF wf p(1) [unfolded Some], of b] by (simp add: c0_def b_def)
    moreover have "cache_wf c \<and> c_base c = c_base c0 \<and> cache_lines c = cache_lines c0"
      using accessSingleLine_spec [OF _ acc] c0 by simp
    ultimately show ?thesis
      using p Some r by (auto simp: nuca_lines_def nuca_line_def blk_tag_base [of c "nu_cache nu"])
  qed
qed

end
