(* ===== verification/Directory_Store.thy ===== *)
theory Directory_Store
  imports Cache_Base Shmem
begin

text \<open>
  The tag directory's storage: directory entries with their sharers
  (common/core/memory_subsystem/directory_schemes) and the directory cache that finds, allocates and
  replaces them (dram_directory_cache.cc).

  The sharers are one bit per core: the bitset of the width \<open>createDirectoryEntry\<close> picks, or the
  vector. \<open>assert\<close>s of the code are errors; a core number outside the bits is an index error. Entries
  are created on first use, so a directory slot holds \<open>None\<close> for a null pointer. The random generator
  of a limited directory is seeded with 1.
\<close>

subsection \<open>Directory entries\<close>

datatype dstate_t = D_UNCACHED | D_SHARED | D_OWNED | D_MODIFIED | D_EXCLUSIVE

text \<open>The two classes: \<open>Limited\<close> with its random state, \<open>Limitless\<close> with its trap flag and penalty.\<close>

datatype dir_class = Limited u32 | Limitless bool time

record dir_entry =
  de_address :: addr
  de_state :: dstate_t
  de_owner :: core_id
  de_forwarder :: core_id
  de_sharers :: "bool list"
  de_class :: dir_class

text \<open>The base constructor leaves \<open>m_forwarder_id\<close> unset: \<open>forwarder\<close> is whatever it holds.\<close>

definition DirectoryEntry :: "core_id \<Rightarrow> nat \<Rightarrow> dir_class \<Rightarrow> dir_entry" where
  "DirectoryEntry forwarder n c =
     \<lparr>de_address = INVALID_ADDRESS, de_state = D_UNCACHED, de_owner = INVALID_CORE_ID,
      de_forwarder = forwarder, de_sharers = replicate n False, de_class = c\<rparr>"

definition sharer_bit :: "core_id \<Rightarrow> dir_entry \<Rightarrow> bool res" where
  "sharer_bit sharer_id e = (if 0 \<le> sharer_id \<and> nat sharer_id < length (de_sharers e) then Inr (de_sharers e ! nat sharer_id)
     else Inl (Out_Of_Range ''m_sharers''))"

definition hasSharer :: "core_id \<Rightarrow> dir_entry \<Rightarrow> bool res" where
  "hasSharer sharer_id e = sharer_bit sharer_id e"

definition getNumSharers :: "dir_entry \<Rightarrow> nat" where
  "getNumSharers e = length (filter (\<lambda>b. b) (de_sharers e))"

definition getSharersList :: "dir_entry \<Rightarrow> bool \<times> core_id list" where
  "getSharersList e = (False, map int (filter (\<lambda>i. de_sharers e ! i) [0..<length (de_sharers e)]))"

definition addSharer :: "core_id \<Rightarrow> nat \<Rightarrow> dir_entry \<Rightarrow> (bool \<times> dir_entry) res" where
  "addSharer sharer_id max_hw_sharers e =
     bindE (sharer_bit sharer_id e) (\<lambda>b.
     assertE (\<not> b) ''! m_sharers[sharer_id]''
     (case de_class e of
        Limited s \<Rightarrow>
          (if getNumSharers e \<ge> max_hw_sharers then Inr (False, e)
           else Inr (True, e\<lparr>de_sharers := (de_sharers e)[nat sharer_id := True]\<rparr>))
      | Limitless trap penalty \<Rightarrow>
          Inr (True, e\<lparr>de_class := Limitless (trap \<or> length (de_sharers e) = max_hw_sharers) penalty,
                       de_sharers := (de_sharers e)[nat sharer_id := True]\<rparr>)))"

definition removeSharer :: "core_id \<Rightarrow> bool \<Rightarrow> dir_entry \<Rightarrow> dir_entry res" where
  "removeSharer sharer_id reply_expected e =
     assertE (\<not> reply_expected) ''!reply_expected''
     (bindE (sharer_bit sharer_id e) (\<lambda>b. assertE b ''m_sharers[sharer_id]''
       (Inr (e\<lparr>de_sharers := (de_sharers e)[nat sharer_id := False]\<rparr>))))"

definition setOwner :: "core_id \<Rightarrow> dir_entry \<Rightarrow> dir_entry res" where
  "setOwner sharer_id e =
     (if sharer_id \<noteq> INVALID_CORE_ID
      then bindE (sharer_bit sharer_id e) (\<lambda>b. assertE b ''m_sharers[owner_id]'' (Inr (e\<lparr>de_owner := sharer_id\<rparr>)))
      else Inr (e\<lparr>de_owner := sharer_id\<rparr>))"

definition getOneSharer :: "dir_entry \<Rightarrow> (core_id \<times> dir_entry) res" where
  "getOneSharer e =
     (let l = snd (getSharersList e) in
      assertE (l \<noteq> []) ''sharers_list.second.size() > 0''
      (case de_class e of
         Limited s \<Rightarrow> (let (index, s') = random_next (of_nat (length l)) s
                       in Inr (l ! unat index, e\<lparr>de_class := Limited s'\<rparr>))
       | Limitless trap penalty \<Rightarrow> Inr (hd l, e)))"

definition de_getLatency :: "dir_entry \<Rightarrow> time" where
  "de_getLatency e = (case de_class e of Limited s \<Rightarrow> 0 | Limitless trap penalty \<Rightarrow> if trap then penalty else 0)"

subsection \<open>Directory\<close>

datatype directory_type = FULL_MAP | LIMITED_NO_BROADCAST | LIMITLESS

definition parseDirectoryType :: "string \<Rightarrow> directory_type res" where
  "parseDirectoryType s =
     (if s = ''full_map'' then Inr FULL_MAP
      else if s = ''limited_no_broadcast'' then Inr LIMITED_NO_BROADCAST
      else if s = ''limitless'' then Inr LIMITLESS
      else Inl (Log_Error ''Unsupported Directory Type''))"

record directory =
  dir_type :: directory_type
  dir_num_entries :: nat
  dir_allocated :: u64
  dir_max_hw_sharers :: nat
  dir_use_max_hw_sharers :: nat
  dir_max_num_sharers :: nat
  dir_trap_penalty :: time
  dir_forwarder_init :: core_id
  dir_entries :: "dir_entry option list"

text \<open>\<open>penalty\<close> is the configured software trap penalty, in nanoseconds; \<open>forwarder\<close> the content of the
  uninitialised forwarder of new entries.\<close>

definition Directory :: "string \<Rightarrow> nat \<Rightarrow> nat \<Rightarrow> nat \<Rightarrow> u64 \<Rightarrow> core_id \<Rightarrow> directory res" where
  "Directory directory_type_str num_entries max_hw_sharers max_num_sharers penalty forwarder =
     bindE (parseDirectoryType directory_type_str) (\<lambda>ty.
     Inr \<lparr>dir_type = ty, dir_num_entries = num_entries, dir_allocated = 0,
          dir_max_hw_sharers = max_hw_sharers, dir_use_max_hw_sharers = max_hw_sharers,
          dir_max_num_sharers = max_num_sharers, dir_trap_penalty = (if ty = LIMITLESS then TimeNS penalty else 0),
          dir_forwarder_init = forwarder, dir_entries = replicate num_entries None\<rparr>)"

definition sharers_width :: "nat \<Rightarrow> nat" where
  "sharers_width max_num_sharers =
     (if max_num_sharers \<le> 64 then 64 else if max_num_sharers \<le> 128 then 128
      else if max_num_sharers \<le> 256 then 256 else if max_num_sharers \<le> 1024 then 1024 else max_num_sharers)"

definition createDirectoryEntry :: "directory \<Rightarrow> dir_entry \<times> directory" where
  "createDirectoryEntry d =
     (let new = DirectoryEntry (dir_forwarder_init d) (sharers_width (dir_max_num_sharers d)) in
      case dir_type d of
        FULL_MAP \<Rightarrow> (new (Limited 1), d\<lparr>dir_use_max_hw_sharers := dir_max_num_sharers d\<rparr>)
      | LIMITED_NO_BROADCAST \<Rightarrow> (new (Limited 1), d)
      | LIMITLESS \<Rightarrow> (new (Limitless False (dir_trap_penalty d)), d))"

definition dir_getEntry :: "nat \<Rightarrow> directory \<Rightarrow> (dir_entry \<times> directory) res" where
  "dir_getEntry k d =
     (if k < dir_num_entries d then
        (case dir_entries d ! k of
           Some e \<Rightarrow> Inr (e, d)
         | None \<Rightarrow> (let (e, d) = createDirectoryEntry d in
             Inr (e, d\<lparr>dir_entries := (dir_entries d)[k := Some e], dir_allocated := dir_allocated d + 1\<rparr>)))
      else Inl (Log_Error ''Invalid entry_num''))"

definition dir_setEntry :: "nat \<Rightarrow> dir_entry \<Rightarrow> directory \<Rightarrow> directory" where
  "dir_setEntry k e d = d\<lparr>dir_entries := (dir_entries d)[k := Some e]\<rparr>"

subsection \<open>DramDirectoryCache\<close>

record dir_cache =
  dc_directory :: directory
  dc_replaced :: "dir_entry list"
  dc_associativity :: nat
  dc_num_sets :: u32
  dc_log_block :: nat
  dc_access_time :: latency

definition DramDirectoryCache ::
  "string \<Rightarrow> u32 \<Rightarrow> u32 \<Rightarrow> u32 \<Rightarrow> nat \<Rightarrow> nat \<Rightarrow> latency \<Rightarrow> u64 \<Rightarrow> core_id \<Rightarrow> dir_cache res" where
  "DramDirectoryCache directory_type_str total_entries associativity cache_block_size max_hw_sharers
     max_num_sharers access_time penalty forwarder =
     (if associativity = 0 then Inl (Out_Of_Range ''division by zero'') else
      bindE (Directory directory_type_str (unat total_entries) max_hw_sharers max_num_sharers penalty forwarder) (\<lambda>d.
      Inr \<lparr>dc_directory = d, dc_replaced = [], dc_associativity = unat associativity,
           dc_num_sets = total_entries div associativity, dc_log_block = nat (floorLog2 cache_block_size),
           dc_access_time = access_time\<rparr>))"

definition dc_getMaxHwSharers :: "dir_cache \<Rightarrow> nat" where
  "dc_getMaxHwSharers dc = dir_use_max_hw_sharers (dc_directory dc)"

definition dc_set_index :: "addr \<Rightarrow> dir_cache \<Rightarrow> nat" where
  "dc_set_index address dc = unat ((ucast (drop_bit (dc_log_block dc) address) :: u32) AND (dc_num_sets dc - 1))"

text \<open>The slots of the address's set, in the order the loops visit them.\<close>

definition dc_slots :: "addr \<Rightarrow> dir_cache \<Rightarrow> nat list" where
  "dc_slots address dc = map (\<lambda>i. dc_set_index address dc * dc_associativity dc + i) [0..<dc_associativity dc]"

text \<open>A \<open>DirectoryEntry*\<close>: the entry of a slot, or one in the list of replaced entries.\<close>

datatype dir_ptr = Slot nat | Replaced nat

fun dc_entry :: "dir_ptr \<Rightarrow> dir_cache \<Rightarrow> dir_entry option" where
  "dc_entry (Slot k) dc =
     (if k < length (dir_entries (dc_directory dc)) then dir_entries (dc_directory dc) ! k else None)"
| "dc_entry (Replaced k) dc = (if k < length (dc_replaced dc) then Some (dc_replaced dc ! k) else None)"

fun dc_store :: "dir_ptr \<Rightarrow> dir_entry \<Rightarrow> dir_cache \<Rightarrow> dir_cache" where
  "dc_store (Slot k) e dc = dc\<lparr>dc_directory := dir_setEntry k e (dc_directory dc)\<rparr>"
| "dc_store (Replaced k) e dc = dc\<lparr>dc_replaced := (dc_replaced dc)[k := e]\<rparr>"

text \<open>The loops over the ways: the first slot whose entry satisfies the condition; the entries
  visited are created.\<close>

primrec dc_scan :: "(dir_entry \<Rightarrow> bool) \<Rightarrow> nat list \<Rightarrow> dir_cache \<Rightarrow> (nat option \<times> dir_cache) res" where
  "dc_scan P [] dc = Inr (None, dc)"
| "dc_scan P (k # ks) dc =
     bindE (dir_getEntry k (dc_directory dc)) (\<lambda>(e, d).
     if P e then Inr (Some k, dc\<lparr>dc_directory := d\<rparr>) else dc_scan P ks (dc\<lparr>dc_directory := d\<rparr>))"

text \<open>The result: the entry, and the latency the entry adds when the lookup is modeled.\<close>

definition dc_getEntry :: "addr \<Rightarrow> dir_cache \<Rightarrow> ((dir_ptr option \<times> time) \<times> dir_cache) res" where
  "dc_getEntry address dc =
     bindE (dc_scan (\<lambda>e. de_address e = address) (dc_slots address dc) dc) (\<lambda>(hit, dc).
     case hit of
       Some k \<Rightarrow> Inr ((Some (Slot k), (case dc_entry (Slot k) dc of Some e \<Rightarrow> de_getLatency e | None \<Rightarrow> 0)), dc)
     | None \<Rightarrow>
         bindE (dc_scan (\<lambda>e. de_address e = INVALID_ADDRESS) (dc_slots address dc) dc) (\<lambda>(free, dc).
         case free of
           Some k \<Rightarrow> (case dc_entry (Slot k) dc of
               Some e \<Rightarrow> Inr ((Some (Slot k), 0), dc_store (Slot k) (e\<lparr>de_address := address\<rparr>) dc)
             | None \<Rightarrow> Inl (Null_Pointer ''directory_entry''))
         | None \<Rightarrow> Inr ((map_option Replaced (find_first (\<lambda>e. de_address e = address) (dc_replaced dc)), 0), dc)))"

text \<open>With \<open>modeled\<close> the simulation thread's clock advances: by the access time of the cache, and by
  the entry's latency on a hit in its set.\<close>

definition dc_getEntry_modeled :: "addr \<Rightarrow> time \<Rightarrow> dir_cache \<Rightarrow> (dir_ptr option \<times> time \<times> dir_cache) res" where
  "dc_getEntry_modeled address elapsed dc =
     bindE (incrElapsedTime (getLatency (dc_access_time dc)) elapsed) (\<lambda>elapsed.
     bindE (dc_getEntry address dc) (\<lambda>((p, l), dc).
     bindE (incrElapsedTime l elapsed) (\<lambda>elapsed. Inr (p, elapsed, dc))))"

text \<open>Creating every entry of a list of slots.\<close>

primrec dc_touch :: "nat list \<Rightarrow> dir_cache \<Rightarrow> dir_cache res" where
  "dc_touch [] dc = Inr dc"
| "dc_touch (k # ks) dc = bindE (dir_getEntry k (dc_directory dc)) (\<lambda>(e, d). dc_touch ks (dc\<lparr>dc_directory := d\<rparr>))"

definition getReplacementCandidates :: "addr \<Rightarrow> dir_cache \<Rightarrow> (dir_ptr list \<times> dir_cache) res" where
  "getReplacementCandidates address dc =
     bindE (dc_getEntry address dc) (\<lambda>((p, _), dc).
     assertE (p = None) ''getDirectoryEntry(address) == NULL''
     (bindE (dc_touch (dc_slots address dc) dc) (\<lambda>dc. Inr (map Slot (dc_slots address dc), dc))))"

definition replaceDirectoryEntry :: "addr \<Rightarrow> addr \<Rightarrow> dir_cache \<Rightarrow> (dir_ptr \<times> dir_cache) res" where
  "replaceDirectoryEntry replaced_address address dc =
     bindE (dc_scan (\<lambda>e. de_address e = replaced_address) (dc_slots replaced_address dc) dc) (\<lambda>(hit, dc).
     case hit of
       None \<Rightarrow> Inl (Log_Error ''Should not reach here'')
     | Some k \<Rightarrow> (case dc_entry (Slot k) dc of
           None \<Rightarrow> Inl (Null_Pointer ''replaced_directory_entry'')
         | Some old \<Rightarrow>
             (let (e, d) = createDirectoryEntry (dc_directory dc) in
              Inr (Slot k, dc\<lparr>dc_directory := dir_setEntry k (e\<lparr>de_address := address\<rparr>) d,
                              dc_replaced := dc_replaced dc @ [old]\<rparr>))))"

definition invalidateDirectoryEntry :: "addr \<Rightarrow> dir_cache \<Rightarrow> dir_cache res" where
  "invalidateDirectoryEntry address dc =
     (case find_first (\<lambda>e. de_address e = address) (dc_replaced dc) of
        Some k \<Rightarrow> Inr (dc\<lparr>dc_replaced := take k (dc_replaced dc) @ drop (Suc k) (dc_replaced dc)\<rparr>)
      | None \<Rightarrow> Inl (Log_Error ''Should not reach here''))"

end
