(* ===== verification/Directory_Cntlr.thy ===== *)
theory Directory_Cntlr
  imports Directory_Store Nuca
begin

text \<open>
  The tag directory's controller (pr_l1_pr_l2_dram_directory_msi/dram_directory_cntlr.cc): the
  requests of the last-level caches queue up by address, the one in front is worked on with the
  directory entry of the line, and messages go out to the caches and to DRAM.

  Every handler takes the state and returns it; the messages it sends are appended to \<open>dd_out\<close> in
  order. \<open>processNextReqFromL2Cache\<close> and the request handlers call each other: the handlers take
  the function that processes the next request as an argument, \<open>nxt\<close>, and the recursion is closed
  with fuel. A \<open>ShmemReq*\<close> is always the request in front of the queue of its address, so a
  change of the request is a change of that front.

  Memory the code reads without having written it is in the configuration: what the stack holds for
  \<open>eviction\<close>, \<open>evict_address\<close> and the local buffers, and what a buffer holds that was freed.
\<close>

subsection \<open>State and messages\<close>

datatype protocol_t = MSI | MESI | MESIF

record dd_conf =
  cf_core_id :: core_id
  cf_home :: address_home_lookup
  cf_block_size :: u32
  cf_protocol :: protocol_t
  cf_qenv :: queue_env
  cf_global_time :: time
  cf_junk_eviction :: "bool \<times> addr"
  cf_junk_buf :: "u8 list"
  cf_freed_buf :: "u8 list"

text \<open>A message sent: its receiver (\<open>None\<close> for a broadcast), its content and the time it left.\<close>

type_synonym sent = "core_id option \<times> shmem_msg \<times> time"

record dd_state =
  dd_cache :: dir_cache
  dd_queue :: "shmem_req req_queue"
  dd_nuca :: "nuca option"
  dd_evict :: "dstate_t \<Rightarrow> u64"
  dd_forward :: u64
  dd_forward_failed :: u64
  dd_time :: time
  dd_perf :: perf_store
  dd_out :: "sent list"

definition parseProtocol :: "string \<Rightarrow> protocol_t res" where
  "parseProtocol protocol =
     (if protocol = ''msi'' then Inr MSI else if protocol = ''mesi'' then Inr MESI
      else if protocol = ''mesif'' then Inr MESIF else Inl (Log_Error ''Invalid coherency protocol''))"

text \<open>\<open>junk\<close> is what \<open>evict[UNCACHED]\<close> holds, the one counter that is not initialised.\<close>

definition DramDirectoryCntlr ::
  "core_id \<Rightarrow> nuca option \<Rightarrow> u32 \<Rightarrow> u32 \<Rightarrow> u32 \<Rightarrow> nat \<Rightarrow> nat \<Rightarrow> string \<Rightarrow> latency \<Rightarrow> u64 \<Rightarrow> u64 \<Rightarrow> core_id \<Rightarrow> dd_state res" where
  "DramDirectoryCntlr core_id nuca_cache total_entries associativity cache_block_size max_num_sharers max_hw_sharers
     directory_type_str access_time penalty junk forwarder =
     bindE (DramDirectoryCache directory_type_str total_entries associativity cache_block_size max_hw_sharers
       max_num_sharers access_time penalty forwarder) (\<lambda>dc.
     Inr \<lparr>dd_cache = dc, dd_queue = (\<lambda>_. []), dd_nuca = nuca_cache,
          dd_evict = (\<lambda>s. if s = D_UNCACHED then junk else 0), dd_forward = 0, dd_forward_failed = 0,
          dd_time = 0, dd_perf = (\<lambda>_. ShmemPerf), dd_out = []\<rparr>)"

definition updateShmemPerf :: "nat option \<Rightarrow> shmem_reason \<Rightarrow> dd_state \<Rightarrow> dd_state" where
  "updateShmemPerf perf reason d = d\<lparr>dd_perf := updateTime perf (dd_time d) reason (dd_perf d)\<rparr>"

definition sendMsg ::
  "msg_t \<Rightarrow> component_t \<Rightarrow> core_id \<Rightarrow> core_id \<Rightarrow> addr \<Rightarrow> u8 list option \<Rightarrow> u32 \<Rightarrow> where_t \<Rightarrow> nat option \<Rightarrow>
     dd_state \<Rightarrow> dd_state res" where
  "sendMsg ty receiver_component requester receiver address data_buf data_length hit_where perf d =
     assertE ((data_buf = None) = (data_length = 0)) ''(data_buf == NULL) == (data_length == 0)''
     (let m = (ShmemMsg ty TAG_DIR receiver_component requester address data_buf data_length perf)\<lparr>msg_where := hit_where\<rparr>;
          d = updateShmemPerf perf R_UNKNOWN d in
      Inr (d\<lparr>dd_out := dd_out d @ [(Some receiver, m, dd_time d)]\<rparr>))"

definition broadcastMsg ::
  "msg_t \<Rightarrow> component_t \<Rightarrow> core_id \<Rightarrow> addr \<Rightarrow> u8 list option \<Rightarrow> u32 \<Rightarrow> nat option \<Rightarrow> dd_state \<Rightarrow> dd_state res" where
  "broadcastMsg ty receiver_component requester address data_buf data_length perf d =
     assertE ((data_buf = None) = (data_length = 0)) ''(data_buf == NULL) == (data_length == 0)''
     (let m = ShmemMsg ty TAG_DIR receiver_component requester address data_buf data_length perf;
          d = updateShmemPerf perf R_UNKNOWN d in
      Inr (d\<lparr>dd_out := dd_out d @ [(None, m, dd_time d)]\<rparr>))"

text \<open>A message without data to the cache of \<open>receiver\<close>.\<close>

definition toCache :: "msg_t \<Rightarrow> core_id \<Rightarrow> core_id \<Rightarrow> addr \<Rightarrow> nat option \<Rightarrow> dd_state \<Rightarrow> dd_state res" where
  "toCache ty requester receiver address perf =
     sendMsg ty L2_CACHE requester receiver address None 0 HW_UNKNOWN perf"

primrec sendAll :: "core_id \<Rightarrow> addr \<Rightarrow> (msg_t \<times> core_id \<times> nat option) list \<Rightarrow> dd_state \<Rightarrow> dd_state res" where
  "sendAll requester address [] d = Inr d"
| "sendAll requester address (m # ms) d =
     bindE (toCache (fst m) requester (fst (snd m)) address (snd (snd m)) d) (sendAll requester address ms)"

text \<open>The loop over the sharers; the \<open>ShmemPerf\<close> travels with the first message only.\<close>

definition invalidations :: "nat option \<Rightarrow> core_id list \<Rightarrow> (msg_t \<times> core_id \<times> nat option) list" where
  "invalidations perf sharers = map (\<lambda>i. (INV_REQ, sharers ! i, if i = 0 then perf else None)) [0..<length sharers]"

definition invalidateSharers :: "core_id \<Rightarrow> addr \<Rightarrow> nat option \<Rightarrow> dir_entry \<Rightarrow> dd_state \<Rightarrow> dd_state res" where
  "invalidateSharers requester address perf e d =
     (let (broadcast, sharers) = getSharersList e in
      if broadcast then broadcastMsg INV_REQ L2_CACHE requester address None 0 None d
      else sendAll requester address (invalidations perf sharers) d)"

text \<open>Directory entries through their pointers.\<close>

definition findEntry :: "addr \<Rightarrow> dd_state \<Rightarrow> (dir_ptr option \<times> dd_state) res" where
  "findEntry address d = bindE (dc_getEntry address (dd_cache d)) (\<lambda>((p, _), dc). Inr (p, d\<lparr>dd_cache := dc\<rparr>))"

definition derefEntry :: "dir_ptr \<Rightarrow> dd_state \<Rightarrow> dir_entry res" where
  "derefEntry p d = (case dc_entry p (dd_cache d) of Some e \<Rightarrow> Inr e | None \<Rightarrow> Inl (Null_Pointer ''directory_entry''))"

definition storeEntry :: "dir_ptr \<Rightarrow> dir_entry \<Rightarrow> dd_state \<Rightarrow> dd_state" where
  "storeEntry p e d = d\<lparr>dd_cache := dc_store p e (dd_cache d)\<rparr>"

text \<open>\<open>assert(directory_entry)\<close> with the entry.\<close>

definition knownEntry :: "addr \<Rightarrow> dd_state \<Rightarrow> (dir_ptr \<times> dir_entry \<times> dd_state) res" where
  "knownEntry address d =
     bindE (findEntry address d) (\<lambda>(p, d).
     case p of None \<Rightarrow> Inl (Assert_Failed ''directory_entry'')
     | Some p \<Rightarrow> bindE (derefEntry p d) (\<lambda>e. Inr (p, e, d)))"

subsection \<open>Data to NUCA and DRAM\<close>

definition sendDataToNUCA :: "dd_conf \<Rightarrow> addr \<Rightarrow> u8 list option \<Rightarrow> dd_state \<Rightarrow> dd_state res" where
  "sendDataToNUCA cf address data_buf d =
     (case dd_nuca d of None \<Rightarrow> Inr d
      | Some nu \<Rightarrow>
          bindE (nuca_write (cf_qenv cf) (cf_global_time cf) address data_buf (dd_time d) (nu, dd_perf d))
            (\<lambda>((_, _, ev, evbuf), nu, ps).
          let d = d\<lparr>dd_nuca := Some nu, dd_perf := ps\<rparr>;
              (eviction, evict_address) = (case ev of Some x \<Rightarrow> x | None \<Rightarrow> cf_junk_eviction cf);
              evict_buf = (case evbuf of Some xs \<Rightarrow> xs | None \<Rightarrow> cf_junk_buf cf) in
          if eviction
          then bindE (getHome (cf_home cf) evict_address) (\<lambda>dram_node.
               sendMsg DRAM_WRITE_REQ DRAM (cf_core_id cf) dram_node evict_address (Some evict_buf)
                 (cf_block_size cf) HW_UNKNOWN None d)
          else Inr d))"

definition sendDataToDram :: "dd_conf \<Rightarrow> addr \<Rightarrow> core_id \<Rightarrow> u8 list option \<Rightarrow> dd_state \<Rightarrow> dd_state res" where
  "sendDataToDram cf address requester data_buf d =
     (if dd_nuca d \<noteq> None then sendDataToNUCA cf address data_buf d
      else bindE (getHome (cf_home cf) address) (\<lambda>dram_node.
           sendMsg DRAM_WRITE_REQ DRAM requester dram_node address data_buf (cf_block_size cf) HW_UNKNOWN None d))"

subsection \<open>Allocation and nullification\<close>

type_synonym next_req = "addr \<Rightarrow> dd_state \<Rightarrow> dd_state res"

definition processNullifyReq :: "next_req \<Rightarrow> shmem_req \<Rightarrow> dd_state \<Rightarrow> dd_state res" where
  "processNullifyReq nxt req d =
     (let address = rq_address req; requester = rq_requester req in
      bindE (knownEntry address d) (\<lambda>(p, e, d).
      case de_state e of
        D_EXCLUSIVE \<Rightarrow> toCache FLUSH_REQ requester (de_owner e) address None d
      | D_MODIFIED \<Rightarrow> toCache FLUSH_REQ requester (de_owner e) address None d
      | D_SHARED \<Rightarrow> invalidateSharers requester address None e d
      | D_UNCACHED \<Rightarrow> bindE (invalidateDirectoryEntry address (dd_cache d)) (\<lambda>dc. nxt address (d\<lparr>dd_cache := dc\<rparr>))
      | D_OWNED \<Rightarrow> Inl (Log_Error ''Unsupported Directory State'')))"

text \<open>The candidate with the fewest sharers among those without outstanding requests, the first of
  equals.\<close>

primrec pick_candidate ::
  "'r req_queue \<Rightarrow> dir_entry option \<Rightarrow> dir_entry list \<Rightarrow> dir_entry option" where
  "pick_candidate q best [] = best"
| "pick_candidate q best (e # es) =
     pick_candidate q
       (if (case best of None \<Rightarrow> True | Some b \<Rightarrow> getNumSharers b > getNumSharers e) \<and> q_size (de_address e) q = 0
        then Some e else best) es"

definition processDirectoryEntryAllocationReq ::
  "next_req \<Rightarrow> shmem_req \<Rightarrow> dd_state \<Rightarrow> (dir_ptr \<times> dd_state) res" where
  "processDirectoryEntryAllocationReq nxt req d =
     (let address = rq_address req; requester = rq_requester req; msg_time = dd_time d in
      bindE (getReplacementCandidates address (dd_cache d)) (\<lambda>(ps, dc).
      let d = d\<lparr>dd_cache := dc\<rparr> in
      bindE (mapE (\<lambda>p. derefEntry p d) ps) (\<lambda>es.
      case pick_candidate (dd_queue d) None es of
        None \<Rightarrow> Inl (Log_Error ''Cannot find a directory entry to be replaced with a non-zero request list'')
      | Some candidate \<Rightarrow>
          (let replaced_address = de_address candidate;
               d = d\<lparr>dd_evict := (dd_evict d)(de_state candidate := dd_evict d (de_state candidate) + 1)\<rparr> in
           bindE (incrElapsedTime (getLatency (dc_access_time (dd_cache d))) (dd_time d)) (\<lambda>t.
           bindE (replaceDirectoryEntry replaced_address address (dd_cache d)) (\<lambda>(p, dc).
           bindE (ShmemReq (ShmemMsg NULLIFY_REQ TAG_DIR TAG_DIR requester replaced_address None 0 None) msg_time) (\<lambda>nullify_req.
           let d = d\<lparr>dd_time := t, dd_cache := dc, dd_queue := q_enqueue replaced_address nullify_req (dd_queue d)\<rparr> in
           assertE (q_size replaced_address (dd_queue d) = 1) ''size(replaced_address) == 1''
           (bindE (processNullifyReq nxt nullify_req d) (\<lambda>d. Inr (p, d)))))))))) "

text \<open>The entry of a request: found, or allocated.\<close>

definition requestEntry :: "next_req \<Rightarrow> shmem_req \<Rightarrow> dd_state \<Rightarrow> (dir_ptr \<times> dir_entry \<times> dd_state) res" where
  "requestEntry nxt req d =
     bindE (findEntry (rq_address req) d) (\<lambda>(p, d).
     bindE (case p of Some p \<Rightarrow> Inr (p, d) | None \<Rightarrow> processDirectoryEntryAllocationReq nxt req d) (\<lambda>(p, d).
     bindE (derefEntry p d) (\<lambda>e. Inr (p, e, d))))"

subsection \<open>Requests\<close>

definition readNuca :: "dd_conf \<Rightarrow> addr \<Rightarrow> nat option \<Rightarrow> dd_state \<Rightarrow> (u8 list option \<times> dd_state) res" where
  "readNuca cf address perf d =
     (case dd_nuca d of None \<Rightarrow> Inr (None, d)
      | Some nu \<Rightarrow>
          bindE (nuca_read (cf_qenv cf) (cf_global_time cf) address (dd_time d) perf (nu, dd_perf d))
            (\<lambda>((nuca_latency, hit_where, out), nu, ps).
          bindE (incrElapsedTime nuca_latency (dd_time d)) (\<lambda>t.
          Inr (if hit_where \<noteq> HW_MISS then Some (case out of Some xs \<Rightarrow> xs | None \<Rightarrow> cf_junk_buf cf) else None,
               d\<lparr>dd_nuca := Some nu, dd_perf := ps, dd_time := t\<rparr>))))"

text \<open>\<open>perf\<close> is the \<open>ShmemPerf\<close> of \<open>orig_shmem_msg\<close>.\<close>

definition retrieveDataAndSendToL2Cache ::
  "dd_conf \<Rightarrow> next_req \<Rightarrow> msg_t \<Rightarrow> core_id \<Rightarrow> addr \<Rightarrow> u8 list option \<Rightarrow> nat option \<Rightarrow> dd_state \<Rightarrow> dd_state res" where
  "retrieveDataAndSendToL2Cache cf nxt reply_msg_type receiver address cached_data_buf perf d =
     bindE (knownEntry address d) (\<lambda>(p, e, d).
     if cached_data_buf \<noteq> None then
       bindE (sendMsg reply_msg_type L2_CACHE receiver receiver address cached_data_buf (cf_block_size cf)
                HW_CACHE_REMOTE perf (storeEntry p (e\<lparr>de_forwarder := receiver\<rparr>) d)) (nxt address)
     else
       bindE (readNuca cf address perf d) (\<lambda>(nuca_data_buf, d).
       if nuca_data_buf \<noteq> None then
         bindE (sendMsg reply_msg_type L2_CACHE receiver receiver address nuca_data_buf (cf_block_size cf)
                  HW_NUCA_CACHE perf d) (nxt address)
       else
         assertE (q_size address (dd_queue d) > 0) ''size(address) > 0''
         (bindE (q_front address (dd_queue d)) (\<lambda>req.
          if cf_protocol cf = MESIF \<and> rq_forwarding req = INVALID_CORE_ID \<and> de_state e = D_SHARED \<and>
             de_forwarder e \<noteq> INVALID_CORE_ID
          then toCache WB_REQ receiver (de_forwarder e) address (rq_perf req)
                 (d\<lparr>dd_queue := q_modify_front address (\<lambda>r. r\<lparr>rq_forwarding := de_forwarder e\<rparr>) (dd_queue d)\<rparr>)
          else
            bindE (getHome (cf_home cf) address) (\<lambda>dram_node.
            sendMsg DRAM_READ_REQ DRAM receiver dram_node address None 0 HW_UNKNOWN perf
              (d\<lparr>dd_queue := q_modify_front address (\<lambda>r. r\<lparr>rq_wait := True\<rparr>) (dd_queue d)\<rparr>))))))"

text \<open>\<open>addSharer\<close> on an uncached line, which must succeed, with the requester as owner.\<close>

definition ownEntry :: "dstate_t \<Rightarrow> core_id \<Rightarrow> dir_ptr \<Rightarrow> dir_entry \<Rightarrow> dd_state \<Rightarrow> dd_state res" where
  "ownEntry dstate requester p e d =
     bindE (addSharer requester (dc_getMaxHwSharers (dd_cache d)) e) (\<lambda>(add_result, e).
     assertE add_result ''add_result == true''
     (bindE (setOwner requester e) (\<lambda>e. Inr (storeEntry p (e\<lparr>de_state := dstate\<rparr>) d))))"

definition processExReqFromL2Cache ::
  "dd_conf \<Rightarrow> next_req \<Rightarrow> u8 list option \<Rightarrow> shmem_req \<Rightarrow> dd_state \<Rightarrow> dd_state res" where
  "processExReqFromL2Cache cf nxt cached_data_buf req d =
     (let address = rq_address req; requester = rq_requester req in
      bindE (requestEntry nxt req (updateShmemPerf (rq_perf req) R_UNKNOWN d)) (\<lambda>(p, e, d).
      let d = updateShmemPerf (rq_perf req) R_TD_ACCESS d in
      case de_state e of
        D_EXCLUSIVE \<Rightarrow> assertE (cached_data_buf = None) ''cached_data_buf == NULL''
          (toCache FLUSH_REQ requester (de_owner e) address (rq_perf req) d)
      | D_MODIFIED \<Rightarrow> assertE (cached_data_buf = None) ''cached_data_buf == NULL''
          (toCache FLUSH_REQ requester (de_owner e) address (rq_perf req) d)
      | D_SHARED \<Rightarrow> assertE (cached_data_buf = None) ''cached_data_buf == NULL''
          (invalidateSharers requester address (rq_perf req) e d)
      | D_UNCACHED \<Rightarrow>
          bindE (ownEntry D_MODIFIED requester p e d)
            (retrieveDataAndSendToL2Cache cf nxt EX_REP requester address cached_data_buf (rq_perf req))
      | D_OWNED \<Rightarrow> Inl (Log_Error ''Unsupported Directory State'')))"

definition processShReqFromL2Cache ::
  "dd_conf \<Rightarrow> next_req \<Rightarrow> u8 list option \<Rightarrow> shmem_req \<Rightarrow> dd_state \<Rightarrow> dd_state res" where
  "processShReqFromL2Cache cf nxt cached_data_buf req d =
     (let address = rq_address req; requester = rq_requester req; perf = rq_perf req in
      bindE (requestEntry nxt req (updateShmemPerf perf R_UNKNOWN d)) (\<lambda>(p, e, d).
      let d = updateShmemPerf perf R_TD_ACCESS d in
      case de_state e of
        D_EXCLUSIVE \<Rightarrow> assertE (requester \<noteq> de_owner e) ''requester != directory_entry->getOwner()''
          (assertE (cached_data_buf = None) ''cached_data_buf == NULL''
            (toCache WB_REQ requester (de_owner e) address perf d))
      | D_MODIFIED \<Rightarrow> assertE (cached_data_buf = None) ''cached_data_buf == NULL''
          (toCache WB_REQ requester (de_owner e) address perf d)
      | D_SHARED \<Rightarrow>
          bindE (hasSharer requester e) (\<lambda>has_sharer.
          if has_sharer then
            retrieveDataAndSendToL2Cache cf nxt SH_REP requester address cached_data_buf perf
              (d\<lparr>dd_forward := dd_forward d + 1,
                 dd_forward_failed := (if cached_data_buf = None then dd_forward_failed d + 1 else dd_forward_failed d)\<rparr>)
          else
            bindE (addSharer requester (dc_getMaxHwSharers (dd_cache d)) e) (\<lambda>(add_result, e).
            if \<not> add_result then
              bindE (getOneSharer e) (\<lambda>(sharer_id, e).
              toCache INV_REQ requester sharer_id address perf (storeEntry p e d))
            else retrieveDataAndSendToL2Cache cf nxt SH_REP requester address cached_data_buf perf (storeEntry p e d)))
      | D_UNCACHED \<Rightarrow>
          (if cf_protocol cf = MSI
           then bindE (ownEntry D_SHARED requester p e d)
                  (retrieveDataAndSendToL2Cache cf nxt SH_REP requester address cached_data_buf perf)
           else bindE (ownEntry D_EXCLUSIVE requester p e d)
                  (retrieveDataAndSendToL2Cache cf nxt EX_REP requester address cached_data_buf perf))
      | D_OWNED \<Rightarrow> Inl (Log_Error ''Unsupported Directory State'')))"

text \<open>The messages of the loop that invalidates the other sharers; one of them is asked for the data
  when the requester has no copy.\<close>

definition upgradeInvalidations ::
  "bool \<Rightarrow> core_id \<Rightarrow> nat option \<Rightarrow> core_id list \<Rightarrow> (msg_t \<times> core_id \<times> nat option) list" where
  "upgradeInvalidations requesterHasCopy requester perf sharers =
     map (\<lambda>i. (if \<not> requesterHasCopy \<and> i = 0 then FLUSH_REQ else INV_REQ, sharers ! i, if i = 0 then perf else None))
       (filter (\<lambda>i. sharers ! i \<noteq> requester) [0..<length sharers])"

definition processUpgradeReqFromL2Cache ::
  "dd_conf \<Rightarrow> next_req \<Rightarrow> u8 list option \<Rightarrow> shmem_req \<Rightarrow> dd_state \<Rightarrow> dd_state res" where
  "processUpgradeReqFromL2Cache cf nxt cached_data_buf req d =
     (let address = rq_address req; requester = rq_requester req; perf = rq_perf req in
      bindE (requestEntry nxt req (updateShmemPerf perf R_UNKNOWN d)) (\<lambda>(p, e, d).
      let (broadcast, sharers) = getSharersList e;
          d = updateShmemPerf perf R_TD_ACCESS d;
          owned = (if sharers = [] then Inl (Out_Of_Range ''sharers_list_pair.second[0]'')
            else if hd sharers = requester then
              assertE (de_owner e = requester) ''getOwner() == requester''
              (bindE (toCache UPGRADE_REP requester requester address perf d) (\<lambda>d.
               nxt address (storeEntry p (e\<lparr>de_state := D_MODIFIED\<rparr>) d)))
            else toCache FLUSH_REQ requester (de_owner e) address perf d) in
      case de_state e of
        D_EXCLUSIVE \<Rightarrow> owned
      | D_MODIFIED \<Rightarrow> owned
      | D_SHARED \<Rightarrow>
          (if sharers = [requester] then
             bindE (setOwner requester e) (\<lambda>e.
             bindE (toCache UPGRADE_REP requester requester address perf (storeEntry p (e\<lparr>de_state := D_MODIFIED\<rparr>) d))
               (nxt address))
           else
             bindE (hasSharer requester e) (\<lambda>requesterHasCopy.
             if broadcast then broadcastMsg INV_REQ L2_CACHE requester address None 0 None d
             else sendAll requester address (upgradeInvalidations requesterHasCopy requester perf sharers) d))
      | D_UNCACHED \<Rightarrow> assertE (sharers = []) ''sharers_list_pair.second.size() == 0''
          (bindE (ownEntry D_MODIFIED requester p e d)
            (retrieveDataAndSendToL2Cache cf nxt EX_REP requester address
              (if cached_data_buf = None then rq_data req else cached_data_buf) perf))
      | D_OWNED \<Rightarrow> Inl (Log_Error ''Unsupported Directory State'')))"

subsection \<open>The next request\<close>

primrec processNextReqFromL2Cache :: "dd_conf \<Rightarrow> nat \<Rightarrow> next_req" where
  "processNextReqFromL2Cache cf 0 address d = Inl (No_Return ''processNextReqFromL2Cache'')"
| "processNextReqFromL2Cache cf (Suc fuel) address d =
     assertE (q_size address (dd_queue d) \<ge> 1) ''size(address) >= 1''
     (bindE (q_dequeue address (dd_queue d)) (\<lambda>(completed_shmem_req, q).
      let d = d\<lparr>dd_queue := q\<rparr>; nxt = processNextReqFromL2Cache cf fuel in
      if \<not> q_empty address q then
        bindE (q_front address q) (\<lambda>req.
        let d = d\<lparr>dd_time := setElapsedTime (rq_time req) (dd_time d)\<rparr> in
        if rq_type req = EX_REQ then processExReqFromL2Cache cf nxt None req d
        else if rq_type req = SH_REQ then processShReqFromL2Cache cf nxt None req d
        else if rq_type req = UPGRADE_REQ then processUpgradeReqFromL2Cache cf nxt None req d
        else Inl (Log_Error ''Unrecognized Request''))
      else Inr d))"

text \<open>As many calls as there are requests in the queue are enough; see \<open>nextReq_unfold\<close>.\<close>

definition nextReq :: "dd_conf \<Rightarrow> next_req" where
  "nextReq cf address d = processNextReqFromL2Cache cf (Suc (q_size address (dd_queue d))) address d"

subsection \<open>Replies\<close>

definition frontReq :: "addr \<Rightarrow> dd_state \<Rightarrow> shmem_req res" where
  "frontReq address d = q_front address (dd_queue d)"

definition processDRAMReply :: "dd_conf \<Rightarrow> core_id \<Rightarrow> shmem_msg \<Rightarrow> dd_state \<Rightarrow> dd_state res" where
  "processDRAMReply cf sender m d =
     (let address = msg_address m in
      assertE (q_size address (dd_queue d) \<ge> 1) ''size(address) >= 1''
      (bindE (frontReq address d) (\<lambda>req.
       bindE (knownEntry address (updateShmemPerf (rq_perf req) R_UNKNOWN d)) (\<lambda>(p, e, d).
       let d = updateShmemPerf (rq_perf req) R_TD_ACCESS d in
       bindE (if rq_type req = SH_REQ then
                assertE (de_state e = D_SHARED \<or> de_state e = D_EXCLUSIVE) ''SHARED || EXCLUSIVE''
                  (Inr (if de_state e = D_EXCLUSIVE then EX_REP else SH_REP))
              else if rq_type req = EX_REQ then assertE (de_state e = D_MODIFIED) ''MODIFIED'' (Inr EX_REP)
              else if rq_type req = UPGRADE_REQ then Inr EX_REP
              else Inl (Log_Error ''Unsupported request type'')) (\<lambda>reply_msg_type.
       let hit_where = (if msg_where m = HW_DRAM
             then (if sender = msg_requester m then HW_DRAM_LOCAL else HW_DRAM_REMOTE) else msg_where m) in
       bindE (sendMsg reply_msg_type L2_CACHE (rq_requester req) (rq_requester req) address (msg_data m)
                (cf_block_size cf) hit_where (rq_perf req) d) (\<lambda>d.
       bindE (sendDataToNUCA cf address (msg_data m) d) (nextReq cf address)))))))"

text \<open>\<open>updateTime\<close> on the request in front and \<open>updateElapsedTime\<close> with its new time.\<close>

definition advanceFront :: "addr \<Rightarrow> time \<Rightarrow> dd_state \<Rightarrow> (shmem_req \<times> dd_state) res" where
  "advanceFront address now d =
     (let q = q_modify_front address (rq_updateTime now) (dd_queue d) in
      bindE (q_front address q) (\<lambda>req.
      Inr (req, d\<lparr>dd_queue := q, dd_time := updateElapsedTime (rq_time req) (dd_time d)\<rparr>)))"

definition processInvRepFromL2Cache :: "dd_conf \<Rightarrow> core_id \<Rightarrow> shmem_msg \<Rightarrow> dd_state \<Rightarrow> dd_state res" where
  "processInvRepFromL2Cache cf sender m d =
     (let address = msg_address m in
      bindE (knownEntry address d) (\<lambda>(p, e, d).
      assertE (de_state e = D_SHARED \<or> de_state e = D_EXCLUSIVE) ''SHARED || EXCLUSIVE''
      (bindE (removeSharer sender False e) (\<lambda>e.
       let e = (if de_forwarder e = sender then e\<lparr>de_forwarder := INVALID_CORE_ID\<rparr> else e);
           e = (if getNumSharers e = 0 then e\<lparr>de_state := D_UNCACHED\<rparr> else e);
           d = storeEntry p e d in
       if q_size address (dd_queue d) > 0 then
         bindE (advanceFront address (dd_time d) d) (\<lambda>(req, d).
         let woken = updateShmemPerf (rq_perf req) R_INV_IMBALANCE d in
         if rq_type req = EX_REQ then
           (if de_state e = D_UNCACHED then processExReqFromL2Cache cf (nextReq cf) None req woken else Inr d)
         else if rq_type req = UPGRADE_REQ then
           (if getNumSharers e = 1 then
              bindE (hasSharer (rq_requester req) e) (\<lambda>has_sharer.
              if has_sharer then processUpgradeReqFromL2Cache cf (nextReq cf) None req woken else Inr d)
            else if getNumSharers e = 0 then
              processUpgradeReqFromL2Cache cf (nextReq cf) None req
                (updateShmemPerf (rq_perf req) R_INV_IMBALANCE (storeEntry p (e\<lparr>de_state := D_UNCACHED\<rparr>) d))
            else Inr d)
         else if rq_type req = SH_REQ then
           (if rq_wait req then Inr d
            else if isForwarding req \<and> sender \<noteq> rq_forwarding req then Inr d
            else processShReqFromL2Cache cf (nextReq cf) None req woken)
         else
           (if de_state e = D_UNCACHED then processNullifyReq (nextReq cf) req woken else Inr d))
       else Inr d))))"

definition processFlushRepFromL2Cache :: "dd_conf \<Rightarrow> core_id \<Rightarrow> shmem_msg \<Rightarrow> dd_state \<Rightarrow> dd_state res" where
  "processFlushRepFromL2Cache cf sender m d =
     (let address = msg_address m; now = dd_time d in
      bindE (knownEntry address d) (\<lambda>(p, e, d).
      bindE (hasSharer sender e) (\<lambda>has_sharer.
      assertE has_sharer ''directory_entry->hasSharer(sender)''
      (bindE (removeSharer sender False e) (\<lambda>e.
       bindE (setOwner INVALID_CORE_ID (e\<lparr>de_forwarder := INVALID_CORE_ID\<rparr>)) (\<lambda>e.
       assertE (getNumSharers e = 0 \<or> de_state e = D_SHARED) ''getDState() == SHARED''
       (let e = (if getNumSharers e = 0 then e\<lparr>de_state := D_UNCACHED\<rparr> else e);
            d = storeEntry p e d in
        if q_size address (dd_queue d) \<noteq> 0 then
          bindE (advanceFront address now d) (\<lambda>(req, d).
          let d = d\<lparr>dd_perf := updateTime (rq_perf req) now R_UNKNOWN (dd_perf d)\<rparr>;
              d = updateShmemPerf (rq_perf req) R_TD_ACCESS d in
          if rq_type req = EX_REQ then processExReqFromL2Cache cf (nextReq cf) (msg_data m) req d
          else if rq_type req = SH_REQ then
            bindE (sendDataToDram cf address (msg_requester m) (msg_data m) d)
              (processShReqFromL2Cache cf (nextReq cf) (msg_data m) req)
          else if rq_type req = UPGRADE_REQ then
            (if getNumSharers e = 0 then
               processUpgradeReqFromL2Cache cf (nextReq cf) (msg_data m) req (storeEntry p (e\<lparr>de_state := D_UNCACHED\<rparr>) d)
             else Inr (d\<lparr>dd_queue := q_modify_front address
                    (\<lambda>r. r\<lparr>rq_data := map_option (\<lambda>_. cf_freed_buf cf) (msg_data m)\<rparr>) (dd_queue d)\<rparr>))
          else
            bindE (sendDataToDram cf address (msg_requester m) (msg_data m) d) (processNullifyReq (nextReq cf) req))
        else sendDataToDram cf address (msg_requester m) (msg_data m) d))))))) "

definition processWbRepFromL2Cache :: "dd_conf \<Rightarrow> core_id \<Rightarrow> shmem_msg \<Rightarrow> dd_state \<Rightarrow> dd_state res" where
  "processWbRepFromL2Cache cf sender m d =
     (let address = msg_address m; now = dd_time d in
      bindE (knownEntry address d) (\<lambda>(p, e, d).
      bindE (hasSharer sender e) (\<lambda>has_sharer.
      assertE has_sharer ''directory_entry->hasSharer(sender)''
      (bindE (setOwner INVALID_CORE_ID e) (\<lambda>e.
       let d = storeEntry p (e\<lparr>de_state := D_SHARED\<rparr>) d in
       if q_size address (dd_queue d) \<noteq> 0 then
         bindE (advanceFront address now d) (\<lambda>(req, d).
         let d = d\<lparr>dd_perf := updateTime (rq_perf req) now R_UNKNOWN (dd_perf d)\<rparr>;
             d = updateShmemPerf (rq_perf req) R_TD_ACCESS d in
         if rq_type req = SH_REQ then processShReqFromL2Cache cf (nextReq cf) (msg_data m) req d
         else Inl (Log_Error ''Address(0x%x), Req(%u)''))
       else Inl (Log_Error ''Should not reach here'')))))) "

subsection \<open>Messages\<close>

text \<open>A request enters the queue of its address and is processed at once if it is alone there.\<close>

definition enqueueReq ::
  "dd_conf \<Rightarrow> (shmem_req \<Rightarrow> dd_state \<Rightarrow> dd_state res) \<Rightarrow> shmem_msg \<Rightarrow> time \<Rightarrow> dd_state \<Rightarrow> dd_state res" where
  "enqueueReq cf process m msg_time d =
     bindE (ShmemReq m msg_time) (\<lambda>req.
     let d = d\<lparr>dd_queue := q_enqueue (msg_address m) req (dd_queue d)\<rparr> in
     if q_size (msg_address m) (dd_queue d) = 1 then process req d else Inr d)"

definition handleMsgFromL2Cache :: "dd_conf \<Rightarrow> core_id \<Rightarrow> shmem_msg \<Rightarrow> dd_state \<Rightarrow> dd_state res" where
  "handleMsgFromL2Cache cf sender m d =
     (let msg_time = dd_time d in
      bindE (dc_getEntry_modeled (msg_address m) (dd_time d) (dd_cache d)) (\<lambda>(p, t, dc).
      let d = updateShmemPerf (msg_perf m) R_TD_ACCESS (d\<lparr>dd_time := t, dd_cache := dc\<rparr>) in
      if msg_type m = EX_REQ then enqueueReq cf (processExReqFromL2Cache cf (nextReq cf) None) m msg_time d
      else if msg_type m = SH_REQ then enqueueReq cf (processShReqFromL2Cache cf (nextReq cf) None) m msg_time d
      else if msg_type m = INV_REP then processInvRepFromL2Cache cf sender m d
      else if msg_type m = FLUSH_REP then processFlushRepFromL2Cache cf sender m d
      else if msg_type m = WB_REP then processWbRepFromL2Cache cf sender m d
      else if msg_type m = UPGRADE_REQ then
        enqueueReq cf (processUpgradeReqFromL2Cache cf (nextReq cf) None) m msg_time d
      else Inl (Log_Error ''Unrecognized Shmem Msg Type'')))"

definition handleMsgFromDRAM :: "dd_conf \<Rightarrow> core_id \<Rightarrow> shmem_msg \<Rightarrow> dd_state \<Rightarrow> dd_state res" where
  "handleMsgFromDRAM cf sender m d =
     (if msg_type m = DRAM_READ_REP then processDRAMReply cf sender m d
      else Inl (Log_Error ''Unrecognized Shmem Msg Type''))"

end
