(* ===== verification/Directory_Store_Props.thy ===== *)
theory Directory_Store_Props
  imports Directory_Store
begin

text \<open>
  The directory cache is a finite map from addresses to entries: slots of the set of the address,
  then the list of replaced entries. Lookup, allocation, replacement and invalidation are
  operations of that map.
\<close>

subsection \<open>Slots\<close>

text \<open>A slot that was never used holds a null pointer; it counts as a fresh entry, which the first
  visit creates.\<close>

definition fresh_class :: "directory \<Rightarrow> dir_class" where
  "fresh_class d = (if dir_type d = LIMITLESS then Limitless False (dir_trap_penalty d) else Limited 1)"

definition fresh_entry :: "dir_cache \<Rightarrow> dir_entry" where
  "fresh_entry dc = (let d = dc_directory dc in
     DirectoryEntry (dir_forwarder_init d) (sharers_width (dir_max_num_sharers d)) (fresh_class d))"

definition hw_sharers :: "directory \<Rightarrow> nat" where
  "hw_sharers d = (if dir_type d = FULL_MAP then dir_max_num_sharers d else dir_use_max_hw_sharers d)"

lemma create_entry:
  "createDirectoryEntry (dc_directory dc) =
    (fresh_entry dc, (dc_directory dc)\<lparr>dir_use_max_hw_sharers := hw_sharers (dc_directory dc)\<rparr>)"
  by (cases "dir_type (dc_directory dc)")
     (simp_all add: createDirectoryEntry_def fresh_entry_def fresh_class_def hw_sharers_def Let_def)

definition slot_entry :: "dir_cache \<Rightarrow> nat \<Rightarrow> dir_entry" where
  "slot_entry dc k = (case dc_entry (Slot k) dc of Some e \<Rightarrow> e | None \<Rightarrow> fresh_entry dc)"

definition dc_size :: "dir_cache \<Rightarrow> nat" where
  "dc_size dc = length (dir_entries (dc_directory dc))"

definition dc_geometry :: "dir_cache \<Rightarrow> u32 \<times> nat \<times> nat \<times> nat \<times> nat \<times> dir_entry" where
  "dc_geometry dc = (dc_num_sets dc, dc_associativity dc, dc_log_block dc, dc_size dc,
     dir_num_entries (dc_directory dc), fresh_entry dc)"

definition dc_same :: "dir_cache \<Rightarrow> dir_cache \<Rightarrow> bool" where
  "dc_same dc dc' \<longleftrightarrow> dc_geometry dc' = dc_geometry dc \<and> slot_entry dc' = slot_entry dc \<and> dc_replaced dc' = dc_replaced dc"

lemma dc_same_refl [simp]: "dc_same dc dc"
  by (simp add: dc_same_def)

lemma dc_same_trans [trans]: "dc_same a b \<Longrightarrow> dc_same b c \<Longrightarrow> dc_same a c"
  by (simp add: dc_same_def)

lemma dc_slots_geometry: "dc_geometry dc' = dc_geometry dc \<Longrightarrow> dc_slots a dc' = dc_slots a dc"
  by (simp add: dc_geometry_def dc_slots_def dc_set_index_def)

lemma fresh_entry_fields [simp]: "de_address (fresh_entry dc) = INVALID_ADDRESS" "de_state (fresh_entry dc) = D_UNCACHED"
  "getNumSharers (fresh_entry dc) = 0"
  by (simp_all add: fresh_entry_def DirectoryEntry_def getNumSharers_def Let_def)

text \<open>Visiting a slot.\<close>

lemma visit_slot:
  assumes "k < dc_size dc" and "dc_size dc = dir_num_entries (dc_directory dc)"
  shows "\<exists>d. dir_getEntry k (dc_directory dc) = Inr (slot_entry dc k, d) \<and> dc_same dc (dc\<lparr>dc_directory := d\<rparr>) \<and>
    dc_entry (Slot k) (dc\<lparr>dc_directory := d\<rparr>) = Some (slot_entry dc k) \<and>
    (\<forall>p e. dc_entry p dc = Some e \<longrightarrow> dc_entry p (dc\<lparr>dc_directory := d\<rparr>) = Some e)"
proof (cases "dir_entries (dc_directory dc) ! k")
  case (Some e)
  with assms show ?thesis by (simp add: dir_getEntry_def slot_entry_def dc_size_def)
next
  case None
  let ?d = "dc_directory dc"
  define d where "d = ?d\<lparr>dir_use_max_hw_sharers := hw_sharers ?d, dir_entries := (dir_entries ?d)[k := Some (fresh_entry dc)],
    dir_allocated := dir_allocated ?d + 1\<rparr>"
  have k: "k < length (dir_entries ?d)" "k < dir_num_entries ?d" using assms by (simp_all add: dc_size_def)
  have e: "slot_entry dc k = fresh_entry dc" using None k by (simp add: slot_entry_def)
  have get: "dir_getEntry k ?d = Inr (fresh_entry dc, d)"
    using k None create_entry [of dc] by (simp add: dir_getEntry_def d_def)
  have fr: "fresh_entry (dc\<lparr>dc_directory := d\<rparr>) = fresh_entry dc"
    by (simp add: fresh_entry_def fresh_class_def d_def Let_def)
  have ent: "dc_entry p (dc\<lparr>dc_directory := d\<rparr>) = (if p = Slot k then Some (fresh_entry dc) else dc_entry p dc)" for p
    using k by (cases p) (simp_all add: d_def nth_list_update)
  have "slot_entry (dc\<lparr>dc_directory := d\<rparr>) j = slot_entry dc j" for j
    using e by (cases "j = k") (simp_all add: slot_entry_def ent fr del: dc_entry.simps split: option.split)
  then have "dc_same dc (dc\<lparr>dc_directory := d\<rparr>)"
    by (simp add: dc_same_def fun_eq_iff dc_geometry_def fr) (simp add: d_def dc_size_def)
  moreover have "dc_entry (Slot k) dc = None" using None by simp
  ultimately show ?thesis using get e ent by (auto simp del: dc_entry.simps)
qed

text \<open>The entries created on the way do not change what is there.\<close>

definition dc_grows :: "dir_cache \<Rightarrow> dir_cache \<Rightarrow> bool" where
  "dc_grows dc dc' \<longleftrightarrow> dc_same dc dc' \<and> (\<forall>p e. dc_entry p dc = Some e \<longrightarrow> dc_entry p dc' = Some e)"

lemma dc_grows_refl [simp]: "dc_grows dc dc"
  by (simp add: dc_grows_def)

lemma dc_grows_trans: "dc_grows a b \<Longrightarrow> dc_grows b c \<Longrightarrow> dc_grows a c"
  by (auto simp: dc_grows_def intro: dc_same_trans)

lemma dc_scan_spec:
  assumes "\<forall>k \<in> set ks. k < dc_size dc" and "dc_size dc = dir_num_entries (dc_directory dc)"
  shows "\<exists>dc'. dc_scan P ks dc = Inr (List.find (\<lambda>k. P (slot_entry dc k)) ks, dc') \<and> dc_grows dc dc' \<and>
    (\<forall>k. List.find (\<lambda>k. P (slot_entry dc k)) ks = Some k \<longrightarrow> dc_entry (Slot k) dc' = Some (slot_entry dc k))"
  using assms
proof (induction ks arbitrary: dc)
  case (Cons k ks)
  from visit_slot [of k dc] Cons.prems obtain d where d: "dir_getEntry k (dc_directory dc) = Inr (slot_entry dc k, d)"
    "dc_grows dc (dc\<lparr>dc_directory := d\<rparr>)" "dc_entry (Slot k) (dc\<lparr>dc_directory := d\<rparr>) = Some (slot_entry dc k)"
    by (auto simp: dc_grows_def simp del: dc_entry.simps)
  let ?dc = "dc\<lparr>dc_directory := d\<rparr>"
  show ?case
  proof (cases "P (slot_entry dc k)")
    case True
    with d show ?thesis by (simp del: dc_entry.simps)
  next
    case False
    from d(2) have same: "slot_entry ?dc = slot_entry dc" "dc_size ?dc = dc_size dc"
      "dir_num_entries (dc_directory ?dc) = dir_num_entries (dc_directory dc)"
      by (simp_all add: dc_grows_def dc_same_def dc_geometry_def)
    then have "\<forall>j \<in> set ks. j < dc_size ?dc" "dc_size ?dc = dir_num_entries (dc_directory ?dc)" using Cons.prems by simp_all
    from Cons.IH [OF this] obtain dc' where i:
      "dc_scan P ks ?dc = Inr (List.find (\<lambda>k. P (slot_entry dc k)) ks, dc')" "dc_grows ?dc dc'"
      "\<forall>k. List.find (\<lambda>k. P (slot_entry dc k)) ks = Some k \<longrightarrow> dc_entry (Slot k) dc' = Some (slot_entry dc k)"
      unfolding same(1) by blast
    have "dc_scan P (k # ks) dc = Inr (List.find (\<lambda>k. P (slot_entry dc k)) (k # ks), dc')"
      using False d(1) i(1) by simp
    with False i(3) dc_grows_trans [OF d(2) i(2)] show ?thesis by (simp del: dc_scan.simps)
  qed
qed simp

lemma dc_touch_spec:
  assumes "\<forall>k \<in> set ks. k < dc_size dc" and "dc_size dc = dir_num_entries (dc_directory dc)"
  shows "\<exists>dc'. dc_touch ks dc = Inr dc' \<and> dc_grows dc dc' \<and> (\<forall>k \<in> set ks. dc_entry (Slot k) dc' = Some (slot_entry dc k))"
  using assms
proof (induction ks arbitrary: dc)
  case (Cons k ks)
  from visit_slot [of k dc] Cons.prems obtain d where d: "dir_getEntry k (dc_directory dc) = Inr (slot_entry dc k, d)"
    "dc_grows dc (dc\<lparr>dc_directory := d\<rparr>)" "dc_entry (Slot k) (dc\<lparr>dc_directory := d\<rparr>) = Some (slot_entry dc k)"
    by (auto simp: dc_grows_def simp del: dc_entry.simps)
  let ?dc = "dc\<lparr>dc_directory := d\<rparr>"
  from d(2) have same: "slot_entry ?dc = slot_entry dc" "dc_size ?dc = dc_size dc"
    "dir_num_entries (dc_directory ?dc) = dir_num_entries (dc_directory dc)"
    by (simp_all add: dc_grows_def dc_same_def dc_geometry_def)
  then have "\<forall>j \<in> set ks. j < dc_size ?dc" "dc_size ?dc = dir_num_entries (dc_directory ?dc)" using Cons.prems by simp_all
  from Cons.IH [OF this] obtain dc' where i: "dc_touch ks ?dc = Inr dc'" "dc_grows ?dc dc'"
    "\<forall>k \<in> set ks. dc_entry (Slot k) dc' = Some (slot_entry dc k)" unfolding same(1) by blast
  with d dc_grows_trans [OF d(2) i(2)] show ?case
    by (simp add: dc_grows_def del: dc_entry.simps)
qed simp

subsection \<open>The map\<close>

definition dc_wf :: "dir_cache \<Rightarrow> bool" where
  "dc_wf dc \<longleftrightarrow> dc_num_sets dc \<noteq> 0 \<and> unat (dc_num_sets dc) * dc_associativity dc \<le> dc_size dc \<and>
     dc_size dc = dir_num_entries (dc_directory dc) \<and>
     (\<forall>k<dc_size dc. de_address (slot_entry dc k) \<noteq> INVALID_ADDRESS \<longrightarrow> k \<in> set (dc_slots (de_address (slot_entry dc k)) dc)) \<and>
     (\<forall>j<dc_size dc. \<forall>k<dc_size dc. de_address (slot_entry dc j) = de_address (slot_entry dc k) \<longrightarrow>
        de_address (slot_entry dc k) \<noteq> INVALID_ADDRESS \<longrightarrow> j = k) \<and>
     distinct (map de_address (dc_replaced dc)) \<and>
     (\<forall>k<dc_size dc. de_address (slot_entry dc k) = INVALID_ADDRESS \<longrightarrow> slot_entry dc k = fresh_entry dc) \<and>
     (\<forall>a \<in> set (map de_address (dc_replaced dc)). a \<noteq> INVALID_ADDRESS \<and>
        (\<forall>k \<in> set (dc_slots a dc). de_address (slot_entry dc k) \<noteq> INVALID_ADDRESS \<and> de_address (slot_entry dc k) \<noteq> a))"

definition dc_look :: "dir_cache \<Rightarrow> addr \<Rightarrow> dir_entry option" where
  "dc_look dc a = (if a = INVALID_ADDRESS then None else
     case List.find (\<lambda>k. de_address (slot_entry dc k) = a) (dc_slots a dc) of
       Some k \<Rightarrow> Some (slot_entry dc k)
     | None \<Rightarrow> List.find (\<lambda>e. de_address e = a) (dc_replaced dc))"

lemma dc_sameD:
  assumes "dc_same dc dc'"
  shows "slot_entry dc' = slot_entry dc" and "dc_replaced dc' = dc_replaced dc" and "dc_num_sets dc' = dc_num_sets dc"
    and "dc_associativity dc' = dc_associativity dc" and "dc_size dc' = dc_size dc"
    and "dir_num_entries (dc_directory dc') = dir_num_entries (dc_directory dc)" and "fresh_entry dc' = fresh_entry dc"
    and "dc_slots a dc' = dc_slots a dc"
proof -
  have g: "dc_geometry dc' = dc_geometry dc" using assms by (simp add: dc_same_def)
  then show "dc_num_sets dc' = dc_num_sets dc" "dc_associativity dc' = dc_associativity dc" "dc_size dc' = dc_size dc"
    "dir_num_entries (dc_directory dc') = dir_num_entries (dc_directory dc)" "fresh_entry dc' = fresh_entry dc"
    by (simp_all add: dc_geometry_def)
  show "dc_slots a dc' = dc_slots a dc" by (rule dc_slots_geometry [OF g])
  show "slot_entry dc' = slot_entry dc" "dc_replaced dc' = dc_replaced dc" using assms by (simp_all add: dc_same_def)
qed

lemma dc_same_wf:
  assumes "dc_same dc dc'" and "dc_wf dc"
  shows "dc_wf dc'"
  using assms(2) unfolding dc_wf_def dc_sameD [OF assms(1)] .

lemma dc_same_look:
  assumes "dc_same dc dc'"
  shows "dc_look dc' = dc_look dc"
  unfolding dc_look_def [abs_def] dc_sameD [OF assms] ..

lemma dc_set_index_less: "dc_num_sets dc \<noteq> 0 \<Longrightarrow> dc_set_index a dc < unat (dc_num_sets dc)"
proof -
  assume n: "dc_num_sets dc \<noteq> 0"
  have "(ucast (drop_bit (dc_log_block dc) a) :: u32) AND (dc_num_sets dc - 1) \<le> dc_num_sets dc - 1" by (rule word_and_le1)
  then have "dc_set_index a dc \<le> unat (dc_num_sets dc - 1)" by (simp add: dc_set_index_def word_le_nat_alt)
  moreover have "unat (dc_num_sets dc - 1) < unat (dc_num_sets dc)" using n by (simp add: unat_minus_one unat_gt_0)
  ultimately show ?thesis by simp
qed

lemma dc_slots_less:
  assumes "dc_wf dc" and "k \<in> set (dc_slots a dc)"
  shows "k < dc_size dc"
proof -
  from assms(2) obtain i where i: "i < dc_associativity dc" "k = dc_set_index a dc * dc_associativity dc + i"
    unfolding dc_slots_def set_map by (elim imageE) auto
  have "dc_set_index a dc + 1 \<le> unat (dc_num_sets dc)"
    using dc_set_index_less [of dc a] assms(1) by (simp add: dc_wf_def)
  then have "(dc_set_index a dc + 1) * dc_associativity dc \<le> unat (dc_num_sets dc) * dc_associativity dc"
    by (rule mult_right_mono) simp
  with i assms(1) show ?thesis by (simp add: dc_wf_def)
qed

lemma find_SomeD: "List.find P xs = Some x \<Longrightarrow> x \<in> set xs \<and> P x"
  by (induction xs) (auto split: if_splits)

lemma dc_look_address: "dc_look dc a = Some e \<Longrightarrow> de_address e = a"
  by (auto simp: dc_look_def dest: find_SomeD split: option.splits if_splits)

lemma dc_wf_slots:
  assumes "dc_wf dc"
  shows "\<forall>k \<in> set (dc_slots a dc). k < dc_size dc" and "dc_size dc = dir_num_entries (dc_directory dc)"
  using dc_slots_less [OF assms] assms by (auto simp: dc_wf_def)

text \<open>Where the entry of an address is.\<close>

lemma dc_look_slot:
  assumes "dc_wf dc" and "k < dc_size dc" and "de_address (slot_entry dc k) = a" and "a \<noteq> INVALID_ADDRESS"
  shows "dc_look dc a = Some (slot_entry dc k)" and "k \<in> set (dc_slots a dc)"
proof -
  show k: "k \<in> set (dc_slots a dc)" using assms by (auto simp: dc_wf_def)
  then have "List.find (\<lambda>k. de_address (slot_entry dc k) = a) (dc_slots a dc) \<noteq> None"
    using assms(3) by (auto simp: find_None_iff)
  then obtain j where j: "List.find (\<lambda>k. de_address (slot_entry dc k) = a) (dc_slots a dc) = Some j" by blast
  from find_SomeD [OF this] dc_slots_less [OF assms(1)] have "j < dc_size dc" "de_address (slot_entry dc j) = a" by auto
  then have "j = k" using assms unfolding dc_wf_def by metis
  with j assms(4) show "dc_look dc a = Some (slot_entry dc k)" by (simp add: dc_look_def)
qed

lemma dc_look_replaced:
  assumes "dc_wf dc" and "r \<in> set (dc_replaced dc)"
  shows "dc_look dc (de_address r) = Some r"
proof -
  have "List.find (\<lambda>k. de_address (slot_entry dc k) = de_address r) (dc_slots (de_address r) dc) = None"
    using assms by (auto simp: find_None_iff dc_wf_def)
  moreover have "List.find (\<lambda>e. de_address e = de_address r) (dc_replaced dc) = Some r"
  proof (cases "List.find (\<lambda>e. de_address e = de_address r) (dc_replaced dc)")
    case None
    with assms(2) show ?thesis by (auto simp: find_None_iff)
  next
    case (Some x)
    with find_SomeD [OF this] assms show ?thesis by (auto simp: dc_wf_def distinct_map dest: inj_onD)
  qed
  moreover have "de_address r \<noteq> INVALID_ADDRESS" using assms by (auto simp: dc_wf_def)
  ultimately show ?thesis by (simp add: dc_look_def)
qed

lemma dc_entry_slot: "dc_entry (Slot k) dc = Some e \<Longrightarrow> k < dc_size dc \<and> slot_entry dc k = e"
  by (auto simp: slot_entry_def dc_size_def split: if_splits)

lemma dc_entry_look:
  assumes "dc_wf dc" and "dc_entry p dc = Some e" and "de_address e \<noteq> INVALID_ADDRESS"
  shows "dc_look dc (de_address e) = Some e"
proof (cases p)
  case (Slot k)
  with assms dc_look_slot(1) [OF assms(1), of k] dc_entry_slot [of k dc e] show ?thesis by (simp del: dc_entry.simps)
next
  case (Replaced k)
  with assms(2) have "e \<in> set (dc_replaced dc)" by (auto split: if_splits)
  with dc_look_replaced [OF assms(1)] show ?thesis by blast
qed

lemma dc_look_entry:
  assumes "dc_wf dc" and "dc_look dc a = Some e"
  shows "a \<noteq> INVALID_ADDRESS \<and> de_address e = a \<and> (\<exists>p. dc_entry p dc = Some e)"
proof -
  have a: "a \<noteq> INVALID_ADDRESS" using assms(2) by (auto simp: dc_look_def)
  have "\<exists>p. dc_entry p dc = Some e"
  proof (cases "List.find (\<lambda>k. de_address (slot_entry dc k) = a) (dc_slots a dc)")
    case (Some k)
    with find_SomeD [OF this] a assms(2) have "slot_entry dc k = e" "de_address (slot_entry dc k) \<noteq> INVALID_ADDRESS"
      by (auto simp: dc_look_def)
    then have "dc_entry (Slot k) dc = Some e" by (auto simp: slot_entry_def simp del: dc_entry.simps split: option.splits)
    then show ?thesis by blast
  next
    case None
    with assms(2) a have "e \<in> set (dc_replaced dc)" by (auto simp: dc_look_def dest: find_SomeD)
    then obtain k where "k < length (dc_replaced dc)" "dc_replaced dc ! k = e" by (auto simp: in_set_conv_nth)
    then have "dc_entry (Replaced k) dc = Some e" by simp
    then show ?thesis by blast
  qed
  with a dc_look_address [OF assms(2)] show ?thesis by blast
qed

lemma dc_look_iff:
  "dc_wf dc \<Longrightarrow> dc_look dc a = Some e \<longleftrightarrow> a \<noteq> INVALID_ADDRESS \<and> de_address e = a \<and> (\<exists>p. dc_entry p dc = Some e)"
  using dc_entry_look dc_look_entry by metis

lemma dc_ptr_unique:
  assumes wf: "dc_wf dc" and "dc_entry p dc = Some e" and "dc_entry q dc = Some f" and "de_address e = de_address f"
    and "de_address f \<noteq> INVALID_ADDRESS"
  shows "p = q"
proof -
  have apart: False if "dc_entry (Slot j) dc = Some g" "dc_entry (Replaced k) dc = Some h" "de_address g = de_address h"
    "de_address h \<noteq> INVALID_ADDRESS" for j k g h
  proof -
    from dc_entry_slot [OF that(1)] have j: "j < dc_size dc" "slot_entry dc j = g" by auto
    with dc_look_slot(2) [OF wf j(1), of "de_address h"] that have "j \<in> set (dc_slots (de_address h) dc)" by simp
    moreover have "h \<in> set (dc_replaced dc)" using that(2) by (auto split: if_splits)
    ultimately show False using wf j that(3) by (auto simp: dc_wf_def)
  qed
  show ?thesis
  proof (cases p; cases q)
    fix j k assume "p = Slot j" "q = Slot k"
    with assms dc_entry_slot [of j dc e] dc_entry_slot [of k dc f] show ?thesis
      unfolding dc_wf_def by (metis)
  next
    fix j k assume "p = Replaced j" "q = Replaced k"
    with assms show ?thesis
      by (auto simp: dc_wf_def distinct_map nth_eq_iff_index_eq dest: inj_onD split: if_splits)
  qed (use assms apart in metis)+
qed

lemma option_eqI: "(\<And>x. m = Some x \<longleftrightarrow> m' = Some x) \<Longrightarrow> m = m'"
  by (cases m; cases m') auto

subsection \<open>Storing through a pointer\<close>

lemma dc_entry_store:
  assumes "dc_entry p dc = Some e0"
  shows "dc_entry q (dc_store p e dc) = (if q = p then Some e else dc_entry q dc)"
  using assms by (cases p; cases q) (auto simp: dir_setEntry_def nth_list_update split: if_splits)

lemma dc_store_fields [simp]: "dc_num_sets (dc_store p e dc) = dc_num_sets dc"
  "dc_associativity (dc_store p e dc) = dc_associativity dc" "dc_log_block (dc_store p e dc) = dc_log_block dc"
  "dc_size (dc_store p e dc) = dc_size dc" "dc_access_time (dc_store p e dc) = dc_access_time dc"
  "dir_num_entries (dc_directory (dc_store p e dc)) = dir_num_entries (dc_directory dc)"
  "fresh_entry (dc_store p e dc) = fresh_entry dc" "dc_getMaxHwSharers (dc_store p e dc) = dc_getMaxHwSharers dc"
  by (cases p; simp add: dir_setEntry_def dc_size_def fresh_entry_def fresh_class_def dc_getMaxHwSharers_def Let_def)+

declare dc_entry.simps [simp del] dc_store.simps [simp del]

lemma dc_slots_store [simp]: "dc_slots a (dc_store p e dc) = dc_slots a dc"
  by (simp add: dc_slots_def dc_set_index_def)

lemma dc_replaced_store_slot [simp]: "dc_replaced (dc_store (Slot k) e dc) = dc_replaced dc"
  by (simp add: dc_store.simps)

lemma slot_entry_store:
  assumes "dc_entry p dc = Some e0"
  shows "slot_entry (dc_store p e dc) k = (if p = Slot k then e else slot_entry dc k)"
  using dc_entry_store [OF assms, of "Slot k" e]
  by (auto simp: slot_entry_def split: option.split)

text \<open>The invariant only depends on the addresses.\<close>

lemma dc_wf_addresses:
  assumes wf: "dc_wf dc" and geo: "dc_num_sets dc' = dc_num_sets dc" "dc_associativity dc' = dc_associativity dc"
      "dc_size dc' = dc_size dc" "dir_num_entries (dc_directory dc') = dir_num_entries (dc_directory dc)"
      "fresh_entry dc' = fresh_entry dc" "\<And>a. dc_slots a dc' = dc_slots a dc"
    and slots: "\<And>k. de_address (slot_entry dc' k) = de_address (slot_entry dc k)"
    and fresh: "\<And>k. de_address (slot_entry dc k) = INVALID_ADDRESS \<Longrightarrow> slot_entry dc' k = slot_entry dc k"
    and repl: "map de_address (dc_replaced dc') = map de_address (dc_replaced dc)"
  shows "dc_wf dc'"
  using wf unfolding dc_wf_def geo repl slots by (auto simp: fresh)

lemma ex_entry_update:
  "f p = Some e \<Longrightarrow> x \<noteq> e \<Longrightarrow> x \<noteq> e' \<Longrightarrow> (\<exists>q. (if q = p then Some e' else f q) = Some x) \<longleftrightarrow> (\<exists>q. f q = Some x)"
  by (metis option.inject)

lemma dc_store_spec:
  assumes wf: "dc_wf dc" and e: "dc_entry p dc = Some e" and a: "de_address e \<noteq> INVALID_ADDRESS" "de_address e' = de_address e"
  shows "dc_wf (dc_store p e' dc)" and "dc_look (dc_store p e' dc) = (dc_look dc)(de_address e := Some e')"
proof -
  let ?dc = "dc_store p e' dc"
  note se = slot_entry_store [OF e, of e']
  show wf': "dc_wf ?dc"
  proof (rule dc_wf_addresses [OF wf])
    show "de_address (slot_entry ?dc k) = de_address (slot_entry dc k)" for k
      using a(2) dc_entry_slot [of k dc e] e by (auto simp: se)
    show "slot_entry ?dc k = slot_entry dc k" if "de_address (slot_entry dc k) = INVALID_ADDRESS" for k
      using a(1) that dc_entry_slot [of k dc e] e by (auto simp: se)
    show "map de_address (dc_replaced ?dc) = map de_address (dc_replaced dc)"
    proof (cases p)
      case (Replaced k)
      with e have "k < length (dc_replaced dc)" "dc_replaced dc ! k = e" by (auto simp: dc_entry.simps split: if_splits)
      with Replaced a(2) show ?thesis
        by (intro nth_equalityI) (auto simp: dc_store.simps nth_list_update)
    qed simp
  qed simp_all
  show "dc_look ?dc = (dc_look dc)(de_address e := Some e')"
  proof (rule ext, rule option_eqI)
    fix b x
    have "dc_look ?dc b = Some x \<longleftrightarrow> b \<noteq> INVALID_ADDRESS \<and> de_address x = b \<and> (\<exists>q. (if q = p then Some e' else dc_entry q dc) = Some x)"
      by (simp add: dc_look_iff [OF wf'] dc_entry_store [OF e])
    also have "\<dots> \<longleftrightarrow> ((dc_look dc)(de_address e := Some e')) b = Some x"
    proof (cases "b = de_address e")
      case True
      have "q = p" if "dc_entry q dc = Some x" "de_address x = b" for q
        using dc_ptr_unique [OF wf that(1) e] that True a by simp
      with True a show ?thesis by (auto split: if_splits)
    next
      case False
      have "(\<exists>q. (if q = p then Some e' else dc_entry q dc) = Some x) \<longleftrightarrow> (\<exists>q. dc_entry q dc = Some x)" if "de_address x = b"
        using that False a by (intro ex_entry_update [of "\<lambda>q. dc_entry q dc", OF e]) auto
      then show ?thesis using False by (simp add: dc_look_iff [OF wf] cong: conj_cong)
    qed
    finally show "dc_look ?dc b = Some x \<longleftrightarrow> ((dc_look dc)(de_address e := Some e')) b = Some x" .
  qed
qed

text \<open>Taking a free slot.\<close>

lemma dc_alloc_spec:
  assumes wf: "dc_wf dc" and e: "dc_entry (Slot k) dc = Some e" "de_address e = INVALID_ADDRESS" and k: "k \<in> set (dc_slots a dc)"
    and a: "a \<noteq> INVALID_ADDRESS" "dc_look dc a = None" and nr: "a \<notin> set (map de_address (dc_replaced dc))"
    and free: "\<And>b. b \<in> set (map de_address (dc_replaced dc)) \<Longrightarrow> k \<notin> set (dc_slots b dc)"
  shows "dc_wf (dc_store (Slot k) (e\<lparr>de_address := a\<rparr>) dc)"
    and "dc_look (dc_store (Slot k) (e\<lparr>de_address := a\<rparr>) dc) = (dc_look dc)(a := Some (e\<lparr>de_address := a\<rparr>))"
proof -
  let ?e = "e\<lparr>de_address := a\<rparr>"
  let ?dc = "dc_store (Slot k) ?e dc"
  note se = slot_entry_store [OF e(1), of ?e]
  have kk: "slot_entry dc k = e" "k < dc_size dc" using dc_entry_slot [OF e(1)] by auto
  have na: "de_address (slot_entry dc j) \<noteq> a" if "j < dc_size dc" for j
    using dc_look_slot(1) [OF wf that] a by auto
  have repl: "dc_replaced ?dc = dc_replaced dc" by simp
  show wf': "dc_wf ?dc"
    unfolding dc_wf_def dc_slots_store dc_store_fields repl
  proof (intro conjI)
    show "\<forall>j<dc_size dc. de_address (slot_entry ?dc j) \<noteq> INVALID_ADDRESS \<longrightarrow> j \<in> set (dc_slots (de_address (slot_entry ?dc j)) dc)"
      using wf k by (auto simp: se dc_wf_def)
    show "\<forall>j<dc_size dc. \<forall>i<dc_size dc. de_address (slot_entry ?dc j) = de_address (slot_entry ?dc i) \<longrightarrow>
        de_address (slot_entry ?dc i) \<noteq> INVALID_ADDRESS \<longrightarrow> j = i"
      using wf na by (auto simp: se dc_wf_def)
    show "\<forall>j<dc_size dc. de_address (slot_entry ?dc j) = INVALID_ADDRESS \<longrightarrow> slot_entry ?dc j = fresh_entry dc"
      using wf a(1) by (auto simp: se dc_wf_def)
    show "\<forall>b \<in> set (map de_address (dc_replaced dc)). b \<noteq> INVALID_ADDRESS \<and> (\<forall>j \<in> set (dc_slots b dc).
        de_address (slot_entry ?dc j) \<noteq> INVALID_ADDRESS \<and> de_address (slot_entry ?dc j) \<noteq> b)"
      using wf nr free by (auto simp: se dc_wf_def)
  qed (use wf in \<open>simp_all add: dc_wf_def\<close>)
  show "dc_look ?dc = (dc_look dc)(a := Some ?e)"
  proof (rule ext, rule option_eqI)
    fix b x
    have look: "dc_look ?dc b = Some x \<longleftrightarrow> b \<noteq> INVALID_ADDRESS \<and> de_address x = b \<and> (\<exists>q. (if q = Slot k then Some ?e else dc_entry q dc) = Some x)"
      by (simp add: dc_look_iff [OF wf'] dc_entry_store [OF e(1)])
    show "dc_look ?dc b = Some x \<longleftrightarrow> ((dc_look dc)(a := Some ?e)) b = Some x"
    proof (cases "b = a")
      case True
      have "dc_entry q dc \<noteq> Some x" if "de_address x = a" for q using a that dc_entry_look [OF wf, of q x] by auto
      with True a look show ?thesis by (auto split: if_splits)
    next
      case False
      have "(\<exists>q. (if q = Slot k then Some ?e else dc_entry q dc) = Some x) \<longleftrightarrow> (\<exists>q. dc_entry q dc = Some x)"
        if "b \<noteq> INVALID_ADDRESS" "de_address x = b"
        using that False e(2) by (intro ex_entry_update [of "\<lambda>q. dc_entry q dc", OF e(1)]) auto
      then show ?thesis using False unfolding look by (simp add: dc_look_iff [OF wf] cong: conj_cong)
    qed
  qed
qed

subsection \<open>Lookup\<close>

lemma dc_grows_entry: "dc_grows dc dc' \<Longrightarrow> dc_entry p dc = Some e \<Longrightarrow> dc_entry p dc' = Some e"
  by (simp add: dc_grows_def)

lemma dc_grows_wf: "dc_grows dc dc' \<Longrightarrow> dc_wf dc \<Longrightarrow> dc_wf dc' \<and> dc_look dc' = dc_look dc"
  using dc_same_wf dc_same_look by (auto simp: dc_grows_def)

definition fresh_at :: "dir_cache \<Rightarrow> addr \<Rightarrow> dir_entry" where
  "fresh_at dc a = (fresh_entry dc)\<lparr>de_address := a\<rparr>"

text \<open>What a lookup leaves: the entry of the address, fresh if it had none, or nothing when the set is
  full of other lines; used entries stay where they are.\<close>

definition dc_found :: "addr \<Rightarrow> dir_cache \<Rightarrow> dir_ptr option \<Rightarrow> dir_cache \<Rightarrow> bool" where
  "dc_found a dc p dc' \<longleftrightarrow> dc_wf dc' \<and> fresh_entry dc' = fresh_entry dc \<and> dc_replaced dc' = dc_replaced dc \<and>
     (\<forall>b. dc_slots b dc' = dc_slots b dc) \<and>
     (\<forall>q f. dc_entry q dc = Some f \<longrightarrow> de_address f \<noteq> INVALID_ADDRESS \<longrightarrow> dc_entry q dc' = Some f) \<and>
     (case p of
        Some q \<Rightarrow> (\<exists>e. dc_entry q dc' = Some e \<and> de_address e = a \<and>
          e = (case dc_look dc a of Some e \<Rightarrow> e | None \<Rightarrow> fresh_at dc a) \<and> dc_look dc' = (dc_look dc)(a := Some e)) \<and>
          (dc_look dc a = None \<longrightarrow> (\<exists>k \<in> set (dc_slots a dc). de_address (slot_entry dc k) = INVALID_ADDRESS))
      | None \<Rightarrow> dc_look dc a = None \<and> dc_grows dc dc' \<and> dc_look dc' = dc_look dc \<and>
          (\<forall>k \<in> set (dc_slots a dc). de_address (slot_entry dc' k) \<noteq> INVALID_ADDRESS))"

lemma find_first_find:
  "find_first P xs = Some i \<Longrightarrow> List.find P xs = Some (xs ! i)" "find_first P xs = None \<Longrightarrow> List.find P xs = None"
  by (induction xs arbitrary: i) (auto split: if_splits)

lemma dc_getEntry_spec:
  assumes wf: "dc_wf dc" and a: "a \<noteq> INVALID_ADDRESS"
  shows "\<exists>p l dc'. dc_getEntry a dc = Inr ((p, l), dc') \<and> dc_found a dc p dc'"
proof -
  from dc_scan_spec [OF dc_wf_slots [OF wf], of "\<lambda>e. de_address e = a" a] obtain dc1 where
    s1: "dc_scan (\<lambda>e. de_address e = a) (dc_slots a dc) dc =
        Inr (List.find (\<lambda>k. de_address (slot_entry dc k) = a) (dc_slots a dc), dc1)" "dc_grows dc dc1"
      "\<And>k. List.find (\<lambda>k. de_address (slot_entry dc k) = a) (dc_slots a dc) = Some k \<Longrightarrow> dc_entry (Slot k) dc1 = Some (slot_entry dc k)"
    by blast
  note same1 = dc_sameD [of dc dc1] and wf1 = dc_grows_wf [OF s1(2) wf]
  have g1: "dc_same dc dc1" using s1(2) by (simp add: dc_grows_def)
  show ?thesis
  proof (cases "List.find (\<lambda>k. de_address (slot_entry dc k) = a) (dc_slots a dc)")
    case (Some k)
    then have "dc_look dc a = Some (slot_entry dc k)" "de_address (slot_entry dc k) = a"
      using a by (auto simp: dc_look_def dest: find_SomeD)
    with Some s1 wf1 a have "dc_found a dc (Some (Slot k)) dc1"
      by (simp add: dc_found_def same1 [OF g1] fun_upd_idem dc_grows_entry)
    with Some s1(1) show ?thesis by (auto simp: dc_getEntry_def)
  next
    case none: None
    from dc_scan_spec [OF dc_wf_slots [OF conjunct1 [OF wf1]], of "\<lambda>e. de_address e = INVALID_ADDRESS" a] obtain dc2 where
      s2: "dc_scan (\<lambda>e. de_address e = INVALID_ADDRESS) (dc_slots a dc1) dc1 =
          Inr (List.find (\<lambda>k. de_address (slot_entry dc1 k) = INVALID_ADDRESS) (dc_slots a dc1), dc2)" "dc_grows dc1 dc2"
        "\<And>k. List.find (\<lambda>k. de_address (slot_entry dc1 k) = INVALID_ADDRESS) (dc_slots a dc1) = Some k \<Longrightarrow>
           dc_entry (Slot k) dc2 = Some (slot_entry dc1 k)"
      by blast
    have g: "dc_grows dc dc2" using s1(2) s2(2) by (rule dc_grows_trans)
    note wf2 = dc_grows_wf [OF g wf]
    have same: "dc_same dc dc2" using g by (simp add: dc_grows_def)
    note v1 = dc_sameD [OF g1] and v = dc_sameD [OF same]
    show ?thesis
    proof (cases "List.find (\<lambda>k. de_address (slot_entry dc k) = INVALID_ADDRESS) (dc_slots a dc)")
      case None
      let ?p = "map_option Replaced (find_first (\<lambda>e. de_address e = a) (dc_replaced dc))"
      have get: "dc_getEntry a dc = Inr ((?p, 0), dc2)"
        unfolding dc_getEntry_def using s1(1) s2(1) none None by (simp add: v1 v)
      have full: "\<forall>k \<in> set (dc_slots a dc). de_address (slot_entry dc2 k) \<noteq> INVALID_ADDRESS"
        using None by (auto simp: find_None_iff v)
      have look: "dc_look dc a = List.find (\<lambda>e. de_address e = a) (dc_replaced dc)" using none a by (simp add: dc_look_def)
      have "dc_found a dc ?p dc2"
      proof (cases "find_first (\<lambda>e. de_address e = a) (dc_replaced dc)")
        case None
        with look find_first_find(2) [OF None] full wf2 g show ?thesis by (simp add: dc_found_def v dc_grows_entry)
      next
        case (Some i)
        from find_first_SomeD [OF Some] find_first_find(1) [OF Some] look
        have i: "i < length (dc_replaced dc)" "de_address (dc_replaced dc ! i) = a" "dc_look dc a = Some (dc_replaced dc ! i)" by auto
        then have "dc_entry (Replaced i) dc2 = Some (dc_replaced dc ! i)" by (simp add: dc_entry.simps v)
        with Some i wf2 g show ?thesis by (simp add: dc_found_def v fun_upd_idem dc_grows_entry)
      qed
      with get show ?thesis by blast
    next
      case (Some k)
      let ?e = "slot_entry dc k"
      from find_SomeD [OF Some] have k: "k \<in> set (dc_slots a dc)" "de_address ?e = INVALID_ADDRESS" by auto
      then have fr: "?e = fresh_entry dc" using wf dc_slots_less [OF wf k(1)] by (simp add: dc_wf_def)
      have e2: "dc_entry (Slot k) dc2 = Some ?e" using s2(3) Some by (simp add: v1)
      let ?dc = "dc_store (Slot k) (?e\<lparr>de_address := a\<rparr>) dc2"
      have free: "k \<notin> set (dc_slots b dc)" if "b \<in> set (map de_address (dc_replaced dc))" for b
        using wf that k(2) unfolding dc_wf_def by blast
      then have nr: "a \<notin> set (map de_address (dc_replaced dc))" using k(1) by blast
      have "List.find (\<lambda>e. de_address e = a) (dc_replaced dc) = None" using nr by (auto simp: find_None_iff)
      then have lk: "dc_look dc a = None" using none by (simp add: dc_look_def)
      note st = dc_alloc_spec [OF conjunct1 [OF wf2] e2 k(2), of a]
      have st1: "dc_wf ?dc" "dc_look ?dc = (dc_look dc2)(a := Some (?e\<lparr>de_address := a\<rparr>))"
        by (intro st; use k a lk nr free wf2 in \<open>simp add: v\<close>)+
      have get: "dc_getEntry a dc = Inr ((Some (Slot k), 0), ?dc)"
        unfolding dc_getEntry_def using s1(1) s2(1) none Some e2 by (simp add: v1)
      have "dc_entry q ?dc = Some f" if "dc_entry q dc = Some f" "de_address f \<noteq> INVALID_ADDRESS" for q f
        using that dc_grows_entry [OF g that(1)] e2 k(2) by (auto simp: dc_entry_store [OF e2])
      with st1 lk wf2 fr have "dc_found a dc (Some (Slot k)) ?dc"
        by (auto simp: dc_found_def v fresh_at_def dc_entry_store [OF e2] intro: k)
      with get show ?thesis by blast
    qed
  qed
qed

subsection \<open>Replacement and invalidation\<close>

lemma dc_slots_eq:
  assumes "k \<in> set (dc_slots a dc)" and "k \<in> set (dc_slots b dc)"
  shows "dc_slots a dc = dc_slots b dc"
proof -
  have idx: "dc_set_index c dc = k div dc_associativity dc" if k: "k \<in> set (dc_slots c dc)" for c
  proof -
    from k obtain i where i: "i < dc_associativity dc" "k = dc_set_index c dc * dc_associativity dc + i"
      unfolding dc_slots_def set_map by (elim imageE) auto
    moreover from i(1) have "dc_associativity dc \<noteq> 0" by auto
    ultimately show ?thesis by simp
  qed
  from idx [OF assms(1)] idx [OF assms(2)] show ?thesis by (simp add: dc_slots_def)
qed

lemma getReplacementCandidates_spec:
  assumes wf: "dc_wf dc" and a: "a \<noteq> INVALID_ADDRESS" "dc_look dc a = None"
    and full: "\<forall>k \<in> set (dc_slots a dc). de_address (slot_entry dc k) \<noteq> INVALID_ADDRESS"
  shows "\<exists>dc'. getReplacementCandidates a dc = Inr (map Slot (dc_slots a dc), dc') \<and> dc_grows dc dc' \<and>
    (\<forall>k \<in> set (dc_slots a dc). dc_entry (Slot k) dc' = Some (slot_entry dc k))"
proof -
  from dc_getEntry_spec [OF wf a(1)] obtain p l dc1 where g: "dc_getEntry a dc = Inr ((p, l), dc1)" "dc_found a dc p dc1" by blast
  with a full have p: "p = None" by (auto simp: dc_found_def split: option.splits)
  with g have grows: "dc_grows dc dc1" and wf1: "dc_wf dc1" by (auto simp: dc_found_def)
  then have same: "dc_same dc dc1" by (simp add: dc_grows_def)
  note v = dc_sameD [OF same]
  from dc_touch_spec [OF dc_wf_slots(1) [OF wf1, of a] dc_wf_slots(2) [OF wf1]] obtain dc2 where t: "dc_touch (dc_slots a dc) dc1 = Inr dc2"
    "dc_grows dc1 dc2" "\<forall>k \<in> set (dc_slots a dc). dc_entry (Slot k) dc2 = Some (slot_entry dc k)"
    unfolding v by blast
  have "getReplacementCandidates a dc = Inr (map Slot (dc_slots a dc), dc2)"
    unfolding getReplacementCandidates_def using g(1) p t(1) dc_sameD(8) [of dc1 dc2] t(2)
    by (simp add: v dc_grows_def)
  with t(3) dc_grows_trans [OF grows t(2)] show ?thesis by blast
qed

lemma replaceDirectoryEntry_spec:
  assumes wf: "dc_wf dc" and a: "a \<noteq> INVALID_ADDRESS" "dc_look dc a = None"
    and full: "\<forall>k \<in> set (dc_slots a dc). de_address (slot_entry dc k) \<noteq> INVALID_ADDRESS"
    and k: "k \<in> set (dc_slots a dc)" and r: "de_address (slot_entry dc k) = r"
  shows "\<exists>dc'. replaceDirectoryEntry r a dc = Inr (Slot k, dc') \<and> dc_wf dc' \<and>
    dc_look dc' = (dc_look dc)(a := Some (fresh_at dc a)) \<and> dc_entry (Slot k) dc' = Some (fresh_at dc a) \<and>
    dc_replaced dc' = dc_replaced dc @ [slot_entry dc k] \<and> fresh_entry dc' = fresh_entry dc \<and> dc_look dc r \<noteq> None"
proof -
  have rn: "r \<noteq> INVALID_ADDRESS" using full k r by blast
  have kn: "k < dc_size dc" by (rule dc_slots_less [OF wf k])
  note lr = dc_look_slot [OF wf kn r rn]
  have ar: "a \<noteq> r" using a(2) lr(1) by auto
  have slots: "dc_slots r dc = dc_slots a dc" by (rule dc_slots_eq [OF lr(2) k])
  have fnd: "List.find (\<lambda>k. de_address (slot_entry dc k) = r) (dc_slots r dc) = Some k"
  proof (cases "List.find (\<lambda>k. de_address (slot_entry dc k) = r) (dc_slots r dc)")
    case None
    with lr(2) r show ?thesis by (auto simp: find_None_iff)
  next
    case (Some j)
    from find_SomeD [OF this] dc_slots_less [OF wf] have "j < dc_size dc" "de_address (slot_entry dc j) = r" by auto
    then have "j = k" using wf r rn kn unfolding dc_wf_def by metis
    with Some show ?thesis by simp
  qed
  from dc_scan_spec [OF dc_wf_slots(1) [OF wf, of r] dc_wf_slots(2) [OF wf], of "\<lambda>e. de_address e = r"] fnd obtain dc1 where
    s: "dc_scan (\<lambda>e. de_address e = r) (dc_slots r dc) dc = Inr (Some k, dc1)" "dc_grows dc dc1"
      "dc_entry (Slot k) dc1 = Some (slot_entry dc k)" by auto
  have same: "dc_same dc dc1" using s(2) by (simp add: dc_grows_def)
  note v = dc_sameD [OF same]
  let ?f = "fresh_at dc a"
  define d where "d = dir_setEntry k ?f ((dc_directory dc1)\<lparr>dir_use_max_hw_sharers := hw_sharers (dc_directory dc1)\<rparr>)"
  define dc2 where "dc2 = dc1\<lparr>dc_directory := d, dc_replaced := dc_replaced dc1 @ [slot_entry dc k]\<rparr>"
  have rep: "replaceDirectoryEntry r a dc = Inr (Slot k, dc2)"
    unfolding replaceDirectoryEntry_def using s(1,3) create_entry [of dc1]
    by (simp add: dc2_def d_def fresh_at_def v slots [symmetric])
  have geo: "dc_num_sets dc2 = dc_num_sets dc" "dc_associativity dc2 = dc_associativity dc" "dc_size dc2 = dc_size dc"
    "dir_num_entries (dc_directory dc2) = dir_num_entries (dc_directory dc)" "fresh_entry dc2 = fresh_entry dc"
    "\<And>b. dc_slots b dc2 = dc_slots b dc" "dc_replaced dc2 = dc_replaced dc @ [slot_entry dc k]"
    unfolding v(2-8) [symmetric]
    by (simp_all add: dc2_def d_def dir_setEntry_def dc_size_def fresh_entry_def fresh_class_def dc_slots_def dc_set_index_def Let_def)
  have ks: "k < length (dir_entries (dc_directory dc1))" using kn v(5) by (simp add: dc_size_def)
  have se: "slot_entry dc2 j = (if j = k then ?f else slot_entry dc j)" for j
  proof -
    have "dc_entry (Slot j) dc2 = (if j = k then Some ?f else dc_entry (Slot j) dc1)"
      using ks by (auto simp: dc2_def d_def dir_setEntry_def dc_entry.simps nth_list_update)
    then show ?thesis using fun_cong [OF v(1), of j] by (simp add: slot_entry_def geo(5) v(7) cong: option.case_cong)
  qed
  have nr: "r \<notin> set (map de_address (dc_replaced dc))" "a \<notin> set (map de_address (dc_replaced dc))"
    using wf lr(2) r a dc_look_replaced [OF wf] by (auto simp: dc_wf_def)
  have na: "de_address (slot_entry dc j) \<noteq> a" if "j < dc_size dc" for j
    using dc_look_slot(1) [OF wf that] a by auto
  have fa: "de_address ?f = a" by (simp add: fresh_at_def)
  have wf2: "dc_wf dc2"
    unfolding dc_wf_def geo
  proof (intro conjI)
    show "\<forall>j<dc_size dc. de_address (slot_entry dc2 j) \<noteq> INVALID_ADDRESS \<longrightarrow> j \<in> set (dc_slots (de_address (slot_entry dc2 j)) dc)"
      using wf k by (auto simp: se fa dc_wf_def)
    show "\<forall>j<dc_size dc. \<forall>i<dc_size dc. de_address (slot_entry dc2 j) = de_address (slot_entry dc2 i) \<longrightarrow>
        de_address (slot_entry dc2 i) \<noteq> INVALID_ADDRESS \<longrightarrow> j = i"
      using wf na by (auto simp: se fa dc_wf_def)
    show "\<forall>j<dc_size dc. de_address (slot_entry dc2 j) = INVALID_ADDRESS \<longrightarrow> slot_entry dc2 j = fresh_entry dc"
      using wf a(1) by (auto simp: se fa dc_wf_def)
    show "distinct (map de_address (dc_replaced dc @ [slot_entry dc k]))"
      using wf nr r by (auto simp: dc_wf_def)
    have other: "de_address (slot_entry dc j) \<noteq> r" if "j \<in> set (dc_slots r dc)" "j \<noteq> k" for j
      using wf that r rn kn dc_slots_less [OF wf that(1)] unfolding dc_wf_def by metis
    show "\<forall>b \<in> set (map de_address (dc_replaced dc @ [slot_entry dc k])). b \<noteq> INVALID_ADDRESS \<and> (\<forall>j \<in> set (dc_slots b dc).
        de_address (slot_entry dc2 j) \<noteq> INVALID_ADDRESS \<and> de_address (slot_entry dc2 j) \<noteq> b)"
    proof
      fix b assume b: "b \<in> set (map de_address (dc_replaced dc @ [slot_entry dc k]))"
      show "b \<noteq> INVALID_ADDRESS \<and> (\<forall>j \<in> set (dc_slots b dc).
          de_address (slot_entry dc2 j) \<noteq> INVALID_ADDRESS \<and> de_address (slot_entry dc2 j) \<noteq> b)"
      proof (cases "b = r")
        case True
        with rn other full slots a ar show ?thesis by (auto simp: se fa)
      next
        case False
        with b r have b': "b \<in> set (map de_address (dc_replaced dc))" by auto
        with wf have "b \<noteq> INVALID_ADDRESS \<and> (\<forall>j \<in> set (dc_slots b dc).
          de_address (slot_entry dc j) \<noteq> INVALID_ADDRESS \<and> de_address (slot_entry dc j) \<noteq> b)"
          unfolding dc_wf_def by blast
        moreover have "b \<noteq> a" using b' nr by blast
        ultimately show ?thesis using a by (auto simp: se fa)
      qed
    qed
  qed (use wf in \<open>simp_all add: dc_wf_def\<close>)
  have e2: "dc_entry (Slot k) dc2 = Some ?f"
    using ks by (simp add: dc2_def d_def dir_setEntry_def dc_entry.simps)
  have look: "dc_look dc2 b = ((dc_look dc)(a := Some ?f)) b" for b
  proof (cases "b = a")
    case True
    with dc_entry_look [OF wf2 e2] a fa show ?thesis by simp
  next
    case ba: False
    show ?thesis
    proof (cases "b = r")
      case True
      have "slot_entry dc k \<in> set (dc_replaced dc2)" by (simp add: geo)
      from dc_look_replaced [OF wf2 this] True r lr(1) ar show ?thesis by simp
    next
      case False
      have sl: "de_address (slot_entry dc2 j) = b \<longleftrightarrow> de_address (slot_entry dc j) = b" for j
        using ba False r fa by (auto simp: se)
      have "List.find (\<lambda>e. de_address e = b) (xs @ [slot_entry dc k]) = List.find (\<lambda>e. de_address e = b) xs" for xs
        using False r by (induction xs) auto
      moreover have "slot_entry dc2 j = slot_entry dc j" if "de_address (slot_entry dc j) = b" for j
        using that False r by (auto simp: se)
      ultimately show ?thesis using ba
        by (auto simp: dc_look_def geo sl split: option.split dest: find_SomeD)
    qed
  qed
  show ?thesis using rep wf2 look e2 geo lr(1) by (auto simp: fun_eq_iff)
qed

lemma find_first_Some_ex: "x \<in> set xs \<Longrightarrow> P x \<Longrightarrow> \<exists>i. find_first P xs = Some i"
  using find_first_None_iff [of P xs] by (cases "find_first P xs") auto

lemma invalidateDirectoryEntry_spec:
  assumes wf: "dc_wf dc" and a: "a \<in> set (map de_address (dc_replaced dc))"
  shows "\<exists>dc'. invalidateDirectoryEntry a dc = Inr dc' \<and> dc_wf dc' \<and> dc_look dc' = (dc_look dc)(a := None) \<and>
    set (map de_address (dc_replaced dc')) = set (map de_address (dc_replaced dc)) - {a} \<and>
    (\<forall>k. dc_entry (Slot k) dc' = dc_entry (Slot k) dc) \<and> fresh_entry dc' = fresh_entry dc"
proof -
  from a find_first_Some_ex [of _ "dc_replaced dc" "\<lambda>e. de_address e = a"] obtain i where
    i: "find_first (\<lambda>e. de_address e = a) (dc_replaced dc) = Some i" by auto
  from find_first_SomeD [OF i] have il: "i < length (dc_replaced dc)" "de_address (dc_replaced dc ! i) = a" by auto
  let ?l = "take i (dc_replaced dc) @ drop (Suc i) (dc_replaced dc)"
  define dc' where "dc' = dc\<lparr>dc_replaced := ?l\<rparr>"
  have split: "dc_replaced dc = take i (dc_replaced dc) @ (dc_replaced dc ! i) # drop (Suc i) (dc_replaced dc)"
    by (rule id_take_nth_drop [OF il(1)])
  have dist: "distinct (map de_address (dc_replaced dc))" using wf by (simp add: dc_wf_def)
  have "map de_address (dc_replaced dc) = map de_address (take i (dc_replaced dc)) @ a # map de_address (drop (Suc i) (dc_replaced dc))"
    using arg_cong [OF split, of "map de_address"] il(2) by simp
  with dist have addrs: "set (map de_address ?l) = set (map de_address (dc_replaced dc)) - {a}" "distinct (map de_address ?l)"
    by auto
  have geo: "dc_num_sets dc' = dc_num_sets dc" "dc_associativity dc' = dc_associativity dc" "dc_size dc' = dc_size dc"
    "dc_directory dc' = dc_directory dc" "fresh_entry dc' = fresh_entry dc" "\<And>b. dc_slots b dc' = dc_slots b dc"
    "\<And>k. slot_entry dc' k = slot_entry dc k" "dc_replaced dc' = ?l" "\<And>k. dc_entry (Slot k) dc' = dc_entry (Slot k) dc"
    by (simp_all add: dc'_def dc_size_def fresh_entry_def fresh_class_def dc_slots_def dc_set_index_def slot_entry_def
        dc_entry.simps split: option.split)
  have wf': "dc_wf dc'"
    using wf addrs unfolding dc_wf_def geo by blast
  have "dc_look dc' b = ((dc_look dc)(a := None)) b" for b
  proof (cases "b = a")
    case True
    then show ?thesis using addrs(1) wf a
      by (auto simp: dc_look_def geo dc_wf_def find_None_iff split: option.split dest!: find_SomeD)
  next
    case False
    have "List.find (\<lambda>e. de_address e = b) ?l = List.find (\<lambda>e. de_address e = b) (dc_replaced dc)"
    proof (subst (3) split)
      have "List.find P (xs @ y # ys) = List.find P (xs @ ys)" if "\<not> P y" for P and xs ys :: "dir_entry list" and y
        using that by (induction xs) auto
      with False il(2) show "List.find (\<lambda>e. de_address e = b) ?l =
        List.find (\<lambda>e. de_address e = b) (take i (dc_replaced dc) @ dc_replaced dc ! i # drop (Suc i) (dc_replaced dc))" by simp
    qed
    with False show ?thesis by (simp add: dc_look_def geo cong: option.case_cong)
  qed
  moreover have "invalidateDirectoryEntry a dc = Inr dc'" using i by (simp add: invalidateDirectoryEntry_def dc'_def)
  ultimately show ?thesis using wf' addrs geo by (auto simp: fun_eq_iff)
qed

end
