(* ===== verification/Directory_Cntlr_Fuel.thy ===== *)
theory Directory_Cntlr_Fuel
  imports Directory_Cntlr Directory_Store_Props
begin

text \<open>
  The mutual recursion of the directory controller returns: \<open>nextReq\<close> satisfies the recursive
  equation of the code. First what the operations below the recursion leave alone.
\<close>

subsection \<open>Quiet operations\<close>

definition grant_type :: "msg_t \<Rightarrow> bool" where
  "grant_type ty \<longleftrightarrow> ty = EX_REP \<or> ty = UPGRADE_REP \<or> ty = SH_REP"

text \<open>The directory and the queues stay; no message sent gives a copy.\<close>

definition dd_quiet :: "dd_state \<Rightarrow> dd_state \<Rightarrow> bool" where
  "dd_quiet d d' \<longleftrightarrow> dd_cache d' = dd_cache d \<and> dd_queue d' = dd_queue d \<and>
     (\<exists>ms. dd_out d' = dd_out d @ ms \<and> (\<forall>x \<in> set ms. \<not> grant_type (msg_type (fst (snd x)))))"

lemma dd_quiet_refl [simp]: "dd_quiet d d"
  by (simp add: dd_quiet_def)

lemma dd_quiet_trans:
  assumes "dd_quiet a b" and "dd_quiet b c"
  shows "dd_quiet a c"
proof -
  from assms obtain xs ys where "dd_out b = dd_out a @ xs" "\<forall>x \<in> set xs. \<not> grant_type (msg_type (fst (snd x)))"
    "dd_out c = dd_out b @ ys" "\<forall>x \<in> set ys. \<not> grant_type (msg_type (fst (snd x)))"
    by (auto simp: dd_quiet_def)
  with assms show ?thesis by (auto simp: dd_quiet_def intro!: exI [of _ "xs @ ys"])
qed

lemma dd_quiet_queue: "dd_quiet d d' \<Longrightarrow> dd_queue d' = dd_queue d"
  and dd_quiet_cache: "dd_quiet d d' \<Longrightarrow> dd_cache d' = dd_cache d"
  by (simp_all add: dd_quiet_def)

lemma quiet_perf: "dd_quiet d (updateShmemPerf perf r d)"
  by (simp add: dd_quiet_def updateShmemPerf_def)

lemma updateShmemPerf_fields [simp]: "dd_cache (updateShmemPerf perf r d) = dd_cache d"
  "dd_queue (updateShmemPerf perf r d) = dd_queue d" "dd_out (updateShmemPerf perf r d) = dd_out d"
  "dd_time (updateShmemPerf perf r d) = dd_time d" "dd_nuca (updateShmemPerf perf r d) = dd_nuca d"
  by (simp_all add: updateShmemPerf_def)

lemma sendMsg_Inr:
  assumes "sendMsg ty rc requester receiver a buf len w perf d = Inr d'"
  shows "dd_cache d' = dd_cache d" and "dd_queue d' = dd_queue d" and "dd_nuca d' = dd_nuca d"
    and "\<exists>m t. dd_out d' = dd_out d @ [(Some receiver, m, t)] \<and> msg_type m = ty \<and> msg_address m = a"
  using assms by (auto simp: sendMsg_def Let_def ShmemMsg_def)

lemma quiet_sendMsg: "sendMsg ty rc requester receiver a buf len w perf d = Inr d' \<Longrightarrow> \<not> grant_type ty \<Longrightarrow> dd_quiet d d'"
  using sendMsg_Inr [of ty rc requester receiver a buf len w perf d d'] by (auto simp: dd_quiet_def)

lemma quiet_toCache: "toCache ty requester receiver a perf d = Inr d' \<Longrightarrow> \<not> grant_type ty \<Longrightarrow> dd_quiet d d'"
  unfolding toCache_def by (rule quiet_sendMsg)

lemma quiet_sendAll:
  "sendAll requester a ms d = Inr d' \<Longrightarrow> \<forall>m \<in> set ms. \<not> grant_type (fst m) \<Longrightarrow> dd_quiet d d'"
  by (induction ms arbitrary: d) (auto simp: bindE_Inr_iff dest!: quiet_toCache intro: dd_quiet_trans)

lemma quiet_broadcast: "broadcastMsg ty rc requester a buf len perf d = Inr d' \<Longrightarrow> \<not> grant_type ty \<Longrightarrow> dd_quiet d d'"
  by (auto simp: broadcastMsg_def Let_def ShmemMsg_def dd_quiet_def)

lemma quiet_invalidateSharers: "invalidateSharers requester a perf e d = Inr d' \<Longrightarrow> dd_quiet d d'"
  by (auto simp: invalidateSharers_def invalidations_def grant_type_def split: prod.splits if_splits
      dest!: quiet_broadcast quiet_sendAll)

lemma quiet_sendDataToNUCA: "sendDataToNUCA cf a buf d = Inr d' \<Longrightarrow> dd_quiet d d'"
proof (cases "dd_nuca d")
  case None
  then show "sendDataToNUCA cf a buf d = Inr d' \<Longrightarrow> dd_quiet d d'" by (simp add: sendDataToNUCA_def)
next
  case (Some nu)
  assume r: "sendDataToNUCA cf a buf d = Inr d'"
  from r Some obtain t w ev evbuf nu' ps where
    wr: "nuca_write (cf_qenv cf) (cf_global_time cf) a buf (dd_time d) (nu, dd_perf d) = Inr ((t, w, ev, evbuf), nu', ps)"
    by (auto simp: sendDataToNUCA_def bindE_Inr_iff)
  obtain x y where "(case ev of Some x \<Rightarrow> x | None \<Rightarrow> cf_junk_eviction cf) = (x, y)" by fastforce
  with r Some wr have "d' = d\<lparr>dd_nuca := Some nu', dd_perf := ps\<rparr> \<or>
      (\<exists>n x b. sendMsg DRAM_WRITE_REQ DRAM (cf_core_id cf) n x (Some b) (cf_block_size cf) HW_UNKNOWN None
        (d\<lparr>dd_nuca := Some nu', dd_perf := ps\<rparr>) = Inr d')"
    by (auto simp: sendDataToNUCA_def bindE_Inr_iff Let_def split: if_splits)
  moreover have "dd_quiet d (d\<lparr>dd_nuca := Some nu', dd_perf := ps\<rparr>)" by (simp add: dd_quiet_def)
  moreover have "\<not> grant_type DRAM_WRITE_REQ" by (simp add: grant_type_def)
  ultimately show ?thesis by (elim disjE exE) (simp, blast intro: quiet_sendMsg dd_quiet_trans)
qed

lemma quiet_sendDataToDram: "sendDataToDram cf a requester buf d = Inr d' \<Longrightarrow> dd_quiet d d'"
  by (auto simp: sendDataToDram_def bindE_Inr_iff grant_type_def quiet_sendDataToNUCA split: if_splits dest!: quiet_sendMsg)

lemma quiet_readNuca: "readNuca cf a perf d = Inr (x, d') \<Longrightarrow> dd_quiet d d'"
  by (auto simp: readNuca_def bindE_Inr_iff dd_quiet_def split: option.splits)

text \<open>Finding and changing entries leaves the queues and the messages.\<close>

lemma findEntry_frame: "findEntry a d = Inr (p, d') \<Longrightarrow> d' = d\<lparr>dd_cache := dd_cache d'\<rparr>"
  by (auto simp: findEntry_def bindE_Inr_iff)

lemma knownEntry_frame: "knownEntry a d = Inr (p, e, d') \<Longrightarrow> d' = d\<lparr>dd_cache := dd_cache d'\<rparr>"
  by (auto simp: knownEntry_def bindE_Inr_iff split: option.splits dest: findEntry_frame)

lemma storeEntry_fields [simp]: "dd_queue (storeEntry p e d) = dd_queue d" "dd_out (storeEntry p e d) = dd_out d"
  "dd_cache (storeEntry p e d) = dc_store p e (dd_cache d)" "dd_time (storeEntry p e d) = dd_time d"
  by (simp_all add: storeEntry_def)

lemma ownEntry_queue: "ownEntry s r p e d = Inr d' \<Longrightarrow> dd_queue d' = dd_queue d"
  by (auto simp: ownEntry_def bindE_Inr_iff)

subsection \<open>How the handlers use the next request\<close>

lemma bindE_cong_Inr: "m = m' \<Longrightarrow> (\<And>x. m' = Inr x \<Longrightarrow> f x = f' x) \<Longrightarrow> bindE m f = bindE m' f'"
  by (cases m') simp_all

text \<open>A last request is simply removed.\<close>

definition next_last :: "next_req \<Rightarrow> bool" where
  "next_last nxt \<longleftrightarrow> (\<forall>a d. q_size a (dd_queue d) = 1 \<longrightarrow> nxt a d = Inr (d\<lparr>dd_queue := (dd_queue d)(a := [])\<rparr>))"

text \<open>The requests in the queue of an address are about that address.\<close>

definition queue_addr :: "addr \<Rightarrow> dd_state \<Rightarrow> bool" where
  "queue_addr a d \<longleftrightarrow> (\<forall>r \<in> set (dd_queue d a). rq_address r = a)"

definition next_agree :: "nat \<Rightarrow> next_req \<Rightarrow> next_req \<Rightarrow> bool" where
  "next_agree m nxt nxt' \<longleftrightarrow> (\<forall>a d. queue_addr a d \<longrightarrow> q_size a (dd_queue d) \<le> m \<longrightarrow> nxt a d = nxt' a d)"

lemma next_agree_D: "next_agree m nxt nxt' \<Longrightarrow> queue_addr a d \<Longrightarrow> q_size a (dd_queue d) \<le> m \<Longrightarrow> nxt a d = nxt' a d"
  by (simp add: next_agree_def)

lemma knownEntry_queue [simp]: "knownEntry a d = Inr (p, e, d') \<Longrightarrow> dd_queue d' = dd_queue d"
  by (frule knownEntry_frame) (metis dd_state.select_convs(2) dd_state.surjective dd_state.update_convs(1))

lemma findEntry_queue [simp]: "findEntry a d = Inr (p, d') \<Longrightarrow> dd_queue d' = dd_queue d"
  by (frule findEntry_frame) (metis dd_state.select_convs(2) dd_state.surjective dd_state.update_convs(1))

lemma nullify_last:
  assumes "next_last nxt" and "next_last nxt'" and "q_size (rq_address req) (dd_queue d) = 1"
  shows "processNullifyReq nxt req d = processNullifyReq nxt' req d"
  unfolding processNullifyReq_def Let_def
proof (rule bindE_cong_Inr [OF refl], clarify)
  fix p e d1 assume "knownEntry (rq_address req) d = Inr (p, e, d1)"
  then have "q_size (rq_address req) (dd_queue d1) = 1" using assms(3) by simp
  then have "nxt (rq_address req) (d1\<lparr>dd_cache := dc\<rparr>) = nxt' (rq_address req) (d1\<lparr>dd_cache := dc\<rparr>)" for dc
    using assms(1,2) by (simp add: next_last_def)
  then show "(case de_state e of
      D_UNCACHED \<Rightarrow> bindE (invalidateDirectoryEntry (rq_address req) (dd_cache d1)) (\<lambda>dc. nxt (rq_address req) (d1\<lparr>dd_cache := dc\<rparr>))
    | D_SHARED \<Rightarrow> invalidateSharers (rq_requester req) (rq_address req) None e d1
    | D_OWNED \<Rightarrow> Inl (Log_Error ''Unsupported Directory State'')
    | _ \<Rightarrow> toCache FLUSH_REQ (rq_requester req) (de_owner e) (rq_address req) None d1) =
    (case de_state e of
      D_UNCACHED \<Rightarrow> bindE (invalidateDirectoryEntry (rq_address req) (dd_cache d1)) (\<lambda>dc. nxt' (rq_address req) (d1\<lparr>dd_cache := dc\<rparr>))
    | D_SHARED \<Rightarrow> invalidateSharers (rq_requester req) (rq_address req) None e d1
    | D_OWNED \<Rightarrow> Inl (Log_Error ''Unsupported Directory State'')
    | _ \<Rightarrow> toCache FLUSH_REQ (rq_requester req) (de_owner e) (rq_address req) None d1)"
    by (cases "de_state e") simp_all
qed

lemma nullify_queue:
  assumes "next_last nxt" and "q_size (rq_address req) (dd_queue d) = 1" and "processNullifyReq nxt req d = Inr d'"
    and "b \<noteq> rq_address req"
  shows "dd_queue d' b = dd_queue d b"
proof -
  from assms(3) obtain p e d1 where k: "knownEntry (rq_address req) d = Inr (p, e, d1)"
    by (auto simp: processNullifyReq_def Let_def bindE_Inr_iff)
  then have q: "dd_queue d1 = dd_queue d" by simp
  have nx: "nxt (rq_address req) (d1\<lparr>dd_cache := dc\<rparr>) = Inr (d1\<lparr>dd_cache := dc, dd_queue := (dd_queue d)(rq_address req := [])\<rparr>)" for dc
    using assms(1,2) q by (simp add: next_last_def)
  from assms(3) k show ?thesis
    by (auto simp: processNullifyReq_def Let_def bindE_Inr_iff nx q grant_type_def assms(4) split: dstate_t.splits
        dest!: quiet_toCache quiet_invalidateSharers dd_quiet_queue)
qed

lemma pick_candidate_spec:
  "pick_candidate q best es = Some c \<Longrightarrow> best = Some c \<or> (c \<in> set es \<and> q_size (de_address c) q = 0)"
  by (induction es arbitrary: best) (auto split: if_splits dest!: meta_spec)

text \<open>An allocation in steps: what it does before the nullification.\<close>

definition allocPrepare :: "shmem_req \<Rightarrow> dd_state \<Rightarrow> (dir_ptr \<times> dir_entry \<times> shmem_req \<times> dd_state) res" where
  "allocPrepare req d =
     (let address = rq_address req; requester = rq_requester req; msg_time = dd_time d in
      bindE (getReplacementCandidates address (dd_cache d)) (\<lambda>(ps, dc).
      let d = d\<lparr>dd_cache := dc\<rparr> in
      bindE (mapE (\<lambda>p. derefEntry p d) ps) (\<lambda>es.
      case pick_candidate (dd_queue d) None es of
        None \<Rightarrow> Inl (Log_Error ''Cannot find a directory entry to be replaced with a non-zero request list'')
      | Some candidate \<Rightarrow>
          (let replaced_address = de_address candidate;
               d = d\<lparr>dd_evict := (dd_evict d)(de_state candidate := dd_evict d (de_state candidate) + 1)\<rparr> in
           bindE (incrElapsedTime (getLatency (dc_access_time (dd_cache d))) (dd_time d)) (\<lambda>t.
           bindE (replaceDirectoryEntry replaced_address address (dd_cache d)) (\<lambda>(p, dc).
           bindE (ShmemReq (ShmemMsg NULLIFY_REQ TAG_DIR TAG_DIR requester replaced_address None 0 None) msg_time) (\<lambda>nullify_req.
           let d = d\<lparr>dd_time := t, dd_cache := dc, dd_queue := q_enqueue replaced_address nullify_req (dd_queue d)\<rparr> in
           assertE (q_size replaced_address (dd_queue d) = 1) ''size(replaced_address) == 1''
           (Inr (p, candidate, nullify_req, d)))))))))"

lemma bindE_assoc: "bindE (bindE m f) g = bindE m (\<lambda>x. bindE (f x) g)"
  by (cases m) simp_all

lemma bindE_assertE: "bindE (assertE b msg k) g = assertE b msg (bindE k g)"
  by (simp add: assertE_def)

lemma alloc_prepare:
  "processDirectoryEntryAllocationReq nxt req d =
    bindE (allocPrepare req d) (\<lambda>(p, c, r, d). bindE (processNullifyReq nxt r d) (\<lambda>d. Inr (p, d)))"
  unfolding processDirectoryEntryAllocationReq_def allocPrepare_def Let_def
  by (simp add: bindE_assoc bindE_assertE split_def option.case_distrib [of "\<lambda>m. bindE m _"] cong: option.case_cong)

lemma allocPrepare_steps:
  assumes "allocPrepare req d = Inr (p, c, r, d')"
  obtains ps dc es where "getReplacementCandidates (rq_address req) (dd_cache d) = Inr (ps, dc)"
    and "mapE (\<lambda>p. derefEntry p (d\<lparr>dd_cache := dc\<rparr>)) ps = Inr es"
    and "pick_candidate (dd_queue d) None es = Some c"
    and "replaceDirectoryEntry (de_address c) (rq_address req) dc = Inr (p, dd_cache d')"
    and "ShmemReq (ShmemMsg NULLIFY_REQ TAG_DIR TAG_DIR (rq_requester req) (de_address c) None 0 None) (dd_time d) = Inr r"
    and "dd_queue d' = q_enqueue (de_address c) r (dd_queue d)" and "dd_out d' = dd_out d"
proof -
  from assms obtain ps dc es where 1: "getReplacementCandidates (rq_address req) (dd_cache d) = Inr (ps, dc)"
    and 2: "mapE (\<lambda>p. derefEntry p (d\<lparr>dd_cache := dc\<rparr>)) ps = Inr es"
    unfolding allocPrepare_def Let_def by (elim bindE_InrE) auto
  show ?thesis
  proof (cases "pick_candidate (dd_queue d) None es")
    case None
    with assms 1 2 show ?thesis by (simp add: allocPrepare_def Let_def)
  next
    case (Some c')
    with assms 1 2 have "c' = c" and "replaceDirectoryEntry (de_address c) (rq_address req) dc = Inr (p, dd_cache d')"
      and "ShmemReq (ShmemMsg NULLIFY_REQ TAG_DIR TAG_DIR (rq_requester req) (de_address c) None 0 None) (dd_time d) = Inr r"
      and "dd_queue d' = q_enqueue (de_address c) r (dd_queue d)" and "dd_out d' = dd_out d"
      by (auto simp: allocPrepare_def Let_def bindE_Inr_iff)
    with 1 2 Some show ?thesis by (intro that) simp_all
  qed
qed

lemma allocPrepare_queue:
  assumes "allocPrepare req d = Inr (p, c, r, d')"
  shows "dd_queue d' = q_enqueue (de_address c) r (dd_queue d) \<and> q_size (de_address c) (dd_queue d) = 0 \<and>
    rq_address r = de_address c \<and> rq_type r = NULLIFY_REQ \<and> dd_out d' = dd_out d"
  using assms
proof (rule allocPrepare_steps)
  fix ps dc es
  assume "pick_candidate (dd_queue d) None es = Some c"
    and "ShmemReq (ShmemMsg NULLIFY_REQ TAG_DIR TAG_DIR (rq_requester req) (de_address c) None 0 None) (dd_time d) = Inr r"
    and "dd_queue d' = q_enqueue (de_address c) r (dd_queue d)" "dd_out d' = dd_out d"
  then show ?thesis by (auto simp: ShmemReq_def ShmemMsg_def dest!: pick_candidate_spec)
qed

lemma alloc_last:
  assumes "next_last nxt" and "next_last nxt'"
  shows "processDirectoryEntryAllocationReq nxt req d = processDirectoryEntryAllocationReq nxt' req d"
  unfolding alloc_prepare
proof (rule bindE_cong_Inr [OF refl], clarify)
  fix p c r d1 assume "allocPrepare req d = Inr (p, c, r, d1)"
  from allocPrepare_queue [OF this] have "q_size (rq_address r) (dd_queue d1) = 1"
    by (simp add: q_size_enqueue)
  from nullify_last [OF assms this]
  show "bindE (processNullifyReq nxt r d1) (\<lambda>d. Inr (p, d)) = bindE (processNullifyReq nxt' r d1) (\<lambda>d. Inr (p, d))" by simp
qed

lemma alloc_queue:
  assumes "next_last nxt" and "processDirectoryEntryAllocationReq nxt req d = Inr (p, d')" and "1 \<le> q_size a (dd_queue d)"
  shows "dd_queue d' a = dd_queue d a"
proof -
  from assms(2) obtain c r d1 where pr: "allocPrepare req d = Inr (p, c, r, d1)" and nl: "processNullifyReq nxt r d1 = Inr d'"
    unfolding alloc_prepare by (auto simp: bindE_Inr_iff)
  note q = allocPrepare_queue [OF pr]
  then have r1: "q_size (rq_address r) (dd_queue d1) = 1" by (simp add: q_size_enqueue)
  have "a \<noteq> rq_address r" using q assms(3) by auto
  with nullify_queue [OF assms(1) r1 nl] q show ?thesis by (simp add: q_enqueue_def)
qed

lemma requestEntry_last:
  assumes "next_last nxt" and "next_last nxt'"
  shows "requestEntry nxt req d = requestEntry nxt' req d"
proof -
  have "processDirectoryEntryAllocationReq nxt req = processDirectoryEntryAllocationReq nxt' req"
    by (rule ext) (rule alloc_last [OF assms])
  then show ?thesis unfolding requestEntry_def by (simp only:)
qed

lemma requestEntry_queue:
  assumes "next_last nxt" and "requestEntry nxt req d = Inr (p, e, d')" and "1 \<le> q_size a (dd_queue d)"
  shows "dd_queue d' a = dd_queue d a"
proof -
  from assms(2) obtain po d1 where f: "findEntry (rq_address req) d = Inr (po, d1)"
    and r: "bindE (case po of Some p \<Rightarrow> Inr (p, d1) | None \<Rightarrow> processDirectoryEntryAllocationReq nxt req d1) (\<lambda>(p, d).
        bindE (derefEntry p d) (\<lambda>e. Inr (p, e, d))) = Inr (p, e, d')"
    unfolding requestEntry_def by (elim bindE_InrE) auto
  from f have q: "dd_queue d1 = dd_queue d" by (rule findEntry_queue)
  show ?thesis
  proof (cases po)
    case None
    with r have "processDirectoryEntryAllocationReq nxt req d1 = Inr (p, d')" by (auto simp: bindE_Inr_iff)
    from alloc_queue [OF assms(1) this] q assms(3) show ?thesis by simp
  next
    case (Some p1)
    with r q show ?thesis by (auto simp: bindE_Inr_iff)
  qed
qed

subsection \<open>The handlers without the recursion\<close>

text \<open>Every handler does its part and then either processes the next request on its address, as its
  last action, or returns. The parts, with a flag that says which:\<close>

definition go_on :: "dd_state res \<Rightarrow> (bool \<times> dd_state) res" where
  "go_on m = bindE m (\<lambda>d. Inr (True, d))"

definition stop :: "dd_state res \<Rightarrow> (bool \<times> dd_state) res" where
  "stop m = bindE m (\<lambda>d. Inr (False, d))"

definition nextIf :: "next_req \<Rightarrow> addr \<Rightarrow> bool \<times> dd_state \<Rightarrow> dd_state res" where
  "nextIf nxt a x = (if fst x then nxt a (snd x) else Inr (snd x))"

lemma nextIf_go_on [simp]: "bindE (go_on m) (nextIf nxt a) = bindE m (nxt a)"
  by (cases m) (simp_all add: go_on_def nextIf_def)

lemma nextIf_stop [simp]: "bindE (stop m) (nextIf nxt a) = m"
  by (cases m) (simp_all add: stop_def nextIf_def)

lemma go_on_Inr [simp]: "go_on m = Inr (b, d) \<longleftrightarrow> b \<and> m = Inr d"
  by (auto simp: go_on_def bindE_Inr_iff)

lemma stop_Inr [simp]: "stop m = Inr (b, d) \<longleftrightarrow> \<not> b \<and> m = Inr d"
  by (auto simp: stop_def bindE_Inr_iff)

definition retrieveCore ::
  "dd_conf \<Rightarrow> msg_t \<Rightarrow> core_id \<Rightarrow> addr \<Rightarrow> u8 list option \<Rightarrow> nat option \<Rightarrow> dd_state \<Rightarrow> (bool \<times> dd_state) res" where
  "retrieveCore cf ty receiver address cached_data_buf perf d =
     bindE (knownEntry address d) (\<lambda>(p, e, d).
     if cached_data_buf \<noteq> None then
       go_on (sendMsg ty L2_CACHE receiver receiver address cached_data_buf (cf_block_size cf)
                HW_CACHE_REMOTE perf (storeEntry p (e\<lparr>de_forwarder := receiver\<rparr>) d))
     else
       bindE (readNuca cf address perf d) (\<lambda>(nuca_data_buf, d).
       if nuca_data_buf \<noteq> None then
         go_on (sendMsg ty L2_CACHE receiver receiver address nuca_data_buf (cf_block_size cf) HW_NUCA_CACHE perf d)
       else
         assertE (q_size address (dd_queue d) > 0) ''size(address) > 0''
         (bindE (q_front address (dd_queue d)) (\<lambda>req.
          if cf_protocol cf = MESIF \<and> rq_forwarding req = INVALID_CORE_ID \<and> de_state e = D_SHARED \<and>
             de_forwarder e \<noteq> INVALID_CORE_ID
          then stop (toCache WB_REQ receiver (de_forwarder e) address (rq_perf req)
                 (d\<lparr>dd_queue := q_modify_front address (\<lambda>r. r\<lparr>rq_forwarding := de_forwarder e\<rparr>) (dd_queue d)\<rparr>))
          else
            stop (bindE (getHome (cf_home cf) address) (\<lambda>dram_node.
            sendMsg DRAM_READ_REQ DRAM receiver dram_node address None 0 HW_UNKNOWN perf
              (d\<lparr>dd_queue := q_modify_front address (\<lambda>r. r\<lparr>rq_wait := True\<rparr>) (dd_queue d)\<rparr>)))))))"

lemma retrieve_core:
  "retrieveDataAndSendToL2Cache cf nxt ty receiver address buf perf d =
    bindE (retrieveCore cf ty receiver address buf perf d) (nextIf nxt address)"
  unfolding retrieveDataAndSendToL2Cache_def retrieveCore_def
  by (auto simp: bindE_assoc bindE_assertE split_def if_distrib [of "\<lambda>m. bindE m (nextIf nxt address)"] cong: if_cong)

lemma retrieve_core_fun:
  "retrieveDataAndSendToL2Cache cf nxt ty receiver address buf perf =
    (\<lambda>d. bindE (retrieveCore cf ty receiver address buf perf d) (nextIf nxt address))"
  by (rule ext) (rule retrieve_core)

definition nullifyCore :: "shmem_req \<Rightarrow> dd_state \<Rightarrow> (bool \<times> dd_state) res" where
  "nullifyCore req d =
     (let address = rq_address req; requester = rq_requester req in
      bindE (knownEntry address d) (\<lambda>(p, e, d).
      case de_state e of
        D_EXCLUSIVE \<Rightarrow> stop (toCache FLUSH_REQ requester (de_owner e) address None d)
      | D_MODIFIED \<Rightarrow> stop (toCache FLUSH_REQ requester (de_owner e) address None d)
      | D_SHARED \<Rightarrow> stop (invalidateSharers requester address None e d)
      | D_UNCACHED \<Rightarrow> go_on (bindE (invalidateDirectoryEntry address (dd_cache d)) (\<lambda>dc. Inr (d\<lparr>dd_cache := dc\<rparr>)))
      | D_OWNED \<Rightarrow> Inl (Log_Error ''Unsupported Directory State'')))"

lemma nullify_core:
  "processNullifyReq nxt req d = bindE (nullifyCore req d) (nextIf nxt (rq_address req))"
  unfolding processNullifyReq_def nullifyCore_def Let_def bindE_assoc
  by (rule bindE_cong_Inr [OF refl]) (auto simp: bindE_assoc split: dstate_t.split)

definition exCore ::
  "dd_conf \<Rightarrow> u8 list option \<Rightarrow> shmem_req \<Rightarrow> dir_ptr \<times> dir_entry \<times> dd_state \<Rightarrow> (bool \<times> dd_state) res" where
  "exCore cf cached_data_buf req = (\<lambda>(p, e, d).
     let address = rq_address req; requester = rq_requester req; d = updateShmemPerf (rq_perf req) R_TD_ACCESS d in
     case de_state e of
        D_EXCLUSIVE \<Rightarrow> assertE (cached_data_buf = None) ''cached_data_buf == NULL''
          (stop (toCache FLUSH_REQ requester (de_owner e) address (rq_perf req) d))
      | D_MODIFIED \<Rightarrow> assertE (cached_data_buf = None) ''cached_data_buf == NULL''
          (stop (toCache FLUSH_REQ requester (de_owner e) address (rq_perf req) d))
      | D_SHARED \<Rightarrow> assertE (cached_data_buf = None) ''cached_data_buf == NULL''
          (stop (invalidateSharers requester address (rq_perf req) e d))
      | D_UNCACHED \<Rightarrow> bindE (ownEntry D_MODIFIED requester p e d)
            (retrieveCore cf EX_REP requester address cached_data_buf (rq_perf req))
      | D_OWNED \<Rightarrow> Inl (Log_Error ''Unsupported Directory State''))"

lemma ex_core:
  "processExReqFromL2Cache cf nxt buf req d =
    bindE (requestEntry nxt req (updateShmemPerf (rq_perf req) R_UNKNOWN d)) (\<lambda>x.
    bindE (exCore cf buf req x) (nextIf nxt (rq_address req)))"
  unfolding processExReqFromL2Cache_def exCore_def Let_def
  by (rule bindE_cong_Inr [OF refl])
     (auto simp: bindE_assoc bindE_assertE retrieve_core_fun split: dstate_t.split)

definition shCore ::
  "dd_conf \<Rightarrow> u8 list option \<Rightarrow> shmem_req \<Rightarrow> dir_ptr \<times> dir_entry \<times> dd_state \<Rightarrow> (bool \<times> dd_state) res" where
  "shCore cf cached_data_buf req = (\<lambda>(p, e, d).
     let address = rq_address req; requester = rq_requester req; perf = rq_perf req; d = updateShmemPerf perf R_TD_ACCESS d in
     case de_state e of
        D_EXCLUSIVE \<Rightarrow> assertE (requester \<noteq> de_owner e) ''requester != directory_entry->getOwner()''
          (assertE (cached_data_buf = None) ''cached_data_buf == NULL''
            (stop (toCache WB_REQ requester (de_owner e) address perf d)))
      | D_MODIFIED \<Rightarrow> assertE (cached_data_buf = None) ''cached_data_buf == NULL''
          (stop (toCache WB_REQ requester (de_owner e) address perf d))
      | D_SHARED \<Rightarrow>
          bindE (hasSharer requester e) (\<lambda>has_sharer.
          if has_sharer then
            retrieveCore cf SH_REP requester address cached_data_buf perf
              (d\<lparr>dd_forward := dd_forward d + 1,
                 dd_forward_failed := (if cached_data_buf = None then dd_forward_failed d + 1 else dd_forward_failed d)\<rparr>)
          else
            bindE (addSharer requester (dc_getMaxHwSharers (dd_cache d)) e) (\<lambda>(add_result, e).
            if \<not> add_result then
              bindE (getOneSharer e) (\<lambda>(sharer_id, e).
              stop (toCache INV_REQ requester sharer_id address perf (storeEntry p e d)))
            else retrieveCore cf SH_REP requester address cached_data_buf perf (storeEntry p e d)))
      | D_UNCACHED \<Rightarrow>
          (if cf_protocol cf = MSI
           then bindE (ownEntry D_SHARED requester p e d) (retrieveCore cf SH_REP requester address cached_data_buf perf)
           else bindE (ownEntry D_EXCLUSIVE requester p e d) (retrieveCore cf EX_REP requester address cached_data_buf perf))
      | D_OWNED \<Rightarrow> Inl (Log_Error ''Unsupported Directory State''))"

lemma sh_core:
  "processShReqFromL2Cache cf nxt buf req d =
    bindE (requestEntry nxt req (updateShmemPerf (rq_perf req) R_UNKNOWN d)) (\<lambda>x.
    bindE (shCore cf buf req x) (nextIf nxt (rq_address req)))"
  unfolding processShReqFromL2Cache_def shCore_def Let_def
  by (rule bindE_cong_Inr [OF refl])
     (auto simp: bindE_assoc bindE_assertE retrieve_core_fun split_def if_distrib [of "\<lambda>m. bindE m (nextIf nxt _)"]
        cong: if_cong split: dstate_t.split)

definition upCore ::
  "dd_conf \<Rightarrow> u8 list option \<Rightarrow> shmem_req \<Rightarrow> dir_ptr \<times> dir_entry \<times> dd_state \<Rightarrow> (bool \<times> dd_state) res" where
  "upCore cf cached_data_buf req = (\<lambda>(p, e, d).
     let address = rq_address req; requester = rq_requester req; perf = rq_perf req;
          (broadcast, sharers) = getSharersList e;
          d = updateShmemPerf perf R_TD_ACCESS d;
          owned = (if sharers = [] then Inl (Out_Of_Range ''sharers_list_pair.second[0]'')
            else if hd sharers = requester then
              assertE (de_owner e = requester) ''getOwner() == requester''
              (go_on (bindE (toCache UPGRADE_REP requester requester address perf d)
                (\<lambda>d. Inr (storeEntry p (e\<lparr>de_state := D_MODIFIED\<rparr>) d))))
            else stop (toCache FLUSH_REQ requester (de_owner e) address perf d)) in
      case de_state e of
        D_EXCLUSIVE \<Rightarrow> owned
      | D_MODIFIED \<Rightarrow> owned
      | D_SHARED \<Rightarrow>
          (if sharers = [requester] then
             bindE (setOwner requester e) (\<lambda>e.
             go_on (toCache UPGRADE_REP requester requester address perf (storeEntry p (e\<lparr>de_state := D_MODIFIED\<rparr>) d)))
           else
             bindE (hasSharer requester e) (\<lambda>requesterHasCopy. stop (
             if broadcast then broadcastMsg INV_REQ L2_CACHE requester address None 0 None d
             else sendAll requester address (upgradeInvalidations requesterHasCopy requester perf sharers) d)))
      | D_UNCACHED \<Rightarrow> assertE (sharers = []) ''sharers_list_pair.second.size() == 0''
          (bindE (ownEntry D_MODIFIED requester p e d)
            (retrieveCore cf EX_REP requester address (if cached_data_buf = None then rq_data req else cached_data_buf) perf))
      | D_OWNED \<Rightarrow> Inl (Log_Error ''Unsupported Directory State''))"

lemma up_core:
  "processUpgradeReqFromL2Cache cf nxt buf req d =
    bindE (requestEntry nxt req (updateShmemPerf (rq_perf req) R_UNKNOWN d)) (\<lambda>x.
    bindE (upCore cf buf req x) (nextIf nxt (rq_address req)))"
  unfolding processUpgradeReqFromL2Cache_def upCore_def Let_def
  by (rule bindE_cong_Inr [OF refl])
     (auto simp: bindE_assoc bindE_assertE retrieve_core_fun split_def if_distrib [of "\<lambda>m. bindE m (nextIf nxt _)"]
        cong: if_cong split: dstate_t.split)

text \<open>A part that goes on has left the queues alone.\<close>

lemma readNuca_queue: "readNuca cf a perf d = Inr (x, d') \<Longrightarrow> dd_queue d' = dd_queue d"
  by (drule quiet_readNuca) (rule dd_quiet_queue)

lemmas sendMsg_queue = sendMsg_Inr(2)

lemma toCache_queue: "toCache ty requester receiver a perf d = Inr d' \<Longrightarrow> dd_queue d' = dd_queue d"
  unfolding toCache_def by (rule sendMsg_queue)

lemma retrieveCore_on: "retrieveCore cf ty r a buf perf d = Inr (True, d') \<Longrightarrow> dd_queue d' = dd_queue d"
  unfolding retrieveCore_def bindE_Inr_iff
  by (auto simp: bindE_Inr_iff split: if_splits dest!: sendMsg_queue readNuca_queue dest: knownEntry_queue)

lemma exCore_on: "exCore cf buf req (p, e, d) = Inr (True, d') \<Longrightarrow> dd_queue d' = dd_queue d"
  by (auto simp: exCore_def Let_def bindE_Inr_iff split: dstate_t.splits dest!: retrieveCore_on ownEntry_queue)

lemma shCore_on: "shCore cf buf req (p, e, d) = Inr (True, d') \<Longrightarrow> dd_queue d' = dd_queue d"
  by (auto simp: shCore_def Let_def bindE_Inr_iff split: dstate_t.splits if_splits prod.splits
      dest!: retrieveCore_on ownEntry_queue)

lemma upCore_on: "upCore cf buf req (p, e, d) = Inr (True, d') \<Longrightarrow> dd_queue d' = dd_queue d"
  by (auto simp: upCore_def Let_def bindE_Inr_iff split: dstate_t.splits if_splits prod.splits
      dest!: retrieveCore_on ownEntry_queue toCache_queue)

text \<open>A handler whose request is in the queue does not tell two continuations apart that agree up to
  the length of the queue.\<close>

lemma handler_agree:
  assumes h: "\<And>nxt. h nxt = bindE (requestEntry nxt req (updateShmemPerf perf R_UNKNOWN d)) (\<lambda>x. bindE (core x) (nextIf nxt (rq_address req)))"
    and on: "\<And>p e d d'. core (p, e, d) = Inr (True, d') \<Longrightarrow> dd_queue d' = dd_queue d"
    and l: "next_last nxt" "next_last nxt'" and ag: "next_agree m nxt nxt'"
    and sz: "1 \<le> q_size (rq_address req) (dd_queue d)" "q_size (rq_address req) (dd_queue d) \<le> m"
    and qa: "queue_addr (rq_address req) d"
  shows "h nxt = h nxt'"
  unfolding h requestEntry_last [OF l]
proof (rule bindE_cong_Inr [OF refl], rule bindE_cong_Inr [OF refl])
  fix x y assume r: "requestEntry nxt' req (updateShmemPerf perf R_UNKNOWN d) = Inr x" and c: "core x = Inr y"
  obtain p e d1 where x: "x = (p, e, d1)" by (cases x)
  obtain b d2 where y: "y = (b, d2)" by (cases y)
  from requestEntry_queue [OF l(2) r [unfolded x]] sz(1)
  have q1: "dd_queue d1 (rq_address req) = dd_queue d (rq_address req)" by simp
  show "nextIf nxt (rq_address req) y = nextIf nxt' (rq_address req) y"
  proof (cases b)
    case True
    with c on [of p e d1 d2] have "dd_queue d2 = dd_queue d1" by (simp add: x y)
    with q1 sz(2) qa have "queue_addr (rq_address req) d2" "q_size (rq_address req) (dd_queue d2) \<le> m"
      by (simp_all add: q_size_def queue_addr_def)
    from next_agree_D [OF ag this] show ?thesis by (simp add: nextIf_def y)
  qed (simp add: nextIf_def y)
qed

lemma ex_agree:
  assumes "next_last nxt" "next_last nxt'" "next_agree m nxt nxt'"
    and "1 \<le> q_size (rq_address req) (dd_queue d)" "q_size (rq_address req) (dd_queue d) \<le> m"
    and "queue_addr (rq_address req) d"
  shows "processExReqFromL2Cache cf nxt buf req d = processExReqFromL2Cache cf nxt' buf req d"
  by (rule handler_agree [OF ex_core exCore_on assms])

lemma sh_agree:
  assumes "next_last nxt" "next_last nxt'" "next_agree m nxt nxt'"
    and "1 \<le> q_size (rq_address req) (dd_queue d)" "q_size (rq_address req) (dd_queue d) \<le> m"
    and "queue_addr (rq_address req) d"
  shows "processShReqFromL2Cache cf nxt buf req d = processShReqFromL2Cache cf nxt' buf req d"
  by (rule handler_agree [OF sh_core shCore_on assms])

lemma up_agree:
  assumes "next_last nxt" "next_last nxt'" "next_agree m nxt nxt'"
    and "1 \<le> q_size (rq_address req) (dd_queue d)" "q_size (rq_address req) (dd_queue d) \<le> m"
    and "queue_addr (rq_address req) d"
  shows "processUpgradeReqFromL2Cache cf nxt buf req d = processUpgradeReqFromL2Cache cf nxt' buf req d"
  by (rule handler_agree [OF up_core upCore_on assms])

subsection \<open>The equation of the code\<close>

text \<open>One call of the function, over the function that is called for the rest of the queue.\<close>

definition next_step :: "dd_conf \<Rightarrow> next_req \<Rightarrow> next_req" where
  "next_step cf nxt address d =
     assertE (q_size address (dd_queue d) \<ge> 1) ''size(address) >= 1''
     (bindE (q_dequeue address (dd_queue d)) (\<lambda>(completed_shmem_req, q).
      let d = d\<lparr>dd_queue := q\<rparr> in
      if \<not> q_empty address q then
        bindE (q_front address q) (\<lambda>req.
        let d = d\<lparr>dd_time := setElapsedTime (rq_time req) (dd_time d)\<rparr> in
        if rq_type req = EX_REQ then processExReqFromL2Cache cf nxt None req d
        else if rq_type req = SH_REQ then processShReqFromL2Cache cf nxt None req d
        else if rq_type req = UPGRADE_REQ then processUpgradeReqFromL2Cache cf nxt None req d
        else Inl (Log_Error ''Unrecognized Request''))
      else Inr d))"

text \<open>\<open>n\<close> calls of the function, with \<open>f\<close> for the calls below.\<close>

definition next_calls :: "dd_conf \<Rightarrow> next_req \<Rightarrow> nat \<Rightarrow> next_req" where
  "next_calls cf f n = (next_step cf ^^ n) f"

lemma next_calls_Suc: "next_calls cf f (Suc n) = next_step cf (next_calls cf f n)"
  by (simp add: next_calls_def)

lemma process_calls: "processNextReqFromL2Cache cf n = next_calls cf (processNextReqFromL2Cache cf 0) n"
proof (induction n)
  case 0
  then show ?case by (simp add: next_calls_def)
next
  case (Suc n)
  have "processNextReqFromL2Cache cf (Suc n) = next_step cf (processNextReqFromL2Cache cf n)"
    by (rule ext)+ (simp add: next_step_def Let_def)
  with Suc show ?case by (simp add: next_calls_Suc)
qed

lemma next_step_last: "next_last (next_step cf f)"
  unfolding next_last_def
proof (intro allI impI)
  fix a and d :: dd_state assume "q_size a (dd_queue d) = 1"
  then obtain r where "dd_queue d a = [r]" by (auto simp: q_size_def length_Suc_conv)
  then show "next_step cf f a d = Inr (d\<lparr>dd_queue := (dd_queue d)(a := [])\<rparr>)"
    by (simp add: next_step_def q_size_def q_dequeue_def q_empty_def Let_def)
qed

lemma next_calls_last: "1 \<le> n \<Longrightarrow> next_last (next_calls cf f n)"
  by (cases n) (simp_all add: next_calls_Suc next_step_last)

text \<open>A short queue does not reach the calls below.\<close>

lemma next_step_short: "q_size a (dd_queue d) \<le> 1 \<Longrightarrow> next_step cf f a d = next_step cf g a d"
proof (cases "dd_queue d a")
  case (Cons r rs)
  moreover assume "q_size a (dd_queue d) \<le> 1"
  ultimately show ?thesis by (simp add: next_step_def q_size_def q_dequeue_def q_empty_def Let_def)
qed (simp add: next_step_def q_size_def assertE_def)

lemma next_step_agree:
  assumes ag: "next_agree m nxt nxt'" and l: "2 \<le> q_size a (dd_queue d) \<Longrightarrow> next_last nxt \<and> next_last nxt'"
    and qa: "queue_addr a d" and sz: "q_size a (dd_queue d) \<le> Suc m"
  shows "next_step cf nxt a d = next_step cf nxt' a d"
proof (cases "dd_queue d a")
  case Nil
  then show ?thesis by (simp add: next_step_def q_size_def assertE_def)
next
  case (Cons r rs)
  show ?thesis
  proof (cases rs)
    case Nil
    with Cons show ?thesis by (simp add: next_step_def q_dequeue_def q_empty_def Let_def)
  next
    fix r1 rs1 assume rs: "rs = r1 # rs1"
    define d1 where "d1 = d\<lparr>dd_queue := (dd_queue d)(a := r1 # rs1), dd_time := setElapsedTime (rq_time r1) (dd_time d)\<rparr>"
    from Cons rs qa have a: "rq_address r1 = a" by (simp add: queue_addr_def)
    from Cons rs l have last: "next_last nxt" "next_last nxt'" by (simp_all add: q_size_def)
    from Cons rs sz qa have q: "1 \<le> q_size (rq_address r1) (dd_queue d1)" "q_size (rq_address r1) (dd_queue d1) \<le> m"
      "queue_addr (rq_address r1) d1" by (simp_all add: d1_def a q_size_def queue_addr_def)
    from Cons rs show ?thesis
      by (simp add: next_step_def q_dequeue_def q_empty_def q_front_def Let_def d1_def [symmetric]
          ex_agree [OF last ag q] sh_agree [OF last ag q] up_agree [OF last ag q] del: One_nat_def)
  qed
qed

lemma next_calls_agree: "m \<le> n \<Longrightarrow> m \<le> n' \<Longrightarrow> 1 \<le> n \<Longrightarrow> 1 \<le> n' \<Longrightarrow> next_agree m (next_calls cf f n) (next_calls cf g n')"
proof (induction m arbitrary: n n')
  case 0
  then obtain k k' where "n = Suc k" "n' = Suc k'" by (cases n; cases n'; simp)
  then show ?case by (simp add: next_agree_def next_calls_Suc next_step_def q_size_def assertE_def)
next
  case (Suc m)
  then obtain k k' where k: "n = Suc k" "n' = Suc k'" by (meson Suc_le_D)
  show ?case unfolding next_agree_def
  proof (intro allI impI)
    fix a and d :: dd_state assume qa: "queue_addr a d" and sz: "q_size a (dd_queue d) \<le> Suc m"
    show "next_calls cf f n a d = next_calls cf g n' a d"
    proof (cases "q_size a (dd_queue d) \<le> 1")
      case True
      then show ?thesis by (simp add: k next_calls_Suc next_step_short)
    next
      case False
      with sz Suc.prems k have "1 \<le> k" "1 \<le> k'" "m \<le> k" "m \<le> k'" by auto
      then show ?thesis using qa sz Suc.IH [of k k'] by (auto simp: k next_calls_Suc next_calls_last intro!: next_step_agree)
    qed
  qed
qed

text \<open>\<open>nextReq\<close> has enough fuel: as many calls as there are requests give its value, whatever the calls
  below them do.\<close>

lemma nextReq_calls:
  assumes "queue_addr a d" and "q_size a (dd_queue d) \<le> n" and "1 \<le> n"
  shows "next_calls cf f n a d = nextReq cf a d"
proof -
  have "next_agree (q_size a (dd_queue d)) (next_calls cf f n) (processNextReqFromL2Cache cf (Suc (q_size a (dd_queue d))))"
    by (subst process_calls) (use assms in \<open>intro next_calls_agree; simp\<close>)
  from next_agree_D [OF this assms(1)] show ?thesis by (simp add: nextReq_def)
qed

lemma nextReq_last: "next_last (nextReq cf)"
  unfolding next_last_def
proof (intro allI impI)
  fix b and d1 :: dd_state assume "q_size b (dd_queue d1) = 1"
  moreover have "next_last (processNextReqFromL2Cache cf (Suc n))" for n
    by (subst process_calls) (simp add: next_calls_last)
  ultimately show "nextReq cf b d1 = Inr (d1\<lparr>dd_queue := (dd_queue d1)(b := [])\<rparr>)"
    unfolding nextReq_def next_last_def by blast
qed

lemma nextReq_unfold:
  assumes "queue_addr a d"
  shows "nextReq cf a d = next_step cf (nextReq cf) a d"
proof -
  let ?s = "q_size a (dd_queue d)"
  have "nextReq cf a d = next_calls cf (nextReq cf) (Suc (Suc ?s)) a d" using assms by (simp add: nextReq_calls)
  also have "\<dots> = next_step cf (nextReq cf) a d"
    unfolding next_calls_Suc [of _ _ "Suc ?s"]
  proof (rule next_step_agree [where m = "Suc ?s"])
    show "next_agree (Suc ?s) (next_calls cf (nextReq cf) (Suc ?s)) (nextReq cf)"
      by (simp add: next_agree_def nextReq_calls)
  qed (use assms nextReq_last in \<open>simp_all add: next_calls_last\<close>)
  finally show ?thesis .
qed

end
