(* ===== verification/Directory_Cntlr_Inv.thy ===== *)
theory Directory_Cntlr_Inv
  imports Directory_Cntlr_Fuel
begin

text \<open>
  The invariant of the tag directory: the directory cache is a map, an entry's state fits its
  sharers (one owner in the exclusive states), and every queue holds requests on its own address.
  Every handler keeps it; and a cache that is sent a line has the rights the message gives it in the
  directory when the handler returns.
\<close>

declare dc_entry.simps [simp del] dc_store.simps [simp del]

subsection \<open>Sharers\<close>

definition sharers :: "dir_entry \<Rightarrow> core_id list" where
  "sharers e = snd (getSharersList e)"

lemma getSharersList_sharers: "getSharersList e = (False, sharers e)"
  by (simp add: sharers_def getSharersList_def)

lemma distinct_sharers [simp]: "distinct (sharers e)"
  by (simp add: sharers_def getSharersList_def distinct_map inj_on_def)

lemma in_sharers: "x \<in> set (sharers e) \<longleftrightarrow> 0 \<le> x \<and> nat x < length (de_sharers e) \<and> de_sharers e ! nat x"
  by (auto simp: sharers_def getSharersList_def image_iff intro!: bexI [of _ "nat x"])

lemma getNumSharers_length: "getNumSharers e = length (sharers e)"
proof -
  have "filter (\<lambda>b. b) (map ((!) (de_sharers e)) [0..<length (de_sharers e)]) =
      map ((!) (de_sharers e)) (filter (\<lambda>i. de_sharers e ! i) [0..<length (de_sharers e)])"
    by (simp add: filter_map comp_def)
  then show ?thesis unfolding map_nth getNumSharers_def by (simp add: sharers_def getSharersList_def)
qed

lemma sharers_cong [simp]: "sharers (e\<lparr>de_state := s\<rparr>) = sharers e" "sharers (e\<lparr>de_owner := x\<rparr>) = sharers e"
  "sharers (e\<lparr>de_forwarder := x\<rparr>) = sharers e" "sharers (e\<lparr>de_class := c\<rparr>) = sharers e"
  "sharers (e\<lparr>de_address := b\<rparr>) = sharers e"
  by (simp_all add: sharers_def getSharersList_def)

lemma sharers_single: "set (sharers e) = {x} \<longleftrightarrow> sharers e = [x]"
  using distinct_sharers [of e] by (cases "sharers e"; cases "tl (sharers e)") auto

lemma sharer_bit_Inr: "sharer_bit x e = Inr b \<longleftrightarrow> 0 \<le> x \<and> nat x < length (de_sharers e) \<and> b = (x \<in> set (sharers e))"
  by (auto simp: sharer_bit_def in_sharers)

lemma hasSharer_Inr: "hasSharer x e = Inr b \<Longrightarrow> b = (x \<in> set (sharers e))"
  by (simp add: hasSharer_def sharer_bit_Inr)

lemma sharers_update: "0 \<le> x \<Longrightarrow> nat x < length (de_sharers e) \<Longrightarrow>
    set (sharers (e\<lparr>de_sharers := (de_sharers e)[nat x := b]\<rparr>)) = (if b then insert x (set (sharers e)) else set (sharers e) - {x})"
  by (auto simp: in_sharers nth_list_update split: if_splits)

lemma addSharer_cases:
  assumes "addSharer x n e = Inr (b, e')"
  shows "0 \<le> x \<and> nat x < length (de_sharers e) \<and> x \<notin> set (sharers e)"
    and "if b then \<exists>c. e' = e\<lparr>de_class := c, de_sharers := (de_sharers e)[nat x := True]\<rparr> else e' = e"
proof -
  from assms obtain b0 where b0: "sharer_bit x e = Inr b0" "\<not> b0"
    unfolding addSharer_def by (elim bindE_InrE) (simp add: assertE_def split: if_splits)
  then show "0 \<le> x \<and> nat x < length (de_sharers e) \<and> x \<notin> set (sharers e)" by (simp add: sharer_bit_Inr)
  from assms b0 show "if b then \<exists>c. e' = e\<lparr>de_class := c, de_sharers := (de_sharers e)[nat x := True]\<rparr> else e' = e"
  proof (cases "de_class e")
    case (Limited s)
    have "e\<lparr>de_class := Limited s\<rparr> = e" using Limited by simp
    with Limited assms b0 show ?thesis by (auto simp: addSharer_def assertE_def split: if_splits intro!: exI [of _ "Limited s"])
  qed (auto simp: addSharer_def assertE_def)
qed

lemma addSharer_Inr:
  assumes "addSharer x n e = Inr (b, e')"
  shows "x \<notin> set (sharers e)" and "set (sharers e') = (if b then insert x (set (sharers e)) else set (sharers e))"
    and "de_address e' = de_address e" and "de_state e' = de_state e" and "de_owner e' = de_owner e"
proof -
  note c = addSharer_cases [OF assms]
  show "x \<notin> set (sharers e)" using c(1) by simp
  have u: "set (sharers (e\<lparr>de_sharers := (de_sharers e)[nat x := True]\<rparr>)) = insert x (set (sharers e))"
    using c(1) sharers_update [of x e True] by simp
  have "sharers (e\<lparr>de_class := k, de_sharers := l\<rparr>) = sharers (e\<lparr>de_sharers := l\<rparr>)" for k l
    by (simp add: sharers_def getSharersList_def)
  with c(2) u show "set (sharers e') = (if b then insert x (set (sharers e)) else set (sharers e))"
    by (cases b) auto
  show "de_address e' = de_address e" "de_state e' = de_state e" "de_owner e' = de_owner e"
    using c(2) by (auto split: if_splits)
qed

lemma removeSharer_Inr:
  assumes "removeSharer x f e = Inr e'"
  shows "x \<in> set (sharers e)" and "set (sharers e') = set (sharers e) - {x}"
    and "de_address e' = de_address e" and "de_state e' = de_state e" and "de_owner e' = de_owner e"
proof -
  from assms have r: "0 \<le> x" "nat x < length (de_sharers e)" "x \<in> set (sharers e)"
    and e': "e' = e\<lparr>de_sharers := (de_sharers e)[nat x := False]\<rparr>"
    by (auto simp: removeSharer_def bindE_Inr_iff sharer_bit_Inr)
  show "x \<in> set (sharers e)" by (rule r)
  show "set (sharers e') = set (sharers e) - {x}" using r sharers_update [of x e False] by (simp add: e')
  show "de_address e' = de_address e" "de_state e' = de_state e" "de_owner e' = de_owner e" by (simp_all add: e')
qed

lemma setOwner_Inr: "setOwner x e = Inr e' \<Longrightarrow> e' = e\<lparr>de_owner := x\<rparr> \<and> (x \<noteq> INVALID_CORE_ID \<longrightarrow> x \<in> set (sharers e))"
  by (auto simp: setOwner_def bindE_Inr_iff sharer_bit_Inr split: if_splits)

lemma getOneSharer_Inr:
  assumes "getOneSharer e = Inr (x, e')"
  shows "sharers e' = sharers e" and "de_address e' = de_address e" and "de_state e' = de_state e" and "de_owner e' = de_owner e"
  using assms by (auto simp: getOneSharer_def Let_def sharers_def getSharersList_def split: dir_class.splits prod.splits)

subsection \<open>The invariant\<close>

definition one_owner :: "dstate_t \<Rightarrow> bool" where
  "one_owner s \<longleftrightarrow> s = D_MODIFIED \<or> s = D_EXCLUSIVE"

definition entry_ok :: "dir_entry \<Rightarrow> bool" where
  "entry_ok e \<longleftrightarrow>
     (case de_state e of D_UNCACHED \<Rightarrow> sharers e = [] | D_SHARED \<Rightarrow> sharers e \<noteq> [] | D_OWNED \<Rightarrow> False
      | D_MODIFIED \<Rightarrow> sharers e = [de_owner e] | D_EXCLUSIVE \<Rightarrow> sharers e = [de_owner e])"

lemma entry_ok_forwarder [simp]: "entry_ok (e\<lparr>de_forwarder := r\<rparr>) = entry_ok e"
  by (cases "de_state e") (simp_all add: entry_ok_def)

definition dd_look :: "dd_state \<Rightarrow> addr \<Rightarrow> dir_entry option" where
  "dd_look d = dc_look (dd_cache d)"

definition dd_ok :: "dd_state \<Rightarrow> bool" where
  "dd_ok d \<longleftrightarrow> dc_wf (dd_cache d) \<and> (\<forall>a e. dd_look d a = Some e \<longrightarrow> entry_ok e) \<and>
     (\<forall>a. queue_addr a d \<and> (dd_queue d a \<noteq> [] \<longrightarrow> a \<noteq> INVALID_ADDRESS))"

text \<open>The right a message gives is in the directory: a copy, and with \<open>EX_REP\<close> and \<open>UPGRADE_REP\<close> the
  only one.\<close>

definition grant_ok :: "(addr \<Rightarrow> dir_entry option) \<Rightarrow> sent \<Rightarrow> bool" where
  "grant_ok look x = (case x of (receiver, m, t) \<Rightarrow>
     (grant_type (msg_type m) \<longrightarrow>
      (case (receiver, look (msg_address m)) of
         (Some r, Some e) \<Rightarrow> r \<in> set (sharers e) \<and> (msg_type m \<noteq> SH_REP \<longrightarrow> one_owner (de_state e))
       | _ \<Rightarrow> False)))"

text \<open>While requests are processed no sharer is lost and an owner stays the owner.\<close>

definition entry_le :: "dir_entry \<Rightarrow> dir_entry \<Rightarrow> bool" where
  "entry_le e e' \<longleftrightarrow> set (sharers e) \<subseteq> set (sharers e') \<and>
     (one_owner (de_state e) \<and> sharers e \<noteq> [] \<longrightarrow> sharers e' = sharers e \<and> one_owner (de_state e'))"

definition look_le :: "(addr \<Rightarrow> dir_entry option) \<Rightarrow> (addr \<Rightarrow> dir_entry option) \<Rightarrow> bool" where
  "look_le l l' \<longleftrightarrow> (\<forall>a e. l a = Some e \<longrightarrow> sharers e \<noteq> [] \<longrightarrow> (\<exists>e'. l' a = Some e' \<and> entry_le e e'))"

definition dd_step :: "dd_state \<Rightarrow> dd_state \<Rightarrow> bool" where
  "dd_step d d' \<longleftrightarrow> dd_ok d' \<and> look_le (dd_look d) (dd_look d') \<and>
     (\<exists>ms. dd_out d' = dd_out d @ ms \<and> (\<forall>x \<in> set ms. grant_ok (dd_look d') x))"

lemma entry_le_refl [simp]: "entry_le e e"
  by (simp add: entry_le_def)

lemma look_le_refl [simp]: "look_le l l"
  by (auto simp: look_le_def)

lemma look_le_trans:
  assumes "look_le l l'" and "look_le l' l''"
  shows "look_le l l''"
  unfolding look_le_def
proof (intro allI impI)
  fix a e assume "l a = Some e" and s: "sharers e \<noteq> []"
  with assms(1) obtain e1 where e1: "l' a = Some e1" "entry_le e e1" unfolding look_le_def by blast
  then have "sharers e1 \<noteq> []" using s by (auto simp: entry_le_def)
  with e1 assms(2) obtain e2 where e2: "l'' a = Some e2" "entry_le e1 e2" unfolding look_le_def by blast
  with e1 s \<open>sharers e1 \<noteq> []\<close> show "\<exists>e'. l'' a = Some e' \<and> entry_le e e'" by (auto simp: entry_le_def)
qed

lemma grant_ok_le: "grant_ok l x \<Longrightarrow> look_le l l' \<Longrightarrow> grant_ok l' x"
proof (cases x)
  fix receiver m t assume g: "grant_ok l x" and le: "look_le l l'" and x: "x = (receiver, m, t)"
  show ?thesis
  proof (cases "grant_type (msg_type m)")
    case True
    with g x obtain r e where r: "receiver = Some r" "l (msg_address m) = Some e" "r \<in> set (sharers e)"
      "msg_type m \<noteq> SH_REP \<longrightarrow> one_owner (de_state e)" by (auto simp: grant_ok_def split: option.splits)
    then have "sharers e \<noteq> []" by auto
    with le r obtain e' where "l' (msg_address m) = Some e'" "entry_le e e'" unfolding look_le_def by blast
    with r x \<open>sharers e \<noteq> []\<close> show ?thesis by (auto simp: grant_ok_def entry_le_def)
  qed (simp add: grant_ok_def x)
qed

lemma dd_step_trans:
  assumes "dd_step a b" and "dd_step b c"
  shows "dd_step a c"
proof -
  from assms obtain xs ys where xs: "dd_out b = dd_out a @ xs" "\<forall>x \<in> set xs. grant_ok (dd_look b) x"
    and ys: "dd_out c = dd_out b @ ys" "\<forall>x \<in> set ys. grant_ok (dd_look c) x" by (auto simp: dd_step_def)
  have le: "look_le (dd_look a) (dd_look b)" "look_le (dd_look b) (dd_look c)" using assms by (simp_all add: dd_step_def)
  have "\<forall>x \<in> set (xs @ ys). grant_ok (dd_look c) x" using xs(2) ys(2) grant_ok_le [OF _ le(2)] by auto
  then have "\<exists>ms. dd_out c = dd_out a @ ms \<and> (\<forall>x \<in> set ms. grant_ok (dd_look c) x)" using xs(1) ys(1) by auto
  with assms(2) look_le_trans [OF le] show ?thesis by (simp add: dd_step_def)
qed

lemma dd_step_ok: "dd_step d d' \<Longrightarrow> dd_ok d'"
  by (simp add: dd_step_def)

lemma dd_step_refl: "dd_ok d \<Longrightarrow> dd_step d d"
  by (simp add: dd_step_def)

lemma dd_ok_cong: "dd_cache d' = dd_cache d \<Longrightarrow> dd_queue d' = dd_queue d \<Longrightarrow> dd_ok d' = dd_ok d"
  by (simp add: dd_ok_def dd_look_def queue_addr_def)

lemma quiet_step:
  assumes "dd_quiet d d'" and "dd_ok d"
  shows "dd_step d d'"
proof -
  from assms(1) obtain ms where ms: "dd_out d' = dd_out d @ ms" "\<forall>x \<in> set ms. \<not> grant_type (msg_type (fst (snd x)))"
    by (auto simp: dd_quiet_def)
  have c: "dd_cache d' = dd_cache d" "dd_queue d' = dd_queue d" using assms(1) by (simp_all add: dd_quiet_def)
  have "\<forall>x \<in> set ms. grant_ok (dd_look d') x" using ms(2) by (auto simp: grant_ok_def)
  with ms(1) c assms(2) show ?thesis by (auto simp: dd_step_def dd_ok_cong [OF c] dd_look_def)
qed

subsection \<open>Entries\<close>

text \<open>An entry of the directory through its pointer.\<close>

definition entry_at :: "dir_ptr \<Rightarrow> dir_entry \<Rightarrow> addr \<Rightarrow> dd_state \<Rightarrow> bool" where
  "entry_at p e a d \<longleftrightarrow> dc_entry p (dd_cache d) = Some e \<and> de_address e = a \<and> a \<noteq> INVALID_ADDRESS"

lemma entry_at_look: "dd_ok d \<Longrightarrow> entry_at p e a d \<Longrightarrow> dd_look d a = Some e"
  using dc_entry_look [of "dd_cache d" p e] by (auto simp: entry_at_def dd_ok_def dd_look_def)

lemma entry_at_ok: "dd_ok d \<Longrightarrow> entry_at p e a d \<Longrightarrow> entry_ok e"
  using entry_at_look [of d p e a] by (auto simp: dd_ok_def)

lemma entry_at_cong: "dd_cache d' = dd_cache d \<Longrightarrow> entry_at p e a d' = entry_at p e a d"
  by (simp add: entry_at_def)

lemma entry_at_update [simp]:
  "entry_at p e a (d\<lparr>dd_queue := q\<rparr>) = entry_at p e a d" "entry_at p e a (d\<lparr>dd_time := t\<rparr>) = entry_at p e a d"
  "entry_at p e a (updateShmemPerf perf r d) = entry_at p e a d" "entry_at p e a (d\<lparr>dd_perf := ps\<rparr>) = entry_at p e a d"
  "entry_at p e a (d\<lparr>dd_forward := f, dd_forward_failed := g\<rparr>) = entry_at p e a d"
  by (simp_all add: entry_at_def)

lemma store_ok:
  assumes ok: "dd_ok d" and e: "entry_at p e a d" and e': "de_address e' = a" "entry_ok e'"
  shows "dd_ok (storeEntry p e' d)" and "dd_look (storeEntry p e' d) = (dd_look d)(a := Some e')"
    and "entry_at p e' a (storeEntry p e' d)"
proof -
  from e have p: "dc_entry p (dd_cache d) = Some e" and a: "de_address e \<noteq> INVALID_ADDRESS" "de_address e' = de_address e" "de_address e = a"
    using e'(1) by (auto simp: entry_at_def)
  have wf: "dc_wf (dd_cache d)" using ok by (simp add: dd_ok_def)
  note st = dc_store_spec [OF wf p a(1,2)]
  show look: "dd_look (storeEntry p e' d) = (dd_look d)(a := Some e')" using st(2) a(3) by (simp add: dd_look_def)
  show "dd_ok (storeEntry p e' d)" using ok st(1) look e'(2) by (auto simp: dd_ok_def queue_addr_def)
  show "entry_at p e' a (storeEntry p e' d)" using a dc_entry_store [OF p] by (simp add: entry_at_def)
qed

lemma store_step:
  assumes ok: "dd_ok d" and e: "entry_at p e a d" and e': "de_address e' = a" "entry_ok e'" and le: "entry_le e e'"
  shows "dd_step d (storeEntry p e' d)"
proof -
  note st = store_ok [OF ok e e']
  have "look_le (dd_look d) (dd_look (storeEntry p e' d))"
    using entry_at_look [OF ok e] le by (auto simp: look_le_def st(2))
  with st(1) show ?thesis by (simp add: dd_step_def)
qed

lemma sharers_fresh [simp]: "sharers (fresh_entry dc) = []"
  by (metis fresh_entry_fields(3) getNumSharers_length length_0_conv)

lemma fresh_ok: "entry_ok (fresh_at dc a)"
  by (simp add: entry_ok_def fresh_at_def)

lemma knownEntry_out:
  assumes "knownEntry a d = Inr (p, e, d')"
  shows "dd_out d' = dd_out d"
  using arg_cong [OF knownEntry_frame [OF assms], of dd_out] by simp

text \<open>A lookup, with the entry it finds or makes.\<close>

lemma findEntry_found:
  assumes ok: "dd_ok d" and a: "a \<noteq> INVALID_ADDRESS" and f: "findEntry a d = Inr (po, d')"
  shows "dd_ok d'" and "dd_out d' = dd_out d" and "dc_found a (dd_cache d) po (dd_cache d')"
    and "look_le (dd_look d) (dd_look d')"
proof -
  have wf: "dc_wf (dd_cache d)" using ok by (simp add: dd_ok_def)
  from f dc_getEntry_spec [OF wf a] show fd: "dc_found a (dd_cache d) po (dd_cache d')"
    by (auto simp: findEntry_def bindE_Inr_iff)
  have fr: "d' = d\<lparr>dd_cache := dd_cache d'\<rparr>" by (rule findEntry_frame [OF f])
  have q: "dd_queue d' = dd_queue d" by (rule findEntry_queue [OF f])
  show "dd_out d' = dd_out d" by (subst fr) simp
  have look: "dd_look d' = dd_look d \<or> (\<exists>e. dd_look d' = (dd_look d)(a := Some e) \<and>
      (dd_look d a = Some e \<or> dd_look d a = None \<and> e = fresh_at (dd_cache d) a))"
    using fd by (cases po; cases "dd_look d a") (auto simp: dc_found_def dd_look_def)
  have "entry_ok e" if l: "dd_look d' b = Some e" for b e
    using look ok l by (auto simp: dd_ok_def fresh_ok split: if_splits)
  with fd ok q show "dd_ok d'" by (auto simp: dd_ok_def dc_found_def queue_addr_def)
  show "look_le (dd_look d) (dd_look d')" using look by (auto simp: look_le_def)
qed

lemma findEntry_step: "dd_ok d \<Longrightarrow> a \<noteq> INVALID_ADDRESS \<Longrightarrow> findEntry a d = Inr (po, d') \<Longrightarrow> dd_step d d'"
  using findEntry_found [of d a po d'] by (simp add: dd_step_def)

lemma findEntry_at:
  assumes "dd_ok d" and "a \<noteq> INVALID_ADDRESS" and "findEntry a d = Inr (Some p, d')" and "derefEntry p d' = Inr e"
  shows "entry_at p e a d'" and "dd_look d a = Some e \<or> dd_look d a = None \<and> e = fresh_at (dd_cache d) a"
  using findEntry_found(3) [OF assms(1-3)] assms(2,4)
  by (auto simp: dc_found_def entry_at_def derefEntry_def dd_look_def split: option.splits)

lemma knownEntry_at:
  assumes ok: "dd_ok d" and a: "a \<noteq> INVALID_ADDRESS" and k: "knownEntry a d = Inr (p, e, d')"
  shows "dd_step d d'" and "entry_at p e a d'" and "dd_look d a = Some e \<or> dd_look d a = None \<and> e = fresh_at (dd_cache d) a"
proof -
  from k have f: "findEntry a d = Inr (Some p, d')" and de: "derefEntry p d' = Inr e"
    by (auto simp: knownEntry_def bindE_Inr_iff split: option.splits)
  show "dd_step d d'" by (rule findEntry_step [OF ok a f])
  show "entry_at p e a d'" "dd_look d a = Some e \<or> dd_look d a = None \<and> e = fresh_at (dd_cache d) a"
    by (rule findEntry_at [OF ok a f de])+
qed

lemma knownEntry_keeps:
  assumes "dd_ok d" and "a \<noteq> INVALID_ADDRESS" and "knownEntry a d = Inr (p, e, d')" and "entry_at q f b d"
  shows "entry_at q f b d'"
proof -
  from assms(3) have "findEntry a d = Inr (Some p, d')" by (auto simp: knownEntry_def bindE_Inr_iff split: option.splits)
  from findEntry_found(3) [OF assms(1,2) this] assms(4) show ?thesis by (auto simp: dc_found_def entry_at_def)
qed

subsection \<open>Processing requests\<close>

lemma owner_grants: "entry_ok e \<Longrightarrow> one_owner (de_state e) \<Longrightarrow> sharers e = [de_owner e]"
  by (auto simp: one_owner_def entry_ok_def)

lemma ownEntry_step:
  assumes ok: "dd_ok d" and e: "entry_at p e a d" and unc: "de_state e = D_UNCACHED"
    and s: "s = D_SHARED \<or> one_owner s" and r: "ownEntry s r p e d = Inr d'"
  shows "dd_step d d'" and "\<exists>e'. entry_at p e' a d' \<and> r \<in> set (sharers e') \<and> de_state e' = s"
proof -
  from r obtain e1 e2 where add: "addSharer r (dc_getMaxHwSharers (dd_cache d)) e = Inr (True, e1)"
    and own: "setOwner r e1 = Inr e2" and d': "d' = storeEntry p (e2\<lparr>de_state := s\<rparr>) d"
    by (auto simp: ownEntry_def bindE_Inr_iff)
  from entry_at_ok [OF ok e] unc have "sharers e = []" by (simp add: entry_ok_def)
  with addSharer_Inr(2) [OF add] have s1: "sharers e1 = [r]" by (simp add: sharers_single)
  with setOwner_Inr [OF own] have s2: "sharers e2 = [r]" "de_owner e2 = r" "de_address e2 = de_address e1" by auto
  have e': "de_address (e2\<lparr>de_state := s\<rparr>) = a" "entry_ok (e2\<lparr>de_state := s\<rparr>)" "entry_le e (e2\<lparr>de_state := s\<rparr>)"
    using s2 s addSharer_Inr(3) [OF add] e \<open>sharers e = []\<close> by (auto simp: entry_at_def entry_ok_def one_owner_def entry_le_def)
  show "dd_step d d'" unfolding d' by (rule store_step [OF ok e e'])
  have "entry_at p (e2\<lparr>de_state := s\<rparr>) a d'" unfolding d' by (rule store_ok(3) [OF ok e e'(1,2)])
  with s2 show "\<exists>e'. entry_at p e' a d' \<and> r \<in> set (sharers e') \<and> de_state e' = s" by (intro exI conjI) auto
qed

text \<open>A message that gives a right the directory already records.\<close>

lemma grant_step:
  assumes ok: "dd_ok d" and look: "dd_look d a = Some e" and g: "r \<in> set (sharers e)" "ty \<noteq> SH_REP \<longrightarrow> one_owner (de_state e)"
    and s: "sendMsg ty rc requester r a buf len w perf d = Inr d'"
  shows "dd_step d d'"
proof -
  note f = sendMsg_Inr [OF s]
  from f(4) obtain m t where m: "dd_out d' = dd_out d @ [(Some r, m, t)]" "msg_type m = ty" "msg_address m = a" by blast
  have l: "dd_look d' = dd_look d" by (simp add: dd_look_def f(1))
  have "grant_ok (dd_look d') (Some r, m, t)" using look g m(2,3) by (simp add: grant_ok_def l)
  with m(1) l ok show ?thesis by (auto simp: dd_step_def dd_ok_cong [OF f(1,2)])
qed

lemma modify_front_step:
  assumes "dd_ok d" and "\<And>r. rq_address (f r) = rq_address r"
  shows "dd_step d (d\<lparr>dd_queue := q_modify_front a f (dd_queue d)\<rparr>)"
proof -
  have "(\<forall>r \<in> set (q_modify_front a f (dd_queue d) b). rq_address r = b) \<longleftrightarrow> (\<forall>r \<in> set (dd_queue d b). rq_address r = b)" for b
    using assms(2) by (auto simp: q_modify_front_def split: list.split)
  moreover have "q_modify_front a f (dd_queue d) b = [] \<longleftrightarrow> dd_queue d b = []" for b
    by (auto simp: q_modify_front_def split: list.split)
  ultimately have "dd_ok (d\<lparr>dd_queue := q_modify_front a f (dd_queue d)\<rparr>)"
    using assms(1) unfolding dd_ok_def dd_look_def queue_addr_def by simp
  then show ?thesis by (simp add: dd_step_def dd_look_def)
qed

lemma retrieveCore_step:
  assumes ok: "dd_ok d" and look: "dd_look d a = Some e0" and a: "a \<noteq> INVALID_ADDRESS"
    and g: "r \<in> set (sharers e0)" "ty \<noteq> SH_REP \<longrightarrow> one_owner (de_state e0)"
    and c: "retrieveCore cf ty r a buf perf d = Inr (b, d')"
  shows "dd_step d d'"
proof -
  from c obtain p e d1 where k: "knownEntry a d = Inr (p, e, d1)" unfolding retrieveCore_def by (elim bindE_InrE) auto
  note known = knownEntry_at [OF ok a k]
  have e: "e = e0" using known(3) look by simp
  have ok1: "dd_ok d1" using known(1) by (rule dd_step_ok)
  have look1: "dd_look d1 a = Some e" by (rule entry_at_look [OF ok1 known(2)])
  have "dd_step d1 d'"
  proof (cases buf)
    case (Some xs)
    let ?e = "e\<lparr>de_forwarder := r\<rparr>" and ?d = "storeEntry p (e\<lparr>de_forwarder := r\<rparr>) d1"
    have e': "de_address ?e = a" "entry_ok ?e" "entry_le e ?e"
      using known(2) entry_at_ok [OF ok1 known(2)] by (simp_all add: entry_at_def entry_le_def)
    have st: "dd_step d1 ?d" by (rule store_step [OF ok1 known(2) e'])
    have "dd_look ?d a = Some ?e" using store_ok(2) [OF ok1 known(2) e'(1,2)] by simp
    moreover from c k Some have "sendMsg ty L2_CACHE r r a buf (cf_block_size cf) HW_CACHE_REMOTE perf ?d = Inr d'"
      by (simp add: retrieveCore_def)
    moreover have "r \<in> set (sharers ?e)" "ty \<noteq> SH_REP \<longrightarrow> one_owner (de_state ?e)" using g by (simp_all add: e)
    ultimately have "dd_step ?d d'" using grant_step [OF dd_step_ok [OF st]] by blast
    with st show ?thesis by (rule dd_step_trans)
  next
    case None
    with c k obtain nb d2 where rn: "readNuca cf a perf d1 = Inr (nb, d2)" unfolding retrieveCore_def
      by simp (elim bindE_InrE, auto)
    have q2: "dd_quiet d1 d2" by (rule quiet_readNuca [OF rn])
    have st2: "dd_step d1 d2" by (rule quiet_step [OF q2 ok1])
    have look2: "dd_look d2 a = Some e" using look1 q2 by (simp add: dd_look_def dd_quiet_def)
    have "dd_step d2 d'"
    proof (cases nb)
      case (Some xs)
      with c k None rn have "sendMsg ty L2_CACHE r r a nb (cf_block_size cf) HW_NUCA_CACHE perf d2 = Inr d'"
        by (simp add: retrieveCore_def)
      from grant_step [OF dd_step_ok [OF st2] look2 g [folded e] this] show ?thesis .
    next
      case nb: None
      let ?w = "d2\<lparr>dd_queue := q_modify_front a (\<lambda>r. r\<lparr>rq_wait := True\<rparr>) (dd_queue d2)\<rparr>"
      let ?f = "d2\<lparr>dd_queue := q_modify_front a (\<lambda>r. r\<lparr>rq_forwarding := de_forwarder e\<rparr>) (dd_queue d2)\<rparr>"
      have w: "dd_step d2 ?w" "dd_step d2 ?f" by (rule modify_front_step [OF dd_step_ok [OF st2]]; simp)+
      from c k None rn nb have "(\<exists>n. sendMsg DRAM_READ_REQ DRAM r n a None 0 HW_UNKNOWN perf ?w = Inr d') \<or>
          (\<exists>pf. toCache WB_REQ r (de_forwarder e) a pf ?f = Inr d')"
        by (auto simp: retrieveCore_def bindE_Inr_iff split: if_splits)
      then have "dd_quiet ?w d' \<or> dd_quiet ?f d'"
        by (auto dest!: quiet_sendMsg quiet_toCache simp: grant_type_def)
      with w show ?thesis using quiet_step dd_step_trans dd_step_ok by blast
    qed
    with st2 show ?thesis by (rule dd_step_trans)
  qed
  with known(1) show ?thesis by (rule dd_step_trans)
qed

text \<open>The three requests, on their entry.\<close>

lemma perf_at: "dd_ok d \<Longrightarrow> dd_step d (updateShmemPerf perf r d)"
  by (intro quiet_step quiet_perf)

lemma own_retrieve:
  assumes ok: "dd_ok d" and e: "entry_at p e a d" and unc: "de_state e = D_UNCACHED"
    and s: "s = D_SHARED \<and> ty = SH_REP \<or> one_owner s"
    and r: "bindE (ownEntry s r p e d) (retrieveCore cf ty r a buf perf) = Inr (b, d')"
  shows "dd_step d d'"
proof -
  from r obtain d1 where o: "ownEntry s r p e d = Inr d1" and c: "retrieveCore cf ty r a buf perf d1 = Inr (b, d')" by blast
  have s': "s = D_SHARED \<or> one_owner s" using s by blast
  note own = ownEntry_step [OF ok e unc s' o]
  from own(2) obtain e' where e': "entry_at p e' a d1" "r \<in> set (sharers e')" "de_state e' = s" by blast
  have ok1: "dd_ok d1" using own(1) by (rule dd_step_ok)
  have "a \<noteq> INVALID_ADDRESS" using e by (simp add: entry_at_def)
  from retrieveCore_step [OF ok1 entry_at_look [OF ok1 e'(1)] this e'(2) _ c] s e'(3) own(1)
  show ?thesis using dd_step_trans by blast
qed

lemma exCore_step:
  assumes ok: "dd_ok d" and e: "entry_at p e (rq_address req) d" and c: "exCore cf buf req (p, e, d) = Inr (b, d')"
  shows "dd_step d d'"
proof -
  let ?d = "updateShmemPerf (rq_perf req) R_TD_ACCESS d"
  have st: "dd_step d ?d" using ok by (rule perf_at)
  note ok' = dd_step_ok [OF st]
  have e': "entry_at p e (rq_address req) ?d" using e by simp
  have "dd_step ?d d'"
  proof (cases "de_state e = D_UNCACHED")
    case True
    with c show ?thesis
      by (intro own_retrieve [OF ok' e' True, of D_MODIFIED EX_REP]) (auto simp: exCore_def Let_def one_owner_def)
  next
    case False
    with c have "dd_quiet ?d d'"
      by (auto simp: exCore_def Let_def grant_type_def split: dstate_t.splits dest!: quiet_toCache quiet_invalidateSharers)
    then show ?thesis by (rule quiet_step [OF _ ok'])
  qed
  with st show ?thesis by (rule dd_step_trans)
qed

lemma shCore_shared:
  assumes ok: "dd_ok d" and e: "entry_at p e a d" and sh: "de_state e = D_SHARED" and req: "rq_address req = a"
    and c: "shCore cf buf req (p, e, d) = Inr (b, d')"
  shows "dd_step d d'"
proof -
  let ?r = "rq_requester req" and ?d = "updateShmemPerf (rq_perf req) R_TD_ACCESS d"
  have st: "dd_step d ?d" using ok by (rule perf_at)
  note ok' = dd_step_ok [OF st]
  have e': "entry_at p e a ?d" and a: "a \<noteq> INVALID_ADDRESS" using e by (simp_all add: entry_at_def)
  from c sh obtain h where h: "hasSharer ?r e = Inr h" by (auto simp: shCore_def Let_def bindE_Inr_iff)
  have "dd_step ?d d'"
  proof (cases h)
    case True
    define d1 where "d1 = ?d\<lparr>dd_forward := dd_forward ?d + 1,
      dd_forward_failed := (if buf = None then dd_forward_failed ?d + 1 else dd_forward_failed ?d)\<rparr>"
    have q: "dd_quiet ?d d1" by (simp add: dd_quiet_def d1_def)
    from c sh h True req have rc: "retrieveCore cf SH_REP ?r a buf (rq_perf req) d1 = Inr (b, d')"
      by (simp add: shCore_def Let_def d1_def)
    have st1: "dd_step ?d d1" by (rule quiet_step [OF q ok'])
    have "dd_look d1 a = Some e" using entry_at_look [OF ok' e'] by (simp add: dd_look_def d1_def)
    from retrieveCore_step [OF dd_step_ok [OF st1] this a _ _ rc] hasSharer_Inr [OF h] True
    have "dd_step d1 d'" by simp
    with st1 show ?thesis by (rule dd_step_trans)
  next
    case False
    with c sh h req obtain ar e1 where add: "addSharer ?r (dc_getMaxHwSharers (dd_cache ?d)) e = Inr (ar, e1)"
      by (auto simp: shCore_def Let_def bindE_Inr_iff)
    note ad = addSharer_Inr [OF add]
    have ne: "sharers e \<noteq> []" using entry_at_ok [OF ok' e'] sh by (simp add: entry_ok_def)
    then have e1: "de_address e1 = a" "entry_ok e1" "entry_le e e1" "sharers e1 \<noteq> []"
      using ad sh e by (auto simp: entry_at_def entry_ok_def entry_le_def one_owner_def split: if_splits)
    show ?thesis
    proof (cases ar)
      case True
      let ?s = "storeEntry p e1 ?d"
      from c sh h False req add True have rc: "retrieveCore cf SH_REP ?r a buf (rq_perf req) ?s = Inr (b, d')"
        by (simp add: shCore_def Let_def)
      have st1: "dd_step ?d ?s" by (rule store_step [OF ok' e' e1(1-3)])
      have "dd_look ?s a = Some e1" using store_ok(2) [OF ok' e' e1(1,2)] by simp
      from retrieveCore_step [OF dd_step_ok [OF st1] this a _ _ rc] ad(2) True have "dd_step ?s d'" by simp
      with st1 show ?thesis by (rule dd_step_trans)
    next
      case noadd: False
      with c sh h False req add obtain x e2 where one: "getOneSharer e1 = Inr (x, e2)"
        and inv: "toCache INV_REQ ?r x a (rq_perf req) (storeEntry p e2 ?d) = Inr d'"
        by (auto simp: shCore_def Let_def bindE_Inr_iff)
      note os = getOneSharer_Inr [OF one]
      have e2: "de_address e2 = a" "entry_ok e2" "entry_le e e2"
        using os e1 sh ad(4) by (auto simp: entry_ok_def entry_le_def)
      have st1: "dd_step ?d (storeEntry p e2 ?d)" by (rule store_step [OF ok' e' e2])
      have "dd_quiet (storeEntry p e2 ?d) d'" by (rule quiet_toCache [OF inv]) (simp add: grant_type_def)
      from quiet_step [OF this dd_step_ok [OF st1]] st1 show ?thesis using dd_step_trans by blast
    qed
  qed
  with st show ?thesis by (rule dd_step_trans)
qed

lemma shCore_step:
  assumes ok: "dd_ok d" and e: "entry_at p e (rq_address req) d" and c: "shCore cf buf req (p, e, d) = Inr (b, d')"
  shows "dd_step d d'"
proof -
  let ?d = "updateShmemPerf (rq_perf req) R_TD_ACCESS d"
  have st: "dd_step d ?d" using ok by (rule perf_at)
  note ok' = dd_step_ok [OF st]
  have e': "entry_at p e (rq_address req) ?d" using e by simp
  consider (sh) "de_state e = D_SHARED" | (unc) "de_state e = D_UNCACHED" | (other) "de_state e \<noteq> D_SHARED" "de_state e \<noteq> D_UNCACHED"
    by blast
  then show ?thesis
  proof cases
    case sh
    show ?thesis by (rule shCore_shared [OF ok e sh refl c])
  next
    case unc
    with c have "bindE (ownEntry D_SHARED (rq_requester req) p e ?d) (retrieveCore cf SH_REP (rq_requester req) (rq_address req) buf (rq_perf req)) = Inr (b, d') \<or>
        bindE (ownEntry D_EXCLUSIVE (rq_requester req) p e ?d) (retrieveCore cf EX_REP (rq_requester req) (rq_address req) buf (rq_perf req)) = Inr (b, d')"
      by (auto simp: shCore_def Let_def split: if_splits)
    then have "dd_step ?d d'"
      using own_retrieve [OF ok' e' unc, of D_SHARED SH_REP] own_retrieve [OF ok' e' unc, of D_EXCLUSIVE EX_REP]
      by (auto simp: one_owner_def)
    with st show ?thesis by (rule dd_step_trans)
  next
    case other
    with c have "dd_quiet ?d d'"
      by (auto simp: shCore_def Let_def grant_type_def split: dstate_t.splits dest!: quiet_toCache)
    with st quiet_step [OF _ ok'] show ?thesis using dd_step_trans by blast
  qed
qed

lemma upCore_step:
  assumes ok: "dd_ok d" and e: "entry_at p e (rq_address req) d" and c: "upCore cf buf req (p, e, d) = Inr (b, d')"
  shows "dd_step d d'"
proof -
  let ?d = "updateShmemPerf (rq_perf req) R_TD_ACCESS d" and ?a = "rq_address req" and ?r = "rq_requester req"
  have st: "dd_step d ?d" using ok by (rule perf_at)
  note ok' = dd_step_ok [OF st]
  have e': "entry_at p e ?a ?d" using e by simp
  note look = entry_at_look [OF ok' e'] and eok = entry_at_ok [OF ok' e']
  have addr: "de_address (e\<lparr>de_state := s\<rparr>) = ?a" "de_address (e\<lparr>de_owner := x, de_state := s\<rparr>) = ?a" for s x
    using e by (simp_all add: entry_at_def)
  consider (own) "one_owner (de_state e)" | (sh) "de_state e = D_SHARED" | (unc) "de_state e = D_UNCACHED" | (bad) "de_state e = D_OWNED"
    by (cases "de_state e") (simp_all add: one_owner_def)
  then have "dd_step ?d d'"
  proof cases
    case own
    with eok have s: "sharers e = [de_owner e]" by (rule owner_grants)
    from own c have "toCache FLUSH_REQ ?r (de_owner e) ?a (rq_perf req) ?d = Inr d' \<or> (\<exists>d1. toCache UPGRADE_REP ?r ?r ?a (rq_perf req) ?d = Inr d1 \<and>
        de_owner e = ?r \<and> d' = storeEntry p (e\<lparr>de_state := D_MODIFIED\<rparr>) d1)"
      by (auto simp: upCore_def Let_def getSharersList_sharers s one_owner_def bindE_Inr_iff split: if_splits)
    then show ?thesis
    proof (elim disjE exE conjE)
      assume "toCache FLUSH_REQ ?r (de_owner e) ?a (rq_perf req) ?d = Inr d'"
      then have "dd_quiet ?d d'" by (rule quiet_toCache) (simp add: grant_type_def)
      then show ?thesis by (rule quiet_step [OF _ ok'])
    next
      fix d1 assume m: "toCache UPGRADE_REP ?r ?r ?a (rq_perf req) ?d = Inr d1" and r: "de_owner e = ?r"
        and d': "d' = storeEntry p (e\<lparr>de_state := D_MODIFIED\<rparr>) d1"
      have r': "?r \<in> set (sharers e)" "UPGRADE_REP \<noteq> SH_REP \<longrightarrow> one_owner (de_state e)" using s r own by simp_all
      have st1: "dd_step ?d d1" by (rule grant_step [OF ok' look r' m [unfolded toCache_def]])
      have e1: "entry_at p e ?a d1" using e' sendMsg_Inr(1) [OF m [unfolded toCache_def]] by (simp add: entry_at_def)
      have "dd_step d1 d'" unfolding d'
        by (rule store_step [OF dd_step_ok [OF st1] e1 addr(1)]) (simp_all add: entry_ok_def s entry_le_def one_owner_def)
      with st1 show ?thesis by (rule dd_step_trans)
    qed
  next
    case sh
    show ?thesis
    proof (cases "sharers e = [?r]")
      case True
      with sh c obtain e1 where o: "setOwner ?r e = Inr e1"
        and m: "toCache UPGRADE_REP ?r ?r ?a (rq_perf req) (storeEntry p (e1\<lparr>de_state := D_MODIFIED\<rparr>) ?d) = Inr d'"
        by (auto simp: upCore_def Let_def getSharersList_sharers bindE_Inr_iff)
      from setOwner_Inr [OF o] have e1: "e1 = e\<lparr>de_owner := ?r\<rparr>" by simp
      let ?e = "e\<lparr>de_owner := ?r, de_state := D_MODIFIED\<rparr>"
      have ok1: "entry_ok ?e" "entry_le e ?e" using True sh by (simp_all add: entry_ok_def entry_le_def one_owner_def)
      have st1: "dd_step ?d (storeEntry p ?e ?d)" by (rule store_step [OF ok' e' addr(2) ok1])
      have "dd_look (storeEntry p ?e ?d) ?a = Some ?e" using store_ok(2) [OF ok' e' addr(2) ok1(1)] by simp
      from grant_step [OF dd_step_ok [OF st1] this _ _ m [unfolded toCache_def e1]] True
      have "dd_step (storeEntry p ?e ?d) d'" by (simp add: one_owner_def)
      with st1 show ?thesis by (rule dd_step_trans)
    next
      case False
      with sh c obtain h where "sendAll ?r ?a (upgradeInvalidations h ?r (rq_perf req) (sharers e)) ?d = Inr d'"
        by (auto simp: upCore_def Let_def getSharersList_sharers bindE_Inr_iff)
      then have "dd_quiet ?d d'" by (rule quiet_sendAll) (auto simp: upgradeInvalidations_def grant_type_def)
      then show ?thesis by (rule quiet_step [OF _ ok'])
    qed
  next
    case unc
    with c have "bindE (ownEntry D_MODIFIED ?r p e ?d) (retrieveCore cf EX_REP ?r ?a
        (if buf = None then rq_data req else buf) (rq_perf req)) = Inr (b, d')"
      by (auto simp: upCore_def Let_def getSharersList_sharers assertE_def split: if_splits)
    then show ?thesis by (intro own_retrieve [OF ok' e' unc, of D_MODIFIED EX_REP]) (simp_all add: one_owner_def)
  next
    case bad
    with c show ?thesis by (simp add: upCore_def Let_def getSharersList_sharers)
  qed
  with st show ?thesis by (rule dd_step_trans)
qed

text \<open>The nullification of a replaced entry.\<close>

lemma nullifyCore_step:
  assumes ok: "dd_ok d" and a: "rq_address req \<noteq> INVALID_ADDRESS" and c: "nullifyCore req d = Inr (b, d')"
  shows "dd_step d d'" and "dd_queue d' = dd_queue d" and "entry_at (Slot k) f x d \<Longrightarrow> entry_at (Slot k) f x d'"
proof -
  from c obtain p e d1 where k: "knownEntry (rq_address req) d = Inr (p, e, d1)"
    unfolding nullifyCore_def Let_def by (elim bindE_InrE) auto
  note known = knownEntry_at [OF ok a k]
  note ok1 = dd_step_ok [OF known(1)] and q1 = knownEntry_queue [OF k]
  note keep = knownEntry_keeps [OF ok a k]
  consider (unc) dc where "de_state e = D_UNCACHED" "invalidateDirectoryEntry (rq_address req) (dd_cache d1) = Inr dc" "d' = d1\<lparr>dd_cache := dc\<rparr>"
    | (q) "dd_quiet d1 d'"
    using c k by (auto simp: nullifyCore_def Let_def bindE_Inr_iff grant_type_def split: dstate_t.splits
        dest!: quiet_toCache quiet_invalidateSharers)
  then have "dd_step d1 d' \<and> dd_queue d' = dd_queue d1 \<and> (entry_at (Slot k) f x d1 \<longrightarrow> entry_at (Slot k) f x d')"
  proof cases
    case unc
    have wf: "dc_wf (dd_cache d1)" using ok1 by (simp add: dd_ok_def)
    from unc(2) have "rq_address req \<in> set (map de_address (dc_replaced (dd_cache d1)))"
      by (auto simp: invalidateDirectoryEntry_def split: option.splits dest!: find_first_SomeD intro: rev_image_eqI [OF nth_mem])
    from invalidateDirectoryEntry_spec [OF wf this] unc(2)
    have dc: "dc_wf dc" "dc_look dc = (dd_look d1)(rq_address req := None)" "\<And>k. dc_entry (Slot k) dc = dc_entry (Slot k) (dd_cache d1)"
      by (auto simp: dd_look_def)
    have look: "dd_look d' = (dd_look d1)(rq_address req := None)" using dc(2) by (simp add: unc(3) dd_look_def)
    have "sharers e = []" using entry_at_ok [OF ok1 known(2)] unc(1) by (simp add: entry_ok_def)
    then have "look_le (dd_look d1) (dd_look d')"
      using entry_at_look [OF ok1 known(2)] by (auto simp: look look_le_def)
    moreover have "dd_ok d'" using ok1 dc(1) look by (auto simp: dd_ok_def unc(3) queue_addr_def)
    ultimately show ?thesis by (simp add: dd_step_def unc(3) entry_at_def dc(3))
  next
    case q
    then show ?thesis using quiet_step [OF q ok1] by (simp add: dd_quiet_def entry_at_def)
  qed
  with known(1) q1 keep show "dd_step d d'" "dd_queue d' = dd_queue d" "entry_at (Slot k) f x d \<Longrightarrow> entry_at (Slot k) f x d'"
    using dd_step_trans by auto
qed

lemma dequeue_step:
  assumes "dd_ok d"
  shows "dd_step d (d\<lparr>dd_queue := (dd_queue d)(a := tl (dd_queue d a))\<rparr>)"
proof -
  have "tl (dd_queue d a) \<noteq> [] \<Longrightarrow> dd_queue d a \<noteq> []" by auto
  moreover have "set (tl (dd_queue d a)) \<subseteq> set (dd_queue d a)" by (cases "dd_queue d a") auto
  ultimately have "dd_ok (d\<lparr>dd_queue := (dd_queue d)(a := tl (dd_queue d a))\<rparr>)"
    using assms unfolding dd_ok_def dd_look_def queue_addr_def by auto
  then show ?thesis by (simp add: dd_step_def dd_look_def)
qed

lemma nullify_one:
  assumes ok: "dd_ok d" and a: "rq_address req \<noteq> INVALID_ADDRESS" and last: "next_last nxt"
    and one: "q_size (rq_address req) (dd_queue d) = 1" and r: "processNullifyReq nxt req d = Inr d'"
  shows "dd_step d d'" and "entry_at (Slot k) f x d \<Longrightarrow> entry_at (Slot k) f x d'"
proof -
  from r obtain b d1 where c: "nullifyCore req d = Inr (b, d1)" and n: "nextIf nxt (rq_address req) (b, d1) = Inr d'"
    unfolding nullify_core by (elim bindE_InrE) auto
  note core = nullifyCore_step [OF ok a c]
  from one obtain r1 where "dd_queue d (rq_address req) = [r1]" by (auto simp: q_size_def length_Suc_conv)
  with n last core(2) one have "d' = d1 \<or> d' = d1\<lparr>dd_queue := (dd_queue d1)(rq_address req := tl (dd_queue d1 (rq_address req)))\<rparr>"
    by (auto simp: nextIf_def next_last_def split: if_splits)
  then have "dd_step d1 d'" "dd_cache d' = dd_cache d1"
    using dequeue_step [OF dd_step_ok [OF core(1)]] dd_step_refl [OF dd_step_ok [OF core(1)]] by auto
  with core(1,3) show "dd_step d d'" "entry_at (Slot k) f x d \<Longrightarrow> entry_at (Slot k) f x d'"
    using dd_step_trans by (auto simp: entry_at_def)
qed

subsection \<open>Allocation\<close>

lemma mapE_in: "mapE f xs = Inr ys \<Longrightarrow> y \<in> set ys \<Longrightarrow> \<exists>x \<in> set xs. f x = Inr y"
  using mapE_Inr [of f xs ys] by (metis in_set_conv_nth)

lemma allocPrepare_step:
  assumes ok: "dd_ok d" and a: "rq_address req \<noteq> INVALID_ADDRESS" "dd_look d (rq_address req) = None"
    and full: "\<forall>k \<in> set (dc_slots (rq_address req) (dd_cache d)). de_address (slot_entry (dd_cache d) k) \<noteq> INVALID_ADDRESS"
    and pr: "allocPrepare req d = Inr (p, c, r, d')"
  shows "dd_step d d'" and "rq_address r \<noteq> INVALID_ADDRESS" and "\<exists>k e. p = Slot k \<and> entry_at p e (rq_address req) d'"
  using pr
proof (atomize (full), elim allocPrepare_steps)
  let ?a = "rq_address req"
  fix ps dc es
  assume g: "getReplacementCandidates ?a (dd_cache d) = Inr (ps, dc)"
    and es: "mapE (\<lambda>p. derefEntry p (d\<lparr>dd_cache := dc\<rparr>)) ps = Inr es"
    and pk: "pick_candidate (dd_queue d) None es = Some c"
    and rep: "replaceDirectoryEntry (de_address c) ?a dc = Inr (p, dd_cache d')"
    and r: "ShmemReq (ShmemMsg NULLIFY_REQ TAG_DIR TAG_DIR (rq_requester req) (de_address c) None 0 None) (dd_time d) = Inr r"
    and q: "dd_queue d' = q_enqueue (de_address c) r (dd_queue d)" and out: "dd_out d' = dd_out d"
  have wf: "dc_wf (dd_cache d)" using ok by (simp add: dd_ok_def)
  from getReplacementCandidates_spec [OF wf a(1) a(2) [unfolded dd_look_def] full] g
  have ps: "ps = map Slot (dc_slots ?a (dd_cache d))" and gr: "dc_grows (dd_cache d) dc" by auto
  have same: "dc_same (dd_cache d) dc" using gr by (simp add: dc_grows_def)
  note v = dc_sameD [OF same]
  have wf1: "dc_wf dc" and look1: "dc_look dc = dd_look d" using dc_grows_wf [OF gr wf] by (simp_all add: dd_look_def)
  from pick_candidate_spec [OF pk] have "c \<in> set es" by simp
  from mapE_in [OF es this] ps obtain k where k: "k \<in> set (dc_slots ?a dc)" "dc_entry (Slot k) dc = Some c"
    by (auto simp: derefEntry_def v split: option.splits)
  have c: "slot_entry dc k = c" using k(2) by (simp add: slot_entry_def)
  have full1: "\<forall>k \<in> set (dc_slots ?a dc). de_address (slot_entry dc k) \<noteq> INVALID_ADDRESS" using full by (simp add: v)
  have an: "dc_look dc ?a = None" using a(2) look1 by simp
  have ca: "de_address (slot_entry dc k) = de_address c" using c by simp
  from replaceDirectoryEntry_spec [OF wf1 a(1) an full1 k(1) ca] rep
  have p: "p = Slot k" and wf': "dc_wf (dd_cache d')" and look: "dc_look (dd_cache d') = (dc_look dc)(?a := Some (fresh_at dc ?a))"
    and e: "dc_entry (Slot k) (dd_cache d') = Some (fresh_at dc ?a)" by auto
  have ra: "rq_address r = de_address c" using r by (auto simp: ShmemReq_def ShmemMsg_def split: if_splits)
  have cn: "de_address c \<noteq> INVALID_ADDRESS" using full1 k(1) c by auto
  have look': "dd_look d' = (dd_look d)(?a := Some (fresh_at dc ?a))" using look look1 by (simp add: dd_look_def)
  have "dd_ok d'" using ok wf' ra cn unfolding dd_ok_def look' by (auto simp: q queue_addr_def q_enqueue_def fresh_ok split: if_splits)
  moreover have "look_le (dd_look d) (dd_look d')" using a(2) by (auto simp: look' look_le_def)
  ultimately have st: "dd_step d d'" by (simp add: dd_step_def out)
  have "entry_at p (fresh_at dc ?a) ?a d'" using e p a(1) by (simp add: entry_at_def fresh_at_def)
  with st ra cn p show "dd_step d d' \<and> rq_address r \<noteq> INVALID_ADDRESS \<and> (\<exists>k e. p = Slot k \<and> entry_at p e ?a d')" by auto
qed

text \<open>The entry of a request.\<close>

lemma requestEntry_step:
  assumes ok: "dd_ok d" and a: "rq_address req \<noteq> INVALID_ADDRESS" and last: "next_last nxt"
    and r: "requestEntry nxt req d = Inr (p, e, d')"
  shows "dd_step d d'" and "entry_at p e (rq_address req) d'"
proof -
  let ?a = "rq_address req"
  from r obtain po d1 where f: "findEntry ?a d = Inr (po, d1)"
    and k: "bindE (case po of Some p \<Rightarrow> Inr (p, d1) | None \<Rightarrow> processDirectoryEntryAllocationReq nxt req d1) (\<lambda>(p, d).
        bindE (derefEntry p d) (\<lambda>e. Inr (p, e, d))) = Inr (p, e, d')"
    unfolding requestEntry_def by (elim bindE_InrE) auto
  note found = findEntry_found [OF ok a f]
  have st1: "dd_step d d1" by (rule findEntry_step [OF ok a f])
  have "dd_step d1 d' \<and> entry_at p e ?a d'"
  proof (cases po)
    case (Some q)
    with k have "p = q" "d' = d1" "derefEntry q d1 = Inr e" by (auto simp: bindE_Inr_iff)
    with findEntry_at(1) [OF ok a, of q d1 e] f Some dd_step_refl [OF found(1)] show ?thesis by simp
  next
    case None
    with k obtain q d2 where al: "processDirectoryEntryAllocationReq nxt req d1 = Inr (q, d2)" and de: "derefEntry q d2 = Inr e"
      and eq: "p = q" "d' = d2" by (auto simp: bindE_Inr_iff)
    from al obtain c r0 d3 where pr: "allocPrepare req d1 = Inr (q, c, r0, d3)" and nl: "processNullifyReq nxt r0 d3 = Inr d2"
      unfolding alloc_prepare by (auto simp: bindE_Inr_iff)
    have none: "dd_look d1 ?a = None" "\<forall>k \<in> set (dc_slots ?a (dd_cache d1)). de_address (slot_entry (dd_cache d1) k) \<noteq> INVALID_ADDRESS"
      using found(3) None by (auto simp: dc_found_def dd_look_def)
    note prep = allocPrepare_step [OF found(1) a none pr]
    from allocPrepare_queue [OF pr] have one: "q_size (rq_address r0) (dd_queue d3) = 1" by (simp add: q_size_enqueue)
    note nu = nullify_one [OF dd_step_ok [OF prep(1)] prep(2) last one nl]
    from prep(3) nu(2) obtain e' where "entry_at q e' ?a d2" by blast
    with de have "entry_at q e ?a d2" by (auto simp: derefEntry_def entry_at_def)
    with nu(1) prep(1) show ?thesis using dd_step_trans eq by blast
  qed
  with st1 show "dd_step d d'" "entry_at p e ?a d'" using dd_step_trans by blast+
qed

subsection \<open>Handlers\<close>

text \<open>A continuation that keeps the invariant, and simply removes a last request.\<close>

definition next_ok :: "next_req \<Rightarrow> bool" where
  "next_ok nxt \<longleftrightarrow> next_last nxt \<and> (\<forall>a d d'. dd_ok d \<longrightarrow> nxt a d = Inr d' \<longrightarrow> dd_step d d')"

definition handler_ok :: "(shmem_req \<Rightarrow> dd_state \<Rightarrow> dd_state res) \<Rightarrow> bool" where
  "handler_ok h \<longleftrightarrow> (\<forall>req d d'. dd_ok d \<longrightarrow> rq_address req \<noteq> INVALID_ADDRESS \<longrightarrow> h req d = Inr d' \<longrightarrow> dd_step d d')"

lemma handler_okI:
  assumes h: "\<And>req d. h req d = bindE (requestEntry nxt req (updateShmemPerf (rq_perf req) R_UNKNOWN d)) (\<lambda>x.
      bindE (core req x) (nextIf nxt (rq_address req)))"
    and core: "\<And>req p e d b d'. dd_ok d \<Longrightarrow> entry_at p e (rq_address req) d \<Longrightarrow> core req (p, e, d) = Inr (b, d') \<Longrightarrow> dd_step d d'"
    and nxt: "next_ok nxt"
  shows "handler_ok h"
  unfolding handler_ok_def
proof (intro allI impI)
  fix req d d' assume ok: "dd_ok d" and a: "rq_address req \<noteq> INVALID_ADDRESS" and r: "h req d = Inr d'"
  let ?d = "updateShmemPerf (rq_perf req) R_UNKNOWN d"
  from r obtain x b d2 where re: "requestEntry nxt req ?d = Inr x" and c: "core req x = Inr (b, d2)"
    and n: "nextIf nxt (rq_address req) (b, d2) = Inr d'" unfolding h by (elim bindE_InrE) auto
  obtain p e d1 where x: "x = (p, e, d1)" by (cases x)
  have st: "dd_step d ?d" using ok by (rule perf_at)
  have last: "next_last nxt" using nxt by (simp add: next_ok_def)
  note rq = requestEntry_step [OF dd_step_ok [OF st] a last re [unfolded x]]
  have st2: "dd_step d1 d2" by (rule core [OF dd_step_ok [OF rq(1)] rq(2) c [unfolded x]])
  have "dd_step d2 d'" using n nxt dd_step_ok [OF st2] dd_step_refl by (auto simp: nextIf_def next_ok_def split: if_splits)
  with st rq(1) st2 show "dd_step d d'" using dd_step_trans by blast
qed

lemma requests_ok:
  assumes "next_ok nxt"
  shows "handler_ok (processExReqFromL2Cache cf nxt buf)" and "handler_ok (processShReqFromL2Cache cf nxt buf)"
    and "handler_ok (processUpgradeReqFromL2Cache cf nxt buf)"
  by (rule handler_okI [OF ex_core exCore_step assms] handler_okI [OF sh_core shCore_step assms]
      handler_okI [OF up_core upCore_step assms]; assumption)+

lemma nullify_ok:
  assumes "next_ok nxt"
  shows "handler_ok (processNullifyReq nxt)"
  unfolding handler_ok_def
proof (intro allI impI)
  fix req d d' assume ok: "dd_ok d" and a: "rq_address req \<noteq> INVALID_ADDRESS" and r: "processNullifyReq nxt req d = Inr d'"
  from r obtain b d1 where c: "nullifyCore req d = Inr (b, d1)" and n: "nextIf nxt (rq_address req) (b, d1) = Inr d'"
    unfolding nullify_core by (elim bindE_InrE) auto
  note core = nullifyCore_step(1) [OF ok a c]
  have "dd_step d1 d'" using n assms dd_step_ok [OF core] dd_step_refl by (auto simp: nextIf_def next_ok_def split: if_splits)
  with core show "dd_step d d'" by (rule dd_step_trans)
qed

lemma next_step_ok:
  assumes "next_ok nxt"
  shows "next_ok (next_step cf nxt)"
  unfolding next_ok_def
proof (intro conjI allI impI)
  show "next_last (next_step cf nxt)" by (rule next_step_last)
  fix a d d' assume ok: "dd_ok d" and r: "next_step cf nxt a d = Inr d'"
  let ?q = "(dd_queue d)(a := tl (dd_queue d a))"
  from r obtain r0 rs where q: "dd_queue d a = r0 # rs"
    by (cases "dd_queue d a") (simp_all add: next_step_def q_size_def assertE_def)
  have st: "dd_step d (d\<lparr>dd_queue := ?q\<rparr>)" by (rule dequeue_step [OF ok])
  show "dd_step d d'"
  proof (cases rs)
    case Nil
    with r q have "d' = d\<lparr>dd_queue := ?q\<rparr>"
      by (simp add: next_step_def q_size_def q_dequeue_def q_empty_def Let_def)
    with st show ?thesis by simp
  next
    case (Cons r1 rs1)
    let ?d = "d\<lparr>dd_queue := ?q, dd_time := setElapsedTime (rq_time r1) (dd_time d)\<rparr>"
    have "dd_quiet (d\<lparr>dd_queue := ?q\<rparr>) ?d" by (simp add: dd_quiet_def)
    from quiet_step [OF this dd_step_ok [OF st]] st have st1: "dd_step d ?d" using dd_step_trans by blast
    have a: "rq_address r1 \<noteq> INVALID_ADDRESS" using ok q Cons unfolding dd_ok_def queue_addr_def
      by (metis list.set_intros(1) list.set_intros(2) list.discI)
    from r q Cons have "processExReqFromL2Cache cf nxt None r1 ?d = Inr d' \<or> processShReqFromL2Cache cf nxt None r1 ?d = Inr d' \<or>
        processUpgradeReqFromL2Cache cf nxt None r1 ?d = Inr d'"
      by (auto simp: next_step_def q_size_def q_dequeue_def q_empty_def q_front_def Let_def split: if_splits)
    with requests_ok [OF assms, of cf None] dd_step_ok [OF st1] a have "dd_step ?d d'" unfolding handler_ok_def by blast
    with st1 show ?thesis by (rule dd_step_trans)
  qed
qed

lemma next_calls_ok: "next_ok f \<Longrightarrow> next_ok (next_calls cf f n)"
  by (induction n) (simp_all add: next_calls_Suc next_step_ok, simp add: next_calls_def)

text \<open>Processing the next request keeps the invariant.\<close>

lemma nextReq_ok: "next_ok (nextReq cf)"
proof -
  let ?f = "\<lambda>a (d::dd_state). Inr (d\<lparr>dd_queue := (dd_queue d)(a := tl (dd_queue d a))\<rparr>)"
  have "next_ok ?f"
    by (auto simp: next_ok_def next_last_def dequeue_step q_size_def length_Suc_conv)
  then have calls: "next_ok (next_calls cf ?f n)" for n by (rule next_calls_ok)
  show ?thesis unfolding next_ok_def
  proof (intro conjI allI impI)
    fix a d d' assume ok: "dd_ok d" and r: "nextReq cf a d = Inr d'"
    have "queue_addr a d" using ok by (simp add: dd_ok_def)
    from nextReq_calls [OF this, of "Suc (q_size a (dd_queue d))" cf ?f] r
    have "next_calls cf ?f (Suc (q_size a (dd_queue d))) a d = Inr d'" by simp
    with calls ok show "dd_step d d'" unfolding next_ok_def by blast
  qed (rule nextReq_last)
qed

subsection \<open>Messages\<close>

text \<open>What holds after a message: the invariant, and the rights that were sent are recorded.\<close>

definition dd_emit :: "dd_state \<Rightarrow> dd_state \<Rightarrow> bool" where
  "dd_emit d d' \<longleftrightarrow> dd_ok d' \<and> (\<exists>ms. dd_out d' = dd_out d @ ms \<and> (\<forall>x \<in> set ms. grant_ok (dd_look d') x))"

lemma emit_step: "dd_out d1 = dd_out d \<Longrightarrow> dd_step d1 d' \<Longrightarrow> dd_emit d d'"
  by (simp add: dd_step_def dd_emit_def)

lemma step_emit: "dd_step d d' \<Longrightarrow> dd_emit d d'"
  by (rule emit_step) simp_all

lemma advanceFront_step:
  assumes ok: "dd_ok d" and r: "advanceFront a now d = Inr (req, d')"
  shows "dd_step d d'" and "rq_address req = a" and "a \<noteq> INVALID_ADDRESS" and "dd_cache d' = dd_cache d" and "dd_out d' = dd_out d"
proof -
  let ?d = "d\<lparr>dd_queue := q_modify_front a (rq_updateTime now) (dd_queue d)\<rparr>"
  have addr: "rq_address (rq_updateTime now x) = rq_address x" for x by (simp add: rq_updateTime_def)
  have st: "dd_step d ?d" by (rule modify_front_step [OF ok addr])
  from r have f: "q_front a (dd_queue ?d) = Inr req" and d': "d' = ?d\<lparr>dd_time := updateElapsedTime (rq_time req) (dd_time d)\<rparr>"
    by (auto simp: advanceFront_def Let_def bindE_Inr_iff)
  have "dd_quiet ?d d'" by (simp add: dd_quiet_def d')
  from quiet_step [OF this dd_step_ok [OF st]] st show "dd_step d d'" using dd_step_trans by blast
  from f have "req \<in> set (dd_queue ?d a)" unfolding q_front_def by (cases "dd_queue ?d a") auto
  moreover from this have "dd_queue ?d a \<noteq> []" by (metis list.set_cases list.discI)
  ultimately show "rq_address req = a" "a \<noteq> INVALID_ADDRESS"
    using dd_step_ok [OF st] unfolding dd_ok_def queue_addr_def by blast+
  show "dd_cache d' = dd_cache d" "dd_out d' = dd_out d" by (simp_all add: d')
qed

lemma handler_okD: "handler_ok h \<Longrightarrow> h req d = Inr d' \<Longrightarrow> dd_ok d \<Longrightarrow> rq_address req \<noteq> INVALID_ADDRESS \<Longrightarrow> dd_step d d'"
  by (simp add: handler_ok_def)

lemmas next_handlers = requests_ok [OF nextReq_ok] nullify_ok [OF nextReq_ok]

lemmas handler_steps = next_handlers [THEN handler_okD]

text \<open>A sharer that leaves.\<close>

lemma removed_ok:
  assumes e: "entry_ok e" and sh: "x \<in> set (sharers e)" and e': "set (sharers e') = set (sharers e) - {x}"
    and st: "de_state e' = (if getNumSharers e' = 0 then D_UNCACHED else de_state e)" and s: "getNumSharers e' = 0 \<or> de_state e' = D_SHARED \<or> de_state e' = D_EXCLUSIVE"
    and own: "de_owner e' = de_owner e \<or> de_state e = D_SHARED \<or> getNumSharers e' = 0"
  shows "entry_ok e'"
proof (cases "sharers e' = []")
  case True
  with st show ?thesis by (simp add: entry_ok_def getNumSharers_length)
next
  case False
  then have "de_state e' = de_state e" using st by (simp add: getNumSharers_length)
  moreover have "de_state e \<noteq> D_EXCLUSIVE"
  proof
    assume "de_state e = D_EXCLUSIVE"
    with e have "sharers e = [de_owner e]" by (simp add: entry_ok_def)
    with sh e' have "set (sharers e') = {}" by auto
    with False show False by simp
  qed
  ultimately have "de_state e' = D_SHARED" using s False by (auto simp: getNumSharers_length)
  with False show ?thesis by (simp add: entry_ok_def)
qed

text \<open>The request that waits for the reply goes on.\<close>

definition invRepWake :: "dd_conf \<Rightarrow> core_id \<Rightarrow> dir_ptr \<Rightarrow> dir_entry \<Rightarrow> shmem_req \<Rightarrow> dd_state \<Rightarrow> dd_state res" where
  "invRepWake cf sender p e req d =
     (let woken = updateShmemPerf (rq_perf req) R_INV_IMBALANCE d in
         if rq_type req = EX_REQ then
           (if de_state e = D_UNCACHED then processExReqFromL2Cache cf (nextReq cf) None req woken else Inr d)
         else if rq_type req = UPGRADE_REQ then
           (if getNumSharers e = 1 then
              bindE (hasSharer (rq_requester req) e) (\<lambda>has_sharer.
              if has_sharer then processUpgradeReqFromL2Cache cf (nextReq cf) None req woken else Inr d)
            else if getNumSharers e = 0 then
              processUpgradeReqFromL2Cache cf (nextReq cf) None req
                (updateShmemPerf (rq_perf req) R_INV_IMBALANCE (storeEntry p (e\<lparr>de_state := D_UNCACHED\<rparr>) d))
            else Inr d)
         else if rq_type req = SH_REQ then
           (if rq_wait req then Inr d
            else if isForwarding req \<and> sender \<noteq> rq_forwarding req then Inr d
            else processShReqFromL2Cache cf (nextReq cf) None req woken)
         else
           (if de_state e = D_UNCACHED then processNullifyReq (nextReq cf) req woken else Inr d))"

lemma invRepWake_step:
  assumes ok: "dd_ok d" and e: "entry_at p e a d" and req: "rq_address req = a" and r: "invRepWake cf sender p e req d = Inr d'"
  shows "dd_step d d'"
proof -
  let ?w = "updateShmemPerf (rq_perf req) R_INV_IMBALANCE d"
    and ?u = "updateShmemPerf (rq_perf req) R_INV_IMBALANCE (storeEntry p (e\<lparr>de_state := D_UNCACHED\<rparr>) d)"
  have a: "rq_address req \<noteq> INVALID_ADDRESS" "de_address e = a" using e req by (simp_all add: entry_at_def)
  have w: "dd_step d ?w" by (rule perf_at [OF ok])
  have u: "dd_step d ?u" if "getNumSharers e = 0"
  proof -
    have "dd_step d (storeEntry p (e\<lparr>de_state := D_UNCACHED\<rparr>) d)"
      by (rule store_step [OF ok e]) (use that a(2) in \<open>simp_all add: getNumSharers_length entry_ok_def entry_le_def\<close>)
    then show ?thesis using perf_at dd_step_ok dd_step_trans by blast
  qed
  have woken: "dd_step d d'" if "handler_ok h" "h req ?w = Inr d'" for h
    using handler_okD [OF that dd_step_ok [OF w] a(1)] w dd_step_trans by blast
  have unc: "dd_step d d'" if "handler_ok h" "h req ?u = Inr d'" "getNumSharers e = 0" for h
    using handler_okD [OF that(1,2) dd_step_ok [OF u [OF that(3)]] a(1)] u [OF that(3)] dd_step_trans by blast
  note h = next_handlers [of cf]
  consider (ex) "rq_type req = EX_REQ" | (up) "rq_type req = UPGRADE_REQ" | (sh) "rq_type req = SH_REQ"
    | (other) "rq_type req \<noteq> EX_REQ" "rq_type req \<noteq> UPGRADE_REQ" "rq_type req \<noteq> SH_REQ" by blast
  then show ?thesis
  proof cases
    case up
    show ?thesis
    proof (cases "getNumSharers e = 0")
      case True
      with r up show ?thesis by (intro unc [OF h(3)]) (simp_all add: invRepWake_def Let_def)
    next
      case False
      with r up have "d' = d \<or> processUpgradeReqFromL2Cache cf (nextReq cf) None req ?w = Inr d'"
        by (auto simp: invRepWake_def Let_def bindE_Inr_iff split: if_splits)
      then show ?thesis using woken [OF h(3)] dd_step_refl [OF ok] by blast
    qed
  qed (use r dd_step_refl [OF ok] woken [OF h(1)] woken [OF h(2)] woken [OF h(4)] in
      \<open>auto simp: invRepWake_def Let_def split: if_splits\<close>)
qed

lemma invRep_emit:
  assumes ok: "dd_ok d" and a: "msg_address m \<noteq> INVALID_ADDRESS" and r: "processInvRepFromL2Cache cf sender m d = Inr d'"
  shows "dd_emit d d'"
proof -
  let ?a = "msg_address m"
  from r obtain p e d1 where k: "knownEntry ?a d = Inr (p, e, d1)"
    unfolding processInvRepFromL2Cache_def Let_def by (elim bindE_InrE) auto
  from r k obtain e1 where s: "de_state e = D_SHARED \<or> de_state e = D_EXCLUSIVE" and rm: "removeSharer sender False e = Inr e1"
    by (auto simp: processInvRepFromL2Cache_def Let_def bindE_Inr_iff)
  note known = knownEntry_at [OF ok a k] and rem = removeSharer_Inr [OF rm]
  note ok1 = dd_step_ok [OF known(1)]
  define e2 where "e2 = (if de_forwarder e1 = sender then e1\<lparr>de_forwarder := INVALID_CORE_ID\<rparr> else e1)"
  define e3 where "e3 = (if getNumSharers e2 = 0 then e2\<lparr>de_state := D_UNCACHED\<rparr> else e2)"
  define d2 where "d2 = storeEntry p e3 d1"
  have f: "sharers e3 = sharers e1" "de_address e3 = ?a" "de_owner e3 = de_owner e"
      "de_state e3 = (if getNumSharers e3 = 0 then D_UNCACHED else de_state e)"
    using rem known(2) by (simp_all add: e3_def e2_def entry_at_def getNumSharers_length)
  have ok3: "entry_ok e3"
    by (rule removed_ok [OF entry_at_ok [OF ok1 known(2)] rem(1)]) (use f rem s in \<open>auto simp: getNumSharers_length\<close>)
  note st = store_ok [OF ok1 known(2) f(2) ok3, folded d2_def]
  have out: "dd_out d2 = dd_out d" using knownEntry_out [OF k] by (simp add: d2_def)
  have rest: "(if q_size ?a (dd_queue d2) > 0 then
      bindE (advanceFront ?a (dd_time d2) d2) (\<lambda>(req, d). invRepWake cf sender p e3 req d) else Inr d2) = Inr d'"
    using r k s rm unfolding processInvRepFromL2Cache_def Let_def e3_def e2_def d2_def invRepWake_def by simp
  have "dd_step d2 d'"
  proof (cases "q_size ?a (dd_queue d2) > 0")
    case False
    with rest st(1) show ?thesis by (simp add: dd_step_refl)
  next
    case True
    with rest obtain req d3 where ad: "advanceFront ?a (dd_time d2) d2 = Inr (req, d3)" and wk: "invRepWake cf sender p e3 req d3 = Inr d'"
      by (auto simp: bindE_Inr_iff)
    note adv = advanceFront_step [OF st(1) ad]
    have "entry_at p e3 ?a d3" using st(3) adv(4) by (simp add: entry_at_def)
    from invRepWake_step [OF dd_step_ok [OF adv(1)] this adv(2) wk] adv(1) show ?thesis using dd_step_trans by blast
  qed
  with out show ?thesis by (rule emit_step)
qed

text \<open>A cache that gives its copy up.\<close>

definition flushRepWake ::
  "dd_conf \<Rightarrow> shmem_msg \<Rightarrow> dir_ptr \<Rightarrow> dir_entry \<Rightarrow> shmem_req \<Rightarrow> dd_state \<Rightarrow> dd_state res" where
  "flushRepWake cf m p e req d =
     (let address = msg_address m in
          if rq_type req = EX_REQ then processExReqFromL2Cache cf (nextReq cf) (msg_data m) req d
          else if rq_type req = SH_REQ then
            bindE (sendDataToDram cf address (msg_requester m) (msg_data m) d)
              (processShReqFromL2Cache cf (nextReq cf) (msg_data m) req)
          else if rq_type req = UPGRADE_REQ then
            (if getNumSharers e = 0 then
               processUpgradeReqFromL2Cache cf (nextReq cf) (msg_data m) req (storeEntry p (e\<lparr>de_state := D_UNCACHED\<rparr>) d)
             else Inr (d\<lparr>dd_queue := q_modify_front address
                    (\<lambda>r. r\<lparr>rq_data := map_option (\<lambda>_. cf_freed_buf cf) (msg_data m)\<rparr>) (dd_queue d)\<rparr>))
          else
            bindE (sendDataToDram cf address (msg_requester m) (msg_data m) d) (processNullifyReq (nextReq cf) req))"

lemma flushRepWake_step:
  assumes ok: "dd_ok d" and e: "entry_at p e a d" and req: "rq_address req = a" and r: "flushRepWake cf m p e req d = Inr d'"
  shows "dd_step d d'"
proof -
  let ?u = "storeEntry p (e\<lparr>de_state := D_UNCACHED\<rparr>) d"
    and ?f = "d\<lparr>dd_queue := q_modify_front (msg_address m) (\<lambda>r. r\<lparr>rq_data := map_option (\<lambda>_. cf_freed_buf cf) (msg_data m)\<rparr>) (dd_queue d)\<rparr>"
  have a: "rq_address req \<noteq> INVALID_ADDRESS" "de_address e = a" using e req by (simp_all add: entry_at_def)
  have u: "dd_step d ?u" if "getNumSharers e = 0"
    by (rule store_step [OF ok e]) (use that a(2) in \<open>simp_all add: getNumSharers_length entry_ok_def entry_le_def\<close>)
  have fwd: "dd_step d ?f" by (rule modify_front_step [OF ok]) simp
  have dram: "dd_step d d1" if "sendDataToDram cf (msg_address m) (msg_requester m) (msg_data m) d = Inr d1" for d1
    by (rule quiet_step [OF quiet_sendDataToDram [OF that] ok])
  have go: "dd_step d d'" if "handler_ok h" "h req d1 = Inr d'" "dd_step d d1" for h d1
    using handler_okD [OF that(1,2) dd_step_ok [OF that(3)] a(1)] that(3) dd_step_trans by blast
  note h = next_handlers [of cf]
  consider (ex) "rq_type req = EX_REQ" | (up) "rq_type req = UPGRADE_REQ" | (sh) "rq_type req = SH_REQ"
    | (other) "rq_type req \<noteq> EX_REQ" "rq_type req \<noteq> UPGRADE_REQ" "rq_type req \<noteq> SH_REQ" by blast
  then show ?thesis
  proof cases
    case ex
    with r have "processExReqFromL2Cache cf (nextReq cf) (msg_data m) req d = Inr d'" by (simp add: flushRepWake_def Let_def)
    then show ?thesis by (rule go [OF h(1) _ dd_step_refl [OF ok]])
  next
    case up
    with r have "getNumSharers e = 0 \<and> processUpgradeReqFromL2Cache cf (nextReq cf) (msg_data m) req ?u = Inr d' \<or> d' = ?f"
      by (simp add: flushRepWake_def Let_def split: if_splits)
    then show ?thesis using go [OF h(3) _ u] fwd by blast
  next
    case sh
    with r obtain d1 where "sendDataToDram cf (msg_address m) (msg_requester m) (msg_data m) d = Inr d1"
      "processShReqFromL2Cache cf (nextReq cf) (msg_data m) req d1 = Inr d'" by (auto simp: flushRepWake_def Let_def bindE_Inr_iff)
    then show ?thesis using go [OF h(2)] dram by blast
  next
    case other
    with r obtain d1 where "sendDataToDram cf (msg_address m) (msg_requester m) (msg_data m) d = Inr d1"
      "processNullifyReq (nextReq cf) req d1 = Inr d'" by (auto simp: flushRepWake_def Let_def bindE_Inr_iff)
    then show ?thesis using go [OF h(4)] dram by blast
  qed
qed

lemma wake_time:
  assumes "dd_ok d"
  shows "dd_step d (updateShmemPerf perf R_TD_ACCESS (d\<lparr>dd_perf := ps\<rparr>))"
proof -
  have "dd_quiet d (d\<lparr>dd_perf := ps\<rparr>)" by (simp add: dd_quiet_def)
  from quiet_step [OF dd_quiet_trans [OF this quiet_perf] assms] show ?thesis .
qed

lemma flushRep_emit:
  assumes ok: "dd_ok d" and a: "msg_address m \<noteq> INVALID_ADDRESS" and r: "processFlushRepFromL2Cache cf sender m d = Inr d'"
  shows "dd_emit d d'"
proof -
  let ?a = "msg_address m"
  from r obtain p e d1 where k: "knownEntry ?a d = Inr (p, e, d1)"
    unfolding processFlushRepFromL2Cache_def Let_def by (elim bindE_InrE) auto
  from r k obtain e1 e2 where rm: "removeSharer sender False e = Inr e1"
    and own: "setOwner INVALID_CORE_ID (e1\<lparr>de_forwarder := INVALID_CORE_ID\<rparr>) = Inr e2" and hs: "hasSharer sender e = Inr True"
    and s: "getNumSharers e2 = 0 \<or> de_state e2 = D_SHARED"
    by (auto simp: processFlushRepFromL2Cache_def Let_def bindE_Inr_iff)
  note known = knownEntry_at [OF ok a k] and rem = removeSharer_Inr [OF rm]
  note ok1 = dd_step_ok [OF known(1)]
  have e2: "e2 = e1\<lparr>de_forwarder := INVALID_CORE_ID, de_owner := INVALID_CORE_ID\<rparr>" using setOwner_Inr [OF own] by simp
  define e3 where "e3 = (if getNumSharers e2 = 0 then e2\<lparr>de_state := D_UNCACHED\<rparr> else e2)"
  define d2 where "d2 = storeEntry p e3 d1"
  have f: "sharers e3 = sharers e1" "de_address e3 = ?a"
      "de_state e3 = (if getNumSharers e3 = 0 then D_UNCACHED else de_state e)"
    using rem known(2) by (simp_all add: e3_def e2 entry_at_def getNumSharers_length)
  have s3: "getNumSharers e3 = 0 \<or> de_state e3 = D_SHARED" using s by (auto simp: e3_def getNumSharers_length)
  have ok3: "entry_ok e3"
    by (rule removed_ok [OF entry_at_ok [OF ok1 known(2)] rem(1) _ f(3)]) (use f rem s3 in \<open>auto split: if_splits\<close>)
  note st = store_ok [OF ok1 known(2) f(2) ok3, folded d2_def]
  have out: "dd_out d2 = dd_out d" using knownEntry_out [OF k] by (simp add: d2_def)
  have rest: "(if q_size ?a (dd_queue d2) \<noteq> 0 then
      bindE (advanceFront ?a (dd_time d) d2) (\<lambda>(req, d0). flushRepWake cf m p e3 req
        (updateShmemPerf (rq_perf req) R_TD_ACCESS (d0\<lparr>dd_perf := updateTime (rq_perf req) (dd_time d) R_UNKNOWN (dd_perf d0)\<rparr>)))
      else sendDataToDram cf ?a (msg_requester m) (msg_data m) d2) = Inr d'"
    using r k s rm hs own unfolding processFlushRepFromL2Cache_def Let_def e3_def d2_def flushRepWake_def by simp
  have "dd_step d2 d'"
  proof (cases "q_size ?a (dd_queue d2) = 0")
    case True
    with rest have "sendDataToDram cf ?a (msg_requester m) (msg_data m) d2 = Inr d'" by simp
    from quiet_step [OF quiet_sendDataToDram [OF this] st(1)] show ?thesis .
  next
    case False
    with rest obtain req d3 where ad: "advanceFront ?a (dd_time d) d2 = Inr (req, d3)"
      and wk: "flushRepWake cf m p e3 req (updateShmemPerf (rq_perf req) R_TD_ACCESS
          (d3\<lparr>dd_perf := updateTime (rq_perf req) (dd_time d) R_UNKNOWN (dd_perf d3)\<rparr>)) = Inr d'"
      by (auto simp: bindE_Inr_iff)
    note adv = advanceFront_step [OF st(1) ad]
    have w: "dd_step d3 (updateShmemPerf (rq_perf req) R_TD_ACCESS
        (d3\<lparr>dd_perf := updateTime (rq_perf req) (dd_time d) R_UNKNOWN (dd_perf d3)\<rparr>))" by (rule wake_time [OF dd_step_ok [OF adv(1)]])
    have "entry_at p e3 ?a d3" using st(3) adv(4) by (simp add: entry_at_def)
    then have "dd_step d3 d'" using flushRepWake_step [OF dd_step_ok [OF w] _ adv(2) wk] w dd_step_trans by simp
    with adv(1) show ?thesis by (rule dd_step_trans)
  qed
  with out show ?thesis by (rule emit_step)
qed

text \<open>An owner that gives write permission up.\<close>

lemma wbRep_emit:
  assumes ok: "dd_ok d" and a: "msg_address m \<noteq> INVALID_ADDRESS" and r: "processWbRepFromL2Cache cf sender m d = Inr d'"
  shows "dd_emit d d'"
proof -
  let ?a = "msg_address m"
  from r obtain p e d1 where k: "knownEntry ?a d = Inr (p, e, d1)"
    unfolding processWbRepFromL2Cache_def Let_def by (elim bindE_InrE) auto
  from r k obtain e2 where own: "setOwner INVALID_CORE_ID e = Inr e2" and hs: "hasSharer sender e = Inr True"
    by (auto simp: processWbRepFromL2Cache_def Let_def bindE_Inr_iff)
  note known = knownEntry_at [OF ok a k]
  note ok1 = dd_step_ok [OF known(1)]
  let ?e = "e2\<lparr>de_state := D_SHARED\<rparr>"
  have e2: "e2 = e\<lparr>de_owner := INVALID_CORE_ID\<rparr>" using setOwner_Inr [OF own] by simp
  have "sharers e \<noteq> []" using hasSharer_Inr [OF hs] by auto
  then have f: "de_address ?e = ?a" "entry_ok ?e" using known(2) by (simp_all add: e2 entry_at_def entry_ok_def)
  define d2 where "d2 = storeEntry p ?e d1"
  note st = store_ok [OF ok1 known(2) f, folded d2_def]
  have out: "dd_out d2 = dd_out d" using knownEntry_out [OF k] by (simp add: d2_def)
  from r k own hs obtain req d3 where ad: "advanceFront ?a (dd_time d) d2 = Inr (req, d3)"
    and h: "processShReqFromL2Cache cf (nextReq cf) (msg_data m) req (updateShmemPerf (rq_perf req) R_TD_ACCESS
          (d3\<lparr>dd_perf := updateTime (rq_perf req) (dd_time d) R_UNKNOWN (dd_perf d3)\<rparr>)) = Inr d'"
    by (auto simp: processWbRepFromL2Cache_def Let_def bindE_Inr_iff d2_def split: if_splits)
  note adv = advanceFront_step [OF st(1) ad]
  have w: "dd_step d3 (updateShmemPerf (rq_perf req) R_TD_ACCESS
      (d3\<lparr>dd_perf := updateTime (rq_perf req) (dd_time d) R_UNKNOWN (dd_perf d3)\<rparr>))" by (rule wake_time [OF dd_step_ok [OF adv(1)]])
  have "rq_address req \<noteq> INVALID_ADDRESS" using adv(2,3) by simp
  from handler_okD [OF next_handlers(2) h dd_step_ok [OF w] this] w have "dd_step d3 d'" using dd_step_trans by blast
  with adv(1) have "dd_step d2 d'" by (rule dd_step_trans)
  with out show ?thesis by (rule emit_step)
qed

text \<open>A new request.\<close>

lemma enqueueReq_step:
  assumes ok: "dd_ok d" and a: "msg_address m \<noteq> INVALID_ADDRESS" and h: "handler_ok h" and r: "enqueueReq cf h m t d = Inr d'"
  shows "dd_step d d'"
proof -
  from r obtain req where rq: "ShmemReq m t = Inr req" unfolding enqueueReq_def by (elim bindE_InrE) auto
  let ?d = "d\<lparr>dd_queue := q_enqueue (msg_address m) req (dd_queue d)\<rparr>"
  have addr: "rq_address req = msg_address m" using rq by (auto simp: ShmemReq_def split: if_splits)
  have ok1: "dd_ok ?d" using ok a addr unfolding dd_ok_def dd_look_def queue_addr_def
    by (auto simp: q_enqueue_def split: if_splits)
  have st: "dd_step d ?d" using ok1 by (simp add: dd_step_def dd_look_def)
  from r rq have "d' = ?d \<or> h req ?d = Inr d'" by (auto simp: enqueueReq_def Let_def split: if_splits)
  with handler_okD [OF h _ ok1] addr a st show ?thesis using dd_step_trans by auto
qed

lemma l2_message_emit:
  assumes ok: "dd_ok d" and a: "msg_address m \<noteq> INVALID_ADDRESS" and r: "handleMsgFromL2Cache cf sender m d = Inr d'"
  shows "dd_emit d d'"
proof -
  from r obtain p t dc where g: "dc_getEntry_modeled (msg_address m) (dd_time d) (dd_cache d) = Inr (p, t, dc)"
    unfolding handleMsgFromL2Cache_def Let_def by (elim bindE_InrE) auto
  then obtain l where "dc_getEntry (msg_address m) (dd_cache d) = Inr ((p, l), dc)"
    by (auto simp: dc_getEntry_modeled_def bindE_Inr_iff)
  then have f: "findEntry (msg_address m) d = Inr (p, d\<lparr>dd_cache := dc\<rparr>)" by (simp add: findEntry_def)
  define d1 where "d1 = updateShmemPerf (msg_perf m) R_TD_ACCESS (d\<lparr>dd_time := t, dd_cache := dc\<rparr>)"
  have "dd_quiet (d\<lparr>dd_cache := dc\<rparr>) d1" by (simp add: d1_def dd_quiet_def)
  from quiet_step [OF this findEntry_found(1) [OF ok a f]] findEntry_step [OF ok a f]
  have st: "dd_step d d1" using dd_step_trans by blast
  note ok1 = dd_step_ok [OF st] and h = next_handlers [of cf]
  have out: "dd_out d1 = dd_out d" by (simp add: d1_def)
  from r g have "enqueueReq cf (processExReqFromL2Cache cf (nextReq cf) None) m (dd_time d) d1 = Inr d' \<or>
      enqueueReq cf (processShReqFromL2Cache cf (nextReq cf) None) m (dd_time d) d1 = Inr d' \<or>
      enqueueReq cf (processUpgradeReqFromL2Cache cf (nextReq cf) None) m (dd_time d) d1 = Inr d' \<or>
      processInvRepFromL2Cache cf sender m d1 = Inr d' \<or> processFlushRepFromL2Cache cf sender m d1 = Inr d' \<or>
      processWbRepFromL2Cache cf sender m d1 = Inr d'"
    by (simp add: handleMsgFromL2Cache_def Let_def d1_def split: if_splits)
  then have "dd_emit d1 d'"
    by (elim disjE)
       ((rule step_emit, erule enqueueReq_step [OF ok1 a, rotated], rule h)+,
        erule invRep_emit [OF ok1 a], erule flushRep_emit [OF ok1 a], erule wbRep_emit [OF ok1 a])
  with out show ?thesis by (simp add: dd_emit_def)
qed

text \<open>Data from DRAM.\<close>

lemma dram_message_ok:
  assumes ok: "dd_ok d" and r: "handleMsgFromDRAM cf sender m d = Inr d'"
  shows "dd_ok d'"
proof -
  let ?a = "msg_address m"
  from r have r': "processDRAMReply cf sender m d = Inr d'" by (simp add: handleMsgFromDRAM_def split: if_splits)
  then have q: "q_size ?a (dd_queue d) \<ge> 1" by (simp add: processDRAMReply_def Let_def assertE_def split: if_splits)
  then have "dd_queue d ?a \<noteq> []" by (auto simp: q_size_def)
  then have a: "?a \<noteq> INVALID_ADDRESS" using ok by (auto simp: dd_ok_def)
  from r' q obtain req where fr: "frontReq ?a d = Inr req" by (auto simp: processDRAMReply_def Let_def bindE_Inr_iff)
  let ?d = "updateShmemPerf (rq_perf req) R_UNKNOWN d"
  from r' q fr obtain p e d1 where k: "knownEntry ?a ?d = Inr (p, e, d1)"
    unfolding processDRAMReply_def Let_def by simp (elim bindE_InrE, auto)
  let ?d1 = "updateShmemPerf (rq_perf req) R_TD_ACCESS d1"
  from r' q fr k obtain ty w d2 d3 where
    s: "sendMsg ty L2_CACHE (rq_requester req) (rq_requester req) ?a (msg_data m) (cf_block_size cf) w (rq_perf req) ?d1 = Inr d2"
    and nuca: "sendDataToNUCA cf ?a (msg_data m) d2 = Inr d3" and n: "nextReq cf ?a d3 = Inr d'"
    unfolding processDRAMReply_def Let_def by (auto simp: bindE_Inr_iff)
  have ok1: "dd_ok ?d1"
    using knownEntry_at(1) [OF dd_step_ok [OF perf_at [OF ok]] a k] perf_at dd_step_ok by blast
  have "dd_ok d2" using ok1 dd_ok_cong [OF sendMsg_Inr(1,2) [OF s]] by blast
  then have "dd_ok d3" using quiet_step [OF quiet_sendDataToNUCA [OF nuca]] dd_step_ok by blast
  with n nextReq_ok [of cf] show ?thesis unfolding next_ok_def by (blast intro: dd_step_ok)
qed

end
