(* ===== verification/Directory_Map.thy ===== *)
theory Directory_Map
  imports Directory_Store_Props
begin

text \<open>
  The interface the directory controller relies on: a directory that finds or makes the entry of an
  address, or has no room for one. The contract is a locale; the directory cache provides it.
\<close>

locale entry_map =
  fixes wf :: "'s \<Rightarrow> bool"
    and look :: "'s \<Rightarrow> 'a \<Rightarrow> 'e option"
    and valid :: "'a \<Rightarrow> bool"
    and at :: "'p \<Rightarrow> 's \<Rightarrow> 'e option"
    and find :: "'a \<Rightarrow> 's \<Rightarrow> ('p option \<times> 's) res"
  assumes find_total: "wf s \<Longrightarrow> valid a \<Longrightarrow> \<exists>q s'. find a s = Inr (q, s')"
    and find_wf: "wf s \<Longrightarrow> valid a \<Longrightarrow> find a s = Inr (q, s') \<Longrightarrow> wf s'"
    and find_some: "wf s \<Longrightarrow> valid a \<Longrightarrow> find a s = Inr (Some p, s') \<Longrightarrow>
        \<exists>e. at p s' = Some e \<and> look s' = (look s)(a := Some e) \<and> (look s a = None \<or> look s a = Some e)"
    and find_none: "wf s \<Longrightarrow> valid a \<Longrightarrow> find a s = Inr (None, s') \<Longrightarrow> look s a = None \<and> look s' = look s"
begin

lemma find_keeps: "wf s \<Longrightarrow> valid a \<Longrightarrow> find a s = Inr (p, s') \<Longrightarrow> look s b = Some e \<Longrightarrow> look s' b = Some e"
  using find_some [of s a _ s'] find_none [of s a s'] by (cases p) fastforce+

lemma find_present: "wf s \<Longrightarrow> valid a \<Longrightarrow> find a s = Inr (p, s') \<Longrightarrow> look s a = Some e \<Longrightarrow> \<exists>q. p = Some q \<and> at q s' = Some e \<and> look s' = look s"
  using find_some [of s a _ s'] find_none [of s a s'] by (cases p) (auto simp: fun_upd_idem)

text \<open>Looking again finds the same entry, whatever was looked for in between.\<close>

lemma find_again:
  assumes "wf s" and "valid a" and "valid b" and "find a s = Inr (Some p, s1)" and "find b s1 = Inr (q, s2)"
    and "find a s2 = Inr (r, s3)"
  shows "\<exists>p' e. r = Some p' \<and> at p s1 = Some e \<and> at p' s3 = Some e \<and> look s3 = look s2"
proof -
  have wf1: "wf s1" using find_wf [OF assms(1,2,4)] .
  have wf2: "wf s2" using find_wf [OF wf1 assms(3,5)] .
  from find_some [OF assms(1,2,4)] obtain e where e: "at p s1 = Some e" "look s1 a = Some e" by auto
  have "look s2 a = Some e" using find_keeps [OF wf1 assms(3,5) e(2)] .
  from find_present [OF wf2 assms(2,6) this] e(1) show ?thesis by auto
qed

end

definition dc_find :: "addr \<Rightarrow> dir_cache \<Rightarrow> (dir_ptr option \<times> dir_cache) res" where
  "dc_find a dc = bindE (dc_getEntry a dc) (\<lambda>((p, _), dc). Inr (p, dc))"

lemma dc_find_Inr: "dc_find a dc = Inr (p, dc') \<longleftrightarrow> (\<exists>l. dc_getEntry a dc = Inr ((p, l), dc'))"
  by (auto simp: dc_find_def bindE_Inr_iff)

lemma dc_find_found: "dc_wf dc \<Longrightarrow> a \<noteq> INVALID_ADDRESS \<Longrightarrow> dc_find a dc = Inr (p, dc') \<Longrightarrow> dc_found a dc p dc'"
  using dc_getEntry_spec [of dc a] by (auto simp: dc_find_Inr)

lemma dc_found_some: "dc_found a dc (Some p) dc' \<Longrightarrow>
    \<exists>e. dc_entry p dc' = Some e \<and> dc_look dc' = (dc_look dc)(a := Some e) \<and> (dc_look dc a = None \<or> dc_look dc a = Some e)"
  by (cases "dc_look dc a") (auto simp: dc_found_def)

interpretation dmap: entry_map dc_wf dc_look "\<lambda>a. a \<noteq> INVALID_ADDRESS" dc_entry dc_find
proof
  fix dc :: dir_cache and a assume wf: "dc_wf dc" and a: "a \<noteq> INVALID_ADDRESS"
  show "\<exists>p dc'. dc_find a dc = Inr (p, dc')" using dc_getEntry_spec [OF wf a] by (auto simp: dc_find_Inr)
  fix p dc' assume "dc_find a dc = Inr (p, dc')"
  from dc_find_found [OF wf a this] show "dc_wf dc'" by (simp add: dc_found_def)
next
  fix dc :: dir_cache and a p dc' assume "dc_wf dc" "a \<noteq> INVALID_ADDRESS" "dc_find a dc = Inr (Some p, dc')"
  from dc_found_some [OF dc_find_found [OF this]]
  show "\<exists>e. dc_entry p dc' = Some e \<and> dc_look dc' = (dc_look dc)(a := Some e) \<and> (dc_look dc a = None \<or> dc_look dc a = Some e)" .
next
  fix dc :: dir_cache and a dc' assume "dc_wf dc" "a \<noteq> INVALID_ADDRESS" "dc_find a dc = Inr (None, dc')"
  from dc_find_found [OF this] show "dc_look dc a = None \<and> dc_look dc' = dc_look dc" by (simp add: dc_found_def)
qed

text \<open>The same for the lookup with its latency.\<close>

lemma getEntry_again:
  assumes "dc_wf dc" and "a \<noteq> INVALID_ADDRESS" and "b \<noteq> INVALID_ADDRESS"
    and "dc_getEntry a dc = Inr ((Some p, l), dc1)" and "dc_getEntry b dc1 = Inr ((q, l1), dc2)"
    and "dc_getEntry a dc2 = Inr ((r, l2), dc3)"
  shows "\<exists>p' e. r = Some p' \<and> dc_entry p dc1 = Some e \<and> dc_entry p' dc3 = Some e \<and> dc_look dc3 = dc_look dc2"
proof -
  have "dc_find a dc = Inr (Some p, dc1)" "dc_find b dc1 = Inr (q, dc2)" "dc_find a dc2 = Inr (r, dc3)"
    using assms(4-6) by (auto simp: dc_find_Inr)
  from dmap.find_again [OF assms(1-3) this] show ?thesis .
qed

subsection \<open>Replacement\<close>

text \<open>From the candidates to the end of a replacement: the new line has a fresh entry in the slot of the
  candidate, the old entry is found until it is invalidated.\<close>

lemma replacement_cycle:
  assumes wf: "dc_wf dc" and a: "a \<noteq> INVALID_ADDRESS" and g: "getReplacementCandidates a dc = Inr (ps, dc1)"
    and p: "p \<in> set ps" and c: "dc_entry p dc1 = Some c"
  shows "\<exists>dc2 dc3. replaceDirectoryEntry (de_address c) a dc1 = Inr (p, dc2) \<and> dc_wf dc2 \<and>
    dc_entry p dc2 = Some (fresh_at dc1 a) \<and> dc_look dc2 = (dc_look dc)(a := Some (fresh_at dc1 a)) \<and>
    dc_look dc (de_address c) = Some c \<and>
    invalidateDirectoryEntry (de_address c) dc2 = Inr dc3 \<and> dc_wf dc3 \<and> dc_look dc3 = (dc_look dc2)(de_address c := None)"
proof -
  from dc_getEntry_spec [OF wf a] obtain q l dc0 where ge: "dc_getEntry a dc = Inr ((q, l), dc0)" and fd: "dc_found a dc q dc0" by blast
  from g ge have q: "q = None" by (auto simp: getReplacementCandidates_def bindE_Inr_iff)
  with fd have none: "dc_look dc a = None" and gr0: "dc_grows dc dc0"
    and f0: "\<forall>k \<in> set (dc_slots a dc). de_address (slot_entry dc0 k) \<noteq> INVALID_ADDRESS" by (auto simp: dc_found_def)
  have "dc_same dc dc0" using gr0 by (simp add: dc_grows_def)
  note v0 = dc_sameD [OF this]
  have full: "\<forall>k \<in> set (dc_slots a dc). de_address (slot_entry dc k) \<noteq> INVALID_ADDRESS" using f0 by (simp add: v0)
  from getReplacementCandidates_spec [OF wf a none full] g have ps: "ps = map Slot (dc_slots a dc)" and gr: "dc_grows dc dc1" by auto
  note wf1 = dc_grows_wf [OF gr wf]
  have "dc_same dc dc1" using gr by (simp add: dc_grows_def)
  note v = dc_sameD [OF this]
  from p ps obtain k where k: "p = Slot k" "k \<in> set (dc_slots a dc1)" by (auto simp: v)
  from dc_entry_slot [OF c [unfolded k(1)]] have ck: "k < dc_size dc1" "slot_entry dc1 k = c" by auto
  have full1: "\<forall>k \<in> set (dc_slots a dc1). de_address (slot_entry dc1 k) \<noteq> INVALID_ADDRESS" using full by (simp add: v)
  have an: "dc_look dc1 a = None" using none wf1 by simp
  have cn: "de_address c \<noteq> INVALID_ADDRESS" using full1 k(2) ck(2) by auto
  have ca: "de_address (slot_entry dc1 k) = de_address c" by (simp add: ck)
  from replaceDirectoryEntry_spec [OF conjunct1 [OF wf1] a an full1 k(2) ca] obtain dc2 where
    r: "replaceDirectoryEntry (de_address c) a dc1 = Inr (p, dc2)" "dc_wf dc2" "dc_look dc2 = (dc_look dc1)(a := Some (fresh_at dc1 a))"
      "dc_entry p dc2 = Some (fresh_at dc1 a)" "dc_replaced dc2 = dc_replaced dc1 @ [c]" unfolding k(1) ck(2) by blast
  have "dc_look dc1 (de_address c) = Some c" using dc_look_slot(1) [OF conjunct1 [OF wf1] ck(1) ca cn] ck(2) by simp
  moreover have "de_address c \<in> set (map de_address (dc_replaced dc2))" by (simp add: r(5))
  from invalidateDirectoryEntry_spec [OF r(2) this] obtain dc3 where "invalidateDirectoryEntry (de_address c) dc2 = Inr dc3"
    "dc_wf dc3" "dc_look dc3 = (dc_look dc2)(de_address c := None)" by blast
  ultimately show ?thesis using r wf1 by simp
qed

end
