(* ===== verification/Directory_Cntlr_Reach.thy ===== *)
theory Directory_Cntlr_Reach
  imports Directory_Cntlr_Inv Directory_Map
begin

text \<open>
  The tag directory as a state machine: it starts as its constructor leaves it, and every message of
  a cache or of a DRAM controller is a step. The simulation thread's clock is set to the arrival of a
  message before it is handled. All reachable states satisfy the invariant.
\<close>

subsection \<open>The initial state\<close>

lemma init_wf:
  assumes "DramDirectoryCache ty entries assoc bs hw num acc pen fwd = Inr dc" and "assoc \<le> entries"
  shows "dc_wf dc" and "dc_entry p dc = None"
proof -
  from assms(1) obtain t where dc: "dc = \<lparr>dc_directory = \<lparr>dir_type = t, dir_num_entries = unat entries, dir_allocated = 0,
      dir_max_hw_sharers = hw, dir_use_max_hw_sharers = hw, dir_max_num_sharers = num,
      dir_trap_penalty = (if t = LIMITLESS then TimeNS pen else 0), dir_forwarder_init = fwd,
      dir_entries = replicate (unat entries) None\<rparr>, dc_replaced = [], dc_associativity = unat assoc,
      dc_num_sets = entries div assoc, dc_log_block = nat (floorLog2 bs), dc_access_time = acc\<rparr>" and a0: "assoc \<noteq> 0"
    by (auto simp: DramDirectoryCache_def Directory_def bindE_Inr_iff split: if_splits)
  show none: "dc_entry p dc = None" for p
    by (cases p) (simp_all add: dc dc_entry.simps)
  have slot: "slot_entry dc k = fresh_entry dc" for k by (simp add: slot_entry_def none)
  have "unat (entries div assoc) * unat assoc \<le> unat entries" by (simp add: unat_div div_times_less_eq_dividend)
  moreover have "entries div assoc \<noteq> 0"
  proof
    assume "entries div assoc = 0"
    then have "unat entries div unat assoc = 0" by (metis unat_div unat_0)
    moreover have "unat assoc \<noteq> 0" using a0 by (simp add: unat_eq_zero)
    ultimately show False using assms(2) by (simp add: word_le_nat_alt div_eq_0_iff)
  qed
  ultimately show "dc_wf dc" unfolding dc_wf_def slot by (simp add: dc dc_size_def)
qed

lemma cntlr_init:
  assumes "DramDirectoryCntlr core nuca entries assoc bs num hw ty acc pen junk fwd = Inr d" and "assoc \<le> entries"
  shows "dd_ok d"
proof -
  from assms(1) obtain dc where dc: "DramDirectoryCache ty entries assoc bs hw num acc pen fwd = Inr dc" and
    d: "dd_cache d = dc" "dd_queue d = (\<lambda>_. [])"
    by (auto simp: DramDirectoryCntlr_def bindE_Inr_iff)
  note init = init_wf [OF dc assms(2)]
  have "dc_look dc a = None" for a
    using init(2) dc_look_entry [OF init(1), of a] by (cases "dc_look dc a") auto
  with init(1) show ?thesis by (simp add: dd_ok_def dd_look_def d queue_addr_def)
qed

subsection \<open>Steps\<close>

inductive dd_reach :: "dd_conf \<Rightarrow> dd_state \<Rightarrow> dd_state \<Rightarrow> bool" for cf d0 where
  start: "dd_reach cf d0 d0"
| l2_cache: "dd_reach cf d0 d \<Longrightarrow> msg_address m \<noteq> INVALID_ADDRESS \<Longrightarrow>
    handleMsgFromL2Cache cf sender m (d\<lparr>dd_time := t\<rparr>) = Inr d' \<Longrightarrow> dd_reach cf d0 d'"
| dram: "dd_reach cf d0 d \<Longrightarrow> handleMsgFromDRAM cf sender m (d\<lparr>dd_time := t\<rparr>) = Inr d' \<Longrightarrow> dd_reach cf d0 d'"

lemma dd_ok_time [simp]: "dd_ok (d\<lparr>dd_time := t\<rparr>) = dd_ok d"
  by (rule dd_ok_cong) simp_all

lemma reach_ok: "dd_reach cf d0 d \<Longrightarrow> dd_ok d0 \<Longrightarrow> dd_ok d"
proof (induction rule: dd_reach.induct)
  case (l2_cache d m sender t d')
  then show ?case using l2_message_emit [of "d\<lparr>dd_time := t\<rparr>" m cf sender d'] by (simp add: dd_emit_def)
next
  case (dram d sender m t d')
  then show ?case using dram_message_ok [of "d\<lparr>dd_time := t\<rparr>" cf sender m d'] by simp
qed

text \<open>A sequence of messages, each with the time it arrives.\<close>

datatype dd_event = From_L2 core_id shmem_msg time | From_DRAM core_id shmem_msg time

fun dd_handle :: "dd_conf \<Rightarrow> dd_event \<Rightarrow> dd_state \<Rightarrow> dd_state res" where
  "dd_handle cf (From_L2 sender m t) d = handleMsgFromL2Cache cf sender m (d\<lparr>dd_time := t\<rparr>)"
| "dd_handle cf (From_DRAM sender m t) d = handleMsgFromDRAM cf sender m (d\<lparr>dd_time := t\<rparr>)"

fun dd_valid :: "dd_event \<Rightarrow> bool" where
  "dd_valid (From_L2 sender m t) \<longleftrightarrow> msg_address m \<noteq> INVALID_ADDRESS"
| "dd_valid (From_DRAM sender m t) \<longleftrightarrow> True"

fun dd_run :: "dd_conf \<Rightarrow> dd_event list \<Rightarrow> dd_state \<Rightarrow> dd_state res" where
  "dd_run cf [] d = Inr d"
| "dd_run cf (ev # evs) d = bindE (dd_handle cf ev d) (dd_run cf evs)"

lemma dd_run_reach:
  "dd_run cf evs d = Inr d' \<Longrightarrow> list_all dd_valid evs \<Longrightarrow> dd_reach cf d0 d \<Longrightarrow> dd_reach cf d0 d'"
proof (induction evs arbitrary: d)
  case (Cons ev evs)
  then obtain d1 where d1: "dd_handle cf ev d = Inr d1" "dd_run cf evs d1 = Inr d'" by auto
  have "dd_reach cf d0 d1"
    using d1(1) Cons.prems(2,3) by (cases ev) (auto intro: dd_reach.intros)
  with Cons.IH [OF d1(2)] Cons.prems(2) show ?case by simp
qed simp

text \<open>Every entry in the directory, in a slot or replaced, is in the map.\<close>

lemma entry_in_map: "dd_ok d \<Longrightarrow> dc_entry p (dd_cache d) = Some e \<Longrightarrow> de_address e \<noteq> INVALID_ADDRESS \<Longrightarrow> entry_ok e"
  using entry_at_ok [of d p e "de_address e"] by (simp add: entry_at_def)

lemma entry_ok_states:
  assumes "entry_ok e"
  shows "(de_state e = D_UNCACHED \<longrightarrow> snd (getSharersList e) = []) \<and> (de_state e = D_SHARED \<longrightarrow> snd (getSharersList e) \<noteq> []) \<and>
    (de_state e = D_MODIFIED \<or> de_state e = D_EXCLUSIVE \<longrightarrow> snd (getSharersList e) = [de_owner e]) \<and> de_state e \<noteq> D_OWNED"
  using assms by (cases "de_state e") (auto simp: entry_ok_def sharers_def)

lemma grant_entry:
  assumes ok: "dd_ok d" and g: "grant_ok (dd_look d) (Some r, m, t)" and ty: "msg_type m \<in> {EX_REP, UPGRADE_REP, SH_REP}"
  shows "\<exists>p e. dc_entry p (dd_cache d) = Some e \<and> de_address e = msg_address m \<and> r \<in> set (snd (getSharersList e)) \<and>
    (msg_type m \<noteq> SH_REP \<longrightarrow> snd (getSharersList e) = [r] \<and> (de_state e = D_MODIFIED \<or> de_state e = D_EXCLUSIVE))"
proof -
  from g ty obtain e where e: "dd_look d (msg_address m) = Some e" "r \<in> set (sharers e)" "msg_type m \<noteq> SH_REP \<longrightarrow> one_owner (de_state e)"
    by (auto simp: grant_ok_def grant_type_def split: option.splits)
  have wf: "dc_wf (dd_cache d)" and eok: "entry_ok e" using ok e(1) by (auto simp: dd_ok_def)
  from dc_look_entry [OF wf, of "msg_address m" e] e(1) obtain p where "dc_entry p (dd_cache d) = Some e" "de_address e = msg_address m"
    by (auto simp: dd_look_def)
  moreover have "msg_type m \<noteq> SH_REP \<longrightarrow> sharers e = [r] \<and> (de_state e = D_MODIFIED \<or> de_state e = D_EXCLUSIVE)"
    using e(2,3) owner_grants [OF eok] by (auto simp: one_owner_def)
  ultimately show ?thesis using e(2) by (auto simp: sharers_def)
qed

lemma reply_recorded:
  assumes ok: "dd_ok d" and a: "msg_address m \<noteq> INVALID_ADDRESS"
    and r: "handleMsgFromL2Cache cf sender m (d\<lparr>dd_time := t\<rparr>) = Inr d'"
    and x: "x \<in> set (drop (length (dd_out d)) (dd_out d'))" and ty: "msg_type (fst (snd x)) \<in> {EX_REP, UPGRADE_REP, SH_REP}"
  shows "\<exists>r p e. fst x = Some r \<and> dc_entry p (dd_cache d') = Some e \<and> de_address e = msg_address (fst (snd x)) \<and>
    r \<in> set (snd (getSharersList e)) \<and>
    (msg_type (fst (snd x)) \<noteq> SH_REP \<longrightarrow>
       snd (getSharersList e) = [r] \<and> (de_state e = D_MODIFIED \<or> de_state e = D_EXCLUSIVE))"
proof -
  obtain rc y u where eq: "x = (rc, y, u)" by (cases x)
  have "dd_emit (d\<lparr>dd_time := t\<rparr>) d'" by (rule l2_message_emit [OF _ a r]) (simp add: ok)
  then have ok': "dd_ok d'" and g: "grant_ok (dd_look d') x" using x by (auto simp: dd_emit_def)
  from g ty obtain r where "rc = Some r" by (auto simp: eq grant_ok_def grant_type_def split: option.splits)
  with grant_entry [OF ok', of r y u] g ty show ?thesis by (simp add: eq)
qed

subsection \<open>The messages that invalidate\<close>

lemma sendAll_out:
  "sendAll requester a ms d = Inr d' \<Longrightarrow> \<exists>out. dd_out d' = dd_out d @ out \<and>
    map (\<lambda>x. (fst x, msg_type (fst (snd x)), msg_address (fst (snd x)))) out = map (\<lambda>m. (Some (fst (snd m)), fst m, a)) ms"
proof (induction ms arbitrary: d)
  case (Cons m ms)
  then obtain d1 where s: "toCache (fst m) requester (fst (snd m)) a (snd (snd m)) d = Inr d1" and r: "sendAll requester a ms d1 = Inr d'"
    by (auto simp: bindE_Inr_iff)
  from sendMsg_Inr(4) [OF s [unfolded toCache_def]] obtain x t where
    "dd_out d1 = dd_out d @ [(Some (fst (snd m)), x, t)]" "msg_type x = fst m" "msg_address x = a" by blast
  with Cons.IH [OF r] show ?case by auto
qed simp

lemma invalidations_map: "map (\<lambda>m. (Some (fst (snd m)), fst m, a)) (invalidations perf l) = map (\<lambda>r. (Some r, INV_REQ, a)) l"
  by (rule nth_equalityI) (simp_all add: invalidations_def)

text \<open>An exclusive request for a line that is shared.\<close>

lemma exReq_shared:
  assumes ok: "dd_ok d" and e: "dd_look d (rq_address req) = Some e" and sh: "de_state e = D_SHARED"
    and r: "processExReqFromL2Cache cf nxt None req d = Inr d'"
  shows "dd_look d' = dd_look d \<and> dd_queue d' = dd_queue d \<and> (\<exists>out. dd_out d' = dd_out d @ out \<and>
    map (\<lambda>x. (fst x, msg_type (fst (snd x)), msg_address (fst (snd x)))) out =
    map (\<lambda>x. (Some x, INV_REQ, rq_address req)) (snd (getSharersList e)))"
proof -
  let ?a = "rq_address req" and ?d = "updateShmemPerf (rq_perf req) R_UNKNOWN d"
  have look0: "dd_look ?d = dd_look d" by (simp add: dd_look_def)
  have ok0: "dd_ok ?d" using dd_step_ok [OF perf_at [OF ok]] .
  have wf: "dc_wf (dd_cache ?d)" using ok0 by (simp add: dd_ok_def)
  have a: "?a \<noteq> INVALID_ADDRESS" using e by (auto simp: dd_look_def dc_look_def split: if_splits)
  from r obtain p e1 d1 where re: "requestEntry nxt req ?d = Inr (p, e1, d1)"
    unfolding processExReqFromL2Cache_def Let_def by (elim bindE_InrE) auto
  then obtain po d2 where f: "findEntry ?a ?d = Inr (po, d2)" unfolding requestEntry_def by (elim bindE_InrE) auto
  note found = findEntry_found [OF ok0 a f]
  obtain q where po: "po = Some q" and q: "dc_entry q (dd_cache d2) = Some e" and look: "dd_look d2 = dd_look d"
    using found(3) e look0 by (cases po) (auto simp: dc_found_def dd_look_def fun_upd_idem)
  from re f po q have d1: "d1 = d2" "e1 = e" "p = q" by (auto simp: requestEntry_def derefEntry_def bindE_Inr_iff)
  let ?d2 = "updateShmemPerf (rq_perf req) R_TD_ACCESS d2"
  from r re have "invalidateSharers (rq_requester req) ?a (rq_perf req) e ?d2 = Inr d'"
    by (simp add: processExReqFromL2Cache_def Let_def d1 sh)
  then have s: "sendAll (rq_requester req) ?a (invalidations (rq_perf req) (sharers e)) ?d2 = Inr d'"
    by (simp add: invalidateSharers_def getSharersList_sharers)
  have qu: "dd_quiet ?d2 d'" by (rule quiet_sendAll [OF s]) (auto simp: invalidations_def grant_type_def)
  have queue: "dd_queue d2 = dd_queue d" using findEntry_queue [OF f] by simp
  from sendAll_out [OF s] found(2) invalidations_map [of ?a "rq_perf req" "sharers e"]
  have "\<exists>out. dd_out d' = dd_out d @ out \<and> map (\<lambda>x. (fst x, msg_type (fst (snd x)), msg_address (fst (snd x)))) out =
      map (\<lambda>x. (Some x, INV_REQ, ?a)) (sharers e)" by simp
  with qu look queue show ?thesis by (simp add: dd_quiet_def dd_look_def sharers_def)
qed

end
