(* ===== verification/Perf_Instr.thy ===== *)
theory Perf_Instr
  imports Shmem Branch_Predictors
begin

text \<open>
  The state of a core's performance model (common/performance_model/performance_model.h) and its
  instructions: operands and instructions (operand.h, instruction.h, basic_block.h), the information
  that functional execution supplies (dynamic_instruction_info.h), and what an instruction costs
  (instruction.cc).

  An instruction is an object that basic blocks and the queue of memory instructions point to; its
  only field that changes and is read here is \<open>translated\<close>, so the field is kept in the state by the
  instruction's number. The outcome that a \<open>BranchInstruction\<close> keeps of its last execution is read by
  the interval model only and not kept. The names of registers are not kept.

  What is outside is in the environment: the core's period and memory, the configured instruction
  costs, and the two computations in floating point that turn a frequency into a time.
\<close>

subsection \<open>Operands and instructions\<close>

datatype op_type_t = OP_REG | OP_MEMORY | OP_IMMEDIATE
datatype op_dir_t = OP_READ | OP_WRITE

record operand =
  op_type :: op_type_t
  op_value :: u64
  op_direction :: op_dir_t

definition Operand :: "op_type_t \<Rightarrow> u64 \<Rightarrow> op_dir_t \<Rightarrow> operand" where
  "Operand type value direction = \<lparr>op_type = type, op_value = value, op_direction = direction\<rparr>"

text \<open>The memory operands of an instruction, as both front ends list them: for each operand that is read
  one with the value 0, then for each that is written another.\<close>

definition fillOperandListMemOps :: "bool list \<Rightarrow> bool list \<Rightarrow> operand list" where
  "fillOperandListMemOps is_read is_written =
     map (\<lambda>_. Operand OP_MEMORY 0 OP_READ) (filter (\<lambda>b. b) is_read) @
     map (\<lambda>_. Operand OP_MEMORY 0 OP_WRITE) (filter (\<lambda>b. b) is_written)"

datatype inst_type_t = INST_GENERIC | INST_ADD | INST_SUB | INST_MUL | INST_DIV | INST_FADD | INST_FSUB
  | INST_FMUL | INST_FDIV | INST_JMP | INST_STRING | INST_BRANCH | INST_DYNAMIC_MISC | INST_RECV | INST_SYNC
  | INST_SPAWN | INST_TLB_MISS | INST_MEM_ACCESS | INST_DELAY

datatype sync_type_t = SYNC_FUTEX | SYNC_PTHREAD_MUTEX | SYNC_PTHREAD_COND | SYNC_PTHREAD_BARRIER | SYNC_JOIN
  | SYNC_PAUSE | SYNC_SLEEP | SYNC_UNSCHEDULED | SYNC_NUM_TYPES

datatype delay_type_t = DVFS_TRANSITION | DELAY_NUM_TYPES

text \<open>The classes, with the fields each adds: a plain instruction, one that reads string information, one
  with a latency of its own, and those of the simulator.\<close>

datatype inst_class_t = Plain_Inst | String_Inst | Branch_Inst | Dynamic_Inst time | Delay_Inst time delay_type_t
  | Sync_Inst time sync_type_t | Spawn_Inst time

record instruction =
  in_number :: nat
  in_type :: inst_type_t
  in_class :: inst_class_t
  in_operands :: "operand list"
  in_addr :: addr
  in_size :: u32
  in_atomic :: bool

definition SyncInstruction :: "nat \<Rightarrow> time \<Rightarrow> sync_type_t \<Rightarrow> instruction" where
  "SyncInstruction n t sync_type = \<lparr>in_number = n, in_type = INST_SYNC, in_class = Sync_Inst t sync_type,
     in_operands = [], in_addr = 0, in_size = 0, in_atomic = False\<rparr>"

definition isDynamic :: "instruction \<Rightarrow> bool" where
  "isDynamic i \<longleftrightarrow> in_type i \<in> {INST_DYNAMIC_MISC, INST_RECV, INST_SYNC, INST_SPAWN, INST_TLB_MISS, INST_MEM_ACCESS, INST_DELAY}"

definition isIdle :: "instruction \<Rightarrow> bool" where
  "isIdle i \<longleftrightarrow> in_type i = INST_SYNC \<or> in_type i = INST_DELAY \<or> in_type i = INST_RECV"

subsection \<open>Dynamic information\<close>

datatype di_type_t = MEMORY_READ | MEMORY_WRITE | DI_STRING | DI_BRANCH

record dyn_info =
  di_type :: di_type_t
  di_eip :: addr
  di_executed :: bool
  di_latency :: time
  di_addr :: addr
  di_size :: u32
  di_hit_where :: where_t
  di_num_ops :: u32
  di_taken :: bool
  di_target :: addr

subsection \<open>The performance model's state\<close>

text \<open>The statistics of time that is not spent on instructions.\<close>

datatype cpi_t = CPI_START | CPI_FUTEX | CPI_MUTEX | CPI_COND | CPI_BARRIER | CPI_JOIN | CPI_PAUSE | CPI_SLEEP
  | CPI_UNSCHEDULED | CPI_DVFS | CPI_RECV

datatype core_state_t = RUNNING | INITIALIZING | STALLED | SLEEPING | WAKING_UP | IDLE | BROKEN

text \<open>\<open>SquashHandler\<close>: squashes in the current region and in all earlier ones. The counters start at 0 and
  count up; they are not bounded here.\<close>

datatype handler_t = Chopper | AdaptiveRetryChopper | Interpret | AdaptiveRetryInterpret | MemCount
  | Probability | Retry

record squash_handler =
  numRegionSquashes :: nat
  numTotalSquashes :: nat
  commitStatus :: bool

definition SquashHandler :: squash_handler where
  "SquashHandler = \<lparr>numRegionSquashes = 0, numTotalSquashes = 0, commitStatus = False\<rparr>"

text \<open>\<open>m_fastforward_model\<close> is \<open>pf_ff_cpi\<close>, \<open>pf_ff_time\<close>. The map \<open>memoryAccesses\<close> is an association list
  from values to the pointers stored under them; a pointer is the address of an operand. The pointers
  are into the copy of an operand list that \<open>iterate\<close> makes for each instruction: \<open>pf_live\<close> holds the
  addresses of the current copy, which is freed before the next instruction, and every other pointer is to
  freed memory. \<open>pf_now\<close> numbers the moments at which the performance model looks at what is outside;
  \<open>pf_mem\<close> is the state of the core's memory. The core models extend this record.\<close>

type_synonym mem_map = "(u64 \<times> u64 list) list"

record 'm perf_model =
  pf_enabled :: bool
  pf_fastforward :: bool
  pf_detailed_sync :: bool
  pf_ff_cpi :: time
  pf_ff_time :: time
  pf_instruction_count :: u64
  pf_elapsed :: time
  pf_idle :: time
  pf_cpi :: "cpi_t \<Rightarrow> time"
  pf_blocks :: "instruction list list"
  pf_infos :: "dyn_info list"
  pf_ins_index :: nat
  pf_bp :: "branch_predictor option"
  pf_mispredict_penalty :: u64
  pf_accesses :: mem_map
  pf_count :: nat
  pf_exec_cost :: time
  pf_commit_count :: nat
  pf_mem_ins :: "nat list"
  pf_translated :: "nat \<Rightarrow> bool"
  pf_handlers :: "handler_t \<Rightarrow> squash_handler"
  pf_live :: "(u64 \<times> operand) list"
  pf_now :: nat
  pf_mem :: 'm

text \<open>What \<open>checkMemAccesses\<close> sees of a core: its state, that of the thread on it, and its map.\<close>

record core_view =
  cv_id :: core_id
  cv_state :: core_state_t
  cv_thread :: "core_state_t option"
  cv_accesses :: mem_map

text \<open>The outside at one moment: the cores, the operand that freed memory reads as, and where the next
  copy of an operand list is placed.\<close>

record world =
  wd_cores :: "core_view list"
  wd_operand :: "u64 \<Rightarrow> operand"
  wd_ptr :: "nat \<Rightarrow> u64"

record 'm perf_env =
  pe_core :: core_id
  pe_period :: time
  pe_access :: "mem_op_t \<Rightarrow> addr \<Rightarrow> u32 \<Rightarrow> addr \<Rightarrow> 'm \<Rightarrow> (time \<times> where_t) \<times> 'm"
  pe_ifetch :: "addr \<Rightarrow> u32 \<Rightarrow> 'm \<Rightarrow> time \<times> 'm"
  pe_costs :: "inst_type_t \<Rightarrow> u32"
  pe_cost_ps :: "u64 \<Rightarrow> u32 \<Rightarrow> u64"
  pe_chop_ns :: "u64 \<Rightarrow> u64"
  pe_world :: "nat \<Rightarrow> world"

text \<open>The queues hold 128 blocks and 640 pieces of information; \<open>push\<close> asserts that they are not full.\<close>

definition BB_QUEUE_SIZE :: nat where "BB_QUEUE_SIZE = 128"
definition INFO_QUEUE_SIZE :: nat where "INFO_QUEUE_SIZE = 640"

definition PerformanceModel :: "u64 \<Rightarrow> branch_predictor option \<Rightarrow> (nat \<Rightarrow> bool) \<Rightarrow> 'm \<Rightarrow> 'm perf_model" where
  "PerformanceModel penalty bp translated mem =
     \<lparr>pf_enabled = False, pf_fastforward = False, pf_detailed_sync = True, pf_ff_cpi = 0, pf_ff_time = 0,
      pf_instruction_count = 0, pf_elapsed = 0, pf_idle = 0, pf_cpi = (\<lambda>_. 0), pf_blocks = [], pf_infos = [],
      pf_ins_index = 0, pf_bp = bp, pf_mispredict_penalty = penalty, pf_accesses = [], pf_count = 0,
      pf_exec_cost = 0, pf_commit_count = 0, pf_mem_ins = [], pf_translated = translated,
      pf_handlers = (\<lambda>_. SquashHandler), pf_live = [], pf_now = 0, pf_mem = mem\<rparr>"

subsection \<open>Dynamic information of an instruction\<close>

definition pushDynamicInstructionInfo :: "dyn_info \<Rightarrow> ('m, 'c) perf_model_scheme \<Rightarrow> ('m, 'c) perf_model_scheme res" where
  "pushDynamicInstructionInfo info pf =
     assertE (length (pf_infos pf) < INFO_QUEUE_SIZE) ''!full()'' (Inr (pf\<lparr>pf_infos := pf_infos pf @ [info]\<rparr>))"

definition popDynamicInstructionInfo :: "('m, 'c) perf_model_scheme \<Rightarrow> ('m, 'c) perf_model_scheme res" where
  "popDynamicInstructionInfo pf = assertE (pf_infos pf \<noteq> []) ''!empty()'' (Inr (pf\<lparr>pf_infos := tl (pf_infos pf)\<rparr>))"

text \<open>The information in front, with its memory access done: the access is simulated when its outcome is
  not known yet. It is \<open>None\<close> when there is none.\<close>

definition access_info :: "'m perf_env \<Rightarrow> bool \<Rightarrow> bool \<Rightarrow> addr \<Rightarrow> dyn_info \<Rightarrow> 'm \<Rightarrow> dyn_info \<times> 'm" where
  "access_info env exec_loads atomic eip info mem =
     (if (di_type info = MEMORY_READ \<or> di_type info = MEMORY_WRITE) \<and> di_hit_where info = HW_UNKNOWN then
        if di_executed info then
          if exec_loads then
            (let ((latency, hit_where), mem) = pe_access env
                   (if di_type info = MEMORY_READ then (if atomic then MEM_READ_EX else MEM_READ) else MEM_WRITE)
                   (di_addr info) (di_size info) eip mem
             in (info\<lparr>di_latency := latency, di_hit_where := hit_where\<rparr>, mem))
          else (info\<lparr>di_latency := 0, di_hit_where := HW_UNKNOWN\<rparr>, mem)
        else (info\<lparr>di_latency := 1 * pe_period env, di_hit_where := HW_PREDICATE_FALSE\<rparr>, mem)
      else (info, mem))"

definition getDynamicInstructionInfo ::
  "'m perf_env \<Rightarrow> instruction \<Rightarrow> bool \<Rightarrow> ('m, 'c) perf_model_scheme \<Rightarrow> (dyn_info option \<times> ('m, 'c) perf_model_scheme) res" where
  "getDynamicInstructionInfo env i exec_loads pf =
     (case pf_infos pf of [] \<Rightarrow> Inr (None, pf)
      | info # infos \<Rightarrow>
          assertE (di_eip info = in_addr i) ''Expected dynamic info for eip''
          (let (info, mem) = access_info env exec_loads (in_atomic i) (in_addr i) info (pf_mem pf) in
           Inr (Some info, pf\<lparr>pf_infos := info # infos, pf_mem := mem\<rparr>)))"

subsection \<open>Costs\<close>

text \<open>\<open>Instruction::getCost\<close>: cycles times period, rounded up to picoseconds in floating point.\<close>

definition static_cost :: "'m perf_env \<Rightarrow> instruction \<Rightarrow> time res" where
  "static_cost env i =
     bindE (getPeriodInFreqMHz (pe_period env)) (\<lambda>freq. Inr (pe_cost_ps env freq (pe_costs env (in_type i)) * PS_1))"

text \<open>The loop of \<open>StringInstruction::getCost\<close> over the queue, which it empties: memory reads up to the
  marker with their number. Running out of information gives \<open>DyninsninfoNotAvailable\<close>.\<close>

primrec string_cost ::
  "'m perf_env \<Rightarrow> instruction \<Rightarrow> dyn_info list \<Rightarrow> u32 \<Rightarrow> time \<Rightarrow> ('m, 'c) perf_model_scheme \<Rightarrow> (time \<times> ('m, 'c) perf_model_scheme) res" where
  "string_cost env i [] count cost pf = Inr (MaxTime, pf\<lparr>pf_infos := []\<rparr>)"
| "string_cost env i (info # infos) count cost pf =
     assertE (di_eip info = in_addr i) ''Expected dynamic info for eip''
     (let (info, mem) = access_info env True (in_atomic i) (in_addr i) info (pf_mem pf); pf = pf\<lparr>pf_mem := mem\<rparr> in
      if di_type info = DI_STRING then
        assertE (count = di_num_ops info) ''Number of mem ops in queue doesn't match number in string instruction.''
          (Inr (cost, pf\<lparr>pf_infos := infos\<rparr>))
      else
        assertE (di_type info = MEMORY_READ) ''Expected memory read in string instruction (or STRING).''
          (string_cost env i infos (count + 1) (cost + di_latency info) pf))"

definition branch_cost :: "'m perf_env \<Rightarrow> instruction \<Rightarrow> ('m, 'c) perf_model_scheme \<Rightarrow> (time \<times> ('m, 'c) perf_model_scheme) res" where
  "branch_cost env i pf =
     bindE (getDynamicInstructionInfo env i True pf) (\<lambda>(info, pf).
     case info of None \<Rightarrow> Inr (MaxTime, pf)
     | Some info \<Rightarrow>
         assertE (di_type info = DI_BRANCH) ''Expected branch DynInstrInfo''
         (bindE (case pf_bp pf of None \<Rightarrow> Inr (False, pf)
            | Some bp \<Rightarrow>
                bindE (bp_predict (in_addr i) bp) (\<lambda>(prediction, bp).
                bindE (bp_update prediction (di_taken info) (in_addr i) (di_target info) bp) (\<lambda>bp.
                Inr (prediction \<noteq> di_taken info, pf\<lparr>pf_bp := Some bp\<rparr>)))) (\<lambda>(is_mispredict, pf).
          bindE (popDynamicInstructionInfo pf) (\<lambda>pf.
          Inr (pe_period env * (if is_mispredict then pf_mispredict_penalty pf else 1), pf)))))"

definition getCost :: "'m perf_env \<Rightarrow> instruction \<Rightarrow> ('m, 'c) perf_model_scheme \<Rightarrow> (time \<times> ('m, 'c) perf_model_scheme) res" where
  "getCost env i pf =
     (case in_class i of
        Plain_Inst \<Rightarrow> bindE (static_cost env i) (\<lambda>c. Inr (c, pf))
      | String_Inst \<Rightarrow> string_cost env i (pf_infos pf) 0 0 pf
      | Branch_Inst \<Rightarrow> branch_cost env i pf
      | Dynamic_Inst cost \<Rightarrow> Inr (cost, pf)
      | Delay_Inst cost ty \<Rightarrow> Inr (cost, pf)
      | Sync_Inst t ty \<Rightarrow> Inl (Log_Error ''SyncInstruction::getCost() called'')
      | Spawn_Inst t \<Rightarrow> Inl (Log_Error ''SpawnInstruction::getCost() called''))"

end
