(* ===== verification/Perf_Model.thy ===== *)
theory Perf_Model
  imports Perf_Instr
begin

text \<open>
  Time and queues of a core's performance model (common/performance_model/performance_model.cc), and the
  model that is used in fast-forward mode (fastforward_performance_model.cc): the core's elapsed and idle
  time, instructions that only let time pass, and the queue of basic blocks.

  Left out: the samplers that a change of time notifies, and the clients of clock skew minimization.
\<close>

subsection \<open>Elapsed time\<close>

definition incrementElapsedTime :: "time \<Rightarrow> ('m, 'c) perf_model_scheme \<Rightarrow> ('m, 'c) perf_model_scheme" where
  "incrementElapsedTime t pf = pf\<lparr>pf_elapsed := pf_elapsed pf + t\<rparr>"

definition incrementIdleElapsedTime :: "time \<Rightarrow> ('m, 'c) perf_model_scheme \<Rightarrow> ('m, 'c) perf_model_scheme" where
  "incrementIdleElapsedTime t pf = incrementElapsedTime t (pf\<lparr>pf_idle := pf_idle pf + t\<rparr>)"

definition addCpi :: "cpi_t \<Rightarrow> time \<Rightarrow> ('m, 'c) perf_model_scheme \<Rightarrow> ('m, 'c) perf_model_scheme" where
  "addCpi c t pf = pf\<lparr>pf_cpi := (pf_cpi pf)(c := pf_cpi pf c + t)\<rparr>"

definition pf_setElapsedTime :: "time \<Rightarrow> ('m, 'c) perf_model_scheme \<Rightarrow> ('m, 'c) perf_model_scheme res" where
  "pf_setElapsedTime t pf =
     assertE (pf_elapsed pf \<le> t) ''setElapsedTime() cannot go backwards in time''
     (let insn_cost = t - pf_elapsed pf in
      Inr (incrementIdleElapsedTime insn_cost
             (addCpi (if 0 < pf_elapsed pf then CPI_UNSCHEDULED else CPI_START) insn_cost pf)))"

definition getNonIdleElapsedTime :: "('m, 'c) perf_model_scheme \<Rightarrow> time" where
  "getNonIdleElapsedTime pf = pf_elapsed pf - pf_idle pf"

subsection \<open>Fast-forward\<close>

definition ff_incrementElapsedTime :: "time \<Rightarrow> ('m, 'c) perf_model_scheme \<Rightarrow> ('m, 'c) perf_model_scheme" where
  "ff_incrementElapsedTime latency pf = incrementElapsedTime latency (pf\<lparr>pf_ff_time := pf_ff_time pf + latency\<rparr>)"

definition ff_queueDynamicInstruction ::
  "'m perf_env \<Rightarrow> instruction \<Rightarrow> ('m, 'c) perf_model_scheme \<Rightarrow> ('m, 'c) perf_model_scheme res" where
  "ff_queueDynamicInstruction env i pf =
     assertE (\<not> isIdle i) ''Expected non-idle instruction''
     (bindE (getCost env i pf) (\<lambda>(ffwdTime, pf). Inr (ff_incrementElapsedTime ffwdTime pf)))"

definition countInstructions :: "u32 \<Rightarrow> ('m, 'c) perf_model_scheme \<Rightarrow> ('m, 'c) perf_model_scheme" where
  "countInstructions count pf =
     (if pf_fastforward pf then ff_incrementElapsedTime (ucast count * pf_ff_cpi pf) pf else pf)"

definition setCurrentCPI :: "time \<Rightarrow> ('m, 'c) perf_model_scheme \<Rightarrow> ('m, 'c) perf_model_scheme" where
  "setCurrentCPI cpi pf = pf\<lparr>pf_ff_cpi := cpi\<rparr>"

definition pf_enable :: "('m, 'c) perf_model_scheme \<Rightarrow> ('m, 'c) perf_model_scheme" where
  "pf_enable pf = pf\<lparr>pf_enabled := True\<rparr>"

definition pf_disable :: "('m, 'c) perf_model_scheme \<Rightarrow> ('m, 'c) perf_model_scheme" where
  "pf_disable pf = pf\<lparr>pf_enabled := False\<rparr>"

definition setFastForward :: "bool \<Rightarrow> bool \<Rightarrow> ('m, 'c) perf_model_scheme \<Rightarrow> ('m, 'c) perf_model_scheme" where
  "setFastForward fastforward detailed_sync pf =
     pf\<lparr>pf_fastforward := fastforward, pf_detailed_sync := detailed_sync\<rparr>"

subsection \<open>Instructions that let time pass\<close>

definition sync_cpi :: "sync_type_t \<Rightarrow> cpi_t res" where
  "sync_cpi t = (case t of SYNC_FUTEX \<Rightarrow> Inr CPI_FUTEX | SYNC_PTHREAD_MUTEX \<Rightarrow> Inr CPI_MUTEX
     | SYNC_PTHREAD_COND \<Rightarrow> Inr CPI_COND | SYNC_PTHREAD_BARRIER \<Rightarrow> Inr CPI_BARRIER | SYNC_JOIN \<Rightarrow> Inr CPI_JOIN
     | SYNC_PAUSE \<Rightarrow> Inr CPI_PAUSE | SYNC_SLEEP \<Rightarrow> Inr CPI_SLEEP | SYNC_UNSCHEDULED \<Rightarrow> Inr CPI_UNSCHEDULED
     | SYNC_NUM_TYPES \<Rightarrow> Inl (Assert_Failed ''Unexpected SyncInstruction::type_t enum type.''))"

text \<open>A core that reaches a synchronization instruction sleeps up to the time in it, not at all when that time
  has passed.\<close>

definition sync_cost :: "time \<Rightarrow> time \<Rightarrow> time" where
  "sync_cost time_begin time_end = (if time_begin < time_end then time_end - time_begin else 0)"

definition handleIdleInstruction ::
  "'m perf_env \<Rightarrow> instruction \<Rightarrow> ('m, 'c) perf_model_scheme \<Rightarrow> ('m, 'c) perf_model_scheme res" where
  "handleIdleInstruction env i pf =
     (if pf_fastforward pf \<and> \<not> pf_detailed_sync pf then Inr pf
      else if in_type i = INST_SYNC then
        (case in_class i of
           Sync_Inst t ty \<Rightarrow>
             (let insn_cost = sync_cost (pf_elapsed pf) t in
              bindE (sync_cpi ty) (\<lambda>c. Inr (incrementIdleElapsedTime insn_cost (addCpi c insn_cost pf))))
         | _ \<Rightarrow> Inl (Assert_Failed ''Expected a SyncInstruction, but did not get one.''))
      else if in_type i = INST_DELAY then
        bindE (getCost env i pf) (\<lambda>(insn_cost, pf).
        case in_class i of
          Delay_Inst cost DVFS_TRANSITION \<Rightarrow> Inr (incrementIdleElapsedTime insn_cost (addCpi CPI_DVFS insn_cost pf))
        | Delay_Inst cost DELAY_NUM_TYPES \<Rightarrow> Inl (Assert_Failed ''Unexpected DelayInstruction::type_t enum type.'')
        | _ \<Rightarrow> Inl (Assert_Failed ''Expected a DelayInstruction, but did not get one.''))
      else if in_type i = INST_RECV then
        bindE (getCost env i pf) (\<lambda>(insn_cost, pf).
        case in_class i of
          Dynamic_Inst cost \<Rightarrow> Inr (incrementIdleElapsedTime insn_cost (addCpi CPI_RECV insn_cost pf))
        | _ \<Rightarrow> Inl (Assert_Failed ''Expected a RecvInstruction, but did not get one.''))
      else Inl (Log_Error ''Unexpectedly received something other than a Sync or Recv Instruction''))"

subsection \<open>The queue of basic blocks\<close>

definition queueBasicBlock ::
  "instruction list \<Rightarrow> ('m, 'c) perf_model_scheme \<Rightarrow> ('m, 'c) perf_model_scheme res" where
  "queueBasicBlock bb pf =
     assertE (length (pf_blocks pf) < BB_QUEUE_SIZE) ''!full()'' (Inr (pf\<lparr>pf_blocks := pf_blocks pf @ [bb]\<rparr>))"

definition queueDynamicInstruction ::
  "'m perf_env \<Rightarrow> instruction \<Rightarrow> ('m, 'c) perf_model_scheme \<Rightarrow> ('m, 'c) perf_model_scheme res" where
  "queueDynamicInstruction env i pf =
     (if in_type i = INST_SPAWN then
        (case in_class i of
           Spawn_Inst t \<Rightarrow> pf_setElapsedTime t pf
         | _ \<Rightarrow> Inl (Assert_Failed ''Expected a SpawnInstruction, but did not get one.''))
      else if \<not> pf_enabled pf then Inr pf
      else if isIdle i then handleIdleInstruction env i pf
      else if pf_fastforward pf then ff_queueDynamicInstruction env i pf
      else queueBasicBlock [i] pf)"

subsection \<open>Sleeping\<close>

text \<open>What queueing a sleep up to an absolute time does: nothing when the model is off or fast-forwards without
  detailed synchronization, otherwise the core's time moves up to it, as idle time of that kind.\<close>

definition sleeps :: "('m, 'c) perf_model_scheme \<Rightarrow> bool" where
  "sleeps pf \<longleftrightarrow> pf_enabled pf \<and> \<not> (pf_fastforward pf \<and> \<not> pf_detailed_sync pf)"

definition sleep_until :: "time \<Rightarrow> ('m, 'c) perf_model_scheme \<Rightarrow> ('m, 'c) perf_model_scheme" where
  "sleep_until t pf =
     (if sleeps pf then
        let c = sync_cost (pf_elapsed pf) t in incrementIdleElapsedTime c (addCpi CPI_SLEEP c pf)
      else pf)"

lemma queue_sleep: "queueDynamicInstruction env (SyncInstruction n t SYNC_SLEEP) pf = Inr (sleep_until t pf)"
  by (simp add: queueDynamicInstruction_def SyncInstruction_def isIdle_def handleIdleInstruction_def sync_cpi_def
      sleep_until_def sleeps_def Let_def)

lemma elapsed_sync: "pf_elapsed (incrementIdleElapsedTime (sync_cost (pf_elapsed pf) t) pf) = max (pf_elapsed pf) t"
  by (auto simp: incrementIdleElapsedTime_def incrementElapsedTime_def sync_cost_def max_def)

lemma sleep_until_elapsed: "pf_elapsed (sleep_until t pf) = (if sleeps pf then max (pf_elapsed pf) t else pf_elapsed pf)"
  by (auto simp: sleep_until_def Let_def incrementIdleElapsedTime_def incrementElapsedTime_def addCpi_def sync_cost_def
      max_def)

text \<open>Sleeping only changes times.\<close>

lemma sleep_until_same [simp]:
  "pf_accesses (sleep_until t pf) = pf_accesses pf" "pf_handlers (sleep_until t pf) = pf_handlers pf"
  "pf_live (sleep_until t pf) = pf_live pf" "pf_now (sleep_until t pf) = pf_now pf"
  "pf_blocks (sleep_until t pf) = pf_blocks pf" "pf_ins_index (sleep_until t pf) = pf_ins_index pf"
  "pf_count (sleep_until t pf) = pf_count pf" "pf_mem_ins (sleep_until t pf) = pf_mem_ins pf"
  "pf_exec_cost (sleep_until t pf) = pf_exec_cost pf" "pf_commit_count (sleep_until t pf) = pf_commit_count pf"
  "pf_translated (sleep_until t pf) = pf_translated pf" "sleeps (sleep_until t pf) = sleeps pf"
  "pf_infos (sleep_until t pf) = pf_infos pf" "pf_instruction_count (sleep_until t pf) = pf_instruction_count pf"
  "pf_mem (sleep_until t pf) = pf_mem pf" "pf_bp (sleep_until t pf) = pf_bp pf"
  by (simp_all add: sleep_until_def sleeps_def Let_def incrementIdleElapsedTime_def incrementElapsedTime_def addCpi_def)

lemma getNonIdle_sleep: "getNonIdleElapsedTime (sleep_until t pf) = getNonIdleElapsedTime pf"
  by (simp add: sleep_until_def Let_def getNonIdleElapsedTime_def incrementIdleElapsedTime_def incrementElapsedTime_def
      addCpi_def)

lemma pf_setElapsedTime_elapsed: "pf_setElapsedTime t pf = Inr pf' \<Longrightarrow> pf_elapsed pf' = t"
  by (auto simp: pf_setElapsedTime_def Let_def incrementIdleElapsedTime_def incrementElapsedTime_def addCpi_def)

end
