(* ===== verification/Squash.thy ===== *)
theory Squash
  imports Perf_Model "HOL-Library.AList"
begin

text \<open>
  Atomic regions: common/system/core_manager.cc (\<open>checkMemAccesses\<close>), the squash actions and handlers
  (common/performance_model/*_action.cc, *_handler.cc, squash_handler.h) and \<open>commit\<close> and
  \<open>resetMemMap\<close> of performance_model.cc.

  A core records the memory operands of the instructions in a region. To commit the region it compares them
  with the records of the other cores; as long as there is a conflict, a handler squashes: it puts the core to
  sleep for as long as the region took (retry), for thirty times as long (interpret), or for the time a
  translation takes (chop), and the last two forget the record.
\<close>

definition REGION_SIZE :: nat where "REGION_SIZE = 200"
definition MAX_RETRIES :: nat where "MAX_RETRIES = 5"
definition CYCLE_LATENCY :: u64 where "CYCLE_LATENCY = 30"

subsection \<open>Conflicts\<close>

definition deref :: "'m perf_env \<Rightarrow> ('m, 'c) perf_model_scheme \<Rightarrow> u64 \<Rightarrow> operand" where
  "deref env pf p = (case map_of (pf_live pf) p of Some op \<Rightarrow> op | None \<Rightarrow> wd_operand (pe_world env (pf_now pf)) p)"

definition runs_beside :: "core_id \<Rightarrow> core_view \<Rightarrow> bool" where
  "runs_beside me c \<longleftrightarrow> (case cv_thread c of None \<Rightarrow> False
     | Some st \<Rightarrow> cv_id c \<noteq> me \<and> cv_state c = RUNNING \<and> st \<noteq> STALLED)"

definition checkMemAccesses :: "core_id \<Rightarrow> (u64 \<Rightarrow> operand) \<Rightarrow> core_view list \<Rightarrow> mem_map \<Rightarrow> bool" where
  "checkMemAccesses me at cores accesses \<longleftrightarrow>
     list_ex (\<lambda>(v, ptrs). list_ex (\<lambda>p.
       case op_direction (at p) of
         OP_WRITE \<Rightarrow> list_ex (\<lambda>c. runs_beside me c \<and> map_of (cv_accesses c) v \<noteq> None) cores
       | OP_READ \<Rightarrow> list_ex (\<lambda>c. runs_beside me c \<and>
           (case map_of (cv_accesses c) v of None \<Rightarrow> False
            | Some qs \<Rightarrow> list_ex (\<lambda>q. op_direction (at q) = OP_WRITE) qs)) cores) ptrs) accesses"

definition conflict_now :: "'m perf_env \<Rightarrow> ('m, 'c) perf_model_scheme \<Rightarrow> bool" where
  "conflict_now env pf =
     checkMemAccesses (pe_core env) (deref env pf) (wd_cores (pe_world env (pf_now pf))) (pf_accesses pf)"

text \<open>The moment after this one.\<close>

definition later :: "('m, 'c) perf_model_scheme \<Rightarrow> ('m, 'c) perf_model_scheme" where
  "later pf = pf\<lparr>pf_now := Suc (pf_now pf)\<rparr>"

subsection \<open>Reads and writes in the record\<close>

definition count_accesses :: "(u64 \<Rightarrow> operand) \<Rightarrow> op_dir_t \<Rightarrow> mem_map \<Rightarrow> nat" where
  "count_accesses at dir accesses = sum_list (map (\<lambda>(v, ptrs).
     length (filter (\<lambda>p. op_type (at p) = OP_MEMORY \<and> op_direction (at p) = dir) ptrs)) accesses)"

definition getNumMemReads :: "'m perf_env \<Rightarrow> ('m, 'c) perf_model_scheme \<Rightarrow> nat" where
  "getNumMemReads env pf = count_accesses (deref env pf) OP_READ (pf_accesses pf)"

definition getNumMemWrites :: "'m perf_env \<Rightarrow> ('m, 'c) perf_model_scheme \<Rightarrow> nat" where
  "getNumMemWrites env pf = count_accesses (deref env pf) OP_WRITE (pf_accesses pf)"

definition getTotalMemAccesses :: "'m perf_env \<Rightarrow> ('m, 'c) perf_model_scheme \<Rightarrow> nat" where
  "getTotalMemAccesses env pf = getNumMemReads env pf + getNumMemWrites env pf"

subsection \<open>Actions\<close>

definition queueSleep ::
  "'m perf_env \<Rightarrow> time \<Rightarrow> ('m, 'c) perf_model_scheme \<Rightarrow> ('m, 'c) perf_model_scheme res" where
  "queueSleep env wakeupTime pf = queueDynamicInstruction env (SyncInstruction 0 wakeupTime SYNC_SLEEP) pf"

definition RetryAction :: "'m perf_env \<Rightarrow> ('m, 'c) perf_model_scheme \<Rightarrow> ('m, 'c) perf_model_scheme res" where
  "RetryAction env pf =
     bindE (getPeriodInFreqMHz (pe_period env)) (\<lambda>freq.
     queueSleep env (pf_elapsed pf + pf_exec_cost pf) pf)"

definition InterpretAction :: "'m perf_env \<Rightarrow> ('m, 'c) perf_model_scheme \<Rightarrow> ('m, 'c) perf_model_scheme res" where
  "InterpretAction env pf =
     bindE (queueSleep env (pf_elapsed pf + CYCLE_LATENCY * pf_exec_cost pf) pf) (\<lambda>pf.
     Inr (pf\<lparr>pf_accesses := []\<rparr>))"

definition ChopperAction :: "'m perf_env \<Rightarrow> ('m, 'c) perf_model_scheme \<Rightarrow> ('m, 'c) perf_model_scheme res" where
  "ChopperAction env pf =
     (let pf = pf\<lparr>pf_translated := (\<lambda>n. n \<in> set (pf_mem_ins pf) \<or> pf_translated pf n), pf_mem_ins := []\<rparr> in
      bindE (getPeriodInFreqMHz (pe_period env)) (\<lambda>freq.
      bindE (queueSleep env (pf_elapsed pf + TimeNS (pe_chop_ns env freq)) pf) (\<lambda>pf.
      Inr (pf\<lparr>pf_accesses := []\<rparr>))))"

subsection \<open>Handlers\<close>

definition squashed :: "handler_t \<Rightarrow> ('m, 'c) perf_model_scheme \<Rightarrow> ('m, 'c) perf_model_scheme" where
  "squashed h pf = pf\<lparr>pf_handlers := (pf_handlers pf)(h :=
     (pf_handlers pf h)\<lparr>numRegionSquashes := Suc (numRegionSquashes (pf_handlers pf h))\<rparr>)\<rparr>"

definition resetRegionCount :: "handler_t \<Rightarrow> ('m, 'c) perf_model_scheme \<Rightarrow> ('m, 'c) perf_model_scheme" where
  "resetRegionCount h pf = pf\<lparr>pf_handlers := (pf_handlers pf)(h := (pf_handlers pf h)
     \<lparr>numTotalSquashes := numTotalSquashes (pf_handlers pf h) + numRegionSquashes (pf_handlers pf h),
      numRegionSquashes := 0\<rparr>)\<rparr>"

definition canCommit :: "handler_t \<Rightarrow> ('m, 'c) perf_model_scheme \<Rightarrow> bool" where
  "canCommit h pf = commitStatus (pf_handlers pf h)"

definition retries_used :: "nat \<Rightarrow> bool" where
  "retries_used n \<longleftrightarrow> 0 < n \<and> n mod MAX_RETRIES = 0"

text \<open>The probability is computed in integers, then compared as a number with 0.3 and 0.6.\<close>

definition squash_probability :: "nat \<Rightarrow> nat \<Rightarrow> nat" where
  "squash_probability mem_instructions region_squashes =
     (mem_instructions div REGION_SIZE + region_squashes div 5) div 2"

definition chopper_handleSquash :: "'m perf_env \<Rightarrow> ('m, 'c) perf_model_scheme \<Rightarrow> ('m, 'c) perf_model_scheme res" where
  "chopper_handleSquash env pf =
     bindE (ChopperAction env pf) (\<lambda>pf. Inr (squashed Chopper pf))"

definition interpret_handleSquash :: "'m perf_env \<Rightarrow> ('m, 'c) perf_model_scheme \<Rightarrow> ('m, 'c) perf_model_scheme res" where
  "interpret_handleSquash env pf =
     bindE (InterpretAction env pf) (\<lambda>pf. Inr (squashed Interpret pf))"

definition retry_handleSquash :: "'m perf_env \<Rightarrow> ('m, 'c) perf_model_scheme \<Rightarrow> ('m, 'c) perf_model_scheme res" where
  "retry_handleSquash env pf =
     bindE (RetryAction env pf) (\<lambda>pf. Inr (squashed Retry pf))"

definition adaptiveRetryChopper_handleSquash :: "'m perf_env \<Rightarrow> ('m, 'c) perf_model_scheme \<Rightarrow> ('m, 'c) perf_model_scheme res" where
  "adaptiveRetryChopper_handleSquash env pf =
     bindE (if retries_used (numRegionSquashes (pf_handlers pf AdaptiveRetryChopper)) then ChopperAction env pf
       else RetryAction env pf) (\<lambda>pf. Inr (squashed AdaptiveRetryChopper pf))"

definition adaptiveRetryInterpret_handleSquash :: "'m perf_env \<Rightarrow> ('m, 'c) perf_model_scheme \<Rightarrow> ('m, 'c) perf_model_scheme res" where
  "adaptiveRetryInterpret_handleSquash env pf =
     bindE (if retries_used (numRegionSquashes (pf_handlers pf AdaptiveRetryInterpret)) then InterpretAction env pf
       else RetryAction env pf) (\<lambda>pf. Inr (squashed AdaptiveRetryInterpret pf))"

definition memCount_handleSquash :: "'m perf_env \<Rightarrow> ('m, 'c) perf_model_scheme \<Rightarrow> ('m, 'c) perf_model_scheme res" where
  "memCount_handleSquash env pf =
     bindE (if length (pf_mem_ins pf) < REGION_SIZE div 20 \<and> numRegionSquashes (pf_handlers pf MemCount) < 5 then RetryAction env pf
       else if length (pf_mem_ins pf) < REGION_SIZE div 20 then InterpretAction env pf
       else ChopperAction env pf) (\<lambda>pf. Inr (squashed MemCount pf))"

definition probability_handleSquash :: "'m perf_env \<Rightarrow> ('m, 'c) perf_model_scheme \<Rightarrow> ('m, 'c) perf_model_scheme res" where
  "probability_handleSquash env pf =
     bindE (let probability = 10 * squash_probability (length (pf_mem_ins pf)) (numRegionSquashes (pf_handlers pf Probability)) in
       if probability < 3 then RetryAction env pf
       else if 3 < probability \<and> probability < 6 then InterpretAction env pf
       else ChopperAction env pf) (\<lambda>pf. Inr (squashed Probability pf))"

definition handleSquash ::
  "'m perf_env \<Rightarrow> handler_t \<Rightarrow> ('m, 'c) perf_model_scheme \<Rightarrow> ('m, 'c) perf_model_scheme res" where
  "handleSquash env h = (case h of Chopper \<Rightarrow> chopper_handleSquash env | Interpret \<Rightarrow> interpret_handleSquash env
     | Retry \<Rightarrow> retry_handleSquash env | AdaptiveRetryChopper \<Rightarrow> adaptiveRetryChopper_handleSquash env
     | AdaptiveRetryInterpret \<Rightarrow> adaptiveRetryInterpret_handleSquash env | MemCount \<Rightarrow> memCount_handleSquash env
     | Probability \<Rightarrow> probability_handleSquash env)"

lemmas handleSquash_defs = handleSquash_def chopper_handleSquash_def interpret_handleSquash_def retry_handleSquash_def
  adaptiveRetryChopper_handleSquash_def adaptiveRetryInterpret_handleSquash_def memCount_handleSquash_def
  probability_handleSquash_def

subsection \<open>What an action does\<close>

lemma queueSleep_eq: "queueSleep env t pf = Inr (sleep_until t pf)"
  by (simp add: queueSleep_def queue_sleep)

lemma freq_Inr: "p \<noteq> 0 \<Longrightarrow> getPeriodInFreqMHz p = Inr (US_1 div p)"
  by (simp add: getPeriodInFreqMHz_def divE_def)

lemma RetryAction_eq:
  "pe_period env \<noteq> 0 \<Longrightarrow> RetryAction env pf = Inr (sleep_until (pf_elapsed pf + pf_exec_cost pf) pf)"
  by (simp add: RetryAction_def freq_Inr queueSleep_eq)

lemma InterpretAction_eq:
  "InterpretAction env pf =
     Inr ((sleep_until (pf_elapsed pf + CYCLE_LATENCY * pf_exec_cost pf) pf)\<lparr>pf_accesses := []\<rparr>)"
  by (simp add: InterpretAction_def queueSleep_eq)

lemma squashed_same [simp]:
  "pf_accesses (squashed h pf) = pf_accesses pf" "pf_live (squashed h pf) = pf_live pf"
  "pf_now (squashed h pf) = pf_now pf" "pf_elapsed (squashed h pf) = pf_elapsed pf"
  "pf_exec_cost (squashed h pf) = pf_exec_cost pf" "sleeps (squashed h pf) = sleeps pf"
  "numRegionSquashes (pf_handlers (squashed h pf) h) = Suc (numRegionSquashes (pf_handlers pf h))"
  by (simp_all add: squashed_def sleeps_def)

lemma later_same [simp]:
  "pf_accesses (later pf) = pf_accesses pf" "pf_live (later pf) = pf_live pf" "pf_now (later pf) = Suc (pf_now pf)"
  "pf_elapsed (later pf) = pf_elapsed pf" "pf_exec_cost (later pf) = pf_exec_cost pf"
  "sleeps (later pf) = sleeps pf" "pf_handlers (later pf) = pf_handlers pf"
  by (simp_all add: later_def sleeps_def)

text \<open>The handler in use retries five times, then interprets.\<close>

lemma handleSquash_adaptive:
  assumes "pe_period env \<noteq> 0"
  shows "handleSquash env AdaptiveRetryInterpret pf = Inr (squashed AdaptiveRetryInterpret
    (if retries_used (numRegionSquashes (pf_handlers pf AdaptiveRetryInterpret))
     then (sleep_until (pf_elapsed pf + CYCLE_LATENCY * pf_exec_cost pf) pf)\<lparr>pf_accesses := []\<rparr>
     else sleep_until (pf_elapsed pf + pf_exec_cost pf) pf))"
  using assms by (simp add: handleSquash_defs RetryAction_eq InterpretAction_eq)

end
