(* ===== verification/Commit.thy ===== *)
theory Commit
  imports Squash
begin

text \<open>
  \<open>PerformanceModel::commit\<close> and \<open>resetMemMap\<close> (common/performance_model/performance_model.cc):
  the loop that checks for conflicts and squashes, what it leaves and how much time it takes.

  The loop runs under the lock of the maps, but the states of the other cores and of their threads, and the
  memory that the recorded pointers point to, may be others at every check.
\<close>

subsection \<open>The loop ends\<close>

abbreviation (input) region_squashes :: "('m, 'c) perf_model_scheme \<Rightarrow> nat" where
  "region_squashes pf \<equiv> numRegionSquashes (pf_handlers pf AdaptiveRetryInterpret)"

text \<open>How often the handler can still be called in the region: up to the next interpretation.\<close>

definition squashes_left :: "('m, 'c) perf_model_scheme \<Rightarrow> nat" where
  "squashes_left pf =
     (if pf_accesses pf = [] then 0
      else let r = region_squashes pf in if r = 0 then 6 else (MAX_RETRIES - r mod MAX_RETRIES) mod MAX_RETRIES + 1)"

lemma squashes_left_le: "squashes_left pf \<le> 6"
  by (simp add: squashes_left_def Let_def MAX_RETRIES_def order_trans [OF less_imp_le [OF mod_less_divisor]])

lemma conflict_accesses: "conflict_now env pf \<Longrightarrow> pf_accesses pf \<noteq> []"
  by (auto simp: conflict_now_def checkMemAccesses_def)

lemma mod5_Suc: "0 < r \<Longrightarrow> r mod 5 \<noteq> 0 \<Longrightarrow> (5 - r mod 5) mod 5 = Suc ((5 - Suc r mod 5) mod 5 :: nat)"
proof -
  assume "0 < r" "r mod 5 \<noteq> 0"
  moreover have "r mod 5 < 5" by simp
  ultimately have "r mod 5 \<in> {1, 2, 3, 4}" by auto
  then show ?thesis by (auto simp: mod_Suc)
qed

lemma handleSquash_left:
  assumes "handleSquash env AdaptiveRetryInterpret pf = Inr pf'" and "pf_accesses pf \<noteq> []"
  shows "squashes_left pf' < squashes_left pf" and "region_squashes pf' = Suc (region_squashes pf)"
proof -
  let ?h = AdaptiveRetryInterpret
  from assms(1) obtain pf1 where pf': "pf' = squashed ?h pf1"
    and pf1: "(if retries_used (region_squashes pf) then InterpretAction env pf else RetryAction env pf) = Inr pf1"
    by (auto simp: handleSquash_defs Let_def bindE_Inr_iff)
  have same: "pf_handlers pf1 = pf_handlers pf"
    using pf1 by (auto simp: InterpretAction_eq RetryAction_def queueSleep_eq bindE_Inr_iff split: if_splits)
  have acc: "pf_accesses pf1 = (if retries_used (region_squashes pf) then [] else pf_accesses pf)"
    using pf1 by (auto simp: InterpretAction_eq RetryAction_def queueSleep_eq bindE_Inr_iff split: if_splits)
  show r: "region_squashes pf' = Suc (region_squashes pf)" by (simp add: pf' same)
  show "squashes_left pf' < squashes_left pf"
    using assms(2) r acc mod5_Suc [of "region_squashes pf"]
    by (auto simp: squashes_left_def Let_def pf' retries_used_def MAX_RETRIES_def)
qed

function commit_loop :: "'m perf_env \<Rightarrow> ('m, 'c) perf_model_scheme \<Rightarrow> ('m, 'c) perf_model_scheme res" where
  "commit_loop env pf =
     (if conflict_now env pf then
        case handleSquash env AdaptiveRetryInterpret (later pf) of Inl e \<Rightarrow> Inl e | Inr pf' \<Rightarrow> commit_loop env pf'
      else Inr (later pf))"
  by pat_completeness auto

termination commit_loop
proof (relation "measure (\<lambda>(env, pf). squashes_left pf)")
  fix env :: "'m perf_env" and pf pf' :: "('m, 'c) perf_model_scheme"
  assume "conflict_now env pf" and h: "handleSquash env AdaptiveRetryInterpret (later pf) = Inr pf'"
  then have "pf_accesses (later pf) \<noteq> []" by (simp add: conflict_accesses)
  moreover have "squashes_left (later pf) = squashes_left pf" by (simp add: squashes_left_def)
  ultimately show "((env, pf'), (env, pf)) \<in> measure (\<lambda>(env, pf). squashes_left pf)"
    using handleSquash_left(1) [OF h] by simp
qed simp

declare commit_loop.simps [simp del]

definition commit :: "'m perf_env \<Rightarrow> ('m, 'c) perf_model_scheme \<Rightarrow> ('m, 'c) perf_model_scheme res" where
  "commit env pf =
     bindE (commit_loop env (pf\<lparr>pf_commit_count := Suc (pf_commit_count pf)\<rparr>)) (\<lambda>pf.
     queueSleep env (pf_elapsed pf + TimeNS (of_nat (getNumMemWrites env pf))) pf)"

definition resetMemMap :: "('m, 'c) perf_model_scheme \<Rightarrow> ('m, 'c) perf_model_scheme" where
  "resetMemMap pf = (resetRegionCount AdaptiveRetryInterpret pf)\<lparr>pf_accesses := []\<rparr>"

subsection \<open>What the loop does\<close>

text \<open>The result of a commit. Nothing but times, the number of commits, the record and the handler's count
  changes.\<close>

definition only_commit :: "('m, 'c) perf_model_scheme \<Rightarrow> ('m, 'c) perf_model_scheme \<Rightarrow> bool" where
  "only_commit pf pf' \<longleftrightarrow>
     pf_enabled pf' = pf_enabled pf \<and> pf_fastforward pf' = pf_fastforward pf \<and>
     pf_detailed_sync pf' = pf_detailed_sync pf \<and> pf_ff_cpi pf' = pf_ff_cpi pf \<and>
     pf_ff_time pf' = pf_ff_time pf \<and> pf_instruction_count pf' = pf_instruction_count pf \<and>
     pf_blocks pf' = pf_blocks pf \<and> pf_infos pf' = pf_infos pf \<and>
     pf_ins_index pf' = pf_ins_index pf \<and> pf_bp pf' = pf_bp pf \<and>
     pf_mispredict_penalty pf' = pf_mispredict_penalty pf \<and> pf_count pf' = pf_count pf \<and>
     pf_exec_cost pf' = pf_exec_cost pf \<and> pf_mem_ins pf' = pf_mem_ins pf \<and>
     pf_translated pf' = pf_translated pf \<and> pf_live pf' = pf_live pf \<and>
     pf_mem pf' = pf_mem pf \<and> perf_model.more pf' = perf_model.more pf \<and>
     (\<forall>h. h \<noteq> AdaptiveRetryInterpret \<longrightarrow> pf_handlers pf' h = pf_handlers pf h)"

lemma only_commit_refl [simp]: "only_commit pf pf"
  by (simp add: only_commit_def)

lemma only_commit_trans: "only_commit a b \<Longrightarrow> only_commit b c \<Longrightarrow> only_commit a c"
  by (simp add: only_commit_def)

lemma only_commit_sleep: "only_commit pf (sleep_until t pf)"
  by (simp add: only_commit_def sleep_until_def Let_def incrementIdleElapsedTime_def incrementElapsedTime_def addCpi_def)

lemma only_commit_accesses: "only_commit pf (pf\<lparr>pf_accesses := m\<rparr>)"
  by (simp add: only_commit_def)

lemma only_commit_squashed: "only_commit pf (squashed AdaptiveRetryInterpret pf)"
  by (simp add: only_commit_def squashed_def)

lemma only_commit_later: "only_commit pf (later pf)"
  by (simp add: only_commit_def later_def)

lemma only_commit_reset: "only_commit pf (resetMemMap pf)"
  by (simp add: only_commit_def resetMemMap_def resetRegionCount_def)

lemma only_commit_handle:
  assumes "pe_period env \<noteq> 0" and "handleSquash env AdaptiveRetryInterpret pf = Inr pf'"
  shows "only_commit pf pf'"
  using assms(2) unfolding handleSquash_adaptive [OF assms(1)]
  by (auto intro!: only_commit_trans [OF _ only_commit_squashed]
      only_commit_trans [OF only_commit_sleep only_commit_accesses] only_commit_sleep)

lemma only_commit_same:
  assumes "only_commit pf pf'"
  shows "pf_blocks pf' = pf_blocks pf" "pf_infos pf' = pf_infos pf" "pf_ins_index pf' = pf_ins_index pf"
    "pf_count pf' = pf_count pf" "pf_mem_ins pf' = pf_mem_ins pf" "pf_translated pf' = pf_translated pf"
    "pf_live pf' = pf_live pf" "pf_exec_cost pf' = pf_exec_cost pf" "sleeps pf' = sleeps pf"
    "pf_instruction_count pf' = pf_instruction_count pf" "pf_mem pf' = pf_mem pf" "pf_bp pf' = pf_bp pf"
    "perf_model.more pf' = perf_model.more pf"
  using assms by (simp_all add: only_commit_def sleeps_def)

subsection \<open>The loop returns\<close>

lemma commit_loop_step:
  assumes "pe_period env \<noteq> 0" and "conflict_now env pf"
  obtains pf' where "handleSquash env AdaptiveRetryInterpret (later pf) = Inr pf'"
    and "commit_loop env pf = commit_loop env pf'" and "only_commit pf pf'"
    and "region_squashes pf' = Suc (region_squashes pf)" and "squashes_left pf' < squashes_left pf"
    and "pf_accesses pf' = (if retries_used (region_squashes pf) then [] else pf_accesses pf)"
    and "pf_elapsed pf' = pf_elapsed (sleep_until (pf_elapsed pf +
      (if retries_used (region_squashes pf) then CYCLE_LATENCY else 1) * pf_exec_cost pf) pf)"
proof -
  let ?h = AdaptiveRetryInterpret
  have nonempty: "pf_accesses (later pf) \<noteq> []" using conflict_accesses [OF assms(2)] by simp
  have left: "squashes_left (later pf) = squashes_left pf" by (simp add: squashes_left_def)
  obtain pf' where h: "handleSquash env ?h (later pf) = Inr pf'"
    by (simp add: handleSquash_adaptive [OF assms(1)])
  show thesis
  proof (rule that [OF h])
    show "commit_loop env pf = commit_loop env pf'" by (subst commit_loop.simps) (simp add: assms(2) h)
    show "only_commit pf pf'"
      by (rule only_commit_trans [OF only_commit_later only_commit_handle [OF assms(1) h]])
    show "region_squashes pf' = Suc (region_squashes pf)" using handleSquash_left(2) [OF h nonempty] by simp
    show "squashes_left pf' < squashes_left pf" using handleSquash_left(1) [OF h nonempty] left by simp
    show "pf_accesses pf' = (if retries_used (region_squashes pf) then [] else pf_accesses pf)"
      using h by (auto simp: handleSquash_adaptive [OF assms(1)])
    show "pf_elapsed pf' = pf_elapsed (sleep_until (pf_elapsed pf +
        (if retries_used (region_squashes pf) then CYCLE_LATENCY else 1) * pf_exec_cost pf) pf)"
      using h by (auto simp: handleSquash_adaptive [OF assms(1)] sleep_until_elapsed)
  qed
qed

lemma commit_loop_done: "\<not> conflict_now env pf \<Longrightarrow> commit_loop env pf = Inr (later pf)"
  by (subst commit_loop.simps) simp

definition no_conflict_before :: "'m perf_env \<Rightarrow> ('m, 'c) perf_model_scheme \<Rightarrow> bool" where
  "no_conflict_before env pf \<longleftrightarrow>
     (\<exists>n. pf_now pf = Suc n \<and> \<not> conflict_now env (pf\<lparr>pf_now := n\<rparr>))"

lemma commit_loop_returns:
  assumes "pe_period env \<noteq> 0"
  shows "\<exists>pf'. commit_loop env pf = Inr pf' \<and> only_commit pf pf' \<and> no_conflict_before env pf' \<and>
    region_squashes pf' \<le> region_squashes pf + squashes_left pf \<and>
    (pf_accesses pf' = pf_accesses pf \<or> pf_accesses pf' = [])"
proof (induction "squashes_left pf" arbitrary: pf rule: less_induct)
  case less
  show ?case
  proof (cases "conflict_now env pf")
    case True
    from commit_loop_step [OF assms this] obtain pf1 where "commit_loop env pf = commit_loop env pf1"
      and only: "only_commit pf pf1" and r: "region_squashes pf1 = Suc (region_squashes pf)"
      and left: "squashes_left pf1 < squashes_left pf"
      and acc: "pf_accesses pf1 = (if retries_used (region_squashes pf) then [] else pf_accesses pf)" .
    with less.hyps [OF left] only_commit_trans [OF only] show ?thesis by (force split: if_splits)
  next
    case False
    then have "no_conflict_before env (later pf)" by (simp add: no_conflict_before_def later_def)
    with commit_loop_done [OF False] only_commit_later show ?thesis by (intro exI [of _ "later pf"]) simp
  qed
qed

lemma deref_cong: "pf_live a = pf_live b \<Longrightarrow> pf_now a = pf_now b \<Longrightarrow> deref env a = deref env b"
  by (intro ext) (simp add: deref_def cong: option.case_cong)

lemma deref_sleep [simp]: "deref env (sleep_until t pf) = deref env pf"
  by (rule deref_cong) simp_all

lemma only_commit_commit:
  assumes "only_commit (pf\<lparr>pf_commit_count := n\<rparr>) pf'"
  shows "only_commit pf pf'"
  using assms by (simp add: only_commit_def)

text \<open>A commit returns; the last check found no conflict; when the record is not forgotten it is the one the
  core had.\<close>

lemma commit_spec:
  assumes "pe_period env \<noteq> 0"
  obtains pf1 pf' where "commit_loop env (pf\<lparr>pf_commit_count := Suc (pf_commit_count pf)\<rparr>) = Inr pf1"
    and "commit env pf = Inr pf'" and "only_commit pf pf'" and "no_conflict_before env pf'"
    and "pf' = sleep_until (pf_elapsed pf1 + TimeNS (of_nat (getNumMemWrites env pf'))) pf1"
    and "region_squashes pf' \<le> region_squashes pf + squashes_left pf"
    and "pf_accesses pf' = pf_accesses pf \<or> pf_accesses pf' = []"
proof -
  let ?pf = "pf\<lparr>pf_commit_count := Suc (pf_commit_count pf)\<rparr>"
  from commit_loop_returns [OF assms, of ?pf] obtain pf1 where l: "commit_loop env ?pf = Inr pf1"
    and only: "only_commit ?pf pf1" and nc: "no_conflict_before env pf1"
    and r: "region_squashes pf1 \<le> region_squashes ?pf + squashes_left ?pf"
    and acc: "pf_accesses pf1 = pf_accesses ?pf \<or> pf_accesses pf1 = []" by blast
  define pf' where "pf' = sleep_until (pf_elapsed pf1 + TimeNS (of_nat (getNumMemWrites env pf1))) pf1"
  have w: "getNumMemWrites env pf' = getNumMemWrites env pf1"
    by (simp add: getNumMemWrites_def pf'_def)
  have now: "conflict_now env (pf'\<lparr>pf_now := n\<rparr>) = conflict_now env (pf1\<lparr>pf_now := n\<rparr>)" for n
    using deref_cong [of "pf'\<lparr>pf_now := n\<rparr>" "pf1\<lparr>pf_now := n\<rparr>" env] by (simp add: conflict_now_def pf'_def)
  show thesis
  proof (rule that [OF l])
    show "commit env pf = Inr pf'" by (simp add: commit_def l queueSleep_eq pf'_def)
    show "only_commit pf pf'"
      unfolding pf'_def by (rule only_commit_trans [OF only_commit_commit [OF only] only_commit_sleep])
    show "no_conflict_before env pf'" using nc by (simp add: no_conflict_before_def now) (simp add: pf'_def)
    show "pf' = sleep_until (pf_elapsed pf1 + TimeNS (of_nat (getNumMemWrites env pf'))) pf1"
      by (simp add: w) (simp add: pf'_def)
    show "region_squashes pf' \<le> region_squashes pf + squashes_left pf"
      using r by (simp add: pf'_def squashes_left_def cong: if_cong)
    show "pf_accesses pf' = pf_accesses pf \<or> pf_accesses pf' = []" using acc by (simp add: pf'_def)
  qed
qed

end
