(* ===== verification/Perf_Cores.thy ===== *)
theory Perf_Cores
  imports Perf_Model
begin

text \<open>
  The core models of common/performance_model/performance_models that handle one instruction at a time:
  simple, magic, one instruction per cycle, and in-order with out-of-order memory.

  \<open>handleInstruction\<close> returns \<open>False\<close> when the information on the instruction is not there yet; what it has
  taken from the queue by then is gone.
\<close>

type_synonym ('m, 'c) handler = "instruction \<Rightarrow> ('m, 'c) perf_model_scheme \<Rightarrow> (bool \<times> ('m, 'c) perf_model_scheme) res"

definition expected_info :: "operand \<Rightarrow> di_type_t" where
  "expected_info op = (case op_direction op of OP_READ \<Rightarrow> MEMORY_READ | OP_WRITE \<Rightarrow> MEMORY_WRITE)"

definition memory_info ::
  "'m perf_env \<Rightarrow> instruction \<Rightarrow> operand \<Rightarrow> ('m, 'c) perf_model_scheme \<Rightarrow> (dyn_info option \<times> ('m, 'c) perf_model_scheme) res" where
  "memory_info env i op pf =
     bindE (getDynamicInstructionInfo env i True pf) (\<lambda>(info, pf).
     case info of None \<Rightarrow> Inr (None, pf)
     | Some info \<Rightarrow> assertE (di_type info = expected_info op) ''Expected memory info'' (Inr (Some info, pf)))"

subsection \<open>Simple and magic\<close>

text \<open>The latencies of the memory operands; \<open>None\<close> when the information has run out.\<close>

primrec operand_costs ::
  "'m perf_env \<Rightarrow> instruction \<Rightarrow> operand list \<Rightarrow> time \<Rightarrow> ('m, 'c) perf_model_scheme \<Rightarrow>
    (time option \<times> ('m, 'c) perf_model_scheme) res" where
  "operand_costs env i [] cost pf = Inr (Some cost, pf)"
| "operand_costs env i (op # ops) cost pf =
     (if op_type op = OP_MEMORY then
        bindE (memory_info env i op pf) (\<lambda>(info, pf).
        case info of None \<Rightarrow> Inr (None, pf)
        | Some info \<Rightarrow>
            bindE (popDynamicInstructionInfo pf) (operand_costs env i ops (cost + di_latency info)))
      else operand_costs env i ops cost pf)"

definition count_instruction :: "time \<Rightarrow> ('m, 'c) perf_model_scheme \<Rightarrow> ('m, 'c) perf_model_scheme" where
  "count_instruction cost pf =
     pf\<lparr>pf_instruction_count := pf_instruction_count pf + 1, pf_elapsed := pf_elapsed pf + cost\<rparr>"

definition simple_handleInstruction :: "'m perf_env \<Rightarrow> ('m, 'c) handler" where
  "simple_handleInstruction env i pf =
     bindE (operand_costs env i (in_operands i) 0 pf) (\<lambda>(cost, pf).
     case cost of None \<Rightarrow> Inr (False, pf)
     | Some cost \<Rightarrow>
         bindE (getCost env i pf) (\<lambda>(i_cost, pf).
         if i_cost = MaxTime then Inr (False, pf)
         else bindE (getCost env i pf) (\<lambda>(i_cost, pf).
           Inr (True, count_instruction (cost + i_cost) pf))))"

definition magic_isModeled :: "instruction \<Rightarrow> bool" where
  "magic_isModeled i = isDynamic i"

definition magic_handleInstruction :: "'m perf_env \<Rightarrow> ('m, 'c) handler" where
  "magic_handleInstruction env i pf =
     bindE (operand_costs env i (in_operands i) 0 pf) (\<lambda>(cost, pf).
     case cost of None \<Rightarrow> Inr (False, pf)
     | Some cost \<Rightarrow>
         bindE (getCost env i pf) (\<lambda>(instruction_cost, pf).
         if instruction_cost = MaxTime then Inr (False, pf)
         else Inr (True, count_instruction
           (if magic_isModeled i then cost + instruction_cost else cost + pe_period env * 1) pf)))"

subsection \<open>One instruction per cycle\<close>

text \<open>\<open>m_cpiDataCache\<close> has an entry for every place.\<close>

record 'm oneipc_model = "'m perf_model" +
  oi_latency_cutoff :: u64
  oi_cpi_base :: time
  oi_cpi_branch :: time
  oi_cpi_data :: "where_t \<Rightarrow> time"

text \<open>Reads up to the cutoff and writes are free; the place of the first operand is where the time counts.\<close>

primrec oneipc_operands ::
  "'m perf_env \<Rightarrow> instruction \<Rightarrow> operand list \<Rightarrow> time \<Rightarrow> where_t option \<Rightarrow> 'm oneipc_model \<Rightarrow>
    ((time \<times> where_t option) option \<times> 'm oneipc_model) res" where
  "oneipc_operands env i [] cost at pf = Inr (Some (cost, at), pf)"
| "oneipc_operands env i (op # ops) cost at pf =
     (if op_type op = OP_MEMORY then
        bindE (memory_info env i op pf) (\<lambda>(info, pf).
        case info of None \<Rightarrow> Inr (None, pf)
        | Some info \<Rightarrow>
            bindE (popDynamicInstructionInfo pf) (oneipc_operands env i ops
              (if op_direction op = OP_READ \<and> pe_period env * oi_latency_cutoff pf < di_latency info
               then cost + di_latency info else cost)
              (if at = None then Some (di_hit_where info) else at)))
      else oneipc_operands env i ops cost at pf)"

definition oneipc_isModeled :: "instruction \<Rightarrow> bool" where
  "oneipc_isModeled i \<longleftrightarrow> isDynamic i \<or> in_type i = INST_BRANCH"

definition oneipc_addCpi :: "where_t option \<Rightarrow> instruction \<Rightarrow> time \<Rightarrow> 'm oneipc_model \<Rightarrow> 'm oneipc_model" where
  "oneipc_addCpi at i cost pf =
     (case at of
        Some w \<Rightarrow> pf\<lparr>oi_cpi_data := (oi_cpi_data pf)(w := oi_cpi_data pf w + cost)\<rparr>
      | None \<Rightarrow> if in_type i = INST_BRANCH then pf\<lparr>oi_cpi_branch := oi_cpi_branch pf + cost\<rparr>
                else pf\<lparr>oi_cpi_base := oi_cpi_base pf + cost\<rparr>)"

definition oneipc_handleInstruction ::
  "'m perf_env \<Rightarrow> instruction \<Rightarrow> 'm oneipc_model \<Rightarrow> (bool \<times> 'm oneipc_model) res" where
  "oneipc_handleInstruction env i pf =
     bindE (oneipc_operands env i (in_operands i) 0 None pf) (\<lambda>(r, pf).
     case r of None \<Rightarrow> Inr (False, pf)
     | Some (cost, at) \<Rightarrow>
         bindE (getCost env i pf) (\<lambda>(instruction_cost, pf).
         if instruction_cost = MaxTime then Inr (False, pf)
         else
           assertE (in_type i \<noteq> INST_SYNC \<and> in_type i \<noteq> INST_RECV) ''Unexpected non-idle instruction''
             (let cost = (if oneipc_isModeled i then cost + instruction_cost else cost + pe_period env * 1) in
              Inr (True, oneipc_addCpi at i cost (count_instruction cost pf)))))"

subsection \<open>Load unit and store buffer\<close>

text \<open>The unit that is free first, the lowest of several.\<close>

definition earliest_unit :: "time list \<Rightarrow> nat" where
  "earliest_unit sb = foldl (\<lambda>unit i. if sb ! i < sb ! unit then i else unit) 0 [0..<length sb]"

definition loadunit_execute :: "time \<Rightarrow> time \<Rightarrow> time list \<Rightarrow> (time \<times> time list) res" where
  "loadunit_execute t occupancy sb =
     (case find_first (\<lambda>s. s \<le> t) sb of
        Some i \<Rightarrow> Inr (t, sb[i := t + occupancy])
      | None \<Rightarrow>
          let unit = earliest_unit sb in
          if unit < length sb then Inr (sb ! unit, sb[unit := sb ! unit + occupancy])
          else Inl (Out_Of_Range ''m_scoreboard''))"

record store_buffer =
  stb_times :: "time list"
  stb_addresses :: "addr list"

definition StoreBuffer :: "nat \<Rightarrow> store_buffer" where
  "StoreBuffer num_entries = \<lparr>stb_times = replicate num_entries 0, stb_addresses = replicate num_entries 0\<rparr>"

definition storebuffer_execute :: "time \<Rightarrow> time \<Rightarrow> addr \<Rightarrow> store_buffer \<Rightarrow> (time \<times> store_buffer) res" where
  "storebuffer_execute t occupancy a b =
     (case find_first (\<lambda>x. x = a) (stb_addresses b) of
        Some i \<Rightarrow> Inr (t, b\<lparr>stb_times := (stb_times b)[i := t + occupancy]\<rparr>)
      | None \<Rightarrow>
          (case find_first (\<lambda>s. s \<le> t) (stb_times b) of
             Some i \<Rightarrow> Inr (t, b\<lparr>stb_times := (stb_times b)[i := t + occupancy],
               stb_addresses := (stb_addresses b)[i := a]\<rparr>)
           | None \<Rightarrow>
               let unit = earliest_unit (stb_times b) in
               if unit < length (stb_times b) then
                 Inr (stb_times b ! unit,
                   b\<lparr>stb_times := (stb_times b)[unit := stb_times b ! unit + occupancy],
                     stb_addresses := (stb_addresses b)[unit := a]\<rparr>)
               else Inl (Out_Of_Range ''m_scoreboard'')))"

datatype sb_status_t = SB_VALID | SB_COMPLETED | SB_NOT_FOUND

definition isAddressAvailable :: "time \<Rightarrow> addr \<Rightarrow> store_buffer \<Rightarrow> sb_status_t" where
  "isAddressAvailable t a b =
     (case find_first (\<lambda>x. x = a) (stb_addresses b) of
        None \<Rightarrow> SB_NOT_FOUND
      | Some i \<Rightarrow> if t \<le> stb_times b ! i then SB_VALID else SB_COMPLETED)"

subsection \<open>In-order core with out-of-order memory\<close>

record 'm iocoom_model = "'m perf_model" +
  io_registers :: "time list"
  io_load_unit :: "time list"
  io_store_buffer :: store_buffer

definition IOCOOM_WRITE_QUEUE :: nat where "IOCOOM_WRITE_QUEUE = 63"

definition executeLoad :: "time \<Rightarrow> dyn_info \<Rightarrow> 'm iocoom_model \<Rightarrow> ((time \<times> time) \<times> 'm iocoom_model) res" where
  "executeLoad t info pf =
     (let status = isAddressAvailable t (di_addr info) (io_store_buffer pf) in
      if status = SB_VALID \<or> di_hit_where info = HW_L1_OWN \<and> status = SB_COMPLETED then Inr ((t, 0), pf)
      else bindE (loadunit_execute t (di_latency info) (io_load_unit pf)) (\<lambda>(ready, unit).
        Inr ((ready, di_latency info), pf\<lparr>io_load_unit := unit\<rparr>)))"

definition executeStore :: "time \<Rightarrow> dyn_info \<Rightarrow> 'm iocoom_model \<Rightarrow> (time \<times> 'm iocoom_model) res" where
  "executeStore t info pf =
     bindE (storebuffer_execute t (di_latency info) (di_addr info) (io_store_buffer pf)) (\<lambda>(ready, b).
     Inr (ready, pf\<lparr>io_store_buffer := b\<rparr>))"

definition modelIcache :: "'m perf_env \<Rightarrow> addr \<Rightarrow> u32 \<Rightarrow> ('m, 'c) perf_model_scheme \<Rightarrow> ('m, 'c) perf_model_scheme" where
  "modelIcache env a sz pf =
     (let (access_time, mem) = pe_ifetch env a sz (pf_mem pf) in
      pf\<lparr>pf_mem := mem, pf_elapsed := pf_elapsed pf + access_time\<rparr>)"

text \<open>When the registers that are read are available.\<close>

primrec registers_ready :: "time list \<Rightarrow> operand list \<Rightarrow> time \<Rightarrow> time res" where
  "registers_ready regs [] ready = Inr ready"
| "registers_ready regs (op # ops) ready =
     (if op_direction op = OP_READ \<and> op_type op = OP_REG then
        assertE (unat (op_value op) < length regs) ''Register value out of range''
          (registers_ready regs ops (let r = regs ! unat (op_value op) in if ready < r then r else ready))
      else registers_ready regs ops ready)"

text \<open>Memory operands in order: when the next read can start, the longest load, and the writes for later.\<close>

primrec iocoom_memory ::
  "'m perf_env \<Rightarrow> instruction \<Rightarrow> operand list \<Rightarrow> time \<Rightarrow> time \<Rightarrow> dyn_info list \<Rightarrow> 'm iocoom_model \<Rightarrow>
    ((time \<times> time \<times> dyn_info list) option \<times> 'm iocoom_model) res" where
  "iocoom_memory env i [] ready max_load writes pf = Inr (Some (ready, max_load, writes), pf)"
| "iocoom_memory env i (op # ops) ready max_load writes pf =
     (if op_type op = OP_MEMORY then
        bindE (memory_info env i op pf) (\<lambda>(info, pf).
        case info of None \<Rightarrow> Inr (None, pf)
        | Some info \<Rightarrow>
            (if op_direction op = OP_READ then
               bindE (executeLoad ready info pf) (\<lambda>((load_ready, load_latency), pf).
               bindE (popDynamicInstructionInfo pf)
                 (iocoom_memory env i ops (if ready < load_ready then load_ready else ready)
                   (if max_load < load_latency then load_latency else max_load) writes))
             else
               assertE (length writes < IOCOOM_WRITE_QUEUE) ''!full()''
                 (bindE (popDynamicInstructionInfo pf)
                   (iocoom_memory env i ops ready max_load (writes @ [info])))))
      else iocoom_memory env i ops ready max_load writes pf)"

primrec registers_write :: "operand list \<Rightarrow> time \<Rightarrow> time list \<Rightarrow> time \<Rightarrow> (time \<times> time list) res" where
  "registers_write [] completion regs ready = Inr (ready, regs)"
| "registers_write (op # ops) completion regs ready =
     (if op_direction op = OP_WRITE \<and> op_type op = OP_REG then
        if unat (op_value op) < length regs then
          registers_write ops completion (regs[unat (op_value op) := completion])
            (if ready < completion then completion else ready)
        else Inl (Out_Of_Range ''m_register_scoreboard'')
      else registers_write ops completion regs ready)"

primrec memory_write ::
  "operand list \<Rightarrow> time \<Rightarrow> dyn_info list \<Rightarrow> time \<Rightarrow> 'm iocoom_model \<Rightarrow> ((time \<times> dyn_info list) \<times> 'm iocoom_model) res" where
  "memory_write [] completion writes ready pf = Inr ((ready, writes), pf)"
| "memory_write (op # ops) completion writes ready pf =
     (if op_direction op = OP_WRITE \<and> op_type op = OP_MEMORY then
        assertE (writes \<noteq> []) ''!empty()''
          (bindE (executeStore completion (hd writes) pf) (\<lambda>(store_time, pf).
           memory_write ops completion (tl writes) (if ready < store_time then store_time else ready) pf))
      else memory_write ops completion writes ready pf)"

text \<open>The second half, once the operands are there. The assignment of the completion time to the elapsed time
  goes to a temporary: it has no effect.\<close>

definition iocoom_complete ::
  "operand list \<Rightarrow> time \<Rightarrow> time \<Rightarrow> dyn_info list \<Rightarrow> 'm iocoom_model \<Rightarrow> (bool \<times> 'm iocoom_model) res" where
  "iocoom_complete ops completion elapsed writes pf =
     (let pf = pf\<lparr>pf_instruction_count := pf_instruction_count pf + 1\<rparr> in
      bindE (registers_write ops completion (io_registers pf) elapsed) (\<lambda>(ready, regs).
      bindE (memory_write ops completion writes ready (pf\<lparr>io_registers := regs\<rparr>)) (\<lambda>((ready, writes), pf).
      let pf = (if pf_elapsed pf < ready then pf\<lparr>pf_elapsed := ready\<rparr> else pf) in
      assertE (writes = []) ''Some write info left over?'' (Inr (True, pf)))))"

definition iocoom_handleInstruction ::
  "'m perf_env \<Rightarrow> instruction \<Rightarrow> 'm iocoom_model \<Rightarrow> (bool \<times> 'm iocoom_model) res" where
  "iocoom_handleInstruction env i pf =
     bindE (getCost env i pf) (\<lambda>(i_cost, pf).
     if i_cost = MaxTime then Inr (False, pf)
     else
       bindE (getCost env i pf) (\<lambda>(cost, pf).
       let pf = (if in_addr i \<noteq> 0 then modelIcache env (in_addr i) (in_size i) pf else pf); elapsed = pf_elapsed pf in
       bindE (registers_ready (io_registers pf) (in_operands i) elapsed) (\<lambda>ready.
       bindE (iocoom_memory env i (in_operands i) ready 0 [] pf) (\<lambda>(r, pf).
       case r of None \<Rightarrow> Inr (False, pf)
       | Some (ready, max_load, writes) \<Rightarrow>
           iocoom_complete (in_operands i) (ready + max_load + cost) elapsed writes pf))))"

end
