(* ===== verification/Iterate.thy ===== *)
theory Iterate
  imports Commit Perf_Cores
begin

text \<open>
  \<open>PerformanceModel::iterate\<close> (common/performance_model/performance_model.cc): the loop that takes
  instructions from the queue of basic blocks, records their memory operands, has the core model handle them
  and commits a region after every 200. The instruction tracer and the synchronization of clocks at the end
  are left out.
\<close>

subsection \<open>Recording operands\<close>

text \<open>\<open>memoryAccesses[v]\<close> makes an empty set when there is none; the pointer is added unless the set has an
  operand of the same value and direction. The set is ordered by address, which nothing depends on.\<close>

definition record_operand ::
  "'m perf_env \<Rightarrow> u64 \<times> operand \<Rightarrow> ('m, 'c) perf_model_scheme \<Rightarrow> ('m, 'c) perf_model_scheme" where
  "record_operand env = (\<lambda>(p, op) pf.
     let ptrs = (case map_of (pf_accesses pf) (op_value op) of None \<Rightarrow> [] | Some ptrs \<Rightarrow> ptrs);
         flag = list_ex (\<lambda>q. op_value (deref env pf q) = op_value op \<and>
                             op_direction (deref env pf q) = op_direction op) ptrs
     in pf\<lparr>pf_accesses := AList.update (op_value op) (if flag then ptrs else List.insert p ptrs) (pf_accesses pf)\<rparr>)"

text \<open>The local copy of an instruction's operands.\<close>

definition copyOperands ::
  "'m perf_env \<Rightarrow> instruction \<Rightarrow> ('m, 'c) perf_model_scheme \<Rightarrow> ('m, 'c) perf_model_scheme" where
  "copyOperands env i pf =
     later (pf\<lparr>pf_live := zip (map (wd_ptr (pe_world env (pf_now pf))) [0..<length (in_operands i)]) (in_operands i),
       pf_mem_ins := pf_mem_ins pf @ [in_number i]\<rparr>)"

primrec record_operands ::
  "'m perf_env \<Rightarrow> instruction \<Rightarrow> (u64 \<times> operand) list \<Rightarrow> ('m, 'c) perf_model_scheme \<Rightarrow> ('m, 'c) perf_model_scheme res" where
  "record_operands env i [] pf = Inr pf"
| "record_operands env i (x # xs) pf =
     (if op_type (snd x) = OP_MEMORY then
        if pf_translated pf (in_number i) then
          bindE (commit env pf) (\<lambda>pf. record_operands env i xs ((resetMemMap pf)\<lparr>pf_count := 0\<rparr>))
        else record_operands env i xs (record_operand env x pf)
      else record_operands env i xs pf)"

subsection \<open>One instruction\<close>

definition add_exec_cost :: "'m perf_env \<Rightarrow> instruction \<Rightarrow> ('m, 'c) perf_model_scheme \<Rightarrow> ('m, 'c) perf_model_scheme res" where
  "add_exec_cost env i pf =
     (if in_type i \<noteq> INST_STRING \<and> in_type i \<noteq> INST_BRANCH then
        bindE (getCost env i pf) (\<lambda>(inst_cost, pf). Inr (pf\<lparr>pf_exec_cost := pf_exec_cost pf + inst_cost\<rparr>))
      else Inr pf)"

definition end_region :: "'m perf_env \<Rightarrow> ('m, 'c) perf_model_scheme \<Rightarrow> ('m, 'c) perf_model_scheme res" where
  "end_region env pf =
     (if pf_count pf = REGION_SIZE \<or> canCommit AdaptiveRetryInterpret pf then
        bindE (commit env pf) (\<lambda>pf. Inr ((resetMemMap (pf\<lparr>pf_count := 0, pf_exec_cost := 0\<rparr>))\<lparr>pf_mem_ins := []\<rparr>))
      else Inr pf)"

definition iterate_ins ::
  "'m perf_env \<Rightarrow> ('m, 'c) handler \<Rightarrow> instruction \<Rightarrow> ('m, 'c) perf_model_scheme \<Rightarrow> (bool \<times> ('m, 'c) perf_model_scheme) res" where
  "iterate_ins env handleInstruction i pf =
     assertE (\<not> isIdle i) ''Idle instructions should not make it here!''
     (let pf = copyOperands env i pf in
      bindE (record_operands env i (pf_live pf) pf) (\<lambda>pf.
      bindE (handleInstruction i pf) (\<lambda>(r, pf).
      bindE (add_exec_cost env i (pf\<lparr>pf_count := Suc (pf_count pf)\<rparr>)) (\<lambda>pf.
      bindE (end_region env pf) (\<lambda>pf.
      Inr (r, pf\<lparr>pf_live := []\<rparr>))))))"

subsection \<open>The loops\<close>

text \<open>The rest of a block; \<open>False\<close> when the core model has to wait for information.\<close>

primrec iterate_block ::
  "'m perf_env \<Rightarrow> ('m, 'c) handler \<Rightarrow> instruction list \<Rightarrow> ('m, 'c) perf_model_scheme \<Rightarrow>
    (bool \<times> ('m, 'c) perf_model_scheme) res" where
  "iterate_block env handleInstruction [] pf = Inr (True, pf)"
| "iterate_block env handleInstruction (i # is) pf =
     bindE (iterate_ins env handleInstruction i pf) (\<lambda>(r, pf).
     if r then iterate_block env handleInstruction is (pf\<lparr>pf_ins_index := Suc (pf_ins_index pf)\<rparr>)
     else Inr (False, pf))"

definition iterate_front ::
  "'m perf_env \<Rightarrow> ('m, 'c) handler \<Rightarrow> ('m, 'c) perf_model_scheme \<Rightarrow> (bool \<times> ('m, 'c) perf_model_scheme) res" where
  "iterate_front env handleInstruction pf =
     bindE (iterate_block env handleInstruction (drop (pf_ins_index pf) (hd (pf_blocks pf))) (pf\<lparr>pf_exec_cost := 0\<rparr>))
       (\<lambda>(finished, pf).
     if finished then Inr (True, pf\<lparr>pf_blocks := tl (pf_blocks pf), pf_ins_index := 0\<rparr>) else Inr (False, pf))"

text \<open>The loop over blocks leaves the last block in the queue. It is a partial function: that it ends is a
  property of the core model.\<close>

partial_function (option) iterate ::
  "'m perf_env \<Rightarrow> ('m, 'c) handler \<Rightarrow> ('m, 'c) perf_model_scheme \<Rightarrow> ('m, 'c) perf_model_scheme res option" where
  [code]: "iterate env handleInstruction pf =
     (if 1 < length (pf_blocks pf) then
        (case iterate_front env handleInstruction pf of
           Inl e \<Rightarrow> Some (Inl e)
         | Inr (finished, pf) \<Rightarrow> if finished then iterate env handleInstruction pf else Some (Inr pf))
      else Some (Inr pf))"

subsection \<open>What a core model may change\<close>

definition same_region :: "('m, 'c) perf_model_scheme \<Rightarrow> ('m, 'c) perf_model_scheme \<Rightarrow> bool" where
  "same_region pf pf' \<longleftrightarrow>
     pf_blocks pf' = pf_blocks pf \<and> pf_ins_index pf' = pf_ins_index pf \<and> pf_accesses pf' = pf_accesses pf \<and>
     pf_count pf' = pf_count pf \<and> pf_exec_cost pf' = pf_exec_cost pf \<and> pf_commit_count pf' = pf_commit_count pf \<and>
     pf_mem_ins pf' = pf_mem_ins pf \<and> pf_translated pf' = pf_translated pf \<and> pf_handlers pf' = pf_handlers pf \<and>
     pf_live pf' = pf_live pf \<and> pf_now pf' = pf_now pf \<and> pf_enabled pf' = pf_enabled pf \<and>
     pf_fastforward pf' = pf_fastforward pf \<and> pf_detailed_sync pf' = pf_detailed_sync pf"

lemma same_region_refl [simp]: "same_region pf pf"
  by (simp add: same_region_def)

lemma same_region_trans: "same_region a b \<Longrightarrow> same_region b c \<Longrightarrow> same_region a c"
  by (simp add: same_region_def)

lemma same_region_updates [simp]:
  "same_region pf (pf\<lparr>pf_infos := x1\<rparr>)" "same_region pf (pf\<lparr>pf_bp := x2\<rparr>)" "same_region pf (pf\<lparr>pf_mem := x3\<rparr>)"
  "same_region pf (pf\<lparr>pf_infos := x1, pf_mem := x3\<rparr>)"
  "same_region pf (count_instruction c pf)"
  by (simp_all add: same_region_def count_instruction_def)

lemma pop_same: "popDynamicInstructionInfo pf = Inr pf' \<Longrightarrow> same_region pf pf'"
  by (auto simp: popDynamicInstructionInfo_def)

lemma get_info_same: "getDynamicInstructionInfo env i b pf = Inr (info, pf') \<Longrightarrow> same_region pf pf'"
  by (auto simp: getDynamicInstructionInfo_def Let_def split: list.splits prod.splits)

lemma string_cost_same: "string_cost env i infos n c pf = Inr (c', pf') \<Longrightarrow> same_region pf pf'"
proof (induction infos arbitrary: n c pf)
  case (Cons info infos)
  obtain info1 mem where acc: "access_info env True (in_atomic i) (in_addr i) info (pf_mem pf) = (info1, mem)"
    by fastforce
  show ?case
  proof (cases "di_type info1 = DI_STRING")
    case True
    with Cons.prems acc show ?thesis by (auto simp: Let_def same_region_def)
  next
    case False
    with Cons.prems acc have "string_cost env i infos (n + 1) (c + di_latency info1) (pf\<lparr>pf_mem := mem\<rparr>) = Inr (c', pf')"
      by (simp add: Let_def)
    from Cons.IH [OF this] show ?thesis by (simp add: same_region_def)
  qed
qed auto

lemma branch_cost_same:
  assumes "branch_cost env i pf = Inr (c, pf')"
  shows "same_region pf pf'"
proof -
  from assms obtain info pf1 where g: "getDynamicInstructionInfo env i True pf = Inr (info, pf1)"
    and r: "(case info of None \<Rightarrow> Inr (MaxTime, pf1)
     | Some info \<Rightarrow>
         assertE (di_type info = DI_BRANCH) ''Expected branch DynInstrInfo''
         (bindE (case pf_bp pf1 of None \<Rightarrow> Inr (False, pf1)
            | Some bp \<Rightarrow>
                bindE (bp_predict (in_addr i) bp) (\<lambda>(prediction, bp).
                bindE (bp_update prediction (di_taken info) (in_addr i) (di_target info) bp) (\<lambda>bp.
                Inr (prediction \<noteq> di_taken info, pf1\<lparr>pf_bp := Some bp\<rparr>)))) (\<lambda>(is_mispredict, pf).
          bindE (popDynamicInstructionInfo pf) (\<lambda>pf.
          Inr (pe_period env * (if is_mispredict then pf_mispredict_penalty pf else 1), pf))))) = Inr (c, pf')"
    unfolding branch_cost_def by (elim bindE_InrE) (auto split: prod.splits)
  show ?thesis
  proof (cases info)
    case None
    with g r show ?thesis by (auto dest: get_info_same)
  next
    case (Some di)
    show ?thesis
    proof (cases "pf_bp pf1")
      case None
      with Some r have "popDynamicInstructionInfo pf1 = Inr pf'" by (auto elim!: bindE_InrE)
      with g show ?thesis by (auto dest!: get_info_same pop_same intro: same_region_trans)
    next
      case (Some bp)
      with \<open>info = Some di\<close> r obtain bp1 where "popDynamicInstructionInfo (pf1\<lparr>pf_bp := Some bp1\<rparr>) = Inr pf'"
        by (auto elim!: bindE_InrE split: prod.splits)
      from pop_same [OF this] have "same_region pf1 pf'" by (simp add: same_region_def)
      with g show ?thesis by (auto dest!: get_info_same intro: same_region_trans)
    qed
  qed
qed

lemma getCost_same: "getCost env i pf = Inr (c, pf') \<Longrightarrow> same_region pf pf'"
  by (cases "in_class i") (auto simp: getCost_def bindE_Inr_iff dest: string_cost_same branch_cost_same)

lemma memory_info_same: "memory_info env i op pf = Inr (info, pf') \<Longrightarrow> same_region pf pf'"
  by (auto simp: memory_info_def bindE_Inr_iff dest: get_info_same split: option.splits)

end
