(* ===== verification/Commit_Props.thy ===== *)
theory Commit_Props
  imports Commit
begin

text \<open>
  What committing a region means (common/performance_model/performance_model.cc, squash handlers,
  core_manager.cc): when there is a conflict, how long a commit takes, and what the records that the
  front ends produce amount to.
\<close>

subsection \<open>Conflicts\<close>

text \<open>An access of a map: under a value, in a direction.\<close>

definition accesses_at :: "(u64 \<Rightarrow> operand) \<Rightarrow> mem_map \<Rightarrow> (u64 \<times> op_dir_t) set" where
  "accesses_at at m = {(v, op_direction (at p)) | v ptrs p. map_of m v = Some ptrs \<and> p \<in> set ptrs}"

lemma checkMemAccesses_iff:
  assumes "distinct (map fst m)"
  shows "checkMemAccesses me at cores m \<longleftrightarrow>
    (\<exists>c \<in> set cores. runs_beside me c \<and> (\<exists>v.
       ((v, OP_WRITE) \<in> accesses_at at m \<and> v \<in> dom (map_of (cv_accesses c))) \<or>
       ((v, OP_READ) \<in> accesses_at at m \<and> (v, OP_WRITE) \<in> accesses_at at (cv_accesses c))))" (is "?L \<longleftrightarrow> ?R")
proof
  assume ?L
  then obtain v ptrs p where m: "(v, ptrs) \<in> set m" and p: "p \<in> set ptrs"
    and c: "case op_direction (at p) of
         OP_WRITE \<Rightarrow> list_ex (\<lambda>c. runs_beside me c \<and> map_of (cv_accesses c) v \<noteq> None) cores
       | OP_READ \<Rightarrow> list_ex (\<lambda>c. runs_beside me c \<and>
           (case map_of (cv_accesses c) v of None \<Rightarrow> False
            | Some qs \<Rightarrow> list_ex (\<lambda>q. op_direction (at q) = OP_WRITE) qs)) cores"
    by (auto simp: checkMemAccesses_def list_ex_iff)
  from m assms have "map_of m v = Some ptrs" by simp
  with p have acc: "(v, op_direction (at p)) \<in> accesses_at at m" by (auto simp: accesses_at_def)
  show ?R
  proof (cases "op_direction (at p)")
    case OP_READ
    with c obtain d qs q where "d \<in> set cores" "runs_beside me d" "map_of (cv_accesses d) v = Some qs" "q \<in> set qs"
      "op_direction (at q) = OP_WRITE" by (auto simp: list_ex_iff split: option.splits)
    moreover from this have "(v, OP_WRITE) \<in> accesses_at at (cv_accesses d)" unfolding accesses_at_def by force
    ultimately show ?thesis using acc OP_READ by auto
  next
    case OP_WRITE
    with c acc show ?thesis by (auto simp: list_ex_iff)
  qed
next
  assume ?R
  then obtain c v where c: "c \<in> set cores" "runs_beside me c"
    and v: "(v, OP_WRITE) \<in> accesses_at at m \<and> v \<in> dom (map_of (cv_accesses c)) \<or>
      (v, OP_READ) \<in> accesses_at at m \<and> (v, OP_WRITE) \<in> accesses_at at (cv_accesses c)" by blast
  from v show ?L
  proof (elim disjE conjE)
    assume "(v, OP_WRITE) \<in> accesses_at at m" and d: "v \<in> dom (map_of (cv_accesses c))"
    then obtain ptrs p where "map_of m v = Some ptrs" "p \<in> set ptrs" "op_direction (at p) = OP_WRITE"
      by (auto simp: accesses_at_def)
    with c d show ?L unfolding checkMemAccesses_def list_ex_iff
      by (intro bexI [of _ "(v, ptrs)"])
        (auto intro!: bexI [of _ p] bexI [of _ c] dest: map_of_SomeD simp: list_ex_iff)
  next
    assume "(v, OP_READ) \<in> accesses_at at m" and "(v, OP_WRITE) \<in> accesses_at at (cv_accesses c)"
    then obtain ptrs p qs q where "map_of m v = Some ptrs" "p \<in> set ptrs" "op_direction (at p) = OP_READ"
      "map_of (cv_accesses c) v = Some qs" "q \<in> set qs" "op_direction (at q) = OP_WRITE"
      by (auto simp: accesses_at_def)
    with c show ?L unfolding checkMemAccesses_def list_ex_iff
      by (intro bexI [of _ "(v, ptrs)"] case_prodI bexI [of _ p]) (force dest: map_of_SomeD simp: list_ex_iff)+
  qed
qed

subsection \<open>The time of a commit\<close>

text \<open>In units of the region's cost: one for each of five retries, thirty for interpreting.\<close>

definition squash_units :: "nat \<Rightarrow> nat" where
  "squash_units n = (if n \<le> 5 then n else n + 29)"

lemma unat_sleep:
  assumes "sleeps pf" and "unat (pf_elapsed pf) + k * unat (pf_exec_cost pf) < 2 ^ 64" and "unat c = k"
  shows "unat (pf_elapsed (sleep_until (pf_elapsed pf + c * pf_exec_cost pf) pf)) =
    unat (pf_elapsed pf) + k * unat (pf_exec_cost pf)"
proof -
  have m: "unat (c * pf_exec_cost pf) = k * unat (pf_exec_cost pf)"
    using assms(2,3) unat_mult_u64 [of c "pf_exec_cost pf"] by simp
  have a: "unat (pf_elapsed pf + c * pf_exec_cost pf) = unat (pf_elapsed pf) + k * unat (pf_exec_cost pf)"
    using assms(2) m unat_add_u64 [of "pf_elapsed pf" "c * pf_exec_cost pf"] by simp
  then have "pf_elapsed pf \<le> pf_elapsed pf + c * pf_exec_cost pf" by (simp add: word_le_nat_alt)
  with a assms(1) show ?thesis by (simp add: sleep_until_elapsed max_def)
qed

lemma retries_used_small: "n \<le> 5 \<Longrightarrow> retries_used n \<longleftrightarrow> n = 5"
proof -
  assume "n \<le> 5"
  then have "n \<in> {0, 1, 2, 3, 4, 5}" by auto
  then show ?thesis by (auto simp: retries_used_def MAX_RETRIES_def)
qed

lemma commit_loop_time:
  assumes "pe_period env \<noteq> 0" and "sleeps pf" and "commit_loop env pf = Inr pf'"
    and "region_squashes pf \<le> 5 \<and>
      unat (pf_elapsed pf) + (35 - region_squashes pf) * unat (pf_exec_cost pf) < 2 ^ 64 \<or> pf_accesses pf = []"
  shows "region_squashes pf \<le> region_squashes pf' \<and> unat (pf_elapsed pf') = unat (pf_elapsed pf) +
    (squash_units (region_squashes pf') - squash_units (region_squashes pf)) * unat (pf_exec_cost pf)"
  using assms(2-4)
proof (induction "squashes_left pf" arbitrary: pf rule: less_induct)
  case less
  show ?case
  proof (cases "conflict_now env pf")
    case False
    with commit_loop_done [OF False] less.prems(2) show ?thesis by auto
  next
    case True
    let ?r = "region_squashes pf" and ?c = "unat (pf_exec_cost pf)"
    from conflict_accesses [OF True] less.prems(3) have r5: "?r \<le> 5"
      and fits: "unat (pf_elapsed pf) + (35 - ?r) * ?c < 2 ^ 64" by auto
    from commit_loop_step [OF assms(1) True] obtain pf1 where eq: "commit_loop env pf = commit_loop env pf1"
      and only: "only_commit pf pf1" and r1: "region_squashes pf1 = Suc ?r" and left: "squashes_left pf1 < squashes_left pf"
      and acc: "pf_accesses pf1 = (if retries_used ?r then [] else pf_accesses pf)"
      and el: "pf_elapsed pf1 = pf_elapsed (sleep_until (pf_elapsed pf +
        (if retries_used ?r then CYCLE_LATENCY else 1) * pf_exec_cost pf) pf)" .
    note same = only_commit_same [OF only]
    define k where "k = (if ?r = 5 then 30 else 1 :: nat)"
    have "k = 30 \<and> ?r = 5 \<or> k = 1" by (simp add: k_def)
    then have k: "k \<le> 35 - ?r" using r5 by (elim disjE conjE) linarith+
    have "unat (pf_elapsed pf) + k * ?c < 2 ^ 64" using fits mult_le_mono1 [OF k, of ?c] by linarith
    from unat_sleep [OF less.prems(1) this, of "if retries_used ?r then CYCLE_LATENCY else 1"]
    have e1: "unat (pf_elapsed pf1) = unat (pf_elapsed pf) + k * ?c"
      unfolding el by (simp add: k_def retries_used_small [OF r5] CYCLE_LATENCY_def split: if_splits)
    have "35 - ?r = k + (35 - ?r - k)" using k by linarith
    then have split: "(35 - ?r) * ?c = k * ?c + (35 - ?r - k) * ?c" by (metis add_mult_distrib)
    have pre: "region_squashes pf1 \<le> 5 \<and> unat (pf_elapsed pf1) + (35 - region_squashes pf1) * unat (pf_exec_cost pf1)
        < 2 ^ 64 \<or> pf_accesses pf1 = []"
    proof (cases "?r = 5")
      case True
      then show ?thesis by (simp add: acc retries_used_small)
    next
      case False
      with r5 fits split show ?thesis by (simp add: r1 e1 same(8) k_def)
    qed
    have "sleeps pf1" "commit_loop env pf1 = Inr pf'" using less.prems(1,2) same(9) eq by simp_all
    from less.hyps [OF left this pre] have ih: "Suc ?r \<le> region_squashes pf'"
      "unat (pf_elapsed pf') = unat (pf_elapsed pf) + k * ?c +
         (squash_units (region_squashes pf') - squash_units (Suc ?r)) * ?c"
      by (simp_all add: r1 e1 same(8))
    have "squash_units (Suc ?r) = squash_units ?r + k" using r5 by (auto simp: squash_units_def k_def)
    moreover have "squash_units (Suc ?r) \<le> squash_units (region_squashes pf')"
      using ih(1) by (auto simp: squash_units_def)
    ultimately have "k + (squash_units (region_squashes pf') - squash_units (Suc ?r)) =
        squash_units (region_squashes pf') - squash_units ?r" by linarith
    then have "k * ?c + (squash_units (region_squashes pf') - squash_units (Suc ?r)) * ?c =
        (squash_units (region_squashes pf') - squash_units ?r) * ?c" by (metis add_mult_distrib)
    with ih show ?thesis by simp
  qed
qed

definition record_size :: "mem_map \<Rightarrow> nat" where
  "record_size m = sum_list (map (\<lambda>(v, ptrs). length ptrs) m)"

lemma count_accesses_le: "count_accesses at dir m \<le> record_size m"
  unfolding count_accesses_def record_size_def by (rule sum_list_mono) auto

lemma unat_TimeNS:
  assumes "n * 1000000 < 2 ^ 64"
  shows "unat (TimeNS (of_nat n)) = n * 1000000"
proof -
  have "unat (of_nat n :: u64) = n" using assms by (simp add: unsigned_of_nat take_bit_nat_eq_self)
  with assms show ?thesis
    using unat_mult_u64 [of "of_nat n" NS_1] by (simp add: TimeNS_def NS_1_def PS_1_def FS_1_def)
qed

text \<open>A commit of a region takes the time of its squashes and a nanosecond for each write that the record
  still has.\<close>

lemma commit_time:
  assumes "pe_period env \<noteq> 0" and "sleeps pf" and "region_squashes pf = 0"
    and "unat (pf_elapsed pf) + 35 * unat (pf_exec_cost pf) + 1000000 * record_size (pf_accesses pf) < 2 ^ 64"
  obtains pf' where "commit env pf = Inr pf'" and "region_squashes pf' \<le> 6"
    and "unat (pf_elapsed pf') = unat (pf_elapsed pf) + squash_units (region_squashes pf') * unat (pf_exec_cost pf)
      + 1000000 * getNumMemWrites env pf'"
proof -
  let ?pf = "pf\<lparr>pf_commit_count := Suc (pf_commit_count pf)\<rparr>" and ?c = "unat (pf_exec_cost pf)"
  obtain pf1 pf' where l: "commit_loop env ?pf = Inr pf1" and c: "commit env pf = Inr pf'"
    and only: "only_commit pf pf'"
    and pf': "pf' = sleep_until (pf_elapsed pf1 + TimeNS (of_nat (getNumMemWrites env pf'))) pf1"
    and r: "region_squashes pf' \<le> region_squashes pf + squashes_left pf"
    and acc: "pf_accesses pf' = pf_accesses pf \<or> pf_accesses pf' = []"
    using commit_spec [OF assms(1), of pf] by blast
  have r6: "region_squashes pf' \<le> 6" using r squashes_left_le [of pf] assms(3) by simp
  have h: "region_squashes pf1 = region_squashes pf'" by (subst pf') simp
  have "sleeps ?pf" using assms(2) by (simp add: sleeps_def)
  with commit_loop_time [OF assms(1) _ l] assms(3,4)
  have t: "unat (pf_elapsed pf1) = unat (pf_elapsed pf) + squash_units (region_squashes pf1) * ?c"
    by (simp add: squash_units_def cong: if_cong)
  have "squash_units (region_squashes pf') \<le> 35" using r6 by (simp add: squash_units_def)
  then have u: "squash_units (region_squashes pf') * ?c \<le> 35 * ?c" by (rule mult_le_mono1)
  have "getNumMemWrites env pf' \<le> record_size (pf_accesses pf)"
    using acc count_accesses_le [of "deref env pf'" OP_WRITE "pf_accesses pf'"]
    by (auto simp: getNumMemWrites_def record_size_def)
  with assms(4) u have fits: "unat (pf_elapsed pf1) + getNumMemWrites env pf' * 1000000 < 2 ^ 64"
    unfolding t h by linarith
  then have w: "unat (TimeNS (of_nat (getNumMemWrites env pf'))) = getNumMemWrites env pf' * 1000000"
    by (intro unat_TimeNS) simp
  then have e: "unat (pf_elapsed pf1 + TimeNS (of_nat (getNumMemWrites env pf'))) =
      unat (pf_elapsed pf1) + getNumMemWrites env pf' * 1000000" using fits by (simp add: unat_add_u64)
  then have "pf_elapsed pf1 \<le> pf_elapsed pf1 + TimeNS (of_nat (getNumMemWrites env pf'))"
    by (simp add: word_le_nat_alt)
  moreover have "sleeps pf1"
    using only_commit_same(9) [OF only] assms(2) by (subst (asm) pf') simp
  ultimately have "pf_elapsed pf' = pf_elapsed pf1 + TimeNS (of_nat (getNumMemWrites env pf'))"
    by (subst pf') (simp add: sleep_until_elapsed max_def)
  with e t h that [OF c r6] show thesis by simp
qed

end
