(* ===== verification/Iterate_Props.thy ===== *)
theory Iterate_Props
  imports Iterate Commit_Props
begin

text \<open>
  Regions of instructions, for every core model: a core model is a handler of instructions that leaves the
  queue of blocks and the record of the region alone. The models of Perf_Cores are instances.
\<close>

subsection \<open>Core models\<close>

locale core_model =
  fixes handleInstruction :: "instruction \<Rightarrow> ('m, 'c) perf_model_scheme \<Rightarrow> (bool \<times> ('m, 'c) perf_model_scheme) res"
  assumes handle_same: "handleInstruction i pf = Inr (r, pf') \<Longrightarrow> same_region pf pf'"

lemma operand_costs_same: "operand_costs env i ops c pf = Inr (c', pf') \<Longrightarrow> same_region pf pf'"
proof (induction ops arbitrary: c pf)
  case (Cons op ops)
  show ?case
  proof (cases "op_type op = OP_MEMORY")
    case True
    with Cons.prems obtain info pf1 where m: "memory_info env i op pf = Inr (info, pf1)"
      and r: "(case info of None \<Rightarrow> Inr (None, pf1)
        | Some info \<Rightarrow> bindE (popDynamicInstructionInfo pf1) (operand_costs env i ops (c + di_latency info))) = Inr (c', pf')"
      by (auto elim!: bindE_InrE)
    show ?thesis
    proof (cases info)
      case None
      with m r show ?thesis by (auto dest: memory_info_same)
    next
      case (Some x)
      with r obtain pf2 where p: "popDynamicInstructionInfo pf1 = Inr pf2"
        and o: "operand_costs env i ops (c + di_latency x) pf2 = Inr (c', pf')" by (auto elim!: bindE_InrE)
      show ?thesis
        by (rule same_region_trans [OF memory_info_same [OF m] same_region_trans [OF pop_same [OF p] Cons.IH [OF o]]])
    qed
  next
    case False
    with Cons show ?thesis by auto
  qed
qed auto

lemma simple_same: "simple_handleInstruction env i pf = Inr (r, pf') \<Longrightarrow> same_region pf pf'"
proof -
  assume a: "simple_handleInstruction env i pf = Inr (r, pf')"
  then obtain c pf1 where o: "operand_costs env i (in_operands i) 0 pf = Inr (c, pf1)"
    unfolding simple_handleInstruction_def by (auto elim!: bindE_InrE)
  have s1: "same_region pf pf1" by (rule operand_costs_same [OF o])
  show ?thesis
  proof (cases c)
    case None
    with a o s1 show ?thesis by (simp add: simple_handleInstruction_def)
  next
    case (Some c)
    with a o obtain c2 pf2 where g: "getCost env i pf1 = Inr (c2, pf2)"
      and r: "(if c2 = MaxTime then Inr (False, pf2)
         else bindE (getCost env i pf2) (\<lambda>(i_cost, pf). Inr (True, count_instruction (c + i_cost) pf))) = Inr (r, pf')"
      by (auto simp: simple_handleInstruction_def elim!: bindE_InrE)
    have s2: "same_region pf pf2" by (rule same_region_trans [OF s1 getCost_same [OF g]])
    show ?thesis
    proof (cases "c2 = MaxTime")
      case True
      with r s2 show ?thesis by simp
    next
      case False
      with r obtain c3 pf3 where g3: "getCost env i pf2 = Inr (c3, pf3)" and pf': "pf' = count_instruction (c + c3) pf3"
        by (auto elim!: bindE_InrE)
      show ?thesis unfolding pf'
        by (rule same_region_trans [OF s2 same_region_trans [OF getCost_same [OF g3]]]) simp
    qed
  qed
qed

lemma magic_same: "magic_handleInstruction env i pf = Inr (r, pf') \<Longrightarrow> same_region pf pf'"
proof -
  assume a: "magic_handleInstruction env i pf = Inr (r, pf')"
  then obtain c pf1 where o: "operand_costs env i (in_operands i) 0 pf = Inr (c, pf1)"
    unfolding magic_handleInstruction_def by (auto elim!: bindE_InrE)
  have s1: "same_region pf pf1" by (rule operand_costs_same [OF o])
  show ?thesis
  proof (cases c)
    case None
    with a o s1 show ?thesis by (simp add: magic_handleInstruction_def)
  next
    case (Some c)
    with a o obtain c2 pf2 where g: "getCost env i pf1 = Inr (c2, pf2)" and r: "same_region pf2 pf'"
      by (auto simp: magic_handleInstruction_def elim!: bindE_InrE split: if_splits)
    show ?thesis by (rule same_region_trans [OF same_region_trans [OF s1 getCost_same [OF g]] r])
  qed
qed

lemma oneipc_operands_same: "oneipc_operands env i ops c at pf = Inr (x, pf') \<Longrightarrow> same_region pf pf'"
proof (induction ops arbitrary: c at pf)
  case (Cons op ops)
  show ?case
  proof (cases "op_type op = OP_MEMORY")
    case True
    with Cons.prems obtain info pf1 where m: "memory_info env i op pf = Inr (info, pf1)" by (auto elim!: bindE_InrE)
    show ?thesis
    proof (cases info)
      case None
      with m True Cons.prems show ?thesis by (auto dest: memory_info_same)
    next
      case (Some y)
      with Cons.prems True m obtain pf2 c1 at1 where p: "popDynamicInstructionInfo pf1 = Inr pf2"
        and o: "oneipc_operands env i ops c1 at1 pf2 = Inr (x, pf')"
        by simp (elim bindE_InrE, blast)
      show ?thesis
        by (rule same_region_trans [OF memory_info_same [OF m] same_region_trans [OF pop_same [OF p] Cons.IH [OF o]]])
    qed
  next
    case False
    with Cons show ?thesis by auto
  qed
qed auto

lemma oneipc_cpi_same: "same_region pf (oneipc_addCpi at i c (count_instruction t pf))"
  by (auto simp: oneipc_addCpi_def same_region_def count_instruction_def split: option.splits)

lemma oneipc_same: "oneipc_handleInstruction env i pf = Inr (r, pf') \<Longrightarrow> same_region pf pf'"
proof -
  assume a: "oneipc_handleInstruction env i pf = Inr (r, pf')"
  then obtain c pf1 where o: "oneipc_operands env i (in_operands i) 0 None pf = Inr (c, pf1)"
    unfolding oneipc_handleInstruction_def by (auto elim!: bindE_InrE)
  have s1: "same_region pf pf1" by (rule oneipc_operands_same [OF o])
  show ?thesis
  proof (cases c)
    case None
    with a o s1 show ?thesis by (simp add: oneipc_handleInstruction_def)
  next
    case (Some p)
    with a o obtain c2 pf2 where g: "getCost env i pf1 = Inr (c2, pf2)"
      and r: "same_region pf2 pf'"
      by (auto simp: oneipc_handleInstruction_def Let_def oneipc_cpi_same elim!: bindE_InrE split: if_splits prod.splits)
    show ?thesis by (rule same_region_trans [OF same_region_trans [OF s1 getCost_same [OF g]] r])
  qed
qed

lemma executeLoad_same: "executeLoad t info pf = Inr (x, pf') \<Longrightarrow> same_region pf pf'"
  by (auto simp: executeLoad_def Let_def same_region_def split: if_splits elim!: bindE_InrE)

lemma executeStore_same: "executeStore t info pf = Inr (x, pf') \<Longrightarrow> same_region pf pf'"
  by (auto simp: executeStore_def same_region_def elim!: bindE_InrE)

lemma iocoom_memory_same: "iocoom_memory env i ops ready ml ws pf = Inr (x, pf') \<Longrightarrow> same_region pf pf'"
proof (induction ops arbitrary: ready ml ws pf)
  case (Cons op ops)
  show ?case
  proof (cases "op_type op = OP_MEMORY")
    case True
    with Cons.prems obtain info pf1 where m: "memory_info env i op pf = Inr (info, pf1)" by (auto elim!: bindE_InrE)
    have s1: "same_region pf pf1" by (rule memory_info_same [OF m])
    show ?thesis
    proof (cases info)
      case None
      with s1 m True Cons.prems show ?thesis by simp
    next
      case (Some y)
      show ?thesis
      proof (cases "op_direction op")
        case OP_READ
        with Cons.prems True m Some obtain t lat pf2 where e: "executeLoad ready y pf1 = Inr ((t, lat), pf2)"
          and r: "bindE (popDynamicInstructionInfo pf2) (iocoom_memory env i ops
              (if ready < t then t else ready) (if ml < lat then lat else ml) ws) = Inr (x, pf')"
          by (auto elim!: bindE_InrE)
        from r obtain pf3 r1 ml1 where p: "popDynamicInstructionInfo pf2 = Inr pf3"
          and o: "iocoom_memory env i ops r1 ml1 ws pf3 = Inr (x, pf')" by (elim bindE_InrE) blast
        show ?thesis
          by (rule same_region_trans [OF s1 same_region_trans [OF executeLoad_same [OF e]
                same_region_trans [OF pop_same [OF p] Cons.IH [OF o]]]])
      next
        case OP_WRITE
        with Cons.prems True m Some obtain pf2 ws1 where p: "popDynamicInstructionInfo pf1 = Inr pf2"
          and o: "iocoom_memory env i ops ready ml ws1 pf2 = Inr (x, pf')"
          by simp (elim bindE_InrE conjE, blast)
        show ?thesis by (rule same_region_trans [OF s1 same_region_trans [OF pop_same [OF p] Cons.IH [OF o]]])
      qed
    qed
  next
    case False
    with Cons show ?thesis by auto
  qed
qed auto

lemma memory_write_same: "memory_write ops c ws ready pf = Inr (x, pf') \<Longrightarrow> same_region pf pf'"
proof (induction ops arbitrary: ws ready pf)
  case (Cons op ops)
  show ?case
  proof (cases "op_direction op = OP_WRITE \<and> op_type op = OP_MEMORY")
    case True
    with Cons.prems obtain t pf1 ws1 ready1 where e: "executeStore c (hd ws) pf = Inr (t, pf1)"
      and o: "memory_write ops c ws1 ready1 pf1 = Inr (x, pf')" by simp (elim bindE_InrE conjE, auto)
    show ?thesis by (rule same_region_trans [OF executeStore_same [OF e] Cons.IH [OF o]])
  next
    case False
    with Cons.prems have "memory_write ops c ws ready pf = Inr (x, pf')" by (auto split: if_splits)
    from Cons.IH [OF this] show ?thesis .
  qed
qed auto

lemma iocoom_complete_same: "iocoom_complete ops c el ws pf = Inr (x, pf') \<Longrightarrow> same_region pf pf'"
proof -
  assume "iocoom_complete ops c el ws pf = Inr (x, pf')"
  then obtain t regs y pf1 where o: "memory_write ops c ws t (pf\<lparr>pf_instruction_count := pf_instruction_count pf + 1,
      io_registers := regs\<rparr>) = Inr (y, pf1)" and pf': "same_region pf1 pf'"
    unfolding iocoom_complete_def Let_def
    by (elim bindE_InrE) (auto simp: same_region_def elim!: bindE_InrE split: prod.splits if_splits)
  from same_region_trans [OF memory_write_same [OF o] pf'] show ?thesis by (simp add: same_region_def)
qed

lemma modelIcache_same [simp]: "same_region pf (modelIcache env a sz pf)"
  by (simp add: modelIcache_def same_region_def split: prod.splits)

lemma iocoom_same: "iocoom_handleInstruction env i pf = Inr (r, pf') \<Longrightarrow> same_region pf pf'"
proof -
  assume a: "iocoom_handleInstruction env i pf = Inr (r, pf')"
  then obtain c1 pf1 where g: "getCost env i pf = Inr (c1, pf1)"
    unfolding iocoom_handleInstruction_def by (elim bindE_InrE) auto
  have s1: "same_region pf pf1" by (rule getCost_same [OF g])
  show ?thesis
  proof (cases "c1 = MaxTime")
    case True
    with a g s1 show ?thesis by (simp add: iocoom_handleInstruction_def)
  next
    case False
    define fetch where "fetch pf = (if in_addr i \<noteq> 0 then modelIcache env (in_addr i) (in_size i) pf else pf)" for pf :: "'a iocoom_model"
    from False a g obtain c2 pf2 where g2: "getCost env i pf1 = Inr (c2, pf2)"
      and r: "(let pf = fetch pf2; elapsed = pf_elapsed pf in
       bindE (registers_ready (io_registers pf) (in_operands i) elapsed) (\<lambda>ready.
       bindE (iocoom_memory env i (in_operands i) ready 0 [] pf) (\<lambda>(x, pf).
       case x of None \<Rightarrow> Inr (False, pf)
       | Some (ready, max_load, writes) \<Rightarrow>
           iocoom_complete (in_operands i) (ready + max_load + c2) elapsed writes pf))) = Inr (r, pf')"
      unfolding iocoom_handleInstruction_def fetch_def by simp (elim bindE_InrE, auto)
    have s2: "same_region pf (fetch pf2)"
      by (rule same_region_trans [OF s1 same_region_trans [OF getCost_same [OF g2]]]) (simp add: fetch_def)
    from r obtain ready x pf3 where m: "iocoom_memory env i (in_operands i) ready 0 [] (fetch pf2) = Inr (x, pf3)"
      and c: "same_region pf3 pf'"
      unfolding Let_def by (elim bindE_InrE) (auto split: option.splits prod.splits dest: iocoom_complete_same)
    show ?thesis by (rule same_region_trans [OF same_region_trans [OF s2 iocoom_memory_same [OF m]] c])
  qed
qed

subsection \<open>Regions\<close>

text \<open>Between two instructions fewer than 200 have been counted, no squash is pending in the handler, and each
  value has one set. The values are from a given set: all values, or those that the operands have.\<close>

definition region_ok :: "u64 set \<Rightarrow> ('m, 'c) perf_model_scheme \<Rightarrow> bool" where
  "region_ok V pf \<longleftrightarrow> pf_count pf < REGION_SIZE \<and> region_squashes pf = 0 \<and>
     \<not> commitStatus (pf_handlers pf AdaptiveRetryInterpret) \<and> distinct (map fst (pf_accesses pf)) \<and>
     fst ` set (pf_accesses pf) \<subseteq> V"

definition memory_values :: "instruction \<Rightarrow> u64 set" where
  "memory_values i = {op_value op | op. op \<in> set (in_operands i) \<and> op_type op = OP_MEMORY}"

text \<open>Instructions counted since the start, when none is translated.\<close>

definition instructions_seen :: "('m, 'c) perf_model_scheme \<Rightarrow> nat" where
  "instructions_seen pf = REGION_SIZE * pf_commit_count pf + pf_count pf"

definition same_program :: "('m, 'c) perf_model_scheme \<Rightarrow> ('m, 'c) perf_model_scheme \<Rightarrow> bool" where
  "same_program pf pf' \<longleftrightarrow> pf_blocks pf' = pf_blocks pf \<and> pf_ins_index pf' = pf_ins_index pf \<and>
     pf_translated pf' = pf_translated pf"

lemma same_program_refl [simp]: "same_program pf pf"
  by (simp add: same_program_def)

lemma same_program_trans: "same_program a b \<Longrightarrow> same_program b c \<Longrightarrow> same_program a c"
  by (simp add: same_program_def)

lemma same_region_ok: "same_region pf pf' \<Longrightarrow> region_ok V pf \<Longrightarrow> region_ok V pf'"
  by (simp add: same_region_def region_ok_def)

lemma same_region_program: "same_region pf pf' \<Longrightarrow> same_program pf pf' \<and> instructions_seen pf' = instructions_seen pf"
  by (simp add: same_region_def same_program_def instructions_seen_def)

lemma region_commitStatus: "handleSquash env AdaptiveRetryInterpret pf = Inr pf' \<Longrightarrow>
    commitStatus (pf_handlers pf' AdaptiveRetryInterpret) = commitStatus (pf_handlers pf AdaptiveRetryInterpret)"
  by (auto simp: handleSquash_defs squashed_def Let_def RetryAction_def InterpretAction_eq queueSleep_eq bindE_Inr_iff
      split: if_splits)

lemma commit_loop_status: "commit_loop env pf = Inr pf' \<Longrightarrow>
    commitStatus (pf_handlers pf' AdaptiveRetryInterpret) = commitStatus (pf_handlers pf AdaptiveRetryInterpret) \<and>
    pf_commit_count pf' = pf_commit_count pf"
proof (induction env pf rule: commit_loop.induct)
  case (1 env pf)
  show ?case
  proof (cases "conflict_now env pf")
    case True
    with "1.prems" obtain pf1 where h: "handleSquash env AdaptiveRetryInterpret (later pf) = Inr pf1"
      and l: "commit_loop env pf1 = Inr pf'" by (subst (asm) commit_loop.simps) (auto split: sum.splits)
    have "pf_commit_count pf1 = pf_commit_count pf"
      using h by (auto simp: handleSquash_defs squashed_def Let_def RetryAction_def InterpretAction_eq queueSleep_eq
          bindE_Inr_iff later_def split: if_splits)
    with "1.IH" [OF True h l] region_commitStatus [OF h] show ?thesis by simp
  next
    case False
    with "1.prems" show ?thesis by (auto simp: commit_loop_done later_def)
  qed
qed

lemma commit_reset:
  assumes "pe_period env \<noteq> 0" and "commit env pf = Inr pf'"
  shows "same_program pf pf'" and "pf_commit_count pf' = Suc (pf_commit_count pf)" and "pf_count pf' = pf_count pf"
    and "commitStatus (pf_handlers pf' AdaptiveRetryInterpret) = commitStatus (pf_handlers pf AdaptiveRetryInterpret)"
proof -
  let ?pf = "pf\<lparr>pf_commit_count := Suc (pf_commit_count pf)\<rparr>"
  obtain pf1 where l: "commit_loop env ?pf = Inr pf1" and only: "only_commit pf pf'"
    and pf': "pf' = sleep_until (pf_elapsed pf1 + TimeNS (of_nat (getNumMemWrites env pf'))) pf1"
    by (rule commit_spec [OF assms(1), of pf]) (use assms(2) in auto)
  show "same_program pf pf'" and "pf_count pf' = pf_count pf"
    using only_commit_same [OF only] by (simp_all add: same_program_def)
  from commit_loop_status [OF l]
  show "pf_commit_count pf' = Suc (pf_commit_count pf)"
    and "commitStatus (pf_handlers pf' AdaptiveRetryInterpret) = commitStatus (pf_handlers pf AdaptiveRetryInterpret)"
    by (subst pf', simp)+
qed

lemma resetMemMap_simps [simp]:
  "pf_accesses (resetMemMap pf) = []" "region_squashes (resetMemMap pf) = 0"
  "commitStatus (pf_handlers (resetMemMap pf) AdaptiveRetryInterpret) = commitStatus (pf_handlers pf AdaptiveRetryInterpret)"
  "pf_count (resetMemMap pf) = pf_count pf" "pf_commit_count (resetMemMap pf) = pf_commit_count pf"
  "pf_blocks (resetMemMap pf) = pf_blocks pf" "pf_ins_index (resetMemMap pf) = pf_ins_index pf"
  "pf_translated (resetMemMap pf) = pf_translated pf"
  by (simp_all add: resetMemMap_def resetRegionCount_def)

lemma record_operand_ok:
  assumes "region_ok V pf" and "op_value (snd x) \<in> V"
  shows "region_ok V (record_operand env x pf)" and "same_program pf (record_operand env x pf)"
    and "instructions_seen (record_operand env x pf) = instructions_seen pf"
  using assms
  by (auto simp: record_operand_def region_ok_def same_program_def instructions_seen_def Let_def distinct_update
      dom_update split: prod.splits)

text \<open>A step of the loop keeps the program and the region; it counts \<open>n\<close> instructions when none is translated.\<close>

definition region_step :: "u64 set \<Rightarrow> nat \<Rightarrow> ('m, 'c) perf_model_scheme \<Rightarrow> ('m, 'c) perf_model_scheme \<Rightarrow> bool" where
  "region_step V n pf pf' \<longleftrightarrow> region_ok V pf' \<and> same_program pf pf' \<and>
     ((\<forall>k. \<not> pf_translated pf k) \<longrightarrow> instructions_seen pf' = instructions_seen pf + n)"

lemma region_step_trans: "region_step V m a b \<Longrightarrow> region_step V n b c \<Longrightarrow> region_step V (m + n) a c"
  by (simp add: region_step_def same_program_def)

lemma region_step_trans0: "region_step V 0 a b \<Longrightarrow> region_step V n b c \<Longrightarrow> region_step V n a c"
  using region_step_trans [of V 0 a b n c] by simp

lemma region_step_same: "same_region pf pf' \<Longrightarrow> region_ok V pf \<Longrightarrow> region_step V 0 pf pf'"
  using same_region_program [of pf pf'] same_region_ok [of pf pf' V] by (simp add: region_step_def)

lemma record_operands_ok:
  assumes "pe_period env \<noteq> 0"
  shows "record_operands env i xs pf = Inr pf' \<Longrightarrow> region_ok V pf \<Longrightarrow>
    (\<forall>x \<in> set xs. op_type (snd x) = OP_MEMORY \<longrightarrow> op_value (snd x) \<in> V) \<Longrightarrow> region_step V 0 pf pf'"
proof (induction xs arbitrary: pf)
  case Nil
  then show ?case by (simp add: region_step_def)
next
  case (Cons x xs)
  show ?case
  proof (cases "op_type (snd x) = OP_MEMORY")
    case False
    with Cons show ?thesis by simp
  next
    case mem: True
    show ?thesis
    proof (cases "pf_translated pf (in_number i)")
      case True
      with Cons.prems(1) mem obtain pf1 where c: "commit env pf = Inr pf1"
        and r: "record_operands env i xs ((resetMemMap pf1)\<lparr>pf_count := 0\<rparr>) = Inr pf'" by auto
      note k = commit_reset [OF assms c]
      let ?pf1 = "(resetMemMap pf1)\<lparr>pf_count := 0\<rparr>"
      have ok: "region_ok V ?pf1" using Cons.prems(2) k(4) by (simp add: region_ok_def REGION_SIZE_def)
      have "same_program pf ?pf1" using k(1) by (simp add: same_program_def)
      with ok have "region_step V 0 pf ?pf1" using True by (auto simp: region_step_def)
      moreover have "region_step V 0 ?pf1 pf'" using Cons.IH [OF r ok] Cons.prems(3) by simp
      ultimately show ?thesis by (rule region_step_trans0)
    next
      case False
      with Cons.prems(1) mem have r: "record_operands env i xs (record_operand env x pf) = Inr pf'" by simp
      have "op_value (snd x) \<in> V" using Cons.prems(3) mem by simp
      note k = record_operand_ok [OF Cons.prems(2) this, of env]
      have "region_step V 0 pf (record_operand env x pf)" using k by (simp add: region_step_def)
      moreover have "region_step V 0 (record_operand env x pf) pf'" using Cons.IH [OF r k(1)] Cons.prems(3) by simp
      ultimately show ?thesis by (rule region_step_trans0)
    qed
  qed
qed

lemma end_region_ok:
  assumes "pe_period env \<noteq> 0" and "end_region env (pf\<lparr>pf_count := Suc (pf_count pf)\<rparr>) = Inr pf'" and ok: "region_ok V pf"
  shows "region_step V 1 pf pf'"
proof (cases "Suc (pf_count pf) = REGION_SIZE")
  case True
  let ?pf = "pf\<lparr>pf_count := Suc (pf_count pf)\<rparr>"
  from assms(2) True obtain pf1 where c: "commit env ?pf = Inr pf1"
    and pf': "pf' = (resetMemMap (pf1\<lparr>pf_count := 0, pf_exec_cost := 0\<rparr>))\<lparr>pf_mem_ins := []\<rparr>"
    by (auto simp: end_region_def)
  note k = commit_reset [OF assms(1) c]
  show ?thesis using k ok True
    by (simp add: pf' region_step_def region_ok_def same_program_def instructions_seen_def REGION_SIZE_def)
next
  case False
  have "\<not> canCommit AdaptiveRetryInterpret (pf\<lparr>pf_count := Suc (pf_count pf)\<rparr>)"
    using ok by (simp add: canCommit_def region_ok_def)
  with False assms(2) have "pf' = pf\<lparr>pf_count := Suc (pf_count pf)\<rparr>" by (simp add: end_region_def)
  with ok False show ?thesis
    by (simp add: region_step_def region_ok_def same_program_def instructions_seen_def)
qed

lemma copyOperands_ok:
  assumes "region_ok V pf"
  shows "region_step V 0 pf (copyOperands env i pf)"
    and "set (pf_live (copyOperands env i pf)) \<subseteq> {x. snd x \<in> set (in_operands i)}"
  using assms
  by (auto simp: copyOperands_def later_def region_step_def region_ok_def same_program_def instructions_seen_def
      dest: set_zip_rightD)

context core_model
begin

lemma iterate_ins_ok:
  assumes "pe_period env \<noteq> 0" and r: "iterate_ins env handleInstruction i pf = Inr (r, pf')" and ok: "region_ok V pf"
    and vals: "memory_values i \<subseteq> V"
  shows "region_step V 1 pf pf'"
proof -
  let ?pf0 = "copyOperands env i pf"
  from r obtain pf1 pf2 pf3 pf4 where a: "record_operands env i (pf_live ?pf0) ?pf0 = Inr pf1"
    and h: "handleInstruction i pf1 = Inr (r, pf2)"
    and c: "add_exec_cost env i (pf2\<lparr>pf_count := Suc (pf_count pf2)\<rparr>) = Inr pf3"
    and e: "end_region env pf3 = Inr pf4" and pf': "pf' = pf4\<lparr>pf_live := []\<rparr>"
    unfolding iterate_ins_def Let_def by (auto elim!: bindE_InrE)
  have s0: "region_step V 0 pf ?pf0" by (rule copyOperands_ok(1) [OF ok])
  then have ok0: "region_ok V ?pf0" by (simp add: region_step_def)
  have "\<forall>x \<in> set (pf_live ?pf0). op_type (snd x) = OP_MEMORY \<longrightarrow> op_value (snd x) \<in> V"
    using copyOperands_ok(2) [OF ok, of env i] vals by (auto simp: memory_values_def)
  from region_step_trans0 [OF s0 record_operands_ok [OF assms(1) a ok0 this]] have s1: "region_step V 0 pf pf1" .
  then have "region_ok V pf1" by (simp add: region_step_def)
  from region_step_trans0 [OF s1 region_step_same [OF handle_same [OF h] this]] have s2: "region_step V 0 pf pf2" .
  then have ok2: "region_ok V pf2" by (simp add: region_step_def)
  obtain pf2' where pf3: "pf3 = pf2'\<lparr>pf_count := Suc (pf_count pf2')\<rparr>" and s2': "region_step V 0 pf2 pf2'"
  proof (cases "in_type i \<noteq> INST_STRING \<and> in_type i \<noteq> INST_BRANCH")
    case True
    with c obtain cost pfc where g: "getCost env i (pf2\<lparr>pf_count := Suc (pf_count pf2)\<rparr>) = Inr (cost, pfc)"
      and pf3: "pf3 = pfc\<lparr>pf_exec_cost := pf_exec_cost pfc + cost\<rparr>" by (auto simp: add_exec_cost_def)
    from getCost_same [OF g] have s: "same_region (pf2\<lparr>pf_count := Suc (pf_count pf2)\<rparr>) pfc" .
    define pf2' where "pf2' = pf3\<lparr>pf_count := pf_count pf2\<rparr>"
    have "pf3 = pf2'\<lparr>pf_count := Suc (pf_count pf2')\<rparr>" using s by (simp add: pf2'_def pf3 same_region_def)
    moreover have "region_step V 0 pf2 pf2'" using s ok2
      by (auto simp: pf2'_def pf3 same_region_def region_step_def region_ok_def same_program_def instructions_seen_def)
    ultimately show ?thesis using that by blast
  next
    case False
    with c have "pf3 = pf2\<lparr>pf_count := Suc (pf_count pf2)\<rparr>" by (auto simp: add_exec_cost_def)
    with ok2 show ?thesis using that [of pf2] by (simp add: region_step_def)
  qed
  from region_step_trans0 [OF s2 s2'] have s3: "region_step V 0 pf pf2'" .
  then have "region_ok V pf2'" by (simp add: region_step_def)
  from region_step_trans0 [OF s3 end_region_ok [OF assms(1) e [unfolded pf3] this]] have "region_step V 1 pf pf4" .
  then show ?thesis by (simp add: pf' region_step_def region_ok_def same_program_def instructions_seen_def)
qed

lemma iterate_block_ok:
  assumes "pe_period env \<noteq> 0"
  shows "iterate_block env handleInstruction is pf = Inr (r, pf') \<Longrightarrow> region_ok V pf \<Longrightarrow>
    (\<forall>i \<in> set is. memory_values i \<subseteq> V) \<Longrightarrow>
    region_ok V pf' \<and> pf_blocks pf' = pf_blocks pf \<and> pf_translated pf' = pf_translated pf \<and>
    (\<exists>k. pf_ins_index pf' = pf_ins_index pf + k \<and> (if r then k = length is else k < length is) \<and>
      ((\<forall>j. \<not> pf_translated pf j) \<longrightarrow>
        instructions_seen pf' = instructions_seen pf + k + (if r then 0 else 1)))"
proof (induction "is" arbitrary: pf)
  case Nil
  then show ?case by auto
next
  case (Cons i ins)
  from Cons.prems(1) obtain r1 pf1 where i: "iterate_ins env handleInstruction i pf = Inr (r1, pf1)"
    by (auto elim!: bindE_InrE)
  have step: "region_step V 1 pf pf1" using iterate_ins_ok [OF assms i Cons.prems(2)] Cons.prems(3) by simp
  show ?case
  proof (cases r1)
    case False
    with Cons.prems(1) i step show ?thesis by (auto simp: region_step_def same_program_def)
  next
    case True
    let ?pf1 = "pf1\<lparr>pf_ins_index := Suc (pf_ins_index pf1)\<rparr>"
    from True Cons.prems(1) i have r: "iterate_block env handleInstruction ins ?pf1 = Inr (r, pf')" by simp
    have ok: "region_ok V ?pf1" using step by (simp add: region_step_def region_ok_def)
    have same: "pf_blocks ?pf1 = pf_blocks pf" "pf_translated ?pf1 = pf_translated pf"
      "pf_ins_index ?pf1 = Suc (pf_ins_index pf)"
      "(\<forall>j. \<not> pf_translated pf j) \<longrightarrow> instructions_seen ?pf1 = Suc (instructions_seen pf)"
      using step by (simp_all add: region_step_def same_program_def instructions_seen_def)
    from Cons.IH [OF r ok] Cons.prems(3) obtain k where ih: "region_ok V pf'" "pf_blocks pf' = pf_blocks ?pf1"
      "pf_translated pf' = pf_translated ?pf1" "pf_ins_index pf' = pf_ins_index ?pf1 + k"
      "if r then k = length ins else k < length ins"
      "(\<forall>j. \<not> pf_translated ?pf1 j) \<longrightarrow>
        instructions_seen pf' = instructions_seen ?pf1 + k + (if r then 0 else 1)" by auto
    show ?thesis
      using ih same by (intro conjI exI [of _ "Suc k"]) (auto split: if_splits)
  qed
qed

lemma iterate_front_ok:
  assumes "pe_period env \<noteq> 0" and "iterate_front env handleInstruction pf = Inr (r, pf')" and "region_ok V pf"
    and "\<forall>bb \<in> set (pf_blocks pf). \<forall>i \<in> set bb. memory_values i \<subseteq> V" and "pf_blocks pf \<noteq> []"
  shows "region_ok V pf'"
    and "if r then pf_blocks pf' = tl (pf_blocks pf) \<and> pf_ins_index pf' = 0
      else pf_blocks pf' = pf_blocks pf \<and> pf_ins_index pf' < length (hd (pf_blocks pf))"
proof -
  let ?is = "drop (pf_ins_index pf) (hd (pf_blocks pf))" and ?pf = "pf\<lparr>pf_exec_cost := 0\<rparr>"
  from assms(2) obtain pf1 where b: "iterate_block env handleInstruction ?is ?pf = Inr (r, pf1)"
    and pf': "pf' = (if r then pf1\<lparr>pf_blocks := tl (pf_blocks pf1), pf_ins_index := 0\<rparr> else pf1)"
    unfolding iterate_front_def by (auto elim!: bindE_InrE split: if_splits)
  have "hd (pf_blocks pf) \<in> set (pf_blocks pf)" using assms(5) by simp
  then have "\<forall>i \<in> set ?is. memory_values i \<subseteq> V" using assms(4) by (blast dest: in_set_dropD)
  note vals = this
  have "region_ok V ?pf" using assms(3) by (simp add: region_ok_def)
  from iterate_block_ok [OF assms(1) b this vals] obtain k where k: "region_ok V pf1" "pf_blocks pf1 = pf_blocks ?pf"
    "pf_ins_index pf1 = pf_ins_index ?pf + k" "if r then k = length ?is else k < length ?is" by blast
  show "region_ok V pf'" using k(1) by (simp add: pf' region_ok_def)
  show "if r then pf_blocks pf' = tl (pf_blocks pf) \<and> pf_ins_index pf' = 0
      else pf_blocks pf' = pf_blocks pf \<and> pf_ins_index pf' < length (hd (pf_blocks pf))"
    using k(2-4) by (cases r) (simp_all add: pf')
qed

text \<open>The loop ends, with an error or after a number of blocks: either only the last block is left, or the
  core model waits at an instruction of the front block.\<close>

lemma iterate_returns:
  assumes "pe_period env \<noteq> 0"
  shows "region_ok V pf \<Longrightarrow> (\<forall>bb \<in> set (pf_blocks pf). \<forall>i \<in> set bb. memory_values i \<subseteq> V) \<Longrightarrow>
    \<exists>res. iterate env handleInstruction pf = Some res \<and> (\<forall>pf'. res = Inr pf' \<longrightarrow>
      region_ok V pf' \<and> (\<exists>n. pf_blocks pf' = drop n (pf_blocks pf)) \<and>
      (length (pf_blocks pf') \<le> 1 \<or> pf_ins_index pf' < length (hd (pf_blocks pf'))))"
proof (induction "length (pf_blocks pf)" arbitrary: pf rule: less_induct)
  case less
  show ?case
  proof (cases "1 < length (pf_blocks pf)")
    case False
    with less.prems(1) show ?thesis by (auto simp: iterate.simps [of _ _ pf] intro: exI [of _ 0])
  next
    case True
    show ?thesis
    proof (cases "iterate_front env handleInstruction pf")
      case (Inl e)
      with True show ?thesis by (auto simp: iterate.simps [of _ _ pf])
    next
      case (Inr x)
      obtain r pf1 where x: "x = (r, pf1)" by fastforce
      have ne: "pf_blocks pf \<noteq> []" using True by auto
      note f = iterate_front_ok [OF assms Inr [unfolded x] less.prems ne]
      show ?thesis
      proof (cases r)
        case False
        with f Inr x True show ?thesis
          by (auto simp: iterate.simps [of _ _ pf] intro: exI [of _ 0])
      next
        case r: True
        with f(2) have b1: "pf_blocks pf1 = tl (pf_blocks pf)" by simp
        have lt: "length (pf_blocks pf1) < length (pf_blocks pf)" using True b1 by simp
        have v: "\<forall>bb \<in> set (pf_blocks pf1). \<forall>i \<in> set bb. memory_values i \<subseteq> V"
          using less.prems(2) ne by (auto simp: b1 dest: list.set_sel(2))
        have "pf_blocks pf1 = drop 1 (pf_blocks pf)" by (simp add: b1 drop_Suc)
        then have d: "drop n (pf_blocks pf1) = drop (n + 1) (pf_blocks pf)" for n by simp
        have eq: "iterate env handleInstruction pf = iterate env handleInstruction pf1"
          using True Inr x r by (simp add: iterate.simps [of _ _ pf])
        from less.hyps [OF lt f(1) v] show ?thesis unfolding eq d by blast
      qed
    qed
  qed
qed

end

interpretation simple_model: core_model "simple_handleInstruction env :: ('m, 'c) handler" for env :: "'m perf_env"
  by unfold_locales (rule simple_same)

interpretation magic_model: core_model "magic_handleInstruction env :: ('m, 'c) handler" for env :: "'m perf_env"
  by unfold_locales (rule magic_same)

interpretation oneipc: core_model "oneipc_handleInstruction env" for env
  by unfold_locales (rule oneipc_same)

interpretation iocoom: core_model "iocoom_handleInstruction env" for env
  by unfold_locales (rule iocoom_same)

end
