(* ===== verification/Perf_Props.thy ===== *)
theory Perf_Props
  imports Iterate_Props
begin

text \<open>
  Properties of the load unit and the store buffer of the in-order core with out-of-order memory
  (common/performance_model/performance_models/iocoom_performance_model.cc), and of the squash handlers.
\<close>

subsection \<open>Load unit\<close>

lemma earliest_unit_aux:
  "n \<le> length sb \<Longrightarrow> 0 < n \<Longrightarrow>
   let u = foldl (\<lambda>unit i. if sb ! i < sb ! unit then i else unit) 0 [0..<n] in
   u < n \<and> (\<forall>i<n. sb ! u \<le> sb ! i)" for sb :: "time list"
proof (induction n)
  case (Suc n)
  show ?case
  proof (cases "n = 0")
    case True
    then show ?thesis by simp
  next
    case False
    define u where "u = foldl (\<lambda>unit i. if sb ! i < sb ! unit then i else unit) 0 [0..<n]"
    from Suc False have u: "u < n" "\<forall>i<n. sb ! u \<le> sb ! i" by (simp_all add: Let_def u_def)
    show ?thesis
    proof (cases "sb ! n < sb ! u")
      case True
      with u show ?thesis by (fastforce simp: Let_def u_def [symmetric] less_Suc_eq)
    next
      case False
      with u show ?thesis by (auto simp: Let_def u_def [symmetric] less_Suc_eq)
    qed
  qed
qed simp

lemma earliest_unit_spec:
  assumes "sb \<noteq> []"
  shows "earliest_unit sb < length sb" and "sb ! earliest_unit sb = Min (set sb)"
proof -
  from earliest_unit_aux [of "length sb" sb] assms
  have u: "earliest_unit sb < length sb" "\<forall>i<length sb. sb ! earliest_unit sb \<le> sb ! i"
    by (simp_all add: earliest_unit_def Let_def)
  show "earliest_unit sb < length sb" by (rule u(1))
  show "sb ! earliest_unit sb = Min (set sb)"
    using u by (intro Min_eqI [symmetric]) (auto simp: in_set_conv_nth)
qed

text \<open>An operation starts when it asks to, or else when the first unit is free; that unit is then busy.\<close>

lemma unit_free:
  assumes "find_first (\<lambda>s. s \<le> t) sb = Some i"
  shows "i < length sb" and "sb ! i \<le> t" and "max t (Min (set sb)) = t"
proof -
  from find_first_SomeD [OF assms] show i: "i < length sb" and le: "sb ! i \<le> t" by auto
  have "Min (set sb) \<le> sb ! i" using i by (intro Min_le) auto
  with le show "max t (Min (set sb)) = t" by (intro max_absorb1) (rule order_trans)
qed

lemma unit_busy:
  assumes "find_first (\<lambda>s. s \<le> t) sb = None" and "sb \<noteq> []"
  shows "earliest_unit sb < length sb" and "sb ! earliest_unit sb = max t (Min (set sb))"
proof -
  note f = earliest_unit_spec [OF assms(2)]
  show "earliest_unit sb < length sb" by (rule f(1))
  then have "\<not> sb ! earliest_unit sb \<le> t" using assms(1) by (auto simp: find_first_None_iff)
  with f(2) show "sb ! earliest_unit sb = max t (Min (set sb))" by (auto simp: max_def)
qed

lemma loadunit_execute_spec:
  assumes "sb \<noteq> []"
  shows "\<exists>i < length sb. sb ! i \<le> max t (Min (set sb)) \<and>
    loadunit_execute t occupancy sb =
      Inr (max t (Min (set sb)), sb[i := max t (Min (set sb)) + occupancy])"
proof (cases "find_first (\<lambda>s. s \<le> t) sb")
  case None
  from unit_busy [OF None assms] None show ?thesis
    by (intro exI [of _ "earliest_unit sb"]) (simp add: loadunit_execute_def Let_def)
next
  case (Some i)
  from unit_free [OF Some] Some show ?thesis by (intro exI [of _ i]) (simp add: loadunit_execute_def)
qed

subsection \<open>Store buffer\<close>

definition stb_ok :: "store_buffer \<Rightarrow> bool" where
  "stb_ok b \<longleftrightarrow> stb_times b \<noteq> [] \<and> length (stb_addresses b) = length (stb_times b)"

lemma find_first_update_same: "find_first (\<lambda>x. x = a) xs = None \<Longrightarrow> i < length xs \<Longrightarrow>
    find_first (\<lambda>x. x = a) (xs[i := a]) = Some i"
  by (rule find_first_unique) (auto simp: find_first_None_iff all_set_conv_all_nth nth_list_update split: if_splits)

text \<open>A store starts as an operation in the load unit does, but at once when its address is in the buffer. From
  then on the address is in the buffer, with the end of the store.\<close>

lemma storebuffer_execute_spec:
  assumes "stb_ok b" and "storebuffer_execute t occupancy a b = Inr (t', b')"
  shows "t' = (if a \<in> set (stb_addresses b) then t else max t (Min (set (stb_times b))))"
    and "stb_ok b'"
    and "isAddressAvailable t2 a b' = (if t2 \<le> t' + occupancy then SB_VALID else SB_COMPLETED)"
proof -
  let ?ts = "stb_times b" and ?as = "stb_addresses b"
  have ne: "?ts \<noteq> []" and len: "length ?as = length ?ts" using assms(1) by (simp_all add: stb_ok_def)
  have "t' = (if a \<in> set ?as then t else max t (Min (set ?ts))) \<and> stb_ok b' \<and>
    isAddressAvailable t2 a b' = (if t2 \<le> t' + occupancy then SB_VALID else SB_COMPLETED)"
  proof (cases "find_first (\<lambda>x. x = a) ?as")
    case (Some i)
    from find_first_SomeD [OF this] have i: "i < length ?as" "?as ! i = a" by auto
    then have "a \<in> set ?as" by auto
    with Some assms(2) i len ne show ?thesis
      by (auto simp: storebuffer_execute_def isAddressAvailable_def stb_ok_def)
  next
    case None
    then have na: "a \<notin> set ?as" by (auto simp: find_first_None_iff)
    obtain i where i: "i < length ?ts" and t': "t' = max t (Min (set ?ts))"
      and b': "b' = b\<lparr>stb_times := ?ts[i := t' + occupancy], stb_addresses := ?as[i := a]\<rparr>"
    proof (cases "find_first (\<lambda>s. s \<le> t) ?ts")
      case free: None
      from unit_busy [OF free ne] None free assms(2) show ?thesis
        by (intro that [of "earliest_unit ?ts"]) (auto simp: storebuffer_execute_def Let_def)
    next
      case (Some i)
      from unit_free [OF Some] None Some assms(2) show ?thesis
        by (intro that [of i]) (auto simp: storebuffer_execute_def)
    qed
    from find_first_update_same [OF None, of i] i len na ne t' show ?thesis
      by (simp add: b' isAddressAvailable_def stb_ok_def)
  qed
  then show "t' = (if a \<in> set ?as then t else max t (Min (set ?ts)))" and "stb_ok b'"
    and "isAddressAvailable t2 a b' = (if t2 \<le> t' + occupancy then SB_VALID else SB_COMPLETED)" by auto
qed

subsection \<open>Handlers\<close>

lemma squash_probability_not_between: "\<not> (3 < 10 * squash_probability m n \<and> 10 * squash_probability m n < 6)"
  by (cases "squash_probability m n") simp_all

lemma ChopperAction_eq:
  assumes "pe_period env \<noteq> 0"
  shows "ChopperAction env pf = Inr ((sleep_until (pf_elapsed pf + TimeNS (pe_chop_ns env (US_1 div pe_period env)))
    (pf\<lparr>pf_translated := (\<lambda>n. n \<in> set (pf_mem_ins pf) \<or> pf_translated pf n), pf_mem_ins := []\<rparr>))\<lparr>pf_accesses := []\<rparr>)"
  using assms by (simp add: ChopperAction_def Let_def freq_Inr queueSleep_eq)

text \<open>A handler forgets the record or leaves it, and only puts the core to sleep: no time counts as busy.\<close>

lemma nonidle_update [simp]:
  "getNonIdleElapsedTime (pf\<lparr>pf_accesses := m\<rparr>) = getNonIdleElapsedTime pf"
  "getNonIdleElapsedTime (pf\<lparr>pf_translated := tr, pf_mem_ins := ms\<rparr>) = getNonIdleElapsedTime pf"
  "getNonIdleElapsedTime (squashed h pf) = getNonIdleElapsedTime pf"
  "getNonIdleElapsedTime (later pf) = getNonIdleElapsedTime pf"
  "getNonIdleElapsedTime (pf\<lparr>pf_commit_count := n\<rparr>) = getNonIdleElapsedTime pf"
  by (simp_all add: getNonIdleElapsedTime_def squashed_def later_def)

lemma action_nonidle:
  assumes "pe_period env \<noteq> 0"
  shows "RetryAction env pf = Inr pf' \<Longrightarrow> getNonIdleElapsedTime pf' = getNonIdleElapsedTime pf"
    and "InterpretAction env pf = Inr pf' \<Longrightarrow> getNonIdleElapsedTime pf' = getNonIdleElapsedTime pf"
    and "ChopperAction env pf = Inr pf' \<Longrightarrow> getNonIdleElapsedTime pf' = getNonIdleElapsedTime pf"
  using assms by (auto simp: RetryAction_eq InterpretAction_eq ChopperAction_eq getNonIdle_sleep)

lemma handleSquash_nonidle:
  assumes "pe_period env \<noteq> 0" and "handleSquash env h pf = Inr pf'"
  shows "getNonIdleElapsedTime pf' = getNonIdleElapsedTime pf"
proof -
  from assms(2) obtain pf1 where pf': "pf' = squashed h pf1"
    and a: "RetryAction env pf = Inr pf1 \<or> InterpretAction env pf = Inr pf1 \<or> ChopperAction env pf = Inr pf1"
    by (cases h) (auto simp: handleSquash_defs Let_def bindE_Inr_iff split: if_splits)
  from a action_nonidle [OF assms(1)] show ?thesis by (auto simp: pf')
qed

lemma commit_loop_nonidle:
  assumes "pe_period env \<noteq> 0"
  shows "commit_loop env pf = Inr pf' \<Longrightarrow> getNonIdleElapsedTime pf' = getNonIdleElapsedTime pf"
proof (induction env pf rule: commit_loop.induct)
  case (1 env pf)
  show ?case
  proof (cases "conflict_now env pf")
    case True
    with "1.prems" obtain pf1 where h: "handleSquash env AdaptiveRetryInterpret (later pf) = Inr pf1"
      and l: "commit_loop env pf1 = Inr pf'" by (subst (asm) commit_loop.simps) (auto split: sum.splits)
    have "getNonIdleElapsedTime pf1 = getNonIdleElapsedTime pf"
      using h by (auto simp: handleSquash_defs Let_def bindE_Inr_iff RetryAction_def InterpretAction_eq queueSleep_eq
          getNonIdle_sleep split: if_splits)
    with "1.IH" [OF True h l] show ?thesis by simp
  next
    case False
    with "1.prems" show ?thesis by (auto simp: commit_loop_done)
  qed
qed

end
