(* ===== verification/Region_Props.thy ===== *)
theory Region_Props
  imports Perf_Props
begin

text \<open>
  The properties of atomic regions: commits end, what they cost, what counts as a conflict, how instructions are
  counted, for the core models of Perf_Cores; and an execution that shows them on one core beside another.
\<close>

subsection \<open>An execution\<close>

text \<open>The core has counted 199 instructions. The next one writes memory; the other core, which runs, has accessed
  memory before. A store instruction is followed by a block that is left in the queue.\<close>

definition sample_op :: operand where "sample_op = Operand OP_MEMORY 0 OP_WRITE"

definition sample_store :: instruction where
  "sample_store = \<lparr>in_number = 7, in_type = INST_GENERIC, in_class = Plain_Inst, in_operands = fillOperandListMemOps [False] [True],
     in_addr = 0x400000, in_size = 4, in_atomic = False\<rparr>"

definition sample_info :: dyn_info where
  "sample_info = \<lparr>di_type = MEMORY_WRITE, di_eip = 0x400000, di_executed = True, di_latency = 2000000, di_addr = 0x7000,
     di_size = 8, di_hit_where = HW_L1_OWN, di_num_ops = 0, di_taken = False, di_target = 0\<rparr>"

definition sample_world :: world where
  "sample_world = \<lparr>wd_cores = [\<lparr>cv_id = 0, cv_state = RUNNING, cv_thread = Some RUNNING, cv_accesses = []\<rparr>,
       \<lparr>cv_id = 1, cv_state = RUNNING, cv_thread = Some RUNNING, cv_accesses = [(0, [0x900])]\<rparr>],
     wd_operand = (\<lambda>_. Operand OP_MEMORY 0 OP_READ), wd_ptr = (\<lambda>i. 0x100 + 48 * of_nat i)\<rparr>"

definition sample_env :: "unit perf_env" where
  "sample_env = \<lparr>pe_core = 0, pe_period = 500000, pe_access = (\<lambda>_ _ _ _ m. ((0, HW_L1_OWN), m)), pe_ifetch = (\<lambda>_ _ m. (0, m)),
     pe_costs = (\<lambda>_. 1), pe_cost_ps = (\<lambda>freq cycles. 500 * ucast cycles), pe_chop_ns = (\<lambda>_. 1500), pe_world = (\<lambda>_. sample_world)\<rparr>"

definition sample_core :: "unit perf_model" where
  "sample_core = (PerformanceModel 8 None (\<lambda>_. False) ())\<lparr>pf_enabled := True, pf_count := 199,
     pf_blocks := [[sample_store], [sample_store]], pf_infos := [sample_info]\<rparr>"

lemma sample_ok: "region_ok {0} sample_core"
  by (simp add: region_ok_def sample_core_def PerformanceModel_def SquashHandler_def REGION_SIZE_def)

lemma sample_values: "bb \<in> set (pf_blocks sample_core) \<Longrightarrow> i \<in> set bb \<Longrightarrow> memory_values i \<subseteq> {0}"
  by (auto simp: sample_core_def memory_values_def sample_store_def fillOperandListMemOps_def Operand_def)

text \<open>The other core, with a record of its own.\<close>

definition sample_region :: "unit perf_model" where
  "sample_region = sample_core\<lparr>pf_elapsed := 2500000, pf_exec_cost := 500000, pf_accesses := [(0, [0x100])],
     pf_live := [(0x100, sample_op)]\<rparr>"

lemma sample_region_simps:
  "region_squashes sample_region = 0" "sleeps sample_region" "pe_period sample_env \<noteq> 0"
  "distinct (map fst (pf_accesses sample_region))"
  by (simp_all add: sample_region_def sample_core_def PerformanceModel_def SquashHandler_def sleeps_def sample_env_def)

subsection \<open>Properties\<close>

text \<open>C1. Committing a region ends, whatever the other cores do meanwhile: at most six squashes, after the last of
  which (or before any) a check found no conflict, with the record that the core had or an empty one. Squashing
  and committing count as idle time only.\<close>

theorem commit_ends:
  assumes "pe_period env \<noteq> 0" and "region_squashes pf = 0"
  shows "\<exists>pf'. commit env pf = Inr pf' \<and> region_squashes pf' \<le> 6 \<and> no_conflict_before env pf' \<and>
    (pf_accesses pf' = pf_accesses pf \<or> pf_accesses pf' = []) \<and>
    getNonIdleElapsedTime pf' = getNonIdleElapsedTime pf"
proof -
  obtain pf1 pf' where l: "commit_loop env (pf\<lparr>pf_commit_count := Suc (pf_commit_count pf)\<rparr>) = Inr pf1"
    and c: "commit env pf = Inr pf'" and n: "no_conflict_before env pf'"
    and pf': "pf' = sleep_until (pf_elapsed pf1 + TimeNS (of_nat (getNumMemWrites env pf'))) pf1"
    and r: "region_squashes pf' \<le> region_squashes pf + squashes_left pf"
    and acc: "pf_accesses pf' = pf_accesses pf \<or> pf_accesses pf' = []"
    using commit_spec [OF assms(1), of pf] by blast
  have "getNonIdleElapsedTime pf' = getNonIdleElapsedTime pf1" by (subst pf') (rule getNonIdle_sleep)
  with commit_loop_nonidle [OF assms(1) l] have "getNonIdleElapsedTime pf' = getNonIdleElapsedTime pf" by simp
  with c n acc r squashes_left_le [of pf] assms(2) show ?thesis by force
qed

theorem commit_ends_witness:
  "\<exists>pf'. commit sample_env sample_region = Inr pf' \<and> region_squashes pf' \<le> 6 \<and> no_conflict_before sample_env pf' \<and>
    (pf_accesses pf' = pf_accesses sample_region \<or> pf_accesses pf' = []) \<and>
    getNonIdleElapsedTime pf' = getNonIdleElapsedTime sample_region"
  by (rule commit_ends) (simp_all add: sample_region_simps)

text \<open>C6. A commit takes the cost of the region once for every retry, thirty times for an interpretation, and one
  nanosecond for every write still recorded, as long as the time does not wrap.\<close>

theorem commit_takes:
  assumes "pe_period env \<noteq> 0" and "sleeps pf" and "region_squashes pf = 0"
    and "unat (pf_elapsed pf) + 35 * unat (pf_exec_cost pf) + 1000000 * record_size (pf_accesses pf) < 2 ^ 64"
  shows "\<exists>pf'. commit env pf = Inr pf' \<and>
    unat (pf_elapsed pf') = unat (pf_elapsed pf) + squash_units (region_squashes pf') * unat (pf_exec_cost pf)
      + 1000000 * getNumMemWrites env pf'"
  using commit_time [OF assms] by blast

theorem commit_takes_witness:
  "\<exists>pf'. commit sample_env sample_region = Inr pf' \<and>
    unat (pf_elapsed pf') = unat (pf_elapsed sample_region) +
      squash_units (region_squashes pf') * unat (pf_exec_cost sample_region) + 1000000 * getNumMemWrites sample_env pf'"
  by (rule commit_takes) (simp_all add: sample_region_simps, simp add: sample_region_def record_size_def)

text \<open>C2. The check finds a conflict exactly when another core that runs, with a thread that is not stalled, has
  recorded a value that this core writes, or has recorded a write of a value that this core reads.\<close>

theorem conflict_iff:
  assumes "distinct (map fst m)"
  shows "checkMemAccesses me at cores m \<longleftrightarrow>
    (\<exists>c \<in> set cores. runs_beside me c \<and> (\<exists>v.
       ((v, OP_WRITE) \<in> accesses_at at m \<and> v \<in> dom (map_of (cv_accesses c))) \<or>
       ((v, OP_READ) \<in> accesses_at at m \<and> (v, OP_WRITE) \<in> accesses_at at (cv_accesses c))))"
  using assms by (rule checkMemAccesses_iff)

theorem conflict_iff_witness:
  "checkMemAccesses 0 (\<lambda>_. sample_op) (wd_cores sample_world) (pf_accesses sample_region) \<longleftrightarrow>
    (\<exists>c \<in> set (wd_cores sample_world). runs_beside 0 c \<and> (\<exists>v.
       ((v, OP_WRITE) \<in> accesses_at (\<lambda>_. sample_op) (pf_accesses sample_region) \<and> v \<in> dom (map_of (cv_accesses c))) \<or>
       ((v, OP_READ) \<in> accesses_at (\<lambda>_. sample_op) (pf_accesses sample_region) \<and>
         (v, OP_WRITE) \<in> accesses_at (\<lambda>_. sample_op) (cv_accesses c))))"
  by (rule conflict_iff) (rule sample_region_simps)

text \<open>How the loop over blocks ends.\<close>

definition loop_ends :: "u64 set \<Rightarrow> ('m, 'c) perf_model_scheme \<Rightarrow> ('m, 'c) perf_model_scheme res option \<Rightarrow> bool" where
  "loop_ends V pf out \<longleftrightarrow> (\<exists>res. out = Some res \<and> (\<forall>pf'. res = Inr pf' \<longrightarrow>
      region_ok V pf' \<and> (\<exists>n. pf_blocks pf' = drop n (pf_blocks pf)) \<and>
      (length (pf_blocks pf') \<le> 1 \<or> pf_ins_index pf' < length (hd (pf_blocks pf')))))"


definition sample_oneipc :: "unit oneipc_model" where
  "sample_oneipc = perf_model.extend sample_core (oneipc_model.fields 4 0 0 (\<lambda>_. 0))"

definition sample_iocoom :: "unit iocoom_model" where
  "sample_iocoom = perf_model.extend sample_core (iocoom_model.fields (replicate 512 0) (replicate 8 0) (StoreBuffer 8))"

lemma sample_extend: "region_ok UNIV sample_core" "region_ok UNIV sample_oneipc" "region_ok UNIV sample_iocoom"
  by (simp_all add: region_ok_def sample_oneipc_def sample_iocoom_def sample_core_def PerformanceModel_def SquashHandler_def
      REGION_SIZE_def perf_model.defs)


text \<open>C5. Without translated instructions, a region is committed exactly after every 200 instructions that are
  handed to the core model: through a block, 200 times the commits plus the count grows by the number of
  instructions finished, and by one more when the core model has to wait, so that the instruction it waits at
  is counted again when it is retried.\<close>

theorem regions_of_200:
  assumes "core_model handleInstruction" and "pe_period env \<noteq> 0" and "region_ok UNIV pf"
    and "\<forall>k. \<not> pf_translated pf k" and "iterate_block env handleInstruction is pf = Inr (r, pf')"
  shows "pf_count pf' < 200 \<and> pf_ins_index pf \<le> pf_ins_index pf' \<and>
    200 * pf_commit_count pf' + pf_count pf' =
      200 * pf_commit_count pf + pf_count pf + (pf_ins_index pf' - pf_ins_index pf) + (if r then 0 else 1)"
proof -
  have "\<forall>i \<in> set is. memory_values i \<subseteq> UNIV" by simp
  note o = core_model.iterate_block_ok [OF assms(1,2,5,3) this]
  from o have ok: "region_ok UNIV pf'" by (rule conjunct1)
  from o obtain k where i: "pf_ins_index pf' = pf_ins_index pf + k"
    and n0: "(\<forall>j. \<not> pf_translated pf j) \<longrightarrow> instructions_seen pf' = instructions_seen pf + k + (if r then 0 else 1)"
    by (elim conjE exE) (rule that)
  have n: "instructions_seen pf' = instructions_seen pf + k + (if r then 0 else 1)" by (rule mp [OF n0 assms(4)])
  have "pf_count pf' < 200" using ok by (simp add: region_ok_def REGION_SIZE_def)
  with i n show ?thesis by (simp add: instructions_seen_def REGION_SIZE_def del: if_split)
qed

definition sample_waiting :: "unit perf_model" where
  "sample_waiting = sample_core\<lparr>pf_count := 41, pf_infos := []\<rparr>"

lemma sample_block: "\<exists>pf'. iterate_block sample_env (simple_handleInstruction sample_env) [sample_store] sample_waiting = Inr (False, pf')"
proof -
  have "(case iterate_block sample_env (simple_handleInstruction sample_env) [sample_store] sample_waiting of
      Inl e \<Rightarrow> None | Inr (r, pf) \<Rightarrow> Some r) = Some False"
    by code_simp
  then show ?thesis by (auto split: sum.splits)
qed

theorem regions_of_200_witness:
  "\<exists>pf'. iterate_block sample_env (simple_handleInstruction sample_env) [sample_store] sample_waiting = Inr (False, pf') \<and>
    200 * pf_commit_count pf' + pf_count pf' = 200 * pf_commit_count sample_waiting + pf_count sample_waiting +
      (pf_ins_index pf' - pf_ins_index sample_waiting) + 1"
proof -
  obtain pf' where b: "iterate_block sample_env (simple_handleInstruction sample_env) [sample_store] sample_waiting =
    Inr (False, pf')" using sample_block by blast
  have "\<forall>k. \<not> pf_translated sample_waiting k" by (simp add: sample_waiting_def sample_core_def PerformanceModel_def)
  moreover have "region_ok UNIV sample_waiting" using sample_extend(1) by (simp add: sample_waiting_def region_ok_def REGION_SIZE_def)
  ultimately have "200 * pf_commit_count pf' + pf_count pf' = 200 * pf_commit_count sample_waiting + pf_count sample_waiting +
      (pf_ins_index pf' - pf_ins_index sample_waiting) + 1"
    using regions_of_200 [OF simple_model.core_model_axioms sample_region_simps(3) _ _ b] by simp
  with b show ?thesis by blast
qed

lemma front_end_values: "memory_values i \<subseteq> {0}" if "in_operands i = regs @ fillOperandListMemOps rs ws"
  and "\<forall>op \<in> set regs. op_type op = OP_REG" for i
  using that by (auto simp: memory_values_def fillOperandListMemOps_def Operand_def)


definition sample_front :: "unit perf_model" where
  "sample_front = sample_core\<lparr>pf_count := 0\<rparr>"

lemma sample_front_run: "\<exists>pf'. iterate sample_env (simple_handleInstruction sample_env) sample_front = Some (Inr pf') \<and>
    pf_accesses pf' = [(0, [0x100])]"
proof -
  have "(case iterate sample_env (simple_handleInstruction sample_env) sample_front of
      Some (Inr pf) \<Rightarrow> Some (pf_accesses pf) | _ \<Rightarrow> None) = Some [(0, [0x100])]" by code_simp
  then show ?thesis by (auto split: option.splits sum.splits)
qed


text \<open>A store that the store buffer takes is found there by a load from then on, as valid up to the end of the
  store and as completed later; it starts at once when its address is in the buffer or an entry is free.\<close>

theorem store_forwarding:
  assumes "stb_ok b" and "storebuffer_execute t occupancy a b = Inr (t', b')"
  shows "stb_ok b' \<and> t' = (if a \<in> set (stb_addresses b) then t else max t (Min (set (stb_times b)))) \<and>
    isAddressAvailable t2 a b' = (if t2 \<le> t' + occupancy then SB_VALID else SB_COMPLETED)"
  using storebuffer_execute_spec [OF assms] by simp

theorem store_forwarding_witness:
  "isAddressAvailable 9 0x40 (snd (case storebuffer_execute 5 3 0x40 (StoreBuffer 2) of Inr r \<Rightarrow> r)) = SB_COMPLETED"
proof -
  have ok: "stb_ok (StoreBuffer 2)" by (simp add: stb_ok_def StoreBuffer_def)
  have e: "storebuffer_execute 5 3 0x40 (StoreBuffer 2) = Inr (5, \<lparr>stb_times = [8, 0], stb_addresses = [0x40, 0]\<rparr>)"
    by (simp add: storebuffer_execute_def StoreBuffer_def numeral_2_eq_2)
  from store_forwarding [OF ok e, of 9] e show ?thesis by simp
qed

end
