(* ===== verification/Sync_State.thy ===== *)
theory Sync_State
  imports Perf_Instr
begin

text \<open>
  The state behind synchronization of simulated threads: the thread manager's threads
  (common/system/thread_manager.h, common/core/thread.h), the mutexes, condition variables and barriers of the
  sync server (common/system/sync_server.h), the futexes and sleepers of the system call server
  (common/system/syscall_server.h), and how threads stall and resume (thread_manager.cc).

  Every operation holds the thread lock. A thread that stalls waits on its condition variable until another
  thread signals it; an operation that makes its caller stall has no result then, and \<open>ts_wakeup\<close> and
  \<open>ts_msg\<close> are what the caller goes on with once it is resumed. The hooks, through which the schedulers and the clock
  barrier follow these events, are not modelled; what they do are further operations on this state.
\<close>

type_synonym thread_id = int

definition INVALID_THREAD_ID :: thread_id where "INVALID_THREAD_ID = -1"

datatype stall_type_t = STALL_UNSCHEDULED | STALL_BROKEN | STALL_JOIN | STALL_MUTEX | STALL_COND | STALL_BARRIER
  | STALL_FUTEX | STALL_PAUSE | STALL_SLEEP

text \<open>\<open>ThreadState\<close> with the fields of \<open>Thread\<close>. The reason is read when the status is \<open>STALLED\<close> only. A thread
  that is to clear its id in memory when it exits has the address for that.\<close>

record thread_state =
  ts_status :: core_state_t
  ts_reason :: stall_type_t
  ts_waiter :: thread_id
  ts_core :: "core_id option"
  ts_wakeup :: time
  ts_msg :: bool
  ts_clear_tid :: "addr option"

text \<open>\<open>NO_OWNER\<close> is \<open>UINT_MAX\<close> as a signed number.\<close>

definition NO_OWNER :: thread_id where "NO_OWNER = -1"

record sim_mutex =
  mx_waiting :: "thread_id list"
  mx_owner :: thread_id

definition SimMutex :: sim_mutex where "SimMutex = \<lparr>mx_waiting = [], mx_owner = NO_OWNER\<rparr>"

text \<open>A waiter of a condition variable keeps a pointer to its mutex; the pointer stays valid in the map, so it is
  the mutex's key here.\<close>

type_synonym sim_cond = "(thread_id \<times> addr) list"

record sim_barrier =
  br_waiting :: "thread_id list"
  br_count :: u32

record futex_waiter =
  fw_thread :: thread_id
  fw_mask :: u32
  fw_timeout :: time

record spawn_request =
  sr_thread_by :: thread_id
  sr_thread :: thread_id
  sr_time :: time

text \<open>Of the cores: their state, elapsed time and number of instructions. \<open>m_futexes\<close> is an association list in
  the order of its iteration. \<open>sy_mem\<close> is the application's memory, for the words that futexes use.\<close>

record sync_sys =
  sy_threads :: "thread_state list"
  sy_spawn :: "spawn_request list"
  sy_core_state :: "core_id \<Rightarrow> core_state_t"
  sy_core_time :: "core_id \<Rightarrow> time"
  sy_core_ins :: "core_id \<Rightarrow> u64"
  sy_mutexes :: "addr \<Rightarrow> sim_mutex option"
  sy_conds :: "addr \<Rightarrow> sim_cond option"
  sy_barriers :: "sim_barrier list"
  sy_futexes :: "(addr \<times> futex_waiter list) list"
  sy_sleeping :: "futex_waiter list"
  sy_mem :: "addr \<Rightarrow> u32"
  sy_cost :: time

text \<open>What an operation returns, or that its caller stalls.\<close>

datatype 'a outcome = Now 'a | Stalls

subsection \<open>Threads\<close>

definition thread_ok :: "thread_id \<Rightarrow> sync_sys \<Rightarrow> bool" where
  "thread_ok t sy \<longleftrightarrow> 0 \<le> t \<and> nat t < length (sy_threads sy)"

definition thread :: "thread_id \<Rightarrow> sync_sys \<Rightarrow> thread_state" where
  "thread t sy = sy_threads sy ! nat t"

definition set_thread :: "thread_id \<Rightarrow> (thread_state \<Rightarrow> thread_state) \<Rightarrow> sync_sys \<Rightarrow> sync_sys" where
  "set_thread t f sy = sy\<lparr>sy_threads := (sy_threads sy)[nat t := f (sy_threads sy ! nat t)]\<rparr>"

text \<open>\<open>getThreadFromID\<close>.\<close>

definition with_thread :: "thread_id \<Rightarrow> sync_sys \<Rightarrow> 'a res \<Rightarrow> 'a res" where
  "with_thread t sy k = assertE (thread_ok t sy) ''Invalid thread_id'' k"

definition stallThread_async :: "thread_id \<Rightarrow> stall_type_t \<Rightarrow> sync_sys \<Rightarrow> sync_sys" where
  "stallThread_async t reason sy = set_thread t (\<lambda>s. s\<lparr>ts_status := STALLED, ts_reason := reason\<rparr>) sy"

text \<open>A thread that goes to wait first clears its message.\<close>

definition stallThread :: "thread_id \<Rightarrow> stall_type_t \<Rightarrow> sync_sys \<Rightarrow> sync_sys res" where
  "stallThread t reason sy =
     with_thread t sy (Inr (set_thread t (\<lambda>s. s\<lparr>ts_msg := False\<rparr>) (stallThread_async t reason sy)))"

definition resumeThread_async :: "thread_id \<Rightarrow> sync_sys \<Rightarrow> sync_sys" where
  "resumeThread_async t sy = set_thread t (\<lambda>s. s\<lparr>ts_status := RUNNING\<rparr>) sy"

definition thread_signal :: "thread_id \<Rightarrow> time \<Rightarrow> bool \<Rightarrow> sync_sys \<Rightarrow> sync_sys" where
  "thread_signal t wakeup_time msg sy = set_thread t (\<lambda>s. s\<lparr>ts_wakeup := wakeup_time, ts_msg := msg\<rparr>) sy"

definition resumeThread :: "thread_id \<Rightarrow> time \<Rightarrow> bool \<Rightarrow> sync_sys \<Rightarrow> sync_sys res" where
  "resumeThread t wakeup_time msg sy =
     with_thread t sy (Inr (resumeThread_async t (thread_signal t wakeup_time msg sy)))"

definition isThreadRunning :: "thread_id \<Rightarrow> sync_sys \<Rightarrow> bool" where
  "isThreadRunning t sy \<longleftrightarrow> ts_status (thread t sy) = RUNNING"

definition isThreadInitializing :: "thread_id \<Rightarrow> sync_sys \<Rightarrow> bool" where
  "isThreadInitializing t sy \<longleftrightarrow> ts_status (thread t sy) = INITIALIZING"

definition anyThreadRunning :: "sync_sys \<Rightarrow> bool" where
  "anyThreadRunning sy \<longleftrightarrow>
     list_ex (\<lambda>t. isThreadRunning (int t) sy \<or> isThreadInitializing (int t) sy) [0..<length (sy_threads sy)]"

subsection \<open>Lemmas\<close>

lemma thread_set [simp]:
  "thread_ok t sy \<Longrightarrow> thread_ok u sy \<Longrightarrow> thread u (set_thread t f sy) = (if u = t then f (thread t sy) else thread u sy)"
  by (auto simp: thread_def set_thread_def thread_ok_def nth_list_update)

lemma thread_ok_set [simp]: "thread_ok u (set_thread t f sy) = thread_ok u sy"
  by (simp add: thread_ok_def set_thread_def)

lemma set_thread_same [simp]:
  "sy_mutexes (set_thread t f sy) = sy_mutexes sy" "sy_conds (set_thread t f sy) = sy_conds sy"
  "sy_barriers (set_thread t f sy) = sy_barriers sy" "sy_futexes (set_thread t f sy) = sy_futexes sy"
  "sy_sleeping (set_thread t f sy) = sy_sleeping sy" "sy_mem (set_thread t f sy) = sy_mem sy"
  "sy_cost (set_thread t f sy) = sy_cost sy" "sy_spawn (set_thread t f sy) = sy_spawn sy"
  "length (sy_threads (set_thread t f sy)) = length (sy_threads sy)"
  by (simp_all add: set_thread_def)

lemma thread_update [simp]:
  "thread t (sy\<lparr>sy_mutexes := m\<rparr>) = thread t sy" "thread t (sy\<lparr>sy_conds := c\<rparr>) = thread t sy"
  "thread t (sy\<lparr>sy_barriers := b\<rparr>) = thread t sy" "thread t (sy\<lparr>sy_futexes := fs\<rparr>) = thread t sy"
  "thread t (sy\<lparr>sy_sleeping := s\<rparr>) = thread t sy" "thread t (sy\<lparr>sy_mem := mem\<rparr>) = thread t sy"
  by (simp_all add: thread_def)

lemma thread_ok_update [simp]:
  "thread_ok t (sy\<lparr>sy_mutexes := m\<rparr>) = thread_ok t sy" "thread_ok t (sy\<lparr>sy_conds := c\<rparr>) = thread_ok t sy"
  "thread_ok t (sy\<lparr>sy_barriers := b\<rparr>) = thread_ok t sy" "thread_ok t (sy\<lparr>sy_futexes := fs\<rparr>) = thread_ok t sy"
  "thread_ok t (sy\<lparr>sy_sleeping := s\<rparr>) = thread_ok t sy" "thread_ok t (sy\<lparr>sy_mem := mem\<rparr>) = thread_ok t sy"
  by (simp_all add: thread_ok_def)

lemma stallThread_Inr_iff: "stallThread t r sy = Inr sy' \<longleftrightarrow> thread_ok t sy \<and>
    sy' = set_thread t (\<lambda>s. s\<lparr>ts_status := STALLED, ts_reason := r, ts_msg := False\<rparr>) sy"
  by (auto simp: stallThread_def with_thread_def stallThread_async_def set_thread_def thread_ok_def)

lemma resumeThread_Inr_iff: "resumeThread t w msg sy = Inr sy' \<longleftrightarrow> thread_ok t sy \<and>
    sy' = set_thread t (\<lambda>s. s\<lparr>ts_wakeup := w, ts_msg := msg, ts_status := RUNNING\<rparr>) sy"
  by (auto simp: resumeThread_def with_thread_def resumeThread_async_def thread_signal_def set_thread_def thread_ok_def)

end
