(* ===== verification/Sync_Server.thy ===== *)
theory Sync_Server
  imports Sync_State
begin

text \<open>
  common/system/sync_server.cc: mutexes, condition variables and barriers of the simulated program. An operation
  takes the thread that calls it and its time, and returns a time, or the thread stalls.
\<close>

subsection \<open>Mutexes\<close>

definition set_mutex :: "addr \<Rightarrow> sim_mutex \<Rightarrow> sync_sys \<Rightarrow> sync_sys" where
  "set_mutex mux m sy = sy\<lparr>sy_mutexes := (sy_mutexes sy)(mux \<mapsto> m)\<rparr>"

definition mx_isLocked :: "thread_id \<Rightarrow> sim_mutex \<Rightarrow> bool" where
  "mx_isLocked t m = (if mx_owner m = NO_OWNER then False else if mx_owner m = t then False else True)"

definition mx_lock :: "thread_id \<Rightarrow> time \<Rightarrow> addr \<Rightarrow> sim_mutex \<Rightarrow> sync_sys \<Rightarrow> (time outcome \<times> sync_sys) res" where
  "mx_lock t time mux m sy =
     (if mx_owner m = NO_OWNER then Inr (Now time, set_mutex mux (m\<lparr>mx_owner := t\<rparr>) sy)
      else bindE (stallThread t STALL_MUTEX (set_mutex mux (m\<lparr>mx_waiting := mx_waiting m @ [t]\<rparr>) sy)) (\<lambda>sy.
        Inr (Stalls, sy)))"

definition mx_lock_async ::
  "thread_id \<Rightarrow> time \<Rightarrow> addr \<Rightarrow> sim_mutex \<Rightarrow> sync_sys \<Rightarrow> (bool \<times> sync_sys) res" where
  "mx_lock_async t time mux m sy =
     (if mx_owner m = NO_OWNER then
        bindE (resumeThread t time False (set_mutex mux (m\<lparr>mx_owner := t\<rparr>) sy)) (\<lambda>sy. Inr (True, sy))
      else Inr (False, set_mutex mux (m\<lparr>mx_waiting := mx_waiting m @ [t]\<rparr>) sy))"

definition mx_unlock :: "thread_id \<Rightarrow> time \<Rightarrow> addr \<Rightarrow> sim_mutex \<Rightarrow> sync_sys \<Rightarrow> (thread_id \<times> sync_sys) res" where
  "mx_unlock t time mux m sy =
     assertE (mx_owner m = t) ''m_owner == thread_id''
       (case mx_waiting m of
          [] \<Rightarrow> Inr (NO_OWNER, set_mutex mux (m\<lparr>mx_owner := NO_OWNER\<rparr>) sy)
        | waiter # ws \<Rightarrow>
            bindE (resumeThread waiter time False (set_mutex mux (m\<lparr>mx_waiting := ws, mx_owner := waiter\<rparr>) sy)) (\<lambda>sy.
            Inr (waiter, sy)))"

definition getMutex :: "addr \<Rightarrow> bool \<Rightarrow> sync_sys \<Rightarrow> (sim_mutex \<times> sync_sys) res" where
  "getMutex mux canCreate sy =
     (case sy_mutexes sy mux of
        Some m \<Rightarrow> Inr (m, sy)
      | None \<Rightarrow> if canCreate then Inr (SimMutex, set_mutex mux SimMutex sy)
                else Inl (Assert_Failed ''Invalid mutex id passed''))"

definition mutexInit :: "addr \<Rightarrow> sync_sys \<Rightarrow> sync_sys res" where
  "mutexInit mux sy = bindE (getMutex mux True sy) (\<lambda>(_, sy). Inr sy)"

definition mutexLock ::
  "thread_id \<Rightarrow> addr \<Rightarrow> bool \<Rightarrow> time \<Rightarrow> sync_sys \<Rightarrow> ((time \<times> bool) outcome \<times> sync_sys) res" where
  "mutexLock t mux tryLock time sy =
     bindE (getMutex mux True sy) (\<lambda>(m, sy).
     if tryLock \<and> mx_isLocked t m then Inr (Now (time, False), sy)
     else bindE (mx_lock t time mux m sy) (\<lambda>(time_end, sy).
       Inr (case time_end of Now e \<Rightarrow> Now (e + sy_cost sy, True) | Stalls \<Rightarrow> Stalls, sy)))"

text \<open>What a stalled locker returns once it is resumed.\<close>

definition mutexLock_resumed :: "thread_id \<Rightarrow> sync_sys \<Rightarrow> time \<times> bool" where
  "mutexLock_resumed t sy = (ts_wakeup (thread t sy) + sy_cost sy, True)"

definition mutexUnlock :: "thread_id \<Rightarrow> addr \<Rightarrow> time \<Rightarrow> sync_sys \<Rightarrow> (time \<times> sync_sys) res" where
  "mutexUnlock t mux time sy =
     bindE (getMutex mux False sy) (\<lambda>(m, sy).
     bindE (mx_unlock t (time + sy_cost sy) mux m sy) (\<lambda>(new_owner, sy).
     Inr (time + (if new_owner = NO_OWNER then 0 else sy_cost sy), sy)))"

subsection \<open>Condition variables\<close>

definition set_cond :: "addr \<Rightarrow> sim_cond \<Rightarrow> sync_sys \<Rightarrow> sync_sys" where
  "set_cond cond c sy = sy\<lparr>sy_conds := (sy_conds sy)(cond \<mapsto> c)\<rparr>"

definition getCond :: "addr \<Rightarrow> sync_sys \<Rightarrow> sim_cond \<times> sync_sys" where
  "getCond cond sy = (case sy_conds sy cond of Some c \<Rightarrow> (c, sy) | None \<Rightarrow> ([], set_cond cond [] sy))"

text \<open>The pointer to a waiter's mutex.\<close>

definition deref_mutex :: "addr \<Rightarrow> sync_sys \<Rightarrow> sim_mutex res" where
  "deref_mutex mux sy = (case sy_mutexes sy mux of Some m \<Rightarrow> Inr m | None \<Rightarrow> Inl (Null_Pointer ''m_mutex''))"

definition condInit :: "addr \<Rightarrow> sync_sys \<Rightarrow> sync_sys" where
  "condInit cond sy = snd (getCond cond sy)"

definition cv_wait :: "thread_id \<Rightarrow> time \<Rightarrow> addr \<Rightarrow> addr \<Rightarrow> sim_mutex \<Rightarrow> sim_cond \<Rightarrow> sync_sys \<Rightarrow> (time outcome \<times> sync_sys) res" where
  "cv_wait t time cond mux m c sy =
     bindE (mx_unlock t time mux m sy) (\<lambda>(_, sy).
     bindE (stallThread t STALL_COND (set_cond cond (c @ [(t, mux)]) sy)) (\<lambda>sy. Inr (Stalls, sy)))"

definition condWait :: "thread_id \<Rightarrow> addr \<Rightarrow> addr \<Rightarrow> time \<Rightarrow> sync_sys \<Rightarrow> (time outcome \<times> sync_sys) res" where
  "condWait t cond mux time sy =
     bindE (getMutex mux True sy) (\<lambda>(m, sy). let (c, sy) = getCond cond sy in cv_wait t time cond mux m c sy)"

definition cv_signal :: "time \<Rightarrow> addr \<Rightarrow> sim_cond \<Rightarrow> sync_sys \<Rightarrow> (thread_id \<times> sync_sys) res" where
  "cv_signal time cond c sy =
     (case c of
        [] \<Rightarrow> Inr (INVALID_THREAD_ID, sy)
      | (woken, mux) # c' \<Rightarrow>
          let sy = set_cond cond c' sy in
          bindE (deref_mutex mux sy) (\<lambda>m.
          bindE (mx_lock_async woken time mux m sy) (\<lambda>(locked, sy).
          Inr (if locked then woken else INVALID_THREAD_ID, sy))))"

definition condSignal :: "addr \<Rightarrow> time \<Rightarrow> sync_sys \<Rightarrow> (time \<times> sync_sys) res" where
  "condSignal cond time sy =
     (let (c, sy) = getCond cond sy in bindE (cv_signal time cond c sy) (\<lambda>(_, sy). Inr (time, sy)))"

primrec cv_broadcast :: "time \<Rightarrow> addr \<Rightarrow> sim_cond \<Rightarrow> sync_sys \<Rightarrow> sync_sys res" where
  "cv_broadcast time cond [] sy = Inr sy"
| "cv_broadcast time cond (w # c) sy =
     (let sy = set_cond cond c sy in
      bindE (deref_mutex (snd w) sy) (\<lambda>m.
      bindE (mx_lock_async (fst w) time (snd w) m sy) (\<lambda>(_, sy).
      cv_broadcast time cond c sy)))"

definition condBroadcast :: "addr \<Rightarrow> time \<Rightarrow> sync_sys \<Rightarrow> (time \<times> sync_sys) res" where
  "condBroadcast cond time sy =
     (let (c, sy) = getCond cond sy in bindE (cv_broadcast time cond c sy) (\<lambda>sy. Inr (time, sy)))"

subsection \<open>Barriers\<close>

definition set_barrier :: "nat \<Rightarrow> sim_barrier \<Rightarrow> sync_sys \<Rightarrow> sync_sys" where
  "set_barrier i b sy = sy\<lparr>sy_barriers := (sy_barriers sy)[i := b]\<rparr>"

primrec resume_all :: "thread_id list \<Rightarrow> time \<Rightarrow> sync_sys \<Rightarrow> sync_sys res" where
  "resume_all [] time sy = Inr sy"
| "resume_all (w # ws) time sy = bindE (resumeThread w time False sy) (resume_all ws time)"

text \<open>The number that completes the barrier is compared as an unsigned 64-bit number with the unsigned 32-bit
  \<open>m_count - 1\<close>, so that a barrier for no thread is never complete.\<close>

definition br_wait :: "thread_id \<Rightarrow> time \<Rightarrow> nat \<Rightarrow> sim_barrier \<Rightarrow> sync_sys \<Rightarrow> (time outcome \<times> sync_sys) res" where
  "br_wait t time i b sy =
     (if length (br_waiting b) = unat (br_count b - 1) then
        bindE (resume_all (br_waiting b) time (set_barrier i (b\<lparr>br_waiting := []\<rparr>) sy)) (\<lambda>sy. Inr (Now time, sy))
      else
        bindE (stallThread t STALL_BARRIER (set_barrier i (b\<lparr>br_waiting := br_waiting b @ [t]\<rparr>) sy)) (\<lambda>sy.
        Inr (Stalls, sy)))"

definition barrierInit :: "u32 \<Rightarrow> sync_sys \<Rightarrow> nat \<times> sync_sys" where
  "barrierInit count sy =
     (length (sy_barriers sy), sy\<lparr>sy_barriers := sy_barriers sy @ [\<lparr>br_waiting = [], br_count = count\<rparr>]\<rparr>)"

definition barrierWait :: "thread_id \<Rightarrow> nat \<Rightarrow> time \<Rightarrow> sync_sys \<Rightarrow> (time outcome \<times> sync_sys) res" where
  "barrierWait t i time sy =
     (if i < length (sy_barriers sy) then br_wait t time i (sy_barriers sy ! i) sy
      else Inl (Out_Of_Range ''m_barriers''))"

end
