(* ===== verification/Futex.thy ===== *)
theory Futex
  imports Sync_State "HOL-Library.AList"
begin

text \<open>
  common/system/syscall_server.cc: futexes and sleeping threads. A futex is found by its physical address; what
  the simulator holds as a pointer to it is that address here. The environment gives the translation of addresses
  (a callback of the front end), the cost of rescheduling and the start of the emulated clock. Reads and writes of
  the application's memory return and change the words in \<open>sy_mem\<close>; their timing in the caches is not part of this
  model. What a system call returns is a number, negative for an error.
\<close>

record futex_env =
  fe_va2pa :: "thread_id \<Rightarrow> addr \<Rightarrow> addr"
  fe_time_start :: u64

definition EWOULDBLOCK :: int where "EWOULDBLOCK = 11"
definition EAGAIN :: int where "EAGAIN = 11"
definition ETIMEDOUT :: int where "ETIMEDOUT = 110"

definition FUTEX_WAIT :: u32 where "FUTEX_WAIT = 0"
definition FUTEX_WAKE :: u32 where "FUTEX_WAKE = 1"
definition FUTEX_CMP_REQUEUE :: u32 where "FUTEX_CMP_REQUEUE = 4"
definition FUTEX_WAKE_OP :: u32 where "FUTEX_WAKE_OP = 5"
definition FUTEX_WAIT_BITSET :: u32 where "FUTEX_WAIT_BITSET = 9"
definition FUTEX_WAKE_BITSET :: u32 where "FUTEX_WAKE_BITSET = 10"
definition FUTEX_PRIVATE_FLAG :: u32 where "FUTEX_PRIVATE_FLAG = 128"
definition FUTEX_CMD_MASK :: u32 where "FUTEX_CMD_MASK = NOT (128 OR 256)"
definition FUTEX_BITSET_MATCH_ANY :: u32 where "FUTEX_BITSET_MATCH_ANY = 0xffffffff"

subsection \<open>The queue of a futex\<close>

definition futex_queue :: "addr \<Rightarrow> sync_sys \<Rightarrow> futex_waiter list" where
  "futex_queue k sy = (case map_of (sy_futexes sy) k of None \<Rightarrow> [] | Some q \<Rightarrow> q)"

definition set_futex :: "addr \<Rightarrow> futex_waiter list \<Rightarrow> sync_sys \<Rightarrow> sync_sys" where
  "set_futex k q sy = sy\<lparr>sy_futexes := AList.update k q (sy_futexes sy)\<rparr>"

text \<open>The scans that erase the first waiter they look for.\<close>

primrec take_waiter ::
  "(futex_waiter \<Rightarrow> bool) \<Rightarrow> futex_waiter list \<Rightarrow> (futex_waiter \<times> futex_waiter list) option" where
  "take_waiter P [] = None"
| "take_waiter P (w # ws) = (if P w then Some (w, ws) else map_option (\<lambda>(v, vs). (v, w # vs)) (take_waiter P ws))"

definition enqueueWaiter ::
  "addr \<Rightarrow> thread_id \<Rightarrow> u32 \<Rightarrow> time \<Rightarrow> sync_sys \<Rightarrow> sync_sys res" where
  "enqueueWaiter k t msk timeout_time sy =
     stallThread t STALL_FUTEX (set_futex k (futex_queue k sy
       @ [\<lparr>fw_thread = t, fw_mask = msk, fw_timeout = timeout_time\<rparr>]) sy)"

definition dequeueWaiter :: "addr \<Rightarrow> u32 \<Rightarrow> time \<Rightarrow> sync_sys \<Rightarrow> (thread_id \<times> sync_sys) res" where
  "dequeueWaiter k msk time sy =
     (case take_waiter (\<lambda>w. msk AND fw_mask w \<noteq> 0) (futex_queue k sy) of
        None \<Rightarrow> Inr (INVALID_THREAD_ID, sy)
      | Some (w, ws) \<Rightarrow> bindE (resumeThread (fw_thread w) time True (set_futex k ws sy)) (\<lambda>sy. Inr (fw_thread w, sy)))"

definition requeueWaiter :: "addr \<Rightarrow> addr \<Rightarrow> sync_sys \<Rightarrow> thread_id \<times> sync_sys" where
  "requeueWaiter k k2 sy =
     (case futex_queue k sy of
        [] \<Rightarrow> (INVALID_THREAD_ID, sy)
      | w # ws \<Rightarrow> let sy = set_futex k ws sy in (fw_thread w, set_futex k2 (futex_queue k2 sy @ [w]) sy))"

definition wakeTimedOut :: "time \<Rightarrow> addr \<Rightarrow> sync_sys \<Rightarrow> sync_sys res" where
  "wakeTimedOut time k sy =
     (case take_waiter (\<lambda>w. fw_timeout w \<le> time) (futex_queue k sy) of
        None \<Rightarrow> Inr sy
      | Some (w, ws) \<Rightarrow> resumeThread (fw_thread w) time False (set_futex k ws sy))"

text \<open>The timeout the loop is left with: the last one of the list that is set.\<close>

definition queue_timeout :: "futex_waiter list \<Rightarrow> time" where
  "queue_timeout q = fold (\<lambda>w next. if fw_timeout w < MaxTime then fw_timeout w else next) q MaxTime"

subsection \<open>Operations\<close>

definition applyRescheduleCost :: "thread_id \<Rightarrow> bool \<Rightarrow> sync_sys \<Rightarrow> time res" where
  "applyRescheduleCost t conditional sy =
     (if conditional = False then Inr 0
      else with_thread t sy
        (case ts_core (thread t sy) of
           None \<Rightarrow> Inl (Null_Pointer ''getCore'')
         | Some c \<Rightarrow> Inr (if sy_core_ins sy c = 0 then 0 else sy_cost sy)))"

definition findFutexByUaddr :: "futex_env \<Rightarrow> addr \<Rightarrow> thread_id \<Rightarrow> sync_sys \<Rightarrow> (addr \<times> sync_sys) res" where
  "findFutexByUaddr env uaddr t sy =
     with_thread t sy (let k = fe_va2pa env t uaddr in Inr (k, set_futex k (futex_queue k sy) sy))"

definition wakeFutexOne :: "addr \<Rightarrow> thread_id \<Rightarrow> u32 \<Rightarrow> time \<Rightarrow> sync_sys \<Rightarrow> (thread_id \<times> sync_sys) res" where
  "wakeFutexOne k thread_by msk curr_time sy =
     bindE (applyRescheduleCost thread_by True sy) (\<lambda>c. dequeueWaiter k msk (curr_time + c) sy)"

text \<open>The loops that wake up to \<open>n\<close> waiters; the number of those woken is the result.\<close>

primrec wake_loop ::
  "nat \<Rightarrow> (sync_sys \<Rightarrow> (thread_id \<times> sync_sys) res) \<Rightarrow> nat \<Rightarrow> sync_sys \<Rightarrow> (nat \<times> sync_sys) res" where
  "wake_loop 0 wake woken sy = Inr (woken, sy)"
| "wake_loop (Suc n) wake woken sy =
     bindE (wake sy) (\<lambda>(waiter, sy).
     if waiter = INVALID_THREAD_ID then Inr (woken, sy) else wake_loop n wake (Suc woken) sy)"

definition upto_count :: "u32 \<Rightarrow> nat" where "upto_count n = nat (sint n)"

definition futexWait :: "futex_env \<Rightarrow> thread_id \<Rightarrow> addr \<Rightarrow> u32 \<Rightarrow> u32 \<Rightarrow> u32 \<Rightarrow> time \<Rightarrow> time \<Rightarrow> sync_sys
    \<Rightarrow> ((int \<times> time) outcome \<times> sync_sys) res" where
  "futexWait env t uaddr val act_val msk curr_time timeout_time sy =
     bindE (findFutexByUaddr env uaddr t sy) (\<lambda>(k, sy).
     if val \<noteq> act_val then Inr (Now (- EWOULDBLOCK, curr_time), sy)
     else bindE (enqueueWaiter k t msk timeout_time sy) (\<lambda>sy. Inr (Stalls, sy)))"

text \<open>What a waiter returns once it is resumed.\<close>

definition futexWait_resumed :: "thread_id \<Rightarrow> sync_sys \<Rightarrow> int \<times> time" where
  "futexWait_resumed t sy = (if ts_msg (thread t sy) then 0 else - ETIMEDOUT, ts_wakeup (thread t sy))"

definition futexWake :: "futex_env \<Rightarrow> thread_id \<Rightarrow> addr \<Rightarrow> u32 \<Rightarrow> u32 \<Rightarrow> time \<Rightarrow> sync_sys
    \<Rightarrow> ((int \<times> time) \<times> sync_sys) res" where
  "futexWake env t uaddr nr_wake msk curr_time sy =
     bindE (findFutexByUaddr env uaddr t sy) (\<lambda>(k, sy).
     bindE (wake_loop (upto_count nr_wake) (wakeFutexOne k t msk curr_time) 0 sy) (\<lambda>(woken, sy).
     bindE (applyRescheduleCost t (0 < woken) sy) (\<lambda>c. Inr ((int woken, curr_time + c), sy))))"

text \<open>The operation of \<open>FUTEX_WAKE_OP\<close> as it is encoded: 4 bits of operation, the top one for a shifted operand, 4
  bits of comparison and two signed operands of 12 bits. A shift by an amount outside the word is undefined.\<close>

definition op_arg :: "u32 \<Rightarrow> u32 res" where
  "op_arg e = (let oparg = signed_drop_bit 20 (push_bit 8 e) in
     if e AND push_bit 28 8 \<noteq> 0 then
       (if unat oparg < 32 then Inr (push_bit (unat oparg) 1) else Inl (Out_Of_Range ''1 << oparg''))
     else Inr oparg)"

definition op_result :: "u32 \<Rightarrow> u32 \<Rightarrow> u32 \<Rightarrow> u32 res" where
  "op_result p oldval oparg =
     (if p = 0 then Inr oparg
      else if p = 1 then Inr (oldval + oparg)
      else if p = 2 then Inr (oldval OR oparg)
      else if p = 3 then Inr (oldval AND NOT oparg)
      else if p = 4 then Inr (oldval XOR oparg)
      else Inl (Assert_Failed ''futexWakeOp: unknown op''))"

definition op_compare :: "u32 \<Rightarrow> u32 \<Rightarrow> u32 \<Rightarrow> bool res" where
  "op_compare c oldval cmparg =
     (if c = 0 then Inr (oldval = cmparg)
      else if c = 1 then Inr (oldval \<noteq> cmparg)
      else if c = 2 then Inr (sint oldval < sint cmparg)
      else if c = 5 then Inr (sint cmparg \<le> sint oldval)
      else if c = 3 then Inr (sint oldval \<le> sint cmparg)
      else if c = 4 then Inr (sint cmparg < sint oldval)
      else Inl (Assert_Failed ''futexWakeOp: unknown cmp''))"

definition futexDoOp :: "u32 \<Rightarrow> addr \<Rightarrow> sync_sys \<Rightarrow> (bool \<times> sync_sys) res" where
  "futexDoOp e uaddr sy =
     (let p = drop_bit 28 e AND 7; c = drop_bit 24 e AND 15;
          cmparg = signed_drop_bit 20 (push_bit 20 e); oldval = sy_mem sy uaddr in
      bindE (op_arg e) (\<lambda>oparg.
      bindE (op_result p oldval oparg) (\<lambda>newval.
      let sy = sy\<lparr>sy_mem := (sy_mem sy)(uaddr := newval)\<rparr> in
      bindE (op_compare c oldval cmparg) (\<lambda>ret. Inr (ret, sy)))))"

definition wake_both ::
  "thread_id \<Rightarrow> addr \<Rightarrow> addr \<Rightarrow> u32 \<Rightarrow> u32 \<Rightarrow> bool \<Rightarrow> time \<Rightarrow> sync_sys \<Rightarrow> ((int \<times> time) \<times> sync_sys) res" where
  "wake_both t k k2 nr_wake nr_wake2 op_ret curr_time sy =
     bindE (wake_loop (upto_count nr_wake) (wakeFutexOne k t FUTEX_BITSET_MATCH_ANY curr_time) 0 sy) (\<lambda>(woken, sy).
     bindE (if op_ret
            then wake_loop (upto_count nr_wake2) (wakeFutexOne k2 t FUTEX_BITSET_MATCH_ANY curr_time) woken sy
            else Inr (woken, sy)) (\<lambda>(woken, sy).
     bindE (applyRescheduleCost t (0 < woken) sy) (\<lambda>c. Inr ((int woken, curr_time + c), sy))))"

definition futexWakeOp :: "futex_env \<Rightarrow> thread_id \<Rightarrow> addr \<Rightarrow> addr \<Rightarrow> u32 \<Rightarrow> u32 \<Rightarrow> u32 \<Rightarrow> time \<Rightarrow> sync_sys
    \<Rightarrow> ((int \<times> time) \<times> sync_sys) res" where
  "futexWakeOp env t uaddr uaddr2 nr_wake nr_wake2 e curr_time sy =
     bindE (findFutexByUaddr env uaddr t sy) (\<lambda>(k, sy).
     bindE (findFutexByUaddr env uaddr2 t sy) (\<lambda>(k2, sy).
     assertE (ts_core (thread t sy) \<noteq> None) ''Cannot execute futexWakeOp() for a thread that is unscheduled''
     (bindE (futexDoOp e uaddr2 sy) (\<lambda>(op_ret, sy). wake_both t k k2 nr_wake nr_wake2 op_ret curr_time sy))))"

text \<open>The loop that requeues: it ends when its futex has no waiter left, which it never has when both futexes are one.\<close>

partial_function (option) requeue_loop :: "addr \<Rightarrow> addr \<Rightarrow> sync_sys \<Rightarrow> sync_sys option" where
  "requeue_loop k k2 sy =
     (case requeueWaiter k k2 sy of
        (waiter, sy) \<Rightarrow> if waiter = INVALID_THREAD_ID then Some sy else requeue_loop k k2 sy)"

definition futexCmpRequeue :: "futex_env \<Rightarrow> thread_id \<Rightarrow> addr \<Rightarrow> u32 \<Rightarrow> addr \<Rightarrow> u32 \<Rightarrow> u32 \<Rightarrow> time \<Rightarrow> sync_sys
    \<Rightarrow> ((int \<times> time) \<times> sync_sys) res" where
  "futexCmpRequeue env t uaddr val uaddr2 val3 act_val curr_time sy =
     bindE (findFutexByUaddr env uaddr t sy) (\<lambda>(k, sy).
     if val3 \<noteq> act_val then Inr ((- EAGAIN, curr_time), sy)
     else
       bindE (wake_loop (upto_count val) (dequeueWaiter k FUTEX_BITSET_MATCH_ANY curr_time) 0 sy) (\<lambda>(woken, sy).
       bindE (findFutexByUaddr env uaddr2 t sy) (\<lambda>(k2, sy).
       case requeue_loop k k2 sy of
         Some sy \<Rightarrow> Inr ((int woken, curr_time), sy)
       | None \<Rightarrow> Inl (No_Return ''futexCmpRequeue''))))"

text \<open>The arguments. The time of the timeout is the contents of the structure it points to.\<close>

record futex_args_t =
  fa_uaddr :: addr
  fa_op :: u32
  fa_val :: u32
  fa_timeout :: "(u64 \<times> u64) option"
  fa_val2 :: u32
  fa_uaddr2 :: addr
  fa_val3 :: u32

definition futex_timeout :: "futex_env \<Rightarrow> u32 \<Rightarrow> (u64 \<times> u64) option \<Rightarrow> time \<Rightarrow> time" where
  "futex_timeout env cmd timeout curr_time =
     (case timeout of
        None \<Rightarrow> MaxTime
      | Some (tv_sec, tv_nsec) \<Rightarrow>
          let timeout_val = (tv_sec - fe_time_start env) * SEC_1 + tv_nsec * NS_1 in
          if cmd = FUTEX_WAIT_BITSET then timeout_val else curr_time + timeout_val)"

definition outcome_now :: "('a \<times> 's) res \<Rightarrow> ('a outcome \<times> 's) res" where
  "outcome_now r = bindE r (\<lambda>(x, sy). Inr (Now x, sy))"

definition handleFutexCall :: "futex_env \<Rightarrow> thread_id \<Rightarrow> futex_args_t \<Rightarrow> time \<Rightarrow> sync_sys
    \<Rightarrow> ((int \<times> time) outcome \<times> sync_sys) res" where
  "handleFutexCall env t args curr_time sy =
     with_thread t sy
     (let cmd = (fa_op args AND FUTEX_CMD_MASK) AND NOT FUTEX_PRIVATE_FLAG in
      assertE (ts_core (thread t sy) \<noteq> None) ''Core should not be NULL''
      (assertE (cmd = FUTEX_WAIT \<or> cmd = FUTEX_WAIT_BITSET \<or> cmd = FUTEX_WAKE \<or> cmd = FUTEX_WAKE_BITSET
                \<or> cmd = FUTEX_WAKE_OP \<or> cmd = FUTEX_CMP_REQUEUE) ''op''
       (let act_val = sy_mem sy (fa_uaddr args) in
        if cmd = FUTEX_WAIT \<or> cmd = FUTEX_WAIT_BITSET then
          futexWait env t (fa_uaddr args) (fa_val args) act_val
            (if cmd = FUTEX_WAIT_BITSET then fa_val3 args else FUTEX_BITSET_MATCH_ANY) curr_time
            (futex_timeout env cmd (fa_timeout args) curr_time) sy
        else if cmd = FUTEX_WAKE \<or> cmd = FUTEX_WAKE_BITSET then
          outcome_now (futexWake env t (fa_uaddr args) (fa_val args)
            (if cmd = FUTEX_WAIT_BITSET then fa_val3 args else FUTEX_BITSET_MATCH_ANY) curr_time sy)
        else if cmd = FUTEX_WAKE_OP then
          outcome_now (futexWakeOp env t (fa_uaddr args) (fa_uaddr2 args) (fa_val args) (fa_val2 args)
            (fa_val3 args) curr_time sy)
        else
          assertE (fa_uaddr args \<noteq> fa_uaddr2 args) ''FUTEX_CMP_REQUEUE: uaddr == uaddr2''
            (outcome_now (futexCmpRequeue env t (fa_uaddr args) (fa_val args) (fa_uaddr2 args) (fa_val3 args)
               act_val curr_time sy)))))"

definition handleSleepCall :: "thread_id \<Rightarrow> time \<Rightarrow> sync_sys \<Rightarrow> (time outcome \<times> sync_sys) res" where
  "handleSleepCall t wake_time sy =
     bindE (stallThread t STALL_SLEEP
       (sy\<lparr>sy_sleeping := sy_sleeping sy @ [\<lparr>fw_thread = t, fw_mask = 0, fw_timeout = wake_time\<rparr>]\<rparr>)) (\<lambda>sy.
     Inr (Stalls, sy))"

subsection \<open>Time\<close>

primrec wake_futexes :: "time \<Rightarrow> addr list \<Rightarrow> sync_sys \<Rightarrow> sync_sys res" where
  "wake_futexes time [] sy = Inr sy"
| "wake_futexes time (k # ks) sy = bindE (wakeTimedOut time k sy) (wake_futexes time ks)"

definition wake_sleeper :: "time \<Rightarrow> sync_sys \<Rightarrow> sync_sys res" where
  "wake_sleeper time sy =
     (case take_waiter (\<lambda>w. fw_timeout w \<le> time) (sy_sleeping sy) of
        None \<Rightarrow> Inr sy
      | Some (w, ws) \<Rightarrow> resumeThread (fw_thread w) time False (sy\<lparr>sy_sleeping := ws\<rparr>))"

definition futexPeriodic :: "time \<Rightarrow> sync_sys \<Rightarrow> sync_sys res" where
  "futexPeriodic time sy = bindE (wake_sleeper time sy) (\<lambda>sy. wake_futexes time (map fst (sy_futexes sy)) sy)"

definition getNextTimeout :: "sync_sys \<Rightarrow> time" where
  "getNextTimeout sy =
     fold (\<lambda>(_, q) next. if queue_timeout q < next then queue_timeout q else next) (sy_futexes sy)
       (queue_timeout (sy_sleeping sy))"

end
