(* ===== verification/Sync_Inv.thy ===== *)
theory Sync_Inv
  imports Sync_Server Futex
begin

text \<open>
  The invariant of the queues: every thread that is stalled on a mutex, condition variable, barrier, futex or sleep
  waits in exactly one queue, exactly once, and nothing else waits in one. All operations are built from three
  moves of the queues, which keep it: a running thread parks, a waiting one is released, and a waiting one changes its queue.
\<close>

datatype place = At_Mutex addr | At_Cond addr | At_Barrier nat | At_Futex addr | At_Sleep

text \<open>The threads that wait at a place, in order.\<close>

primrec waiters :: "sync_sys \<Rightarrow> place \<Rightarrow> thread_id list" where
  "waiters sy (At_Mutex a) = (case sy_mutexes sy a of None \<Rightarrow> [] | Some m \<Rightarrow> mx_waiting m)"
| "waiters sy (At_Cond a) = (case sy_conds sy a of None \<Rightarrow> [] | Some c \<Rightarrow> map fst c)"
| "waiters sy (At_Barrier i) = (if i < length (sy_barriers sy) then br_waiting (sy_barriers sy ! i) else [])"
| "waiters sy (At_Futex k) = map fw_thread (futex_queue k sy)"
| "waiters sy At_Sleep = map fw_thread (sy_sleeping sy)"

text \<open>A signalled waiter of a condition variable that has to queue for its mutex keeps its reason.\<close>

primrec reasons :: "place \<Rightarrow> stall_type_t list" where
  "reasons (At_Mutex a) = [STALL_MUTEX, STALL_COND]"
| "reasons (At_Cond a) = [STALL_COND]"
| "reasons (At_Barrier i) = [STALL_BARRIER]"
| "reasons (At_Futex k) = [STALL_FUTEX]"
| "reasons At_Sleep = [STALL_SLEEP]"

definition queue_reasons :: "stall_type_t list" where
  "queue_reasons = [STALL_MUTEX, STALL_COND, STALL_BARRIER, STALL_FUTEX, STALL_SLEEP]"

text \<open>The part of the invariant that is about queues and threads only.\<close>

definition parked :: "(place \<Rightarrow> thread_id list) \<Rightarrow> sync_sys \<Rightarrow> bool" where
  "parked W sy \<longleftrightarrow>
     (\<forall>p. distinct (W p)) \<and>
     (\<forall>p q t. t \<in> set (W p) \<and> t \<in> set (W q) \<longrightarrow> p = q) \<and>
     (\<forall>p t. t \<in> set (W p) \<longrightarrow>
        thread_ok t sy \<and> ts_status (thread t sy) = STALLED \<and> ts_reason (thread t sy) \<in> set (reasons p)) \<and>
     (\<forall>t. thread_ok t sy \<and> ts_status (thread t sy) = STALLED \<and> ts_reason (thread t sy) \<in> set queue_reasons \<longrightarrow>
        (\<exists>p. t \<in> set (W p)))"

definition mutexes_ok :: "sync_sys \<Rightarrow> bool" where
  "mutexes_ok sy \<longleftrightarrow> (\<forall>a m. sy_mutexes sy a = Some m \<longrightarrow> mx_owner m = NO_OWNER \<longrightarrow> mx_waiting m = [])"

definition conds_ok :: "sync_sys \<Rightarrow> bool" where
  "conds_ok sy \<longleftrightarrow> (\<forall>a c t mux. sy_conds sy a = Some c \<longrightarrow> (t, mux) \<in> set c \<longrightarrow> sy_mutexes sy mux \<noteq> None)"

definition sync_inv :: "sync_sys \<Rightarrow> bool" where
  "sync_inv sy \<longleftrightarrow> parked (waiters sy) sy \<and> mutexes_ok sy \<and> conds_ok sy"

definition running :: "thread_id \<Rightarrow> sync_sys \<Rightarrow> bool" where
  "running t sy \<longleftrightarrow> thread_ok t sy \<and> ts_status (thread t sy) = RUNNING"

lemma sync_invI: "parked (waiters sy) sy \<Longrightarrow> mutexes_ok sy \<Longrightarrow> conds_ok sy \<Longrightarrow> sync_inv sy"
  by (simp add: sync_inv_def)

lemma parked_waiting:
  "parked W sy \<Longrightarrow> t \<in> set (W p) \<Longrightarrow>
     thread_ok t sy \<and> ts_status (thread t sy) = STALLED \<and> ts_reason (thread t sy) \<in> set (reasons p)"
  by (auto simp: parked_def)

lemma parked_unique: "parked W sy \<Longrightarrow> t \<in> set (W p) \<Longrightarrow> t \<in> set (W q) \<Longrightarrow> p = q"
  unfolding parked_def by blast

lemma parked_distinct: "parked W sy \<Longrightarrow> distinct (W p)"
  by (simp add: parked_def)

lemma parked_found: "parked W sy \<Longrightarrow> thread_ok t sy \<Longrightarrow> ts_status (thread t sy) = STALLED
    \<Longrightarrow> ts_reason (thread t sy) \<in> set queue_reasons \<Longrightarrow> \<exists>p. t \<in> set (W p)"
  by (simp add: parked_def)

lemma running_not_waiting: "parked W sy \<Longrightarrow> running t sy \<Longrightarrow> t \<notin> set (W p)"
  using parked_waiting [of W sy t p] by (auto simp: running_def)

lemma parkedI:
  assumes "\<And>p. distinct (W p)" "\<And>p q t. t \<in> set (W p) \<Longrightarrow> t \<in> set (W q) \<Longrightarrow> p = q"
    "\<And>p t. t \<in> set (W p) \<Longrightarrow>
        thread_ok t sy \<and> ts_status (thread t sy) = STALLED \<and> ts_reason (thread t sy) \<in> set (reasons p)"
    "\<And>t. thread_ok t sy \<Longrightarrow> ts_status (thread t sy) = STALLED \<Longrightarrow> ts_reason (thread t sy) \<in> set queue_reasons \<Longrightarrow>
        \<exists>p. t \<in> set (W p)"
  shows "parked W sy"
  using assms unfolding parked_def by blast

text \<open>The three moves. The system after the move has the thread of its queue changed and every other thread as it was.\<close>

definition same_threads_but :: "thread_id \<Rightarrow> sync_sys \<Rightarrow> sync_sys \<Rightarrow> bool" where
  "same_threads_but t sy sy' \<longleftrightarrow> (\<forall>u. thread_ok u sy' = thread_ok u sy) \<and>
     (\<forall>u. u \<noteq> t \<longrightarrow> thread_ok u sy \<longrightarrow> thread u sy' = thread u sy)"

lemma same_threads_but_set:
  "thread_ok t sy \<Longrightarrow> same_threads_but t sy (set_thread t f sy)"
  by (simp add: same_threads_but_def)

lemma reasons_in_queue: "r \<in> set (reasons p) \<Longrightarrow> r \<in> set queue_reasons"
  by (cases p) (auto simp: queue_reasons_def)

lemma parked_park:
  assumes inv: "parked W sy" and run: "running t sy" and same: "same_threads_but t sy sy'"
    and th: "ts_status (thread t sy') = STALLED" "ts_reason (thread t sy') \<in> set (reasons p)"
    and W': "W' = W(p := W p @ [t])"
  shows "parked W' sy'"
proof (rule parkedI)
  note nw = running_not_waiting [OF inv run]
  have ok: "thread_ok t sy" using run by (simp add: running_def)
  have oks: "\<And>u. thread_ok u sy' = thread_ok u sy" using same by (simp add: same_threads_but_def)
  have oth: "\<And>u. u \<noteq> t \<Longrightarrow> thread_ok u sy \<Longrightarrow> thread u sy' = thread u sy" using same by (simp add: same_threads_but_def)
  show "distinct (W' q)" for q using parked_distinct [OF inv, of q] nw [of p] by (auto simp: W')
  show "q = r" if "u \<in> set (W' q)" "u \<in> set (W' r)" for q r u
  proof (cases "u = t")
    case True
    with that nw show ?thesis by (auto simp: W' split: if_splits)
  next
    case False
    with that have "u \<in> set (W q)" "u \<in> set (W r)" by (auto simp: W' split: if_splits)
    then show ?thesis by (rule parked_unique [OF inv])
  qed
  show "thread_ok u sy' \<and> ts_status (thread u sy') = STALLED \<and> ts_reason (thread u sy') \<in> set (reasons q)"
    if "u \<in> set (W' q)" for q u
  proof (cases "u = t")
    case True
    with that nw have "q = p" by (auto simp: W' split: if_splits)
    with True th ok oks show ?thesis by simp
  next
    case False
    with that have "u \<in> set (W q)" by (auto simp: W' split: if_splits)
    from parked_waiting [OF inv this] False oks oth show ?thesis by simp
  qed
  show "\<exists>q. u \<in> set (W' q)"
    if "thread_ok u sy'" "ts_status (thread u sy') = STALLED" "ts_reason (thread u sy') \<in> set queue_reasons" for u
  proof (cases "u = t")
    case True
    then show ?thesis by (auto simp: W' intro!: exI [of _ p])
  next
    case False
    with that oks oth parked_found [OF inv, of u] obtain q where "u \<in> set (W q)" by auto
    then show ?thesis by (auto simp: W' intro!: exI [of _ q])
  qed
qed

lemma parked_release:
  assumes inv: "parked W sy" and w: "t \<in> set (W p)" and same: "same_threads_but t sy sy'"
    and th: "ts_status (thread t sy') = RUNNING" and W': "W' = W(p := remove1 t (W p))"
  shows "parked W' sy'"
proof (rule parkedI)
  have oks: "\<And>u. thread_ok u sy' = thread_ok u sy" using same by (simp add: same_threads_but_def)
  have oth: "\<And>u. u \<noteq> t \<Longrightarrow> thread_ok u sy \<Longrightarrow> thread u sy' = thread u sy" using same by (simp add: same_threads_but_def)
  have sub: "u \<in> set (W q) \<and> u \<noteq> t" if "u \<in> set (W' q)" for u q
    using that parked_unique [OF inv w, of q] parked_distinct [OF inv, of p]
    by (auto simp: W' split: if_splits)
  show "distinct (W' q)" for q using parked_distinct [OF inv, of q] by (auto simp: W')
  show "q = r" if "u \<in> set (W' q)" "u \<in> set (W' r)" for q r u
    using sub [OF that(1)] sub [OF that(2)] parked_unique [OF inv] by blast
  show "thread_ok u sy' \<and> ts_status (thread u sy') = STALLED \<and> ts_reason (thread u sy') \<in> set (reasons q)"
    if "u \<in> set (W' q)" for q u
    using sub [OF that] parked_waiting [OF inv, of u q] oks oth by simp
  show "\<exists>q. u \<in> set (W' q)"
    if "thread_ok u sy'" "ts_status (thread u sy') = STALLED" "ts_reason (thread u sy') \<in> set queue_reasons" for u
  proof -
    from that th have "u \<noteq> t" by auto
    with that oks oth parked_found [OF inv, of u] obtain q where "u \<in> set (W q)" by auto
    with \<open>u \<noteq> t\<close> have "u \<in> set (W' q)" by (auto simp: W')
    then show ?thesis ..
  qed
qed

lemma parked_move:
  assumes inv: "parked W sy" and w: "t \<in> set (W p)" and ne: "p \<noteq> q"
    and oks: "\<And>u. thread_ok u sy' = thread_ok u sy" and oth: "\<And>u. thread_ok u sy \<Longrightarrow> thread u sy' = thread u sy"
    and fits: "ts_reason (thread t sy) \<in> set (reasons q)"
    and W': "W' = W(p := remove1 t (W p), q := W q @ [t])"
  shows "parked W' sy'"
proof (rule parkedI)
  have notq: "t \<notin> set (W q)" using parked_unique [OF inv w, of q] ne by auto
  have sub: "(u \<noteq> t \<and> u \<in> set (W r)) \<or> (u = t \<and> r = q)" if "u \<in> set (W' r)" for u r
    using that parked_unique [OF inv w, of r] parked_distinct [OF inv, of p] notq
    by (auto simp: W' split: if_splits)
  show "distinct (W' r)" for r using parked_distinct [OF inv, of r] notq by (auto simp: W')
  show "r = s" if "u \<in> set (W' r)" "u \<in> set (W' s)" for r s u
    using sub [OF that(1)] sub [OF that(2)] parked_unique [OF inv] by blast
  show "thread_ok u sy' \<and> ts_status (thread u sy') = STALLED \<and> ts_reason (thread u sy') \<in> set (reasons r)"
    if "u \<in> set (W' r)" for r u
    using sub [OF that] parked_waiting [OF inv, of u r] parked_waiting [OF inv w] fits oks oth by auto
  show "\<exists>r. u \<in> set (W' r)"
    if "thread_ok u sy'" "ts_status (thread u sy') = STALLED" "ts_reason (thread u sy') \<in> set queue_reasons" for u
  proof (cases "u = t")
    case True
    then show ?thesis by (auto simp: W' intro!: exI [of _ q])
  next
    case False
    with that oks oth parked_found [OF inv, of u] obtain r where "u \<in> set (W r)" by auto
    with False have "u \<in> set (W' r)" by (auto simp: W')
    then show ?thesis ..
  qed
qed

lemma parked_same:
  assumes "parked W sy" "\<And>u. thread_ok u sy' = thread_ok u sy" "\<And>u. thread_ok u sy \<Longrightarrow> thread u sy' = thread u sy"
  shows "parked W sy'"
  using assms(1) by (simp add: parked_def assms(2) assms(3) cong: conj_cong)

subsection \<open>How the operations change the queues\<close>

lemma waiters_set_thread [simp]: "waiters (set_thread t f sy) = waiters sy"
proof (rule ext)
  show "waiters (set_thread t f sy) p = waiters sy p" for p by (cases p) (auto simp: futex_queue_def)
qed

lemma waiters_set_mutex: "waiters (set_mutex a m sy) = (waiters sy)(At_Mutex a := mx_waiting m)"
proof (rule ext)
  show "waiters (set_mutex a m sy) p = ((waiters sy)(At_Mutex a := mx_waiting m)) p" for p
    by (cases p) (auto simp: set_mutex_def futex_queue_def)
qed

lemma waiters_set_cond: "waiters (set_cond a c sy) = (waiters sy)(At_Cond a := map fst c)"
proof (rule ext)
  show "waiters (set_cond a c sy) p = ((waiters sy)(At_Cond a := map fst c)) p" for p
    by (cases p) (auto simp: set_cond_def futex_queue_def)
qed

lemma waiters_set_barrier:
  "i < length (sy_barriers sy) \<Longrightarrow> waiters (set_barrier i b sy) = (waiters sy)(At_Barrier i := br_waiting b)"
proof (rule ext)
  show "waiters (set_barrier i b sy) p = ((waiters sy)(At_Barrier i := br_waiting b)) p"
    if "i < length (sy_barriers sy)" for p
    using that by (cases p) (auto simp: set_barrier_def futex_queue_def nth_list_update)
qed

lemma futex_queue_set_futex: "futex_queue k (set_futex l q sy) = (if k = l then q else futex_queue k sy)"
  by (simp add: futex_queue_def set_futex_def update_conv')

lemma waiters_set_futex: "waiters (set_futex k q sy) = (waiters sy)(At_Futex k := map fw_thread q)"
proof (rule ext)
  show "waiters (set_futex k q sy) p = ((waiters sy)(At_Futex k := map fw_thread q)) p" for p
    by (cases p) (auto simp: futex_queue_set_futex, auto simp: set_futex_def)
qed

lemma waiters_sleeping: "waiters (sy\<lparr>sy_sleeping := q\<rparr>) = (waiters sy)(At_Sleep := map fw_thread q)"
proof (rule ext)
  show "waiters (sy\<lparr>sy_sleeping := q\<rparr>) p = ((waiters sy)(At_Sleep := map fw_thread q)) p" for p
    by (cases p) (auto simp: futex_queue_def)
qed

lemma setters_threads [simp]:
  "thread t (set_mutex a m sy) = thread t sy" "thread_ok t (set_mutex a m sy) = thread_ok t sy"
  "thread t (set_cond b c sy) = thread t sy" "thread_ok t (set_cond b c sy) = thread_ok t sy"
  "thread t (set_barrier i br sy) = thread t sy" "thread_ok t (set_barrier i br sy) = thread_ok t sy"
  "thread t (set_futex k q sy) = thread t sy" "thread_ok t (set_futex k q sy) = thread_ok t sy"
  by (simp_all add: set_mutex_def set_cond_def set_barrier_def set_futex_def)

lemma setters_mutexes [simp]:
  "sy_mutexes (set_mutex a m sy) = (sy_mutexes sy)(a \<mapsto> m)" "sy_mutexes (set_cond b c sy) = sy_mutexes sy"
  "sy_mutexes (set_barrier i br sy) = sy_mutexes sy" "sy_mutexes (set_futex k q sy) = sy_mutexes sy"
  "sy_conds (set_mutex a m sy) = sy_conds sy" "sy_conds (set_cond b c sy) = (sy_conds sy)(b \<mapsto> c)"
  "sy_conds (set_barrier i br sy) = sy_conds sy" "sy_conds (set_futex k q sy) = sy_conds sy"
  by (simp_all add: set_mutex_def set_cond_def set_barrier_def set_futex_def)

lemma mutexes_ok_set_thread [simp]:
  "mutexes_ok (set_thread t f sy) = mutexes_ok sy" "conds_ok (set_thread t f sy) = conds_ok sy"
  by (simp_all add: mutexes_ok_def conds_ok_def)

lemma mutexes_ok_set:
  "mutexes_ok sy \<Longrightarrow> (mx_owner m = NO_OWNER \<Longrightarrow> mx_waiting m = []) \<Longrightarrow> mutexes_ok (set_mutex a m sy)"
  "mutexes_ok (set_cond b c sy) = mutexes_ok sy" "mutexes_ok (set_barrier i br sy) = mutexes_ok sy"
  "mutexes_ok (set_futex k q sy) = mutexes_ok sy"
  by (auto simp: mutexes_ok_def)

lemma conds_ok_set:
  "conds_ok sy \<Longrightarrow> conds_ok (set_mutex a m sy)"
  "conds_ok sy \<Longrightarrow> (\<And>t mux. (t, mux) \<in> set c \<Longrightarrow> sy_mutexes sy mux \<noteq> None) \<Longrightarrow> conds_ok (set_cond b c sy)"
  "conds_ok (set_barrier i br sy) = conds_ok sy" "conds_ok (set_futex k q sy) = conds_ok sy"
  by (auto simp: conds_ok_def)

text \<open>The three moves on systems: the setter and then the stall or the resumption.\<close>

lemma park_step:
  assumes "parked (waiters sy) sy" "running t sy" "r \<in> set (reasons p)"
    "waiters sy1 = (waiters sy)(p := waiters sy p @ [t])" "\<And>u. thread u sy1 = thread u sy"
    "\<And>u. thread_ok u sy1 = thread_ok u sy" "stallThread t r sy1 = Inr sy2"
  shows "parked (waiters sy2) sy2"
proof (rule parked_park [OF assms(1,2)])
  from assms(7) have s2: "thread_ok t sy1" "sy2 = set_thread t (\<lambda>s. s\<lparr>ts_status := STALLED, ts_reason := r, ts_msg := False\<rparr>) sy1"
    by (auto simp: stallThread_Inr_iff)
  then show "same_threads_but t sy sy2" using assms(5,6) by (auto simp: same_threads_but_def)
  show "ts_status (thread t sy2) = STALLED" "ts_reason (thread t sy2) \<in> set (reasons p)"
    using s2 assms(3) by auto
  show "waiters sy2 = (waiters sy)(p := waiters sy p @ [t])" using s2 assms(4) by simp
qed

lemma release_step:
  assumes "parked (waiters sy) sy" "t \<in> set (waiters sy p)"
    "waiters sy1 = (waiters sy)(p := remove1 t (waiters sy p))" "\<And>u. thread u sy1 = thread u sy"
    "\<And>u. thread_ok u sy1 = thread_ok u sy" "resumeThread t w msg sy1 = Inr sy2"
  shows "parked (waiters sy2) sy2"
proof (rule parked_release [OF assms(1,2)])
  from assms(6) have s2: "thread_ok t sy1"
      "sy2 = set_thread t (\<lambda>s. s\<lparr>ts_wakeup := w, ts_msg := msg, ts_status := RUNNING\<rparr>) sy1"
    by (auto simp: resumeThread_Inr_iff)
  then show "same_threads_but t sy sy2" using assms(4,5) by (auto simp: same_threads_but_def)
  show "ts_status (thread t sy2) = RUNNING" using s2 by auto
  show "waiters sy2 = (waiters sy)(p := remove1 t (waiters sy p))" using s2 assms(3) by simp
qed

end
