(* ===== verification/Sync_Steps.thy ===== *)
theory Sync_Steps
  imports Sync_Inv
begin

text \<open>
  Each operation of the sync server and the futexes keeps the invariant of \<open>Sync_Inv\<close>, so every state that threads
  and the clock barrier can reach has it.
\<close>

lemma running_set_thread: "running t sy \<Longrightarrow> thread_ok u sy \<Longrightarrow> t \<noteq> u \<or> ts_status (f (thread u sy)) = RUNNING
    \<Longrightarrow> running t (set_thread u f sy)"
  by (auto simp: running_def)

lemma running_resumed: "resumeThread u w msg sy = Inr sy' \<Longrightarrow> running t sy \<or> t = u \<Longrightarrow> running t sy'"
  by (auto simp: resumeThread_Inr_iff running_def)

lemma resumed_same:
  assumes "resumeThread u w msg sy = Inr sy'"
  shows "sy_mutexes sy' = sy_mutexes sy" "sy_conds sy' = sy_conds sy" "sy_barriers sy' = sy_barriers sy"
    "sy_futexes sy' = sy_futexes sy" "sy_sleeping sy' = sy_sleeping sy" "waiters sy' = waiters sy"
    "mutexes_ok sy' = mutexes_ok sy" "conds_ok sy' = conds_ok sy" "thread_ok x sy' = thread_ok x sy"
  using assms by (auto simp: resumeThread_Inr_iff)

lemma stalled_same:
  assumes "stallThread u r sy = Inr sy'"
  shows "sy_mutexes sy' = sy_mutexes sy" "sy_conds sy' = sy_conds sy" "sy_barriers sy' = sy_barriers sy"
    "sy_futexes sy' = sy_futexes sy" "sy_sleeping sy' = sy_sleeping sy" "waiters sy' = waiters sy"
    "mutexes_ok sy' = mutexes_ok sy" "conds_ok sy' = conds_ok sy" "thread_ok x sy' = thread_ok x sy"
  using assms by (auto simp: stallThread_Inr_iff)

lemma conds_okD: "conds_ok sy \<Longrightarrow> sy_conds sy a = Some c \<Longrightarrow> (t, mux) \<in> set c \<Longrightarrow> \<exists>m. sy_mutexes sy mux = Some m"
  by (auto simp: conds_ok_def)

subsection \<open>Mutexes\<close>

lemma getMutex_inv:
  assumes "sync_inv sy" "getMutex mux create sy = Inr (m, sy1)"
  shows "sync_inv sy1" "sy_mutexes sy1 mux = Some m" "sy_conds sy1 = sy_conds sy" "running t sy1 = running t sy"
proof -
  have "(sy1 = sy \<and> sy_mutexes sy mux = Some m) \<or> (sy_mutexes sy mux = None \<and> m = SimMutex \<and> sy1 = set_mutex mux m sy)"
    using assms(2) by (auto simp: getMutex_def split: option.splits if_splits)
  then have "sync_inv sy1 \<and> (sy_mutexes sy1 mux = Some m) \<and> (sy_conds sy1 = sy_conds sy) \<and> (running t sy1 = running t sy)"
  proof (elim disjE conjE)
    assume n: "sy_mutexes sy mux = None" and m: "m = SimMutex" and s: "sy1 = set_mutex mux m sy"
    have "waiters sy1 = waiters sy" by (auto simp: s waiters_set_mutex m SimMutex_def n)
    moreover have "parked (waiters sy) sy1"
      by (rule parked_same [of _ sy]) (use assms(1) s in \<open>simp_all add: sync_inv_def\<close>)
    ultimately have "sync_inv sy1" using assms(1)
      by (auto simp: sync_inv_def s m SimMutex_def intro!: mutexes_ok_set conds_ok_set)
    then show ?thesis by (simp add: s running_def)
  qed (use assms in simp_all)
  then show "sync_inv sy1" "sy_mutexes sy1 mux = Some m" "sy_conds sy1 = sy_conds sy" "running t sy1 = running t sy"
    by blast+
qed

lemma mx_lock_inv:
  assumes inv: "sync_inv sy" and run: "running t sy" and m: "sy_mutexes sy mux = Some m"
    and res: "mx_lock t time mux m sy = Inr (r, sy')"
  shows "sync_inv sy'"
proof (cases "mx_owner m = NO_OWNER")
  case True
  with inv m have e: "mx_waiting m = []" by (auto simp: sync_inv_def mutexes_ok_def)
  have s: "sy' = set_mutex mux (m\<lparr>mx_owner := t\<rparr>) sy" using res True by (simp add: mx_lock_def)
  have "waiters sy' = waiters sy" by (auto simp: s waiters_set_mutex m)
  moreover have "parked (waiters sy) sy'"
    by (rule parked_same [of _ sy]) (use inv s in \<open>simp_all add: sync_inv_def\<close>)
  ultimately show ?thesis using inv e by (auto simp: sync_inv_def s intro!: mutexes_ok_set conds_ok_set)
next
  case False
  let ?sy1 = "set_mutex mux (m\<lparr>mx_waiting := mx_waiting m @ [t]\<rparr>) sy"
  have st: "stallThread t STALL_MUTEX ?sy1 = Inr sy'" using res False by (auto simp: mx_lock_def bindE_Inr_iff)
  have "parked (waiters sy') sy'"
    by (rule park_step [OF _ run _ _ _ _ st, where p = "At_Mutex mux"])
      (use inv m in \<open>simp_all add: sync_inv_def waiters_set_mutex\<close>)
  moreover have "mutexes_ok ?sy1" "conds_ok ?sy1" using inv False
    by (auto simp: sync_inv_def intro!: mutexes_ok_set conds_ok_set)
  ultimately show ?thesis using stalled_same [OF st] by (simp add: sync_inv_def)
qed

lemma mx_unlock_inv:
  assumes inv: "sync_inv sy" and m: "sy_mutexes sy mux = Some m"
    and res: "mx_unlock t time mux m sy = Inr (u, sy')"
  shows "sync_inv sy'" "sy_mutexes sy' mux \<noteq> None" "sy_conds sy' = sy_conds sy" "running v sy \<Longrightarrow> running v sy'"
proof -
  have "sync_inv sy' \<and> sy_mutexes sy' mux \<noteq> None \<and> sy_conds sy' = sy_conds sy \<and> (running v sy \<longrightarrow> running v sy')"
  proof (cases "mx_waiting m")
    case Nil
    have s: "sy' = set_mutex mux (m\<lparr>mx_owner := NO_OWNER\<rparr>) sy" using res Nil by (simp add: mx_unlock_def)
    have "waiters sy' = waiters sy" by (auto simp: s waiters_set_mutex m Nil)
    moreover have "parked (waiters sy) sy'"
      by (rule parked_same [of _ sy]) (use inv s in \<open>simp_all add: sync_inv_def\<close>)
    ultimately show ?thesis using inv Nil
      by (auto simp: sync_inv_def s running_def intro!: mutexes_ok_set conds_ok_set)
  next
    case (Cons w ws)
    let ?sy1 = "set_mutex mux (m\<lparr>mx_waiting := ws, mx_owner := w\<rparr>) sy"
    have st: "resumeThread w time False ?sy1 = Inr sy'" using res Cons by (auto simp: mx_unlock_def bindE_Inr_iff)
    have "parked (waiters sy') sy'"
      by (rule release_step [OF _ _ _ _ _ st, where p = "At_Mutex mux" and sy = sy])
        (use inv m Cons in \<open>simp_all add: sync_inv_def waiters_set_mutex\<close>)
    moreover have "w \<noteq> NO_OWNER"
      using inv m Cons parked_waiting [of "waiters sy" sy w "At_Mutex mux"]
      by (auto simp: sync_inv_def thread_ok_def NO_OWNER_def)
    then have "mutexes_ok ?sy1" "conds_ok ?sy1" using inv by (auto simp: sync_inv_def intro!: mutexes_ok_set conds_ok_set)
    moreover have "running v ?sy1 = running v sy" by (simp add: running_def)
    ultimately show ?thesis using resumed_same [OF st] running_resumed [OF st, of v] by (simp add: sync_inv_def)
  qed
  then show "sync_inv sy'" "sy_mutexes sy' mux \<noteq> None" "sy_conds sy' = sy_conds sy" "running v sy \<Longrightarrow> running v sy'"
    by blast+
qed

lemma mutexLock_inv:
  assumes "sync_inv sy" "running t sy" "mutexLock t mux tryLock time sy = Inr (r, sy')"
  shows "sync_inv sy'"
proof -
  from assms(3) obtain m sy1 where g: "getMutex mux True sy = Inr (m, sy1)"
    and l: "sy' = sy1 \<or> (\<exists>r. mx_lock t time mux m sy1 = Inr (r, sy'))"
    by (auto simp: mutexLock_def bindE_Inr_iff split: if_splits)
  note g' = getMutex_inv [OF assms(1) g]
  from l show ?thesis using g' mx_lock_inv [OF g'(1) _ g'(2)] assms(2) by auto
qed

lemma mutexUnlock_inv:
  assumes "sync_inv sy" "mutexUnlock t mux time sy = Inr (r, sy')"
  shows "sync_inv sy'"
proof -
  from assms(2) obtain m sy1 u where g: "getMutex mux False sy = Inr (m, sy1)"
    and l: "mx_unlock t (time + sy_cost sy1) mux m sy1 = Inr (u, sy')"
    by (auto simp: mutexUnlock_def bindE_Inr_iff)
  note g' = getMutex_inv [OF assms(1) g]
  show ?thesis by (rule mx_unlock_inv(1) [OF g'(1,2) l])
qed

subsection \<open>Condition variables\<close>

lemma getCond_inv:
  assumes "sync_inv sy" "getCond cond sy = (c, sy1)"
  shows "sync_inv sy1" "sy_conds sy1 cond = Some c" "sy_mutexes sy1 = sy_mutexes sy" "running t sy1 = running t sy"
proof -
  have "(sy1 = sy \<and> sy_conds sy cond = Some c) \<or> (sy_conds sy cond = None \<and> c = [] \<and> sy1 = set_cond cond c sy)"
    using assms(2) by (auto simp: getCond_def split: option.splits)
  then have "sync_inv sy1 \<and> (sy_conds sy1 cond = Some c) \<and> (sy_mutexes sy1 = sy_mutexes sy) \<and> (running t sy1 = running t sy)"
  proof (elim disjE conjE)
    assume n: "sy_conds sy cond = None" and c: "c = []" and s: "sy1 = set_cond cond c sy"
    have "waiters sy1 = waiters sy" by (auto simp: s waiters_set_cond c n)
    moreover have "parked (waiters sy) sy1"
      by (rule parked_same [of _ sy]) (use assms(1) s in \<open>simp_all add: sync_inv_def\<close>)
    ultimately have "sync_inv sy1" using assms(1)
      by (auto simp: sync_inv_def s c mutexes_ok_set intro!: conds_ok_set)
    then show ?thesis by (simp add: s running_def)
  qed (use assms in simp_all)
  then show "sync_inv sy1" "sy_conds sy1 cond = Some c" "sy_mutexes sy1 = sy_mutexes sy" "running t sy1 = running t sy"
    by blast+
qed

lemma condWait_inv:
  assumes "sync_inv sy" "running t sy" "condWait t cond mux time sy = Inr (r, sy')"
  shows "sync_inv sy'"
proof -
  from assms(3) obtain m sy1 where g: "getMutex mux True sy = Inr (m, sy1)"
    and r: "(case getCond cond sy1 of (c, sy2) \<Rightarrow> cv_wait t time cond mux m c sy2) = Inr (r, sy')"
    by (auto simp: condWait_def bindE_Inr_iff)
  obtain c sy2 where c: "getCond cond sy1 = (c, sy2)" by fastforce
  from r c obtain u sy3 where l: "mx_unlock t time mux m sy2 = Inr (u, sy3)"
    and st: "stallThread t STALL_COND (set_cond cond (c @ [(t, mux)]) sy3) = Inr sy'"
    by (auto simp: cv_wait_def bindE_Inr_iff)
  note g' = getMutex_inv [OF assms(1) g]
  note c' = getCond_inv [OF g'(1) c]
  have m2: "sy_mutexes sy2 mux = Some m" using g'(2) c'(3) by simp
  note l' = mx_unlock_inv [OF c'(1) m2 l]
  have run: "running t sy3" using assms(2) g'(4) c'(4) l'(4) by blast
  have c3: "sy_conds sy3 cond = Some c" using l'(3) c'(2) by simp
  have "parked (waiters sy') sy'"
    by (rule park_step [OF _ run _ _ _ _ st, where p = "At_Cond cond"])
      (use l'(1) c3 in \<open>simp_all add: sync_inv_def waiters_set_cond\<close>)
  moreover have "mutexes_ok sy3" "conds_ok (set_cond cond (c @ [(t, mux)]) sy3)" using l'(1,2) c3
    by (auto simp: sync_inv_def conds_ok_def)
  ultimately show ?thesis using stalled_same [OF st] by (simp add: sync_inv_def mutexes_ok_set)
qed

text \<open>The first waiter of a condition variable takes its mutex or queues for it.\<close>

lemma hand_over_inv:
  assumes inv: "sync_inv sy" and c: "sy_conds sy cond = Some ((t, mux) # c)" and m: "sy_mutexes sy mux = Some m"
    and res: "mx_lock_async t time mux m (set_cond cond c sy) = Inr (l, sy')"
  shows "sync_inv sy'" "sy_conds sy' cond = Some c"
proof -
  have t: "t \<in> set (waiters sy (At_Cond cond))" using c by simp
  have P: "parked (waiters sy) sy" using inv by (simp add: sync_inv_def)
  have co: "conds_ok (set_cond cond c sy)"
    using inv by (intro conds_ok_set(2)) (auto simp: sync_inv_def dest: conds_okD [OF _ c])
  have "sync_inv sy' \<and> sy_conds sy' cond = Some c"
  proof (cases "mx_owner m = NO_OWNER")
    case True
    with inv m have e: "mx_waiting m = []" by (auto simp: sync_inv_def mutexes_ok_def)
    let ?sy1 = "set_mutex mux (m\<lparr>mx_owner := t\<rparr>) (set_cond cond c sy)"
    have st: "resumeThread t time False ?sy1 = Inr sy'" using res True by (auto simp: mx_lock_async_def bindE_Inr_iff)
    have "parked (waiters sy') sy'"
      by (rule release_step [OF P t _ _ _ st]) (auto simp: waiters_set_mutex waiters_set_cond c m e)
    moreover have "mutexes_ok ?sy1" "conds_ok ?sy1" using inv e co
      by (auto simp: sync_inv_def mutexes_ok_set intro!: mutexes_ok_set(1) conds_ok_set)
    ultimately show ?thesis using resumed_same [OF st] by (simp add: sync_inv_def)
  next
    case False
    let ?sy1 = "set_mutex mux (m\<lparr>mx_waiting := mx_waiting m @ [t]\<rparr>) (set_cond cond c sy)"
    have s: "sy' = ?sy1" using res False by (simp add: mx_lock_async_def)
    have "parked (waiters ?sy1) ?sy1"
      by (rule parked_move [OF P t, of "At_Mutex mux"])
        (use parked_waiting [OF P t] in \<open>auto simp: waiters_set_mutex waiters_set_cond c m\<close>)
    moreover have "mutexes_ok ?sy1" "conds_ok ?sy1" using inv False co
      by (auto simp: sync_inv_def mutexes_ok_set intro!: mutexes_ok_set(1) conds_ok_set)
    ultimately show ?thesis by (simp add: s sync_inv_def)
  qed
  then show "sync_inv sy'" "sy_conds sy' cond = Some c" by blast+
qed

lemma deref_mutex_Inr: "deref_mutex mux sy = Inr m \<longleftrightarrow> sy_mutexes sy mux = Some m"
  by (auto simp: deref_mutex_def split: option.splits)

lemma condSignal_inv:
  assumes "sync_inv sy" "condSignal cond time sy = Inr (r, sy')"
  shows "sync_inv sy'"
proof -
  obtain c sy1 where c: "getCond cond sy = (c, sy1)" by fastforce
  note c' = getCond_inv [OF assms(1) c]
  from assms(2) c obtain u where s: "cv_signal time cond c sy1 = Inr (u, sy')"
    by (auto simp: condSignal_def bindE_Inr_iff)
  show ?thesis
  proof (cases c)
    case Nil
    with s c'(1) show ?thesis by (simp add: cv_signal_def)
  next
    case (Cons w cs)
    obtain t mux where w: "w = (t, mux)" by fastforce
    from s Cons w obtain m l where m: "sy_mutexes sy1 mux = Some m"
      and l: "mx_lock_async t time mux m (set_cond cond cs sy1) = Inr (l, sy')"
      by (auto simp: cv_signal_def bindE_Inr_iff deref_mutex_Inr Let_def)
    show ?thesis by (rule hand_over_inv(1) [OF c'(1) _ m l]) (use c'(2) Cons w in simp)
  qed
qed

lemma cv_broadcast_inv:
  assumes "sync_inv sy" "sy_conds sy cond = Some c" "cv_broadcast time cond c sy = Inr sy'"
  shows "sync_inv sy'"
  using assms
proof (induction c arbitrary: sy)
  case (Cons w c)
  obtain t mux where w: "w = (t, mux)" by fastforce
  from Cons.prems(3) w obtain m l sy1 where m: "sy_mutexes sy mux = Some m"
    and l: "mx_lock_async t time mux m (set_cond cond c sy) = Inr (l, sy1)" and b: "cv_broadcast time cond c sy1 = Inr sy'"
    by (auto simp: bindE_Inr_iff deref_mutex_Inr Let_def)
  note h = hand_over_inv [OF Cons.prems(1) Cons.prems(2) [unfolded w] m l]
  show ?case by (rule Cons.IH [OF h b])
qed simp

lemma condBroadcast_inv:
  assumes "sync_inv sy" "condBroadcast cond time sy = Inr (r, sy')"
  shows "sync_inv sy'"
proof -
  obtain c sy1 where c: "getCond cond sy = (c, sy1)" by fastforce
  note c' = getCond_inv [OF assms(1) c]
  from assms(2) c have "cv_broadcast time cond c sy1 = Inr sy'" by (auto simp: condBroadcast_def bindE_Inr_iff)
  with c' show ?thesis by (auto intro: cv_broadcast_inv)
qed

end
