(* ===== verification/Sync_Reach.thy ===== *)
theory Sync_Reach
  imports Sync_Steps
begin

text \<open>
  Barriers, futexes and sleepers keep the invariant too; the steps of the system and what they can reach.
\<close>

subsection \<open>Barriers\<close>

lemma resume_all_same:
  "resume_all ws time sy = Inr sy' \<Longrightarrow> waiters sy' = waiters sy \<and> mutexes_ok sy' = mutexes_ok sy \<and>
     conds_ok sy' = conds_ok sy \<and> (running t sy \<longrightarrow> running t sy')"
proof (induction ws arbitrary: sy)
  case (Cons w ws)
  then obtain sy1 where r: "resumeThread w time False sy = Inr sy1" and a: "resume_all ws time sy1 = Inr sy'"
    by (auto simp: bindE_Inr_iff)
  from Cons.IH [OF a] resumed_same [OF r] running_resumed [OF r, of t] show ?case by auto
qed simp

lemma resume_all_parked:
  "parked (W(p := ws)) sy \<Longrightarrow> resume_all ws time sy = Inr sy' \<Longrightarrow> parked (W(p := [])) sy'"
proof (induction ws arbitrary: sy)
  case (Cons w ws)
  then obtain sy1 where r: "resumeThread w time False sy = Inr sy1" and a: "resume_all ws time sy1 = Inr sy'"
    by (auto simp: bindE_Inr_iff)
  from r have ok: "thread_ok w sy"
    and s: "sy1 = set_thread w (\<lambda>s. s\<lparr>ts_wakeup := time, ts_msg := False, ts_status := RUNNING\<rparr>) sy"
    by (auto simp: resumeThread_Inr_iff)
  have "parked (W(p := ws)) sy1"
    by (rule parked_release [OF Cons.prems(1), of w p])
      (use ok s in \<open>auto simp: same_threads_but_set fun_eq_iff\<close>)
  then show ?case using a by (rule Cons.IH)
qed simp

lemma barrierWait_inv:
  assumes inv: "sync_inv sy" and run: "running t sy" and res: "barrierWait t i time sy = Inr (r, sy')"
  shows "sync_inv sy'"
proof -
  let ?b = "sy_barriers sy ! i"
  from res have i: "i < length (sy_barriers sy)" and br: "br_wait t time i ?b sy = Inr (r, sy')"
    by (auto simp: barrierWait_def split: if_splits)
  have P: "parked (waiters sy) sy" using inv by (simp add: sync_inv_def)
  show ?thesis
  proof (cases "length (br_waiting ?b) = unat (br_count ?b - 1)")
    case True
    let ?sy1 = "set_barrier i (?b\<lparr>br_waiting := []\<rparr>) sy"
    have a: "resume_all (br_waiting ?b) time ?sy1 = Inr sy'" using br True by (auto simp: br_wait_def bindE_Inr_iff)
    have W: "waiters sy = (waiters sy)(At_Barrier i := br_waiting ?b)" using i by auto
    have "parked ((waiters sy)(At_Barrier i := br_waiting ?b)) ?sy1"
      by (rule parked_same [of _ sy]) (use P W in simp_all)
    from resume_all_parked [OF this a] have "parked (waiters ?sy1) sy'" using i by (simp add: waiters_set_barrier)
    then show ?thesis using resume_all_same [OF a] inv by (simp add: sync_inv_def mutexes_ok_set conds_ok_set)
  next
    case False
    let ?sy1 = "set_barrier i (?b\<lparr>br_waiting := br_waiting ?b @ [t]\<rparr>) sy"
    have st: "stallThread t STALL_BARRIER ?sy1 = Inr sy'" using br False by (auto simp: br_wait_def bindE_Inr_iff)
    have "parked (waiters sy') sy'"
      by (rule park_step [OF P run _ _ _ _ st, where p = "At_Barrier i"]) (use i in \<open>simp_all add: waiters_set_barrier\<close>)
    then show ?thesis using stalled_same [OF st] inv by (simp add: sync_inv_def mutexes_ok_set conds_ok_set)
  qed
qed

lemma barrierInit_inv:
  assumes "sync_inv sy" "barrierInit n sy = (i, sy')"
  shows "sync_inv sy'"
proof -
  have s: "sy' = sy\<lparr>sy_barriers := sy_barriers sy @ [\<lparr>br_waiting = [], br_count = n\<rparr>]\<rparr>"
    using assms(2) by (simp add: barrierInit_def)
  have "waiters sy' p = waiters sy p" for p by (cases p) (auto simp: s futex_queue_def nth_append less_Suc_eq)
  then have W: "waiters sy' = waiters sy" by (rule ext)
  have "parked (waiters sy) sy'" by (rule parked_same [of _ sy]) (use assms(1) s in \<open>simp_all add: sync_inv_def\<close>)
  with W show ?thesis using assms(1) by (auto simp: sync_inv_def s mutexes_ok_def conds_ok_def)
qed

subsection \<open>Futexes\<close>

lemma take_waiter_SomeD:
  "take_waiter P q = Some (w, vs) \<Longrightarrow> \<exists>pre post. q = pre @ w # post \<and> vs = pre @ post \<and> P w \<and> (\<forall>v\<in>set pre. \<not> P v)"
proof (induction q arbitrary: vs)
  case (Cons x q)
  show ?case
  proof (cases "P x")
    case True
    with Cons.prems show ?thesis by (intro exI [of _ "[]"] exI [of _ q]) auto
  next
    case False
    with Cons.prems obtain us where "take_waiter P q = Some (w, us)" "vs = x # us" by (auto split: prod.splits)
    with Cons.IH obtain pre post where "q = pre @ w # post" "us = pre @ post" "P w" "\<forall>v\<in>set pre. \<not> P v" by blast
    with False \<open>vs = x # us\<close> show ?thesis by (intro exI [of _ "x # pre"] exI [of _ post]) simp
  qed
qed simp

lemma take_waiter_None: "take_waiter P q = None \<longleftrightarrow> (\<forall>v\<in>set q. \<not> P v)"
  by (induction q) auto

lemma take_waiter_remove1:
  assumes "take_waiter P q = Some (w, vs)" "distinct (map fw_thread q)"
  shows "map fw_thread vs = remove1 (fw_thread w) (map fw_thread q)" "w \<in> set q"
proof -
  from take_waiter_SomeD [OF assms(1)] obtain pre post where "q = pre @ w # post" "vs = pre @ post" by blast
  with assms(2) show "map fw_thread vs = remove1 (fw_thread w) (map fw_thread q)" "w \<in> set q"
    by (auto simp: remove1_append)
qed

lemma futex_inv_intro:
  "sync_inv sy \<Longrightarrow> parked (waiters sy') sy' \<Longrightarrow> sy_mutexes sy' = sy_mutexes sy \<Longrightarrow> sy_conds sy' = sy_conds sy
     \<Longrightarrow> sync_inv sy'"
  by (simp add: sync_inv_def mutexes_ok_def conds_ok_def)

lemma enqueueWaiter_inv:
  assumes inv: "sync_inv sy" and run: "running t sy" and res: "enqueueWaiter k t msk timeout sy = Inr sy'"
  shows "sync_inv sy'"
proof -
  have P: "parked (waiters sy) sy" using inv by (simp add: sync_inv_def)
  note st = res [unfolded enqueueWaiter_def]
  have "parked (waiters sy') sy'"
    by (rule park_step [OF P run _ _ _ _ st, where p = "At_Futex k"]) (simp_all add: waiters_set_futex)
  then show ?thesis by (rule futex_inv_intro [OF inv]) (use stalled_same [OF st] in simp_all)
qed

lemma release_futex_inv:
  assumes inv: "sync_inv sy" and tw: "take_waiter P (futex_queue k sy) = Some (w, ws)"
    and res: "resumeThread (fw_thread w) time msg (set_futex k ws sy) = Inr sy'"
  shows "sync_inv sy'"
proof -
  have P: "parked (waiters sy) sy" using inv by (simp add: sync_inv_def)
  have "distinct (map fw_thread (futex_queue k sy))" using parked_distinct [OF P, of "At_Futex k"] by simp
  note rm = take_waiter_remove1 [OF tw this]
  have "parked (waiters sy') sy'"
    by (rule release_step [OF P _ _ _ _ res, where p = "At_Futex k"]) (use rm in \<open>auto simp: waiters_set_futex\<close>)
  then show ?thesis by (rule futex_inv_intro [OF inv]) (use resumed_same [OF res] in simp_all)
qed

lemma dequeueWaiter_inv:
  "sync_inv sy \<Longrightarrow> dequeueWaiter k msk time sy = Inr (w, sy') \<Longrightarrow> sync_inv sy'"
  by (auto simp: dequeueWaiter_def bindE_Inr_iff split: option.splits intro: release_futex_inv)

lemma wakeTimedOut_inv: "sync_inv sy \<Longrightarrow> wakeTimedOut time k sy = Inr sy' \<Longrightarrow> sync_inv sy'"
  by (auto simp: wakeTimedOut_def split: option.splits intro: release_futex_inv)

lemma findFutexByUaddr_inv:
  assumes inv: "sync_inv sy" and res: "findFutexByUaddr env uaddr t sy = Inr (k, sy')"
  shows "sync_inv sy'" "running u sy' = running u sy" "futex_queue j sy' = futex_queue j sy"
proof -
  have s: "sy' = set_futex k (futex_queue k sy) sy" using res by (auto simp: findFutexByUaddr_def with_thread_def Let_def)
  have W: "waiters sy' = waiters sy" by (auto simp: s waiters_set_futex)
  have "parked (waiters sy) sy'" by (rule parked_same [of _ sy]) (use inv s in \<open>simp_all add: sync_inv_def\<close>)
  with W show "sync_inv sy'" by (intro futex_inv_intro [OF inv]) (simp_all add: s)
  show "running u sy' = running u sy" "futex_queue j sy' = futex_queue j sy"
    by (simp_all add: s running_def futex_queue_set_futex)
qed

lemma wake_loop_inv:
  assumes wake: "\<And>sy u sy'. sync_inv sy \<Longrightarrow> wake sy = Inr (u, sy') \<Longrightarrow> sync_inv sy'"
  shows "sync_inv sy \<Longrightarrow> wake_loop n wake m sy = Inr (c, sy') \<Longrightarrow> sync_inv sy'"
proof (induction n arbitrary: m sy)
  case (Suc n)
  from Suc.prems(2) obtain u sy1 where w: "wake sy = Inr (u, sy1)"
    and l: "sy' = sy1 \<or> wake_loop n wake (Suc m) sy1 = Inr (c, sy')"
    by (auto simp: bindE_Inr_iff split: if_splits)
  from wake [OF Suc.prems(1) w] l show ?case by (auto intro: Suc.IH)
qed simp

lemma wakeFutexOne_inv: "sync_inv sy \<Longrightarrow> wakeFutexOne k t msk time sy = Inr (w, sy') \<Longrightarrow> sync_inv sy'"
  by (auto simp: wakeFutexOne_def bindE_Inr_iff intro: dequeueWaiter_inv)

lemma futexWait_inv:
  assumes "sync_inv sy" "running t sy" "futexWait env t uaddr val act msk time timeout sy = Inr (r, sy')"
  shows "sync_inv sy'"
proof -
  from assms(3) obtain k sy1 where f: "findFutexByUaddr env uaddr t sy = Inr (k, sy1)"
    and e: "sy' = sy1 \<or> enqueueWaiter k t msk timeout sy1 = Inr sy'"
    by (auto simp: futexWait_def bindE_Inr_iff split: if_splits)
  note f' = findFutexByUaddr_inv [OF assms(1) f]
  from e f' assms(2) show ?thesis by (auto intro: enqueueWaiter_inv)
qed

lemma futexWake_inv:
  assumes "sync_inv sy" "futexWake env t uaddr n msk time sy = Inr (r, sy')"
  shows "sync_inv sy'"
proof -
  from assms(2) obtain k sy1 c where f: "findFutexByUaddr env uaddr t sy = Inr (k, sy1)"
    and w: "wake_loop (upto_count n) (wakeFutexOne k t msk time) 0 sy1 = Inr (c, sy')"
    by (auto simp: futexWake_def bindE_Inr_iff)
  show ?thesis by (rule wake_loop_inv [OF wakeFutexOne_inv findFutexByUaddr_inv(1) [OF assms(1) f] w])
qed

lemma futexDoOp_inv:
  assumes "sync_inv sy" "futexDoOp e uaddr sy = Inr (r, sy')"
  shows "sync_inv sy'"
proof -
  from assms(2) obtain mem where s: "sy' = sy\<lparr>sy_mem := mem\<rparr>" by (auto simp: futexDoOp_def Let_def bindE_Inr_iff)
  have "waiters sy' p = waiters sy p" for p by (cases p) (auto simp: s futex_queue_def)
  then have W: "waiters sy' = waiters sy" by (rule ext)
  have "parked (waiters sy) sy'" by (rule parked_same [of _ sy]) (use assms(1) s in \<open>simp_all add: sync_inv_def\<close>)
  with W show ?thesis by (intro futex_inv_intro [OF assms(1)]) (simp_all add: s)
qed

lemma futexWakeOp_inv:
  assumes "sync_inv sy" "futexWakeOp env t uaddr uaddr2 n n2 e time sy = Inr (r, sy')"
  shows "sync_inv sy'"
proof -
  from assms(2) obtain k sy1 k2 sy2 b sy3 where f: "findFutexByUaddr env uaddr t sy = Inr (k, sy1)"
    and f2: "findFutexByUaddr env uaddr2 t sy1 = Inr (k2, sy2)" and o: "futexDoOp e uaddr2 sy2 = Inr (b, sy3)"
    and r3: "wake_both t k k2 n n2 b time sy3 = Inr (r, sy')"
    unfolding futexWakeOp_def by (auto elim!: bindE_InrE)
  from r3 obtain m sy4 c where w: "wake_loop (upto_count n) (wakeFutexOne k t FUTEX_BITSET_MATCH_ANY time) 0 sy3 = Inr (m, sy4)"
    and w2: "(if b then wake_loop (upto_count n2) (wakeFutexOne k2 t FUTEX_BITSET_MATCH_ANY time) m sy4
              else Inr (m, sy4)) = Inr (c, sy')"
    unfolding wake_both_def by (auto elim!: bindE_InrE)
  note i2 = findFutexByUaddr_inv(1) [OF findFutexByUaddr_inv(1) [OF assms(1) f] f2]
  note i4 = wake_loop_inv [OF wakeFutexOne_inv futexDoOp_inv [OF i2 o] w]
  show ?thesis
  proof (cases b)
    case True
    with w2 show ?thesis by (auto intro: wake_loop_inv [OF wakeFutexOne_inv i4])
  next
    case False
    with w2 i4 show ?thesis by simp
  qed
qed

subsection \<open>Requeueing\<close>

lemma requeue_loop_empty: "futex_queue k sy = [] \<Longrightarrow> requeue_loop k k2 sy = Some sy"
  by (subst requeue_loop.simps) (simp add: requeueWaiter_def)

lemma requeue_loop_Cons:
  assumes "futex_queue k sy = w # ws" "fw_thread w \<noteq> INVALID_THREAD_ID" "k \<noteq> k2"
  shows "requeue_loop k k2 sy = requeue_loop k k2 (set_futex k2 (futex_queue k2 sy @ [w]) (set_futex k ws sy))"
  using assms by (subst requeue_loop.simps) (simp add: requeueWaiter_def Let_def futex_queue_set_futex)

lemma requeue_one_inv:
  assumes inv: "sync_inv sy" and q: "futex_queue k sy = w # ws" and ne: "k \<noteq> k2"
  shows "sync_inv (set_futex k2 (futex_queue k2 sy @ [w]) (set_futex k ws sy))" (is "sync_inv ?sy'")
proof -
  have P: "parked (waiters sy) sy" using inv by (simp add: sync_inv_def)
  have w: "fw_thread w \<in> set (waiters sy (At_Futex k))" by (simp add: q)
  have "parked (waiters ?sy') ?sy'"
    by (rule parked_move [OF P w, of "At_Futex k2"])
      (use parked_waiting [OF P w] ne in \<open>auto simp: waiters_set_futex q\<close>)
  then show ?thesis by (rule futex_inv_intro [OF inv]) simp_all
qed

lemma sync_inv_valid: "sync_inv sy \<Longrightarrow> t \<in> set (waiters sy p) \<Longrightarrow> t \<noteq> INVALID_THREAD_ID"
  using parked_waiting [of "waiters sy" sy t p] by (auto simp: sync_inv_def thread_ok_def INVALID_THREAD_ID_def)

text \<open>The loop empties its futex into the other one, in order, and touches nothing else.\<close>

lemma requeue_loop_moves:
  assumes "sync_inv sy" "k \<noteq> k2"
  shows "\<exists>sy'. requeue_loop k k2 sy = Some sy' \<and> sync_inv sy' \<and> futex_queue k sy' = [] \<and>
    futex_queue k2 sy' = futex_queue k2 sy @ futex_queue k sy \<and>
    (\<forall>j. j \<noteq> k \<longrightarrow> j \<noteq> k2 \<longrightarrow> futex_queue j sy' = futex_queue j sy) \<and> sy_threads sy' = sy_threads sy"
  using assms(1)
proof (induction "futex_queue k sy" arbitrary: sy)
  case Nil
  then show ?case using requeue_loop_empty by simp
next
  case (Cons w ws)
  let ?sy1 = "set_futex k2 (futex_queue k2 sy @ [w]) (set_futex k ws sy)"
  have ok: "fw_thread w \<noteq> INVALID_THREAD_ID"
    using sync_inv_valid [OF Cons.prems, of "fw_thread w" "At_Futex k"] Cons.hyps(2) [symmetric] by simp
  have i1: "sync_inv ?sy1" using requeue_one_inv [OF Cons.prems Cons.hyps(2) [symmetric] assms(2)] .
  have q1: "ws = futex_queue k ?sy1" "futex_queue k2 ?sy1 = futex_queue k2 sy @ [w]"
    "\<And>j. j \<noteq> k \<Longrightarrow> j \<noteq> k2 \<Longrightarrow> futex_queue j ?sy1 = futex_queue j sy"
    using assms(2) by (simp_all add: futex_queue_set_futex)
  have t1: "sy_threads ?sy1 = sy_threads sy" by (simp add: set_futex_def)
  from Cons.hyps(1) [OF q1(1) i1] obtain sy' where "requeue_loop k k2 ?sy1 = Some sy'" "sync_inv sy'"
    "futex_queue k sy' = []" "futex_queue k2 sy' = futex_queue k2 ?sy1 @ futex_queue k ?sy1"
    "\<forall>j. j \<noteq> k \<longrightarrow> j \<noteq> k2 \<longrightarrow> futex_queue j sy' = futex_queue j ?sy1" "sy_threads sy' = sy_threads ?sy1"
    by blast
  then show ?case
    using requeue_loop_Cons [OF Cons.hyps(2) [symmetric] ok assms(2)] q1 t1 Cons.hyps(2) [symmetric]
    by (intro exI [of _ sy']) simp
qed

lemma requeue_loop_raw:
  assumes "requeue_loop k k2 sy = Some sy'" "k = k2" "\<forall>w\<in>set (futex_queue k sy). fw_thread w \<noteq> INVALID_THREAD_ID"
  shows "futex_queue k sy = []"
proof -
  let ?P = "\<lambda>k k2 sy sy'. k = k2 \<longrightarrow> (\<forall>w\<in>set (futex_queue k sy). fw_thread w \<noteq> INVALID_THREAD_ID) \<longrightarrow> futex_queue k sy = []"
  have "?P k k2 sy sy'"
  proof (rule requeue_loop.raw_induct [OF _ assms(1), of ?P])
    fix f k k2 sy sy'
    assume IH: "\<And>k k2 sy sy'. f k k2 sy = Some sy' \<Longrightarrow> ?P k k2 sy sy'"
      and body: "(case requeueWaiter k k2 sy of
        (waiter, sy) \<Rightarrow> if waiter = INVALID_THREAD_ID then Some sy else f k k2 sy) = Some sy'"
    show "?P k k2 sy sy'"
    proof (intro impI)
      assume eq: "k = k2" and ok: "\<forall>w\<in>set (futex_queue k sy). fw_thread w \<noteq> INVALID_THREAD_ID"
      show "futex_queue k sy = []"
      proof (cases "futex_queue k sy")
        case (Cons w ws)
        let ?sy1 = "set_futex k (ws @ [w]) (set_futex k ws sy)"
        from Cons ok body eq have "f k k ?sy1 = Some sy'"
          by (simp add: requeueWaiter_def Let_def futex_queue_set_futex)
        from IH [OF this] ok Cons have "futex_queue k ?sy1 = []" by (auto simp: futex_queue_set_futex)
        then show ?thesis by (simp add: futex_queue_set_futex)
      qed
    qed
  qed
  with assms(2,3) show ?thesis by blast
qed

lemma requeue_loop_inv:
  assumes "sync_inv sy" "requeue_loop k k2 sy = Some sy'"
  shows "sync_inv sy'"
proof (cases "k = k2")
  case True
  have "futex_queue k sy = []"
    by (rule requeue_loop_raw [OF assms(2) True]) (use sync_inv_valid [OF assms(1), of _ "At_Futex k"] in auto)
  with assms requeue_loop_empty [of k sy k2] show ?thesis by simp
next
  case False
  with requeue_loop_moves [OF assms(1) False] assms(2) show ?thesis by auto
qed

lemma futexCmpRequeue_inv:
  assumes "sync_inv sy" "futexCmpRequeue env t uaddr val uaddr2 v3 act time sy = Inr (r, sy')"
  shows "sync_inv sy'"
proof -
  from assms(2) obtain k sy1 where f: "findFutexByUaddr env uaddr t sy = Inr (k, sy1)"
    and r1: "sy' = sy1 \<or> (\<exists>m sy2 k2 sy3. wake_loop (upto_count val) (dequeueWaiter k FUTEX_BITSET_MATCH_ANY time) 0 sy1 = Inr (m, sy2)
      \<and> findFutexByUaddr env uaddr2 t sy2 = Inr (k2, sy3) \<and> requeue_loop k k2 sy3 = Some sy')"
    unfolding futexCmpRequeue_def by (auto elim!: bindE_InrE split: if_splits option.splits)
  note i1 = findFutexByUaddr_inv(1) [OF assms(1) f]
  from r1 show ?thesis
  proof (elim disjE exE conjE)
    fix m sy2 k2 sy3
    assume w: "wake_loop (upto_count val) (dequeueWaiter k FUTEX_BITSET_MATCH_ANY time) 0 sy1 = Inr (m, sy2)"
      and f2: "findFutexByUaddr env uaddr2 t sy2 = Inr (k2, sy3)" and q: "requeue_loop k k2 sy3 = Some sy'"
    note i3 = findFutexByUaddr_inv(1) [OF wake_loop_inv [OF dequeueWaiter_inv i1 w] f2]
    show ?thesis by (rule requeue_loop_inv [OF i3 q])
  qed (use i1 in simp)
qed

lemma handleFutexCall_inv:
  assumes "sync_inv sy" "running t sy" "handleFutexCall env t args time sy = Inr (r, sy')"
  shows "sync_inv sy'"
  using assms(3) assms(1,2)
  by (auto simp: handleFutexCall_def with_thread_def outcome_now_def Let_def bindE_Inr_iff split: if_splits
      intro: futexWait_inv futexWake_inv futexWakeOp_inv futexCmpRequeue_inv)

subsection \<open>Sleeping and the clock\<close>

lemma handleSleepCall_inv:
  assumes inv: "sync_inv sy" and run: "running t sy" and res: "handleSleepCall t wt sy = Inr (r, sy')"
  shows "sync_inv sy'"
proof -
  have P: "parked (waiters sy) sy" using inv by (simp add: sync_inv_def)
  from res have st: "stallThread t STALL_SLEEP
       (sy\<lparr>sy_sleeping := sy_sleeping sy @ [\<lparr>fw_thread = t, fw_mask = 0, fw_timeout = wt\<rparr>]\<rparr>) = Inr sy'"
    by (auto simp: handleSleepCall_def elim!: bindE_InrE)
  have "parked (waiters sy') sy'"
    by (rule park_step [OF P run _ _ _ _ st, where p = At_Sleep]) (simp_all add: waiters_sleeping)
  then show ?thesis by (rule futex_inv_intro [OF inv]) (use stalled_same [OF st] in simp_all)
qed

lemma wake_sleeper_inv:
  assumes inv: "sync_inv sy" and res: "wake_sleeper time sy = Inr sy'"
  shows "sync_inv sy'"
proof (cases "take_waiter (\<lambda>w. fw_timeout w \<le> time) (sy_sleeping sy)")
  case None
  with res inv show ?thesis by (simp add: wake_sleeper_def)
next
  case (Some x)
  obtain w ws where x: "x = (w, ws)" by fastforce
  have P: "parked (waiters sy) sy" using inv by (simp add: sync_inv_def)
  from res Some x have st: "resumeThread (fw_thread w) time False (sy\<lparr>sy_sleeping := ws\<rparr>) = Inr sy'"
    by (simp add: wake_sleeper_def)
  have "distinct (map fw_thread (sy_sleeping sy))" using parked_distinct [OF P, of At_Sleep] by simp
  note rm = take_waiter_remove1 [OF Some [unfolded x] this]
  have "parked (waiters sy') sy'"
    by (rule release_step [OF P _ _ _ _ st, where p = At_Sleep]) (use rm in \<open>auto simp: waiters_sleeping\<close>)
  then show ?thesis by (rule futex_inv_intro [OF inv]) (use resumed_same [OF st] in simp_all)
qed

lemma wake_futexes_inv: "sync_inv sy \<Longrightarrow> wake_futexes time ks sy = Inr sy' \<Longrightarrow> sync_inv sy'"
  by (induction ks arbitrary: sy) (auto elim!: bindE_InrE dest: wakeTimedOut_inv)

lemma futexPeriodic_inv: "sync_inv sy \<Longrightarrow> futexPeriodic time sy = Inr sy' \<Longrightarrow> sync_inv sy'"
  by (auto simp: futexPeriodic_def elim!: bindE_InrE intro: wake_futexes_inv wake_sleeper_inv)

subsection \<open>Steps\<close>

text \<open>What a running thread may do next, and what the clock barrier does.\<close>

inductive sync_step :: "futex_env \<Rightarrow> sync_sys \<Rightarrow> sync_sys \<Rightarrow> bool" for env where
  lock: "running t sy \<Longrightarrow> mutexLock t mux tryLock time sy = Inr (r, sy') \<Longrightarrow> sync_step env sy sy'"
| unlock: "running t sy \<Longrightarrow> mutexUnlock t mux time sy = Inr (r, sy') \<Longrightarrow> sync_step env sy sy'"
| cwait: "running t sy \<Longrightarrow> condWait t cond mux time sy = Inr (r, sy') \<Longrightarrow> sync_step env sy sy'"
| csignal: "running t sy \<Longrightarrow> condSignal cond time sy = Inr (r, sy') \<Longrightarrow> sync_step env sy sy'"
| cbroadcast: "running t sy \<Longrightarrow> condBroadcast cond time sy = Inr (r, sy') \<Longrightarrow> sync_step env sy sy'"
| binit: "running t sy \<Longrightarrow> barrierInit n sy = (i, sy') \<Longrightarrow> sync_step env sy sy'"
| bwait: "running t sy \<Longrightarrow> barrierWait t i time sy = Inr (r, sy') \<Longrightarrow> sync_step env sy sy'"
| futex: "running t sy \<Longrightarrow> handleFutexCall env t args time sy = Inr (r, sy') \<Longrightarrow> sync_step env sy sy'"
| sleep: "running t sy \<Longrightarrow> handleSleepCall t wake_time sy = Inr (r, sy') \<Longrightarrow> sync_step env sy sy'"
| periodic: "futexPeriodic time sy = Inr sy' \<Longrightarrow> sync_step env sy sy'"

lemma sync_step_inv: "sync_step env sy sy' \<Longrightarrow> sync_inv sy \<Longrightarrow> sync_inv sy'"
  by (induction rule: sync_step.induct)
    (blast intro: mutexLock_inv mutexUnlock_inv condWait_inv condSignal_inv condBroadcast_inv barrierInit_inv
       barrierWait_inv handleFutexCall_inv handleSleepCall_inv futexPeriodic_inv)+

lemma sync_steps_inv: "(sync_step env)\<^sup>*\<^sup>* sy sy' \<Longrightarrow> sync_inv sy \<Longrightarrow> sync_inv sy'"
  by (induction rule: rtranclp_induct) (auto intro: sync_step_inv)

text \<open>Where nothing waits yet and no thread is stalled.\<close>

definition sync_start :: "sync_sys \<Rightarrow> bool" where
  "sync_start sy \<longleftrightarrow> sy_mutexes sy = Map.empty \<and> sy_conds sy = Map.empty \<and> sy_barriers sy = [] \<and> sy_futexes sy = []
     \<and> sy_sleeping sy = [] \<and> (\<forall>s\<in>set (sy_threads sy). ts_status s \<noteq> STALLED)"

lemma sync_start_inv: "sync_start sy \<Longrightarrow> sync_inv sy"
proof -
  assume s: "sync_start sy"
  have "waiters sy p = []" for p using s by (cases p) (auto simp: sync_start_def futex_queue_def)
  moreover have "\<not> (thread_ok t sy \<and> ts_status (thread t sy) = STALLED)" for t
    using s by (auto simp: sync_start_def thread_ok_def thread_def)
  ultimately have "parked (waiters sy) sy" by (auto simp: parked_def)
  then show ?thesis using s by (auto simp: sync_inv_def mutexes_ok_def conds_ok_def sync_start_def)
qed

end
