(* ===== verification/Thread_Manager.thy ===== *)
theory Thread_Manager
  imports Futex
begin

text \<open>
  common/system/thread_manager.cc and common/core/thread.cc: threads are created, start, exit, are joined and moved
  between cores. The core that the scheduler gives a new thread is an argument. A core runs the thread whose
  \<open>ts_core\<close> it is. An instruction that is queued for a core is returned with that core. The hooks and the
  thread-local storage of the host are left out.
\<close>

definition new_thread :: thread_state where
  "new_thread = \<lparr>ts_status = INITIALIZING, ts_reason = STALL_UNSCHEDULED, ts_waiter = INVALID_THREAD_ID, ts_core = None,
     ts_wakeup = 0, ts_msg = False, ts_clear_tid = None\<rparr>"

definition set_core_state :: "core_id \<Rightarrow> core_state_t \<Rightarrow> sync_sys \<Rightarrow> sync_sys" where
  "set_core_state c st sy = sy\<lparr>sy_core_state := (sy_core_state sy)(c := st)\<rparr>"

definition core_free :: "core_id \<Rightarrow> thread_id \<Rightarrow> sync_sys \<Rightarrow> bool" where
  "core_free c t sy \<longleftrightarrow> (\<forall>i<length (sy_threads sy). int i \<noteq> t \<longrightarrow> ts_core (sy_threads sy ! i) \<noteq> Some c)"

definition setCore :: "thread_id \<Rightarrow> core_id option \<Rightarrow> sync_sys \<Rightarrow> sync_sys res" where
  "setCore t core sy =
     (case core of
        None \<Rightarrow> Inr (set_thread t (\<lambda>s. s\<lparr>ts_core := None\<rparr>) sy)
      | Some c \<Rightarrow> assertE (core_free c t sy) ''Cannot move thread to core''
                   (Inr (set_thread t (\<lambda>s. s\<lparr>ts_core := Some c\<rparr>) sy)))"

definition createThread :: "core_id \<Rightarrow> sync_sys \<Rightarrow> (thread_id \<times> sync_sys) res" where
  "createThread core_id sy =
     (let t = int (length (sy_threads sy)); sy = sy\<lparr>sy_threads := sy_threads sy @ [new_thread]\<rparr> in
      if core_id \<noteq> INVALID_CORE_ID then
        bindE (setCore t (Some core_id) sy) (\<lambda>sy. Inr (t, set_core_state core_id INITIALIZING sy))
      else Inr (t, sy))"

definition set_waiter :: "thread_id \<Rightarrow> thread_id \<Rightarrow> sync_sys \<Rightarrow> sync_sys" where
  "set_waiter t w sy = set_thread t (\<lambda>s. s\<lparr>ts_waiter := w\<rparr>) sy"

text \<open>A thread that waits for another to start is only signalled; its status has not changed.\<close>

definition signal_starter :: "thread_id \<Rightarrow> time \<Rightarrow> sync_sys \<Rightarrow> sync_sys res" where
  "signal_starter t time sy =
     (let w = ts_waiter (thread t sy) in
      if w \<noteq> INVALID_THREAD_ID
      then with_thread w sy (Inr (set_waiter t INVALID_THREAD_ID (thread_signal w time False sy)))
      else Inr sy)"

definition onThreadStart :: "thread_id \<Rightarrow> time \<Rightarrow> sync_sys \<Rightarrow> ((core_id \<times> time) option \<times> sync_sys) res" where
  "onThreadStart t time sy =
     with_thread t sy
     (let sy = set_thread t (\<lambda>s. s\<lparr>ts_status := RUNNING\<rparr>) sy in
      case ts_core (thread t sy) of
        Some c \<Rightarrow>
          let sy = set_core_state c RUNNING sy; time = max time (sy_core_time sy c) in
          bindE (signal_starter t time (set_thread t (\<lambda>s. s\<lparr>ts_status := RUNNING\<rparr>) sy)) (\<lambda>sy.
          Inr (Some (c, time), sy))
      | None \<Rightarrow>
          bindE (signal_starter t time
            (set_thread t (\<lambda>s. s\<lparr>ts_status := STALLED, ts_reason := STALL_UNSCHEDULED\<rparr>) sy)) (\<lambda>sy.
          Inr (None, sy)))"

definition wakeUpWaiter :: "thread_id \<Rightarrow> time \<Rightarrow> sync_sys \<Rightarrow> sync_sys res" where
  "wakeUpWaiter t time sy =
     (let w = ts_waiter (thread t sy) in
      if w \<noteq> INVALID_THREAD_ID
      then bindE (resumeThread w time False sy) (\<lambda>sy. Inr (set_waiter t INVALID_THREAD_ID sy))
      else Inr sy)"

definition clear_tid :: "futex_env \<Rightarrow> thread_id \<Rightarrow> time \<Rightarrow> sync_sys \<Rightarrow> sync_sys res" where
  "clear_tid env t time sy =
     (case ts_clear_tid (thread t sy) of
        None \<Rightarrow> Inr sy
      | Some p \<Rightarrow>
          bindE (futexWake env t p 1 FUTEX_BITSET_MATCH_ANY time (sy\<lparr>sy_mem := (sy_mem sy)(p := 0)\<rparr>)) (\<lambda>(_, sy).
          Inr sy))"

definition onThreadExit :: "futex_env \<Rightarrow> thread_id \<Rightarrow> sync_sys \<Rightarrow> sync_sys res" where
  "onThreadExit env t sy =
     with_thread t sy
     (case ts_core (thread t sy) of
        None \<Rightarrow> Inl (Assert_Failed ''Thread ended while not running on a core?'')
      | Some c \<Rightarrow>
          let time = sy_core_time sy c in
          assertE (ts_status (thread t sy) = RUNNING) ''m_thread_state[thread_id].status == Core::RUNNING''
          (bindE (wakeUpWaiter t time (set_thread t (\<lambda>s. s\<lparr>ts_status := IDLE\<rparr>) sy)) (\<lambda>sy.
           bindE (clear_tid env t time sy) (\<lambda>sy.
           setCore t None (set_core_state c IDLE sy)))))"

definition spawnThread :: "thread_id \<Rightarrow> core_id \<Rightarrow> sync_sys \<Rightarrow> (thread_id \<times> sync_sys) res" where
  "spawnThread t core_id sy =
     bindE (if t \<noteq> INVALID_THREAD_ID then
              with_thread t sy
                (case ts_core (thread t sy) of
                   None \<Rightarrow> Inl (Null_Pointer ''core'')
                 | Some c \<Rightarrow> Inr (sy_core_time sy c))
            else Inr 0) (\<lambda>time_start.
     bindE (createThread core_id sy) (\<lambda>(u, sy).
     Inr (u, sy\<lparr>sy_spawn := sy_spawn sy @ [\<lparr>sr_thread_by = t, sr_thread = u, sr_time = time_start\<rparr>]\<rparr>)))"

definition getThreadToSpawn :: "sync_sys \<Rightarrow> ((time \<times> thread_id) \<times> sync_sys) res" where
  "getThreadToSpawn sy =
     (case sy_spawn sy of
        [] \<Rightarrow> Inl (Out_Of_Range ''m_thread_spawn_list'')
      | r # rs \<Rightarrow> Inr ((sr_time r, sr_thread r), sy\<lparr>sy_spawn := rs\<rparr>))"

definition waitForThreadStart :: "thread_id \<Rightarrow> thread_id \<Rightarrow> sync_sys \<Rightarrow> (unit outcome \<times> sync_sys) res" where
  "waitForThreadStart t wait_t sy =
     with_thread t sy
     (if \<not> thread_ok wait_t sy then Inl (Out_Of_Range ''m_thread_state'')
      else if ts_status (thread wait_t sy) = INITIALIZING then
        assertE (ts_waiter (thread wait_t sy) = INVALID_THREAD_ID) ''Multiple threads waiting for thread''
          (Inr (Stalls, set_thread t (\<lambda>s. s\<lparr>ts_msg := False\<rparr>) (set_waiter wait_t t sy)))
      else Inr (Now (), sy))"

definition moveThread :: "thread_id \<Rightarrow> core_id \<Rightarrow> time \<Rightarrow> sync_sys \<Rightarrow> sync_sys res" where
  "moveThread t core_id time sy =
     with_thread t sy
     (let core = ts_core (thread t sy);
          sy = (case core of Some c \<Rightarrow> set_core_state c IDLE sy | None \<Rightarrow> sy) in
      if core_id = INVALID_CORE_ID then setCore t None sy
      else
        bindE (if core = None \<and> ts_status (thread t sy) = STALLED \<and> ts_reason (thread t sy) = STALL_UNSCHEDULED
               then resumeThread t time False sy else Inr sy) (\<lambda>sy.
        bindE (setCore t (Some core_id) sy) (\<lambda>sy.
        Inr (if ts_status (thread t sy) \<noteq> STALLED then set_core_state core_id RUNNING sy else sy))))"

definition areAllCoresRunning :: "sync_sys \<Rightarrow> bool" where
  "areAllCoresRunning sy \<longleftrightarrow> \<not> list_ex (\<lambda>s. ts_status s = IDLE) (sy_threads sy)"

text \<open>A join of a thread that is not idle stalls. What comes after it: \<open>joinThread_resumed\<close>.\<close>

definition joinThread :: "thread_id \<Rightarrow> thread_id \<Rightarrow> sync_sys \<Rightarrow> (unit outcome \<times> sync_sys) res" where
  "joinThread t join_t sy =
     with_thread t sy
     (if \<not> thread_ok join_t sy then Inl (Out_Of_Range ''m_thread_state'')
      else if ts_status (thread join_t sy) = IDLE then Inr (Now (), sy)
      else if ts_core (thread t sy) = None then Inl (Null_Pointer ''core'')
      else
        assertE (ts_waiter (thread join_t sy) = INVALID_THREAD_ID) ''Multiple threads joining on thread''
          (bindE (stallThread t STALL_JOIN (set_waiter join_t t sy)) (\<lambda>sy. Inr (Stalls, sy))))"

text \<open>\<open>Thread::reschedule\<close>: a thread without a core stalls, and looks again when it is resumed; \<open>time\<close> is the
  time of the last resumption. \<open>Now (Some (c, time))\<close> is a thread that is on another core now, for which an instruction is
  queued; \<open>Now None\<close> one that is still on its core.\<close>

definition reschedule ::
  "thread_id \<Rightarrow> time \<Rightarrow> core_id option \<Rightarrow> sync_sys \<Rightarrow> ((core_id \<times> time) option outcome \<times> sync_sys) res" where
  "reschedule t time current_core sy =
     with_thread t sy
     (case ts_core (thread t sy) of
        None \<Rightarrow> bindE (stallThread t STALL_UNSCHEDULED sy) (\<lambda>sy. Inr (Stalls, sy))
      | Some c \<Rightarrow> if current_core \<noteq> Some c then Inr (Now (Some (c, time)), sy) else Inr (Now None, sy))"

text \<open>The rest of a join: the core to queue the instruction for, and its time.\<close>

definition joinThread_resumed ::
  "thread_id \<Rightarrow> core_id option \<Rightarrow> sync_sys \<Rightarrow> ((core_id \<times> time) outcome \<times> sync_sys) res" where
  "joinThread_resumed t core sy =
     bindE (reschedule t (ts_wakeup (thread t sy)) core sy) (\<lambda>(r, sy).
     Inr (case r of
        Stalls \<Rightarrow> Stalls
      | Now (Some (c, time)) \<Rightarrow> Now (c, time)
      | Now None \<Rightarrow> Now (the core, ts_wakeup (thread t sy)), sy))"

end
