(* ===== verification/Sync_Fifo.thy ===== *)
theory Sync_Fifo
  imports Sync_Reach Thread_Manager
begin

text \<open>
  What the operations promise beyond the invariant: a mutex is a first-in-first-out queue whose head owns it, a
  broadcast moves every waiter to the end of its mutex's queue, a barrier releases all threads at the last arrival, a wake-up
  releases the first matching waiters.
\<close>

subsection \<open>The mutex as a queue\<close>

text \<open>The abstract value: those that asked for the mutex and have not given it back, in the order they asked.\<close>

definition abs_mutex :: "sync_sys \<Rightarrow> addr \<Rightarrow> thread_id list" where
  "abs_mutex sy mux = (case sy_mutexes sy mux of None \<Rightarrow> []
     | Some m \<Rightarrow> if mx_owner m = NO_OWNER then [] else mx_owner m # mx_waiting m)"

lemma abs_mutex_getMutex: "getMutex mux create sy = Inr (m, sy1) \<Longrightarrow> abs_mutex sy1 x = abs_mutex sy x
    \<and> sy_mutexes sy1 mux = Some m \<and> sy_cost sy1 = sy_cost sy"
  by (auto simp: getMutex_def abs_mutex_def SimMutex_def set_mutex_def split: option.splits if_splits)

lemma abs_mutex_threads [simp]: "abs_mutex (set_thread t f sy) = abs_mutex sy"
  by (simp add: abs_mutex_def fun_eq_iff)

lemma abs_mutex_set: "abs_mutex (set_mutex a m sy) x =
    (if x = a then if mx_owner m = NO_OWNER then [] else mx_owner m # mx_waiting m else abs_mutex sy x)"
  by (simp add: abs_mutex_def)

lemma abs_mutex_cond [simp]: "abs_mutex (set_cond b c sy) = abs_mutex sy"
  by (simp add: abs_mutex_def fun_eq_iff)

lemma abs_mutex_stalled: "stallThread t r sy = Inr sy' \<Longrightarrow> abs_mutex sy' = abs_mutex sy"
  by (auto simp: stallThread_Inr_iff)

lemma abs_mutex_resumed: "resumeThread t w msg sy = Inr sy' \<Longrightarrow> abs_mutex sy' = abs_mutex sy"
  by (auto simp: resumeThread_Inr_iff)

lemma mx_lock_abs:
  assumes "sync_inv sy" "sy_mutexes sy mux = Some m" "t \<noteq> NO_OWNER" "mx_lock t time mux m sy = Inr (r, sy')"
  shows "abs_mutex sy' x = (if x = mux then abs_mutex sy mux @ [t] else abs_mutex sy x) \<and>
    (r = Stalls \<longleftrightarrow> abs_mutex sy mux \<noteq> [])"
proof (cases "mx_owner m = NO_OWNER")
  case True
  with assms(1,2) have "mx_waiting m = []" by (auto simp: sync_inv_def mutexes_ok_def)
  with True assms show ?thesis by (auto simp: mx_lock_def abs_mutex_set) (auto simp: abs_mutex_def)
next
  case False
  from False assms(4) have st: "stallThread t STALL_MUTEX (set_mutex mux (m\<lparr>mx_waiting := mx_waiting m @ [t]\<rparr>) sy) = Inr sy'"
    and r: "r = Stalls" by (auto simp: mx_lock_def bindE_Inr_iff)
  have "abs_mutex sy mux = mx_owner m # mx_waiting m" using False assms(2) by (simp add: abs_mutex_def)
  with abs_mutex_stalled [OF st] r False show ?thesis by (simp add: abs_mutex_set)
qed

lemma running_owner: "running t sy \<Longrightarrow> t \<noteq> NO_OWNER"
  by (auto simp: running_def thread_ok_def NO_OWNER_def)

lemma mx_unlock_abs:
  assumes "sync_inv sy" "sy_mutexes sy mux = Some m" "t \<noteq> NO_OWNER" "mx_owner m = t"
  shows "\<exists>u sy'. mx_unlock t time mux m sy = Inr (u, sy') \<and> abs_mutex sy mux = t # mx_waiting m \<and>
    abs_mutex sy' mux = mx_waiting m \<and> (mx_waiting m \<noteq> [] \<longrightarrow> running (hd (mx_waiting m)) sy') \<and>
    (\<forall>x. x \<noteq> mux \<longrightarrow> abs_mutex sy' x = abs_mutex sy x)"
proof (cases "mx_waiting m")
  case Nil
  with assms show ?thesis by (auto simp: mx_unlock_def abs_mutex_set) (auto simp: abs_mutex_def)
next
  case (Cons w ws)
  have ok: "thread_ok w sy" using assms(1,2) Cons parked_waiting [of "waiters sy" sy w "At_Mutex mux"]
    by (simp add: sync_inv_def)
  then have nw: "w \<noteq> NO_OWNER" by (auto simp: thread_ok_def NO_OWNER_def)
  let ?sy1 = "set_mutex mux (m\<lparr>mx_waiting := ws, mx_owner := w\<rparr>) sy"
  let ?sy' = "set_thread w (\<lambda>s. s\<lparr>ts_wakeup := time, ts_msg := False, ts_status := RUNNING\<rparr>) ?sy1"
  have st: "resumeThread w time False ?sy1 = Inr ?sy'" using ok by (simp add: resumeThread_Inr_iff)
  have "abs_mutex sy mux = t # mx_waiting m" using assms(2,3,4) by (simp add: abs_mutex_def)
  with st show ?thesis using assms(4) Cons ok nw by (simp add: mx_unlock_def abs_mutex_set running_def)
qed

text \<open>Unlocks by whoever owns the mutex.\<close>

definition owner_of :: "addr \<Rightarrow> sync_sys \<Rightarrow> thread_id" where
  "owner_of mux sy = (case sy_mutexes sy mux of None \<Rightarrow> NO_OWNER | Some m \<Rightarrow> mx_owner m)"

primrec owner_unlocks :: "nat \<Rightarrow> addr \<Rightarrow> time \<Rightarrow> sync_sys \<Rightarrow> sync_sys res" where
  "owner_unlocks 0 mux time sy = Inr sy"
| "owner_unlocks (Suc n) mux time sy =
     bindE (mutexUnlock (owner_of mux sy) mux time sy) (\<lambda>(_, sy). owner_unlocks n mux time sy)"

lemma mutexUnlock_abs:
  assumes inv: "sync_inv sy" and a: "abs_mutex sy mux = t # ws"
  shows "\<exists>r sy'. mutexUnlock t mux time sy = Inr (r, sy') \<and> sync_inv sy' \<and> abs_mutex sy' mux = ws \<and>
    (ws \<noteq> [] \<longrightarrow> running (hd ws) sy') \<and> (\<forall>x. x \<noteq> mux \<longrightarrow> abs_mutex sy' x = abs_mutex sy x)"
proof -
  from a obtain m where m: "sy_mutexes sy mux = Some m" "mx_owner m = t" "t \<noteq> NO_OWNER" "mx_waiting m = ws"
    by (auto simp: abs_mutex_def split: option.splits if_splits)
  have g: "getMutex mux False sy = Inr (m, sy)" using m(1) by (simp add: getMutex_def)
  from mx_unlock_abs [OF inv m(1) m(3) m(2), of "time + sy_cost sy"] m(4) obtain u sy' where
    u: "mx_unlock t (time + sy_cost sy) mux m sy = Inr (u, sy')" and s: "abs_mutex sy' mux = ws"
      "ws \<noteq> [] \<longrightarrow> running (hd ws) sy'" "\<forall>x. x \<noteq> mux \<longrightarrow> abs_mutex sy' x = abs_mutex sy x" by auto
  from u g have r: "\<exists>r. mutexUnlock t mux time sy = Inr (r, sy')" by (simp add: mutexUnlock_def)
  then have "sync_inv sy'" using mutexUnlock_inv [OF inv] by blast
  with r s show ?thesis by blast
qed

lemma owner_unlocks_abs:
  "sync_inv sy \<Longrightarrow> n \<le> length (abs_mutex sy mux) \<Longrightarrow> \<exists>sy'. owner_unlocks n mux time sy = Inr sy' \<and> sync_inv sy' \<and>
     abs_mutex sy' mux = drop n (abs_mutex sy mux) \<and> (0 < n \<and> n < length (abs_mutex sy mux) \<longrightarrow> running (abs_mutex sy mux ! n) sy')"
proof (induction n arbitrary: sy)
  case (Suc n)
  then obtain t ws where a: "abs_mutex sy mux = t # ws" by (cases "abs_mutex sy mux") auto
  have o: "owner_of mux sy = t" using a by (auto simp: owner_of_def abs_mutex_def split: option.splits if_splits)
  from mutexUnlock_abs [OF Suc.prems(1) a] obtain r sy1 where u: "mutexUnlock t mux time sy = Inr (r, sy1)"
    "sync_inv sy1" "abs_mutex sy1 mux = ws" "ws \<noteq> [] \<longrightarrow> running (hd ws) sy1" by blast
  from Suc.prems(2) a u(3) have "n \<le> length (abs_mutex sy1 mux)" by simp
  from Suc.IH [OF u(2) this] obtain sy' where s: "owner_unlocks n mux time sy1 = Inr sy'" "sync_inv sy'"
    "abs_mutex sy' mux = drop n ws" "0 < n \<and> n < length ws \<longrightarrow> running (ws ! n) sy'"
    unfolding u(3) by blast
  show ?case
  proof (intro exI [of _ sy'] conjI impI)
    show "owner_unlocks (Suc n) mux time sy = Inr sy'" using o u s by simp
    show "sync_inv sy'" by (rule s)
    show "abs_mutex sy' mux = drop (Suc n) (abs_mutex sy mux)" using a s by simp
    assume "0 < Suc n \<and> Suc n < length (abs_mutex sy mux)"
    then show "running (abs_mutex sy mux ! Suc n) sy'" using a s u(4) by (cases n) (auto simp: hd_conv_nth)
  qed
qed simp

subsection \<open>Broadcasts\<close>

lemma mx_lock_async_abs:
  assumes "sync_inv sy" "sy_mutexes sy mux = Some m" "t \<noteq> NO_OWNER"
    "mx_lock_async t time mux m (set_cond cond c sy) = Inr (l, sy')"
  shows "abs_mutex sy' x = (if x = mux then abs_mutex sy mux @ [t] else abs_mutex sy x) \<and> (l \<longleftrightarrow> abs_mutex sy mux = [])
    \<and> (l \<longrightarrow> running t sy')"
proof (cases "mx_owner m = NO_OWNER")
  case True
  with assms(1,2) have "mx_waiting m = []" by (auto simp: sync_inv_def mutexes_ok_def)
  moreover from True assms(4) have st: "resumeThread t time False (set_mutex mux (m\<lparr>mx_owner := t\<rparr>) (set_cond cond c sy)) = Inr sy'"
    and l by (auto simp: mx_lock_async_def bindE_Inr_iff)
  moreover have "running t sy'" using st by (auto simp: resumeThread_Inr_iff running_def)
  ultimately show ?thesis using True assms(2,3) abs_mutex_resumed [OF st] by (auto simp: abs_mutex_set) (auto simp: abs_mutex_def)
next
  case False
  have "abs_mutex sy mux = mx_owner m # mx_waiting m" using False assms(2) by (simp add: abs_mutex_def)
  with False assms show ?thesis by (auto simp: mx_lock_async_def abs_mutex_set)
qed

lemma cv_broadcast_abs:
  "sync_inv sy \<Longrightarrow> sy_conds sy cond = Some c \<Longrightarrow> cv_broadcast time cond c sy = Inr sy' \<Longrightarrow>
     sy_conds sy' cond = Some [] \<and> abs_mutex sy' mux = abs_mutex sy mux @ map fst (filter (\<lambda>w. snd w = mux) c)"
proof (induction c arbitrary: sy)
  case (Cons w c)
  obtain t a where w: "w = (t, a)" by fastforce
  from Cons.prems(3) w obtain m l sy1 where m: "sy_mutexes sy a = Some m"
    and l: "mx_lock_async t time a m (set_cond cond c sy) = Inr (l, sy1)" and b: "cv_broadcast time cond c sy1 = Inr sy'"
    by (auto simp: bindE_Inr_iff deref_mutex_Inr Let_def)
  have "t \<in> set (waiters sy (At_Cond cond))" using Cons.prems(2) w by simp
  with Cons.prems(1) have "t \<noteq> NO_OWNER"
    using parked_waiting [of "waiters sy" sy t "At_Cond cond"] by (auto simp: sync_inv_def thread_ok_def NO_OWNER_def)
  note x = mx_lock_async_abs [OF Cons.prems(1) m this l]
  note h = hand_over_inv [OF Cons.prems(1) Cons.prems(2) [unfolded w] m l]
  from Cons.IH [OF h b] x w show ?case by simp
qed simp

subsection \<open>Barriers\<close>

lemma resume_all_runs:
  "\<forall>w\<in>set ws. thread_ok w sy \<Longrightarrow> \<exists>sy'. resume_all ws time sy = Inr sy' \<and> sy_barriers sy' = sy_barriers sy \<and>
     (\<forall>t. t \<in> set ws \<or> running t sy \<longrightarrow> running t sy')"
proof (induction ws arbitrary: sy)
  case (Cons w ws)
  let ?sy1 = "set_thread w (\<lambda>s. s\<lparr>ts_wakeup := time, ts_msg := False, ts_status := RUNNING\<rparr>) sy"
  have r: "resumeThread w time False sy = Inr ?sy1" using Cons.prems by (simp add: resumeThread_Inr_iff)
  from Cons.IH [of ?sy1] Cons.prems obtain sy' where s: "resume_all ws time ?sy1 = Inr sy'"
    "sy_barriers sy' = sy_barriers sy" "\<forall>t. t \<in> set ws \<or> running t ?sy1 \<longrightarrow> running t sy'" by auto
  have "running t ?sy1" if "t = w \<or> running t sy" for t using that Cons.prems by (auto simp: running_def)
  with r s show ?case by (intro exI [of _ sy']) auto
qed simp

text \<open>Threads arrive one after the other.\<close>

primrec arrive :: "thread_id list \<Rightarrow> nat \<Rightarrow> time \<Rightarrow> sync_sys \<Rightarrow> sync_sys res" where
  "arrive [] i time sy = Inr sy"
| "arrive (t # ts) i time sy = bindE (barrierWait t i time sy) (\<lambda>(_, sy). arrive ts i time sy)"

lemma arrive_append: "arrive (xs @ ys) i time sy = bindE (arrive xs i time sy) (arrive ys i time)"
proof (induction xs arbitrary: sy)
  case (Cons x xs)
  then show ?case by (cases "barrierWait x i time sy") auto
qed simp

definition barrier_has :: "nat \<Rightarrow> u32 \<Rightarrow> thread_id list \<Rightarrow> sync_sys \<Rightarrow> bool" where
  "barrier_has i n ws sy \<longleftrightarrow> i < length (sy_barriers sy) \<and> sy_barriers sy ! i = \<lparr>br_waiting = ws, br_count = n\<rparr>"

lemma unat_pred: "0 < unat (n :: u32) \<Longrightarrow> unat (n - 1) = unat n - 1"
  by (rule unat_minus_one) auto

lemma barrierWait_early:
  assumes "barrier_has i n ws sy" "Suc (length ws) < unat n" "thread_ok t sy"
  shows "\<exists>sy'. barrierWait t i time sy = Inr (Stalls, sy') \<and> barrier_has i n (ws @ [t]) sy' \<and>
    (\<forall>u. thread_ok u sy' = thread_ok u sy) \<and> ts_status (thread t sy') = STALLED \<and>
    (\<forall>u. u \<noteq> t \<longrightarrow> thread_ok u sy \<longrightarrow> thread u sy' = thread u sy)"
proof -
  let ?sy1 = "set_barrier i \<lparr>br_waiting = ws @ [t], br_count = n\<rparr> sy"
  let ?sy' = "set_thread t (\<lambda>s. s\<lparr>ts_status := STALLED, ts_reason := STALL_BARRIER, ts_msg := False\<rparr>) ?sy1"
  have "length ws \<noteq> unat (n - 1)" using assms(2) unat_pred [of n] by auto
  moreover have "stallThread t STALL_BARRIER ?sy1 = Inr ?sy'" using assms(3) by (simp add: stallThread_Inr_iff)
  ultimately have "barrierWait t i time sy = Inr (Stalls, ?sy')"
    using assms(1) by (simp add: barrierWait_def br_wait_def barrier_has_def)
  then show ?thesis using assms(1,3) by (intro exI [of _ ?sy']) (auto simp: barrier_has_def set_barrier_def)
qed

lemma arrive_early:
  "barrier_has i n ws sy \<Longrightarrow> length ws + length ts < unat n \<Longrightarrow> \<forall>t\<in>set ts. thread_ok t sy \<Longrightarrow> distinct ts \<Longrightarrow>
     \<exists>sy'. arrive ts i time sy = Inr sy' \<and> barrier_has i n (ws @ ts) sy' \<and> (\<forall>u. thread_ok u sy' = thread_ok u sy) \<and>
       (\<forall>t\<in>set ts. ts_status (thread t sy') = STALLED) \<and>
       (\<forall>u. u \<notin> set ts \<longrightarrow> thread_ok u sy \<longrightarrow> thread u sy' = thread u sy)"
proof (induction ts arbitrary: ws sy)
  case (Cons t ts)
  then have "Suc (length ws) < unat n" "thread_ok t sy" by auto
  from barrierWait_early [OF Cons.prems(1) this, of time] obtain sy1 where
    b: "barrierWait t i time sy = Inr (Stalls, sy1)" "barrier_has i n (ws @ [t]) sy1"
      "\<And>u. thread_ok u sy1 = thread_ok u sy" "ts_status (thread t sy1) = STALLED"
      "\<And>u. u \<noteq> t \<Longrightarrow> thread_ok u sy \<Longrightarrow> thread u sy1 = thread u sy" by blast
  have l: "length (ws @ [t]) + length ts < unat n" "\<forall>t\<in>set ts. thread_ok t sy1" "distinct ts"
    using Cons.prems b(3) by auto
  from Cons.IH [OF b(2) l] obtain sy' where a: "arrive ts i time sy1 = Inr sy'" "barrier_has i n ((ws @ [t]) @ ts) sy'"
      "\<forall>u. thread_ok u sy' = thread_ok u sy1" "\<forall>t\<in>set ts. ts_status (thread t sy') = STALLED"
      "\<forall>u. u \<notin> set ts \<longrightarrow> thread_ok u sy1 \<longrightarrow> thread u sy' = thread u sy1" by blast
  show ?case
  proof (intro exI [of _ sy'] conjI)
    show "arrive (t # ts) i time sy = Inr sy'" using b(1) a(1) by simp
    show "barrier_has i n (ws @ t # ts) sy'" using a(2) by simp
    show "\<forall>u. thread_ok u sy' = thread_ok u sy" using a(3) b(3) by simp
    show "\<forall>u\<in>set (t # ts). ts_status (thread u sy') = STALLED" using a(4,5) b(3,4) Cons.prems(3,4) by auto
    show "\<forall>u. u \<notin> set (t # ts) \<longrightarrow> thread_ok u sy \<longrightarrow> thread u sy' = thread u sy" using a(5) b(3,5) by auto
  qed
qed simp

lemma barrierWait_last:
  assumes "barrier_has i n ws sy" "Suc (length ws) = unat n" "running t sy" "\<forall>w\<in>set ws. thread_ok w sy"
  shows "\<exists>sy'. barrierWait t i time sy = Inr (Now time, sy') \<and> barrier_has i n [] sy' \<and> running t sy' \<and>
    (\<forall>w\<in>set ws. running w sy')"
proof -
  let ?sy1 = "set_barrier i \<lparr>br_waiting = [], br_count = n\<rparr> sy"
  have "\<forall>w\<in>set ws. thread_ok w ?sy1" using assms(4) by simp
  from resume_all_runs [OF this, of time] obtain sy' where r: "resume_all ws time ?sy1 = Inr sy'"
    "sy_barriers sy' = sy_barriers ?sy1" "\<forall>t. t \<in> set ws \<or> running t ?sy1 \<longrightarrow> running t sy'" by blast
  have "running t ?sy1" using assms(3) by (simp add: running_def)
  moreover have "length ws = unat (n - 1)" using assms(2) unat_pred [of n] by auto
  ultimately show ?thesis using r assms(1)
    by (intro exI [of _ sy']) (auto simp: barrierWait_def br_wait_def barrier_has_def set_barrier_def)
qed

subsection \<open>Futexes\<close>

text \<open>What \<open>n\<close> wake-ups leave of a queue, and whom they release.\<close>

primrec woken_of :: "nat \<Rightarrow> u32 \<Rightarrow> futex_waiter list \<Rightarrow> thread_id list" where
  "woken_of n msk [] = []"
| "woken_of n msk (w # q) = (if n = 0 then [] else if msk AND fw_mask w \<noteq> 0 then fw_thread w # woken_of (n - 1) msk q
     else woken_of n msk q)"

primrec left_of :: "nat \<Rightarrow> u32 \<Rightarrow> futex_waiter list \<Rightarrow> futex_waiter list" where
  "left_of n msk [] = []"
| "left_of n msk (w # q) = (if n = 0 then w # q else if msk AND fw_mask w \<noteq> 0 then left_of (n - 1) msk q
     else w # left_of n msk q)"

lemma woken_of_0 [simp]: "woken_of 0 msk q = []" "left_of 0 msk q = q"
  by (cases q; simp)+

lemma woken_of_None: "\<forall>v\<in>set q. \<not> msk AND fw_mask v \<noteq> 0 \<Longrightarrow> woken_of n msk q = [] \<and> left_of n msk q = q"
  by (induction q) auto

lemma woken_of_skip: "\<forall>v\<in>set pre. \<not> msk AND fw_mask v \<noteq> 0 \<Longrightarrow> 0 < n \<Longrightarrow>
    woken_of n msk (pre @ q) = woken_of n msk q \<and> left_of n msk (pre @ q) = pre @ left_of n msk q"
  by (induction pre) auto

text \<open>The waiters in front do not match, so one wake-up more takes the next match behind them.\<close>

lemma woken_of_Suc:
  assumes "q = pre @ w # post" "msk AND fw_mask w \<noteq> 0" "\<forall>v\<in>set pre. \<not> msk AND fw_mask v \<noteq> 0"
  shows "woken_of (Suc n) msk q = fw_thread w # woken_of n msk (pre @ post)"
    "left_of (Suc n) msk q = left_of n msk (pre @ post)"
proof -
  have a: "woken_of (Suc n) msk q = fw_thread w # woken_of n msk post" "left_of (Suc n) msk q = pre @ left_of n msk post"
    using woken_of_skip [OF assms(3), of "Suc n" "w # post"] assms(1,2) by auto
  have b: "woken_of n msk (pre @ post) = woken_of n msk post" "left_of n msk (pre @ post) = pre @ left_of n msk post"
    using woken_of_skip [OF assms(3), of n post] by (cases n; simp)+
  show "woken_of (Suc n) msk q = fw_thread w # woken_of n msk (pre @ post)"
    "left_of (Suc n) msk q = left_of n msk (pre @ post)" using a b by simp_all
qed

lemma set_thread_ins: "sy_core_ins (set_thread t f sy) = sy_core_ins sy"
  by (simp add: set_thread_def)

lemma applyRescheduleCost_resumed:
  "resumeThread w time msg sy = Inr sy' \<Longrightarrow> thread_ok t sy \<Longrightarrow> applyRescheduleCost t c sy' = applyRescheduleCost t c sy"
  by (auto simp: resumeThread_Inr_iff applyRescheduleCost_def with_thread_def set_thread_ins split: option.splits)

lemma applyRescheduleCost_set_futex [simp]: "applyRescheduleCost t c (set_futex k q sy) = applyRescheduleCost t c sy"
  by (simp add: applyRescheduleCost_def with_thread_def set_futex_def cong: option.case_cong if_cong)

lemma wake_loop_wakes:
  assumes "thread_ok t sy" "applyRescheduleCost t True sy = Inr cost" "\<forall>w\<in>set (futex_queue k sy). thread_ok (fw_thread w) sy"
    "distinct (map fw_thread (futex_queue k sy))"
  shows "\<exists>sy'. wake_loop n (wakeFutexOne k t msk time) m sy = Inr (m + length (woken_of n msk (futex_queue k sy)), sy') \<and>
    futex_queue k sy' = left_of n msk (futex_queue k sy) \<and> (\<forall>u. thread_ok u sy' = thread_ok u sy) \<and>
    (\<forall>u\<in>set (woken_of n msk (futex_queue k sy)). running u sy' \<and> ts_msg (thread u sy') \<and> ts_wakeup (thread u sy') = time + cost) \<and>
    (\<forall>u. thread_ok u sy \<longrightarrow> u \<notin> set (woken_of n msk (futex_queue k sy)) \<longrightarrow> thread u sy' = thread u sy) \<and>
    applyRescheduleCost t True sy' = Inr cost"
  using assms
proof (induction n arbitrary: m sy)
  case 0
  then show ?case by (intro exI [of _ sy]) simp
next
  case (Suc n)
  show ?case
  proof (cases "take_waiter (\<lambda>w. msk AND fw_mask w \<noteq> 0) (futex_queue k sy)")
    case None
    then have "\<forall>v\<in>set (futex_queue k sy). \<not> msk AND fw_mask v \<noteq> 0" by (simp add: take_waiter_None)
    from woken_of_None [OF this] None Suc.prems show ?thesis
      by (intro exI [of _ sy]) (simp add: wakeFutexOne_def dequeueWaiter_def)
  next
    case (Some x)
    obtain w ws where x: "x = (w, ws)" by fastforce
    from take_waiter_SomeD [OF Some [unfolded x]] obtain pre post where
      q: "futex_queue k sy = pre @ w # post" "ws = pre @ post" "msk AND fw_mask w \<noteq> 0"
         "\<forall>v\<in>set pre. \<not> msk AND fw_mask v \<noteq> 0" by blast
    note W = woken_of_Suc [OF q(1,3,4), of n, folded q(2)]
    have okw: "thread_ok (fw_thread w) sy" using Suc.prems(3) q(1) by simp
    let ?sy1 = "set_thread (fw_thread w) (\<lambda>s. s\<lparr>ts_wakeup := time + cost, ts_msg := True, ts_status := RUNNING\<rparr>) (set_futex k ws sy)"
    have r: "resumeThread (fw_thread w) (time + cost) True (set_futex k ws sy) = Inr ?sy1"
      using okw by (simp add: resumeThread_Inr_iff)
    have nz: "fw_thread w \<noteq> INVALID_THREAD_ID" using okw by (auto simp: thread_ok_def INVALID_THREAD_ID_def)
    have one: "wakeFutexOne k t msk time sy = Inr (fw_thread w, ?sy1)"
      using Suc.prems(2) Some x r by (simp add: wakeFutexOne_def dequeueWaiter_def)
    have fq: "futex_queue k ?sy1 = ws" by (simp add: futex_queue_def) (simp add: set_futex_def update_conv')
    have c1: "applyRescheduleCost t True ?sy1 = Inr cost"
      using applyRescheduleCost_resumed [OF r, of t True] Suc.prems(1,2) by simp
    have p: "thread_ok t ?sy1" "\<forall>v\<in>set (futex_queue k ?sy1). thread_ok (fw_thread v) ?sy1"
      "distinct (map fw_thread (futex_queue k ?sy1))" using Suc.prems(1,3,4) q fq by auto
    from Suc.IH [OF p(1) c1 p(2,3), of "Suc m"] obtain sy' where
      s: "wake_loop n (wakeFutexOne k t msk time) (Suc m) ?sy1 = Inr (Suc m + length (woken_of n msk ws), sy')"
        "futex_queue k sy' = left_of n msk ws" "\<forall>u. thread_ok u sy' = thread_ok u ?sy1"
        "\<forall>u\<in>set (woken_of n msk ws). running u sy' \<and> ts_msg (thread u sy') \<and> ts_wakeup (thread u sy') = time + cost"
        "\<forall>u. thread_ok u ?sy1 \<longrightarrow> u \<notin> set (woken_of n msk ws) \<longrightarrow> thread u sy' = thread u ?sy1"
        "applyRescheduleCost t True sy' = Inr cost" unfolding fq by blast
    have first: "running (fw_thread w) sy' \<and> ts_msg (thread (fw_thread w) sy') \<and> ts_wakeup (thread (fw_thread w) sy') = time + cost"
      using s(3,4,5) okw by (cases "fw_thread w \<in> set (woken_of n msk ws)") (auto simp: running_def)
    show ?thesis
    proof (intro exI [of _ sy'] conjI)
      show "wake_loop (Suc n) (wakeFutexOne k t msk time) m sy
          = Inr (m + length (woken_of (Suc n) msk (futex_queue k sy)), sy')"
        using one nz s(1) W(1) by simp
      show "futex_queue k sy' = left_of (Suc n) msk (futex_queue k sy)" using s(2) W(2) by simp
      show "\<forall>u. thread_ok u sy' = thread_ok u sy" using s(3) by simp
      show "\<forall>u\<in>set (woken_of (Suc n) msk (futex_queue k sy)).
          running u sy' \<and> ts_msg (thread u sy') \<and> ts_wakeup (thread u sy') = time + cost"
        using s(4) W(1) first by simp
      show "\<forall>u. thread_ok u sy \<longrightarrow> u \<notin> set (woken_of (Suc n) msk (futex_queue k sy)) \<longrightarrow> thread u sy' = thread u sy"
        using s(5) W(1) okw by simp
      show "applyRescheduleCost t True sy' = Inr cost" by (rule s(6))
    qed
  qed
qed

end
