(* ===== verification/Sync_Props.thy ===== *)
theory Sync_Props
  imports Sync_Fifo
begin

text \<open>
  The properties of threads and their synchronization, and the concrete system on which they are shown to apply: three
  threads that run on three cores.
\<close>

definition sync_demo :: sync_sys where
  "sync_demo = \<lparr>sy_threads = map (\<lambda>c. new_thread\<lparr>ts_status := RUNNING, ts_core := Some c\<rparr>) [0, 1, 2], sy_spawn = [],
     sy_core_state = (\<lambda>c. RUNNING), sy_core_time = (\<lambda>c. 0), sy_core_ins = (\<lambda>c. 1), sy_mutexes = Map.empty,
     sy_conds = Map.empty, sy_barriers = [], sy_futexes = [], sy_sleeping = [], sy_mem = (\<lambda>a. 0), sy_cost = 5\<rparr>"

definition sync_demo_env :: futex_env where
  "sync_demo_env = \<lparr>fe_va2pa = (\<lambda>t a. a), fe_time_start = 0\<rparr>"

text \<open>Threads 1 and 2 are stalled.\<close>

definition stall_demo :: "stall_type_t \<Rightarrow> stall_type_t \<Rightarrow> sync_sys" where
  "stall_demo r1 r2 = stallThread_async 2 r2 (stallThread_async 1 r1 sync_demo)"

text \<open>Thread 0 owns the mutex at 16 and the other two have asked for it, thread 2 after it was signalled.\<close>

definition mutex_demo :: sync_sys where
  "mutex_demo = set_mutex 16 \<lparr>mx_waiting = [1, 2], mx_owner = 0\<rparr> (stall_demo STALL_MUTEX STALL_COND)"

text \<open>Threads 1 and 2 wait on the condition variable at 32 with that mutex, which thread 0 owns.\<close>

definition cond_demo :: sync_sys where
  "cond_demo = set_cond 32 [(2, 16), (1, 16)]
     (set_mutex 16 \<lparr>mx_waiting = [], mx_owner = 0\<rparr> (stall_demo STALL_COND STALL_COND))"

text \<open>Threads 1 and 2 wait on the futex at 64.\<close>

definition futex_demo :: sync_sys where
  "futex_demo = set_futex 64 [\<lparr>fw_thread = 2, fw_mask = 1, fw_timeout = MaxTime\<rparr>,
     \<lparr>fw_thread = 1, fw_mask = 2, fw_timeout = MaxTime\<rparr>] (stall_demo STALL_FUTEX STALL_FUTEX)"

lemma thread_ok_demo [simp]: "thread_ok t sync_demo \<longleftrightarrow> 0 \<le> t \<and> t < 3"
  by (auto simp: thread_ok_def sync_demo_def)

lemma thread_ok_stall_demo [simp]: "thread_ok t (stall_demo r1 r2) \<longleftrightarrow> 0 \<le> t \<and> t < 3"
  by (simp add: stall_demo_def stallThread_async_def)

lemma less_three: "0 \<le> t \<and> t < 3 \<longleftrightarrow> t = 0 \<or> t = 1 \<or> t = (2 :: int)"
  by arith

lemma demo_running [simp]: "running 0 sync_demo" "running 1 sync_demo" "running 2 sync_demo"
  by (simp_all add: running_def thread_def sync_demo_def thread_ok_def)

lemma stall_demo_threads:
  "ts_status (thread 0 (stall_demo r1 r2)) = RUNNING" "ts_core (thread 0 (stall_demo r1 r2)) = Some 0"
  "ts_status (thread 1 (stall_demo r1 r2)) = STALLED" "ts_reason (thread 1 (stall_demo r1 r2)) = r1"
  "ts_status (thread 2 (stall_demo r1 r2)) = STALLED" "ts_reason (thread 2 (stall_demo r1 r2)) = r2"
  by (simp_all add: stall_demo_def stallThread_async_def) (simp_all add: thread_def sync_demo_def)

lemma demo_start: "sync_start sync_demo"
  by (simp add: sync_start_def sync_demo_def)

lemma waiters_stall_demo: "waiters (stall_demo r1 r2) = (\<lambda>p. [])"
proof (rule ext)
  show "waiters (stall_demo r1 r2) p = []" for p
    by (cases p) (auto simp: stall_demo_def stallThread_async_def futex_queue_def sync_demo_def set_thread_def)
qed

lemma parked_one_place:
  assumes "distinct ws" "\<And>t. t \<in> set ws \<Longrightarrow> thread_ok t sy \<and> ts_status (thread t sy) = STALLED \<and> ts_reason (thread t sy) \<in> set (reasons p)"
    "\<And>t. thread_ok t sy \<Longrightarrow> ts_status (thread t sy) = STALLED \<Longrightarrow> t \<in> set ws"
  shows "parked ((\<lambda>p. [])(p := ws)) sy"
  by (rule parkedI) (use assms in \<open>auto split: if_splits\<close>)

lemma stall_demo_parked:
  assumes "set ws = {1, 2}" "distinct ws" "{r1, r2} \<subseteq> set (reasons p)"
    "\<And>t. thread t sy = thread t (stall_demo r1 r2)" "\<And>t. thread_ok t sy = thread_ok t (stall_demo r1 r2)"
  shows "parked ((\<lambda>p. [])(p := ws)) sy"
  by (rule parked_one_place) (use assms stall_demo_threads [of r1 r2] in \<open>auto simp: less_three\<close>)

lemma mutex_demo_inv: "sync_inv mutex_demo"
proof (rule sync_invI)
  show "parked (waiters mutex_demo) mutex_demo"
    by (simp add: mutex_demo_def waiters_set_mutex waiters_stall_demo)
      (rule stall_demo_parked [of _ STALL_MUTEX STALL_COND]; auto)
qed (auto simp: mutex_demo_def mutexes_ok_def conds_ok_def stall_demo_def stallThread_async_def sync_demo_def
   set_thread_def set_mutex_def NO_OWNER_def)

lemma cond_demo_inv: "sync_inv cond_demo"
proof (rule sync_invI)
  have W: "waiters (set_mutex 16 \<lparr>mx_waiting = [], mx_owner = 0\<rparr> (stall_demo STALL_COND STALL_COND)) = (\<lambda>p. [])"
    by (auto simp: waiters_set_mutex waiters_stall_demo)
  show "parked (waiters cond_demo) cond_demo"
    by (simp add: cond_demo_def waiters_set_cond W) (rule stall_demo_parked [of _ STALL_COND STALL_COND]; auto)
qed (auto simp: cond_demo_def mutexes_ok_def conds_ok_def stall_demo_def stallThread_async_def sync_demo_def
   set_thread_def set_mutex_def set_cond_def NO_OWNER_def)

lemma futex_demo_inv: "sync_inv futex_demo"
proof (rule sync_invI)
  show "parked (waiters futex_demo) futex_demo"
    by (simp add: futex_demo_def waiters_set_futex waiters_stall_demo)
      (rule stall_demo_parked [of _ STALL_FUTEX STALL_FUTEX]; auto)
qed (auto simp: futex_demo_def mutexes_ok_def conds_ok_def stall_demo_def stallThread_async_def sync_demo_def
   set_thread_def set_futex_def)

definition locked_once :: sync_sys where
  "locked_once = set_mutex 16 \<lparr>mx_waiting = [], mx_owner = 0\<rparr> (set_mutex 16 SimMutex sync_demo)"

definition locked_twice :: sync_sys where
  "locked_twice = set_thread 1 (\<lambda>s. s\<lparr>ts_status := STALLED, ts_reason := STALL_MUTEX, ts_msg := False\<rparr>)
    (set_mutex 16 \<lparr>mx_waiting = [1], mx_owner = 0\<rparr> locked_once)"

lemma demo_mutex: "getMutex 16 True sync_demo = Inr (SimMutex, set_mutex 16 SimMutex sync_demo)"
  by (simp add: getMutex_def sync_demo_def)

lemma demo_cost: "sy_cost (set_mutex a m sync_demo) = 5" "sy_cost (set_mutex b n (set_mutex a m sync_demo)) = 5"
  by (simp_all add: set_mutex_def sync_demo_def)

lemma lock_once: "mutexLock 0 16 False 0 sync_demo = Inr (Now (5, True), locked_once)"
  by (simp add: mutexLock_def mx_lock_def demo_mutex locked_once_def SimMutex_def NO_OWNER_def demo_cost)

lemma lock_twice: "mutexLock 1 16 False 0 locked_once = Inr (Stalls, locked_twice)"
proof -
  have "stallThread 1 STALL_MUTEX (set_mutex 16 \<lparr>mx_waiting = [1], mx_owner = 0\<rparr> locked_once) = Inr locked_twice"
    by (simp add: stallThread_Inr_iff locked_twice_def) (simp add: locked_once_def)
  moreover have "getMutex 16 True locked_once = Inr (\<lparr>mx_waiting = [], mx_owner = 0\<rparr>, locked_once)"
    by (simp add: getMutex_def locked_once_def)
  ultimately show ?thesis by (simp add: mutexLock_def mx_lock_def NO_OWNER_def)
qed

lemma locked_once_running: "running 1 locked_once"
  using demo_running(2) by (simp add: running_def locked_once_def)

lemma demo_steps: "(sync_step sync_demo_env)\<^sup>*\<^sup>* sync_demo locked_twice"
  by (rule rtranclp.rtrancl_into_rtrancl [OF r_into_rtranclp])
    (rule sync_step.lock [OF demo_running(1) lock_once], rule sync_step.lock [OF locked_once_running lock_twice])

lemma demo_waiters: "waiters locked_twice (At_Mutex 16) = [1]"
  by (simp add: locked_twice_def waiters_set_mutex)

subsection \<open>Properties\<close>

text \<open>C23. In every state that running threads and the clock reach with mutexes, condition variables, barriers,
  futexes and sleeps, a thread waits in a queue exactly when it is stalled for one of these reasons, it waits in one queue
  only, once, and a mutex that nobody owns has no waiter.\<close>

theorem stalled_iff_queued:
  assumes "sync_start sy" and "(sync_step env)\<^sup>*\<^sup>* sy sy'"
  shows "((\<exists>p. t \<in> set (waiters sy' p)) \<longleftrightarrow>
      thread_ok t sy' \<and> ts_status (thread t sy') = STALLED \<and> ts_reason (thread t sy') \<in> set queue_reasons) \<and>
    distinct (waiters sy' p) \<and> (t \<in> set (waiters sy' p) \<and> t \<in> set (waiters sy' q) \<longrightarrow> p = q) \<and>
    (sy_mutexes sy' mux = Some m \<and> mx_owner m = NO_OWNER \<longrightarrow> mx_waiting m = [])"
proof -
  have i: "sync_inv sy'" by (rule sync_steps_inv [OF assms(2) sync_start_inv [OF assms(1)]])
  then have P: "parked (waiters sy') sy'" and M: "mutexes_ok sy'" by (simp_all add: sync_inv_def)
  show ?thesis using parked_waiting [OF P] parked_found [OF P] parked_distinct [OF P] parked_unique [OF P] M
    reasons_in_queue unfolding mutexes_ok_def by blast
qed

theorem stalled_iff_queued_witness:
  "(sync_step sync_demo_env)\<^sup>*\<^sup>* sync_demo locked_twice \<and> ts_status (thread 1 locked_twice) = STALLED"
proof
  have "\<exists>p. 1 \<in> set (waiters locked_twice p)" by (rule exI [of _ "At_Mutex 16"]) (simp only: demo_waiters, simp)
  with stalled_iff_queued [OF demo_start demo_steps, of 1 undefined undefined undefined undefined]
  show "ts_status (thread 1 locked_twice) = STALLED" by (elim conjE) simp
qed (rule demo_steps)

text \<open>C24. A mutex is a queue of the threads that asked for it and have not given it back: locking appends the
  caller, who stalls unless the queue was empty, and unlocking, which only the head can do, removes the head and wakes
  the next one; no other mutex changes.\<close>

theorem mutex_refines_queue:
  assumes "sync_inv sy" and "running t sy"
  shows "(mutexLock t mux False time sy = Inr (r, sy') \<longrightarrow>
      abs_mutex sy' = (abs_mutex sy)(mux := abs_mutex sy mux @ [t]) \<and> (r = Stalls \<longleftrightarrow> abs_mutex sy mux \<noteq> [])) \<and>
    (mutexUnlock t mux time sy = Inr (e, sy') \<longrightarrow>
      (\<exists>ws. abs_mutex sy mux = t # ws \<and> abs_mutex sy' = (abs_mutex sy)(mux := ws) \<and> (ws \<noteq> [] \<longrightarrow> running (hd ws) sy')))"
proof (intro conjI impI)
  note nt = running_owner [OF assms(2)]
  {
    assume l: "mutexLock t mux False time sy = Inr (r, sy')"
    from l obtain m sy1 r1 where g: "getMutex mux True sy = Inr (m, sy1)" and x: "mx_lock t time mux m sy1 = Inr (r1, sy')"
      and r1: "r = (case r1 of Now e \<Rightarrow> Now (e + sy_cost sy', True) | Stalls \<Rightarrow> Stalls)"
      by (auto simp: mutexLock_def bindE_Inr_iff)
    have r: "r = Stalls \<longleftrightarrow> r1 = Stalls" using r1 by (cases r1) auto
    note i = getMutex_inv [OF assms(1) g]
    note a = abs_mutex_getMutex [OF g]
    from mx_lock_abs [OF i(1,2) nt x] a r
    show "abs_mutex sy' = (abs_mutex sy)(mux := abs_mutex sy mux @ [t])" "r = Stalls \<longleftrightarrow> abs_mutex sy mux \<noteq> []"
      by (auto simp: fun_eq_iff)
  }
  {
    assume u: "mutexUnlock t mux time sy = Inr (e, sy')"
    then obtain m sy1 v where g: "getMutex mux False sy = Inr (m, sy1)" and x: "mx_unlock t (time + sy_cost sy1) mux m sy1 = Inr (v, sy')"
      by (auto simp: mutexUnlock_def bindE_Inr_iff)
    note i = getMutex_inv [OF assms(1) g]
    have o: "mx_owner m = t" using x by (simp add: mx_unlock_def assertE_def split: if_splits)
    from mx_unlock_abs [OF i(1,2) nt o, of "time + sy_cost sy1"] x abs_mutex_getMutex [OF g]
    show "\<exists>ws. abs_mutex sy mux = t # ws \<and> abs_mutex sy' = (abs_mutex sy)(mux := ws) \<and> (ws \<noteq> [] \<longrightarrow> running (hd ws) sy')"
      by (intro exI [of _ "mx_waiting m"]) (auto simp: fun_eq_iff)
  }
qed

lemma abs_mutex_demo: "abs_mutex mutex_demo = (\<lambda>x. if x = 16 then [0, 1, 2] else [])"
  by (auto simp: fun_eq_iff mutex_demo_def abs_mutex_set NO_OWNER_def)
    (auto simp: abs_mutex_def stall_demo_def stallThread_async_def sync_demo_def)

lemma mutex_demo_running: "running 0 mutex_demo"
  using stall_demo_threads(1) by (auto simp: running_def mutex_demo_def)

theorem mutex_refines_queue_witness:
  "\<exists>e sy'. mutexUnlock 0 16 0 mutex_demo = Inr (e, sy') \<and> abs_mutex sy' 16 = [1, 2] \<and> running 1 sy'"
proof -
  from mutexUnlock_abs [OF mutex_demo_inv, of 16 0 "[1, 2]" 0] obtain e sy' where u: "mutexUnlock 0 16 0 mutex_demo = Inr (e, sy')"
    by (auto simp: abs_mutex_demo)
  from mutex_refines_queue [OF mutex_demo_inv mutex_demo_running, of 16 0 undefined sy' e] u
  show ?thesis by (auto simp: abs_mutex_demo)
qed

text \<open>C25. No thread waits for a mutex for ever: the one with n before it in the queue runs and owns the mutex once
  whoever owned it has unlocked it n times, and none of these unlocks fails.\<close>

theorem mutex_waiter_served:
  assumes "sync_inv sy" and "0 < n" and "n < length (abs_mutex sy mux)"
  shows "\<exists>sy'. owner_unlocks n mux time sy = Inr sy' \<and> owner_of mux sy' = abs_mutex sy mux ! n \<and> running (abs_mutex sy mux ! n) sy'"
proof -
  from assms(3) have "n \<le> length (abs_mutex sy mux)" by simp
  from owner_unlocks_abs [OF assms(1) this, of time] assms(2,3) obtain sy' where s: "owner_unlocks n mux time sy = Inr sy'"
    "abs_mutex sy' mux = drop n (abs_mutex sy mux)" "running (abs_mutex sy mux ! n) sy'" by blast
  have "abs_mutex sy' mux = abs_mutex sy mux ! n # drop (Suc n) (abs_mutex sy mux)"
    using s(2) assms(3) by (simp add: Cons_nth_drop_Suc)
  then have "owner_of mux sy' = abs_mutex sy mux ! n"
    by (auto simp: owner_of_def abs_mutex_def split: option.splits if_splits)
  with s show ?thesis by blast
qed

theorem mutex_waiter_served_witness: "\<exists>sy'. owner_unlocks 2 16 0 mutex_demo = Inr sy' \<and> owner_of 16 sy' = 2 \<and> running 2 sy'"
  using mutex_waiter_served [OF mutex_demo_inv, of 2 16 0] by (simp add: abs_mutex_demo)

text \<open>C26. A broadcast leaves nobody at the condition variable: every waiter is appended, in order, to the queue of
  the mutex it waited with, so that it returns only with that mutex.\<close>

theorem broadcast_moves_to_mutexes:
  assumes "sync_inv sy" and "condBroadcast cond time sy = Inr (e, sy')"
  shows "waiters sy' (At_Cond cond) = [] \<and> abs_mutex sy' mux
    = abs_mutex sy mux @ map fst (filter (\<lambda>w. snd w = mux) (case sy_conds sy cond of None \<Rightarrow> [] | Some c \<Rightarrow> c))"
proof -
  obtain c sy1 where c: "getCond cond sy = (c, sy1)" by fastforce
  note c' = getCond_inv [OF assms(1) c]
  from assms(2) c have b: "cv_broadcast time cond c sy1 = Inr sy'" by (auto simp: condBroadcast_def bindE_Inr_iff)
  have "c = (case sy_conds sy cond of None \<Rightarrow> [] | Some c \<Rightarrow> c)" using c by (auto simp: getCond_def split: option.splits)
  moreover have "abs_mutex sy1 mux = abs_mutex sy mux" using c'(3) by (simp add: abs_mutex_def)
  ultimately show ?thesis using cv_broadcast_abs [OF c'(1,2) b] by simp
qed

lemma cond_demo_broadcast: "\<exists>sy'. condBroadcast 32 0 cond_demo = Inr (0, sy')"
  by (auto simp: condBroadcast_def getCond_def cond_demo_def deref_mutex_def mx_lock_async_def NO_OWNER_def Let_def)

lemma cond_demo_queues: "sy_conds cond_demo 32 = Some [(2, 16), (1, 16)]" "abs_mutex cond_demo 16 = [0]"
  by (simp_all add: cond_demo_def abs_mutex_set NO_OWNER_def)

theorem broadcast_moves_to_mutexes_witness:
  "\<exists>sy'. condBroadcast 32 0 cond_demo = Inr (0, sy') \<and> waiters sy' (At_Cond 32) = [] \<and> abs_mutex sy' 16 = [0, 2, 1]"
proof -
  obtain sy' where b: "condBroadcast 32 0 cond_demo = Inr (0, sy')" using cond_demo_broadcast by blast
  from broadcast_moves_to_mutexes [OF cond_demo_inv b, of 16] b show ?thesis
    by (auto simp only: cond_demo_queues) simp
qed

text \<open>C27. A barrier for n threads: as long as fewer have arrived all of them are stalled in it, and the arrival of
  the last one leaves it empty with all of them running.\<close>

theorem barrier_releases_all:
  assumes "barrier_has i n [] sy" and "length ts = unat n" and "0 < unat n" and "distinct ts"
    and "\<forall>t\<in>set ts. running t sy" and "k < unat n"
  shows "(\<exists>sy'. arrive (take k ts) i time sy = Inr sy' \<and> barrier_has i n (take k ts) sy' \<and>
      (\<forall>t\<in>set (take k ts). ts_status (thread t sy') = STALLED)) \<and>
    (\<exists>sy'. arrive ts i time sy = Inr sy' \<and> barrier_has i n [] sy' \<and> (\<forall>t\<in>set ts. running t sy'))"
proof
  have ok: "\<forall>t\<in>set ts. thread_ok t sy" using assms(5) by (simp add: running_def)
  have l: "length [] + length (take k ts) < unat n" "\<forall>t\<in>set (take k ts). thread_ok t sy" "distinct (take k ts)"
    using assms(4,6) ok by (auto dest: in_set_takeD)
  from arrive_early [OF assms(1) l, of time] show "\<exists>sy'. arrive (take k ts) i time sy = Inr sy' \<and>
      barrier_has i n (take k ts) sy' \<and> (\<forall>t\<in>set (take k ts). ts_status (thread t sy') = STALLED)" by auto
  from assms(2,3) obtain us t where ts: "ts = us @ [t]" by (cases ts rule: rev_cases) auto
  have l: "length [] + length us < unat n" "\<forall>t\<in>set us. thread_ok t sy" "distinct us" using assms(2,4) ok ts by auto
  from arrive_early [OF assms(1) l, of time] obtain sy1 where s: "arrive us i time sy = Inr sy1" "barrier_has i n us sy1"
    "\<forall>u. thread_ok u sy1 = thread_ok u sy" "\<forall>u. u \<notin> set us \<longrightarrow> thread_ok u sy \<longrightarrow> thread u sy1 = thread u sy" by auto
  have r: "running t sy1" using s(3,4) ts assms(4,5) by (auto simp: running_def)
  have "Suc (length us) = unat n" "\<forall>w\<in>set us. thread_ok w sy1" using assms(2) ts ok s(3) by auto
  from barrierWait_last [OF s(2) this(1) r this(2), of time] s(1) ts
  show "\<exists>sy'. arrive ts i time sy = Inr sy' \<and> barrier_has i n [] sy' \<and> (\<forall>t\<in>set ts. running t sy')"
    by (auto simp: arrive_append)
qed

theorem barrier_releases_all_witness:
  "\<exists>sy'. arrive [1, 0, 2] 0 7 (snd (barrierInit 3 sync_demo)) = Inr sy' \<and> (\<forall>t\<in>{0, 1, 2}. running t sy')"
proof -
  let ?sy = "snd (barrierInit 3 sync_demo)"
  have b: "barrier_has 0 3 [] ?sy" by (simp add: barrier_has_def barrierInit_def sync_demo_def)
  have r: "running t ?sy \<longleftrightarrow> running t sync_demo" for t
    by (simp add: barrierInit_def running_def thread_def thread_ok_def)
  have "\<forall>t\<in>set [1, 0, 2 :: int]. running t ?sy" using r by simp
  from barrier_releases_all [OF b _ _ _ this, of 0 7] show ?thesis by auto
qed

text \<open>C28. A wake-up of a futex releases the first waiters in the queue whose bits it matches, at most as many as it
  asks for, with the reschedule cost added to their time; it returns their number, leaves the others in their order and changes no
  other thread.\<close>

theorem futexWake_releases_first:
  assumes "sync_inv sy" and "thread_ok t sy" and "applyRescheduleCost t True sy = Inr cost"
    and q: "q = futex_queue (fe_va2pa env t uaddr) sy" and w: "ws = woken_of (upto_count n) msk q"
  shows "\<exists>sy'. futexWake env t uaddr n msk time sy = Inr ((int (length ws), time + (if ws = [] then 0 else cost)), sy') \<and>
    futex_queue (fe_va2pa env t uaddr) sy' = left_of (upto_count n) msk q \<and>
    (\<forall>u\<in>set ws. running u sy' \<and> futexWait_resumed u sy' = (0, time + cost)) \<and>
    (\<forall>u. thread_ok u sy \<longrightarrow> u \<notin> set ws \<longrightarrow> thread u sy' = thread u sy)"
proof -
  let ?k = "fe_va2pa env t uaddr"
  let ?sy1 = "set_futex ?k (futex_queue ?k sy) sy"
  have f: "findFutexByUaddr env uaddr t sy = Inr (?k, ?sy1)"
    using assms(2) by (simp add: findFutexByUaddr_def with_thread_def Let_def)
  have fq: "futex_queue ?k ?sy1 = q" using q by (simp add: futex_queue_set_futex)
  have P: "parked (waiters sy) sy" using assms(1) by (simp add: sync_inv_def)
  have "\<forall>w\<in>set q. thread_ok (fw_thread w) sy" using q parked_waiting [OF P, of _ "At_Futex ?k"] by auto
  moreover have "distinct (map fw_thread q)" using q parked_distinct [OF P, of "At_Futex ?k"] by simp
  ultimately obtain sy' where s: "wake_loop (upto_count n) (wakeFutexOne ?k t msk time) 0 ?sy1 = Inr (length ws, sy')"
    "futex_queue ?k sy' = left_of (upto_count n) msk q" "\<forall>u. thread_ok u sy' = thread_ok u ?sy1"
    "\<forall>u\<in>set ws. running u sy' \<and> ts_msg (thread u sy') \<and> ts_wakeup (thread u sy') = time + cost"
    "\<forall>u. thread_ok u ?sy1 \<longrightarrow> u \<notin> set ws \<longrightarrow> thread u sy' = thread u ?sy1" "applyRescheduleCost t True sy' = Inr cost"
    using wake_loop_wakes [of t ?sy1 cost ?k "upto_count n" msk time 0] assms(2,3) w unfolding fq by auto
  have c: "applyRescheduleCost t (0 < length ws) sy' = Inr (if ws = [] then 0 else cost)"
    using s(6) by (cases ws) (simp_all add: applyRescheduleCost_def)
  show ?thesis using f s c by (intro exI [of _ sy']) (simp add: futexWake_def futexWait_resumed_def)
qed

theorem futexWake_releases_first_witness:
  "\<exists>sy'. futexWake sync_demo_env 0 64 1 2 7 futex_demo = Inr ((1, 12), sy') \<and> futex_queue 64 sy'
     = [\<lparr>fw_thread = 2, fw_mask = 1, fw_timeout = MaxTime\<rparr>] \<and> running 1 sy'"
proof -
  have c: "applyRescheduleCost 0 True futex_demo = Inr 5"
    using stall_demo_threads(2) [of STALL_FUTEX STALL_FUTEX]
    by (simp add: applyRescheduleCost_def with_thread_def futex_demo_def)
      (simp add: set_futex_def stall_demo_def stallThread_async_def set_thread_def sync_demo_def)
  have ok: "thread_ok 0 futex_demo" by (simp add: futex_demo_def)
  have q: "futex_queue (fe_va2pa sync_demo_env 0 64) futex_demo = [\<lparr>fw_thread = 2, fw_mask = 1, fw_timeout = MaxTime\<rparr>,
     \<lparr>fw_thread = 1, fw_mask = 2, fw_timeout = MaxTime\<rparr>]"
    by (simp add: futex_demo_def sync_demo_env_def futex_queue_set_futex)
  from futexWake_releases_first [OF futex_demo_inv ok c refl refl, of sync_demo_env 64 1 2 7]
  show ?thesis unfolding q by (simp add: upto_count_def sync_demo_env_def) blast
qed

text \<open>C29. The requeueing loop ends when the futexes differ, with every waiter moved in order to the other futex and
  nobody woken; when both addresses are those of one futex with a waiter it never ends.\<close>

theorem requeue_ends_iff:
  assumes "sync_inv sy"
  shows "(requeue_loop k k2 sy = None \<longleftrightarrow> k = k2 \<and> futex_queue k sy \<noteq> []) \<and>
    (k \<noteq> k2 \<longrightarrow> (\<exists>sy'. requeue_loop k k2 sy = Some sy' \<and> futex_queue k sy' = [] \<and>
      futex_queue k2 sy' = futex_queue k2 sy @ futex_queue k sy \<and> sy_threads sy' = sy_threads sy))"
proof
  show "k \<noteq> k2 \<longrightarrow> (\<exists>sy'. requeue_loop k k2 sy = Some sy' \<and> futex_queue k sy' = [] \<and>
      futex_queue k2 sy' = futex_queue k2 sy @ futex_queue k sy \<and> sy_threads sy' = sy_threads sy)"
    using requeue_loop_moves [OF assms] by blast
  have valid: "\<forall>w\<in>set (futex_queue k sy). fw_thread w \<noteq> INVALID_THREAD_ID"
    using sync_inv_valid [OF assms, of _ "At_Futex k"] by auto
  show "requeue_loop k k2 sy = None \<longleftrightarrow> k = k2 \<and> futex_queue k sy \<noteq> []"
  proof
    assume n: "requeue_loop k k2 sy = None"
    have "k = k2" using n requeue_loop_moves [OF assms, of k k2] by auto
    moreover have "futex_queue k sy \<noteq> []" using n requeue_loop_empty by fastforce
    ultimately show "k = k2 \<and> futex_queue k sy \<noteq> []" ..
  next
    assume "k = k2 \<and> futex_queue k sy \<noteq> []"
    then show "requeue_loop k k2 sy = None" using requeue_loop_raw [of k k2 sy] valid
      by (cases "requeue_loop k k2 sy") auto
  qed
qed

theorem requeue_ends_iff_witness:
  "requeue_loop 64 64 futex_demo = None \<and> (\<exists>sy'. requeue_loop 64 72 futex_demo = Some sy' \<and> length (futex_queue 72 sy') = 2)"
proof -
  have q: "length (futex_queue 64 futex_demo) = 2" by (simp add: futex_demo_def futex_queue_set_futex)
  have q2: "futex_queue 72 futex_demo = []"
    by (simp add: futex_demo_def futex_queue_set_futex)
      (simp add: futex_queue_def stall_demo_def stallThread_async_def sync_demo_def)
  from q have ne: "futex_queue 64 futex_demo \<noteq> []" by auto
  with requeue_ends_iff [OF futex_demo_inv, of 64 64] requeue_ends_iff [OF futex_demo_inv, of 64 72] q q2
  show ?thesis by auto
qed

end
