(* ===== verification/Thread_Props.thy ===== *)
theory Thread_Props
  imports Sync_Props
begin

text \<open>
  Properties of the thread manager: which core runs which thread, and when a join returns.
\<close>

definition cores_exclusive :: "sync_sys \<Rightarrow> bool" where
  "cores_exclusive sy \<longleftrightarrow> (\<forall>i j c. i < length (sy_threads sy) \<longrightarrow> j < length (sy_threads sy) \<longrightarrow>
     ts_core (sy_threads sy ! i) = Some c \<longrightarrow> ts_core (sy_threads sy ! j) = Some c \<longrightarrow> i = j)"

lemma cores_exclusive_cong:
  "cores_exclusive sy \<Longrightarrow> map ts_core (sy_threads sy') = map ts_core (sy_threads sy) \<Longrightarrow> cores_exclusive sy'"
proof -
  assume e: "cores_exclusive sy" and m: "map ts_core (sy_threads sy') = map ts_core (sy_threads sy)"
  have l: "length (sy_threads sy') = length (sy_threads sy)" using m by (metis length_map)
  have "ts_core (sy_threads sy' ! i) = ts_core (sy_threads sy ! i)" if "i < length (sy_threads sy)" for i
    using m l that by (metis nth_map)
  with e l show ?thesis by (auto simp: cores_exclusive_def)
qed

lemma set_thread_cores: "(\<And>s. ts_core (f s) = ts_core s) \<Longrightarrow> map ts_core (sy_threads (set_thread t f sy)) = map ts_core (sy_threads sy)"
  by (simp add: set_thread_def map_update) (metis list_update_id list_update_beyond map_update nth_map not_less length_map)

lemma set_core_state_threads [simp]: "sy_threads (set_core_state c st sy) = sy_threads sy"
  by (simp add: set_core_state_def)

lemma resumeThread_cores: "resumeThread t w msg sy = Inr sy' \<Longrightarrow> map ts_core (sy_threads sy') = map ts_core (sy_threads sy)"
  by (auto simp: resumeThread_Inr_iff set_thread_cores)

lemma setCore_exclusive:
  assumes "cores_exclusive sy" "thread_ok t sy" "setCore t core sy = Inr sy'"
  shows "cores_exclusive sy' \<and> thread_ok t sy'"
proof (cases core)
  case None
  with assms show ?thesis
    by (auto simp: setCore_def cores_exclusive_def set_thread_def nth_list_update thread_ok_def split: if_splits)
next
  case (Some c)
  with assms(3) have f: "core_free c t sy" and s: "sy' = set_thread t (\<lambda>s. s\<lparr>ts_core := Some c\<rparr>) sy"
    by (auto simp: setCore_def)
  from f have o: "ts_core (sy_threads sy ! i) \<noteq> Some c" if "i < length (sy_threads sy)" "i \<noteq> nat t" for i
    using that assms(2) by (auto simp: core_free_def thread_ok_def)
  have "thread_ok t sy'" using assms(2) s by simp
  moreover have "cores_exclusive sy'" unfolding cores_exclusive_def
  proof (intro allI impI)
    fix i j d
    assume "i < length (sy_threads sy')" "j < length (sy_threads sy')" "ts_core (sy_threads sy' ! i) = Some d"
      "ts_core (sy_threads sy' ! j) = Some d"
    with s assms(1) o show "i = j"
      by (cases "i = nat t"; cases "j = nat t") (auto simp: set_thread_def nth_list_update cores_exclusive_def)
  qed
  ultimately show ?thesis by simp
qed

lemma moveThread_exclusive:
  assumes "cores_exclusive sy" "moveThread t c time sy = Inr sy'"
  shows "cores_exclusive sy'"
proof -
  let ?sy1 = "case ts_core (thread t sy) of Some c \<Rightarrow> set_core_state c IDLE sy | None \<Rightarrow> sy"
  have e1: "cores_exclusive ?sy1" using assms(1) by (auto simp: cores_exclusive_def split: option.splits)
  from assms(2) have ok: "thread_ok t sy" by (auto simp: moveThread_def with_thread_def)
  then have ok1: "thread_ok t ?sy1" by (auto simp: thread_ok_def split: option.splits)
  show ?thesis
  proof (cases "c = INVALID_CORE_ID")
    case True
    with assms(2) have "setCore t None ?sy1 = Inr sy'" by (auto simp: moveThread_def with_thread_def Let_def)
    with setCore_exclusive [OF e1 ok1] show ?thesis by blast
  next
    case False
    with assms(2) ok obtain sy2 sy3 where r: "sy2 = ?sy1 \<or> resumeThread t time False ?sy1 = Inr sy2"
      and c: "setCore t (Some c) sy2 = Inr sy3" and s: "sy' = sy3 \<or> sy' = set_core_state c RUNNING sy3"
      by (auto simp: moveThread_def with_thread_def Let_def bindE_Inr_iff split: if_splits)
    have "map ts_core (sy_threads sy2) = map ts_core (sy_threads ?sy1)" using r resumeThread_cores by blast
    then have e2: "cores_exclusive sy2" and "thread_ok t sy2"
      using cores_exclusive_cong [OF e1] ok1 by (auto simp: thread_ok_def dest: map_eq_imp_length_eq)
    from setCore_exclusive [OF this c] s show ?thesis by (auto simp: cores_exclusive_def)
  qed
qed

lemma createThread_exclusive:
  assumes "cores_exclusive sy" "createThread c sy = Inr (t, sy')"
  shows "cores_exclusive sy' \<and> length (sy_threads sy') = Suc (length (sy_threads sy))"
proof -
  let ?t = "int (length (sy_threads sy))" and ?sy1 = "sy\<lparr>sy_threads := sy_threads sy @ [new_thread]\<rparr>"
  have e: "cores_exclusive ?sy1" using assms(1)
    by (auto simp: cores_exclusive_def nth_append less_Suc_eq new_thread_def)
  have ok: "thread_ok ?t ?sy1" by (simp add: thread_ok_def)
  show ?thesis
  proof (cases "c = INVALID_CORE_ID")
    case True
    with assms(2) e show ?thesis by (auto simp: createThread_def Let_def)
  next
    case False
    with assms(2) obtain sy2 where c: "setCore ?t (Some c) ?sy1 = Inr sy2" and s: "sy' = set_core_state c INITIALIZING sy2"
      by (auto simp: createThread_def Let_def bindE_Inr_iff)
    have "length (sy_threads sy2) = Suc (length (sy_threads sy))" using c by (auto simp: setCore_def)
    with setCore_exclusive [OF e ok c] s show ?thesis by (auto simp: cores_exclusive_def)
  qed
qed



text \<open>The state after a join: the joiner is stalled and is the waiter of the thread it joins.\<close>

definition joined :: "thread_id \<Rightarrow> thread_id \<Rightarrow> sync_sys \<Rightarrow> sync_sys" where
  "joined t u sy = set_thread t (\<lambda>s. s\<lparr>ts_status := STALLED, ts_reason := STALL_JOIN, ts_msg := False\<rparr>) (set_waiter u t sy)"

lemma joinThread_joined:
  assumes "running t sy" "ts_core (thread t sy) \<noteq> None" "thread_ok u sy" "t \<noteq> u" "ts_waiter (thread u sy) = INVALID_THREAD_ID"
    "ts_status (thread u sy) \<in> {RUNNING, INITIALIZING}"
  shows "joinThread t u sy = Inr (Stalls, joined t u sy)"
proof -
  have okt: "thread_ok t sy" using assms(1) by (simp add: running_def)
  have "stallThread t STALL_JOIN (set_waiter u t sy) = Inr (joined t u sy)"
    using okt by (simp add: stallThread_Inr_iff set_waiter_def joined_def)
  with okt assms show ?thesis by (auto simp: joinThread_def with_thread_def)
qed

lemma joined_threads:
  assumes "running t sy" "thread_ok u sy" "t \<noteq> u"
  shows "thread u (joined t u sy) = (thread u sy)\<lparr>ts_waiter := t\<rparr>" "thread_ok u (joined t u sy)" "thread_ok t (joined t u sy)"
    "sy_core_time (joined t u sy) = sy_core_time sy" "t \<noteq> INVALID_THREAD_ID" "nat u \<noteq> nat t" "nat t \<noteq> nat u"
  using assms by (simp_all add: joined_def set_waiter_def running_def)
    (auto simp: set_thread_def thread_ok_def INVALID_THREAD_ID_def)

lemma exit_resumes_joiner:
  assumes "running t sy" "thread_ok u sy" "t \<noteq> u" "ts_core (thread u sy) = Some c"
    "ts_status (thread u sy) = RUNNING" "ts_clear_tid (thread u sy) = None"
  shows "\<exists>sy2. onThreadExit env u (joined t u sy) = Inr sy2 \<and> running t sy2 \<and>
    ts_wakeup (thread t sy2) = sy_core_time sy c \<and> ts_status (thread u sy2) = IDLE"
proof -
  note th = joined_threads [OF assms(1-3)]
  have okt: "thread_ok t sy" using assms(1) by (simp add: running_def)
  let ?sy2 = "set_thread u (\<lambda>s. s\<lparr>ts_status := IDLE\<rparr>) (joined t u sy)"
  let ?sy3 = "set_waiter u INVALID_THREAD_ID
    (set_thread t (\<lambda>s. s\<lparr>ts_wakeup := sy_core_time sy c, ts_msg := False, ts_status := RUNNING\<rparr>) ?sy2)"
  let ?sy4 = "set_thread u (\<lambda>s. s\<lparr>ts_core := None\<rparr>) (set_core_state c IDLE ?sy3)"
  have "resumeThread t (sy_core_time sy c) False ?sy2
      = Inr (set_thread t (\<lambda>s. s\<lparr>ts_wakeup := sy_core_time sy c, ts_msg := False, ts_status := RUNNING\<rparr>) ?sy2)"
    using th by (simp add: resumeThread_Inr_iff)
  then have w: "wakeUpWaiter u (sy_core_time sy c) ?sy2 = Inr ?sy3"
    using th okt assms(2,3) by (simp add: wakeUpWaiter_def Let_def)
  have t3: "thread u ?sy3 = (thread u sy)\<lparr>ts_status := IDLE, ts_waiter := INVALID_THREAD_ID\<rparr>"
    using th okt assms(2,3) by (simp add: set_waiter_def)
  have "onThreadExit env u (joined t u sy) = Inr ?sy4"
    using th w t3 assms(4-6) by (simp add: onThreadExit_def with_thread_def clear_tid_def setCore_def Let_def)
  moreover have "running t ?sy4 \<and> ts_wakeup (thread t ?sy4) = sy_core_time sy c \<and> ts_status (thread u ?sy4) = IDLE"
    using okt th(6,7) assms(2,3)
    by (simp add: joined_def running_def set_waiter_def thread_def thread_ok_def set_thread_def set_core_state_def nth_list_update)
  ultimately show ?thesis by blast
qed

lemma start_forgets_joiner:
  assumes "running t sy" "thread_ok u sy" "t \<noteq> u" "ts_core (thread u sy) = Some c"
  shows "\<exists>r sy2. onThreadStart u time (joined t u sy) = Inr (r, sy2) \<and>
    ts_wakeup (thread t sy2) = max time (sy_core_time sy c) \<and> ts_status (thread t sy2) = STALLED \<and>
    ts_reason (thread t sy2) = STALL_JOIN \<and> ts_waiter (thread u sy2) = INVALID_THREAD_ID"
proof -
  note th = joined_threads [OF assms(1-3)]
  have okt: "thread_ok t sy" using assms(1) by (simp add: running_def)
  let ?time = "max time (sy_core_time sy c)"
  let ?sy2 = "set_thread u (\<lambda>s. s\<lparr>ts_status := RUNNING\<rparr>)
    (set_core_state c RUNNING (set_thread u (\<lambda>s. s\<lparr>ts_status := RUNNING\<rparr>) (joined t u sy)))"
  let ?sy3 = "set_waiter u INVALID_THREAD_ID (thread_signal t ?time False ?sy2)"
  have ok2: "thread_ok t ?sy2" using th(3) by (simp add: thread_ok_def set_thread_def)
  have w2: "ts_waiter (thread u ?sy2) = t"
    using okt th(6,7) assms(2,3)
    by (simp add: joined_def thread_ok_def thread_def set_thread_def set_waiter_def set_core_state_def nth_list_update)
  have s: "signal_starter u ?time ?sy2 = Inr ?sy3"
    using ok2 w2 th(5) by (simp add: signal_starter_def with_thread_def Let_def)
  have "onThreadStart u time (joined t u sy) = Inr (Some (c, ?time), ?sy3)"
    using th s assms(4) by (simp add: onThreadStart_def with_thread_def Let_def) (simp add: set_thread_def set_core_state_def)
  moreover have "ts_wakeup (thread t ?sy3) = ?time \<and> ts_status (thread t ?sy3) = STALLED \<and>
       ts_reason (thread t ?sy3) = STALL_JOIN \<and> ts_waiter (thread u ?sy3) = INVALID_THREAD_ID"
    using okt th(6,7) assms(2,3)
    by (simp add: joined_def thread_ok_def thread_def set_thread_def set_waiter_def set_core_state_def thread_signal_def nth_list_update)
  ultimately show ?thesis by blast
qed



end
