(* ===== verification/Prefetchers.thy ===== *)
theory Prefetchers
  imports Prelude
begin

text \<open>
  The prefetchers of parametric_dram_directory_msi: simple_prefetcher.cc (linear strides in a number of flows) and
  ghb_prefetcher.cc (a global history buffer of address deltas). \<open>getNextAddress\<close> returns the addresses to prefetch.
\<close>

subsection \<open>Strides\<close>

record simple_prefetcher =
  sf_num_prefetches :: nat
  sf_stop_at_page :: bool
  sf_next :: nat
  sf_prev :: "addr list"

definition SimplePrefetcher :: "nat \<Rightarrow> nat \<Rightarrow> bool \<Rightarrow> simple_prefetcher" where
  "SimplePrefetcher flows num_prefetches stop_at_page =
     \<lparr>sf_num_prefetches = num_prefetches, sf_stop_at_page = stop_at_page, sf_next = 0, sf_prev = replicate flows 0\<rparr>"

definition SF_PAGE_SIZE :: addr where "SF_PAGE_SIZE = 4096"
definition SF_PAGE_MASK :: addr where "SF_PAGE_MASK = NOT (SF_PAGE_SIZE - 1)"

text \<open>\<open>abs\<close> is the function on \<open>int\<close>: the difference is cut to its low 32 bits, and the result extended.\<close>

definition abs_dist :: "addr \<Rightarrow> addr" where
  "abs_dist d = (let i = sint (ucast d :: u32) in scast (word_of_int \<bar>i\<bar> :: u32))"

primrec nearest_flow :: "addr \<Rightarrow> nat \<Rightarrow> addr list \<Rightarrow> nat \<times> addr \<Rightarrow> nat \<times> addr" where
  "nearest_flow a i [] best = best"
| "nearest_flow a i (p # ps) best =
     nearest_flow a (Suc i) ps (let dist = abs_dist (a - p) in if dist < snd best then (i, dist) else best)"

definition simple_addresses :: "addr \<Rightarrow> addr \<Rightarrow> simple_prefetcher \<Rightarrow> addr list" where
  "simple_addresses a stride s =
     filter (\<lambda>p. \<not> sf_stop_at_page s \<or> (p AND SF_PAGE_MASK) = (a AND SF_PAGE_MASK))
       (map (\<lambda>i. a + of_nat i * stride) [0..<sf_num_prefetches s])"

definition simple_getNextAddress :: "addr \<Rightarrow> simple_prefetcher \<Rightarrow> (addr list \<times> simple_prefetcher) res" where
  "simple_getNextAddress a s =
     (if sf_prev s = [] then Inl (Out_Of_Range ''% n_flows'')
      else
        (let n_flow = fst (nearest_flow a 0 (sf_prev s) (sf_next s, SF_PAGE_SIZE));
             stride = a - sf_prev s ! n_flow;
             s = s\<lparr>sf_next := (sf_next s + 1) mod length (sf_prev s), sf_prev := (sf_prev s)[n_flow := a]\<rparr> in
         Inr (if stride \<noteq> 0 then simple_addresses a stride s else [], s)))"

subsection \<open>The global history buffer\<close>

definition INVALID_DELTA :: u64 where "INVALID_DELTA = 0x7fffffffffffffff"
definition INVALID_INDEX :: u32 where "INVALID_INDEX = 0xffffffff"

record ghb_entry =
  ge_next :: u32
  ge_delta :: u64
  ge_generation :: u32

record table_entry =
  te_index :: u32
  te_delta :: u64
  te_generation :: u32

record ghb_prefetcher =
  gh_width :: nat
  gh_depth :: nat
  gh_last :: addr
  gh_head :: nat
  gh_generation :: u32
  gh_ghb :: "ghb_entry list"
  gh_table_head :: nat
  gh_table :: "table_entry list"

definition GHBEntry :: ghb_entry where
  "GHBEntry = \<lparr>ge_next = INVALID_INDEX, ge_delta = INVALID_DELTA, ge_generation = 0\<rparr>"

definition TableEntry :: table_entry where
  "TableEntry = \<lparr>te_index = INVALID_INDEX, te_delta = INVALID_DELTA, te_generation = 0\<rparr>"

definition GhbPrefetcher :: "nat \<Rightarrow> nat \<Rightarrow> nat \<Rightarrow> nat \<Rightarrow> ghb_prefetcher" where
  "GhbPrefetcher width depth ghb_size table_size =
     \<lparr>gh_width = width, gh_depth = depth, gh_last = INVALID_ADDRESS, gh_head = 0, gh_generation = 0,
      gh_ghb = replicate ghb_size GHBEntry, gh_table_head = 0, gh_table = replicate table_size TableEntry\<rparr>"

definition ghb_at :: "nat \<Rightarrow> ghb_prefetcher \<Rightarrow> ghb_entry res" where
  "ghb_at i g = (if i < length (gh_ghb g) then Inr (gh_ghb g ! i) else Inl (Out_Of_Range ''m_ghb''))"

text \<open>The search through the table stops at the delta or at an unused entry.\<close>

definition table_find :: "u64 \<Rightarrow> ghb_prefetcher \<Rightarrow> nat option" where
  "table_find delta g =
     (case find_first (\<lambda>e. te_delta e = INVALID_DELTA \<or> te_delta e = delta) (gh_table g) of
        None \<Rightarrow> None
      | Some i \<Rightarrow> if te_delta (gh_table g ! i) = delta then Some i else None)"

primrec depth_loop :: "nat \<Rightarrow> u32 \<Rightarrow> u32 \<Rightarrow> addr \<Rightarrow> addr list \<Rightarrow> ghb_prefetcher \<Rightarrow> addr list res" where
  "depth_loop 0 depth index a out g = Inr out"
| "depth_loop (Suc n) depth index a out g =
     bindE (ghb_at (unat (index + depth) mod length (gh_ghb g)) g) (\<lambda>e.
     if ge_delta e = INVALID_DELTA then Inr out
     else let a = a + ge_delta e in
       depth_loop n (depth + 1) index a (if a \<in> set out then out else out @ [a]) g)"

primrec width_loop :: "nat \<Rightarrow> u32 \<Rightarrow> addr \<Rightarrow> addr list \<Rightarrow> ghb_prefetcher \<Rightarrow> addr list res" where
  "width_loop 0 index a out g = Inr out"
| "width_loop (Suc n) index a out g =
     (if index = INVALID_INDEX then Inr out
      else
        bindE (depth_loop (gh_depth g) 0 index a out g) (\<lambda>out.
        bindE (ghb_at (unat index) g) (\<lambda>e.
        width_loop n
          (if (ge_next e > index \<or> unat index > gh_head g) \<and> unat (ge_next e) < gh_head g then INVALID_INDEX else ge_next e)
          a out g)))"

text \<open>A table entry is live if the buffer's entry is still of the generation it was made in.\<close>

definition entry_live :: "table_entry \<Rightarrow> ghb_prefetcher \<Rightarrow> bool res" where
  "entry_live t g = bindE (ghb_at (unat (te_index t)) g) (\<lambda>e. Inr (te_generation t = ge_generation e))"

definition ghb_list :: "u64 \<Rightarrow> addr \<Rightarrow> ghb_prefetcher \<Rightarrow> addr list res" where
  "ghb_list delta a g =
     (case table_find delta g of
        None \<Rightarrow> Inr []
      | Some i \<Rightarrow>
          bindE (entry_live (gh_table g ! i) g) (\<lambda>live.
          if live then width_loop (gh_width g) (te_index (gh_table g ! i)) a [] g else Inr []))"

definition ghb_link :: "u64 \<Rightarrow> ghb_prefetcher \<Rightarrow> ghb_prefetcher res" where
  "ghb_link prev_delta g =
     (let new = \<lparr>te_index = of_nat (gh_head g), te_delta = prev_delta, te_generation = gh_generation g\<rparr> in
      case table_find prev_delta g of
        Some i \<Rightarrow>
          bindE (entry_live (gh_table g ! i) g) (\<lambda>live.
          let index = (if live then te_index (gh_table g ! i) else INVALID_INDEX) in
          Inr (g\<lparr>gh_ghb := (gh_ghb g)[gh_head g := (gh_ghb g ! gh_head g)\<lparr>ge_next := index\<rparr>],
                 gh_table := (gh_table g)[i := new]\<rparr>))
      | None \<Rightarrow>
          if gh_table g = [] then Inl (Out_Of_Range ''m_ghbTable'')
          else Inr (g\<lparr>gh_table := (gh_table g)[gh_table_head g := new],
                      gh_table_head := (gh_table_head g + 1) mod length (gh_table g)\<rparr>))"

definition ghb_advance :: "ghb_prefetcher \<Rightarrow> ghb_prefetcher" where
  "ghb_advance g =
     (if gh_head g + 1 = length (gh_ghb g)
      then g\<lparr>gh_head := 0, gh_generation := (gh_generation g + 1) mod 4\<rparr> else g\<lparr>gh_head := gh_head g + 1\<rparr>)"

definition ghb_add :: "u64 \<Rightarrow> ghb_prefetcher \<Rightarrow> ghb_prefetcher" where
  "ghb_add delta g = g\<lparr>gh_ghb := (gh_ghb g)[gh_head g :=
     \<lparr>ge_next = INVALID_INDEX, ge_delta = delta, ge_generation = gh_generation g\<rparr>]\<rparr>"

definition ghb_prevDelta :: "ghb_prefetcher \<Rightarrow> u64" where
  "ghb_prevDelta g = ge_delta (gh_ghb g ! (if 0 < gh_head g then gh_head g - 1 else length (gh_ghb g) - 1))"

definition ghb_update :: "u64 \<Rightarrow> ghb_prefetcher \<Rightarrow> ghb_prefetcher res" where
  "ghb_update delta g =
     (if \<not> gh_head g < length (gh_ghb g) then Inl (Out_Of_Range ''m_ghb'')
      else
        (let g = ghb_add delta g; prev_delta = ghb_prevDelta g in
         bindE (if prev_delta \<noteq> INVALID_DELTA then ghb_link prev_delta g else Inr g) (\<lambda>g. Inr (ghb_advance g))))"

definition ghb_getNextAddress :: "addr \<Rightarrow> ghb_prefetcher \<Rightarrow> (addr list \<times> ghb_prefetcher) res" where
  "ghb_getNextAddress a g =
     (if gh_last g = INVALID_ADDRESS then Inr ([], g\<lparr>gh_last := a\<rparr>)
      else
        (let delta = a - gh_last g; g = g\<lparr>gh_last := a\<rparr> in
         bindE (ghb_list delta a g) (\<lambda>out. bindE (ghb_update delta g) (\<lambda>g. Inr (out, g)))))"

subsection \<open>Prefetchers\<close>

datatype prefetcher = Simple simple_prefetcher | Ghb ghb_prefetcher

definition getNextAddress :: "addr \<Rightarrow> prefetcher \<Rightarrow> (addr list \<times> prefetcher) res" where
  "getNextAddress a p =
     (case p of
        Simple s \<Rightarrow> bindE (simple_getNextAddress a s) (\<lambda>(out, s). Inr (out, Simple s))
      | Ghb g \<Rightarrow> bindE (ghb_getNextAddress a g) (\<lambda>(out, g). Inr (out, Ghb g)))"

text \<open>The configuration gives the parameters of both.\<close>

definition createPrefetcher :: "string \<Rightarrow> simple_prefetcher \<Rightarrow> ghb_prefetcher \<Rightarrow> prefetcher option res" where
  "createPrefetcher type s g =
     (if type = ''none'' then Inr None
      else if type = ''simple'' then Inr (Some (Simple s))
      else if type = ''ghb'' then Inr (Some (Ghb g))
      else Inl (Log_Error ''Invalid prefetcher type''))"

end
