(* ===== verification/Cache_Atd.thy ===== *)
theory Cache_Atd
  imports Cache_Props
begin

text \<open>
  parametric_dram_directory_msi/cache_atd.cc: auxiliary tag directories, which follow what a private cache of the same
  geometry would hold in a sample of the sets of a shared cache. The sampled sets are a map from set indexes; they have no
  data and no hit statistics object.
\<close>

record atd_stats =
  as_loads :: u64
  as_stores :: u64
  as_load_misses :: u64
  as_store_misses :: u64
  as_loads_constructive :: u64
  as_stores_constructive :: u64
  as_loads_destructive :: u64
  as_stores_destructive :: u64

record atd =
  at_base :: cache_base
  at_sets :: "u32 \<Rightarrow> cache_set option"
  at_stats :: atd_stats

definition no_stats :: atd_stats where
  "no_stats = \<lparr>as_loads = 0, as_stores = 0, as_load_misses = 0, as_store_misses = 0, as_loads_constructive = 0,
     as_stores_constructive = 0, as_loads_destructive = 0, as_stores_destructive = 0\<rparr>"

text \<open>The indexes of the sampled sets. The loop \<open>1, 2, 4, ...\<close> runs below \<open>num_sets - 1\<close>, a 32-bit difference, and
  shifts a 64-bit number.\<close>

primrec doubled_sets :: "nat \<Rightarrow> u64 \<Rightarrow> u64 \<Rightarrow> u32 list" where
  "doubled_sets 0 set_index bound = []"
| "doubled_sets (Suc n) set_index bound =
     (if set_index < bound then ucast (set_index + 1) # doubled_sets n (push_bit 1 set_index) bound else [])"

primrec random_sets :: "nat \<Rightarrow> u64 \<Rightarrow> nat \<Rightarrow> nat \<Rightarrow> u32 list \<Rightarrow> u64 \<Rightarrow> u32 list res" where
  "random_sets 0 num_sets num_atds attempts chosen state =
     (if num_atds = 0 then Inr chosen else Inl (Assert_Failed ''Cound not find unique ATD sets''))"
| "random_sets (Suc n) num_sets num_atds attempts chosen state =
     (if num_atds = 0 then Inr chosen
      else if num_sets = 0 then Inl (Out_Of_Range ''% num_sets'')
      else
        let (r, state) = rng_next state; i = ucast (r mod num_sets);
            new = i \<notin> set chosen in
        assertE (of_nat (attempts + 1) < 10 * (ucast num_sets :: u32)) ''Cound not find unique ATD sets''
          (random_sets n num_sets (if new then num_atds - 1 else num_atds) (attempts + 1)
             (if new then chosen @ [i] else chosen) state))"

definition sampled_sets :: "string \<Rightarrow> u64 \<Rightarrow> nat \<Rightarrow> u32 \<Rightarrow> u32 list res" where
  "sampled_sets sampling seed num_atds num_sets =
     (if sampling = ''full'' then Inr (map of_nat [0..<unat num_sets])
      else if sampling = ''2^n+1'' then Inr (doubled_sets 64 1 (ucast (num_sets - 1)))
      else if sampling = ''random'' then
        assertE (num_atds \<le> unat num_sets) ''Cannot sample more sets than the total number of sets''
          (random_sets (10 * unat num_sets + 1) (ucast num_sets) num_atds 0 [] (rng_seed seed))
      else Inl (Log_Error ''Invalid ATD sampling method''))"

text \<open>The \<open>k\<close>th set built reads the \<open>k\<close>th seed of the random policy.\<close>

primrec create_sets :: "cache_env \<Rightarrow> string \<Rightarrow> nat \<Rightarrow> u32 list \<Rightarrow> nat \<Rightarrow> (u32 \<Rightarrow> cache_set option) res" where
  "create_sets env policy associativity [] k = Inr Map.empty"
| "create_sets env policy associativity (i # is) k =
     bindE (createCacheSet env policy PR_L1_CACHE associativity 0 k) (\<lambda>s.
     bindE (create_sets env policy associativity is (Suc k)) (\<lambda>m. Inr (m(i := Some (case m i of Some t \<Rightarrow> t | None \<Rightarrow> s)))))"

definition ATD :: "cache_env \<Rightarrow> string \<Rightarrow> string \<Rightarrow> u64 \<Rightarrow> nat \<Rightarrow> u32 \<Rightarrow> u32 \<Rightarrow> u32 \<Rightarrow> string \<Rightarrow> hash_t \<Rightarrow> atd res" where
  "ATD env name sampling seed num_atds cache_size associativity cache_block_size policy hash =
     bindE (CacheBase name cache_size associativity cache_block_size hash None) (\<lambda>cb.
     bindE (sampled_sets sampling seed num_atds (m_num_sets cb)) (\<lambda>is.
     bindE (create_sets env policy (unat associativity) is 0) (\<lambda>m.
     Inr \<lparr>at_base = cb, at_sets = m, at_stats = no_stats\<rparr>)))"

definition isSampledSet :: "u32 \<Rightarrow> atd \<Rightarrow> bool" where
  "isSampledSet set_index d \<longleftrightarrow> at_sets d set_index \<noteq> None"

definition count_access :: "mem_op_t \<Rightarrow> bool \<Rightarrow> bool \<Rightarrow> atd_stats \<Rightarrow> atd_stats" where
  "count_access mem_op_type cache_hit atd_hit s =
     (let s = (if mem_op_type = MEM_WRITE
               then s\<lparr>as_stores := as_stores s + 1, as_store_misses := as_store_misses s + (if atd_hit then 0 else 1)\<rparr>
               else s\<lparr>as_loads := as_loads s + 1, as_load_misses := as_load_misses s + (if atd_hit then 0 else 1)\<rparr>) in
      if cache_hit \<and> \<not> atd_hit then
        (if mem_op_type = MEM_WRITE then s\<lparr>as_stores_constructive := as_stores_constructive s + 1\<rparr>
         else s\<lparr>as_loads_constructive := as_loads_constructive s + 1\<rparr>)
      else if \<not> cache_hit \<and> atd_hit then
        (if mem_op_type = MEM_WRITE then s\<lparr>as_stores_destructive := as_stores_destructive s + 1\<rparr>
         else s\<lparr>as_loads_destructive := as_loads_destructive s + 1\<rparr>)
      else s)"

definition atd_touch :: "addr \<Rightarrow> cache_set \<Rightarrow> (bool \<times> cache_set) res" where
  "atd_touch tag s =
     (case find_tag tag s of
        Some line_index \<Rightarrow> bindE (set_update_replacement line_index (None, s)) (\<lambda>(_, s). Inr (True, s))
      | None \<Rightarrow>
          bindE (set_insert (CacheBlockInfo PrL1Block tag MODIFIED 0) None (CacheBlockInfo PrL1Block (-1) INVALID 0) False s)
            (\<lambda>(_, _, _, s). Inr (False, s)))"

definition atd_access :: "mem_op_t \<Rightarrow> bool \<Rightarrow> addr \<Rightarrow> atd \<Rightarrow> atd res" where
  "atd_access mem_op_type cache_hit address d =
     bindE (splitAddress (at_base d) address) (\<lambda>(tag, set_index).
     case at_sets d set_index of
       None \<Rightarrow> Inr d
     | Some s \<Rightarrow>
         bindE (atd_touch tag s) (\<lambda>(atd_hit, s).
         Inr (d\<lparr>at_sets := (at_sets d)(set_index := Some s), at_stats := count_access mem_op_type cache_hit atd_hit (at_stats d)\<rparr>)))"

end
