(* ===== verification/Prefetch_Props.thy ===== *)
theory Prefetch_Props
  imports Prefetchers Cache_Atd
begin

text \<open>
  The global history buffer keeps its indexes within the buffer, and the addresses to prefetch are distinct and bounded by
  the width times the depth.
\<close>

definition ghb_wf :: "ghb_prefetcher \<Rightarrow> bool" where
  "ghb_wf g \<longleftrightarrow>
     gh_head g < length (gh_ghb g) \<and> length (gh_ghb g) < 2 ^ 32 \<and> gh_table_head g < length (gh_table g) \<and>
     (\<forall>e \<in> set (gh_ghb g). ge_next e \<noteq> INVALID_INDEX \<longrightarrow> unat (ge_next e) < length (gh_ghb g)) \<and>
     (\<forall>t \<in> set (gh_table g). te_delta t \<noteq> INVALID_DELTA \<longrightarrow> unat (te_index t) < length (gh_ghb g))"

lemma depth_loop_spec:
  assumes "gh_ghb g \<noteq> []" "distinct out"
  shows "\<exists>out'. depth_loop n depth index a out g = Inr out' \<and> distinct out' \<and> length out' \<le> length out + n"
  using assms(2)
proof (induction n arbitrary: depth a out)
  case (Suc n)
  define e where "e = gh_ghb g ! (unat (index + depth) mod length (gh_ghb g))"
  have e: "ghb_at (unat (index + depth) mod length (gh_ghb g)) g = Inr e"
    using assms(1) by (simp add: ghb_at_def e_def)
  let ?a = "a + ge_delta e" and ?out = "if a + ge_delta e \<in> set out then out else out @ [a + ge_delta e]"
  have "distinct ?out" using Suc.prems by simp
  then obtain out' where "depth_loop n (depth + 1) index ?a ?out g = Inr out'" "distinct out'" "length out' \<le> length ?out + n"
    using Suc.IH by blast
  then show ?case using Suc.prems by (auto simp: e Let_def split: if_splits)
qed simp

lemma width_loop_spec:
  assumes "ghb_wf g" "distinct out" "index = INVALID_INDEX \<or> unat index < length (gh_ghb g)"
  shows "\<exists>out'. width_loop n index a out g = Inr out' \<and> distinct out' \<and> length out' \<le> length out + n * gh_depth g"
  using assms(2,3)
proof (induction n arbitrary: index out)
  case (Suc n)
  show ?case
  proof (cases "index = INVALID_INDEX")
    case False
    have "gh_ghb g \<noteq> []" using assms(1) by (auto simp: ghb_wf_def)
    then obtain o1 where o1: "depth_loop (gh_depth g) 0 index a out g = Inr o1" "distinct o1" "length o1 \<le> length out + gh_depth g"
      using depth_loop_spec Suc.prems(1) by blast
    define e where "e = gh_ghb g ! unat index"
    have i: "unat index < length (gh_ghb g)" using Suc.prems(2) False by simp
    then have e: "ghb_at (unat index) g = Inr e" "e \<in> set (gh_ghb g)" by (simp_all add: ghb_at_def e_def)
    define j where "j = (if (ge_next e > index \<or> unat index > gh_head g) \<and> unat (ge_next e) < gh_head g then INVALID_INDEX else ge_next e)"
    have "j = INVALID_INDEX \<or> unat j < length (gh_ghb g)" using e(2) assms(1) by (auto simp: j_def ghb_wf_def)
    then obtain o2 where "width_loop n j a o1 g = Inr o2" "distinct o2" "length o2 \<le> length o1 + n * gh_depth g"
      using Suc.IH o1(2) by blast
    then show ?thesis using False o1 e(1) by (simp add: j_def)
  qed (simp add: Suc.prems)
qed simp

lemma table_find_Some:
  assumes "table_find delta g = Some i"
  shows "i < length (gh_table g)" "te_delta (gh_table g ! i) = delta"
  using assms by (auto simp: table_find_def dest: find_first_SomeD split: option.splits if_splits)

lemma entry_live_total:
  assumes "ghb_wf g" "table_find delta g = Some i" "delta \<noteq> INVALID_DELTA"
  shows "unat (te_index (gh_table g ! i)) < length (gh_ghb g)" "\<exists>b. entry_live (gh_table g ! i) g = Inr b"
proof -
  show "unat (te_index (gh_table g ! i)) < length (gh_ghb g)"
    using assms table_find_Some [OF assms(2)] by (auto simp: ghb_wf_def)
  then show "\<exists>b. entry_live (gh_table g ! i) g = Inr b" by (simp add: entry_live_def ghb_at_def)
qed

lemma ghb_list_spec:
  assumes "ghb_wf g" "delta \<noteq> INVALID_DELTA"
  shows "\<exists>out. ghb_list delta a g = Inr out \<and> distinct out \<and> length out \<le> gh_width g * gh_depth g"
proof (cases "table_find delta g")
  case (Some i)
  obtain b where b: "entry_live (gh_table g ! i) g = Inr b" using entry_live_total [OF assms(1) Some assms(2)] by blast
  have "\<exists>out'. width_loop (gh_width g) (te_index (gh_table g ! i)) a [] g = Inr out' \<and> distinct out' \<and>
      length out' \<le> length ([] :: addr list) + gh_width g * gh_depth g"
    by (rule width_loop_spec) (use assms entry_live_total [OF assms(1) Some assms(2)] in auto)
  then show ?thesis using Some b by (auto simp: ghb_list_def)
qed (simp add: ghb_list_def)

lemma ghb_wf_add: "ghb_wf g \<Longrightarrow> ghb_wf (ghb_add delta g)"
  by (auto simp: ghb_wf_def ghb_add_def dest!: set_update_subset_insert [THEN subsetD])

lemma ghb_link_spec:
  assumes "ghb_wf g" "delta \<noteq> INVALID_DELTA"
  shows "\<exists>g'. ghb_link delta g = Inr g' \<and> ghb_wf g' \<and> gh_width g' = gh_width g \<and> gh_depth g' = gh_depth g"
proof -
  have h: "unat (of_nat (gh_head g) :: u32) < length (gh_ghb g)"
    using assms(1) by (simp add: ghb_wf_def unat_of_nat)
  show ?thesis
  proof (cases "table_find delta g")
    case None
    then show ?thesis using assms h
      by (auto simp: ghb_link_def ghb_wf_def dest!: set_update_subset_insert [THEN subsetD])
  next
    case (Some i)
    obtain b where b: "entry_live (gh_table g ! i) g = Inr b" "unat (te_index (gh_table g ! i)) < length (gh_ghb g)"
      using entry_live_total [OF assms(1) Some assms(2)] by blast
    then show ?thesis using assms h Some
      by (auto simp: ghb_link_def ghb_wf_def Let_def dest!: set_update_subset_insert [THEN subsetD])
  qed
qed

lemma ghb_advance_wf [simp]: "ghb_wf g \<Longrightarrow> ghb_wf (ghb_advance g)"
  by (auto simp: ghb_advance_def ghb_wf_def)

lemma ghb_advance_sel [simp]:
  "gh_width (ghb_advance g) = gh_width g" "gh_depth (ghb_advance g) = gh_depth g"
  by (simp_all add: ghb_advance_def)

lemma ghb_update_spec:
  assumes "ghb_wf g"
  shows "\<exists>g'. ghb_update delta g = Inr g' \<and> ghb_wf g'"
proof -
  have w: "ghb_wf (ghb_add delta g)" using assms by (rule ghb_wf_add)
  moreover have "gh_head g < length (gh_ghb g)" using assms by (simp add: ghb_wf_def)
  ultimately show ?thesis
    using ghb_link_spec [OF w, of "ghb_prevDelta (ghb_add delta g)"]
    by (cases "ghb_prevDelta (ghb_add delta g) = INVALID_DELTA") (auto simp: ghb_update_def Let_def)
qed

text \<open>C39. The global history buffer prefetcher stays well-formed (its head, its table's head and every link within the buffers)
  and, on every access whose distance from the previous one is not INT64_MAX, returns without an out-of-range read, with
  distinct addresses, at most the configured width times the depth.\<close>

theorem ghb_prefetches_bounded:
  assumes "ghb_wf g" "a - gh_last g \<noteq> INVALID_DELTA"
  shows "\<exists>out g'. ghb_getNextAddress a g = Inr (out, g') \<and> ghb_wf g' \<and> distinct out \<and>
           length out \<le> gh_width g * gh_depth g"
proof (cases "gh_last g = INVALID_ADDRESS")
  case True
  then show ?thesis using assms by (simp add: ghb_getNextAddress_def ghb_wf_def)
next
  case False
  let ?g = "g\<lparr>gh_last := a\<rparr>"
  have w: "ghb_wf ?g" using assms(1) by (simp add: ghb_wf_def)
  then obtain out where out: "ghb_list (a - gh_last g) a ?g = Inr out" "distinct out" "length out \<le> gh_width g * gh_depth g"
    using ghb_list_spec [OF _ assms(2), of ?g a] by auto
  moreover obtain g' where "ghb_update (a - gh_last g) ?g = Inr g'" "ghb_wf g'" using ghb_update_spec [OF w] by blast
  ultimately show ?thesis using False by (simp add: ghb_getNextAddress_def Let_def)
qed

definition example_ghb :: ghb_prefetcher where "example_ghb = (GhbPrefetcher 2 2 4 4)\<lparr>gh_last := 0\<rparr>"

lemma example_ghb_wf: "ghb_wf example_ghb" "gh_last example_ghb = 0" "gh_width example_ghb = 2" "gh_depth example_ghb = 2"
  by (simp_all add: example_ghb_def ghb_wf_def GhbPrefetcher_def GHBEntry_def TableEntry_def)

theorem ghb_prefetches_bounded_witness:
  "\<exists>out g'. ghb_getNextAddress 64 example_ghb = Inr (out, g') \<and> ghb_wf g' \<and> distinct out \<and> length out \<le> 4"
  using ghb_prefetches_bounded [OF example_ghb_wf(1), of 64] by (simp add: example_ghb_wf INVALID_DELTA_def)

lemma set_insert_finds:
  assumes "set_insert b fill evb want s = Inr (ev, evb', buf, s')" "cs_repl s = Lru bits"
  shows "\<exists>i bits'. find_tag (m_tag b) s' = Some i \<and> cs_repl s' = Lru bits'"
proof -
  from assms obtain i bits' where i: "i < length (cs_blocks s)" "cs_blocks s' = (cs_blocks s)[i := clone (cs_blocks s ! i) b]"
    "cs_repl s' = Lru bits'"
    by (auto simp: set_insert_def map_repl_def bindE_Inr_iff Let_def split: if_splits)
  have "find_tag (m_tag b) s' \<noteq> None"
    using i by (auto simp: find_tag_def find_last_None_iff intro!: bexI [of _ "clone (cs_blocks s ! i) b"] set_update_memI)
  with i(3) show ?thesis by auto
qed

text \<open>C40. An auxiliary tag directory with LRU sets fails on the second access to any sampled address: the first inserts the tag,
  and the hit increments a counter of the statistics object, which the sampled sets are created without (null).\<close>

theorem atd_repeated_access_fails:
  assumes "splitAddress (at_base d) a = Inr (tag, i)" "at_sets d i = Some s" "cs_repl s = Lru bits"
    "atd_access op cache_hit a d = Inr d'"
  shows "atd_access op' cache_hit' a d' = Inl (Null_Pointer ''m_set_info'')"
proof -
  have hit: "atd_touch tag t = Inl (Null_Pointer ''m_set_info'')" if "find_tag tag t = Some k" "cs_repl t = Lru l" for t k l
    using that by (simp add: atd_touch_def set_update_replacement_def lru_updateReplacementIndex_def set_info_increment_def)
  have none: "find_tag tag s = None"
    using assms hit [of s] by (cases "find_tag tag s") (auto simp: atd_access_def)
  then obtain h s' where t: "atd_touch tag s = Inr (h, s')" "d' = d\<lparr>at_sets := (at_sets d)(i := Some s'),
      at_stats := count_access op cache_hit h (at_stats d)\<rparr>"
    using assms by (auto simp: atd_access_def bindE_Inr_iff)
  then obtain k l where "find_tag tag s' = Some k" "cs_repl s' = Lru l"
    using none set_insert_finds [OF _ assms(3)] by (fastforce simp: atd_touch_def bindE_Inr_iff CacheBlockInfo_def)
  then show ?thesis using t(2) assms(1) hit by (simp add: atd_access_def)
qed

definition example_atd_base :: cache_base where
  "example_atd_base = \<lparr>cb_name = ''L2'', m_cache_size = 256, m_associativity = 2, m_blocksize = 64, m_hash = HASH_MASK,
     m_num_sets = 2, m_ahl = None, m_log_blocksize = 6\<rparr>"

definition example_atd_set :: cache_set where
  "example_atd_set = \<lparr>cs_blocks = replicate 2 (CacheBlockInfo PrL1Block (-1) INVALID 0), cs_data = None, cs_blocksize = 0,
     cs_repl = Lru (lru_init 2)\<rparr>"

definition example_atd :: atd where
  "example_atd = \<lparr>at_base = example_atd_base, at_sets = [0 \<mapsto> example_atd_set, 1 \<mapsto> example_atd_set], at_stats = no_stats\<rparr>"

lemma example_atd_set_created:
  "createCacheSet \<lparr>env_fault = False, env_srrip_bits = 2, env_seed = (\<lambda>k. 42)\<rparr> ''lru'' PR_L1_CACHE 2 0 0 = Inr example_atd_set"
  by (simp add: createCacheSet_def parsePolicyType_def CacheSet_def example_atd_set_def)

lemma example_atd_split: "splitAddress example_atd_base 0x1040 = Inr (0x41, 1)"
  by (simp add: splitAddress_def example_atd_base_def hash_set_index_def)

lemma example_atd_insert: "\<not> isl (atd_access MEM_READ False 0x1040 example_atd)"
  by (simp add: atd_access_def example_atd_def example_atd_split) code_simp

theorem atd_repeated_access_fails_witness:
  "\<exists>d'. atd_access MEM_READ False 0x1040 example_atd = Inr d' \<and>
     atd_access MEM_WRITE True 0x1040 d' = Inl (Null_Pointer ''m_set_info'')"
proof -
  obtain d' where d: "atd_access MEM_READ False 0x1040 example_atd = Inr d'"
    using example_atd_insert by (cases "atd_access MEM_READ False 0x1040 example_atd") simp_all
  have "atd_access MEM_WRITE True 0x1040 d' = Inl (Null_Pointer ''m_set_info'')"
    by (rule atd_repeated_access_fails [of example_atd "0x1040" "0x41" 1 example_atd_set "lru_init 2", OF _ _ _ d])
      (simp_all add: example_atd_def example_atd_split example_atd_set_def)
  with d show ?thesis by blast
qed

end
