(* ===== verification/Dram.thy ===== *)
theory Dram
  imports Nuca
begin

text \<open>
  DRAM: the controller (pr_l1_pr_l2_dram_directory_msi/dram_cntlr.cc), the cache in front of it (dram/dram_cache.cc), the
  messages of the tag directory (dram/dram_cntlr_interface.cc) and the three timing models
  (common/performance_model/dram_perf_model_*.cc).

  Bandwidths are in bits per microsecond. The costs drawn by the normal model come from a generator of the C++ library and
  are a sequence. Contents are kept only when there is a fault injection manager.
\<close>

datatype dram_access_t = DRAM_READ | DRAM_WRITE

record dram_env =
  de_queue :: queue_env
  de_global_time :: time
  de_app_cores :: core_id
  de_fault :: bool

subsection \<open>Timing models\<close>

record dram_constant =
  mk_enabled :: bool
  mk_num_accesses :: u64
  mk_queue :: "queue_model option"
  mk_access_cost :: time
  mk_bandwidth :: u64
  mk_total_queueing :: time
  mk_total_latency :: time

record dram_normal =
  mn_enabled :: bool
  mn_num_accesses :: u64
  mn_queue :: "queue_model option"
  mn_costs :: "nat \<Rightarrow> time"
  mn_drawn :: nat
  mn_bandwidth :: u64
  mn_total_queueing :: time
  mn_total_latency :: time

record dram_readwrite =
  mw_enabled :: bool
  mw_num_accesses :: u64
  mw_queues :: "(queue_model \<times> queue_model) option"
  mw_access_cost :: time
  mw_bandwidth :: u64
  mw_shared :: bool
  mw_total_read_queueing :: time
  mw_total_write_queueing :: time
  mw_total_latency :: time

datatype dram_model = DramConstant dram_constant | DramNormal dram_normal | DramReadWrite dram_readwrite

text \<open>The queue model of the configuration, when queues are enabled.\<close>

definition dram_queue :: "queue_env \<Rightarrow> string option \<Rightarrow> u64 \<Rightarrow> u32 \<Rightarrow> queue_model option res" where
  "dram_queue qenv queue_type bandwidth cache_block_size =
     (case queue_type of None \<Rightarrow> Inr None
      | Some ty \<Rightarrow> bindE (bw_getRoundedLatency bandwidth (ucast (8 * cache_block_size))) (\<lambda>t.
          bindE (queue_create qenv ty t) (\<lambda>q. Inr (Some q))))"

definition DramPerfModelConstant :: "queue_env \<Rightarrow> string option \<Rightarrow> u64 \<Rightarrow> time \<Rightarrow> u32 \<Rightarrow> dram_constant res" where
  "DramPerfModelConstant qenv queue_type bandwidth cost cache_block_size =
     bindE (dram_queue qenv queue_type bandwidth cache_block_size) (\<lambda>q.
     Inr \<lparr>mk_enabled = False, mk_num_accesses = 0, mk_queue = q, mk_access_cost = cost, mk_bandwidth = bandwidth,
          mk_total_queueing = 0, mk_total_latency = 0\<rparr>)"

definition DramPerfModelNormal :: "queue_env \<Rightarrow> string option \<Rightarrow> u64 \<Rightarrow> (nat \<Rightarrow> time) \<Rightarrow> u32 \<Rightarrow> dram_normal res" where
  "DramPerfModelNormal qenv queue_type bandwidth costs cache_block_size =
     bindE (dram_queue qenv queue_type bandwidth cache_block_size) (\<lambda>q.
     Inr \<lparr>mn_enabled = False, mn_num_accesses = 0, mn_queue = q, mn_costs = costs, mn_drawn = 0, mn_bandwidth = bandwidth,
          mn_total_queueing = 0, mn_total_latency = 0\<rparr>)"

definition DramPerfModelReadWrite :: "queue_env \<Rightarrow> string option \<Rightarrow> u64 \<Rightarrow> time \<Rightarrow> bool \<Rightarrow> u32 \<Rightarrow> dram_readwrite res" where
  "DramPerfModelReadWrite qenv queue_type bandwidth cost shared cache_block_size =
     bindE (dram_queue qenv queue_type bandwidth cache_block_size) (\<lambda>r.
     bindE (dram_queue qenv queue_type bandwidth cache_block_size) (\<lambda>w.
     Inr \<lparr>mw_enabled = False, mw_num_accesses = 0,
          mw_queues = (case (r, w) of (Some r, Some w) \<Rightarrow> Some (r, w) | _ \<Rightarrow> None), mw_access_cost = cost,
          mw_bandwidth = bandwidth, mw_shared = shared, mw_total_read_queueing = 0, mw_total_write_queueing = 0,
          mw_total_latency = 0\<rparr>))"

text \<open>\<open>cost\<close> is the configured latency, \<open>costs\<close> what the distribution of the normal model draws.\<close>

definition createDramPerfModel ::
  "queue_env \<Rightarrow> string \<Rightarrow> string option \<Rightarrow> u64 \<Rightarrow> time \<Rightarrow> (nat \<Rightarrow> time) \<Rightarrow> bool \<Rightarrow> u32 \<Rightarrow> dram_model res" where
  "createDramPerfModel qenv type queue_type bandwidth cost costs shared cache_block_size =
     (if type = ''constant''
      then bindE (DramPerfModelConstant qenv queue_type bandwidth cost cache_block_size) (\<lambda>m. Inr (DramConstant m))
      else if type = ''readwrite''
      then bindE (DramPerfModelReadWrite qenv queue_type bandwidth cost shared cache_block_size) (\<lambda>m. Inr (DramReadWrite m))
      else if type = ''normal''
      then bindE (DramPerfModelNormal qenv queue_type bandwidth costs cache_block_size) (\<lambda>m. Inr (DramNormal m))
      else Inl (Log_Error ''Invalid DRAM model type''))"

text \<open>The delay in a queue, none without one.\<close>

definition queue_delay :: "dram_env \<Rightarrow> time \<Rightarrow> time \<Rightarrow> queue_model option \<Rightarrow> (time \<times> queue_model option) res" where
  "queue_delay env pkt_time processing_time q =
     (case q of None \<Rightarrow> Inr (0, None)
      | Some m \<Rightarrow> bindE (computeQueueDelay (de_queue env) (de_global_time env) pkt_time processing_time m) (\<lambda>(d, m). Inr (d, Some m)))"

definition dram_account :: "nat option \<Rightarrow> time \<Rightarrow> time \<Rightarrow> time \<Rightarrow> time \<Rightarrow> perf_store \<Rightarrow> perf_store" where
  "dram_account perf pkt_time delay processing_time cost ps =
     (let ps = updateTime perf pkt_time R_UNKNOWN ps;
          ps = updateTime perf (pkt_time + delay) R_DRAM_QUEUE ps;
          ps = updateTime perf (pkt_time + delay + processing_time) R_DRAM_BUS ps
      in updateTime perf (pkt_time + delay + processing_time + cost) R_DRAM_DEVICE ps)"

definition constant_getAccessLatency ::
  "dram_env \<Rightarrow> time \<Rightarrow> u64 \<Rightarrow> core_id \<Rightarrow> nat option \<Rightarrow> dram_constant \<times> perf_store \<Rightarrow>
     (time \<times> dram_constant \<times> perf_store) res" where
  "constant_getAccessLatency env pkt_time pkt_size requester perf = (\<lambda>(m, ps).
     if \<not> mk_enabled m \<or> requester \<ge> de_app_cores env then Inr (0, m, ps)
     else
       bindE (bw_getRoundedLatency (mk_bandwidth m) (8 * pkt_size)) (\<lambda>processing_time.
       bindE (queue_delay env pkt_time processing_time (mk_queue m)) (\<lambda>(delay, q).
       let access_latency = delay + processing_time + mk_access_cost m in
       Inr (access_latency,
            m\<lparr>mk_queue := q, mk_num_accesses := mk_num_accesses m + 1, mk_total_latency := mk_total_latency m + access_latency,
              mk_total_queueing := mk_total_queueing m + delay\<rparr>,
            dram_account perf pkt_time delay processing_time (mk_access_cost m) ps))))"

definition normal_getAccessLatency ::
  "dram_env \<Rightarrow> time \<Rightarrow> u64 \<Rightarrow> core_id \<Rightarrow> nat option \<Rightarrow> dram_normal \<times> perf_store \<Rightarrow>
     (time \<times> dram_normal \<times> perf_store) res" where
  "normal_getAccessLatency env pkt_time pkt_size requester perf = (\<lambda>(m, ps).
     if \<not> mn_enabled m \<or> requester \<ge> de_app_cores env then Inr (0, m, ps)
     else
       bindE (bw_getRoundedLatency (mn_bandwidth m) (8 * pkt_size)) (\<lambda>processing_time.
       bindE (queue_delay env pkt_time processing_time (mn_queue m)) (\<lambda>(delay, q).
       let cost = mn_costs m (mn_drawn m); access_latency = delay + processing_time + cost in
       Inr (access_latency,
            m\<lparr>mn_queue := q, mn_drawn := Suc (mn_drawn m), mn_num_accesses := mn_num_accesses m + 1,
              mn_total_latency := mn_total_latency m + access_latency, mn_total_queueing := mn_total_queueing m + delay\<rparr>,
            dram_account perf pkt_time delay processing_time cost ps))))"

text \<open>A read waits for the other reads; a write for the other writes and, when the bandwidth is shared, for the reads.\<close>

definition readwrite_delay ::
  "dram_env \<Rightarrow> time \<Rightarrow> time \<Rightarrow> dram_access_t \<Rightarrow> dram_readwrite \<Rightarrow> (time \<times> dram_readwrite) res" where
  "readwrite_delay env pkt_time processing_time access m =
     (case mw_queues m of None \<Rightarrow> Inr (0, m)
      | Some (r, w) \<Rightarrow>
          if access = DRAM_READ then
            bindE (computeQueueDelay (de_queue env) (de_global_time env) pkt_time processing_time r) (\<lambda>(d, r).
            if mw_shared m then
              bindE (computeQueueDelay (de_queue env) (de_global_time env) pkt_time processing_time w) (\<lambda>(_, w).
              Inr (d, m\<lparr>mw_queues := Some (r, w)\<rparr>))
            else Inr (d, m\<lparr>mw_queues := Some (r, w)\<rparr>))
          else
            bindE (computeQueueDelay (de_queue env) (de_global_time env) pkt_time processing_time w) (\<lambda>(d, w).
            Inr (d, m\<lparr>mw_queues := Some (r, w)\<rparr>)))"

definition readwrite_getAccessLatency ::
  "dram_env \<Rightarrow> time \<Rightarrow> u64 \<Rightarrow> core_id \<Rightarrow> dram_access_t \<Rightarrow> nat option \<Rightarrow> dram_readwrite \<times> perf_store \<Rightarrow>
     (time \<times> dram_readwrite \<times> perf_store) res" where
  "readwrite_getAccessLatency env pkt_time pkt_size requester access perf = (\<lambda>(m, ps).
     if \<not> mw_enabled m \<or> requester \<ge> de_app_cores env then Inr (0, m, ps)
     else
       bindE (bw_getRoundedLatency (mw_bandwidth m) (8 * pkt_size)) (\<lambda>processing_time.
       bindE (readwrite_delay env pkt_time processing_time access m) (\<lambda>(delay, m).
       let access_latency = delay + processing_time + mw_access_cost m;
           m = m\<lparr>mw_num_accesses := mw_num_accesses m + 1, mw_total_latency := mw_total_latency m + access_latency\<rparr> in
       Inr (access_latency,
            if access = DRAM_READ then m\<lparr>mw_total_read_queueing := mw_total_read_queueing m + delay\<rparr>
            else m\<lparr>mw_total_write_queueing := mw_total_write_queueing m + delay\<rparr>,
            dram_account perf pkt_time delay processing_time (mw_access_cost m) ps))))"

definition getAccessLatency ::
  "dram_env \<Rightarrow> time \<Rightarrow> u64 \<Rightarrow> core_id \<Rightarrow> dram_access_t \<Rightarrow> nat option \<Rightarrow> dram_model \<times> perf_store \<Rightarrow>
     (time \<times> dram_model \<times> perf_store) res" where
  "getAccessLatency env pkt_time pkt_size requester access perf = (\<lambda>(m, ps).
     case m of
       DramConstant c \<Rightarrow>
         bindE (constant_getAccessLatency env pkt_time pkt_size requester perf (c, ps)) (\<lambda>(t, c, ps). Inr (t, DramConstant c, ps))
     | DramNormal n \<Rightarrow>
         bindE (normal_getAccessLatency env pkt_time pkt_size requester perf (n, ps)) (\<lambda>(t, n, ps). Inr (t, DramNormal n, ps))
     | DramReadWrite w \<Rightarrow>
         bindE (readwrite_getAccessLatency env pkt_time pkt_size requester access perf (w, ps))
           (\<lambda>(t, w, ps). Inr (t, DramReadWrite w, ps)))"

definition dram_enable :: "bool \<Rightarrow> dram_model \<Rightarrow> dram_model" where
  "dram_enable b m = (case m of DramConstant c \<Rightarrow> DramConstant (c\<lparr>mk_enabled := b\<rparr>)
     | DramNormal n \<Rightarrow> DramNormal (n\<lparr>mn_enabled := b\<rparr>) | DramReadWrite w \<Rightarrow> DramReadWrite (w\<lparr>mw_enabled := b\<rparr>))"

subsection \<open>The controller\<close>

record dram_cntlr =
  dr_block_size :: u32
  dr_data_map :: "addr \<Rightarrow> u8 list option"
  dr_model :: dram_model
  dr_fault :: "fault_injector option"
  dr_reads :: u64
  dr_writes :: u64

definition DramCntlr :: "u32 \<Rightarrow> dram_model \<Rightarrow> fault_injector option \<Rightarrow> dram_cntlr" where
  "DramCntlr cache_block_size model fi =
     \<lparr>dr_block_size = cache_block_size, dr_data_map = Map.empty, dr_model = model, dr_fault = fi, dr_reads = 0, dr_writes = 0\<rparr>"

definition runDramPerfModel ::
  "dram_env \<Rightarrow> core_id \<Rightarrow> time \<Rightarrow> dram_access_t \<Rightarrow> nat option \<Rightarrow> dram_cntlr \<times> perf_store \<Rightarrow> (time \<times> dram_cntlr \<times> perf_store) res" where
  "runDramPerfModel env requester t access perf = (\<lambda>(d, ps).
     bindE (getAccessLatency env t (ucast (dr_block_size d)) requester access perf (dr_model d, ps)) (\<lambda>(l, m, ps).
     Inr (l, d\<lparr>dr_model := m\<rparr>, ps)))"

text \<open>\<open>memcpy\<close> of \<open>n\<close> bytes.\<close>

definition copy_bytes :: "nat \<Rightarrow> u8 list \<Rightarrow> u8 list \<Rightarrow> u8 list" where
  "copy_bytes n src dst = take n src @ drop n dst"

text \<open>The line's content, zeros if it was never used, after the fault injector has seen it; and its copy.\<close>

definition dram_load :: "dram_env \<Rightarrow> addr \<Rightarrow> u8 list \<Rightarrow> dram_cntlr \<Rightarrow> (u8 list \<times> dram_cntlr) res" where
  "dram_load env address data_buf d =
     (if de_fault env then
        let content = (case dr_data_map d address of Some xs \<Rightarrow> xs | None \<Rightarrow> replicate (unat (dr_block_size d)) 0) in
        bindE (case dr_fault d of
            None \<Rightarrow> Inr (None, Some content)
          | Some fi \<Rightarrow> bindE (preRead fi (dr_block_size d) (Some content) 0) (\<lambda>(fi, xs). Inr (Some fi, xs))) (\<lambda>(fi, xs).
        Inr (copy_bytes (unat (dr_block_size d)) (case xs of Some xs \<Rightarrow> xs | None \<Rightarrow> content) data_buf,
             d\<lparr>dr_data_map := (dr_data_map d)(address := xs), dr_fault := fi\<rparr>))
      else Inr (data_buf, d))"

definition dram_store :: "dram_env \<Rightarrow> addr \<Rightarrow> u8 list \<Rightarrow> dram_cntlr \<Rightarrow> dram_cntlr res" where
  "dram_store env address data_buf d =
     (if de_fault env then
        (case dr_data_map d address of
           None \<Rightarrow> Inl (Log_Error ''Data Buffer does not exist'')
         | Some old \<Rightarrow>
             let content = copy_bytes (unat (dr_block_size d)) data_buf old in
             bindE (case dr_fault d of
                 None \<Rightarrow> Inr (None, Some content)
               | Some fi \<Rightarrow> bindE (postWrite fi (dr_block_size d) (Some content) 0) (\<lambda>(fi, xs). Inr (Some fi, xs))) (\<lambda>(fi, xs).
             Inr (d\<lparr>dr_data_map := (dr_data_map d)(address := xs), dr_fault := fi\<rparr>)))
      else Inr d)"

definition dram_getDataFromDram ::
  "dram_env \<Rightarrow> addr \<Rightarrow> core_id \<Rightarrow> u8 list \<Rightarrow> time \<Rightarrow> nat option \<Rightarrow> dram_cntlr \<times> perf_store \<Rightarrow>
     ((time \<times> where_t \<times> u8 list) \<times> dram_cntlr \<times> perf_store) res" where
  "dram_getDataFromDram env address requester data_buf now perf = (\<lambda>(d, ps).
     bindE (dram_load env address data_buf d) (\<lambda>(data_buf, d).
     bindE (runDramPerfModel env requester now DRAM_READ perf (d, ps)) (\<lambda>(latency, d, ps).
     Inr ((latency, HW_DRAM, data_buf), d\<lparr>dr_reads := dr_reads d + 1\<rparr>, ps))))"

definition dram_putDataToDram ::
  "dram_env \<Rightarrow> addr \<Rightarrow> core_id \<Rightarrow> u8 list \<Rightarrow> time \<Rightarrow> dram_cntlr \<times> perf_store \<Rightarrow>
     ((time \<times> where_t) \<times> dram_cntlr \<times> perf_store) res" where
  "dram_putDataToDram env address requester data_buf now = (\<lambda>(d, ps).
     bindE (dram_store env address data_buf d) (\<lambda>d.
     bindE (runDramPerfModel env requester now DRAM_WRITE None (d, ps)) (\<lambda>(latency, d, ps).
     Inr ((latency, HW_DRAM), d\<lparr>dr_writes := dr_writes d + 1\<rparr>, ps))))"

subsection \<open>The cache in front of it\<close>

record dram_cache =
  dk_block_size :: u32
  dk_data_access_time :: time
  dk_tags_access_time :: time
  dk_bandwidth :: u64
  dk_dram :: dram_cntlr
  dk_cache :: cache
  dk_queue :: "queue_model option"
  dk_reads :: u64
  dk_writes :: u64
  dk_read_misses :: u64
  dk_write_misses :: u64

definition DramCache ::
  "cache_env \<Rightarrow> queue_env \<Rightarrow> address_home_lookup option \<Rightarrow> u32 \<Rightarrow> u64 \<Rightarrow> u64 \<Rightarrow> u64 \<Rightarrow> u32 \<Rightarrow> u32 \<Rightarrow> string \<Rightarrow> string \<Rightarrow>
     string option \<Rightarrow> dram_cntlr \<Rightarrow> dram_cache res" where
  "DramCache env qenv home_lookup cache_block_size data_ns tags_ns bandwidth sz associativity policy hash_function queue_type d =
     bindE (parseAddressHash hash_function) (\<lambda>hash.
     bindE (Cache env ''dram-cache'' sz associativity cache_block_size policy PR_L1_CACHE hash None home_lookup) (\<lambda>c.
     bindE (dram_queue qenv queue_type bandwidth cache_block_size) (\<lambda>q.
     Inr \<lparr>dk_block_size = cache_block_size, dk_data_access_time = TimeNS data_ns, dk_tags_access_time = TimeNS tags_ns,
          dk_bandwidth = bandwidth, dk_dram = d, dk_cache = c, dk_queue = q, dk_reads = 0, dk_writes = 0,
          dk_read_misses = 0, dk_write_misses = 0\<rparr>)))"

definition dk_accessDataArray ::
  "dram_env \<Rightarrow> time \<Rightarrow> nat option \<Rightarrow> dram_cache \<times> perf_store \<Rightarrow> (time \<times> dram_cache \<times> perf_store) res" where
  "dk_accessDataArray env t_start perf = (\<lambda>(k, ps).
     bindE (bw_getRoundedLatency (dk_bandwidth k) (ucast (8 * dk_block_size k))) (\<lambda>processing_time.
     bindE (queue_delay env t_start processing_time (dk_queue k)) (\<lambda>(delay, q).
     let ps = updateTime perf t_start R_UNKNOWN ps;
         ps = updateTime perf (t_start + delay) R_DRAM_CACHE_QUEUE ps;
         ps = updateTime perf (t_start + delay + processing_time) R_DRAM_CACHE_BUS ps;
         ps = updateTime perf (t_start + delay + processing_time + dk_data_access_time k) R_DRAM_CACHE_DATA ps
     in Inr (delay + processing_time + dk_data_access_time k, k\<lparr>dk_queue := q\<rparr>, ps))))"

definition dk_setCState :: "block_ptr \<Rightarrow> cstate_t \<Rightarrow> cache \<Rightarrow> cache" where
  "dk_setCState p s c = store_block p ((deref c p)\<lparr>m_cstate := s\<rparr>) c"

definition dk_hit ::
  "dram_env \<Rightarrow> access_t \<Rightarrow> addr \<Rightarrow> u8 list \<Rightarrow> time \<Rightarrow> nat option \<Rightarrow> block_ptr \<Rightarrow> dram_cache \<times> perf_store \<Rightarrow>
     ((bool \<times> time \<times> u8 list) \<times> dram_cache \<times> perf_store) res" where
  "dk_hit env access address data_buf now perf p = (\<lambda>(k, ps).
     let latency = dk_tags_access_time k in
     bindE (accessSingleLine address access (Some data_buf) (dk_block_size k) True (dk_cache k)) (\<lambda>(_, out, c).
     bindE (dk_accessDataArray env (now + latency) perf (k\<lparr>dk_cache := c\<rparr>, ps)) (\<lambda>(t, k, ps).
     let k = (if access = STORE then k\<lparr>dk_cache := dk_setCState p MODIFIED (dk_cache k)\<rparr> else k) in
     Inr ((True, latency + t, case out of Some xs \<Rightarrow> copy_bytes (unat (dk_block_size k)) xs data_buf | None \<Rightarrow> data_buf), k, ps))))"

text \<open>A miss: a load fetches the line from DRAM. What is written back for an evicted line is \<open>data_buf\<close>.\<close>

definition dk_fetch ::
  "dram_env \<Rightarrow> access_t \<Rightarrow> addr \<Rightarrow> core_id \<Rightarrow> u8 list \<Rightarrow> time \<Rightarrow> nat option \<Rightarrow> dram_cache \<times> perf_store \<Rightarrow>
     ((time \<times> u8 list) \<times> dram_cache \<times> perf_store) res" where
  "dk_fetch env access address requester data_buf now perf = (\<lambda>(k, ps).
     if access = LOAD then
       bindE (dram_getDataFromDram env address requester data_buf (now + dk_tags_access_time k) perf (dk_dram k, ps))
         (\<lambda>((t, _, data_buf), d, ps). Inr ((dk_tags_access_time k + t, data_buf), k\<lparr>dk_dram := d\<rparr>, ps))
     else Inr ((dk_tags_access_time k, data_buf), k, ps))"

definition dk_fill ::
  "dram_env \<Rightarrow> access_t \<Rightarrow> addr \<Rightarrow> core_id \<Rightarrow> u8 list \<Rightarrow> time \<Rightarrow> dram_cache \<times> perf_store \<Rightarrow> (dram_cache \<times> perf_store) res" where
  "dk_fill env access address requester data_buf t = (\<lambda>(k, ps).
     bindE (insertSingleLine address (Some data_buf) (CacheBlockInfo PrL1Block (-1) INVALID 0) True (dk_cache k))
       (\<lambda>(eviction, evict_address, evict_block_info, _, c).
     bindE (peekSingleLine address c) (\<lambda>p. case p of
       None \<Rightarrow> Inl (Null_Pointer ''peekSingleLine'')
     | Some p \<Rightarrow>
         bindE (dk_accessDataArray env t None
                  (k\<lparr>dk_cache := dk_setCState p (if access = STORE then MODIFIED else SHARED) c\<rparr>, ps)) (\<lambda>(_, k, ps).
         if eviction \<and> m_cstate evict_block_info = MODIFIED then
           bindE (dram_putDataToDram env evict_address requester data_buf t (dk_dram k, ps)) (\<lambda>(_, d, ps).
           Inr (k\<lparr>dk_dram := d\<rparr>, ps))
         else Inr (k, ps)))))"

definition doAccess ::
  "dram_env \<Rightarrow> access_t \<Rightarrow> addr \<Rightarrow> core_id \<Rightarrow> u8 list \<Rightarrow> time \<Rightarrow> nat option \<Rightarrow> dram_cache \<times> perf_store \<Rightarrow>
     ((bool \<times> time \<times> u8 list) \<times> dram_cache \<times> perf_store) res" where
  "doAccess env access address requester data_buf now perf = (\<lambda>(k, ps).
     bindE (peekSingleLine address (dk_cache k)) (\<lambda>block_info.
     let ps = updateTime perf now R_UNKNOWN ps;
         ps = updateTime perf (now + dk_tags_access_time k) R_DRAM_CACHE_TAGS ps in
     case block_info of
       Some p \<Rightarrow> dk_hit env access address data_buf now perf p (k, ps)
     | None \<Rightarrow>
         bindE (dk_fetch env access address requester data_buf now perf (k, ps)) (\<lambda>((latency, data_buf), k, ps).
         bindE (dk_fill env access address requester data_buf (now + latency) (k, ps)) (\<lambda>(k, ps).
         Inr ((False, latency, data_buf), k, ps)))))"

definition dk_getDataFromDram ::
  "dram_env \<Rightarrow> addr \<Rightarrow> core_id \<Rightarrow> u8 list \<Rightarrow> time \<Rightarrow> nat option \<Rightarrow> dram_cache \<times> perf_store \<Rightarrow>
     ((time \<times> where_t \<times> u8 list) \<times> dram_cache \<times> perf_store) res" where
  "dk_getDataFromDram env address requester data_buf now perf st =
     bindE (doAccess env LOAD address requester data_buf now perf st) (\<lambda>((hit, latency, data_buf), k, ps).
     let k = (if hit then k else k\<lparr>dk_read_misses := dk_read_misses k + 1\<rparr>) in
     Inr ((latency, if hit then HW_DRAM_CACHE else HW_DRAM, data_buf), k\<lparr>dk_reads := dk_reads k + 1\<rparr>, ps))"

definition dk_putDataToDram ::
  "dram_env \<Rightarrow> addr \<Rightarrow> core_id \<Rightarrow> u8 list \<Rightarrow> time \<Rightarrow> dram_cache \<times> perf_store \<Rightarrow>
     ((time \<times> where_t) \<times> dram_cache \<times> perf_store) res" where
  "dk_putDataToDram env address requester data_buf now st =
     bindE (doAccess env STORE address requester data_buf now None st) (\<lambda>((hit, latency, _), k, ps).
     let k = (if hit then k else k\<lparr>dk_write_misses := dk_write_misses k + 1\<rparr>) in
     Inr ((latency, if hit then HW_DRAM_CACHE else HW_DRAM), k\<lparr>dk_writes := dk_writes k + 1\<rparr>, ps))"

subsection \<open>The interface\<close>

datatype dram = DramOnly dram_cntlr | DramCached dram_cache

definition getDataFromDram ::
  "dram_env \<Rightarrow> addr \<Rightarrow> core_id \<Rightarrow> u8 list \<Rightarrow> time \<Rightarrow> nat option \<Rightarrow> dram \<times> perf_store \<Rightarrow>
     ((time \<times> where_t \<times> u8 list) \<times> dram \<times> perf_store) res" where
  "getDataFromDram env address requester data_buf now perf = (\<lambda>(d, ps).
     case d of
       DramOnly d \<Rightarrow> bindE (dram_getDataFromDram env address requester data_buf now perf (d, ps)) (\<lambda>(r, d, ps). Inr (r, DramOnly d, ps))
     | DramCached k \<Rightarrow> bindE (dk_getDataFromDram env address requester data_buf now perf (k, ps)) (\<lambda>(r, k, ps). Inr (r, DramCached k, ps)))"

definition putDataToDram ::
  "dram_env \<Rightarrow> addr \<Rightarrow> core_id \<Rightarrow> u8 list \<Rightarrow> time \<Rightarrow> dram \<times> perf_store \<Rightarrow> ((time \<times> where_t) \<times> dram \<times> perf_store) res" where
  "putDataToDram env address requester data_buf now = (\<lambda>(d, ps).
     case d of
       DramOnly d \<Rightarrow> bindE (dram_putDataToDram env address requester data_buf now (d, ps)) (\<lambda>(r, d, ps). Inr (r, DramOnly d, ps))
     | DramCached k \<Rightarrow> bindE (dk_putDataToDram env address requester data_buf now (k, ps)) (\<lambda>(r, k, ps). Inr (r, DramCached k, ps)))"

text \<open>Messages of the tag directory: the answer to a read is sent to the sender. \<open>junk\<close> is what the local buffer holds;
  \<open>sim_time\<close> the clock of the simulation thread.\<close>

record dram_node =
  dn_dram :: dram
  dn_perf :: perf_store
  dn_time :: time
  dn_out :: "(core_id \<times> shmem_msg \<times> time) list"

definition dn_sendMsg :: "core_id \<Rightarrow> shmem_msg \<Rightarrow> dram_node \<Rightarrow> dram_node res" where
  "dn_sendMsg receiver m n =
     assertE ((msg_data m = None) = (msg_length m = 0)) ''(data_buf == NULL) == (data_length == 0)''
       (Inr (n\<lparr>dn_perf := updateTime (msg_perf m) (dn_time n) R_UNKNOWN (dn_perf n), dn_out := dn_out n @ [(receiver, m, dn_time n)]\<rparr>))"

definition handleMsgFromTagDirectory ::
  "dram_env \<Rightarrow> u32 \<Rightarrow> u8 list \<Rightarrow> core_id \<Rightarrow> shmem_msg \<Rightarrow> dram_node \<Rightarrow> dram_node res" where
  "handleMsgFromTagDirectory env cache_block_size junk sender m n =
     (let msg_time = dn_time n; ps = updateTime (msg_perf m) msg_time R_UNKNOWN (dn_perf n) in
      case msg_type m of
        DRAM_READ_REQ \<Rightarrow>
          bindE (getDataFromDram env (msg_address m) (msg_requester m) junk msg_time (msg_perf m) (dn_dram n, ps))
            (\<lambda>((dram_latency, hit_where, data_buf), d, ps).
          bindE (incrElapsedTime dram_latency msg_time) (\<lambda>t.
          let ps = updateTime (msg_perf m) t (if hit_where = HW_DRAM_CACHE then R_DRAM_CACHE else R_DRAM) ps;
              rep = ShmemMsg DRAM_READ_REP DRAM TAG_DIR (msg_requester m) (msg_address m) (Some data_buf) cache_block_size (msg_perf m) in
          dn_sendMsg sender (rep\<lparr>msg_where := hit_where\<rparr>) (n\<lparr>dn_dram := d, dn_perf := ps, dn_time := t\<rparr>)))
      | DRAM_WRITE_REQ \<Rightarrow>
          (case msg_data m of
             None \<Rightarrow> Inl (Null_Pointer ''data_buf'')
           | Some data_buf \<Rightarrow>
               bindE (putDataToDram env (msg_address m) (msg_requester m) data_buf msg_time (dn_dram n, ps)) (\<lambda>(_, d, ps).
               Inr (n\<lparr>dn_dram := d, dn_perf := ps\<rparr>)))
      | _ \<Rightarrow> Inl (Log_Error ''Unrecognized Shmem Msg Type''))"

end
