(* ===== verification/Cache_Stack.thy ===== *)
theory Cache_Stack
  imports Dram Cache_Atd Prefetchers
begin

text \<open>
  The state of the cache controllers (parametric_dram_directory_msi/cache_cntlr.cc) and their operations on lines: a
  controller per core and level, the state of a cache in the controller of its master core, the levels below (\<open>prev\<close>) and
  above (\<open>next\<close>) of each.

  Controllers are numbers; their configuration is \<open>ev_cntlr\<close>, and a master's previous-level caches are \<open>ev_prev\<close>. The calls
  between levels are recursive: \<open>ev_fuel\<close> bounds the number of levels. A \<open>ShmemPerfModel\<close> is the two clocks of a core, a
  \<open>ShmemPerf*\<close> a number. Where data was found is the number of the enumerator of \<open>HitWhere\<close>, which the code computes with.
  The counters in \<open>stats\<close>, the set locks and the callbacks for cache efficiency are left out, and with them the reason of a
  state change, which only selects counters. Each operation runs alone, as under the stack lock.
\<close>

subsection \<open>Latencies of a cache\<close>

datatype perf_model_t = CACHE_PERF_MODEL_PARALLEL | CACHE_PERF_MODEL_SEQUENTIAL

datatype cache_access_t = ACCESS_CACHE_DATA_AND_TAGS | ACCESS_CACHE_DATA | ACCESS_CACHE_TAGS

record cache_perf_model =
  pm_type :: perf_model_t
  pm_enabled :: bool
  pm_data :: latency
  pm_tags :: latency

definition parseModelType :: "string \<Rightarrow> perf_model_t res" where
  "parseModelType model_type =
     (if model_type = ''parallel'' then Inr CACHE_PERF_MODEL_PARALLEL
      else if model_type = ''sequential'' then Inr CACHE_PERF_MODEL_SEQUENTIAL
      else Inl (Log_Error ''Unsupported CacheModel type''))"

definition CachePerfModel :: "string \<Rightarrow> latency \<Rightarrow> latency \<Rightarrow> cache_perf_model res" where
  "CachePerfModel model_type data_time tags_time =
     bindE (parseModelType model_type) (\<lambda>ty.
     Inr \<lparr>pm_type = ty, pm_enabled = False, pm_data = data_time, pm_tags = tags_time\<rparr>)"

definition pm_enable :: "bool \<Rightarrow> cache_perf_model \<Rightarrow> cache_perf_model" where
  "pm_enable b m = m\<lparr>pm_enabled := b\<rparr>"

definition pm_getLatency :: "cache_access_t \<Rightarrow> cache_perf_model \<Rightarrow> time" where
  "pm_getLatency access m =
     (if \<not> pm_enabled m then 0
      else case access of
        ACCESS_CACHE_TAGS \<Rightarrow> getLatency (pm_tags m)
      | ACCESS_CACHE_DATA \<Rightarrow> getLatency (pm_data m)
      | ACCESS_CACHE_DATA_AND_TAGS \<Rightarrow>
          (if pm_type m = CACHE_PERF_MODEL_PARALLEL then getLatency (pm_data m)
           else getLatency (pm_data m) + getLatency (pm_tags m)))"

subsection \<open>State\<close>

datatype perf_thread = USER_THREAD | SIM_THREAD

datatype prefetch_type_t = PF_NONE | PF_OWN | PF_OTHER

fun where_num :: "where_t \<Rightarrow> nat" where
  "where_num HW_L1I = 2"
| "where_num HW_L1_OWN = 3"
| "where_num HW_L2_OWN = 4"
| "where_num HW_L3_OWN = 5"
| "where_num HW_L4_OWN = 6"
| "where_num HW_MISS = 7"
| "where_num HW_NUCA_CACHE = 8"
| "where_num HW_DRAM_CACHE = 9"
| "where_num HW_DRAM = 10"
| "where_num HW_DRAM_LOCAL = 11"
| "where_num HW_DRAM_REMOTE = 12"
| "where_num HW_CACHE_REMOTE = 13"
| "where_num HW_SIBLING = 14"
| "where_num HW_L1_SIBLING = 17"
| "where_num HW_L2_SIBLING = 18"
| "where_num HW_L3_SIBLING = 19"
| "where_num HW_L4_SIBLING = 20"
| "where_num HW_UNKNOWN = 21"
| "where_num HW_PREDICATE_FALSE = 22"

record waiter =
  wt_exclusive :: bool
  wt_isPrefetch :: bool
  wt_cntlr :: nat
  wt_t_issue :: time

record mshr_entry =
  ms_issue :: time
  ms_complete :: time

definition make_mshr :: "time \<Rightarrow> time \<Rightarrow> mshr_entry" where
  "make_mshr t_issue t_complete = \<lparr>ms_issue = t_issue, ms_complete = t_complete\<rparr>"

text \<open>\<open>mc_evicting\<close> is the address and the buffer of the line being evicted, while there is one.\<close>

record cc_master =
  mc_cache :: cache
  mc_prefetcher :: "prefetcher option"
  mc_dram :: "dram option"
  mc_writebacks :: "contention option"
  mc_mshr :: "(addr \<times> mshr_entry) list"
  mc_l1_mshr :: contention
  mc_next_bw :: contention
  mc_waiters :: "waiter req_queue"
  mc_evicting :: "(addr \<times> u8 list) option"
  mc_atds :: "atd list"
  mc_prefetch_list :: "addr list"
  mc_prefetch_next :: time

record cc_conf =
  cc_component :: component_t
  cc_core_id :: core_id
  cc_core_master :: core_id
  cc_master_id :: nat
  cc_next :: "nat option"
  cc_perfect :: bool
  cc_coherent :: bool
  cc_pf_on_pf_hit :: bool
  cc_l1_mshr :: bool
  cc_block_size :: u32
  cc_writethrough :: bool
  cc_writeback_time :: latency
  cc_next_bw :: bandwidth_per_cycle
  cc_perf :: nat

text \<open>\<open>ev_owner\<close> is the callback that names the owner of a line, when such callbacks are installed; \<open>ev_junk\<close> what a local
  buffer holds before it is written.\<close>

record cc_env =
  ev_cntlr :: "nat \<Rightarrow> cc_conf"
  ev_prev :: "nat \<Rightarrow> nat list"
  ev_fuel :: nat
  ev_models :: "core_id \<Rightarrow> component_t \<Rightarrow> cache_perf_model option"
  ev_home :: address_home_lookup
  ev_dram :: dram_env
  ev_cache_only :: bool
  ev_owner :: "(core_id \<Rightarrow> u64) option"
  ev_junk :: "u8 list"

record uncore =
  un_perf :: shmem_perf
  un_totaltime :: time
  un_numrequests :: u64

record cc_state =
  st_master :: "nat \<Rightarrow> cc_master"
  st_last_remote :: "nat \<Rightarrow> nat"
  st_time :: "core_id \<Rightarrow> perf_thread \<Rightarrow> time"
  st_perf :: perf_store
  st_uncore :: "nat \<Rightarrow> uncore option"
  st_out :: "(core_id \<times> shmem_msg \<times> time) list"

text \<open>\<open>outstanding_misses\<close> is the number of MSHRs of a first-level cache.\<close>

definition CacheMasterCntlr :: "time \<Rightarrow> nat \<Rightarrow> cache \<Rightarrow> prefetcher option \<Rightarrow> atd list \<Rightarrow> cc_master" where
  "CacheMasterCntlr period outstanding_misses c pf atds =
     \<lparr>mc_cache = c, mc_prefetcher = pf, mc_dram = None, mc_writebacks = None, mc_mshr = [],
      mc_l1_mshr = ContentionModel period outstanding_misses, mc_next_bw = ContentionModel period 1,
      mc_waiters = (\<lambda>_. []), mc_evicting = None, mc_atds = atds, mc_prefetch_list = [], mc_prefetch_next = 0\<rparr>"

definition setDRAMDirectAccess :: "time \<Rightarrow> dram \<Rightarrow> nat \<Rightarrow> cc_master \<Rightarrow> cc_master" where
  "setDRAMDirectAccess period d num_outstanding m =
     m\<lparr>mc_dram := Some d, mc_writebacks := Some (ContentionModel period num_outstanding)\<rparr>"

definition master_of :: "cc_env \<Rightarrow> nat \<Rightarrow> cc_state \<Rightarrow> cc_master" where
  "master_of env cid st = st_master st (cc_master_id (ev_cntlr env cid))"

definition set_master :: "cc_env \<Rightarrow> nat \<Rightarrow> cc_master \<Rightarrow> cc_state \<Rightarrow> cc_state" where
  "set_master env cid m st = st\<lparr>st_master := (st_master st)(cc_master_id (ev_cntlr env cid) := m)\<rparr>"

definition cache_of :: "cc_env \<Rightarrow> nat \<Rightarrow> cc_state \<Rightarrow> cache" where
  "cache_of env cid st = mc_cache (master_of env cid st)"

definition set_cache :: "cc_env \<Rightarrow> nat \<Rightarrow> cache \<Rightarrow> cc_state \<Rightarrow> cc_state" where
  "set_cache env cid c st = set_master env cid ((master_of env cid st)\<lparr>mc_cache := c\<rparr>) st"

definition prev_of :: "cc_env \<Rightarrow> nat \<Rightarrow> nat list" where
  "prev_of env cid = ev_prev env (cc_master_id (ev_cntlr env cid))"

definition elapsed :: "cc_env \<Rightarrow> nat \<Rightarrow> perf_thread \<Rightarrow> cc_state \<Rightarrow> time" where
  "elapsed env cid th st = st_time st (cc_core_id (ev_cntlr env cid)) th"

definition set_elapsed :: "cc_env \<Rightarrow> nat \<Rightarrow> perf_thread \<Rightarrow> time \<Rightarrow> cc_state \<Rightarrow> cc_state" where
  "set_elapsed env cid th t st =
     (let c = cc_core_id (ev_cntlr env cid) in st\<lparr>st_time := (st_time st)(c := (st_time st c)(th := t))\<rparr>)"

text \<open>The two \<open>incrElapsedTime\<close> of the memory manager, by a latency and by an access to a cache.\<close>

definition incr_time :: "cc_env \<Rightarrow> nat \<Rightarrow> time \<Rightarrow> perf_thread \<Rightarrow> cc_state \<Rightarrow> cc_state res" where
  "incr_time env cid latency th st =
     bindE (incrElapsedTime latency (elapsed env cid th st)) (\<lambda>t. Inr (set_elapsed env cid th t st))"

definition mm_getCost :: "cc_env \<Rightarrow> nat \<Rightarrow> component_t \<Rightarrow> cache_access_t \<Rightarrow> time res" where
  "mm_getCost env cid component access =
     (if component = INVALID_MEM_COMPONENT then Inr 0
      else case ev_models env (cc_core_id (ev_cntlr env cid)) component of
        None \<Rightarrow> Inl (Null_Pointer ''m_cache_perf_models'')
      | Some m \<Rightarrow> Inr (pm_getLatency access m))"

definition incr_access :: "cc_env \<Rightarrow> nat \<Rightarrow> cache_access_t \<Rightarrow> perf_thread \<Rightarrow> cc_state \<Rightarrow> cc_state res" where
  "incr_access env cid access th st =
     bindE (mm_getCost env cid (cc_component (ev_cntlr env cid)) access) (\<lambda>t. incr_time env cid t th st)"

text \<open>\<open>sendMsg\<close> of the memory manager, from the last-level cache to a tag directory.\<close>

definition cc_sendMsg ::
  "cc_env \<Rightarrow> nat \<Rightarrow> msg_t \<Rightarrow> core_id \<Rightarrow> core_id \<Rightarrow> addr \<Rightarrow> u8 list option \<Rightarrow> u32 \<Rightarrow> nat option \<Rightarrow> perf_thread \<Rightarrow> cc_state \<Rightarrow>
     cc_state res" where
  "cc_sendMsg env cid ty requester receiver address data_buf data_length perf th st =
     assertE ((data_buf = None) = (data_length = 0)) ''(data_buf == NULL) == (data_length == 0)''
     (let m = ShmemMsg ty LAST_LEVEL_CACHE TAG_DIR requester address data_buf data_length perf;
          msg_time = elapsed env cid th st in
      Inr (st\<lparr>st_perf := updateTime perf msg_time R_UNKNOWN (st_perf st), st_out := st_out st @ [(receiver, m, msg_time)]\<rparr>))"

subsection \<open>Lines of one cache\<close>

definition getCacheBlockInfo :: "cc_env \<Rightarrow> nat \<Rightarrow> addr \<Rightarrow> cc_state \<Rightarrow> block_ptr option res" where
  "getCacheBlockInfo env cid address st = peekSingleLine address (cache_of env cid st)"

definition block_of :: "cc_env \<Rightarrow> nat \<Rightarrow> block_ptr \<Rightarrow> cc_state \<Rightarrow> cache_block" where
  "block_of env cid p st = deref (cache_of env cid st) p"

definition set_block :: "cc_env \<Rightarrow> nat \<Rightarrow> block_ptr \<Rightarrow> cache_block \<Rightarrow> cc_state \<Rightarrow> cc_state" where
  "set_block env cid p b st = set_cache env cid (store_block p b (cache_of env cid st)) st"

definition set_cstate :: "cc_env \<Rightarrow> nat \<Rightarrow> block_ptr \<Rightarrow> cstate_t \<Rightarrow> cc_state \<Rightarrow> cc_state" where
  "set_cstate env cid p s st = set_block env cid p ((block_of env cid p st)\<lparr>m_cstate := s\<rparr>) st"

definition ptr_state :: "cc_env \<Rightarrow> nat \<Rightarrow> block_ptr option \<Rightarrow> cc_state \<Rightarrow> cstate_t" where
  "ptr_state env cid p st = (case p of None \<Rightarrow> INVALID | Some p \<Rightarrow> m_cstate (block_of env cid p st))"

definition getCacheState :: "cc_env \<Rightarrow> nat \<Rightarrow> addr \<Rightarrow> cc_state \<Rightarrow> cstate_t res" where
  "getCacheState env cid address st =
     bindE (getCacheBlockInfo env cid address st) (\<lambda>p. Inr (ptr_state env cid p st))"

definition setCacheState :: "cc_env \<Rightarrow> nat \<Rightarrow> addr \<Rightarrow> cstate_t \<Rightarrow> cc_state \<Rightarrow> (block_ptr \<times> cc_state) res" where
  "setCacheState env cid address s st =
     bindE (getCacheBlockInfo env cid address st) (\<lambda>p. case p of
       None \<Rightarrow> Inl (Null_Pointer ''cache_block_info'')
     | Some p \<Rightarrow> Inr (p, set_cstate env cid p s st))"

definition operationPermissibleinCache ::
  "cc_env \<Rightarrow> nat \<Rightarrow> addr \<Rightarrow> mem_op_t \<Rightarrow> cc_state \<Rightarrow> (bool \<times> block_ptr option) res" where
  "operationPermissibleinCache env cid address op st =
     bindE (getCacheBlockInfo env cid address st) (\<lambda>p.
     let s = ptr_state env cid p st in Inr (if op = MEM_READ then readable s else writable s, p))"

text \<open>The next level is told of an eviction (\<open>notifyPrevLevelEvict\<close>), which only tracks sharers when that is compiled in.\<close>

definition invalidateCacheBlock :: "cc_env \<Rightarrow> nat \<Rightarrow> addr \<Rightarrow> cc_state \<Rightarrow> cc_state res" where
  "invalidateCacheBlock env cid address st =
     bindE (getCacheState env cid address st) (\<lambda>old.
     assertE (old \<noteq> MODIFIED) ''old_cstate != CacheState::MODIFIED''
     (assertE (old \<noteq> INVALID) ''old_cstate != CacheState::INVALID''
       (bindE (invalidateSingleLine address (cache_of env cid st)) (\<lambda>(_, c). Inr (set_cache env cid c st)))))"

definition retrieveCacheBlock :: "cc_env \<Rightarrow> nat \<Rightarrow> addr \<Rightarrow> u8 list \<Rightarrow> bool \<Rightarrow> cc_state \<Rightarrow> (u8 list \<times> cc_state) res" where
  "retrieveCacheBlock env cid address data_buf update_replacement st =
     (let n = cc_block_size (ev_cntlr env cid) in
      bindE (accessSingleLine address LOAD (Some data_buf) n update_replacement (cache_of env cid st)) (\<lambda>(p, out, c).
      assertE (p \<noteq> None) ''Expected block to be there but it wasn't''
        (Inr (case out of Some xs \<Rightarrow> copy_bytes (unat n) xs data_buf | None \<Rightarrow> data_buf, set_cache env cid c st))))"

subsection \<open>Writing into a level and its next levels\<close>

definition write_evict_buf :: "cc_env \<Rightarrow> nat \<Rightarrow> addr \<Rightarrow> u8 list \<Rightarrow> u32 \<Rightarrow> u8 list option \<Rightarrow> u32 \<Rightarrow> cc_state \<Rightarrow> cc_state res" where
  "write_evict_buf env cid address evict_buf offset data_buf data_length st =
     assertE (offset = 0) ''offset==0''
     (assertE (data_length = cc_block_size (ev_cntlr env cid)) ''data_length==getCacheBlockSize()''
       (Inr (case data_buf of
          None \<Rightarrow> st
        | Some xs \<Rightarrow> set_master env cid ((master_of env cid st)
            \<lparr>mc_evicting := Some (address, copy_bytes (unat data_length) xs evict_buf)\<rparr>) st)))"

definition write_own :: "cc_env \<Rightarrow> nat \<Rightarrow> addr \<Rightarrow> u32 \<Rightarrow> u8 list option \<Rightarrow> u32 \<Rightarrow> cc_state \<Rightarrow> cc_state res" where
  "write_own env cid address offset data_buf data_length st =
     bindE (accessSingleLine (address + ucast offset) STORE data_buf data_length False (cache_of env cid st)) (\<lambda>(p, _, c).
     case p of
       None \<Rightarrow> Inl (Assert_Failed ''writethrough expected a hit at next-level cache but got miss'')
     | Some p \<Rightarrow> assertE (m_cstate (deref c p) = MODIFIED) ''Got writeback for non-MODIFIED line'' (Inr (set_cache env cid c st)))"

primrec writeCacheBlock ::
  "nat \<Rightarrow> cc_env \<Rightarrow> nat \<Rightarrow> addr \<Rightarrow> u32 \<Rightarrow> u8 list option \<Rightarrow> u32 \<Rightarrow> cc_state \<Rightarrow> cc_state res" where
  "writeCacheBlock 0 env cid address offset data_buf data_length st = Inl (No_Return ''writeCacheBlock'')"
| "writeCacheBlock (Suc n) env cid address offset data_buf data_length st =
     bindE (case mc_evicting (master_of env cid st) of
         Some (evict_address, evict_buf) \<Rightarrow>
           if address = evict_address then write_evict_buf env cid address evict_buf offset data_buf data_length st
           else write_own env cid address offset data_buf data_length st
       | None \<Rightarrow> write_own env cid address offset data_buf data_length st) (\<lambda>st.
     if cc_writethrough (ev_cntlr env cid) then
       (case cc_next (ev_cntlr env cid) of
          None \<Rightarrow> Inl (Null_Pointer ''m_next_cache_cntlr'')
        | Some nx \<Rightarrow> writeCacheBlock n env nx address offset data_buf data_length st)
     else Inr st)"

end
