(* ===== verification/Cache_Update.thy ===== *)
theory Cache_Update
  imports Cache_Stack
begin

text \<open>
  The operations of cache_cntlr.cc that reach into the previous levels: \<open>updateCacheBlock\<close>, which brings a line to a new
  state in a cache and everything below it, and \<open>insertCacheBlock\<close>, which makes room for a line and disposes of the one
  evicted: into the next level, to DRAM or to the line's directory.
\<close>

subsection \<open>updateCacheBlock\<close>

text \<open>The loop over the previous levels: the highest latency and whether any of them had the line's data.\<close>

primrec snoop ::
  "(nat \<Rightarrow> cc_state \<Rightarrow> (time \<times> bool \<times> u8 list option \<times> cc_state) res) \<Rightarrow> nat list \<Rightarrow> time \<Rightarrow> bool \<Rightarrow> cc_state \<Rightarrow>
     (time \<times> bool \<times> cc_state) res" where
  "snoop f [] latency sibling_hit st = Inr (latency, sibling_hit, st)"
| "snoop f (p # ps) latency sibling_hit st =
     bindE (f p st) (\<lambda>(l, s, _, st). snoop f ps (max latency l) (sibling_hit \<or> s) st)"

text \<open>What an update has done so far: \<open>buf_written\<close>, \<open>is_writeback\<close>, \<open>sibling_hit\<close>, and \<open>out_buf\<close> with its content.\<close>

record update =
  up_written :: bool
  up_writeback :: bool
  up_sibling :: bool
  up_out :: "u8 list option"

text \<open>The line's data into \<open>out_buf\<close>, if there is one.\<close>

definition give_data :: "cc_env \<Rightarrow> nat \<Rightarrow> addr \<Rightarrow> update \<Rightarrow> cc_state \<Rightarrow> (update \<times> cc_state) res" where
  "give_data env cid address u st =
     (case up_out u of None \<Rightarrow> Inr (u, st)
      | Some buf \<Rightarrow>
          bindE (retrieveCacheBlock env cid address buf False st) (\<lambda>(buf, st).
          Inr (\<lparr>up_written = True, up_writeback = True, up_sibling = True, up_out = Some buf\<rparr>, st)))"

text \<open>Modified data goes to the next level, or to whoever waits for it, and the line becomes shared.\<close>

definition write_back :: "cc_env \<Rightarrow> nat \<Rightarrow> addr \<Rightarrow> update \<Rightarrow> cc_state \<Rightarrow> (update \<times> cc_state) res" where
  "write_back env cid address u st =
     (if cc_writethrough (ev_cntlr env cid) then Inr (u, st)
      else case cc_next (ev_cntlr env cid) of
        Some nx \<Rightarrow>
          bindE (retrieveCacheBlock env cid address (ev_junk env) False st) (\<lambda>(data_buf, st).
          bindE (writeCacheBlock (ev_fuel env) env nx address 0 (Some data_buf) (cc_block_size (ev_cntlr env cid)) st) (\<lambda>st.
          Inr (u\<lparr>up_writeback := True, up_sibling := True\<rparr>, st)))
      | None \<Rightarrow>
          if up_out u \<noteq> None then give_data env cid address u st
          else Inl (Assert_Failed ''MODIFIED data is about to get lost!''))"

definition flush_modified :: "cc_env \<Rightarrow> nat \<Rightarrow> addr \<Rightarrow> block_ptr \<Rightarrow> update \<Rightarrow> cc_state \<Rightarrow> (update \<times> cc_state) res" where
  "flush_modified env cid address p u st =
     (if m_cstate (block_of env cid p st) \<noteq> MODIFIED then Inr (u, st)
      else bindE (write_back env cid address u st) (\<lambda>(u, st). Inr (u, set_cstate env cid p SHARED st)))"

definition change_cstate ::
  "cc_env \<Rightarrow> nat \<Rightarrow> addr \<Rightarrow> cstate_t \<Rightarrow> block_ptr \<Rightarrow> update \<Rightarrow> cc_state \<Rightarrow> (update \<times> cc_state) res" where
  "change_cstate env cid address new_cstate p u st =
     (if new_cstate = INVALID then
        bindE (give_data env cid address u st) (\<lambda>(u, st).
        if cc_coherent (ev_cntlr env cid)
        then bindE (invalidateCacheBlock env cid address st) (\<lambda>st. Inr (u, st)) else Inr (u, st))
      else if new_cstate = SHARED then
        bindE (give_data env cid address u st) (\<lambda>(u, st). Inr (u, set_cstate env cid p new_cstate st))
      else if new_cstate = MODIFIED then Inr (u, set_cstate env cid p new_cstate st)
      else Inl (Assert_Failed ''Cannot change block status''))"

definition update_own ::
  "cc_env \<Rightarrow> nat \<Rightarrow> addr \<Rightarrow> cstate_t \<Rightarrow> block_ptr option \<Rightarrow> update \<Rightarrow> cc_state \<Rightarrow> (update \<times> cc_state) res" where
  "update_own env cid address new_cstate info u st =
     (case info of
        None \<Rightarrow> Inr (u, st)
      | Some p \<Rightarrow>
          if new_cstate = m_cstate (block_of env cid p st) \<and> up_out u \<noteq> None then give_data env cid address u st
          else
            bindE (flush_modified env cid address p u st) (\<lambda>(u, st).
            change_cstate env cid address new_cstate p u st))"

definition reached :: "cc_env \<Rightarrow> nat \<Rightarrow> cstate_t \<Rightarrow> cstate_t \<Rightarrow> bool" where
  "reached env cid new_cstate s \<longleftrightarrow> s = INVALID \<or> s = new_cstate \<or> \<not> cc_coherent (ev_cntlr env cid)"

text \<open>The part after the previous levels: the result is the latency, \<open>sibling_hit\<close> and \<open>out_buf\<close>.\<close>

definition update_here ::
  "cc_env \<Rightarrow> nat \<Rightarrow> addr \<Rightarrow> cstate_t \<Rightarrow> u8 list option \<Rightarrow> bool \<Rightarrow> cc_state \<Rightarrow> (time \<times> bool \<times> u8 list option \<times> cc_state) res" where
  "update_here env cid address new_cstate out_buf sibling_hit st =
     bindE (getCacheBlockInfo env cid address st) (\<lambda>info.
     bindE (update_own env cid address new_cstate info
       \<lparr>up_written = False, up_writeback = False, up_sibling = sibling_hit, up_out = out_buf\<rparr> st) (\<lambda>(u, st).
     bindE (getCacheState env cid address st) (\<lambda>s.
     assertE (reached env cid new_cstate s) ''state didn't change as we wanted''
     (assertE (reached env cid new_cstate (ptr_state env cid info st)) ''state didn't change as we wanted''
     (assertE (up_out u \<noteq> None \<longrightarrow> up_written u) ''out_buf passed in but never written to''
       (Inr (if up_writeback u then getLatency (cc_writeback_time (ev_cntlr env cid)) else 0, up_sibling u, up_out u, st)))))))"

primrec updateCacheBlock ::
  "nat \<Rightarrow> cc_env \<Rightarrow> nat \<Rightarrow> addr \<Rightarrow> cstate_t \<Rightarrow> u8 list option \<Rightarrow> cc_state \<Rightarrow> (time \<times> bool \<times> u8 list option \<times> cc_state) res" where
  "updateCacheBlock 0 env cid address new_cstate out_buf st = Inl (No_Return ''updateCacheBlock'')"
| "updateCacheBlock (Suc n) env cid address new_cstate out_buf st =
     assertE (new_cstate \<in> {INVALID, SHARED, SHARED_UPGRADING, EXCLUSIVE, OWNED, MODIFIED}) ''Invalid new cstate''
       (bindE (snoop (\<lambda>p. updateCacheBlock n env p address new_cstate None) (prev_of env cid) 0 False st)
          (\<lambda>(_, sibling_hit, st). update_here env cid address new_cstate out_buf sibling_hit st))"

text \<open>The loop of a cache over its previous levels (all but \<open>except\<close>), which brings a line there to a new state.\<close>

definition update_prev ::
  "cc_env \<Rightarrow> nat \<Rightarrow> nat option \<Rightarrow> addr \<Rightarrow> cstate_t \<Rightarrow> cc_state \<Rightarrow> (time \<times> bool \<times> cc_state) res" where
  "update_prev env cid except address new_cstate st =
     snoop (\<lambda>p. updateCacheBlock (ev_fuel env) env p address new_cstate None)
       (filter (\<lambda>p. Some p \<noteq> except) (prev_of env cid)) 0 False st"

subsection \<open>insertCacheBlock\<close>

definition accessDRAM ::
  "cc_env \<Rightarrow> nat \<Rightarrow> mem_op_t \<Rightarrow> addr \<Rightarrow> u8 list \<Rightarrow> cc_state \<Rightarrow> ((where_t \<times> time \<times> u8 list) \<times> cc_state) res" where
  "accessDRAM env cid op address data_buf st =
     (let c = ev_cntlr env cid; t_issue = elapsed env cid USER_THREAD st in
      case mc_dram (master_of env cid st) of
        None \<Rightarrow> Inl (Null_Pointer ''m_dram_cntlr'')
      | Some d \<Rightarrow>
          if op = MEM_READ then
            bindE (getDataFromDram (ev_dram env) address (cc_core_master c) data_buf t_issue (Some (cc_perf c)) (d, st_perf st))
              (\<lambda>((t, w, buf), d, ps).
            Inr ((w, t, buf), (set_master env cid ((master_of env cid st)\<lparr>mc_dram := Some d\<rparr>) st)\<lparr>st_perf := ps\<rparr>))
          else
            bindE (putDataToDram (ev_dram env) address (cc_core_master c) data_buf t_issue (d, st_perf st)) (\<lambda>((t, w), d, ps).
            Inr ((w, t, data_buf), (set_master env cid ((master_of env cid st)\<lparr>mc_dram := Some d\<rparr>) st)\<lparr>st_perf := ps\<rparr>)))"

text \<open>The previous levels write modified data of the evicted line into \<open>evict_buf\<close>.\<close>

definition evict_prev :: "cc_env \<Rightarrow> nat \<Rightarrow> addr \<Rightarrow> u8 list \<Rightarrow> perf_thread \<Rightarrow> cc_state \<Rightarrow> (u8 list \<times> cc_state) res" where
  "evict_prev env cid evict_address evict_buf th st =
     (if prev_of env cid = [] then Inr (evict_buf, st)
      else
        (let st = set_master env cid ((master_of env cid st)\<lparr>mc_evicting := Some (evict_address, evict_buf)\<rparr>) st in
         bindE (update_prev env cid None evict_address INVALID st) (\<lambda>(latency, _, st).
         bindE (incr_time env cid latency th st) (\<lambda>st.
         Inr (case mc_evicting (master_of env cid st) of Some (_, buf) \<Rightarrow> buf | None \<Rightarrow> evict_buf,
              set_master env cid ((master_of env cid st)\<lparr>mc_evicting := None\<rparr>) st)))))"

definition evict_to_dram :: "cc_env \<Rightarrow> nat \<Rightarrow> addr \<Rightarrow> u8 list \<Rightarrow> cc_state \<Rightarrow> cc_state res" where
  "evict_to_dram env cid evict_address evict_buf st =
     (let t_now = elapsed env cid USER_THREAD st in
      bindE (case mc_writebacks (master_of env cid st) of
          None \<Rightarrow> Inr st
        | Some w \<Rightarrow> incr_time env cid (getStartTime t_now w - t_now) USER_THREAD st) (\<lambda>st.
      bindE (accessDRAM env cid MEM_WRITE evict_address evict_buf st) (\<lambda>((_, dram_latency, _), st).
      Inr (let m = master_of env cid st in
           set_master env cid (m\<lparr>mc_writebacks := map_option (\<lambda>w. snd (getCompletionTime t_now dram_latency 0 w))
             (mc_writebacks m)\<rparr>) st))))"

text \<open>A last-level cache tells the line's home: with the data, if the line is modified.\<close>

definition evict_to_directory ::
  "cc_env \<Rightarrow> nat \<Rightarrow> addr \<Rightarrow> cstate_t \<Rightarrow> u8 list \<Rightarrow> perf_thread \<Rightarrow> cc_state \<Rightarrow> cc_state res" where
  "evict_to_directory env cid evict_address old_state evict_buf th st =
     (let c = ev_cntlr env cid in
      bindE (getHome (ev_home env) evict_address) (\<lambda>home_node_id.
      if old_state = MODIFIED then
        cc_sendMsg env cid FLUSH_REP (cc_core_id c) home_node_id evict_address (Some evict_buf) (cc_block_size c) None th st
      else assertE (old_state = SHARED \<or> old_state = EXCLUSIVE) ''evict_state''
        (cc_sendMsg env cid INV_REP (cc_core_id c) home_node_id evict_address None 0 None th st)))"

definition dispose ::
  "cc_env \<Rightarrow> nat \<Rightarrow> addr \<Rightarrow> cstate_t \<Rightarrow> u8 list \<Rightarrow> perf_thread \<Rightarrow> cc_state \<Rightarrow> cc_state res" where
  "dispose env cid evict_address old_state evict_buf th st =
     (let c = ev_cntlr env cid in
      if cc_perfect c then Inr st
      else if \<not> cc_coherent c then
        assertE (cc_writethrough c \<or> old_state \<noteq> MODIFIED) ''Non-coherent cache is throwing away dirty data'' (Inr st)
      else case cc_next c of
        Some nx \<Rightarrow>
          if \<not> cc_writethrough c \<and> old_state = MODIFIED
          then writeCacheBlock (ev_fuel env) env nx evict_address 0 (Some evict_buf) (cc_block_size c) st
          else Inr st
      | None \<Rightarrow>
          if mc_dram (master_of env cid st) \<noteq> None
          then (if old_state = MODIFIED then evict_to_dram env cid evict_address evict_buf st else Inr st)
          else evict_to_directory env cid evict_address old_state evict_buf th st)"

definition evict_line ::
  "cc_env \<Rightarrow> nat \<Rightarrow> addr \<Rightarrow> cache_block \<Rightarrow> u8 list \<Rightarrow> perf_thread \<Rightarrow> cc_state \<Rightarrow> cc_state res" where
  "evict_line env cid evict_address evict_block evict_buf th st =
     bindE (evict_prev env cid evict_address evict_buf th st) (\<lambda>(evict_buf, st).
     bindE (dispose env cid evict_address (m_cstate evict_block) evict_buf th st) (\<lambda>st.
     bindE (getCacheState env cid evict_address st) (\<lambda>s.
     assertE (s = INVALID) ''Evicted address did not become invalid'' (Inr st))))"

definition mark_inserted :: "cc_env \<Rightarrow> nat \<Rightarrow> block_ptr \<Rightarrow> cc_state \<Rightarrow> cc_state" where
  "mark_inserted env cid p st =
     (let b = block_of env cid p st;
          b = (if ev_cache_only env then setOption b WARMUP else b);
          b = (case ev_owner env of Some f \<Rightarrow> b\<lparr>m_owner := f (cc_core_id (ev_cntlr env cid))\<rparr> | None \<Rightarrow> b)
      in set_block env cid p b st)"

definition insertCacheBlock ::
  "cc_env \<Rightarrow> nat \<Rightarrow> addr \<Rightarrow> cstate_t \<Rightarrow> u8 list option \<Rightarrow> perf_thread \<Rightarrow> cc_state \<Rightarrow> (block_ptr \<times> cc_state) res" where
  "insertCacheBlock env cid address cstate data_buf th st =
     bindE (getCacheState env cid address st) (\<lambda>s.
     assertE (s = INVALID) ''we already have this line, can't add it again''
     (bindE (insertSingleLine address data_buf (CacheBlockInfo SharedBlock (-1) INVALID 0) True (cache_of env cid st))
        (\<lambda>(eviction, evict_address, evict_block, evict_buf, c).
      bindE (setCacheState env cid address cstate (set_cache env cid c st)) (\<lambda>(p, st).
      let st = mark_inserted env cid p st in
      if eviction then
        bindE (evict_line env cid evict_address evict_block
                 (case evict_buf of Some buf \<Rightarrow> buf | None \<Rightarrow> ev_junk env) th st) (\<lambda>st. Inr (p, st))
      else Inr (p, st)))))"

end
