(* ===== verification/Cache_Request.thy ===== *)
theory Cache_Request
  imports Cache_Update
begin

text \<open>
  Requests of a core and of a lower level (cache_cntlr.cc): a hit is served here, a miss goes to the next level and, from the
  last one, to DRAM or as a message to the line's directory; prefetches; the recording of outstanding misses.
\<close>

definition MISS :: nat where "MISS = where_num HW_MISS"
definition WHERE_UNKNOWN :: nat where "WHERE_UNKNOWN = where_num HW_UNKNOWN"

definition PREFETCH_MAX_QUEUE_LENGTH :: nat where "PREFETCH_MAX_QUEUE_LENGTH = 32"
definition PREFETCH_INTERVAL :: time where "PREFETCH_INTERVAL = TimeNS 1"

subsection \<open>Outstanding misses\<close>

definition mshr_put :: "addr \<Rightarrow> mshr_entry \<Rightarrow> (addr \<times> mshr_entry) list \<Rightarrow> (addr \<times> mshr_entry) list" where
  "mshr_put a e m = (if a \<in> fst ` set m then map (\<lambda>(b, f). if b = a then (b, e) else (b, f)) m else m @ [(a, e)])"

text \<open>The entry that completes first, address 0 if none completes before \<open>MaxTime\<close>.\<close>

definition mshr_min :: "(addr \<times> mshr_entry) list \<Rightarrow> addr" where
  "mshr_min m = fst (fold (\<lambda>(a, e) (address_min, time_min).
     if ms_complete e < time_min then (a, ms_complete e) else (address_min, time_min)) m (0, MaxTime))"

text \<open>A round that erases nothing repeats forever; \<open>n\<close> rounds suffice for \<open>n + 8\<close> entries.\<close>

primrec cleanup_loop :: "nat \<Rightarrow> (addr \<times> mshr_entry) list \<Rightarrow> (addr \<times> mshr_entry) list res" where
  "cleanup_loop 0 m = (if length m > 8 then Inl (No_Return ''cleanupMshr'') else Inr m)"
| "cleanup_loop (Suc n) m =
     (if length m > 8 then
        (let a = mshr_min m in
         if a \<in> fst ` set m then cleanup_loop n (filter (\<lambda>(b, _). b \<noteq> a) m) else Inl (No_Return ''cleanupMshr''))
      else Inr m)"

definition cleanupMshr :: "cc_env \<Rightarrow> nat \<Rightarrow> cc_state \<Rightarrow> cc_state res" where
  "cleanupMshr env cid st =
     (let m = master_of env cid st in
      bindE (cleanup_loop (length (mc_mshr m)) (mc_mshr m)) (\<lambda>l. Inr (set_master env cid (m\<lparr>mc_mshr := l\<rparr>) st)))"

text \<open>The time until a miss on the line completes, if it is one that was issued before and completes after now.\<close>

definition mshr_delay :: "cc_env \<Rightarrow> nat \<Rightarrow> addr \<Rightarrow> cc_state \<Rightarrow> time option" where
  "mshr_delay env cid address st =
     (let t_now = elapsed env cid USER_THREAD st in
      case map_of (mc_mshr (master_of env cid st)) address of
        Some e \<Rightarrow> if ms_issue e < t_now \<and> ms_complete e > t_now then Some (ms_complete e - t_now) else None
      | None \<Rightarrow> None)"

definition record_miss :: "cc_env \<Rightarrow> nat \<Rightarrow> addr \<Rightarrow> time \<Rightarrow> time \<Rightarrow> cc_state \<Rightarrow> cc_state" where
  "record_miss env cid address t_issue t_complete st =
     (let m = master_of env cid st in
      set_master env cid (m\<lparr>mc_mshr := mshr_put address (make_mshr t_issue t_complete) (mc_mshr m)\<rparr>) st)"

subsection \<open>Counters\<close>

definition accessATDs :: "mem_op_t \<Rightarrow> bool \<Rightarrow> addr \<Rightarrow> nat \<Rightarrow> cc_master \<Rightarrow> cc_master res" where
  "accessATDs op hit address core_num m =
     (if mc_atds m = [] then Inr m
      else if core_num \<ge> length (mc_atds m) then Inl (Out_Of_Range ''m_atds'')
      else bindE (atd_access op hit address (mc_atds m ! core_num)) (\<lambda>d. Inr (m\<lparr>mc_atds := (mc_atds m)[core_num := d]\<rparr>)))"

definition cc_updateCounters :: "cc_env \<Rightarrow> nat \<Rightarrow> mem_op_t \<Rightarrow> addr \<Rightarrow> cstate_t \<Rightarrow> cc_state \<Rightarrow> cc_state res" where
  "cc_updateCounters env cid op address state st =
     (let c = ev_cntlr env cid in
      bindE (accessATDs op (state \<noteq> INVALID) address (nat (cc_core_id c - cc_core_master c)) (master_of env cid st)) (\<lambda>m.
      cleanupMshr env cid (set_master env cid m st)))"

text \<open>The counters of the cache and those of the controller.\<close>

definition count_cache :: "cc_env \<Rightarrow> nat \<Rightarrow> bool \<Rightarrow> cc_state \<Rightarrow> cc_state" where
  "count_cache env cid cache_hit st = set_cache env cid (updateCounters cache_hit (cache_of env cid st)) st"

primrec cc_updateHits :: "nat \<Rightarrow> cc_env \<Rightarrow> nat \<Rightarrow> mem_op_t \<Rightarrow> cc_state \<Rightarrow> cc_state res" where
  "cc_updateHits 0 env cid op st = Inr st"
| "cc_updateHits (Suc hits) env cid op st =
     bindE (cc_updateCounters env cid op 0 (if op = MEM_READ then SHARED else MODIFIED) (count_cache env cid True st)) (\<lambda>st.
     cc_updateHits hits env cid op st)"

text \<open>The time of the miss that just ended, and where its data came from.\<close>

definition updateUncoreStatistics :: "cc_env \<Rightarrow> nat \<Rightarrow> nat \<Rightarrow> time \<Rightarrow> cc_state \<Rightarrow> cc_state res" where
  "updateUncoreStatistics env cid hit_where now st =
     (let k = cc_perf (ev_cntlr env cid); p = st_perf st k;
          st = st\<lparr>st_last_remote := (st_last_remote st)(cid := hit_where)\<rparr> in
      if sp_time_begin p > 0 then
        (case st_uncore st cid of
           None \<Rightarrow> Inl (Null_Pointer ''m_shmem_perf_global'')
         | Some u \<Rightarrow>
             let p = perf_disable p;
                 u = \<lparr>un_perf = perf_add p (un_perf u), un_totaltime = un_totaltime u + (now - sp_time_begin p),
                      un_numrequests = un_numrequests u + 1\<rparr> in
             Inr (st\<lparr>st_uncore := (st_uncore st)(cid := Some u), st_perf := (st_perf st)(k := perf_reset 0 p)\<rparr>))
      else Inr st)"

subsection \<open>Requests to the directory\<close>

definition request_directory :: "cc_env \<Rightarrow> nat \<Rightarrow> msg_t \<Rightarrow> addr \<Rightarrow> nat \<Rightarrow> cc_state \<Rightarrow> cc_state res" where
  "request_directory env cid ty address perf st =
     bindE (getHome (ev_home env) address) (\<lambda>home.
     cc_sendMsg env cid ty (cc_core_master (ev_cntlr env cid)) home address None 0 (Some perf) USER_THREAD st)"

definition processExReqToDirectory :: "cc_env \<Rightarrow> nat \<Rightarrow> addr \<Rightarrow> cc_state \<Rightarrow> cc_state res" where
  "processExReqToDirectory env cid address st =
     bindE (getCacheState env cid address st) (\<lambda>s.
     assertE (s \<noteq> SHARED) ''ExReq for a Cacheblock in S, should be a UpgradeReq''
     (assertE (s = INVALID) ''cstate == CacheState::INVALID''
       (request_directory env cid EX_REQ address (cc_perf (ev_cntlr env cid)) st)))"

definition processUpgradeReqToDirectory :: "cc_env \<Rightarrow> nat \<Rightarrow> addr \<Rightarrow> nat \<Rightarrow> cc_state \<Rightarrow> cc_state res" where
  "processUpgradeReqToDirectory env cid address perf st =
     bindE (getCacheState env cid address st) (\<lambda>s.
     assertE (s = SHARED) ''cstate == CacheState::SHARED''
     (bindE (setCacheState env cid address SHARED_UPGRADING st) (\<lambda>(_, st).
      request_directory env cid UPGRADE_REQ address perf st)))"

definition processShReqToDirectory :: "cc_env \<Rightarrow> nat \<Rightarrow> addr \<Rightarrow> cc_state \<Rightarrow> cc_state res" where
  "processShReqToDirectory env cid address st = request_directory env cid SH_REQ address (cc_perf (ev_cntlr env cid)) st"

definition enqueue_waiter :: "cc_env \<Rightarrow> nat \<Rightarrow> addr \<Rightarrow> waiter \<Rightarrow> cc_state \<Rightarrow> cc_state" where
  "enqueue_waiter env cid address w st =
     (let m = master_of env cid st in set_master env cid (m\<lparr>mc_waiters := q_enqueue address w (mc_waiters m)\<rparr>) st)"

text \<open>Only the first to wait for a line sends a request.\<close>

definition initiateDirectoryAccess ::
  "cc_env \<Rightarrow> nat \<Rightarrow> mem_op_t \<Rightarrow> addr \<Rightarrow> bool \<Rightarrow> time \<Rightarrow> cc_state \<Rightarrow> cc_state res" where
  "initiateDirectoryAccess env cid op address isPrefetch t_issue st =
     (let exclusive = (op \<noteq> MEM_READ); k = cc_perf (ev_cntlr env cid);
          st = enqueue_waiter env cid address
            \<lparr>wt_exclusive = exclusive, wt_isPrefetch = isPrefetch, wt_cntlr = cid, wt_t_issue = t_issue\<rparr> st in
      if q_size address (mc_waiters (master_of env cid st)) = 1 then
        (let st = st\<lparr>st_perf := (st_perf st)(k := perf_reset (elapsed env cid USER_THREAD st) (st_perf st k))\<rparr> in
         if exclusive then
           bindE (getCacheState env cid address st) (\<lambda>s.
           if s = SHARED then processUpgradeReqToDirectory env cid address k st else processExReqToDirectory env cid address st)
         else processShReqToDirectory env cid address st)
      else Inr st)"

subsection \<open>Data from the next level, usage bits, writes\<close>

definition next_level :: "cc_env \<Rightarrow> nat \<Rightarrow> nat res" where
  "next_level env cid = (case cc_next (ev_cntlr env cid) of None \<Rightarrow> Inl (Null_Pointer ''m_next_cache_cntlr'') | Some nx \<Rightarrow> Inr nx)"

text \<open>Contention on the connection to the next level, whose transfer time is part of its access time.\<close>

definition read_bandwidth :: "cc_env \<Rightarrow> nat \<Rightarrow> bool \<Rightarrow> time \<Rightarrow> cc_state \<Rightarrow> cc_state res" where
  "read_bandwidth env cid modeled t_now st =
     (let c = ev_cntlr env cid in
      if modeled \<and> \<not> bpc_isInfinite (cc_next_bw c) then
        bindE (bpc_getRoundedLatency (cc_next_bw c) (ucast (cc_block_size c * 8))) (\<lambda>delay.
        let m = master_of env cid st; (t_done, bw) = getCompletionTime t_now delay 0 (mc_next_bw m) in
        assertE (t_done \<ge> t_now + delay) ''Did not expect next-level cache to be this fast''
          (incr_time env cid (t_done - t_now - delay) USER_THREAD (set_master env cid (m\<lparr>mc_next_bw := bw\<rparr>) st)))
      else Inr st)"

definition copyDataFromNextLevel :: "cc_env \<Rightarrow> nat \<Rightarrow> mem_op_t \<Rightarrow> addr \<Rightarrow> bool \<Rightarrow> time \<Rightarrow> cc_state \<Rightarrow> cc_state res" where
  "copyDataFromNextLevel env cid op address modeled t_now st =
     bindE (next_level env cid) (\<lambda>nx.
     bindE (operationPermissibleinCache env nx address op st) (\<lambda>(ok, _).
     assertE ok ''Tried to read from next-level cache, but data is already gone''
     (bindE (retrieveCacheBlock env nx address (ev_junk env) False st) (\<lambda>(data_buf, st).
      bindE (getCacheState env nx address st) (\<lambda>cstate.
      bindE (read_bandwidth env cid modeled t_now st) (\<lambda>st.
      bindE (getCacheBlockInfo env cid address st) (\<lambda>info.
      if info \<noteq> None then
        bindE (updateCacheBlock (ev_fuel env) env cid address cstate None st) (\<lambda>(_, _, _, st). Inr st)
      else
        bindE (insertCacheBlock env cid address cstate (Some data_buf) USER_THREAD st) (\<lambda>(_, st). Inr st))))))))"

text \<open>The usage bits of a line go up until they bring nothing new.\<close>

primrec updateUsageBits :: "nat \<Rightarrow> cc_env \<Rightarrow> nat \<Rightarrow> addr \<Rightarrow> u8 \<Rightarrow> cc_state \<Rightarrow> cc_state res" where
  "updateUsageBits 0 env cid address used st = Inl (No_Return ''updateUsageBits'')"
| "updateUsageBits (Suc n) env cid address used st =
     bindE (getCacheBlockInfo env cid address st) (\<lambda>info. case info of
       None \<Rightarrow> Inl (Null_Pointer ''cache_block_info'')
     | Some p \<Rightarrow>
         (let (new_bits, b) = updateUsage_mask (block_of env cid p st) used; st = set_block env cid p b st in
          case cc_next (ev_cntlr env cid) of
            Some nx \<Rightarrow> if new_bits \<and> \<not> cc_perfect (ev_cntlr env cid) then updateUsageBits n env nx address used st else Inr st
          | None \<Rightarrow> Inr st))"

text \<open>The access of the core itself, to the first level; the result is what was read.\<close>

definition accessCache ::
  "cc_env \<Rightarrow> nat \<Rightarrow> mem_op_t \<Rightarrow> addr \<Rightarrow> u32 \<Rightarrow> u8 list option \<Rightarrow> u32 \<Rightarrow> bool \<Rightarrow> cc_state \<Rightarrow> (u8 list option \<times> cc_state) res" where
  "accessCache env cid op ca_address offset data_buf data_length update_replacement st =
     (let a = ca_address + ucast offset in
      if op = MEM_WRITE then
        bindE (accessSingleLine a STORE data_buf data_length update_replacement (cache_of env cid st)) (\<lambda>(_, _, c).
        let st = set_cache env cid c st in
        if cc_writethrough (ev_cntlr env cid) then
          (case cc_next (ev_cntlr env cid) of
             None \<Rightarrow> Inl (Assert_Failed ''Writethrough enabled on last-level cache !?'')
           | Some nx \<Rightarrow>
               bindE (writeCacheBlock (ev_fuel env) env nx ca_address offset data_buf data_length st) (\<lambda>st. Inr (data_buf, st)))
        else Inr (data_buf, st))
      else
        bindE (accessSingleLine a LOAD data_buf data_length update_replacement (cache_of env cid st)) (\<lambda>(_, out, c).
        Inr (case (out, data_buf) of (Some xs, Some buf) \<Rightarrow> Some (copy_bytes (unat data_length) xs buf) | _ \<Rightarrow> data_buf,
             set_cache env cid c st)))"

subsection \<open>Training the prefetcher\<close>

text \<open>The loop over the addresses: the queue grows until it holds more than \<open>PREFETCH_MAX_QUEUE_LENGTH\<close>.\<close>

primrec queue_prefetches :: "cc_env \<Rightarrow> nat \<Rightarrow> addr list \<Rightarrow> addr list \<Rightarrow> cc_state \<Rightarrow> addr list res" where
  "queue_prefetches env cid [] queue st = Inr queue"
| "queue_prefetches env cid (a # as) queue st =
     (if length queue > PREFETCH_MAX_QUEUE_LENGTH then Inr queue
      else
        bindE (operationPermissibleinCache env cid a MEM_READ st) (\<lambda>(ok, _).
        queue_prefetches env cid as (if ok then queue else queue @ [a]) st))"

definition trainPrefetcher :: "cc_env \<Rightarrow> nat \<Rightarrow> addr \<Rightarrow> bool \<Rightarrow> bool \<Rightarrow> time \<Rightarrow> cc_state \<Rightarrow> cc_state res" where
  "trainPrefetcher env cid address cache_hit prefetch_hit t_issue st =
     (case mc_prefetcher (master_of env cid st) of
        None \<Rightarrow> Inr st
      | Some pf \<Rightarrow>
          bindE (getNextAddress address pf) (\<lambda>(prefetchList, pf).
          let st = set_master env cid ((master_of env cid st)\<lparr>mc_prefetcher := Some pf\<rparr>) st in
          if \<not> cache_hit \<or> (cc_pf_on_pf_hit (ev_cntlr env cid) \<and> prefetch_hit) then
            bindE (queue_prefetches env cid prefetchList [] st) (\<lambda>queue.
            Inr (set_master env cid ((master_of env cid st)\<lparr>mc_prefetch_list := queue, mc_prefetch_next := t_issue + PREFETCH_INTERVAL\<rparr>) st))
          else Inr st))"

end
