(* ===== verification/Cache_Levels.thy ===== *)
theory Cache_Levels
  imports Cache_Request
begin

text \<open>
  Memory accesses through the levels (cache_cntlr.cc): \<open>processShmemReqFromPrevCache\<close>, a request of the previous level or of
  the prefetcher; \<open>processMemOpFromCore\<close>, an access of a core to its first level; and prefetches.

  When the last level misses and has sent a message, the thread waits until the network thread wakes it up. What happens in
  between, messages handled and accesses of other cores, is the argument \<open>wait\<close>: it takes the controller, the address and the
  state and returns the state in which the thread goes on.
\<close>

subsection \<open>A hit\<close>

text \<open>A perfect cache turns a miss into a hit; the result says whether the line is there now, and the block if it was
  there before or \<open>fresh\<close> keeps the pointer to the new one.\<close>

definition perfect_hit ::
  "cc_env \<Rightarrow> nat \<Rightarrow> mem_op_t \<Rightarrow> addr \<Rightarrow> bool \<Rightarrow> bool \<Rightarrow> block_ptr option \<Rightarrow> cc_state \<Rightarrow> (bool \<times> block_ptr option \<times> cc_state) res" where
  "perfect_hit env cid op address fresh hit info st =
     (if hit \<or> \<not> cc_perfect (ev_cntlr env cid) then Inr (hit, info, st)
      else case info of
        Some p \<Rightarrow> Inr (True, info, set_cstate env cid p MODIFIED st)
      | None \<Rightarrow>
          bindE (insertCacheBlock env cid address (if op = MEM_READ then SHARED else MODIFIED) None USER_THREAD st) (\<lambda>(p, st).
          Inr (True, if fresh then Some p else None, st)))"

text \<open>The marks of a line that is used; the result is whether the prefetcher had brought it.\<close>

definition use_line :: "cc_env \<Rightarrow> nat \<Rightarrow> bool \<Rightarrow> block_ptr option \<Rightarrow> cc_state \<Rightarrow> (bool \<times> cc_state) res" where
  "use_line env cid demand info st =
     (case info of
        None \<Rightarrow> Inl (Null_Pointer ''cache_block_info'')
      | Some p \<Rightarrow>
          (let b = block_of env cid p st; prefetched = (demand \<and> hasOption b PREFETCH);
               b = (if prefetched then clearOption b PREFETCH else b);
               b = (if hasOption b WARMUP \<and> \<not> ev_cache_only env then clearOption b WARMUP else b)
           in Inr (prefetched, set_block env cid p b st)))"

text \<open>The other caches of the previous level give up the line on a write, and share it when it is read and not shared.\<close>

definition snoop_siblings ::
  "cc_env \<Rightarrow> nat \<Rightarrow> nat \<Rightarrow> mem_op_t \<Rightarrow> addr \<Rightarrow> block_ptr option \<Rightarrow> cc_state \<Rightarrow> (bool \<times> cc_state) res" where
  "snoop_siblings env cid requester op address info st =
     (let s = ptr_state env cid info st in
      if op \<noteq> MEM_READ \<or> s = MODIFIED \<or> s = EXCLUSIVE then
        bindE (update_prev env cid (Some requester) address (if op \<noteq> MEM_READ then INVALID else SHARED) st)
          (\<lambda>(latency, sibling_hit, st).
        bindE (incr_time env cid latency USER_THREAD st) (\<lambda>st. Inr (sibling_hit, st)))
      else Inr (False, st))"

definition hit_time :: "cc_env \<Rightarrow> nat \<Rightarrow> addr \<Rightarrow> cc_state \<Rightarrow> cc_state res" where
  "hit_time env cid address st =
     (case mshr_delay env cid address st of
        Some latency \<Rightarrow> incr_time env cid latency USER_THREAD st
      | None \<Rightarrow> incr_access env cid ACCESS_CACHE_DATA_AND_TAGS USER_THREAD st)"

text \<open>Where the data was: as the directory's message said, if one just brought it, else here or in a sibling.\<close>

definition hit_where_here :: "cc_env \<Rightarrow> nat \<Rightarrow> bool \<Rightarrow> cc_state \<Rightarrow> nat \<times> cc_state" where
  "hit_where_here env cid sibling_hit st =
     (if st_last_remote st cid \<noteq> WHERE_UNKNOWN
      then (st_last_remote st cid, st\<lparr>st_last_remote := (st_last_remote st)(cid := WHERE_UNKNOWN)\<rparr>)
      else (component_num (cc_component (ev_cntlr env cid)) + (if sibling_hit then where_num HW_SIBLING else 0), st))"

definition serve_hit ::
  "cc_env \<Rightarrow> nat \<Rightarrow> nat \<Rightarrow> mem_op_t \<Rightarrow> addr \<Rightarrow> bool \<Rightarrow> bool \<Rightarrow> block_ptr option \<Rightarrow> cc_state \<Rightarrow> (nat \<times> bool \<times> cc_state) res" where
  "serve_hit env cid requester op address modeled demand info st =
     bindE (use_line env cid demand info st) (\<lambda>(prefetch_hit, st).
     bindE (if modeled then hit_time env cid address st else Inr st) (\<lambda>st.
     bindE (snoop_siblings env cid requester op address info st) (\<lambda>(sibling_hit, st).
     let (hit_where, st) = hit_where_here env cid sibling_hit st in Inr (hit_where, prefetch_hit, st))))"

subsection \<open>A miss\<close>

text \<open>Before a shared line is upgraded, the other caches of the previous level give it up.\<close>

definition upgrade_siblings :: "cc_env \<Rightarrow> nat \<Rightarrow> nat \<Rightarrow> addr \<Rightarrow> cc_state \<Rightarrow> cc_state res" where
  "upgrade_siblings env cid requester address st =
     bindE (update_prev env cid (Some requester) address INVALID st) (\<lambda>(latency, _, st). incr_time env cid latency USER_THREAD st)"

definition mark_prefetch :: "cc_env \<Rightarrow> nat \<Rightarrow> addr \<Rightarrow> cc_state \<Rightarrow> cc_state res" where
  "mark_prefetch env cid address st =
     bindE (getCacheBlockInfo env cid address st) (\<lambda>info. case info of
       None \<Rightarrow> Inl (Null_Pointer ''cache_block_info'')
     | Some p \<Rightarrow> Inr (set_block env cid p (setOption (block_of env cid p st) PREFETCH) st))"

definition fetch_from_dram :: "cc_env \<Rightarrow> nat \<Rightarrow> mem_op_t \<Rightarrow> addr \<Rightarrow> bool \<Rightarrow> cc_state \<Rightarrow> (nat \<times> cc_state) res" where
  "fetch_from_dram env cid op address prefetch st =
     (let k = cc_perf (ev_cntlr env cid);
          st = st\<lparr>st_perf := (st_perf st)(k := perf_reset (elapsed env cid USER_THREAD st) (st_perf st k))\<rparr> in
      bindE (accessDRAM env cid MEM_READ address (ev_junk env) st) (\<lambda>((w, latency, data_buf), st).
      bindE (incr_time env cid latency USER_THREAD st) (\<lambda>st.
      bindE (insertCacheBlock env cid address (if op = MEM_READ then SHARED else MODIFIED) (Some data_buf) USER_THREAD st) (\<lambda>(_, st).
      bindE (if prefetch then mark_prefetch env cid address st else Inr st) (\<lambda>st.
      bindE (updateUncoreStatistics env cid (where_num w) (elapsed env cid USER_THREAD st) st) (\<lambda>st.
      Inr (where_num w, st)))))))"

text \<open>A miss in the last level; the result is whether it has become a hit, and where.\<close>

definition miss_last_level ::
  "cc_env \<Rightarrow> nat \<Rightarrow> nat \<Rightarrow> mem_op_t \<Rightarrow> addr \<Rightarrow> bool \<Rightarrow> time \<Rightarrow> block_ptr option \<Rightarrow> cc_state \<Rightarrow> (bool \<times> nat \<times> cc_state) res" where
  "miss_last_level env cid requester op address prefetch t_issue info st =
     (let here = component_num (cc_component (ev_cntlr env cid)) in
      case info of
        Some p \<Rightarrow>
          if m_cstate (block_of env cid p st) = EXCLUSIVE then
            bindE (upgrade_siblings env cid requester address st) (\<lambda>st. Inr (True, here, set_cstate env cid p MODIFIED st))
          else if mc_dram (master_of env cid st) \<noteq> None then Inr (True, here, set_cstate env cid p MODIFIED st)
          else bindE (initiateDirectoryAccess env cid op address prefetch t_issue st) (\<lambda>st. Inr (False, MISS, st))
      | None \<Rightarrow>
          if mc_dram (master_of env cid st) \<noteq> None then
            bindE (fetch_from_dram env cid op address prefetch st) (\<lambda>(w, st). Inr (True, w, st))
          else bindE (initiateDirectoryAccess env cid op address prefetch t_issue st) (\<lambda>st. Inr (False, MISS, st)))"

text \<open>A miss in another level: \<open>ask\<close> is the request to the next one.\<close>

definition miss_to_next ::
  "(prefetch_type_t \<Rightarrow> cc_state \<Rightarrow> (nat \<times> cc_state) res) \<Rightarrow> cc_env \<Rightarrow> nat \<Rightarrow> mem_op_t \<Rightarrow> addr \<Rightarrow> bool \<Rightarrow> prefetch_type_t \<Rightarrow>
     block_ptr option \<Rightarrow> cc_state \<Rightarrow> (bool \<times> nat \<times> cc_state) res" where
  "miss_to_next ask env cid op address modeled pf info st =
     bindE (if info \<noteq> None then invalidateCacheBlock env cid address st else Inr st) (\<lambda>st.
     bindE (ask (if pf = PF_NONE then PF_NONE else PF_OTHER) st) (\<lambda>(hit_where, st).
     if hit_where = MISS then Inr (False, MISS, st)
     else
       bindE (copyDataFromNextLevel env cid op address modeled (elapsed env cid USER_THREAD st) st) (\<lambda>st.
       bindE (if pf \<noteq> PF_NONE then mark_prefetch env cid address st else Inr st) (\<lambda>st.
       Inr (True, hit_where, st)))))"

definition serve_miss ::
  "(nat \<Rightarrow> prefetch_type_t \<Rightarrow> cc_state \<Rightarrow> (nat \<times> cc_state) res) \<Rightarrow> cc_env \<Rightarrow> nat \<Rightarrow> nat \<Rightarrow> mem_op_t \<Rightarrow> addr \<Rightarrow> bool \<Rightarrow>
     prefetch_type_t \<Rightarrow> time \<Rightarrow> block_ptr option \<Rightarrow> cc_state \<Rightarrow> (bool \<times> nat \<times> cc_state) res" where
  "serve_miss ask env cid requester op address modeled pf t_issue info st =
     bindE (if modeled then incr_access env cid ACCESS_CACHE_TAGS USER_THREAD st else Inr st) (\<lambda>st.
     bindE (if info \<noteq> None \<and> ptr_state env cid info st = SHARED then upgrade_siblings env cid requester address st else Inr st) (\<lambda>st.
     case cc_next (ev_cntlr env cid) of
       Some nx \<Rightarrow> miss_to_next (ask nx) env cid op address modeled pf info st
     | None \<Rightarrow> miss_last_level env cid requester op address (pf \<noteq> PF_NONE) t_issue info st))"

subsection \<open>Requests of the previous level\<close>

text \<open>The data is read, and a miss that was served is remembered with the time it completed.\<close>

definition finish_request :: "cc_env \<Rightarrow> nat \<Rightarrow> addr \<Rightarrow> bool \<Rightarrow> bool \<Rightarrow> bool \<Rightarrow> time \<Rightarrow> cc_state \<Rightarrow> cc_state res" where
  "finish_request env cid address modeled counted first_hit t_issue st =
     bindE (retrieveCacheBlock env cid address (ev_junk env) (first_hit \<and> counted) st) (\<lambda>(_, st).
     if modeled \<and> \<not> first_hit
     then cleanupMshr env cid (record_miss env cid address t_issue (elapsed env cid USER_THREAD st) st) else Inr st)"

definition count_request ::
  "cc_env \<Rightarrow> nat \<Rightarrow> mem_op_t \<Rightarrow> addr \<Rightarrow> bool \<Rightarrow> bool \<Rightarrow> prefetch_type_t \<Rightarrow> cc_state \<Rightarrow> cc_state res" where
  "count_request env cid op address counted cache_hit pf st =
     (if counted then
        (let st = (if pf = PF_NONE then count_cache env cid cache_hit st else st) in
         bindE (getCacheState env cid address st) (\<lambda>s. cc_updateCounters env cid op address s st))
      else Inr st)"

primrec processShmemReqFromPrevCache ::
  "nat \<Rightarrow> cc_env \<Rightarrow> nat \<Rightarrow> nat \<Rightarrow> mem_op_t \<Rightarrow> addr \<Rightarrow> bool \<Rightarrow> bool \<Rightarrow> prefetch_type_t \<Rightarrow> time \<Rightarrow> cc_state \<Rightarrow> (nat \<times> cc_state) res" where
  "processShmemReqFromPrevCache 0 env cid requester op address modeled counted pf t_issue st =
     Inl (No_Return ''processShmemReqFromPrevCache'')"
| "processShmemReqFromPrevCache (Suc n) env cid requester op address modeled counted pf t_issue st =
     bindE (operationPermissibleinCache env cid address op st) (\<lambda>(first_hit, info).
     bindE (perfect_hit env cid op address True first_hit info st) (\<lambda>(cache_hit, info, st).
     bindE (count_request env cid op address counted cache_hit pf st) (\<lambda>st.
     bindE (if cache_hit then
         bindE (serve_hit env cid requester op address modeled (pf = PF_NONE) info st) (\<lambda>(w, prefetch_hit, st).
         Inr (True, w, prefetch_hit, st))
       else
         bindE (serve_miss (\<lambda>nx pf st. processShmemReqFromPrevCache n env nx cid op address modeled counted pf t_issue st)
                  env cid requester op address modeled pf t_issue info st) (\<lambda>(cache_hit, w, st).
         Inr (cache_hit, w, False, st))) (\<lambda>(cache_hit, hit_where, prefetch_hit, st).
     bindE (if cache_hit then finish_request env cid address modeled counted first_hit t_issue st else Inr st) (\<lambda>st.
     bindE (if modeled then trainPrefetcher env cid address cache_hit prefetch_hit t_issue st else Inr st) (\<lambda>st.
     Inr (hit_where, st)))))))"

definition request_line ::
  "cc_env \<Rightarrow> nat \<Rightarrow> nat \<Rightarrow> mem_op_t \<Rightarrow> addr \<Rightarrow> bool \<Rightarrow> bool \<Rightarrow> prefetch_type_t \<Rightarrow> time \<Rightarrow> cc_state \<Rightarrow> (nat \<times> cc_state) res" where
  "request_line env cid requester op address modeled counted pf t_issue st =
     processShmemReqFromPrevCache (ev_fuel env) env cid requester op address modeled counted pf t_issue st"

subsection \<open>Prefetches\<close>

type_synonym wait_fun = "nat \<Rightarrow> addr \<Rightarrow> cc_state \<Rightarrow> cc_state res"

text \<open>A prefetch costs the core no time.\<close>

definition doPrefetch :: "wait_fun \<Rightarrow> cc_env \<Rightarrow> nat \<Rightarrow> addr \<Rightarrow> time \<Rightarrow> cc_state \<Rightarrow> cc_state res" where
  "doPrefetch wait env cid prefetch_address t_start st =
     (let t_before = elapsed env cid USER_THREAD st; st = set_elapsed env cid USER_THREAD t_start st in
      bindE (request_line env cid cid MEM_READ prefetch_address True True PF_OWN t_start st) (\<lambda>(hit_where, st).
      bindE (if hit_where = MISS then
          bindE (wait cid prefetch_address st) (\<lambda>st.
          bindE (request_line env cid cid MEM_READ prefetch_address False False PF_OWN t_start st) (\<lambda>(hit_where, st).
          assertE (hit_where \<noteq> MISS) ''Line was not there after prefetch'' (Inr st)))
        else Inr st) (\<lambda>st.
      Inr (set_elapsed env cid USER_THREAD t_before st))))"

text \<open>The first address in the queue that is not in the cache, and the rest of the queue.\<close>

primrec next_prefetch :: "cc_env \<Rightarrow> nat \<Rightarrow> addr list \<Rightarrow> cc_state \<Rightarrow> (addr \<times> addr list) res" where
  "next_prefetch env cid [] st = Inr (INVALID_ADDRESS, [])"
| "next_prefetch env cid (a # as) st =
     bindE (operationPermissibleinCache env cid a MEM_READ st) (\<lambda>(ok, _).
     if ok then next_prefetch env cid as st else Inr (a, as))"

definition prefetch_here :: "wait_fun \<Rightarrow> cc_env \<Rightarrow> nat \<Rightarrow> time \<Rightarrow> cc_state \<Rightarrow> cc_state res" where
  "prefetch_here wait env cid t_now st =
     (let m = master_of env cid st in
      bindE (if mc_prefetch_next m \<le> t_now then next_prefetch env cid (mc_prefetch_list m) st
             else Inr (INVALID_ADDRESS, mc_prefetch_list m)) (\<lambda>(address_to_prefetch, queue).
      let st = set_master env cid (m\<lparr>mc_prefetch_list := queue\<rparr>) st in
      if address_to_prefetch \<noteq> INVALID_ADDRESS then
        bindE (doPrefetch wait env cid address_to_prefetch (mc_prefetch_next m) st) (\<lambda>st.
        let m = master_of env cid st in
        Inr (set_master env cid (m\<lparr>mc_prefetch_next := mc_prefetch_next m + PREFETCH_INTERVAL\<rparr>) st))
      else Inr st))"

primrec Prefetch :: "nat \<Rightarrow> wait_fun \<Rightarrow> cc_env \<Rightarrow> nat \<Rightarrow> time \<Rightarrow> cc_state \<Rightarrow> cc_state res" where
  "Prefetch 0 wait env cid t_now st = Inl (No_Return ''Prefetch'')"
| "Prefetch (Suc n) wait env cid t_now st =
     bindE (prefetch_here wait env cid t_now st) (\<lambda>st.
     case cc_next (ev_cntlr env cid) of None \<Rightarrow> Inr st | Some nx \<Rightarrow> Prefetch n wait env nx t_now st)"

subsection \<open>Accesses of a core\<close>

datatype lock_signal_t = LOCK_NONE | LOCK_LOCK | LOCK_UNLOCK

text \<open>A hit in the first level: its latency, then what is left of an overlapping miss.\<close>

definition first_level_hit :: "cc_env \<Rightarrow> nat \<Rightarrow> addr \<Rightarrow> bool \<Rightarrow> block_ptr option \<Rightarrow> cc_state \<Rightarrow> (bool \<times> cc_state) res" where
  "first_level_hit env cid ca_address modeled info st =
     bindE (incr_access env cid ACCESS_CACHE_DATA_AND_TAGS USER_THREAD st) (\<lambda>st.
     bindE (use_line env cid True info st) (\<lambda>(prefetch_hit, st).
     bindE (let t_now = elapsed env cid USER_THREAD st;
                t_completed = getTagCompletionTime ca_address (mc_l1_mshr (master_of env cid st)) in
            if modeled \<and> cc_l1_mshr (ev_cntlr env cid) \<and> t_completed \<noteq> MaxTime \<and> t_completed > t_now
            then incr_time env cid (t_completed - t_now) USER_THREAD st else Inr st) (\<lambda>st.
     bindE (case mshr_delay env cid ca_address st of
              Some latency \<Rightarrow> if modeled then incr_time env cid latency USER_THREAD st else Inr st
            | None \<Rightarrow> Inr st) (\<lambda>st.
     Inr (prefetch_hit, st)))))"

text \<open>A miss waits for a free MSHR, drops the copy it may have and asks the next level; \<open>t_miss_begin\<close> and
  \<open>t_mshr_avail\<close> are kept for the MSHR.\<close>

definition wait_for_mshr :: "cc_env \<Rightarrow> nat \<Rightarrow> bool \<Rightarrow> cc_state \<Rightarrow> (time \<times> time \<times> cc_state) res" where
  "wait_for_mshr env cid modeled st =
     (let t_miss_begin = elapsed env cid USER_THREAD st in
      if modeled \<and> cc_l1_mshr (ev_cntlr env cid) then
        (let t_mshr_avail = getStartTime t_miss_begin (mc_l1_mshr (master_of env cid st)) in
         assertE (t_mshr_avail \<ge> t_miss_begin) ''t_mshr_avail < t_miss_begin''
           (bindE (incr_time env cid (t_mshr_avail - t_miss_begin) USER_THREAD st) (\<lambda>st. Inr (t_miss_begin, t_mshr_avail, st))))
      else Inr (t_miss_begin, t_miss_begin, st))"

definition ask_next_level ::
  "wait_fun \<Rightarrow> cc_env \<Rightarrow> nat \<Rightarrow> mem_op_t \<Rightarrow> addr \<Rightarrow> bool \<Rightarrow> bool \<Rightarrow> time \<Rightarrow> cc_state \<Rightarrow> (nat \<times> cc_state) res" where
  "ask_next_level wait env cid op ca_address modeled counted t_start st =
     bindE (next_level env cid) (\<lambda>nx.
     bindE (request_line env nx cid op ca_address modeled counted PF_NONE t_start st) (\<lambda>(hit_where, st).
     if hit_where \<noteq> MISS then Inr (hit_where, st)
     else
       bindE (wait cid ca_address st) (\<lambda>st.
       bindE (request_line env nx cid op ca_address False False PF_NONE t_start st) (\<lambda>(hit_where, st).
       assertE (hit_where \<noteq> MISS) ''Tried to read in next-level cache, but data is already gone'' (Inr (hit_where, st))))))"

definition occupy_mshr :: "cc_env \<Rightarrow> nat \<Rightarrow> addr \<Rightarrow> bool \<Rightarrow> time \<Rightarrow> time \<Rightarrow> cc_state \<Rightarrow> cc_state" where
  "occupy_mshr env cid ca_address modeled t_miss_begin t_mshr_avail st =
     (if modeled \<and> cc_l1_mshr (ev_cntlr env cid) then
        (let m = master_of env cid st; t_miss_end = elapsed env cid USER_THREAD st in
         set_master env cid (m\<lparr>mc_l1_mshr := snd (getCompletionTime t_miss_begin (t_miss_end - t_mshr_avail) ca_address (mc_l1_mshr m))\<rparr>) st)
      else st)"

definition first_level_miss ::
  "wait_fun \<Rightarrow> cc_env \<Rightarrow> nat \<Rightarrow> lock_signal_t \<Rightarrow> mem_op_t \<Rightarrow> addr \<Rightarrow> bool \<Rightarrow> bool \<Rightarrow> time \<Rightarrow> cc_state \<Rightarrow>
     (nat \<times> block_ptr option \<times> cc_state) res" where
  "first_level_miss wait env cid lock_signal op ca_address modeled counted t_start st =
     bindE (incr_access env cid ACCESS_CACHE_TAGS USER_THREAD st) (\<lambda>st.
     bindE (wait_for_mshr env cid modeled st) (\<lambda>(t_miss_begin, t_mshr_avail, st).
     if lock_signal = LOCK_UNLOCK then Inl (Log_Error ''Expected to find address in L1 Cache'')
     else
       bindE (getCacheState env cid ca_address st) (\<lambda>s.
       bindE (if s \<noteq> INVALID then invalidateCacheBlock env cid ca_address st else Inr st) (\<lambda>st.
       bindE (ask_next_level wait env cid op ca_address modeled counted t_start st) (\<lambda>(hit_where, st).
       bindE (copyDataFromNextLevel env cid op ca_address modeled (elapsed env cid USER_THREAD st) st) (\<lambda>st.
       bindE (operationPermissibleinCache env cid ca_address op st) (\<lambda>(ok, info).
       assertE ok ''Expected to be valid in L1''
         (Inr (hit_where, info, occupy_mshr env cid ca_address modeled t_miss_begin t_mshr_avail st)))))))))"

definition record_usage :: "cc_env \<Rightarrow> nat \<Rightarrow> addr \<Rightarrow> u32 \<Rightarrow> u32 \<Rightarrow> bool \<Rightarrow> block_ptr option \<Rightarrow> cc_state \<Rightarrow> cc_state res" where
  "record_usage env cid ca_address offset data_length modeled info st =
     (case cc_next (ev_cntlr env cid) of
        Some nx \<Rightarrow>
          if modeled \<and> \<not> cc_perfect (ev_cntlr env cid) \<and> ev_owner env \<noteq> None then
            (case info of
               None \<Rightarrow> Inl (Null_Pointer ''cache_block_info'')
             | Some p \<Rightarrow>
                 (let (new_bits, b) = updateUsage (block_of env cid p st) offset data_length; st = set_block env cid p b st in
                  if new_bits then updateUsageBits (ev_fuel env) env nx ca_address (m_used b) st else Inr st))
          else Inr st
      | None \<Rightarrow> Inr st)"

text \<open>The result is where the data was and the buffer, with what a load read.\<close>

definition processMemOpFromCore ::
  "wait_fun \<Rightarrow> cc_env \<Rightarrow> nat \<Rightarrow> lock_signal_t \<Rightarrow> mem_op_t \<Rightarrow> addr \<Rightarrow> u32 \<Rightarrow> u8 list option \<Rightarrow> u32 \<Rightarrow> bool \<Rightarrow> bool \<Rightarrow> cc_state \<Rightarrow>
     (nat \<times> u8 list option \<times> cc_state) res" where
  "processMemOpFromCore wait env cid lock_signal op ca_address offset data_buf data_length modeled counted st =
     (let c = ev_cntlr env cid; here = component_num (cc_component c); t_start = elapsed env cid USER_THREAD st in
      assertE (ca_address AND ucast (cc_block_size c - 1) = 0) ''address at cache line''
      (assertE (offset + data_length \<le> cc_block_size c) ''access until''
      (bindE (operationPermissibleinCache env cid ca_address op st) (\<lambda>(hit, info).
       bindE (perfect_hit env cid op ca_address False hit info st) (\<lambda>(cache_hit, info, st).
       bindE (if counted then cc_updateCounters env cid op ca_address (ptr_state env cid info st) (count_cache env cid cache_hit st)
              else Inr st) (\<lambda>st.
       bindE (if cache_hit then
           bindE (first_level_hit env cid ca_address modeled info st) (\<lambda>(prefetch_hit, st). Inr (here, prefetch_hit, info, st))
         else
           bindE (first_level_miss wait env cid lock_signal op ca_address modeled counted t_start st) (\<lambda>(w, info, st).
           Inr (w, False, info, st))) (\<lambda>(hit_where, prefetch_hit, info, st).
       bindE (record_usage env cid ca_address offset data_length modeled info st) (\<lambda>st.
       bindE (accessCache env cid op ca_address offset data_buf data_length (hit_where = here \<and> counted) st) (\<lambda>(data_buf, st).
       bindE (if modeled then trainPrefetcher env cid ca_address cache_hit prefetch_hit t_start st else Inr st) (\<lambda>st.
       bindE (if lock_signal \<noteq> LOCK_LOCK \<and> modeled then Prefetch (ev_fuel env) wait env cid t_start st else Inr st) (\<lambda>st.
       Inr (hit_where, data_buf, st))))))))))))"

end
