(* ===== verification/Cache_Messages.thy ===== *)
theory Cache_Messages
  imports Cache_Levels
begin

text \<open>
  The messages of the tag directories, handled by the network thread at the last-level cache (cache_cntlr.cc). A reply wakes
  up the threads that wait for the line, one after the other: \<open>wake\<close> is what such a thread does until it hands the line's
  lock back, the rest of its access.
\<close>

subsection \<open>Requests of the directory\<close>

definition msg_updateTime :: "cc_env \<Rightarrow> nat \<Rightarrow> shmem_msg \<Rightarrow> shmem_reason \<Rightarrow> cc_state \<Rightarrow> cc_state" where
  "msg_updateTime env cid m reason st =
     st\<lparr>st_perf := updateTime (msg_perf m) (elapsed env cid SIM_THREAD st) reason (st_perf st)\<rparr>"

definition processInvReqFromDramDirectory :: "cc_env \<Rightarrow> nat \<Rightarrow> core_id \<Rightarrow> shmem_msg \<Rightarrow> cc_state \<Rightarrow> cc_state res" where
  "processInvReqFromDramDirectory env cid sender m st =
     bindE (getCacheState env cid (msg_address m) st) (\<lambda>cstate.
     if cstate \<noteq> INVALID then
       (let st = msg_updateTime env cid m R_UNKNOWN st in
        bindE (incr_access env cid ACCESS_CACHE_TAGS SIM_THREAD st) (\<lambda>st.
        bindE (updateCacheBlock (ev_fuel env) env cid (msg_address m) INVALID None st) (\<lambda>(_, _, _, st).
        let st = msg_updateTime env cid m R_REMOTE_CACHE_INV st in
        cc_sendMsg env cid INV_REP (msg_requester m) sender (msg_address m) None 0 (msg_perf m) SIM_THREAD st)))
     else incr_access env cid ACCESS_CACHE_TAGS SIM_THREAD st)"

definition processFlushReqFromDramDirectory :: "cc_env \<Rightarrow> nat \<Rightarrow> core_id \<Rightarrow> shmem_msg \<Rightarrow> cc_state \<Rightarrow> cc_state res" where
  "processFlushReqFromDramDirectory env cid sender m st =
     bindE (getCacheState env cid (msg_address m) st) (\<lambda>cstate.
     if cstate \<noteq> INVALID then
       (let st = msg_updateTime env cid m R_UNKNOWN st in
        bindE (incr_access env cid ACCESS_CACHE_DATA_AND_TAGS SIM_THREAD st) (\<lambda>st.
        bindE (updateCacheBlock (ev_fuel env) env cid (msg_address m) INVALID (Some (ev_junk env)) st) (\<lambda>(_, _, data_buf, st).
        let st = msg_updateTime env cid m R_REMOTE_CACHE_WB st in
        cc_sendMsg env cid FLUSH_REP (msg_requester m) sender (msg_address m) data_buf (cc_block_size (ev_cntlr env cid))
          (msg_perf m) SIM_THREAD st)))
     else incr_access env cid ACCESS_CACHE_TAGS SIM_THREAD st)"

text \<open>While the line is being upgraded, the buffer is sent as it is.\<close>

definition processWbReqFromDramDirectory :: "cc_env \<Rightarrow> nat \<Rightarrow> core_id \<Rightarrow> shmem_msg \<Rightarrow> cc_state \<Rightarrow> cc_state res" where
  "processWbReqFromDramDirectory env cid sender m st =
     bindE (getCacheState env cid (msg_address m) st) (\<lambda>cstate.
     if cstate \<noteq> INVALID then
       (let st = msg_updateTime env cid m R_UNKNOWN st in
        bindE (incr_access env cid ACCESS_CACHE_DATA_AND_TAGS SIM_THREAD st) (\<lambda>st.
        bindE (if cstate \<noteq> SHARED_UPGRADING
               then bindE (updateCacheBlock (ev_fuel env) env cid (msg_address m) SHARED (Some (ev_junk env)) st)
                 (\<lambda>(_, _, data_buf, st). Inr (data_buf, st))
               else Inr (Some (ev_junk env), st)) (\<lambda>(data_buf, st).
        let st = msg_updateTime env cid m R_REMOTE_CACHE_WB st in
        cc_sendMsg env cid WB_REP (msg_requester m) sender (msg_address m) data_buf (cc_block_size (ev_cntlr env cid))
          (msg_perf m) SIM_THREAD st)))
     else incr_access env cid ACCESS_CACHE_TAGS SIM_THREAD st)"

subsection \<open>Replies of the directory\<close>

definition processExRepFromDramDirectory :: "cc_env \<Rightarrow> nat \<Rightarrow> shmem_msg \<Rightarrow> cc_state \<Rightarrow> cc_state res" where
  "processExRepFromDramDirectory env cid m st =
     bindE (insertCacheBlock env cid (msg_address m) EXCLUSIVE (msg_data m) SIM_THREAD st) (\<lambda>(_, st). Inr st)"

definition processShRepFromDramDirectory :: "cc_env \<Rightarrow> nat \<Rightarrow> shmem_msg \<Rightarrow> cc_state \<Rightarrow> cc_state res" where
  "processShRepFromDramDirectory env cid m st =
     bindE (insertCacheBlock env cid (msg_address m) SHARED (msg_data m) SIM_THREAD st) (\<lambda>(_, st). Inr st)"

definition processUpgradeRepFromDramDirectory :: "cc_env \<Rightarrow> nat \<Rightarrow> shmem_msg \<Rightarrow> cc_state \<Rightarrow> cc_state res" where
  "processUpgradeRepFromDramDirectory env cid m st =
     bindE (getCacheState env cid (msg_address m) st) (\<lambda>cstate.
     if cstate = INVALID then
       assertE (msg_data m \<noteq> None) ''Trying to upgrade a block that is now INV and no data in the shmem_msg''
         (bindE (updateCacheBlock (ev_fuel env) env cid (msg_address m) MODIFIED (msg_data m) st) (\<lambda>(_, _, _, st). Inr st))
     else if cstate = SHARED_UPGRADING then
       bindE (updateCacheBlock (ev_fuel env) env cid (msg_address m) MODIFIED None st) (\<lambda>(_, _, _, st). Inr st)
     else Inl (Log_Error ''Trying to upgrade a block that is not SHARED_UPGRADING''))"

subsection \<open>The threads that wait\<close>

definition waiters_of :: "cc_env \<Rightarrow> nat \<Rightarrow> addr \<Rightarrow> cc_state \<Rightarrow> waiter list" where
  "waiters_of env cid address st = mc_waiters (master_of env cid st) address"

text \<open>The waiting core's clock is at least that of the reply.\<close>

definition advance_waiter :: "cc_env \<Rightarrow> nat \<Rightarrow> nat \<Rightarrow> cc_state \<Rightarrow> cc_state" where
  "advance_waiter env cid wcid st =
     (let t_core = elapsed env wcid USER_THREAD st; t_here = elapsed env cid SIM_THREAD st in
      if t_here > t_core then set_elapsed env wcid USER_THREAD t_here st else st)"

definition serve_waiter :: "wait_fun \<Rightarrow> cc_env \<Rightarrow> nat \<Rightarrow> shmem_msg \<Rightarrow> waiter \<Rightarrow> cc_state \<Rightarrow> cc_state res" where
  "serve_waiter wake env cid m w st =
     (let address = msg_address m; t_here = elapsed env cid SIM_THREAD st in
      bindE (if wt_isPrefetch w then mark_prefetch env cid address st else Inr st) (\<lambda>st.
      bindE (updateUncoreStatistics env (wt_cntlr w) (where_num (msg_where m)) t_here (advance_waiter env cid (wt_cntlr w) st)) (\<lambda>st.
      bindE (wake (wt_cntlr w) address st) (\<lambda>st.
      bindE (cleanupMshr env cid
               (record_miss env (wt_cntlr w) address (wt_t_issue w) (elapsed env cid SIM_THREAD st) st)) (\<lambda>st.
      bindE (q_dequeue address (mc_waiters (master_of env cid st))) (\<lambda>(_, q).
      Inr (set_master env cid ((master_of env cid st)\<lparr>mc_waiters := q\<rparr>) st)))))))"

text \<open>The loop ends when nobody waits, or with an upgrade request for a waiter that wants to write a shared line; each round
  serves one waiter, and \<open>n\<close> bounds the rounds.\<close>

primrec serve_waiters :: "nat \<Rightarrow> wait_fun \<Rightarrow> cc_env \<Rightarrow> nat \<Rightarrow> shmem_msg \<Rightarrow> cc_state \<Rightarrow> cc_state res" where
  "serve_waiters 0 wake env cid m st =
     (if waiters_of env cid (msg_address m) st = [] then Inr st else Inl (No_Return ''handleMsgFromDramDirectory''))"
| "serve_waiters (Suc n) wake env cid m st =
     (case waiters_of env cid (msg_address m) st of
        [] \<Rightarrow> Inr st
      | w # _ \<Rightarrow>
          bindE (getCacheState env cid (msg_address m) st) (\<lambda>s.
          if wt_exclusive w \<and> s = SHARED
          then processUpgradeReqToDirectory env cid (msg_address m) (cc_perf (ev_cntlr env (wt_cntlr w))) st
          else bindE (serve_waiter wake env cid m w st) (\<lambda>st. serve_waiters n wake env cid m st)))"

definition handleMsgFromDramDirectory ::
  "nat \<Rightarrow> wait_fun \<Rightarrow> cc_env \<Rightarrow> nat \<Rightarrow> core_id \<Rightarrow> shmem_msg \<Rightarrow> cc_state \<Rightarrow> cc_state res" where
  "handleMsgFromDramDirectory rounds wake env cid sender m st =
     (case msg_type m of
        EX_REP \<Rightarrow> bindE (processExRepFromDramDirectory env cid m st) (serve_waiters rounds wake env cid m)
      | SH_REP \<Rightarrow> bindE (processShRepFromDramDirectory env cid m st) (serve_waiters rounds wake env cid m)
      | UPGRADE_REP \<Rightarrow> bindE (processUpgradeRepFromDramDirectory env cid m st) (serve_waiters rounds wake env cid m)
      | INV_REQ \<Rightarrow> processInvReqFromDramDirectory env cid sender m st
      | FLUSH_REQ \<Rightarrow> processFlushReqFromDramDirectory env cid sender m st
      | WB_REQ \<Rightarrow> processWbReqFromDramDirectory env cid sender m st
      | _ \<Rightarrow> Inl (Log_Error ''Unrecognized msg type''))"

subsection \<open>Usage of the lines at the end\<close>

text \<open>What \<open>walkUsageBits\<close> reports for the valid lines of a last-level cache: owner and usage bits.\<close>

definition walkUsageBits :: "cc_env \<Rightarrow> nat \<Rightarrow> cc_state \<Rightarrow> (u64 \<times> u8) list" where
  "walkUsageBits env cid st =
     (if cc_next (ev_cntlr env cid) = None \<and> ev_owner env \<noteq> None
      then map (\<lambda>b. (m_owner b, m_used b))
        (filter (\<lambda>b. isValid b \<and> \<not> hasOption b WARMUP) (concat (map cs_blocks (c_sets (cache_of env cid st)))))
      else [])"

end
