(* ===== verification/Cache_Stack_Inv.thy ===== *)
theory Cache_Stack_Inv
  imports Cache_Messages
begin

text \<open>
  What the operations on lines keep: every cache of the stack stays well-formed, a line that is there has a state, and lines
  only go away where the operation says so. \<open>shrinks t\<close> relates the states before and after an operation that may take away
  lines with tag \<open>t\<close> and changes nothing but the caches and the contents of eviction buffers.
\<close>

subsection \<open>One cache\<close>

definition cache_live :: "cache \<Rightarrow> bool" where
  "cache_live c \<longleftrightarrow> (\<forall>bs \<in> set (map cs_blocks (c_sets c)). \<forall>b \<in> set bs. isValid b \<longrightarrow> m_cstate b \<noteq> INVALID)"

definition cache_ok :: "nat \<Rightarrow> cache \<Rightarrow> bool" where
  "cache_ok L c \<longleftrightarrow> cache_wf c \<and> cache_unique c \<and> cache_live c \<and> m_log_blocksize (c_base c) = L"

lemma cache_okD:
  assumes "cache_ok L c"
  shows "cache_wf c" "cache_unique c" "cache_live c" "blk_tag c a = drop_bit L a"
  using assms by (simp_all add: cache_ok_def blk_tag_def)

lemma cache_live_blocks: "map cs_blocks (c_sets c') = map cs_blocks (c_sets c) \<Longrightarrow> cache_live c' = cache_live c"
  by (simp add: cache_live_def)

lemma map_blocks_put:
  assumes "cs_blocks s = cs_blocks (c_sets c ! i)"
  shows "map cs_blocks ((c_sets c)[i := s]) = map cs_blocks (c_sets c)"
  by (metis assms list_update_id list_update_beyond map_update not_less nth_map)

lemma read_line_blocks: "read_line i off out bytes upd (info, s) = Inr (xs, info', s') \<Longrightarrow> cs_blocks s' = cs_blocks s"
  by (auto simp: read_line_def set_update_replacement_def bindE_Inr_iff split: if_splits option.splits)

lemma write_line_blocks: "write_line i off buff bytes upd (info, s) = Inr (info', s') \<Longrightarrow> cs_blocks s' = cs_blocks s"
  by (auto simp: write_line_def set_update_replacement_def bindE_Inr_iff split: if_splits option.splits)

lemma accessSingleLine_blocks:
  assumes "accessSingleLine a ty buff bytes upd c = Inr (p, out, c')"
  shows "map cs_blocks (c_sets c') = map cs_blocks (c_sets c)"
proof -
  obtain tag k off s where k: "splitAddress_offset (c_base c) a = Inr (tag, k, off)" "get_set c k = Inr s"
    using assms by (auto simp: accessSingleLine_def bindE_Inr_iff)
  then have s: "s = c_sets c ! unat k" by (auto simp: get_set_def split: if_splits)
  show ?thesis
  proof (cases "find_tag tag s")
    case None
    with assms k show ?thesis by (simp add: accessSingleLine_def)
  next
    case (Some i)
    show ?thesis
    proof (cases "ty = LOAD")
      case True
      with assms k Some obtain s1 c1 xs info s2 where
        r: "fault_preRead bytes (i * cs_blocksize s + unat off) s c = Inr (s1, c1)"
          "read_line i (unat off) (buff \<noteq> None) (unat bytes) upd (c_set_info c1, s1) = Inr (xs, info, s2)"
        and c': "c' = put_set (c1\<lparr>c_set_info := info\<rparr>) k s2"
        by (auto simp: accessSingleLine_def bindE_Inr_iff Let_def)
      from fault_preRead_set [OF r(1)] have "c_sets c1 = c_sets c" "cs_blocks s1 = cs_blocks s" by auto
      with read_line_blocks [OF r(2)] s c' show ?thesis by (simp add: map_blocks_put)
    next
      case False
      with assms k Some obtain info s2 where
        r: "write_line i (unat off) buff (unat bytes) upd (c_set_info c, s) = Inr (info, s2)"
        and c': "c' = put_set (c\<lparr>c_set_info := info\<rparr>) k s2"
        by (auto simp: accessSingleLine_def bindE_Inr_iff Let_def)
      with write_line_blocks [OF r] s show ?thesis by (simp add: map_blocks_put)
    qed
  qed
qed

lemma access_ok:
  assumes "cache_ok L c" "accessSingleLine a ty buff bytes upd c = Inr (p, out, c')"
  shows "cache_ok L c'" "cache_lines c' = cache_lines c"
  using accessSingleLine_spec [OF cache_okD(1) [OF assms(1)] assms(2)] cache_live_blocks [OF accessSingleLine_blocks [OF assms(2)]]
    assms(1) by (auto simp: cache_ok_def)

text \<open>Storing a block with the tag of the one it replaces.\<close>

lemma c_sets_store_block:
  assumes "i < length (c_sets c)"
  shows "c_sets (store_block p b c) ! i =
    (if i = fst p then (c_sets c ! i)\<lparr>cs_blocks := (cs_blocks (c_sets c ! i))[snd p := b]\<rparr> else c_sets c ! i)"
  using assms by (cases "i = fst p") (simp_all add: store_block_def Let_def)

lemma store_block_tags:
  assumes "m_tag b = m_tag (deref c p)"
  shows "map (map m_tag \<circ> cs_blocks) (c_sets (store_block p b c)) = map (map m_tag \<circ> cs_blocks) (c_sets c)"
proof (rule nth_equalityI)
  have l: "length (c_sets (store_block p b c)) = length (c_sets c)" by (simp add: store_block_def Let_def)
  fix i assume "i < length (map (map m_tag \<circ> cs_blocks) (c_sets (store_block p b c)))"
  then have i: "i < length (c_sets c)" by (simp add: l)
  have "map m_tag ((cs_blocks (c_sets c ! i))[snd p := b]) = map m_tag (cs_blocks (c_sets c ! i))" if "fst p = i"
  proof (cases "snd p < length (cs_blocks (c_sets c ! i))")
    case True
    then show ?thesis using assms that by (simp add: deref_def map_update list_update_same_conv)
  qed (simp add: list_update_beyond)
  then show "map (map m_tag \<circ> cs_blocks) (c_sets (store_block p b c)) ! i = map (map m_tag \<circ> cs_blocks) (c_sets c) ! i"
    using i by (cases "i = fst p") (simp_all add: l c_sets_store_block)
qed (simp add: store_block_def Let_def)

lemma set_tags_map: "set_tags s = {t \<in> set (map m_tag (cs_blocks s)). t \<noteq> -1}"
  by (auto simp: set_tags_def isValid_def)

lemma tags_unique_map: "map m_tag bs = map m_tag bs' \<Longrightarrow> tags_unique bs = tags_unique bs'"
  unfolding tags_unique_def isValid_def by (metis length_map nth_map)

lemma store_block_keeps:
  assumes "cache_wf c" "m_tag b = m_tag (deref c p)"
  shows "cache_wf (store_block p b c)" "cache_lines (store_block p b c) = cache_lines c"
    "cache_unique c \<Longrightarrow> cache_unique (store_block p b c)" "c_base (store_block p b c) = c_base c"
proof -
  let ?c = "store_block p b c"
  note t = store_block_tags [OF assms(2)]
  have len: "length (c_sets ?c) = length (c_sets c)" using arg_cong [OF t, of length] by simp
  have m: "map m_tag (cs_blocks (c_sets ?c ! i)) = map m_tag (cs_blocks (c_sets c ! i))" if "i < length (c_sets c)" for i
    using arg_cong [OF t, of "\<lambda>xs. xs ! i"] that len by simp
  then have st: "set_tags (c_sets ?c ! i) = set_tags (c_sets c ! i)" if "i < length (c_sets c)" for i
    using that by (simp only: set_tags_map m)
  have other: "cs_data (c_sets ?c ! i) = cs_data (c_sets c ! i)" "cs_blocksize (c_sets ?c ! i) = cs_blocksize (c_sets c ! i)"
      "cs_repl (c_sets ?c ! i) = cs_repl (c_sets c ! i)" if "i < length (c_sets c)" for i
    using that by (simp_all add: c_sets_store_block)
  show base: "c_base ?c = c_base c" by (simp add: store_block_def Let_def)
  have ty: "c_cache_type ?c = c_cache_type c" by (simp add: store_block_def Let_def)
  have "set_wf n (c_sets ?c ! i) = set_wf n (c_sets c ! i)" if "i < length (c_sets c)" for n i
    using that other [OF that] arg_cong [OF m [OF that], of length] by (simp add: set_wf_def)
  then show "cache_wf ?c" using assms(1) by (simp add: cache_wf_def base ty len st)
  have lines: "cache_lines d = (\<Union>i<length (c_sets d). set_tags (c_sets d ! i))" for d
    by (fastforce simp: cache_lines_def in_set_conv_nth)
  show "cache_lines ?c = cache_lines c" unfolding lines len using st by simp
  show "cache_unique ?c" if "cache_unique c"
    using that m len tags_unique_map unfolding cache_unique_def by (metis in_set_conv_nth)
qed

lemma store_block_live:
  assumes "cache_live c" "isValid b \<longrightarrow> m_cstate b \<noteq> INVALID"
  shows "cache_live (store_block p b c)"
proof -
  have "m_cstate x \<noteq> INVALID" if "bs \<in> set (map cs_blocks (c_sets (store_block p b c)))" "x \<in> set bs" "isValid x" for bs x
  proof -
    from that(1) obtain i where i: "i < length (c_sets c)" "bs = cs_blocks (c_sets (store_block p b c) ! i)"
      by (auto simp: in_set_conv_nth store_block_def Let_def)
    then have "x = b \<or> x \<in> set (cs_blocks (c_sets c ! i))"
      using that(2) by (auto simp: c_sets_store_block split: if_splits dest!: set_update_subset_insert [THEN subsetD])
    with assms that(3) i(1) show ?thesis by (auto simp: cache_live_def)
  qed
  then show ?thesis by (auto simp: cache_live_def)
qed

lemma cache_store_ok:
  assumes "cache_ok L c" "m_tag b = m_tag (deref c p)" "isValid b \<longrightarrow> m_cstate b \<noteq> INVALID"
  shows "cache_ok L (store_block p b c)" "cache_lines (store_block p b c) = cache_lines c"
  using store_block_keeps [OF cache_okD(1) [OF assms(1)] assms(2)] store_block_live [OF cache_okD(3) [OF assms(1)] assms(3)]
    assms(1) by (auto simp: cache_ok_def)

lemma invalidate_ok:
  assumes "cache_ok L c" "invalidateSingleLine a c = Inr (f, c')"
  shows "cache_ok L c'" "cache_lines c' = cache_lines c - {drop_bit L a}"
proof -
  have s: "cache_wf c'" "c_base c' = c_base c" "cache_unique c'" "cache_lines c' = cache_lines c - {drop_bit L a}"
    using invalidateSingleLine_spec [of c a] assms cache_okD [OF assms(1)] by auto
  obtain tag k t where k: "c' = put_set c k (snd (set_invalidate tag (c_sets c ! unat k)))" "unat k < length (c_sets c)"
    using assms(2) by (auto simp: invalidateSingleLine_def bindE_Inr_iff Let_def get_set_def split: if_splits prod.splits) (metis snd_conv)
  have b: "x \<in> set (cs_blocks t) \<or> \<not> isValid x" if "x \<in> set (cs_blocks (snd (set_invalidate tag t)))" for x t
    using that by (auto simp: set_invalidate_def split: option.splits dest!: set_update_subset_insert [THEN subsetD])
  have "cache_live c'" unfolding cache_live_def
  proof (intro ballI impI)
    fix bs x assume x: "bs \<in> set (map cs_blocks (c_sets c'))" "x \<in> set bs" "isValid x"
    then have "\<exists>u \<in> set (c_sets c). x \<in> set (cs_blocks u)"
      using k b [of x "c_sets c ! unat k"] by (auto dest!: set_update_subset_insert [THEN subsetD])
    then show "m_cstate x \<noteq> INVALID" using cache_okD(3) [OF assms(1)] x(3) by (auto simp: cache_live_def)
  qed
  with s assms(1) show "cache_ok L c'" "cache_lines c' = cache_lines c - {drop_bit L a}" by (auto simp: cache_ok_def)
qed

subsection \<open>The stack\<close>

definition master_shrinks :: "addr \<Rightarrow> cc_master \<Rightarrow> cc_master \<Rightarrow> bool" where
  "master_shrinks t m m' \<longleftrightarrow>
     (\<exists>c ev. m' = m\<lparr>mc_cache := c, mc_evicting := ev\<rparr> \<and> map_option fst ev = map_option fst (mc_evicting m)) \<and>
     (\<forall>L. cache_ok L (mc_cache m) \<longrightarrow> cache_ok L (mc_cache m') \<and>
        cache_lines (mc_cache m') \<subseteq> cache_lines (mc_cache m) \<and> cache_lines (mc_cache m) - {t} \<subseteq> cache_lines (mc_cache m'))"

definition shrinks :: "addr \<Rightarrow> cc_state \<Rightarrow> cc_state \<Rightarrow> bool" where
  "shrinks t st st' \<longleftrightarrow> (\<exists>ms. st' = st\<lparr>st_master := ms\<rparr>) \<and> (\<forall>m. master_shrinks t (st_master st m) (st_master st' m))"

lemma master_shrinks_refl [simp]: "master_shrinks t m m"
  by (auto simp: master_shrinks_def intro!: exI [of _ "mc_cache m"] exI [of _ "mc_evicting m"])

lemma master_shrinks_trans: "master_shrinks t m m1 \<Longrightarrow> master_shrinks t m1 m2 \<Longrightarrow> master_shrinks t m m2"
  unfolding master_shrinks_def by (rule conjI) (fastforce, blast)

lemma shrinks_refl [simp]: "shrinks t st st"
  by (auto simp: shrinks_def intro: exI [of _ "st_master st"])

lemma shrinks_trans: "shrinks t st st1 \<Longrightarrow> shrinks t st1 st2 \<Longrightarrow> shrinks t st st2"
  unfolding shrinks_def by (rule conjI) (fastforce, blast intro: master_shrinks_trans)

text \<open>A change of one master.\<close>

lemma shrinks_set_master:
  assumes "master_shrinks t (master_of env cid st) m"
  shows "shrinks t st (set_master env cid m st)"
  using assms by (auto simp: shrinks_def set_master_def master_of_def)

lemma shrinks_set_cache:
  assumes "\<And>L. cache_ok L (cache_of env cid st) \<Longrightarrow> cache_ok L c \<and> cache_lines c \<subseteq> cache_lines (cache_of env cid st) \<and>
      cache_lines (cache_of env cid st) - {t} \<subseteq> cache_lines c"
  shows "shrinks t st (set_cache env cid c st)"
  unfolding set_cache_def
proof (rule shrinks_set_master)
  have "(master_of env cid st)\<lparr>mc_cache := c\<rparr> = (master_of env cid st)\<lparr>mc_cache := c, mc_evicting := mc_evicting (master_of env cid st)\<rparr>"
    by simp
  then show "master_shrinks t (master_of env cid st) ((master_of env cid st)\<lparr>mc_cache := c\<rparr>)"
    using assms unfolding master_shrinks_def cache_of_def by fastforce
qed

lemma cache_of_set_cache [simp]: "cache_of env cid (set_cache env cid c st) = c"
  by (simp add: cache_of_def set_cache_def master_of_def set_master_def)

text \<open>Single lines: reading and writing data, changing a state other than to \<open>INVALID\<close>, invalidating.\<close>

lemma shrinks_set_cstate:
  assumes "s \<noteq> INVALID"
  shows "shrinks t st (set_cstate env cid p s st)"
  unfolding set_cstate_def set_block_def block_of_def
  by (rule shrinks_set_cache) (use assms in \<open>auto simp: cache_store_ok\<close>)

lemma shrinks_retrieve:
  assumes "retrieveCacheBlock env cid a buf upd st = Inr (buf', st')"
  shows "shrinks t st st'"
  using assms by (auto simp: retrieveCacheBlock_def bindE_Inr_iff Let_def intro!: shrinks_set_cache dest: access_ok)

lemma shrinks_write_own:
  assumes "write_own env cid a off data len st = Inr st'"
  shows "shrinks t st st'"
  using assms by (auto simp: write_own_def bindE_Inr_iff split: option.splits intro!: shrinks_set_cache dest: access_ok)

lemma shrinks_evict_buf:
  assumes "write_evict_buf env cid a buf off data len st = Inr st'" "mc_evicting (master_of env cid st) = Some (a, buf)"
  shows "shrinks t st st'"
proof -
  have "master_shrinks t m (m\<lparr>mc_evicting := Some (a, b)\<rparr>)" if "mc_evicting m = Some (a, buf)" for m b
    using that by (auto simp: master_shrinks_def intro!: exI [of _ "mc_cache m"] exI [of _ "Some (a, b)"])
  with assms show ?thesis by (auto simp: write_evict_buf_def intro!: shrinks_set_master split: option.splits)
qed

lemma shrinks_write:
  "writeCacheBlock n env cid a off data len st = Inr st' \<Longrightarrow> shrinks t st st'"
proof (induction n arbitrary: cid st)
  case (Suc n)
  then obtain s1 where s1: "(case mc_evicting (master_of env cid st) of
         Some (evict_address, evict_buf) \<Rightarrow>
           if a = evict_address then write_evict_buf env cid a evict_buf off data len st
           else write_own env cid a off data len st
       | None \<Rightarrow> write_own env cid a off data len st) = Inr s1"
    and r: "(if cc_writethrough (ev_cntlr env cid) then
       (case cc_next (ev_cntlr env cid) of
          None \<Rightarrow> Inl (Null_Pointer ''m_next_cache_cntlr'')
        | Some nx \<Rightarrow> writeCacheBlock n env nx a off data len s1)
     else Inr s1) = Inr st'"
    by (auto simp: bindE_Inr_iff)
  have "shrinks t st s1"
    using s1 by (auto split: option.splits prod.splits if_splits intro: shrinks_write_own shrinks_evict_buf)
  moreover have "shrinks t s1 st'" using r Suc.IH by (auto split: if_splits option.splits)
  ultimately show ?case by (rule shrinks_trans)
qed simp

lemma shrinks_invalidate:
  assumes "invalidateCacheBlock env cid a st = Inr st'" "\<And>L. cache_ok L (cache_of env cid st) \<Longrightarrow> t = drop_bit L a"
  shows "shrinks t st st'"
  using assms(1) by (auto simp: invalidateCacheBlock_def bindE_Inr_iff intro!: shrinks_set_cache dest: invalidate_ok assms(2))

end
