(* ===== verification/Cache_Update_Inv.thy ===== *)
theory Cache_Update_Inv
  imports Cache_Stack_Inv
begin

text \<open>
  \<open>updateCacheBlock\<close>: what it keeps, how deep it has to go, and that a line it invalidates is in no cache at or below the
  one it was called on. Loops over the previous levels keep every reflexive and transitive relation their body keeps
  (locale \<open>stack_relation\<close>).
\<close>

definition caches_ok :: "nat \<Rightarrow> cc_state \<Rightarrow> bool" where
  "caches_ok L st \<longleftrightarrow> (\<forall>m. cache_ok L (mc_cache (st_master st m)))"

definition lines_of :: "cc_env \<Rightarrow> nat \<Rightarrow> cc_state \<Rightarrow> addr set" where
  "lines_of env cid st = cache_lines (cache_of env cid st)"

lemma caches_ok_cache: "caches_ok L st \<Longrightarrow> cache_ok L (cache_of env cid st)"
  by (simp add: caches_ok_def cache_of_def master_of_def)

lemma cache_ok_inj: "cache_ok L c \<Longrightarrow> cache_ok K c \<Longrightarrow> K = L"
  by (simp add: cache_ok_def)

lemma shrinks_caches_ok: "shrinks t st st' \<Longrightarrow> caches_ok L st \<Longrightarrow> caches_ok L st'"
  by (auto simp: caches_ok_def shrinks_def master_shrinks_def)

lemma shrinks_master_lines:
  assumes "shrinks t st st'" "caches_ok L st"
  shows "cache_lines (mc_cache (st_master st' m)) \<subseteq> cache_lines (mc_cache (st_master st m))"
    "cache_lines (mc_cache (st_master st m)) - {t} \<subseteq> cache_lines (mc_cache (st_master st' m))"
  using assms unfolding shrinks_def master_shrinks_def caches_ok_def by blast+

lemma shrinks_lines:
  assumes "shrinks t st st'" "caches_ok L st"
  shows "lines_of env cid st' \<subseteq> lines_of env cid st" "lines_of env cid st - {t} \<subseteq> lines_of env cid st'"
  using shrinks_master_lines [OF assms] by (simp_all add: lines_of_def cache_of_def master_of_def)

lemma shrinks_out: "shrinks t st st' \<Longrightarrow> st_out st' = st_out st"
  and shrinks_time: "shrinks t st st' \<Longrightarrow> st_time st' = st_time st"
  and shrinks_perf: "shrinks t st st' \<Longrightarrow> st_perf st' = st_perf st"
  by (auto simp: shrinks_def)

lemma shrinks_waiters: "shrinks t st st' \<Longrightarrow> mc_waiters (st_master st' m) = mc_waiters (st_master st m)"
  unfolding shrinks_def master_shrinks_def by (metis cc_master.simps(8) cc_master.surjective cc_master.update_convs(1) cc_master.update_convs(9))

lemma peek_live:
  assumes "cache_ok L c" "peekSingleLine a c = Inr (Some p)"
  shows "m_cstate (deref c p) \<noteq> INVALID"
proof -
  note wf = cache_okD(1) [OF assms(1)]
  obtain k where k: "splitAddress (c_base c) a = Inr (blk_tag c a, k)" "unat k < length (c_sets c)"
      "blk_tag c a \<noteq> -1" "get_set c k = Inr (c_sets c ! unat k)"
    by (rule cache_split [OF wf])
  with assms(2) obtain w where w: "p = (unat k, w)" "find_tag (blk_tag c a) (c_sets c ! unat k) = Some w"
    by (auto simp: peekSingleLine_def)
  from find_tag_Some [OF w(2)] have b: "deref c p \<in> set (cs_blocks (c_sets c ! unat k))" "m_tag (deref c p) = blk_tag c a"
    by (auto simp: deref_def w(1))
  have "isValid (deref c p)" using b(2) k(3) by (simp add: isValid_def)
  with b(1) nth_mem [OF k(2)] cache_okD(3) [OF assms(1)] show ?thesis by (fastforce simp: cache_live_def)
qed

text \<open>Operations that keep all lines.\<close>

definition steady :: "cc_state \<Rightarrow> cc_state \<Rightarrow> bool" where
  "steady st st' \<longleftrightarrow> (\<forall>t. shrinks t st st')"

lemma steady_lines:
  assumes "steady st st'" "caches_ok L st"
  shows "cache_lines (mc_cache (st_master st' m)) = cache_lines (mc_cache (st_master st m))"
proof -
  have sh: "shrinks t st st'" for t using assms(1) by (simp add: steady_def)
  note d = shrinks_master_lines(2) [OF sh assms(2), where m = m]
  have "cache_lines (mc_cache (st_master st m)) \<subseteq> cache_lines (mc_cache (st_master st' m))"
  proof
    fix t assume t: "t \<in> cache_lines (mc_cache (st_master st m))"
    obtain u where "u \<noteq> t" by (metis zero_neq_one)
    then show "t \<in> cache_lines (mc_cache (st_master st' m))" using d [of u] t by blast
  qed
  with shrinks_master_lines(1) [OF sh assms(2), where m = m] show ?thesis by (rule subset_antisym)
qed

subsection \<open>Loops over the previous levels\<close>

locale stack_relation =
  fixes R :: "cc_state \<Rightarrow> cc_state \<Rightarrow> bool"
  assumes refl: "R st st"
    and trans: "R st st1 \<Longrightarrow> R st1 st2 \<Longrightarrow> R st st2"
begin

lemma snoop:
  assumes "\<And>p st l s out st'. p \<in> set ps \<Longrightarrow> f p st = Inr (l, s, out, st') \<Longrightarrow> R st st'"
    and "snoop f ps l s st = Inr (l', s', st')"
  shows "R st st'"
  using assms
proof (induction ps arbitrary: l s st)
  case Nil
  then show ?case by (simp add: refl)
next
  case (Cons p ps)
  from Cons.prems(2) obtain l1 s1 out st1 where s: "f p st = Inr (l1, s1, out, st1)"
      "snoop f ps (max l l1) (s \<or> s1) st1 = Inr (l', s', st')"
    by (auto simp: bindE_Inr_iff)
  have "R st st1" by (rule Cons.prems(1) [OF _ s(1)]) simp
  moreover have "R st1 st'" by (rule Cons.IH [OF Cons.prems(1) s(2)]) simp_all
  ultimately show ?case by (rule trans)
qed

text \<open>Each element is handled in some state in between.\<close>

lemma snoop_each:
  assumes "\<And>p st l s out st'. p \<in> set ps \<Longrightarrow> f p st = Inr (l, s, out, st') \<Longrightarrow> R st st'"
    and "snoop f ps l s st = Inr (l', s', st')" and "p \<in> set ps"
  shows "\<exists>st1 l1 s1 out st2. R st st1 \<and> f p st1 = Inr (l1, s1, out, st2) \<and> R st2 st'"
  using assms
proof (induction ps arbitrary: l s st)
  case (Cons q ps)
  from Cons.prems(2) obtain l1 s1 out st1 where s: "f q st = Inr (l1, s1, out, st1)"
      "snoop f ps (max l l1) (s \<or> s1) st1 = Inr (l', s', st')"
    by (auto simp: bindE_Inr_iff)
  show ?case
  proof (cases "p = q")
    case True
    have "R st1 st'" by (rule snoop [OF Cons.prems(1) s(2)]) simp_all
    with True s(1) refl show ?thesis by blast
  next
    case False
    have "\<exists>st2 l2 s2 out st3. R st1 st2 \<and> f p st2 = Inr (l2, s2, out, st3) \<and> R st3 st'"
      by (rule Cons.IH [OF Cons.prems(1) s(2)]) (use Cons.prems(3) False in simp_all)
    moreover have "R st st1" by (rule Cons.prems(1) [OF _ s(1)]) simp
    ultimately show ?thesis using trans by blast
  qed
qed simp

end

definition master_lines :: "nat \<Rightarrow> cc_state \<Rightarrow> addr set" where
  "master_lines m st = cache_lines (mc_cache (st_master st m))"

text \<open>Of well-formed caches, only those of the masters in \<open>S\<close> may lose a line, the one with tag \<open>t\<close>.\<close>

definition takes_away :: "nat set \<Rightarrow> nat \<Rightarrow> addr \<Rightarrow> cc_state \<Rightarrow> cc_state \<Rightarrow> bool" where
  "takes_away S L t st st' \<longleftrightarrow>
     (caches_ok L st \<longrightarrow> shrinks t st st' \<and> (\<forall>m. m \<notin> S \<longrightarrow> master_lines m st' = master_lines m st))"

lemma takes_caches_ok: "takes_away S L t st st' \<Longrightarrow> caches_ok L st \<Longrightarrow> caches_ok L st'"
  unfolding takes_away_def using shrinks_caches_ok by blast

lemma takes_lines: "takes_away S L t st st' \<Longrightarrow> caches_ok L st \<Longrightarrow> lines_of env x st' \<subseteq> lines_of env x st"
  unfolding takes_away_def using shrinks_lines(1) by blast

interpretation takes: stack_relation "takes_away S L t" for S L t
proof unfold_locales
  fix st st1 st2 assume a: "takes_away S L t st st1" "takes_away S L t st1 st2"
  have "shrinks t st st2" if "caches_ok L st"
    using a takes_caches_ok [OF a(1) that] that shrinks_trans [of t st st1 st2] by (simp add: takes_away_def)
  then show "takes_away S L t st st2"
    using a takes_caches_ok [OF a(1)] unfolding takes_away_def by simp
qed (simp add: takes_away_def)

interpretation steadily: stack_relation steady
  by unfold_locales (auto simp: steady_def intro: shrinks_trans)

subsection \<open>updateCacheBlock keeps the stack\<close>

lemma steady_give_data: "give_data env cid a u st = Inr (u', st') \<Longrightarrow> steady st st'"
  by (auto simp: give_data_def steady_def bindE_Inr_iff intro: shrinks_retrieve split: option.splits)

lemma steady_write_back:
  assumes "write_back env cid a u st = Inr (u', st')"
  shows "steady st st'"
proof (cases "cc_writethrough (ev_cntlr env cid)")
  case False
  show ?thesis
  proof (cases "cc_next (ev_cntlr env cid)")
    case None
    with assms False show ?thesis by (auto simp: write_back_def split: if_splits dest: steady_give_data)
  next
    case (Some nx)
    with assms False obtain buf s1 where r: "retrieveCacheBlock env cid a (ev_junk env) False st = Inr (buf, s1)"
        "writeCacheBlock (ev_fuel env) env nx a 0 (Some buf) (cc_block_size (ev_cntlr env cid)) s1 = Inr st'"
      by (auto simp: write_back_def bindE_Inr_iff)
    then show ?thesis by (auto simp: steady_def intro: shrinks_trans shrinks_retrieve shrinks_write)
  qed
qed (use assms in \<open>simp add: write_back_def steadily.refl\<close>)

lemma steady_set_cstate: "s \<noteq> INVALID \<Longrightarrow> steady st (set_cstate env cid p s st)"
  by (simp add: steady_def shrinks_set_cstate)

lemma steady_flush: "flush_modified env cid a p u st = Inr (u', st') \<Longrightarrow> steady st st'"
  by (auto simp: flush_modified_def bindE_Inr_iff steadily.refl split: if_splits
      intro: steadily.trans [OF steady_write_back steady_set_cstate])

lemma steady_caches_ok: "steady st st' \<Longrightarrow> caches_ok L st \<Longrightarrow> caches_ok L st'"
  unfolding steady_def using shrinks_caches_ok by blast

lemma steady_shrinks: "steady st st' \<Longrightarrow> shrinks t st' st'' \<Longrightarrow> shrinks t st st''"
  unfolding steady_def using shrinks_trans by blast

lemma invalidateCacheBlock_Inr:
  assumes "invalidateCacheBlock env cid a st = Inr st'"
  obtains f c where "invalidateSingleLine a (cache_of env cid st) = Inr (f, c)" "st' = set_cache env cid c st"
    "getCacheState env cid a st \<noteq> Inr INVALID"
proof -
  obtain old f c where "getCacheState env cid a st = Inr old" "old \<noteq> INVALID"
      "invalidateSingleLine a (cache_of env cid st) = Inr (f, c)" "st' = set_cache env cid c st"
    using assms by (auto simp: invalidateCacheBlock_def bindE_Inr_iff)
  then show ?thesis using that by simp
qed

lemma invalidateCacheBlock_gone:
  assumes "invalidateCacheBlock env cid a st = Inr st'" "caches_ok L st"
  shows "shrinks (drop_bit L a) st st'" "drop_bit L a \<notin> lines_of env cid st'"
proof -
  note ok = caches_ok_cache [OF assms(2), of env cid]
  show "shrinks (drop_bit L a) st st'"
    by (rule shrinks_invalidate [OF assms(1)]) (drule cache_ok_inj [OF ok], simp)
  obtain f c where i: "invalidateSingleLine a (cache_of env cid st) = Inr (f, c)" "st' = set_cache env cid c st"
    by (rule invalidateCacheBlock_Inr [OF assms(1)])
  show "drop_bit L a \<notin> lines_of env cid st'"
    by (simp add: lines_of_def i(2) invalidate_ok(2) [OF ok i(1)])
qed

lemma change_cstate_steady:
  assumes "change_cstate env cid a new p u st = Inr (u', st')" "new \<noteq> INVALID"
  shows "steady st st'"
proof (cases "new = SHARED")
  case True
  with assms obtain s where s: "give_data env cid a u st = Inr (u', s)" "st' = set_cstate env cid p SHARED s"
    by (auto simp: change_cstate_def bindE_Inr_iff)
  have "steady s st'" unfolding s(2) by (rule steady_set_cstate) simp
  with steady_give_data [OF s(1)] show ?thesis by (rule steadily.trans)
next
  case False
  with assms have "st' = set_cstate env cid p new st" by (simp add: change_cstate_def split: if_splits)
  then show ?thesis using steady_set_cstate [OF assms(2)] by simp
qed

lemma bindE_pair:
  assumes "bindE r (\<lambda>(u, s). f u s) = Inr y"
  obtains u s where "r = Inr (u, s)" "f u s = Inr y"
  using assms by (cases r) auto

lemma steady_takes:
  assumes "steady st st'"
  shows "takes_away S L t st st'"
proof -
  have "master_lines m st' = master_lines m st" if "caches_ok L st" for m
    using steady_lines [OF assms that] by (simp add: master_lines_def)
  with assms show ?thesis by (simp add: steady_def takes_away_def)
qed

lemma master_lines_set_cache:
  "master_lines m (set_cache env cid c st) = (if m = cc_master_id (ev_cntlr env cid) then cache_lines c else master_lines m st)"
  by (simp add: master_lines_def set_cache_def set_master_def)

lemma invalidateCacheBlock_takes:
  assumes "invalidateCacheBlock env cid a st = Inr st'" "cc_master_id (ev_cntlr env cid) \<in> S"
  shows "takes_away S L (drop_bit L a) st st'"
proof -
  obtain f c where "st' = set_cache env cid c st" by (rule invalidateCacheBlock_Inr [OF assms(1)])
  then have "master_lines m st' = master_lines m st" if "m \<notin> S" for m
    using that assms(2) by (auto simp: master_lines_set_cache)
  then show ?thesis using invalidateCacheBlock_gone(1) [OF assms(1)] by (simp add: takes_away_def)
qed

lemma change_cstate_takes:
  assumes "change_cstate env cid a new p u st = Inr (u', st')" "cc_master_id (ev_cntlr env cid) \<in> S"
  shows "takes_away S L (drop_bit L a) st st'"
proof (cases "new = INVALID")
  case True
  have "bindE (give_data env cid a u st) (\<lambda>(u, st).
      if cc_coherent (ev_cntlr env cid)
      then bindE (invalidateCacheBlock env cid a st) (\<lambda>st. Inr (u, st)) else Inr (u, st)) = Inr (u', st')"
    using assms(1) True by (simp add: change_cstate_def)
  then obtain u1 s where g: "give_data env cid a u st = Inr (u1, s)" and
    c: "(if cc_coherent (ev_cntlr env cid) then bindE (invalidateCacheBlock env cid a s) (\<lambda>st. Inr (u1, st)) else Inr (u1, s)) = Inr (u', st')"
    by (rule bindE_pair)
  have "takes_away S L (drop_bit L a) s st'"
  proof (cases "cc_coherent (ev_cntlr env cid)")
    case True
    with c have "invalidateCacheBlock env cid a s = Inr st'" by (simp add: bindE_Inr_iff)
    then show ?thesis using assms(2) by (rule invalidateCacheBlock_takes)
  qed (use c in \<open>simp add: takes.refl\<close>)
  with steady_takes [OF steady_give_data [OF g]] show ?thesis by (rule takes.trans)
qed (rule steady_takes [OF change_cstate_steady [OF assms(1)]])

lemma update_own_takes:
  assumes "update_own env cid a new info u st = Inr (u', st')" "cc_master_id (ev_cntlr env cid) \<in> S"
  shows "takes_away S L (drop_bit L a) st st'"
proof (cases info)
  case None
  with assms show ?thesis by (simp add: update_own_def takes.refl)
next
  case (Some p)
  show ?thesis
  proof (cases "new = m_cstate (block_of env cid p st) \<and> up_out u \<noteq> None")
    case True
    with assms Some have "give_data env cid a u st = Inr (u', st')" by (simp add: update_own_def)
    then show ?thesis by (intro steady_takes steady_give_data)
  next
    case False
    with assms Some have "bindE (flush_modified env cid a p u st) (\<lambda>(u, st). change_cstate env cid a new p u st) = Inr (u', st')"
      by (simp only: update_own_def option.case if_False)
    then obtain u1 s where s: "flush_modified env cid a p u st = Inr (u1, s)" "change_cstate env cid a new p u1 s = Inr (u', st')"
      by (rule bindE_pair)
    from takes.trans [OF steady_takes [OF steady_flush [OF s(1)]] change_cstate_takes [OF s(2) assms(2)]] show ?thesis .
  qed
qed

lemma update_here_Inr:
  assumes "update_here env cid a new ob sib st = Inr (l, s, out, st')"
  obtains info u u' t where "getCacheBlockInfo env cid a st = Inr info" "update_own env cid a new info u st = Inr (u', st')"
    "getCacheState env cid a st' = Inr t" "reached env cid new t"
    "u = \<lparr>up_written = False, up_writeback = False, up_sibling = sib, up_out = ob\<rparr>"
    "l = (if up_writeback u' then getLatency (cc_writeback_time (ev_cntlr env cid)) else 0)" "s = up_sibling u'" "out = up_out u'"
proof -
  from assms obtain info where i: "getCacheBlockInfo env cid a st = Inr info" and
    b: "bindE (update_own env cid a new info
       \<lparr>up_written = False, up_writeback = False, up_sibling = sib, up_out = ob\<rparr> st) (\<lambda>(u, st).
     bindE (getCacheState env cid a st) (\<lambda>s.
     assertE (reached env cid new s) ''state didn't change as we wanted''
     (assertE (reached env cid new (ptr_state env cid info st)) ''state didn't change as we wanted''
     (assertE (up_out u \<noteq> None \<longrightarrow> up_written u) ''out_buf passed in but never written to''
       (Inr (if up_writeback u then getLatency (cc_writeback_time (ev_cntlr env cid)) else 0, up_sibling u, up_out u, st))))))
     = Inr (l, s, out, st')"
    unfolding update_here_def by (rule bindE_InrE)
  from b obtain u' s1 where u: "update_own env cid a new info
       \<lparr>up_written = False, up_writeback = False, up_sibling = sib, up_out = ob\<rparr> st = Inr (u', s1)" and
    r: "bindE (getCacheState env cid a s1) (\<lambda>s.
     assertE (reached env cid new s) ''state didn't change as we wanted''
     (assertE (reached env cid new (ptr_state env cid info s1)) ''state didn't change as we wanted''
     (assertE (up_out u' \<noteq> None \<longrightarrow> up_written u') ''out_buf passed in but never written to''
       (Inr (if up_writeback u' then getLatency (cc_writeback_time (ev_cntlr env cid)) else 0, up_sibling u', up_out u', s1)))))
     = Inr (l, s, out, st')"
    by (rule bindE_pair)
  from r obtain t where t: "getCacheState env cid a s1 = Inr t" "reached env cid new t" "s1 = st'"
      "l = (if up_writeback u' then getLatency (cc_writeback_time (ev_cntlr env cid)) else 0)" "s = up_sibling u'" "out = up_out u'"
    by (auto simp add: bindE_Inr_iff)
  with i u that show ?thesis by blast
qed

subsection \<open>Updates through the levels\<close>

lemma updateCacheBlock_Suc:
  assumes "updateCacheBlock (Suc n) env cid a new ob st = Inr (l, s, out, st')"
  obtains l1 s1 st1 where "snoop (\<lambda>p. updateCacheBlock n env p a new None) (prev_of env cid) 0 False st = Inr (l1, s1, st1)"
    "update_here env cid a new ob s1 st1 = Inr (l, s, out, st')"
proof -
  from assms have "bindE (snoop (\<lambda>p. updateCacheBlock n env p a new None) (prev_of env cid) 0 False st)
      (\<lambda>(_, sib, st). update_here env cid a new ob sib st) = Inr (l, s, out, st')"
    by simp
  then obtain r where r: "snoop (\<lambda>p. updateCacheBlock n env p a new None) (prev_of env cid) 0 False st = Inr r"
      "(case r of (_, sib, st) \<Rightarrow> update_here env cid a new ob sib st) = Inr (l, s, out, st')"
    by (rule bindE_InrE)
  obtain l1 s1 st1 where "r = (l1, s1, st1)" by (cases r)
  with r that show ?thesis by simp
qed

text \<open>The caches at and below a cache.\<close>

inductive under :: "cc_env \<Rightarrow> nat \<Rightarrow> nat \<Rightarrow> bool" for env where
  under_here: "under env cid cid"
| under_prev: "p \<in> set (prev_of env cid) \<Longrightarrow> under env p x \<Longrightarrow> under env cid x"

definition masters_under :: "cc_env \<Rightarrow> nat \<Rightarrow> nat set" where
  "masters_under env cid = {cc_master_id (ev_cntlr env x) | x. under env cid x}"

lemma masters_under_here: "cc_master_id (ev_cntlr env cid) \<in> masters_under env cid"
  using under_here unfolding masters_under_def by blast

lemma masters_under_prev: "p \<in> set (prev_of env cid) \<Longrightarrow> masters_under env p \<subseteq> masters_under env cid"
  using under_prev unfolding masters_under_def by blast

lemma update_here_takes:
  assumes "update_here env cid a new ob sib st = Inr (l, s, out, st')" "cc_master_id (ev_cntlr env cid) \<in> S"
  shows "takes_away S L (drop_bit L a) st st'"
  using assms(1) by (rule update_here_Inr) (rule update_own_takes [OF _ assms(2)])

lemma updateCacheBlock_takes:
  assumes "updateCacheBlock n env cid a new ob st = Inr (l, s, out, st')" "masters_under env cid \<subseteq> S"
  shows "takes_away S L (drop_bit L a) st st'"
  using assms
proof (induction n arbitrary: cid ob st l s out st')
  case (Suc n)
  from Suc.prems(1) obtain l1 s1 st1 where
    u: "snoop (\<lambda>p. updateCacheBlock n env p a new None) (prev_of env cid) 0 False st = Inr (l1, s1, st1)"
      "update_here env cid a new ob s1 st1 = Inr (l, s, out, st')"
    by (rule updateCacheBlock_Suc)
  have "takes_away S L (drop_bit L a) st st1"
  proof (rule takes.snoop [OF _ u(1)])
    fix p st l s out st' assume p: "p \<in> set (prev_of env cid)" and f: "updateCacheBlock n env p a new None st = Inr (l, s, out, st')"
    have "masters_under env p \<subseteq> S" using masters_under_prev [OF p] Suc.prems(2) by blast
    with f show "takes_away S L (drop_bit L a) st st'" by (rule Suc.IH)
  qed
  moreover have "cc_master_id (ev_cntlr env cid) \<in> S" using Suc.prems(2) masters_under_here by blast
  ultimately show ?case using update_here_takes [OF u(2)] takes.trans by blast
qed simp

lemma update_prev_takes:
  assumes "update_prev env cid ex a new st = Inr (l, s, st')" "masters_under env cid \<subseteq> S"
  shows "takes_away S L (drop_bit L a) st st'"
proof (rule takes.snoop [OF _ assms(1) [unfolded update_prev_def]])
  fix p st l s out st'
  assume p: "p \<in> set (filter (\<lambda>p. Some p \<noteq> ex) (prev_of env cid))"
    and f: "updateCacheBlock (ev_fuel env) env p a new None st = Inr (l, s, out, st')"
  have "masters_under env p \<subseteq> S" using masters_under_prev [of p env cid] p assms(2) by auto
  with f show "takes_away S L (drop_bit L a) st st'" by (rule updateCacheBlock_takes)
qed

lemma getCacheState_iff:
  assumes "caches_ok L st" "getCacheState env cid a st = Inr s"
  shows "s \<noteq> INVALID \<longleftrightarrow> drop_bit L a \<in> lines_of env cid st"
proof -
  let ?c = "cache_of env cid st"
  note ok = caches_ok_cache [OF assms(1), of env cid]
  obtain p where p: "peekSingleLine a ?c = Inr p" "p \<noteq> None \<longleftrightarrow> drop_bit L a \<in> lines_of env cid st"
    using peekSingleLine_iff [OF cache_okD(1) [OF ok], of a] by (auto simp: lines_of_def cache_okD(4) [OF ok])
  with assms(2) have s: "s = ptr_state env cid p st" by (simp add: getCacheState_def getCacheBlockInfo_def)
  have "m_cstate (deref ?c q) \<noteq> INVALID" if "peekSingleLine a ?c = Inr (Some q)" for q
    by (rule peek_live [OF ok that])
  with p s show ?thesis by (cases p) (simp_all add: ptr_state_def block_of_def)
qed

lemma update_here_gone:
  assumes "update_here env cid a INVALID ob sib st = Inr (l, s, out, st')" "caches_ok L st" "cc_coherent (ev_cntlr env cid)"
  shows "drop_bit L a \<notin> lines_of env cid st'"
proof -
  from assms(1) obtain t where t: "getCacheState env cid a st' = Inr t" "reached env cid INVALID t"
    by (rule update_here_Inr)
  have "caches_ok L st'"
    by (rule takes_caches_ok [OF update_here_takes [OF assms(1) UNIV_I] assms(2)])
  with getCacheState_iff [OF _ t(1)] t(2) assms(3) show ?thesis by (auto simp: reached_def)
qed

text \<open>An update to \<open>INVALID\<close> reaches every coherent cache at and below.\<close>

lemma updateCacheBlock_gone:
  assumes "under env cid x" "updateCacheBlock n env cid a INVALID ob st = Inr (l, s, out, st')" "caches_ok L st"
    "cc_coherent (ev_cntlr env x)"
  shows "drop_bit L a \<notin> lines_of env x st'"
  using assms
proof (induction n arbitrary: cid ob st l s out st')
  case (Suc n)
  from Suc.prems(2) obtain l1 s1 st1 where
    u: "snoop (\<lambda>p. updateCacheBlock n env p a INVALID None) (prev_of env cid) 0 False st = Inr (l1, s1, st1)"
      "update_here env cid a INVALID ob s1 st1 = Inr (l, s, out, st')"
    by (rule updateCacheBlock_Suc)
  note tk = updateCacheBlock_takes [of n env _ a INVALID None _ _ _ _ _ UNIV L, OF _ subset_UNIV]
  have "takes_away UNIV L (drop_bit L a) st st1" by (rule takes.snoop [OF _ u(1)]) (rule tk)
  with Suc.prems(3) have ok1: "caches_ok L st1" by (simp add: takes_caches_ok)
  from Suc.prems(1) show ?case
  proof cases
    case under_here
    with update_here_gone [OF u(2) ok1] Suc.prems(4) show ?thesis by simp
  next
    case p: (under_prev p)
    obtain st2 l2 s2 out2 st3 where s: "takes_away UNIV L (drop_bit L a) st st2"
        "updateCacheBlock n env p a INVALID None st2 = Inr (l2, s2, out2, st3)" "takes_away UNIV L (drop_bit L a) st3 st1"
      using takes.snoop_each [OF _ u(1) p(1), of UNIV L "drop_bit L a"] tk by metis
    have ok2: "caches_ok L st2" by (rule takes_caches_ok [OF s(1) Suc.prems(3)])
    have "drop_bit L a \<notin> lines_of env x st3" by (rule Suc.IH [OF p(2) s(2) ok2 Suc.prems(4)])
    moreover have "lines_of env x st1 \<subseteq> lines_of env x st3" by (rule takes_lines [OF s(3) takes_caches_ok [OF tk [OF s(2)] ok2]])
    moreover have "lines_of env x st' \<subseteq> lines_of env x st1" by (rule takes_lines [OF update_here_takes [OF u(2) UNIV_I] ok1])
    ultimately show ?thesis by blast
  qed
qed simp

end
