(* ===== verification/Cache_Cntlr_Inv.thy ===== *)
theory Cache_Cntlr_Inv
  imports Cache_Update_Inv
begin

text \<open>
  Inclusion: a cache holds every line the caches of the previous level hold. Updates of a line to \<open>INVALID\<close> keep it when
  all caches they reach are coherent, other updates change no lines at all, and so do the requests of a directory.
\<close>

definition inclusive :: "cc_env \<Rightarrow> cc_state \<Rightarrow> bool" where
  "inclusive env st \<longleftrightarrow> (\<forall>c. \<forall>p \<in> set (prev_of env c). lines_of env p st \<subseteq> lines_of env c st)"

definition coherent_under :: "cc_env \<Rightarrow> nat \<Rightarrow> bool" where
  "coherent_under env cid \<longleftrightarrow> (\<forall>x. under env cid x \<longrightarrow> cc_coherent (ev_cntlr env x))"

lemma lines_of_master: "lines_of env cid st = master_lines (cc_master_id (ev_cntlr env cid)) st"
  by (simp add: lines_of_def master_lines_def cache_of_def master_of_def)

lemma inclusive_under:
  assumes "under env c x" "inclusive env st"
  shows "lines_of env x st \<subseteq> lines_of env c st"
  using assms(1) by induction (use assms(2) in \<open>auto simp: inclusive_def\<close>)

lemma inclusive_lines: "(\<And>m. master_lines m st' = master_lines m st) \<Longrightarrow> inclusive env st' = inclusive env st"
  by (simp add: inclusive_def lines_of_master)

text \<open>Whatever else changes: only the masters in \<open>S\<close> lose a line, and only the one with tag \<open>t\<close>.\<close>

definition loses :: "nat set \<Rightarrow> nat \<Rightarrow> addr \<Rightarrow> cc_state \<Rightarrow> cc_state \<Rightarrow> bool" where
  "loses S L t st st' \<longleftrightarrow> (caches_ok L st \<longrightarrow> caches_ok L st' \<and> (\<forall>m. master_lines m st' \<subseteq> master_lines m st \<and>
     master_lines m st - {t} \<subseteq> master_lines m st' \<and> (m \<notin> S \<longrightarrow> master_lines m st' = master_lines m st)))"

lemma losesD:
  assumes "loses S L t st st'" "caches_ok L st"
  shows "caches_ok L st'" "master_lines m st' \<subseteq> master_lines m st" "master_lines m st - {t} \<subseteq> master_lines m st'"
    "m \<notin> S \<Longrightarrow> master_lines m st' = master_lines m st"
  using assms by (simp_all add: loses_def)

interpretation losing: stack_relation "loses S L t" for S L t
proof unfold_locales
  fix st st1 st2 assume a: "loses S L t st st1" "loses S L t st1 st2"
  show "loses S L t st st2"
    unfolding loses_def
  proof (intro impI conjI allI)
    assume ok: "caches_ok L st"
    note l = losesD [OF a(1) ok]
    note k = losesD [OF a(2) l(1)]
    show "caches_ok L st2" by (rule k(1))
    fix m
    show "master_lines m st2 \<subseteq> master_lines m st" using k(2) l(2) by blast
    show "master_lines m st - {t} \<subseteq> master_lines m st2" using k(3) [of m] l(3) [of m] by blast
    show "master_lines m st2 = master_lines m st" if "m \<notin> S" using k(4) l(4) that by simp
  qed
qed (auto simp: loses_def)

lemma takes_loses: "takes_away S L t st st' \<Longrightarrow> loses S L t st st'"
  unfolding loses_def takes_away_def using shrinks_caches_ok shrinks_master_lines unfolding master_lines_def by blast

lemma steady_loses: "steady st st' \<Longrightarrow> loses S L t st st'"
  by (intro takes_loses steady_takes)

lemma caches_loses: "(\<And>m. mc_cache (st_master st' m) = mc_cache (st_master st m)) \<Longrightarrow> loses S L t st st'"
  by (simp add: loses_def caches_ok_def master_lines_def)

lemma masters_under_prev_of:
  assumes "cc_master_id (ev_cntlr env c) \<in> masters_under env cid" "p \<in> set (prev_of env c)"
  shows "under env cid p"
proof -
  obtain x where x: "under env cid x" "cc_master_id (ev_cntlr env x) = cc_master_id (ev_cntlr env c)"
    using assms(1) by (auto simp: masters_under_def)
  from x(2) assms(2) have "p \<in> set (prev_of env x)" by (simp add: prev_of_def)
  with x(1) show ?thesis by induction (auto intro: under.intros)
qed

text \<open>A line that is gone from all caches below those that lost it: then inclusion survives.\<close>

lemma inclusive_loses:
  assumes "loses (masters_under env cid) L t st st'" "caches_ok L st" "inclusive env st"
    "\<And>x. under env cid x \<Longrightarrow> t \<notin> lines_of env x st'"
  shows "inclusive env st'"
  unfolding inclusive_def
proof (intro allI ballI subsetI)
  fix c p u assume p: "p \<in> set (prev_of env c)" and u: "u \<in> lines_of env p st'"
  note l = losesD [OF assms(1,2)]
  from u l(2) p assms(3) have c: "u \<in> lines_of env c st"
    unfolding inclusive_def lines_of_master by blast
  show "u \<in> lines_of env c st'"
  proof (cases "u = t \<and> cc_master_id (ev_cntlr env c) \<in> masters_under env cid")
    case True
    then have "under env cid p" using masters_under_prev_of [OF _ p] by simp
    with assms(4) u True show ?thesis by simp
  next
    case False
    with c l(3,4) show ?thesis unfolding lines_of_master by blast
  qed
qed

lemma updateCacheBlock_invalid:
  assumes "updateCacheBlock n env cid a INVALID ob st = Inr (l, s, out, st')" "caches_ok L st" "inclusive env st"
    "coherent_under env cid"
  shows "inclusive env st'" "under env cid x \<Longrightarrow> drop_bit L a \<notin> lines_of env x st'" "caches_ok L st'" "st_out st' = st_out st"
proof -
  have gone: "drop_bit L a \<notin> lines_of env x st'" if "under env cid x" for x
    using updateCacheBlock_gone [OF that assms(1,2)] that assms(4) by (simp add: coherent_under_def)
  note tk = updateCacheBlock_takes [OF assms(1) subset_refl, of L]
  show "inclusive env st'" by (rule inclusive_loses [OF takes_loses [OF tk] assms(2,3) gone])
  show "caches_ok L st'" by (rule takes_caches_ok [OF tk assms(2)])
  show "st_out st' = st_out st" using tk assms(2) shrinks_out by (auto simp: takes_away_def)
  show "drop_bit L a \<notin> lines_of env x st'" if "under env cid x" using gone [OF that] .
qed

text \<open>Other updates keep all lines.\<close>

lemma update_own_steady:
  assumes "update_own env cid a new info u st = Inr (u', st')" "new \<noteq> INVALID"
  shows "steady st st'"
proof (cases info)
  case None
  with assms show ?thesis by (simp add: update_own_def steadily.refl)
next
  case (Some p)
  show ?thesis
  proof (cases "new = m_cstate (block_of env cid p st) \<and> up_out u \<noteq> None")
    case True
    with assms Some have "give_data env cid a u st = Inr (u', st')" by (simp add: update_own_def)
    then show ?thesis by (rule steady_give_data)
  next
    case False
    with assms Some have "bindE (flush_modified env cid a p u st) (\<lambda>(u, st). change_cstate env cid a new p u st) = Inr (u', st')"
      by (simp only: update_own_def option.case if_False)
    then obtain u1 s where s: "flush_modified env cid a p u st = Inr (u1, s)" "change_cstate env cid a new p u1 s = Inr (u', st')"
      by (rule bindE_pair)
    from steadily.trans [OF steady_flush [OF s(1)] change_cstate_steady [OF s(2) assms(2)]] show ?thesis .
  qed
qed

lemma updateCacheBlock_steady:
  assumes "updateCacheBlock n env cid a new ob st = Inr (l, s, out, st')" "new \<noteq> INVALID"
  shows "steady st st'"
  using assms(1)
proof (induction n arbitrary: cid ob st l s out st')
  case (Suc n)
  from Suc.prems(1) obtain l1 s1 st1 where
    u: "snoop (\<lambda>p. updateCacheBlock n env p a new None) (prev_of env cid) 0 False st = Inr (l1, s1, st1)"
      "update_here env cid a new ob s1 st1 = Inr (l, s, out, st')"
    by (rule updateCacheBlock_Suc)
  have "steady st st1" by (rule steadily.snoop [OF _ u(1)]) (rule Suc.IH)
  moreover from u(2) have "steady st1 st'" by (rule update_here_Inr) (rule update_own_steady [OF _ assms(2)])
  ultimately show ?case by (rule steadily.trans)
qed simp

subsection \<open>Time and messages\<close>

text \<open>Operations that touch neither the caches nor the messages sent.\<close>

definition quiet :: "cc_state \<Rightarrow> cc_state \<Rightarrow> bool" where
  "quiet st st' \<longleftrightarrow> st_master st' = st_master st \<and> st_out st' = st_out st"

lemma quiet_lines:
  assumes "quiet st st'"
  shows "lines_of env x st' = lines_of env x st" "caches_ok L st' = caches_ok L st" "inclusive env st' = inclusive env st"
    "st_out st' = st_out st"
  using assms by (simp_all add: quiet_def lines_of_def cache_of_def master_of_def caches_ok_def inclusive_def)

lemma quiet_incr_time: "incr_time env cid t th st = Inr st' \<Longrightarrow> quiet st st'"
  by (auto simp: incr_time_def set_elapsed_def quiet_def bindE_Inr_iff Let_def)

lemma quiet_incr_access: "incr_access env cid ac th st = Inr st' \<Longrightarrow> quiet st st'"
  by (auto simp: incr_access_def bindE_Inr_iff quiet_incr_time)

lemma quiet_msg [simp]: "quiet st (msg_updateTime env cid m r st)"
  by (simp add: quiet_def msg_updateTime_def)

lemma cc_sendMsg_Inr:
  assumes "cc_sendMsg env cid ty rq receiver a data len perf th st = Inr st'"
  shows "st_master st' = st_master st"
    "st_out st' = st_out st @ [(receiver, ShmemMsg ty LAST_LEVEL_CACHE TAG_DIR rq a data len perf, elapsed env cid th st)]"
  using assms by (auto simp: cc_sendMsg_def Let_def)

end
