(* ===== verification/Cache_Insert_Inv.thy ===== *)
theory Cache_Insert_Inv
  imports Cache_Cntlr_Inv
begin

text \<open>
  \<open>insertCacheBlock\<close>: the new line is there afterwards, the evicted one is in no cache at or below, every other line stays;
  the caches stay well-formed and inclusive.
\<close>

subsection \<open>The new block of one cache\<close>

text \<open>Between its insertion and the change of its state, a block has a tag but no state.\<close>

definition live_but :: "addr \<Rightarrow> cache \<Rightarrow> bool" where
  "live_but t c \<longleftrightarrow> (\<forall>bs \<in> set (map cs_blocks (c_sets c)). \<forall>b \<in> set bs. isValid b \<longrightarrow> m_tag b \<noteq> t \<longrightarrow> m_cstate b \<noteq> INVALID)"

lemma insert_ok:
  assumes "cache_ok L c" "insertSingleLine a fill evb want c = Inr (ev, ea, evb', buf, c')" "drop_bit L a \<notin> cache_lines c"
  shows "cache_wf c'" "cache_unique c'" "m_log_blocksize (c_base c') = L" "live_but (drop_bit L a) c'"
    "cache_lines c' = insert (drop_bit L a) (cache_lines c - (if ev then {drop_bit L ea} else {}))"
    "ev \<longrightarrow> drop_bit L ea \<in> cache_lines c"
proof -
  note c = cache_okD [OF assms(1)]
  note wf = insertSingleLine_wf [OF c(1) assms(2)]
  note u = insertSingleLine_unique [OF c(1,2) assms(2)]
  from wf show "cache_wf c'" by blast
  from wf assms(1) show "m_log_blocksize (c_base c') = L" by (simp add: cache_ok_def)
  from u assms(3) show "cache_unique c'" by (simp add: c(4))
  from wf have ea: "ev \<longrightarrow> m_tag evb' = drop_bit L ea \<and> m_tag evb' \<in> cache_lines c" by (auto simp: c(4))
  then show "ev \<longrightarrow> drop_bit L ea \<in> cache_lines c" by auto
  from u assms(3) ea show "cache_lines c' = insert (drop_bit L a) (cache_lines c - (if ev then {drop_bit L ea} else {}))"
    by (simp add: c(4))
  show "live_but (drop_bit L a) c'"
    using c(1) assms(2)
  proof (cases rule: insertSingleLine_cases)
    case (1 k b s' f)
    have "\<exists>u \<in> set (c_sets c). x \<in> set (cs_blocks u)" if "x \<in> set (cs_blocks s')" "m_tag x \<noteq> drop_bit L a" for x
      using cache_wf_set [OF c(1) 1(1)] 1(6)
    proof (cases rule: set_insert_cases)
      case s: (1 i r)
      from that(1) s(5) have "x = clone (cs_blocks (c_sets c ! unat k) ! i) b \<or> x \<in> set (cs_blocks (c_sets c ! unat k))"
        by (auto dest: set_update_subset_insert [THEN subsetD])
      with that(2) 1(3) c(4) show ?thesis using nth_mem [OF 1(1)] by auto
    qed
    then have "\<exists>u \<in> set (c_sets c). x \<in> set (cs_blocks u)" if "v \<in> set (c_sets c')" "x \<in> set (cs_blocks v)" "m_tag x \<noteq> drop_bit L a" for v x
      using that 1(8) by (auto dest!: set_update_subset_insert [THEN subsetD])
    with c(3) show ?thesis by (fastforce simp: live_but_def cache_live_def)
  qed
qed

lemma store_peeked_live:
  assumes "cache_wf c" "cache_unique c" "live_but (blk_tag c a) c" "peekSingleLine a c = Inr (Some p)"
    "m_tag b = m_tag (deref c p)" "m_cstate b \<noteq> INVALID"
  shows "cache_live (store_block p b c)"
proof -
  obtain k where k: "splitAddress (c_base c) a = Inr (blk_tag c a, k)" "unat k < length (c_sets c)"
      "placed (c_base c) (unat k) (blk_tag c a)" "get_set c k = Inr (c_sets c ! unat k)"
    by (rule cache_split [OF assms(1)])
  with assms(4) obtain w where w: "p = (unat k, w)" "find_tag (blk_tag c a) (c_sets c ! unat k) = Some w"
    by (auto simp: peekSingleLine_def)
  note wf = find_tag_Some [OF w(2)]
  have "m_cstate (cs_blocks (c_sets (store_block p b c) ! i) ! j) \<noteq> INVALID"
    if i: "i < length (c_sets c)" and j': "j < length (cs_blocks (c_sets (store_block p b c) ! i))"
      and v: "isValid (cs_blocks (c_sets (store_block p b c) ! i) ! j)" for i j
  proof (cases "i = unat k \<and> j = w")
    case True
    with wf assms(6) show ?thesis by (simp add: c_sets_store_block [OF k(2)] w(1))
  next
    case False
    let ?x = "cs_blocks (c_sets c ! i) ! j"
    have j: "j < length (cs_blocks (c_sets c ! i))" using j' by (simp add: c_sets_store_block [OF i] split: if_splits)
    have x: "cs_blocks (c_sets (store_block p b c) ! i) ! j = ?x"
      using False by (auto simp: c_sets_store_block [OF i] w(1))
    have mem: "c_sets c ! i \<in> set (c_sets c)" "?x \<in> set (cs_blocks (c_sets c ! i))" using i j by simp_all
    have "m_tag ?x \<noteq> blk_tag c a"
    proof
      assume t: "m_tag ?x = blk_tag c a"
      have "isValid ?x" using v x by simp
      with mem(2) have "m_tag ?x \<in> set_tags (c_sets c ! i)" unfolding set_tags_def by blast
      with t have "blk_tag c a \<in> set_tags (c_sets c ! i)" by simp
      then have "placed (c_base c) i (blk_tag c a)" by (rule cache_wf_tags [OF assms(1) i])
      from placed_unique [OF this k(3)] have ik: "i = unat k" .
      with assms(2) mem(1) have "tags_unique (cs_blocks (c_sets c ! unat k))" by (simp add: cache_unique_def)
      with wf v x t j ik have "j = w" by (auto simp: tags_unique_def)
      with ik False show False by simp
    qed
    with assms(3) mem v x show ?thesis by (fastforce simp: live_but_def)
  qed
  moreover have "length (c_sets (store_block p b c)) = length (c_sets c)" by (simp add: store_block_def Let_def)
  ultimately show ?thesis
    unfolding cache_live_def by (auto simp: in_set_conv_nth)
qed

subsection \<open>Inserting into a cache of the stack\<close>

lemma caches_ok_set_cache:
  assumes "\<And>m. m \<noteq> cc_master_id (ev_cntlr env cid) \<Longrightarrow> cache_ok L (mc_cache (st_master st m))" "cache_ok L c"
  shows "caches_ok L (set_cache env cid c st)"
  using assms by (simp add: caches_ok_def set_cache_def set_master_def)

lemma set_cache_twice [simp]: "set_cache env cid c' (set_cache env cid c st) = set_cache env cid c' st"
  by (simp add: set_cache_def set_master_def master_of_def fun_upd_idem_iff)

text \<open>The new block gets its state and marks.\<close>

lemma new_block_ok:
  assumes "cache_wf c" "cache_unique c" "live_but (drop_bit L a) c" "m_log_blocksize (c_base c) = L"
    "setCacheState env cid a s (set_cache env cid c st) = Inr (p, st1)" "s \<noteq> INVALID"
  shows "\<exists>c'. mark_inserted env cid p st1 = set_cache env cid c' st \<and> cache_ok L c' \<and> cache_lines c' = cache_lines c \<and>
    peekSingleLine a c' = Inr (Some p)"
proof -
  let ?t = "drop_bit L a"
  have t: "blk_tag c a = ?t" using assms(4) by (simp add: blk_tag_def)
  from assms(5) have p: "peekSingleLine a c = Inr (Some p)"
    and st1: "st1 = set_cache env cid (store_block p ((deref c p)\<lparr>m_cstate := s\<rparr>) c) st"
    by (auto simp: setCacheState_def getCacheBlockInfo_def bindE_Inr_iff set_cstate_def set_block_def block_of_def split: option.splits)
  let ?b = "(deref c p)\<lparr>m_cstate := s\<rparr>"
  let ?c1 = "store_block p ?b c"
  note c1 = store_block_spec [OF assms(1) p, of ?b]
  have "cache_live ?c1" by (rule store_peeked_live [OF assms(1,2) _ p]) (use assms(3,6) t in simp_all)
  with c1 assms(2,4) have ok1: "cache_ok L ?c1" by (simp add: cache_ok_def)
  let ?b1 = "(let b = ?b; b = (if ev_cache_only env then setOption b WARMUP else b)
      in case ev_owner env of Some f \<Rightarrow> b\<lparr>m_owner := f (cc_core_id (ev_cntlr env cid))\<rparr> | None \<Rightarrow> b)"
  have b1: "m_tag ?b1 = m_tag ?b" "m_cstate ?b1 = s" by (simp_all add: Let_def setOption_def split: option.split)
  have d: "deref ?c1 p = ?b" using c1 by simp
  have "mark_inserted env cid p st1 = set_cache env cid (store_block p ?b1 ?c1) st"
    by (simp add: mark_inserted_def st1 set_block_def block_of_def d Let_def)
  moreover have "cache_ok L (store_block p ?b1 ?c1)" "cache_lines (store_block p ?b1 ?c1) = cache_lines ?c1"
    using cache_store_ok [OF ok1, of ?b1 p] b1 d assms(6) by simp_all
  moreover have p1: "peekSingleLine a ?c1 = Inr (Some p)" using c1 p by simp
  then have "peekSingleLine a (store_block p ?b1 ?c1) = Inr (Some p)"
    using store_block_spec [OF cache_okD(1) [OF ok1] p1, of ?b1 a] b1 d by simp
  ultimately show ?thesis using c1 by auto
qed

subsection \<open>Disposing of the evicted line\<close>

lemma quiet_loses: "quiet st st' \<Longrightarrow> loses S L t st st'"
  by (rule caches_loses) (simp add: quiet_def)

lemma set_master_loses:
  assumes "mc_cache m = cache_of env cid st"
  shows "loses S L t st (set_master env cid m st)"
  by (rule caches_loses) (use assms in \<open>simp add: set_master_def cache_of_def master_of_def\<close>)

lemma cc_sendMsg_loses: "cc_sendMsg env cid ty rq receiver a data len perf th st = Inr st' \<Longrightarrow> loses S L t st st'"
  by (rule caches_loses) (simp add: cc_sendMsg_Inr(1))

lemma writeCacheBlock_loses: "writeCacheBlock n env cid a off data len st = Inr st' \<Longrightarrow> loses S L t st st'"
  by (rule steady_loses) (simp add: steady_def shrinks_write)

lemma accessDRAM_loses:
  assumes "accessDRAM env cid op a buf st = Inr (r, st')"
  shows "loses S L t st st'"
  by (rule caches_loses)
    (use assms in \<open>auto simp: accessDRAM_def Let_def bindE_Inr_iff set_master_def master_of_def split: option.splits if_splits\<close>)

lemma evict_to_dram_loses:
  assumes "evict_to_dram env cid a buf st = Inr st'"
  shows "loses S L t st st'"
proof -
  let ?now = "elapsed env cid USER_THREAD st"
  from assms obtain s1 where s1: "(case mc_writebacks (master_of env cid st) of
          None \<Rightarrow> Inr st
        | Some w \<Rightarrow> incr_time env cid (getStartTime ?now w - ?now) USER_THREAD st) = Inr s1"
    and r: "bindE (accessDRAM env cid MEM_WRITE a buf s1) (\<lambda>((_, dram_latency, _), st).
      Inr (let m = master_of env cid st in
           set_master env cid (m\<lparr>mc_writebacks := map_option (\<lambda>w. snd (getCompletionTime ?now dram_latency 0 w))
             (mc_writebacks m)\<rparr>) st)) = Inr st'"
    unfolding evict_to_dram_def Let_def by (rule bindE_InrE)
  from r obtain y s2 w where d: "accessDRAM env cid MEM_WRITE a buf s1 = Inr (y, s2)"
      "st' = set_master env cid ((master_of env cid s2)\<lparr>mc_writebacks := w\<rparr>) s2"
    by (auto simp: bindE_Inr_iff Let_def)
  have l: "loses S L t s2 st'" unfolding d(2) by (rule set_master_loses) (simp add: cache_of_def)
  have "loses S L t st s1" using s1 by (auto intro: losing.refl quiet_loses quiet_incr_time split: option.splits)
  then show ?thesis by (rule losing.trans [OF _ losing.trans [OF accessDRAM_loses [OF d(1)] l]])
qed

lemma dispose_loses:
  assumes "dispose env cid a s buf th st = Inr st'"
  shows "loses S L t st st'"
proof -
  have "st' = st \<or> (\<exists>n nx off data len. writeCacheBlock n env nx a off data len st = Inr st') \<or> evict_to_dram env cid a buf st = Inr st' \<or>
      evict_to_directory env cid a s buf th st = Inr st'"
    using assms by (auto simp: dispose_def Let_def split: if_splits option.splits)
  moreover have "loses S L t st st'" if "evict_to_directory env cid a s buf th st = Inr st'"
    using that by (auto simp: evict_to_directory_def Let_def bindE_Inr_iff intro: cc_sendMsg_loses split: if_splits)
  ultimately show ?thesis by (elim disjE exE) (simp_all add: losing.refl writeCacheBlock_loses evict_to_dram_loses)
qed

text \<open>The loop over the previous levels takes the line away from all of them.\<close>

lemma update_prev_gone:
  assumes "update_prev env cid None a INVALID st = Inr (l, s, st')" "caches_ok L st" "p \<in> set (prev_of env cid)" "under env p x"
    "cc_coherent (ev_cntlr env x)"
  shows "drop_bit L a \<notin> lines_of env x st'"
proof -
  have ps: "filter (\<lambda>p. Some p \<noteq> None) (prev_of env cid) = prev_of env cid" by simp
  note u = assms(1) [unfolded update_prev_def ps]
  note tk = updateCacheBlock_takes [of "ev_fuel env" env _ a INVALID None _ _ _ _ _ UNIV L, OF _ subset_UNIV]
  obtain st1 l1 s1 out st2 where s: "takes_away UNIV L (drop_bit L a) st st1"
      "updateCacheBlock (ev_fuel env) env p a INVALID None st1 = Inr (l1, s1, out, st2)" "takes_away UNIV L (drop_bit L a) st2 st'"
    using takes.snoop_each [OF _ u assms(3), of UNIV L "drop_bit L a"] tk by metis
  have ok: "caches_ok L st1" by (rule takes_caches_ok [OF s(1) assms(2)])
  have "drop_bit L a \<notin> lines_of env x st2" by (rule updateCacheBlock_gone [OF assms(4) s(2) ok assms(5)])
  with takes_lines [OF s(3) takes_caches_ok [OF tk [OF s(2)] ok]] show ?thesis by blast
qed

lemma evict_prev_loses:
  assumes "evict_prev env cid a buf th st = Inr (buf', st')" "caches_ok L st" "coherent_under env cid"
  shows "loses (masters_under env cid) L (drop_bit L a) st st'"
    "p \<in> set (prev_of env cid) \<Longrightarrow> under env p x \<Longrightarrow> drop_bit L a \<notin> lines_of env x st'"
proof -
  have "loses (masters_under env cid) L (drop_bit L a) st st' \<and>
    (\<forall>p x. p \<in> set (prev_of env cid) \<longrightarrow> under env p x \<longrightarrow> drop_bit L a \<notin> lines_of env x st')"
  proof (cases "prev_of env cid = []")
    case True
    with assms(1) show ?thesis by (simp add: evict_prev_def losing.refl)
  next
    case False
    let ?s0 = "set_master env cid ((master_of env cid st)\<lparr>mc_evicting := Some (a, buf)\<rparr>) st"
    from assms(1) False obtain l s s1 s2 where u: "update_prev env cid None a INVALID ?s0 = Inr (l, s, s1)"
        "incr_time env cid l th s1 = Inr s2" "st' = set_master env cid ((master_of env cid s2)\<lparr>mc_evicting := None\<rparr>) s2"
      by (auto simp: evict_prev_def Let_def bindE_Inr_iff)
    have l0: "loses (masters_under env cid) L (drop_bit L a) st ?s0" by (rule set_master_loses) (simp add: cache_of_def)
    have ok0: "caches_ok L ?s0" by (rule losesD(1) [OF l0 assms(2)])
    have l1: "loses (masters_under env cid) L (drop_bit L a) ?s0 s1" by (rule takes_loses [OF update_prev_takes [OF u(1) subset_refl]])
    have l2: "loses S L t s1 st'" for S t
      unfolding u(3) by (rule losing.trans [OF quiet_loses [OF quiet_incr_time [OF u(2)]] set_master_loses]) (simp add: cache_of_def)
    have "drop_bit L a \<notin> lines_of env x st'" if p: "p \<in> set (prev_of env cid)" "under env p x" for p x
    proof -
      have "cc_coherent (ev_cntlr env x)" using assms(3) under_prev [OF p] by (simp add: coherent_under_def)
      from update_prev_gone [OF u(1) ok0 p this] losesD(2) [OF l2 losesD(1) [OF l1 ok0]] show ?thesis
        unfolding lines_of_master by blast
    qed
    with losing.trans [OF l0 losing.trans [OF l1 l2]] show ?thesis by blast
  qed
  then show "loses (masters_under env cid) L (drop_bit L a) st st'"
    "p \<in> set (prev_of env cid) \<Longrightarrow> under env p x \<Longrightarrow> drop_bit L a \<notin> lines_of env x st'" by blast+
qed

lemma evict_line_loses:
  assumes "evict_line env cid a b buf th st = Inr st'" "caches_ok L st" "coherent_under env cid"
  shows "loses (masters_under env cid) L (drop_bit L a) st st'"
    "under env cid x \<Longrightarrow> drop_bit L a \<notin> lines_of env x st'"
proof -
  from assms(1) obtain buf' s1 s where e: "evict_prev env cid a buf th st = Inr (buf', s1)"
      "dispose env cid a (m_cstate b) buf' th s1 = Inr st'" "getCacheState env cid a st' = Inr INVALID"
    by (auto simp: evict_line_def bindE_Inr_iff)
  note p = evict_prev_loses [OF e(1) assms(2,3)]
  note ok = losesD(1) [OF p(1) assms(2)]
  note d = dispose_loses [OF e(2)]
  show "loses (masters_under env cid) L (drop_bit L a) st st'" by (rule losing.trans [OF p(1) d])
  assume "under env cid x"
  then show "drop_bit L a \<notin> lines_of env x st'"
  proof cases
    case under_here
    with getCacheState_iff [OF losesD(1) [OF d ok] e(3)] show ?thesis by simp
  next
    case (under_prev q)
    with p(2) losesD(2) [OF d ok] show ?thesis unfolding lines_of_master by blast
  qed
qed

subsection \<open>insertCacheBlock\<close>

text \<open>The steps of \<open>insertCacheBlock\<close>: \<open>c\<close> is the cache with the new line, \<open>st1\<close> the state before the eviction.\<close>

lemma insertCacheBlock_steps:
  assumes "insertCacheBlock env cid a s data th st = Inr (p, st')" "caches_ok L st" "s \<noteq> INVALID"
  obtains ev ea evb c st1 buf where
    "drop_bit L a \<notin> lines_of env cid st" "st1 = set_cache env cid c st" "caches_ok L st1"
    "cache_lines c = insert (drop_bit L a) (lines_of env cid st - (if ev then {drop_bit L ea} else {}))"
    "ev \<longrightarrow> drop_bit L ea \<in> lines_of env cid st"
    "if ev then evict_line env cid ea evb buf th st1 = Inr st' else st' = st1"
proof -
  let ?ins = "insertSingleLine a data (CacheBlockInfo SharedBlock (-1) INVALID 0) True (cache_of env cid st)"
  let ?buf = "\<lambda>eb. case eb of Some buf \<Rightarrow> buf | None \<Rightarrow> ev_junk env"
  let ?rest = "\<lambda>ev ea evb eb c. bindE (setCacheState env cid a s (set_cache env cid c st)) (\<lambda>(p, st).
      if ev then bindE (evict_line env cid ea evb (?buf eb) th (mark_inserted env cid p st)) (\<lambda>st. Inr (p, st))
      else Inr (p, mark_inserted env cid p st))"
  from assms(1) obtain t where t: "getCacheState env cid a st = Inr t" and
    "assertE (t = INVALID) ''we already have this line, can't add it again''
      (bindE ?ins (\<lambda>(ev, ea, evb, eb, c). ?rest ev ea evb eb c)) = Inr (p, st')"
    unfolding insertCacheBlock_def Let_def by (rule bindE_InrE)
  then have i1: "getCacheState env cid a st = Inr INVALID"
    and r: "bindE ?ins (\<lambda>(ev, ea, evb, eb, c). ?rest ev ea evb eb c) = Inr (p, st')" by simp_all
  from r obtain x where x: "?ins = Inr x" "(case x of (ev, ea, evb, eb, c) \<Rightarrow> ?rest ev ea evb eb c) = Inr (p, st')"
    by (rule bindE_InrE)
  obtain ev ea evb eb c0 where "x = (ev, ea, evb, eb, c0)" by (cases x)
  with x have i2: "?ins = Inr (ev, ea, evb, eb, c0)" and r: "?rest ev ea evb eb c0 = Inr (p, st')" by simp_all
  from r obtain p1 st0 where i3: "setCacheState env cid a s (set_cache env cid c0 st) = Inr (p1, st0)" and
    r: "(if ev then bindE (evict_line env cid ea evb (?buf eb) th (mark_inserted env cid p1 st0)) (\<lambda>st. Inr (p1, st))
      else Inr (p1, mark_inserted env cid p1 st0)) = Inr (p, st')"
    by (rule bindE_pair)
  from r have "p1 = p" and ev: "if ev then evict_line env cid ea evb (?buf eb) th (mark_inserted env cid p st0) = Inr st'
      else st' = mark_inserted env cid p st0"
    by (cases ev; force simp: bindE_Inr_iff)+
  note i = i1 i2 i3 [unfolded \<open>p1 = p\<close>]
  have new: "drop_bit L a \<notin> lines_of env cid st" using getCacheState_iff [OF assms(2) i(1)] by simp
  note c0 = insert_ok [OF caches_ok_cache [OF assms(2)] i(2) new [unfolded lines_of_def]]
  obtain c where c: "mark_inserted env cid p st0 = set_cache env cid c st" "cache_ok L c" "cache_lines c = cache_lines c0"
    using new_block_ok [OF c0(1,2,4,3) i(3) assms(3)] by blast
  have "caches_ok L (set_cache env cid c st)"
    by (rule caches_ok_set_cache [OF _ c(2)]) (use assms(2) in \<open>simp add: caches_ok_def\<close>)
  then show ?thesis
    using ev c new c0(5,6) unfolding lines_of_def c(1) by (intro that [of "set_cache env cid c st" c ev ea evb "?buf eb"]) (simp_all add: lines_of_def)
qed

end
