(* ===== verification/Cache_Stack_Type.thy ===== *)
theory Cache_Stack_Type
  imports Cache_Insert_Inv
begin

text \<open>
  Well-formedness of all caches of the stack, through every operation of the controllers: requests, misses, prefetches,
  accesses of a core and messages of a directory. The threads in between (\<open>wait\<close>, \<open>wake\<close>) are assumed to keep it too.
\<close>

definition keeps :: "nat \<Rightarrow> cc_state \<Rightarrow> cc_state \<Rightarrow> bool" where
  "keeps L st st' \<longleftrightarrow> (caches_ok L st \<longrightarrow> caches_ok L st')"

interpretation keeping: stack_relation "keeps L" for L
  by unfold_locales (auto simp: keeps_def)

lemma loses_keeps: "loses S L t st st' \<Longrightarrow> keeps L st st'"
  by (simp add: loses_def keeps_def)

lemma quiet_keeps: "quiet st st' \<Longrightarrow> keeps L st st'"
  by (simp add: keeps_def quiet_lines)

lemma steady_keeps: "steady st st' \<Longrightarrow> keeps L st st'"
  by (erule loses_keeps [OF steady_loses])

lemma takes_keeps: "takes_away S L t st st' \<Longrightarrow> keeps L st st'"
  by (erule loses_keeps [OF takes_loses])

lemma same_caches_keeps: "(\<And>m. mc_cache (st_master st' m) = mc_cache (st_master st m)) \<Longrightarrow> keeps L st st'"
  by (simp add: keeps_def caches_ok_def)

lemma set_master_keeps: "mc_cache m = mc_cache (master_of env cid st) \<Longrightarrow> keeps L st (set_master env cid m st)"
  by (rule same_caches_keeps) (simp add: set_master_def master_of_def)

lemma set_cache_keeps:
  assumes "cache_ok L (cache_of env cid st) \<Longrightarrow> cache_ok L c"
  shows "keeps L st (set_cache env cid c st)"
  unfolding keeps_def using assms caches_ok_cache by (intro impI caches_ok_set_cache) (auto simp: caches_ok_def)

text \<open>A block that keeps tag and state may be stored anywhere.\<close>

lemma store_block_beyond:
  assumes "\<not> (fst p < length (c_sets c) \<and> snd p < length (cs_blocks (c_sets c ! fst p)))"
  shows "store_block p b c = c"
  using assms by (cases "fst p < length (c_sets c)") (simp_all add: store_block_def Let_def list_update_beyond)

lemma store_same_ok:
  assumes "cache_ok L c" "m_tag b = m_tag (deref c p)" "m_cstate b = m_cstate (deref c p)"
  shows "cache_ok L (store_block p b c)"
proof (cases "fst p < length (c_sets c) \<and> snd p < length (cs_blocks (c_sets c ! fst p))")
  case True
  then have "c_sets c ! fst p \<in> set (c_sets c)" "deref c p \<in> set (cs_blocks (c_sets c ! fst p))" by (simp_all add: deref_def)
  with cache_okD(3) [OF assms(1)] have "isValid (deref c p) \<longrightarrow> m_cstate (deref c p) \<noteq> INVALID"
    by (auto simp: cache_live_def)
  with assms(2,3) show ?thesis by (intro cache_store_ok [OF assms(1,2)]) (simp add: isValid_def)
qed (use assms(1) in \<open>simp add: store_block_beyond\<close>)

lemma set_block_keeps:
  assumes "m_tag b = m_tag (block_of env cid p st)" "m_cstate b = m_cstate (block_of env cid p st)"
  shows "keeps L st (set_block env cid p b st)"
  unfolding set_block_def
  by (rule set_cache_keeps) (rule store_same_ok, use assms in \<open>simp_all add: block_of_def\<close>)

lemma set_cstate_keeps: "s \<noteq> INVALID \<Longrightarrow> keeps L st (set_cstate env cid p s st)"
  by (intro steady_keeps steady_set_cstate)

text \<open>The operations on one cache.\<close>

lemma access_keeps:
  "accessSingleLine a ty buff bytes upd (cache_of env cid st) = Inr (p, out, c) \<Longrightarrow> keeps L st (set_cache env cid c st)"
  by (rule set_cache_keeps) (rule access_ok)

lemma retrieve_keeps: "retrieveCacheBlock env cid a buf upd st = Inr (buf', st') \<Longrightarrow> keeps L st st'"
  by (rule steady_keeps) (simp add: steady_def shrinks_retrieve)

lemma write_keeps: "writeCacheBlock n env cid a off data len st = Inr st' \<Longrightarrow> keeps L st st'"
  using writeCacheBlock_loses loses_keeps by blast

lemma invalidate_keeps: "invalidateCacheBlock env cid a st = Inr st' \<Longrightarrow> keeps L st st'"
  using invalidateCacheBlock_takes [OF _ UNIV_I] takes_keeps by blast

lemma update_keeps: "updateCacheBlock n env cid a new ob st = Inr (l, s, out, st') \<Longrightarrow> keeps L st st'"
  using updateCacheBlock_takes [OF _ subset_UNIV] takes_keeps by blast

lemma update_prev_keeps: "update_prev env cid ex a new st = Inr (l, s, st') \<Longrightarrow> keeps L st st'"
  using update_prev_takes [OF _ subset_UNIV] takes_keeps by blast

lemma incr_time_keeps: "incr_time env cid t th st = Inr st' \<Longrightarrow> keeps L st st'"
  by (intro quiet_keeps quiet_incr_time)

lemma incr_access_keeps: "incr_access env cid ac th st = Inr st' \<Longrightarrow> keeps L st st'"
  by (intro quiet_keeps quiet_incr_access)

lemma sendMsg_keeps: "cc_sendMsg env cid ty rq receiver a data len perf th st = Inr st' \<Longrightarrow> keeps L st st'"
  using cc_sendMsg_loses loses_keeps by blast

lemma setCacheState_keeps:
  "setCacheState env cid a s st = Inr (p, st') \<Longrightarrow> s \<noteq> INVALID \<Longrightarrow> keeps L st st'"
  by (auto simp: setCacheState_def bindE_Inr_iff set_cstate_keeps split: option.splits)

text \<open>Insertion, whether or not the caches below are coherent.\<close>

lemma evict_prev_keeps:
  assumes "evict_prev env cid a buf th st = Inr (buf', st')"
  shows "keeps L st st'"
proof (cases "prev_of env cid = []")
  case True
  with assms show ?thesis by (simp add: evict_prev_def keeping.refl)
next
  case False
  let ?s0 = "set_master env cid ((master_of env cid st)\<lparr>mc_evicting := Some (a, buf)\<rparr>) st"
  from assms False obtain l s s1 s2 where u: "update_prev env cid None a INVALID ?s0 = Inr (l, s, s1)"
      "incr_time env cid l th s1 = Inr s2" "st' = set_master env cid ((master_of env cid s2)\<lparr>mc_evicting := None\<rparr>) s2"
    by (auto simp: evict_prev_def Let_def bindE_Inr_iff)
  have "keeps L st ?s0" "keeps L s2 st'" unfolding u(3) by (simp_all add: set_master_keeps)
  with update_prev_keeps [OF u(1)] incr_time_keeps [OF u(2)] show ?thesis by (blast intro: keeping.trans)
qed

lemma insert_keeps:
  assumes "insertCacheBlock env cid a s data th st = Inr (p, st')" "s \<noteq> INVALID"
  shows "keeps L st st'"
  unfolding keeps_def
proof
  assume "caches_ok L st"
  then obtain ev ea evb c st1 buf where i: "caches_ok L st1" "if ev then evict_line env cid ea evb buf th st1 = Inr st' else st' = st1"
    by (rule insertCacheBlock_steps [OF assms(1) _ assms(2)])
  have "keeps L st1 st'"
  proof (cases ev)
    case True
    with i(2) obtain buf' s1 where e: "evict_prev env cid ea buf th st1 = Inr (buf', s1)" "dispose env cid ea (m_cstate evb) buf' th s1 = Inr st'"
      by (auto simp: evict_line_def bindE_Inr_iff)
    from evict_prev_keeps [OF e(1)] loses_keeps [OF dispose_loses [OF e(2)]] show ?thesis by (rule keeping.trans)
  qed (use i(2) in \<open>simp add: keeping.refl\<close>)
  with i(1) show "caches_ok L st'" by (simp add: keeps_def)
qed

subsection \<open>Results with a well-formed state\<close>

text \<open>\<open>lands P r\<close>: if \<open>r\<close> is not an error, its value satisfies \<open>P\<close>. The state is the last component of a result.\<close>

definition lands :: "('a \<Rightarrow> bool) \<Rightarrow> 'a res \<Rightarrow> bool" where
  "lands P r \<longleftrightarrow> (\<forall>x. r = Inr x \<longrightarrow> P x)"

abbreviation ok1 :: "nat \<Rightarrow> cc_state res \<Rightarrow> bool" where "ok1 L \<equiv> lands (caches_ok L)"
abbreviation ok2 :: "nat \<Rightarrow> ('a \<times> cc_state) res \<Rightarrow> bool" where "ok2 L \<equiv> lands (\<lambda>(_, st). caches_ok L st)"
abbreviation ok3 :: "nat \<Rightarrow> ('a \<times> 'b \<times> cc_state) res \<Rightarrow> bool" where "ok3 L \<equiv> lands (\<lambda>(_, _, st). caches_ok L st)"
abbreviation ok4 :: "nat \<Rightarrow> ('a \<times> 'b \<times> 'c \<times> cc_state) res \<Rightarrow> bool" where "ok4 L \<equiv> lands (\<lambda>(_, _, _, st). caches_ok L st)"

named_theorems ok_rules

lemma lands_Inl [ok_rules]: "lands P (Inl e)"
  by (simp add: lands_def)

lemma lands_Inr: "P x \<Longrightarrow> lands P (Inr x)"
  by (simp add: lands_def)

lemma ok1_Inr [ok_rules]: "caches_ok L st \<Longrightarrow> ok1 L (Inr st)"
  and ok2_Inr [ok_rules]: "caches_ok L st \<Longrightarrow> ok2 L (Inr (a, st))"
  and ok3_Inr [ok_rules]: "caches_ok L st \<Longrightarrow> ok3 L (Inr (a, b, st))"
  and ok4_Inr [ok_rules]: "caches_ok L st \<Longrightarrow> ok4 L (Inr (a, b, c, st))"
  by (simp_all add: lands_def)

lemma lands_assert [ok_rules]: "lands P k \<Longrightarrow> lands P (assertE b msg k)"
  by (simp add: lands_def)

lemma lands_if [ok_rules]: "(b \<Longrightarrow> lands P x) \<Longrightarrow> (\<not> b \<Longrightarrow> lands P y) \<Longrightarrow> lands P (if b then x else y)"
  by simp

lemma lands_option [ok_rules]: "lands P x \<Longrightarrow> (\<And>a. z = Some a \<Longrightarrow> lands P (f a)) \<Longrightarrow> lands P (case z of None \<Rightarrow> x | Some a \<Rightarrow> f a)"
  by (simp split: option.split)

lemma lands_prod [ok_rules]: "(\<And>a. lands P (f a (snd x))) \<Longrightarrow> lands P (case x of (a, b) \<Rightarrow> f a b)"
  by (cases x) simp

lemma lands_prod_app [ok_rules]: "(\<And>a b. lands P (f a b y)) \<Longrightarrow> lands P ((case x of (a, b) \<Rightarrow> f a b) y)"
  by (cases x) simp

lemma lands_bind: "lands Q m \<Longrightarrow> (\<And>x. Q x \<Longrightarrow> lands P (f x)) \<Longrightarrow> lands P (bindE m f)"
  by (auto simp: lands_def bindE_Inr_iff)

lemma ok1_bind [ok_rules]: "ok1 L m \<Longrightarrow> (\<And>st. caches_ok L st \<Longrightarrow> lands P (f st)) \<Longrightarrow> lands P (bindE m f)"
  by (rule lands_bind)

lemma ok2_bind [ok_rules]: "ok2 L m \<Longrightarrow> (\<And>a st. caches_ok L st \<Longrightarrow> lands P (f a st)) \<Longrightarrow> lands P (bindE m (\<lambda>(a, st). f a st))"
  by (erule lands_bind) (simp split: prod.splits)

lemma ok3_bind [ok_rules]:
  "ok3 L m \<Longrightarrow> (\<And>a b st. caches_ok L st \<Longrightarrow> lands P (f a b st)) \<Longrightarrow> lands P (bindE m (\<lambda>(a, b, st). f a b st))"
  by (erule lands_bind) (simp split: prod.splits)

lemma ok4_bind [ok_rules]:
  "ok4 L m \<Longrightarrow> (\<And>a b c st. caches_ok L st \<Longrightarrow> lands P (f a b c st)) \<Longrightarrow> lands P (bindE m (\<lambda>(a, b, c, st). f a b c st))"
  by (erule lands_bind) (simp split: prod.splits)

text \<open>Results without a state.\<close>

lemma pure_bind: "(\<And>x. m = Inr x \<Longrightarrow> lands P (f x)) \<Longrightarrow> lands P (bindE m f)"
  by (auto simp: lands_def bindE_Inr_iff)

lemmas pure_binds [ok_rules] =
  pure_bind [where 'a = cstate_t] pure_bind [where 'a = "block_ptr option"] pure_bind [where 'a = "bool \<times> block_ptr option"]
  pure_bind [where 'a = "64 word"] pure_bind [where 'a = nat] pure_bind [where 'a = int] pure_bind [where 'a = cc_master]
  pure_bind [where 'a = "addr list"] pure_bind [where 'a = "addr list \<times> prefetcher"] pure_bind [where 'a = "addr \<times> addr list"]

text \<open>From operations that keep the caches to results.\<close>

lemma ok1I: "(\<And>st'. r = Inr st' \<Longrightarrow> keeps L st st') \<Longrightarrow> caches_ok L st \<Longrightarrow> ok1 L r"
  and ok2I: "(\<And>a st'. q = Inr (a, st') \<Longrightarrow> keeps L st st') \<Longrightarrow> caches_ok L st \<Longrightarrow> ok2 L q"
  and ok3I: "(\<And>a b st'. t = Inr (a, b, st') \<Longrightarrow> keeps L st st') \<Longrightarrow> caches_ok L st \<Longrightarrow> ok3 L t"
  and ok4I: "(\<And>a b c st'. u = Inr (a, b, c, st') \<Longrightarrow> keeps L st st') \<Longrightarrow> caches_ok L st \<Longrightarrow> ok4 L u"
  by (auto simp: lands_def keeps_def)

lemma keeps_ok: "keeps L st st' \<Longrightarrow> caches_ok L st \<Longrightarrow> caches_ok L st'"
  by (simp add: keeps_def)

named_theorems ok_ops

lemma write_ok1 [ok_ops]: "caches_ok L st \<Longrightarrow> ok1 L (writeCacheBlock n env cid a off data len st)"
  by (rule ok1I [OF write_keeps])

lemma invalidate_ok1 [ok_ops]: "caches_ok L st \<Longrightarrow> ok1 L (invalidateCacheBlock env cid a st)"
  by (rule ok1I [OF invalidate_keeps])

lemma incr_time_ok1 [ok_ops]: "caches_ok L st \<Longrightarrow> ok1 L (incr_time env cid t th st)"
  by (rule ok1I [OF incr_time_keeps])

lemma incr_access_ok1 [ok_ops]: "caches_ok L st \<Longrightarrow> ok1 L (incr_access env cid ac th st)"
  by (rule ok1I [OF incr_access_keeps])

lemma sendMsg_ok1 [ok_ops]: "caches_ok L st \<Longrightarrow> ok1 L (cc_sendMsg env cid ty rq receiver a data len perf th st)"
  by (rule ok1I [OF sendMsg_keeps])

lemma retrieve_ok2 [ok_ops]: "caches_ok L st \<Longrightarrow> ok2 L (retrieveCacheBlock env cid a buf upd st)"
  by (rule ok2I [OF retrieve_keeps])

lemma update_prev_ok3 [ok_ops]: "caches_ok L st \<Longrightarrow> ok3 L (update_prev env cid ex a new st)"
  by (rule ok3I [OF update_prev_keeps])

lemma update_ok4 [ok_ops]: "caches_ok L st \<Longrightarrow> ok4 L (updateCacheBlock n env cid a new ob st)"
  by (rule ok4I [OF update_keeps])

lemma insert_ok2 [ok_ops]: "s \<noteq> INVALID \<Longrightarrow> caches_ok L st \<Longrightarrow> ok2 L (insertCacheBlock env cid a s data th st)"
  by (rule ok2I [OF insert_keeps])

lemma setCacheState_ok [ok_ops]: "s \<noteq> INVALID \<Longrightarrow> caches_ok L st \<Longrightarrow> ok2 L (setCacheState env cid a s st)"
  by (rule ok2I [OF setCacheState_keeps])

lemma accessDRAM_ok [ok_ops]: "caches_ok L st \<Longrightarrow> ok2 L (accessDRAM env cid op a buf st)"
  by (rule ok2I [OF loses_keeps [OF accessDRAM_loses]])

lemma set_master_ok [ok_ops]:
  "caches_ok L st \<Longrightarrow> mc_cache m = mc_cache (master_of env cid st) \<Longrightarrow> caches_ok L (set_master env cid m st)"
  using keeps_ok [OF set_master_keeps] by blast

lemma set_cstate_ok [ok_ops]: "caches_ok L st \<Longrightarrow> s \<noteq> INVALID \<Longrightarrow> caches_ok L (set_cstate env cid p s st)"
  using keeps_ok [OF set_cstate_keeps] by blast

lemma set_block_ok [ok_ops]:
  "caches_ok L st \<Longrightarrow> m_tag b = m_tag (block_of env cid p st) \<Longrightarrow> m_cstate b = m_cstate (block_of env cid p st) \<Longrightarrow>
     caches_ok L (set_block env cid p b st)"
  using keeps_ok [OF set_block_keeps] by blast

lemma set_elapsed_ok [ok_ops]: "caches_ok L st \<Longrightarrow> caches_ok L (set_elapsed env cid th t st)"
  by (simp add: caches_ok_def set_elapsed_def Let_def)

lemma set_perf_ok [ok_ops]: "caches_ok L st \<Longrightarrow> caches_ok L (st\<lparr>st_perf := p\<rparr>)"
  and set_remote_ok [ok_ops]: "caches_ok L st \<Longrightarrow> caches_ok L (st\<lparr>st_last_remote := r\<rparr>)"
  and set_uncore_ok [ok_ops]: "caches_ok L st \<Longrightarrow> caches_ok L (st\<lparr>st_uncore := u, st_perf := p\<rparr>)"
  by (simp_all add: caches_ok_def)

lemma access_ok3 [ok_ops]:
  "caches_ok L st \<Longrightarrow> lands (\<lambda>(_, _, c). caches_ok L (set_cache env cid c st)) (accessSingleLine a ty buff bytes upd (cache_of env cid st))"
  using access_keeps by (force simp: lands_def keeps_def)

subsection \<open>Counters, outstanding misses, requests to the directory\<close>

lemma record_miss_ok [ok_ops]: "caches_ok L st \<Longrightarrow> caches_ok L (record_miss env cid a t u st)"
  unfolding record_miss_def Let_def by (erule set_master_ok) simp

lemma enqueue_waiter_ok [ok_ops]: "caches_ok L st \<Longrightarrow> caches_ok L (enqueue_waiter env cid a w st)"
  unfolding enqueue_waiter_def Let_def by (erule set_master_ok) simp

lemma cleanupMshr_ok [ok_ops]: "caches_ok L st \<Longrightarrow> ok1 L (cleanupMshr env cid st)"
  by (auto simp: cleanupMshr_def lands_def bindE_Inr_iff Let_def intro: set_master_ok)

lemma accessATDs_cache: "accessATDs op hit a n m = Inr m' \<Longrightarrow> mc_cache m' = mc_cache m"
  by (auto simp: accessATDs_def bindE_Inr_iff split: if_splits)

lemma cc_updateCounters_ok [ok_ops]: "caches_ok L st \<Longrightarrow> ok1 L (cc_updateCounters env cid op a s st)"
  unfolding cc_updateCounters_def Let_def
  by (rule pure_bind, rule cleanupMshr_ok, erule set_master_ok) (simp add: accessATDs_cache)

lemma count_cache_ok [ok_ops]: "caches_ok L st \<Longrightarrow> caches_ok L (count_cache env cid hit st)"
  unfolding count_cache_def
  by (rule keeps_ok [OF set_cache_keeps])
    (auto simp: updateCounters_def cache_ok_def cache_wf_def cache_unique_def cache_live_def)

lemma updateUncoreStatistics_ok [ok_ops]: "caches_ok L st \<Longrightarrow> ok1 L (updateUncoreStatistics env cid w now st)"
  by (auto simp: updateUncoreStatistics_def lands_def caches_ok_def Let_def split: if_splits option.splits)

lemma request_directory_ok [ok_ops]: "caches_ok L st \<Longrightarrow> ok1 L (request_directory env cid ty a perf st)"
  unfolding request_directory_def by ((rule ok_rules ok_ops | assumption)+)

lemma dir_requests_ok [ok_ops]:
  "caches_ok L st \<Longrightarrow> ok1 L (processExReqToDirectory env cid a st)"
  "caches_ok L st \<Longrightarrow> ok1 L (processShReqToDirectory env cid a st)"
  unfolding processExReqToDirectory_def processShReqToDirectory_def by ((rule ok_rules ok_ops | assumption)+)

lemma upgrade_request_ok [ok_ops]: "caches_ok L st \<Longrightarrow> ok1 L (processUpgradeReqToDirectory env cid a perf st)"
  unfolding processUpgradeReqToDirectory_def by ((rule ok_rules ok_ops | assumption | (simp; fail))+)

lemma initiateDirectoryAccess_ok [ok_ops]: "caches_ok L st \<Longrightarrow> ok1 L (initiateDirectoryAccess env cid op a pf t st)"
  unfolding initiateDirectoryAccess_def Let_def by ((rule ok_rules ok_ops | assumption)+)

subsection \<open>Hits and misses\<close>

lemma perfect_hit_ok [ok_ops]: "caches_ok L st \<Longrightarrow> ok3 L (perfect_hit env cid op a fresh hit info st)"
  unfolding perfect_hit_def by ((rule ok_rules ok_ops | assumption | (simp; fail))+)

lemma use_line_ok [ok_ops]: "caches_ok L st \<Longrightarrow> ok2 L (use_line env cid demand info st)"
  unfolding use_line_def Let_def
  by ((rule ok_rules ok_ops | assumption | (simp add: clearOption_def; fail))+)

lemma snoop_siblings_ok [ok_ops]: "caches_ok L st \<Longrightarrow> ok2 L (snoop_siblings env cid rq op a info st)"
  unfolding snoop_siblings_def Let_def by ((rule ok_rules ok_ops | assumption)+)

lemma hit_time_ok [ok_ops]: "caches_ok L st \<Longrightarrow> ok1 L (hit_time env cid a st)"
  unfolding hit_time_def by ((rule ok_rules ok_ops | assumption)+)

lemma hit_where_here_ok [ok_ops]: "caches_ok L st \<Longrightarrow> caches_ok L (snd (hit_where_here env cid sib st))"
  by (simp add: hit_where_here_def caches_ok_def)

lemma serve_hit_ok [ok_ops]: "caches_ok L st \<Longrightarrow> ok3 L (serve_hit env cid rq op a modeled demand info st)"
  unfolding serve_hit_def Let_def by ((rule ok_rules ok_ops | assumption)+)

lemma upgrade_siblings_ok [ok_ops]: "caches_ok L st \<Longrightarrow> ok1 L (upgrade_siblings env cid rq a st)"
  unfolding upgrade_siblings_def by ((rule ok_rules ok_ops | assumption)+)

lemma mark_prefetch_ok [ok_ops]: "caches_ok L st \<Longrightarrow> ok1 L (mark_prefetch env cid a st)"
  unfolding mark_prefetch_def by ((rule ok_rules ok_ops | assumption | (simp add: setOption_def; fail))+)

lemma fetch_from_dram_ok [ok_ops]: "caches_ok L st \<Longrightarrow> ok2 L (fetch_from_dram env cid op a pf st)"
  unfolding fetch_from_dram_def Let_def
  by ((rule ok_rules ok_ops | assumption | (simp; fail))+)

lemma miss_last_level_ok [ok_ops]: "caches_ok L st \<Longrightarrow> ok3 L (miss_last_level env cid rq op a pf t info st)"
  unfolding miss_last_level_def Let_def by ((rule ok_rules ok_ops | assumption | (simp; fail))+)

lemma read_bandwidth_ok [ok_ops]: "caches_ok L st \<Longrightarrow> ok1 L (read_bandwidth env cid modeled t st)"
  unfolding read_bandwidth_def Let_def by ((rule ok_rules ok_ops | assumption | (simp; fail))+)

text \<open>What is copied from the next level has a state, because the operation was permitted there.\<close>

lemma permitted_present:
  assumes "operationPermissibleinCache env cid a op st = Inr (True, info)" "caches_ok L st"
  shows "drop_bit L a \<in> lines_of env cid st"
proof -
  from assms(1) have "getCacheState env cid a st = Inr (ptr_state env cid info st)" "ptr_state env cid info st \<noteq> INVALID"
    by (auto simp: operationPermissibleinCache_def getCacheState_def bindE_Inr_iff Let_def readable_def writable_def split: if_splits)
  with getCacheState_iff [OF assms(2)] show ?thesis by blast
qed

lemma copyDataFromNextLevel_ok [ok_ops]:
  assumes "caches_ok L st"
  shows "ok1 L (copyDataFromNextLevel env cid op a modeled t st)"
proof -
  define rest where "rest nx = bindE (retrieveCacheBlock env nx a (ev_junk env) False st) (\<lambda>(data_buf, st).
      bindE (getCacheState env nx a st) (\<lambda>cstate.
      bindE (read_bandwidth env cid modeled t st) (\<lambda>st.
      bindE (getCacheBlockInfo env cid a st) (\<lambda>info.
      if info \<noteq> None then
        bindE (updateCacheBlock (ev_fuel env) env cid a cstate None st) (\<lambda>(_, _, _, st). Inr st)
      else
        bindE (insertCacheBlock env cid a cstate (Some data_buf) USER_THREAD st) (\<lambda>(_, st). Inr st)))))" for nx
  have rest: "ok1 L (rest nx)" if p: "operationPermissibleinCache env nx a op st = Inr (True, info)" for nx info
    unfolding rest_def
  proof (rule lands_bind)
    let ?Q = "\<lambda>(buf :: u8 list, st'). caches_ok L st' \<and> drop_bit L a \<in> lines_of env nx st'"
    show "lands ?Q (retrieveCacheBlock env nx a (ev_junk env) False st)"
    proof -
      have "caches_ok L st' \<and> drop_bit L a \<in> lines_of env nx st'"
        if "retrieveCacheBlock env nx a (ev_junk env) False st = Inr (buf, st')" for buf st'
      proof -
        have "steady st st'" using shrinks_retrieve [OF that] by (simp add: steady_def)
        with assms permitted_present [OF p assms] show ?thesis
          by (simp add: steady_caches_ok steady_lines lines_of_master master_lines_def)
      qed
      then show ?thesis by (auto simp: lands_def)
    qed
    fix x :: "u8 list \<times> cc_state" assume q: "?Q x"
    obtain buf st1 where x: "x = (buf, st1)" by (cases x)
    have "s \<noteq> INVALID" if "getCacheState env nx a st1 = Inr s" for s
      using getCacheState_iff [of L st1 env nx a s] that q x by simp
    then show "ok1 L (case x of (data_buf, st) \<Rightarrow>
      bindE (getCacheState env nx a st) (\<lambda>cstate.
      bindE (read_bandwidth env cid modeled t st) (\<lambda>st.
      bindE (getCacheBlockInfo env cid a st) (\<lambda>info.
      if info \<noteq> None then
        bindE (updateCacheBlock (ev_fuel env) env cid a cstate None st) (\<lambda>(_, _, _, st). Inr st)
      else
        bindE (insertCacheBlock env cid a cstate (Some data_buf) USER_THREAD st) (\<lambda>(_, st). Inr st)))))"
      unfolding x prod.case using q [unfolded x prod.case, THEN conjunct1] by - ((rule ok_rules ok_ops | assumption | (simp; fail))+)
  qed
  have "ok1 L (bindE (next_level env cid) (\<lambda>nx. bindE (operationPermissibleinCache env nx a op st) (\<lambda>(ok, _).
      assertE ok ''Tried to read from next-level cache, but data is already gone'' (rest nx))))"
    by (rule pure_bind, rule pure_bind, simp split: prod.split, intro allI impI)
      (auto simp: assertE_def lands_Inl intro: rest)
  then show ?thesis by (simp add: copyDataFromNextLevel_def rest_def)
qed

subsection \<open>Requests and accesses\<close>

lemma miss_to_next_ok [ok_ops]:
  assumes "\<And>pf st. caches_ok L st \<Longrightarrow> ok2 L (ask pf st)" "caches_ok L st"
  shows "ok3 L (miss_to_next ask env cid op a modeled pf info st)"
  unfolding miss_to_next_def by (insert assms(2), (rule ok_rules ok_ops assms(1) | assumption | (simp; fail))+)

lemma serve_miss_ok [ok_ops]:
  assumes "\<And>nx pf st. caches_ok L st \<Longrightarrow> ok2 L (ask nx pf st)" "caches_ok L st"
  shows "ok3 L (serve_miss ask env cid rq op a modeled pf t info st)"
  unfolding serve_miss_def by (insert assms(2), (rule ok_rules ok_ops assms(1) | assumption | (simp; fail))+)

lemma finish_request_ok [ok_ops]: "caches_ok L st \<Longrightarrow> ok1 L (finish_request env cid a modeled counted fh t st)"
  unfolding finish_request_def by ((rule ok_rules ok_ops | assumption)+)

lemma count_request_ok [ok_ops]: "caches_ok L st \<Longrightarrow> ok1 L (count_request env cid op a counted hit pf st)"
  unfolding count_request_def Let_def by ((rule ok_rules ok_ops | assumption | (simp add: count_cache_ok; fail))+)

lemma trainPrefetcher_ok [ok_ops]: "caches_ok L st \<Longrightarrow> ok1 L (trainPrefetcher env cid a hit pf_hit t st)"
  unfolding trainPrefetcher_def Let_def by ((rule ok_rules ok_ops | assumption | (simp add: set_master_def master_of_def; fail))+)

lemma request_ok: "caches_ok L st \<Longrightarrow> ok2 L (processShmemReqFromPrevCache n env cid rq op a modeled counted pf t st)"
proof (induction n arbitrary: cid rq pf st)
  case (Suc n)
  show ?case
    unfolding processShmemReqFromPrevCache.simps
    by (insert Suc.prems, (rule ok_rules ok_ops Suc.IH | assumption)+)
qed (simp add: lands_Inl)

text \<open>What other threads do while one waits.\<close>

definition wait_ok :: "nat \<Rightarrow> wait_fun \<Rightarrow> bool" where
  "wait_ok L wait \<longleftrightarrow> (\<forall>cid a st. caches_ok L st \<longrightarrow> ok1 L (wait cid a st))"

lemma request_line_ok [ok_ops]: "caches_ok L st \<Longrightarrow> ok2 L (request_line env cid rq op a modeled counted pf t st)"
  by (simp add: request_line_def request_ok)

lemma doPrefetch_ok:
  assumes "wait_ok L wait" "caches_ok L st"
  shows "ok1 L (doPrefetch wait env cid a t st)"
  unfolding doPrefetch_def Let_def
  by (insert assms(2), (rule ok_rules ok_ops assms(1) [unfolded wait_ok_def, rule_format] | assumption)+)

lemma prefetch_here_ok:
  assumes "wait_ok L wait" "caches_ok L st"
  shows "ok1 L (prefetch_here wait env cid t st)"
  unfolding prefetch_here_def Let_def
  by (insert assms(2), (rule ok_rules ok_ops doPrefetch_ok assms(1) | assumption | (simp; fail))+)

lemma Prefetch_ok:
  assumes "wait_ok L wait"
  shows "caches_ok L st \<Longrightarrow> ok1 L (Prefetch n wait env cid t st)"
proof (induction n arbitrary: cid st)
  case (Suc n)
  show ?case
    unfolding Prefetch.simps
    by (insert Suc.prems, (rule ok_rules ok_ops Suc.IH prefetch_here_ok assms | assumption)+)
qed (simp add: lands_Inl)

lemma first_level_hit_ok [ok_ops]: "caches_ok L st \<Longrightarrow> ok2 L (first_level_hit env cid a modeled info st)"
  unfolding first_level_hit_def Let_def by ((rule ok_rules ok_ops | assumption)+)

lemma wait_for_mshr_ok [ok_ops]: "caches_ok L st \<Longrightarrow> ok3 L (wait_for_mshr env cid modeled st)"
  unfolding wait_for_mshr_def Let_def by ((rule ok_rules ok_ops | assumption)+)

lemma ask_next_level_ok:
  assumes "wait_ok L wait" "caches_ok L st"
  shows "ok2 L (ask_next_level wait env cid op a modeled counted t st)"
  unfolding ask_next_level_def
  by (insert assms(2), (rule ok_rules ok_ops assms(1) [unfolded wait_ok_def, rule_format] | assumption)+)

lemma occupy_mshr_ok [ok_ops]: "caches_ok L st \<Longrightarrow> caches_ok L (occupy_mshr env cid a modeled t u st)"
  by (simp add: occupy_mshr_def Let_def set_master_ok)

lemma first_level_miss_ok:
  assumes "wait_ok L wait" "caches_ok L st"
  shows "ok3 L (first_level_miss wait env cid sig op a modeled counted t st)"
  unfolding first_level_miss_def
  by (insert assms(2), (rule ok_rules ok_ops ask_next_level_ok assms(1) | assumption)+)

lemma m_tag_usage [simp]: "m_tag (snd (updateUsage_mask b used)) = m_tag b" "m_cstate (snd (updateUsage_mask b used)) = m_cstate b"
  "m_tag (snd (updateUsage b off sz)) = m_tag b" "m_cstate (snd (updateUsage b off sz)) = m_cstate b"
  by (simp_all add: updateUsage_mask_def updateUsage_def Let_def)

lemma updateUsageBits_ok: "caches_ok L st \<Longrightarrow> ok1 L (updateUsageBits n env cid a used st)"
proof (induction n arbitrary: cid st)
  case (Suc n)
  show ?case
    unfolding updateUsageBits.simps Let_def
    by (insert Suc.prems, (rule ok_rules ok_ops Suc.IH | assumption | (simp; fail))+)
qed (simp add: lands_Inl)

lemma record_usage_ok [ok_ops]: "caches_ok L st \<Longrightarrow> ok1 L (record_usage env cid a off len modeled info st)"
  unfolding record_usage_def Let_def by ((rule ok_rules ok_ops updateUsageBits_ok | assumption | (simp; fail))+)

lemma access_bind:
  assumes "caches_ok L st" "\<And>p out c. caches_ok L (set_cache env cid c st) \<Longrightarrow> lands P (f p out c)"
  shows "lands P (bindE (accessSingleLine a ty buff bytes upd (cache_of env cid st)) (\<lambda>(p, out, c). f p out c))"
  by (rule lands_bind [OF access_ok3 [OF assms(1)]]) (use assms(2) in \<open>simp split: prod.splits\<close>)

lemma accessCache_ok [ok_ops]: "caches_ok L st \<Longrightarrow> ok2 L (accessCache env cid op a off buf len upd st)"
  unfolding accessCache_def Let_def by ((rule access_bind ok_rules ok_ops | assumption)+)

lemma processMemOpFromCore_ok:
  assumes "wait_ok L wait" "caches_ok L st"
  shows "ok3 L (processMemOpFromCore wait env cid sig op a off buf len modeled counted st)"
  unfolding processMemOpFromCore_def Let_def
  by (insert assms(2), (rule ok_rules ok_ops first_level_miss_ok Prefetch_ok assms(1) | assumption)+)

subsection \<open>Messages\<close>

lemma msg_updateTime_ok [ok_ops]: "caches_ok L st \<Longrightarrow> caches_ok L (msg_updateTime env cid m r st)"
  using quiet_lines(2) [OF quiet_msg] by blast

lemma process_requests_ok [ok_ops]:
  "caches_ok L st \<Longrightarrow> ok1 L (processInvReqFromDramDirectory env cid sender m st)"
  "caches_ok L st \<Longrightarrow> ok1 L (processFlushReqFromDramDirectory env cid sender m st)"
  "caches_ok L st \<Longrightarrow> ok1 L (processWbReqFromDramDirectory env cid sender m st)"
  unfolding processInvReqFromDramDirectory_def processFlushReqFromDramDirectory_def processWbReqFromDramDirectory_def Let_def
  by ((rule ok_rules ok_ops | assumption)+)

lemma process_replies_ok [ok_ops]:
  "caches_ok L st \<Longrightarrow> ok1 L (processExRepFromDramDirectory env cid m st)"
  "caches_ok L st \<Longrightarrow> ok1 L (processShRepFromDramDirectory env cid m st)"
  "caches_ok L st \<Longrightarrow> ok1 L (processUpgradeRepFromDramDirectory env cid m st)"
  unfolding processExRepFromDramDirectory_def processShRepFromDramDirectory_def processUpgradeRepFromDramDirectory_def
  by ((rule ok_rules ok_ops | assumption | (simp; fail))+)

lemma serve_waiter_ok:
  assumes "wait_ok L wake" "caches_ok L st"
  shows "ok1 L (serve_waiter wake env cid m w st)"
proof -
  have adv: "caches_ok L (advance_waiter env cid k st)" if "caches_ok L st" for k st
    using that by (simp add: advance_waiter_def Let_def set_elapsed_ok)
  have deq: "lands P (bindE (q_dequeue a q) f)" if "\<And>x. lands P (f x)" for P a q and f :: "waiter \<times> waiter req_queue \<Rightarrow> cc_state res"
    using that by (rule pure_bind)
  show ?thesis
    unfolding serve_waiter_def Let_def
    by (insert assms(2), (rule deq ok_rules ok_ops adv assms(1) [unfolded wait_ok_def, rule_format] | assumption | (simp; fail))+)
qed

lemma serve_waiters_ok:
  assumes "wait_ok L wake"
  shows "caches_ok L st \<Longrightarrow> ok1 L (serve_waiters n wake env cid m st)"
proof (induction n arbitrary: st)
  case 0
  then show ?case by (simp add: lands_def)
next
  case (Suc n)
  have l: "lands P (case ws of [] \<Rightarrow> x | w # v \<Rightarrow> g w v)" if "lands P x" "\<And>w v. lands P (g w v)" for P :: "cc_state \<Rightarrow> bool" and ws :: "waiter list" and x g
    using that by (simp split: list.split)
  show ?case
    unfolding serve_waiters.simps
    by (insert Suc.prems, (rule l ok_rules ok_ops Suc.IH serve_waiter_ok assms | assumption)+)
qed

lemma handleMsg_ok:
  assumes "wait_ok L wake" "caches_ok L st"
  shows "ok1 L (handleMsgFromDramDirectory n wake env cid sender m st)"
proof -
  note r = ok_rules ok_ops serve_waiters_ok [OF assms(1)]
  show ?thesis
    by (cases "msg_type m"; simp add: handleMsgFromDramDirectory_def lands_Inl; insert assms(2); (rule r | assumption)+)
qed

end
