(* ===== verification/Dram_Props.thy ===== *)
theory Dram_Props
  imports Dram
begin

text \<open>
  Contents of DRAM under fault injection, when it keeps them: what is written is read back, and what the DRAM cache writes
  for a line it evicts.
\<close>

lemma dram_latency_content:
  assumes "runDramPerfModel env requester t access perf (d, ps) = Inr (l, d', ps')"
  shows "dr_data_map d' = dr_data_map d" "dr_block_size d' = dr_block_size d" "dr_fault d' = dr_fault d"
  using assms by (auto simp: runDramPerfModel_def bindE_Inr_iff)

text \<open>The memory a controller without fault injector implements: lines of one size, zero until written.\<close>

definition dram_memory :: "dram_cntlr \<Rightarrow> addr \<Rightarrow> u8 list" where
  "dram_memory d a = (case dr_data_map d a of Some xs \<Rightarrow> xs | None \<Rightarrow> replicate (unat (dr_block_size d)) 0)"

definition dram_ok :: "dram_cntlr \<Rightarrow> bool" where
  "dram_ok d \<longleftrightarrow> dr_fault d = None \<and> (\<forall>a xs. dr_data_map d a = Some xs \<longrightarrow> length xs = unat (dr_block_size d))"

lemma length_dram_memory: "dram_ok d \<Longrightarrow> length (dram_memory d a) = unat (dr_block_size d)"
  by (auto simp: dram_ok_def dram_memory_def split: option.splits)

lemma copy_bytes_all [simp]: "length src = n \<Longrightarrow> length dst = n \<Longrightarrow> copy_bytes n src dst = src"
  by (simp add: copy_bytes_def)

lemma dram_get_spec:
  assumes "de_fault env" "dram_ok d" "length buf = unat (dr_block_size d)"
    "dram_getDataFromDram env a requester buf now perf (d, ps) = Inr ((l, w, xs), d', ps')"
  shows "xs = dram_memory d a" "dram_ok d'" "dram_memory d' = dram_memory d" "dr_block_size d' = dr_block_size d"
proof -
  let ?d = "d\<lparr>dr_data_map := (dr_data_map d)(a := Some (dram_memory d a)), dr_fault := None\<rparr>"
  have "dram_load env a buf d = Inr (dram_memory d a, ?d)"
    using assms(1-3) length_dram_memory [OF assms(2), of a] by (simp add: dram_load_def dram_ok_def dram_memory_def Let_def)
  with assms(4) obtain e where e: "xs = dram_memory d a" "runDramPerfModel env requester now DRAM_READ perf (?d, ps) = Inr (l, e, ps')"
      "d' = e\<lparr>dr_reads := dr_reads e + 1\<rparr>"
    by (auto simp: dram_getDataFromDram_def bindE_Inr_iff)
  have f: "dr_data_map d' = (dr_data_map d)(a := Some (dram_memory d a))" "dr_block_size d' = dr_block_size d" "dr_fault d' = None"
    using dram_latency_content [OF e(2)] e(3) by simp_all
  show "xs = dram_memory d a" "dr_block_size d' = dr_block_size d" by (fact e(1), fact f(2))
  show "dram_ok d'" using assms(2) length_dram_memory [OF assms(2), of a] f by (simp add: dram_ok_def)
  show "dram_memory d' = dram_memory d" by (rule ext) (simp add: dram_memory_def f split: option.splits)
qed

lemma dram_put_spec:
  assumes "de_fault env" "dram_ok d" "length buf = unat (dr_block_size d)"
    "dram_putDataToDram env a requester buf now (d, ps) = Inr (r, d', ps')"
  shows "dram_ok d'" "dram_memory d' = (dram_memory d)(a := buf)" "dr_block_size d' = dr_block_size d"
proof -
  let ?d = "d\<lparr>dr_data_map := (dr_data_map d)(a := Some buf), dr_fault := None\<rparr>"
  have "dram_store env a buf d = Inr ?d"
    using assms by (auto simp: dram_store_def dram_putDataToDram_def dram_ok_def bindE_Inr_iff split: option.splits)
  with assms(4) obtain e l where e: "runDramPerfModel env requester now DRAM_WRITE None (?d, ps) = Inr (l, e, ps')"
      "d' = e\<lparr>dr_writes := dr_writes e + 1\<rparr>"
    by (auto simp: dram_putDataToDram_def bindE_Inr_iff)
  have f: "dr_data_map d' = (dr_data_map d)(a := Some buf)" "dr_block_size d' = dr_block_size d" "dr_fault d' = None"
    using dram_latency_content [OF e(1)] e(2) by simp_all
  show "dr_block_size d' = dr_block_size d" by (fact f(2))
  show "dram_ok d'" using assms(2,3) f by (simp add: dram_ok_def)
  show "dram_memory d' = (dram_memory d)(a := buf)" by (rule ext) (simp add: dram_memory_def f split: option.splits)
qed


definition dram_qenv :: queue_env where
  "dram_qenv = \<lparr>qe_moving_avg_enabled = False, qe_moving_avg_window_size = 1, qe_moving_avg_type = [], qe_analytical = False,
     qe_max_list_size = 1, qe_mg1_window = 1, qe_core_period = 1, qe_root = (\<lambda>_ _. 0), qe_mg1 = (\<lambda>_ _ _ _. 0)\<rparr>"

definition demo_dram_env :: dram_env where
  "demo_dram_env = \<lparr>de_queue = dram_qenv, de_global_time = 0, de_app_cores = 4, de_fault = True\<rparr>"

definition demo_model :: dram_model where
  "demo_model = DramConstant \<lparr>mk_enabled = True, mk_num_accesses = 0, mk_queue = None, mk_access_cost = 100, mk_bandwidth = 8,
     mk_total_queueing = 0, mk_total_latency = 0\<rparr>"

definition demo_dram :: dram_cntlr where
  "demo_dram = (DramCntlr 2 demo_model None)\<lparr>dr_data_map := [0x20 \<mapsto> [7, 7], 0x40 \<mapsto> [5, 6]]\<rparr>"

lemma demo_dram_ok: "dram_ok demo_dram" "dr_block_size demo_dram = 2"
  by (auto simp: dram_ok_def demo_dram_def DramCntlr_def split: if_splits)

definition demo_put :: "((time \<times> where_t) \<times> dram_cntlr \<times> perf_store) res" where
  "demo_put = dram_putDataToDram demo_dram_env 0x20 0 [1, 2] 10 (demo_dram, \<lambda>_. ShmemPerf)"

lemma demo_put_ok: "\<not> isl demo_put"
  by (simp add: demo_put_def dram_putDataToDram_def dram_store_def demo_dram_env_def demo_dram_def DramCntlr_def
      runDramPerfModel_def getAccessLatency_def constant_getAccessLatency_def demo_model_def bw_getRoundedLatency_def
      divE_def queue_delay_def Let_def)


subsection \<open>The DRAM cache\<close>

lemma dk_accessDataArray_keeps:
  assumes "dk_accessDataArray env t perf (k, ps) = Inr (l, k', ps')"
  shows "dk_dram k' = dk_dram k" "dk_cache k' = dk_cache k" "dk_block_size k' = dk_block_size k"
  using assms by (auto simp: dk_accessDataArray_def bindE_Inr_iff Let_def)


definition demo_line :: "addr \<Rightarrow> cstate_t \<Rightarrow> cache_block" where
  "demo_line tag s = CacheBlockInfo PrL1Block tag s 0"

definition demo_dram_cache :: dram_cache where
  "demo_dram_cache = \<lparr>dk_block_size = 2, dk_data_access_time = 1, dk_tags_access_time = 1, dk_bandwidth = 8, dk_dram = demo_dram,
     dk_cache = \<lparr>c_base = \<lparr>cb_name = [], m_cache_size = 2, m_associativity = 1, m_blocksize = 2, m_hash = HASH_MASK,
         m_num_sets = 1, m_ahl = None, m_log_blocksize = 1\<rparr>, c_enabled = True, c_num_accesses = 0, c_num_hits = 0,
       c_cache_type = PR_L1_CACHE,
       c_sets = [\<lparr>cs_blocks = [demo_line 0x20 MODIFIED], cs_data = Some [8, 9], cs_blocksize = 2, cs_repl = Lru [0]\<rparr>],
       c_set_info = Some [0], c_fault = None\<rparr>,
     dk_queue = None, dk_reads = 0, dk_writes = 0, dk_read_misses = 0, dk_write_misses = 0\<rparr>"

definition demo_insert :: "(bool \<times> addr \<times> cache_block \<times> u8 list option \<times> cache) res" where
  "demo_insert = insertSingleLine 0x20 (Some [1, 2]) (CacheBlockInfo PrL1Block (-1) INVALID 0) True (dk_cache demo_dram_cache)"

lemma demo_insert_evicts:
  "case demo_insert of Inr (ev, ea, evb, buf, c) \<Rightarrow> ev \<and> ea = 0x40 \<and> m_cstate evb = MODIFIED \<and> buf = Some [8, 9] | Inl _ \<Rightarrow> False"
  by code_simp

lemma demo_peek: "peekSingleLine 0x20 (dk_cache demo_dram_cache) = Inr None"
  by code_simp

definition demo_dk_put :: "((time \<times> where_t) \<times> dram_cache \<times> perf_store) res" where
  "demo_dk_put = dk_putDataToDram demo_dram_env 0x20 0 [1, 2] 10 (demo_dram_cache, \<lambda>_. ShmemPerf)"

lemma demo_dk_put_ok: "\<not> isl demo_dk_put"
  by code_simp


end
