(* ===== verification/Cache_Cntlr_Props.thy ===== *)
theory Cache_Cntlr_Props
  imports Cache_Stack_Type Dram_Props
begin

text \<open>
  The properties of the cache controllers: well-formedness and inclusion of the caches, what a directory's requests and a write
  leave behind, requests to the directory, errors, bounds and the depth of the recursion through the levels.
\<close>

subsection \<open>A small stack\<close>

text \<open>For evaluation, the test of an access's end in 32 bits.\<close>

lemma mod_32_word: "n mod 2 ^ 32 = unat (word_of_nat n :: 32 word)"
  by (simp add: unsigned_of_nat take_bit_eq_mod)

lemmas read_line_code [code] = read_line_def [unfolded mod_32_word]
lemmas write_line_code [code] = write_line_def [unfolded mod_32_word]

definition stack_cache :: "cache_block list \<Rightarrow> cache" where
  "stack_cache bs = \<lparr>c_base = \<lparr>cb_name = [], m_cache_size = 4, m_associativity = 2, m_blocksize = 2, m_hash = HASH_MASK,
       m_num_sets = 1, m_ahl = None, m_log_blocksize = 1\<rparr>, c_enabled = True, c_num_accesses = 0, c_num_hits = 0,
     c_cache_type = SHARED_CACHE, c_sets = [\<lparr>cs_blocks = bs, cs_data = Some [1, 2, 3, 4], cs_blocksize = 2, cs_repl = Lru [0, 1]\<rparr>],
     c_set_info = Some [0, 0], c_fault = None\<rparr>"

definition demo_block :: "addr \<Rightarrow> cstate_t \<Rightarrow> cache_block" where
  "demo_block tag s = CacheBlockInfo SharedBlock tag s 0"

definition no_block :: cache_block where
  "no_block = demo_block (-1) INVALID"

text \<open>Controllers 0 and 1 are the first level of a core, 2 the second and 3 the last level.\<close>

definition demo_cntlr :: "nat \<Rightarrow> cc_conf" where
  "demo_cntlr cid = \<lparr>cc_component = (if cid = 0 then L1_ICACHE else if cid = 1 then L1_DCACHE else if cid = 2 then L2_CACHE else L3_CACHE),
     cc_core_id = 0, cc_core_master = 0, cc_master_id = cid,
     cc_next = (if cid < 2 then Some 2 else if cid = 2 then Some 3 else None),
     cc_perfect = False, cc_coherent = True, cc_pf_on_pf_hit = False, cc_l1_mshr = False, cc_block_size = 2, cc_writethrough = False,
     cc_writeback_time = \<lparr>lat_period = 1, lat_cycles = 3\<rparr>, cc_next_bw = \<lparr>bpc_period = 1, bpc_bits = 0\<rparr>, cc_perf = cid\<rparr>"

definition stack_env :: cc_env where
  "stack_env = \<lparr>ev_cntlr = demo_cntlr, ev_prev = (\<lambda>m. if m = 3 then [2] else if m = 2 then [0, 1] else []), ev_fuel = 3,
     ev_models = (\<lambda>_ _. Some \<lparr>pm_type = CACHE_PERF_MODEL_PARALLEL, pm_enabled = True,
        pm_data = \<lparr>lat_period = 1, lat_cycles = 4\<rparr>, pm_tags = \<lparr>lat_period = 1, lat_cycles = 1\<rparr>\<rparr>),
     ev_home = \<lparr>m_ahl_param = 1, m_core_list = [0], m_cache_block_size = 2\<rparr>, ev_dram = demo_dram_env,
     ev_cache_only = False, ev_owner = None, ev_junk = [0, 0]\<rparr>"

definition demo_stack :: "(nat \<Rightarrow> cache_block list) \<Rightarrow> cc_state" where
  "demo_stack bs = \<lparr>st_master = (\<lambda>m. CacheMasterCntlr 1 0 (stack_cache (bs m)) None []), st_last_remote = (\<lambda>_. WHERE_UNKNOWN),
     st_time = (\<lambda>_ _. 100), st_perf = (\<lambda>_. ShmemPerf), st_uncore = (\<lambda>_. None), st_out = []\<rparr>"

text \<open>The line with tag 5, that is addresses 10 and 11, exclusive in all levels but cache 1; and nowhere but in the last level.\<close>

definition demo_excl :: cc_state where
  "demo_excl = demo_stack (\<lambda>m. if m = 1 then [no_block, no_block] else [demo_block 5 EXCLUSIVE, no_block])"

definition demo_top :: cc_state where
  "demo_top = demo_stack (\<lambda>m. if m = 3 then [demo_block 5 SHARED, demo_block 7 SHARED] else [no_block, no_block])"

lemma stack_cache_ok:
  assumes "bs \<in> {[no_block, no_block], [demo_block 5 EXCLUSIVE, no_block], [demo_block 5 SHARED, demo_block 7 SHARED]}"
  shows "cache_ok 1 (stack_cache bs)"
proof -
  have p: "placed (c_base (stack_cache bs)) 0 t" if "t \<in> {5, 7}" for t bs
    using that by (auto simp: placed_def stack_cache_def splitAddress_def tagToAddress_def hash_set_index_def)
  have b: "cache_base_ok (c_base (stack_cache bs))" for bs
    by (auto simp: cache_base_ok_def stack_cache_def intro: exI [of _ 0])
  have w: "set_wf 2 s \<longleftrightarrow> length (cs_blocks s) = 2" if "s \<in> set (c_sets (stack_cache bs))" for s bs
    using that by (auto simp: set_wf_def stack_cache_def stack_ok_def)
  have sets: "length (c_sets (stack_cache bs)) = 1" "c_sets (stack_cache bs) ! 0 \<in> set (c_sets (stack_cache bs))"
      "cs_blocks (c_sets (stack_cache bs) ! 0) = bs" "m_associativity (c_base (stack_cache bs)) = 2"
      "c_cache_type (stack_cache bs) = SHARED_CACHE" "m_num_sets (c_base (stack_cache bs)) = 1" "m_log_blocksize (c_base (stack_cache bs)) = 1" for bs
    by (simp_all add: stack_cache_def)
  have t: "set_tags (c_sets (stack_cache bs) ! 0) \<subseteq> {5, 7}" "length bs = 2" "tags_unique bs" "\<forall>b \<in> set bs. isValid b \<longrightarrow> m_cstate b \<noteq> INVALID"
    using assms by (auto simp: set_tags_def sets demo_block_def no_block_def tags_unique_def isValid_def CacheBlockInfo_def less_Suc_eq numeral_2_eq_2)
  have c: "c_sets (stack_cache bs) = [c_sets (stack_cache bs) ! 0]" by (simp add: stack_cache_def)
  have "cache_wf (stack_cache bs)"
    using t(1,2) p w [OF sets(2), of bs] by (auto simp: cache_wf_def sets b)
  moreover have "cache_unique (stack_cache bs)" "cache_live (stack_cache bs)"
    unfolding cache_unique_def cache_live_def by (subst c, use t(3,4) sets in simp)+
  ultimately show ?thesis by (simp add: cache_ok_def sets)
qed

lemma demo_excl_ok: "caches_ok 1 demo_excl"
  using stack_cache_ok by (auto simp: caches_ok_def demo_excl_def demo_stack_def CacheMasterCntlr_def simp del: One_nat_def)

lemma demo_top_ok: "caches_ok 1 demo_top"
  using stack_cache_ok by (auto simp: caches_ok_def demo_top_def demo_stack_def CacheMasterCntlr_def simp del: One_nat_def)

lemma demo_lines:
  "lines_of stack_env cid (demo_stack bs) = set_tags (c_sets (stack_cache (bs cid)) ! 0)"
  by (simp add: lines_of_def cache_of_def master_of_def stack_env_def demo_cntlr_def demo_stack_def CacheMasterCntlr_def
      stack_cache_def cache_lines_def)

lemma not_isl_Inr: "\<not> isl r \<Longrightarrow> \<exists>x. r = Inr x"
  by (cases r) simp_all

lemma demo_prev: "prev_of stack_env cid = (if cid = 3 then [2] else if cid = 2 then [0, 1] else [])"
  by (simp add: prev_of_def stack_env_def demo_cntlr_def)

lemma demo_master_id: "cc_master_id (ev_cntlr stack_env cid) = cid"
  by (simp add: stack_env_def demo_cntlr_def)

lemma demo_lines_excl: "lines_of stack_env cid demo_excl = (if cid = 1 then {} else {5})"
  by (auto simp: demo_excl_def demo_lines stack_cache_def set_tags_map demo_block_def no_block_def isValid_def CacheBlockInfo_def)

lemma demo_lines_top: "lines_of stack_env cid demo_top = (if cid = 3 then {5, 7} else {})"
  by (auto simp: demo_top_def demo_lines stack_cache_def set_tags_map demo_block_def no_block_def isValid_def CacheBlockInfo_def)

lemma demo_excl_inclusive: "inclusive stack_env demo_excl"
  by (auto simp: inclusive_def demo_prev demo_lines_excl split: if_splits)

lemma demo_top_inclusive: "inclusive stack_env demo_top"
  by (auto simp: inclusive_def demo_prev demo_lines_top split: if_splits)

lemma demo_coherent: "coherent_under stack_env cid"
  by (simp add: coherent_under_def stack_env_def demo_cntlr_def)

lemma demo_under: "under stack_env 3 0"
  by (rule under_prev [of 2], simp add: demo_prev, rule under_prev [of 0]) (simp_all add: demo_prev under_here)

subsection \<open>Requests of the directory\<close>

definition no_copy_below :: "cc_env \<Rightarrow> nat \<Rightarrow> addr \<Rightarrow> cc_state \<Rightarrow> bool" where
  "no_copy_below env cid t st \<longleftrightarrow> (\<forall>x. under env cid x \<longrightarrow> t \<notin> lines_of env x st)"

text \<open>The two ways a request to give up a line ends: there is no copy, or it is invalidated and one reply is sent.\<close>

lemma request_without_copy:
  assumes "incr_access env cid ac th st = Inr st'" "getCacheState env cid a st = Inr INVALID" "caches_ok L st" "inclusive env st"
  shows "inclusive env st' \<and> no_copy_below env cid (drop_bit L a) st' \<and> st_out st' = st_out st \<and> drop_bit L a \<notin> lines_of env cid st"
proof -
  note q = quiet_lines [OF quiet_incr_access [OF assms(1)]]
  have n: "drop_bit L a \<notin> lines_of env cid st" using getCacheState_iff [OF assms(3,2)] by simp
  then have "no_copy_below env cid (drop_bit L a) st"
    using inclusive_under [OF _ assms(4)] by (auto simp: no_copy_below_def)
  with q n assms(4) show ?thesis by (simp add: no_copy_below_def)
qed

lemma request_with_copy:
  assumes "incr_access env cid ac SIM_THREAD (msg_updateTime env cid m R_UNKNOWN st) = Inr s1"
    "updateCacheBlock (ev_fuel env) env cid (msg_address m) INVALID ob s1 = Inr (l, b, buf, s2)"
    "cc_sendMsg env cid ty (msg_requester m) sender (msg_address m) data len (msg_perf m) SIM_THREAD (msg_updateTime env cid m r s2) = Inr st'"
    "getCacheState env cid (msg_address m) st = Inr s" "s \<noteq> INVALID" "caches_ok L st" "inclusive env st" "coherent_under env cid"
  shows "inclusive env st' \<and> no_copy_below env cid (drop_bit L (msg_address m)) st' \<and>
    drop_bit L (msg_address m) \<in> lines_of env cid st \<and>
    (\<exists>rep t. st_out st' = st_out st @ [(sender, rep, t)] \<and> msg_type rep = ty \<and> msg_address rep = msg_address m)"
proof -
  note q = quiet_lines [OF quiet_msg] quiet_lines [OF quiet_incr_access [OF assms(1)]]
  have "caches_ok L s1" "inclusive env s1" using assms(6,7) q by simp_all
  note i = updateCacheBlock_invalid [OF assms(2) this assms(8)]
  note m = cc_sendMsg_Inr [OF assms(3)]
  have "inclusive env st' = inclusive env s2" "lines_of env x st' = lines_of env x s2" for x
    using m(1) by (simp_all add: inclusive_def lines_of_def cache_of_def master_of_def msg_updateTime_def)
  with i m(2) q getCacheState_iff [OF assms(6,4)] assms(5) show ?thesis by (auto simp: ShmemMsg_def no_copy_below_def)
qed

text \<open>C13. A directory's request to invalidate or flush a line, handled by a last-level cache, leaves the line in no cache at or
  below it, keeps the caches inclusive, and is answered by exactly one message to the sender, INV_REP or FLUSH_REP, if the
  line was there, and by none otherwise.\<close>

theorem directory_request_leaves_no_copy:
  assumes "handleMsgFromDramDirectory rounds wake env cid sender m st = Inr st'" "msg_type m \<in> {INV_REQ, FLUSH_REQ}"
    "caches_ok L st" "inclusive env st" "coherent_under env cid"
  shows "no_copy_below env cid (drop_bit L (msg_address m)) st' \<and> inclusive env st' \<and>
    (if drop_bit L (msg_address m) \<in> lines_of env cid st
     then \<exists>rep t. st_out st' = st_out st @ [(sender, rep, t)] \<and> msg_address rep = msg_address m \<and>
       msg_type rep = (if msg_type m = INV_REQ then INV_REP else FLUSH_REP)
     else st_out st' = st_out st)"
proof (cases "msg_type m = INV_REQ")
  case True
  with assms(1) have h: "processInvReqFromDramDirectory env cid sender m st = Inr st'" by (simp add: handleMsgFromDramDirectory_def)
  then obtain s where s: "getCacheState env cid (msg_address m) st = Inr s"
    by (auto simp: processInvReqFromDramDirectory_def bindE_Inr_iff)
  show ?thesis
  proof (cases "s = INVALID")
    case True
    with h s have "incr_access env cid ACCESS_CACHE_TAGS SIM_THREAD st = Inr st'" by (simp add: processInvReqFromDramDirectory_def)
    with request_without_copy [OF this s [unfolded True] assms(3,4)] show ?thesis by simp
  next
    case False
    with h s obtain s1 l b buf s2 where u: "incr_access env cid ACCESS_CACHE_TAGS SIM_THREAD (msg_updateTime env cid m R_UNKNOWN st) = Inr s1"
        "updateCacheBlock (ev_fuel env) env cid (msg_address m) INVALID None s1 = Inr (l, b, buf, s2)"
        "cc_sendMsg env cid INV_REP (msg_requester m) sender (msg_address m) None 0 (msg_perf m) SIM_THREAD
           (msg_updateTime env cid m R_REMOTE_CACHE_INV s2) = Inr st'"
      by (auto simp: processInvReqFromDramDirectory_def bindE_Inr_iff Let_def)
    from request_with_copy [OF u s False assms(3-5)] \<open>msg_type m = INV_REQ\<close> show ?thesis by auto
  qed
next
  case False
  with assms(1,2) have h: "processFlushReqFromDramDirectory env cid sender m st = Inr st'" by (simp add: handleMsgFromDramDirectory_def)
  then obtain s where s: "getCacheState env cid (msg_address m) st = Inr s"
    by (auto simp: processFlushReqFromDramDirectory_def bindE_Inr_iff)
  show ?thesis
  proof (cases "s = INVALID")
    case True
    with h s have "incr_access env cid ACCESS_CACHE_TAGS SIM_THREAD st = Inr st'" by (simp add: processFlushReqFromDramDirectory_def)
    with request_without_copy [OF this s [unfolded True] assms(3,4)] show ?thesis by simp
  next
    case no: False
    with h s obtain s1 l b buf s2 where u: "incr_access env cid ACCESS_CACHE_DATA_AND_TAGS SIM_THREAD (msg_updateTime env cid m R_UNKNOWN st) = Inr s1"
        "updateCacheBlock (ev_fuel env) env cid (msg_address m) INVALID (Some (ev_junk env)) s1 = Inr (l, b, buf, s2)"
        "cc_sendMsg env cid FLUSH_REP (msg_requester m) sender (msg_address m) buf (cc_block_size (ev_cntlr env cid)) (msg_perf m) SIM_THREAD
           (msg_updateTime env cid m R_REMOTE_CACHE_WB s2) = Inr st'"
      by (auto simp: processFlushReqFromDramDirectory_def bindE_Inr_iff Let_def)
    from request_with_copy [OF u s no assms(3-5)] False show ?thesis by auto
  qed
qed

definition stack_msg :: "msg_t \<Rightarrow> u8 list option \<Rightarrow> shmem_msg" where
  "stack_msg ty data = ShmemMsg ty TAG_DIR LAST_LEVEL_CACHE 0 10 data (if data = None then 0 else 2) None"

definition demo_inv :: "cc_state res" where
  "demo_inv = handleMsgFromDramDirectory 0 (\<lambda>_ _. Inr) stack_env 3 4 (stack_msg INV_REQ None) demo_excl"

lemma demo_inv_returns: "\<not> isl demo_inv"
  by code_simp

theorem directory_request_leaves_no_copy_witness:
  "\<exists>st rep t. demo_inv = Inr st \<and> st_out st = [(4, rep, t)] \<and> msg_type rep = INV_REP \<and> 5 \<notin> lines_of stack_env 0 st"
proof -
  obtain st where st: "demo_inv = Inr st" using not_isl_Inr [OF demo_inv_returns] by blast
  have d: "st_out demo_excl = []" "msg_type (stack_msg INV_REQ None) = INV_REQ" "drop_bit 1 (msg_address (stack_msg INV_REQ None)) = 5"
    by (simp_all add: demo_excl_def demo_stack_def stack_msg_def ShmemMsg_def)
  from directory_request_leaves_no_copy [OF st [unfolded demo_inv_def] _ demo_excl_ok demo_excl_inclusive demo_coherent] d
  have "no_copy_below stack_env 3 5 st" "\<exists>rep t. st_out st = [(4, rep, t)] \<and> msg_type rep = INV_REP"
    by (auto simp: demo_lines_excl)
  with st demo_under show ?thesis by (auto simp: no_copy_below_def)
qed

subsection \<open>Insertion\<close>

text \<open>A cache gets the line \<open>t\<close> in place of the lines \<open>E\<close>, which leave the caches under it.\<close>

lemma inclusive_exchange:
  fixes E :: "addr set"
  assumes "inclusive env st" "t \<notin> E"
    "\<And>c q. q \<in> set (prev_of env c) \<Longrightarrow> cc_master_id (ev_cntlr env q) = cc_master_id (ev_cntlr env cid) \<Longrightarrow> t \<in> lines_of env c st"
    and lines: "\<And>m. master_lines m st1 =
      (if m = cc_master_id (ev_cntlr env cid) then insert t (master_lines m st - E) else master_lines m st)"
    and less: "\<And>m. master_lines m st' \<subseteq> master_lines m st1"
    and keep: "\<And>u m. u \<in> master_lines m st1 \<Longrightarrow> u \<notin> E \<or> m \<notin> masters_under env cid \<Longrightarrow> u \<in> master_lines m st'"
    and gone: "\<And>u x. under env cid x \<Longrightarrow> u \<in> lines_of env x st' \<Longrightarrow> u \<notin> E"
  shows "inclusive env st'"
  unfolding inclusive_def
proof (intro allI ballI subsetI)
  fix c q u assume q: "q \<in> set (prev_of env c)" and u: "u \<in> lines_of env q st'"
  let ?M = "cc_master_id (ev_cntlr env cid)" and ?c = "cc_master_id (ev_cntlr env c)" and ?q = "cc_master_id (ev_cntlr env q)"
  have uE: "u \<notin> E \<or> ?c \<notin> masters_under env cid"
    using gone [OF _ u] masters_under_prev_of [OF _ q] by auto
  have cM: "?c = ?M \<Longrightarrow> u \<notin> E" using uE masters_under_here [of env cid] by auto
  from u less have u1: "u \<in> master_lines ?q st1" unfolding lines_of_master by blast
  have "u \<in> master_lines ?c st"
  proof (cases "?q = ?M \<and> u = t")
    case True
    with assms(3) [OF q] show ?thesis by (simp add: lines_of_master)
  next
    case False
    with u1 have "u \<in> master_lines ?q st" by (auto simp: lines split: if_splits)
    with assms(1) q show ?thesis unfolding inclusive_def lines_of_master by blast
  qed
  with cM have "u \<in> master_lines ?c st1" by (auto simp: lines)
  from keep [OF this uE] show "u \<in> lines_of env c st'" by (simp add: lines_of_master)
qed

text \<open>C14. Inserting a line keeps the caches of the stack well-formed and inclusive, if the caches above hold the line: the
  cache then holds it besides its old lines, but for at most one evicted line, which is then in no cache at or below.\<close>

theorem insertion_keeps_inclusion:
  assumes "insertCacheBlock env cid a s data th st = Inr (p, st')" "caches_ok L st" "inclusive env st" "s \<noteq> INVALID"
    "coherent_under env cid"
    "\<And>c q. q \<in> set (prev_of env c) \<Longrightarrow> cc_master_id (ev_cntlr env q) = cc_master_id (ev_cntlr env cid) \<Longrightarrow>
       drop_bit L a \<in> lines_of env c st"
  shows "caches_ok L st' \<and> inclusive env st' \<and>
    (\<exists>E. E \<subseteq> lines_of env cid st \<and> (\<exists>t. E \<subseteq> {t}) \<and> lines_of env cid st' = insert (drop_bit L a) (lines_of env cid st - E) \<and>
       (\<forall>x. under env cid x \<longrightarrow> E \<inter> lines_of env x st' = {}))"
proof -
  let ?M = "cc_master_id (ev_cntlr env cid)" and ?t = "drop_bit L a"
  obtain ev ea evb c st1 buf where i: "?t \<notin> lines_of env cid st" "st1 = set_cache env cid c st" "caches_ok L st1"
      "cache_lines c = insert ?t (lines_of env cid st - (if ev then {drop_bit L ea} else {}))"
      "ev \<longrightarrow> drop_bit L ea \<in> lines_of env cid st"
      "if ev then evict_line env cid ea evb buf th st1 = Inr st' else st' = st1"
    by (rule insertCacheBlock_steps [OF assms(1,2,4)])
  let ?E = "if ev then {drop_bit L ea} else {}"
  have e: "loses (masters_under env cid) L (drop_bit L ea) st1 st' \<and> (\<forall>x. under env cid x \<longrightarrow> ?E \<inter> lines_of env x st' = {}) \<and>
      (\<not> ev \<longrightarrow> st' = st1)"
    using i(6) evict_line_loses [OF _ i(3) assms(5)] by (auto simp: losing.refl split: if_splits)
  then have gone: "u \<notin> ?E" if "under env cid x" "u \<in> lines_of env x st'" for u x using that by blast
  note l = losesD [OF conjunct1 [OF e] i(3)]
  have m1: "master_lines m st1 = (if m = ?M then insert ?t (master_lines ?M st - ?E) else master_lines m st)" for m
    using i(4) by (simp add: i(2) master_lines_set_cache lines_of_master)
  have keep: "u \<in> master_lines m st'" if "u \<in> master_lines m st1" "u \<notin> ?E" for u m
    using that l(3) [of m] e by (cases ev) auto
  have tE: "?t \<notin> ?E" using i(1,5) by auto
  have "inclusive env st'"
  proof (rule inclusive_exchange [OF assms(3) tE assms(6)])
    show "master_lines m st1 = (if m = ?M then insert ?t (master_lines m st - ?E) else master_lines m st)" for m by (simp add: m1)
    show "u \<in> master_lines m st'" if "u \<in> master_lines m st1" "u \<notin> ?E \<or> m \<notin> masters_under env cid" for u m
      using that keep l(4) by blast
  qed (use l(2) gone in blast)+
  moreover have "lines_of env cid st' = insert ?t (lines_of env cid st - ?E)"
  proof (rule subset_antisym)
    show "lines_of env cid st' \<subseteq> insert ?t (lines_of env cid st - ?E)" using l(2) [of ?M] by (simp add: lines_of_master m1)
    show "insert ?t (lines_of env cid st - ?E) \<subseteq> lines_of env cid st'"
    proof
      fix u assume "u \<in> insert ?t (lines_of env cid st - ?E)"
      then have "u \<in> master_lines ?M st1" "u \<notin> ?E" using tE by (auto simp: m1 lines_of_master)
      then show "u \<in> lines_of env cid st'" unfolding lines_of_master by (rule keep)
    qed
  qed
  moreover have "?E \<subseteq> lines_of env cid st" "?E \<subseteq> {drop_bit L ea}" using i(5) by auto
  ultimately show ?thesis using l(1) e by blast
qed

definition demo_insertion :: "(block_ptr \<times> cc_state) res" where
  "demo_insertion = insertCacheBlock stack_env 3 18 SHARED (Some [6, 6]) SIM_THREAD demo_top"

lemma demo_insertion_returns: "\<not> isl demo_insertion"
  by code_simp

theorem insertion_keeps_inclusion_witness:
  "\<exists>p st. demo_insertion = Inr (p, st) \<and> caches_ok 1 st \<and> inclusive stack_env st \<and>
     (\<exists>E t. E \<subseteq> {t} \<and> lines_of stack_env 3 st = insert 9 ({5, 7} - E))"
proof -
  obtain p st where st: "demo_insertion = Inr (p, st)" using not_isl_Inr [OF demo_insertion_returns] by auto
  have above: "drop_bit 1 18 \<in> lines_of stack_env c demo_top"
    if "q \<in> set (prev_of stack_env c)" "cc_master_id (ev_cntlr stack_env q) = cc_master_id (ev_cntlr stack_env 3)" for c q
    using that by (auto simp: demo_prev demo_master_id split: if_splits)
  have "caches_ok 1 st \<and> inclusive stack_env st \<and>
    (\<exists>E. E \<subseteq> lines_of stack_env 3 demo_top \<and> (\<exists>t. E \<subseteq> {t}) \<and>
       lines_of stack_env 3 st = insert (drop_bit 1 18) (lines_of stack_env 3 demo_top - E) \<and>
       (\<forall>x. under stack_env 3 x \<longrightarrow> E \<inter> lines_of stack_env x st = {}))"
  proof (rule insertion_keeps_inclusion [OF st [unfolded demo_insertion_def] demo_top_ok demo_top_inclusive _ demo_coherent])
    show "SHARED \<noteq> INVALID" by simp
  qed (rule above)
  moreover have "drop_bit 1 (18 :: addr) = 9" "lines_of stack_env 3 demo_top = {5, 7}" by (simp_all add: demo_lines_top)
  ultimately have "caches_ok 1 st \<and> inclusive stack_env st \<and> (\<exists>E t. E \<subseteq> {t} \<and> lines_of stack_env 3 st = insert 9 ({5, 7} - E))"
    by metis
  with st show ?thesis by blast
qed

subsection \<open>Copies in the other caches of a level\<close>

lemma update_prev_others_gone:
  assumes "update_prev env cid (Some rq) a INVALID st = Inr (l, s, st')" "caches_ok L st" "p \<in> set (prev_of env cid)" "p \<noteq> rq"
    "under env p x" "cc_coherent (ev_cntlr env x)"
  shows "drop_bit L a \<notin> lines_of env x st'"
proof -
  have p: "p \<in> set (filter (\<lambda>p. Some p \<noteq> Some rq) (prev_of env cid))" using assms(3,4) by simp
  note u = assms(1) [unfolded update_prev_def]
  note tk = updateCacheBlock_takes [of "ev_fuel env" env _ a INVALID None _ _ _ _ _ UNIV L, OF _ subset_UNIV]
  obtain st1 l1 s1 out st2 where s: "takes_away UNIV L (drop_bit L a) st st1"
      "updateCacheBlock (ev_fuel env) env p a INVALID None st1 = Inr (l1, s1, out, st2)" "takes_away UNIV L (drop_bit L a) st2 st'"
    using takes.snoop_each [OF _ u p, of UNIV L "drop_bit L a"] tk by metis
  have ok: "caches_ok L st1" by (rule takes_caches_ok [OF s(1) assms(2)])
  have "drop_bit L a \<notin> lines_of env x st2" by (rule updateCacheBlock_gone [OF assms(5) s(2) ok assms(6)])
  with takes_lines [OF s(3) takes_caches_ok [OF tk [OF s(2)] ok]] show ?thesis by blast
qed

text \<open>C15. After a write that hits, and after the upgrade of a shared line, no coherent cache of the previous levels but the
  requester's side holds the line.\<close>

theorem write_takes_sibling_copies:
  assumes "(op \<noteq> MEM_READ \<and> serve_hit env cid rq op a modeled demand info st = Inr (w, b, st')) \<or>
      upgrade_siblings env cid rq a st = Inr st'"
    "caches_ok L st" "p \<in> set (prev_of env cid)" "p \<noteq> rq" "under env p x" "cc_coherent (ev_cntlr env x)"
  shows "drop_bit L a \<notin> lines_of env x st'"
  using assms(1)
proof
  assume h: "op \<noteq> MEM_READ \<and> serve_hit env cid rq op a modeled demand info st = Inr (w, b, st')"
  then have "bindE (use_line env cid demand info st) (\<lambda>(prefetch_hit, st).
     bindE (if modeled then hit_time env cid a st else Inr st) (\<lambda>st.
     bindE (snoop_siblings env cid rq op a info st) (\<lambda>(sibling_hit, st).
     let (hit_where, st) = hit_where_here env cid sibling_hit st in Inr (hit_where, prefetch_hit, st)))) = Inr (w, b, st')"
    by (simp add: serve_hit_def)
  then obtain b1 s1 where s1: "use_line env cid demand info st = Inr (b1, s1)" and
    r: "bindE (if modeled then hit_time env cid a s1 else Inr s1) (\<lambda>st.
     bindE (snoop_siblings env cid rq op a info st) (\<lambda>(sibling_hit, st).
     let (hit_where, st) = hit_where_here env cid sibling_hit st in Inr (hit_where, b1, st))) = Inr (w, b, st')"
    by (rule bindE_pair)
  from r obtain s2 where s2: "(if modeled then hit_time env cid a s1 else Inr s1) = Inr s2" and
    r: "bindE (snoop_siblings env cid rq op a info s2) (\<lambda>(sibling_hit, st).
     let (hit_where, st) = hit_where_here env cid sibling_hit st in Inr (hit_where, b1, st)) = Inr (w, b, st')"
    by (rule bindE_InrE)
  from r obtain sib s4 where s3: "snoop_siblings env cid rq op a info s2 = Inr (sib, s4)" and s5: "st' = snd (hit_where_here env cid sib s4)"
    by (rule bindE_pair) (auto simp: Let_def split: prod.splits)
  from s3 h obtain l s3 where "update_prev env cid (Some rq) a INVALID s2 = Inr (l, sib, s3)" "incr_time env cid l USER_THREAD s3 = Inr s4"
    by (auto simp: snoop_siblings_def bindE_Inr_iff Let_def)
  note s = s1 s2 this s5
  have ok1: "caches_ok L s1" using use_line_ok [OF assms(2), of env cid demand info] s(1) by (simp add: lands_def)
  have ok2: "caches_ok L s2" using s(2) hit_time_ok [OF ok1, of env cid a] ok1 by (auto simp: lands_def split: if_splits)
  have "lines_of env x st' = lines_of env x s3"
    using quiet_lines(1) [OF quiet_incr_time [OF s(4)]]
    by (simp add: s(5) hit_where_here_def lines_of_def cache_of_def master_of_def)
  with update_prev_others_gone [OF s(3) ok2 assms(3-6)] show ?thesis by simp
next
  assume "upgrade_siblings env cid rq a st = Inr st'"
  then obtain l sib s3 where s: "update_prev env cid (Some rq) a INVALID st = Inr (l, sib, s3)" "incr_time env cid l USER_THREAD s3 = Inr st'"
    by (auto simp: upgrade_siblings_def bindE_Inr_iff)
  from update_prev_others_gone [OF s(1) assms(2-6)] quiet_lines(1) [OF quiet_incr_time [OF s(2)]] show ?thesis by simp
qed

definition demo_hit :: "(nat \<times> bool \<times> cc_state) res" where
  "demo_hit = serve_hit stack_env 2 1 MEM_WRITE 10 False True (Some (0, 0)) demo_excl"

lemma demo_hit_returns: "\<not> isl demo_hit"
  by code_simp

theorem write_takes_sibling_copies_witness:
  "\<exists>w b st. demo_hit = Inr (w, b, st) \<and> 5 \<in> lines_of stack_env 0 demo_excl \<and> 5 \<notin> lines_of stack_env 0 st"
proof -
  obtain w b st where st: "demo_hit = Inr (w, b, st)" using not_isl_Inr [OF demo_hit_returns] by auto
  have "drop_bit 1 10 \<notin> lines_of stack_env 0 st"
    by (rule write_takes_sibling_copies [of MEM_WRITE stack_env 2 1 10 False True "Some (0, 0)" demo_excl w b st 1 0 0])
      (use st demo_excl_ok in \<open>simp_all add: demo_hit_def demo_prev under_here demo_coherent [unfolded coherent_under_def, rule_format, OF under_here]\<close>)
  then have "5 \<notin> lines_of stack_env 0 st" by simp
  moreover have "5 \<in> lines_of stack_env 0 demo_excl" by (simp add: demo_lines_excl)
  ultimately show ?thesis using st by blast
qed


end
