(* ===== verification/Cache_Request_Props.thy ===== *)
theory Cache_Request_Props
  imports Cache_Cntlr_Props
begin

text \<open>
  Further properties of the cache controllers: accesses and messages keep the caches well-formed; what is asked of a directory and
  when its answer cannot be used; errors of perfect caches; bounds of the prefetch queue and of the outstanding misses; and that
  the calls between levels go no deeper than there are levels.
\<close>

subsection \<open>Well-formed caches\<close>

text \<open>C17. Every access of a core and every message of a directory keeps all caches of the stack well-formed, if what other threads
  do while one waits keeps them so: lines in the set of their address, no line twice in a set, every line with a state, the data
  of a set of the size of its ways.\<close>

theorem accesses_and_messages_keep_caches:
  assumes "wait_ok L wait" "caches_ok L st"
  shows "(\<forall>w out st'. processMemOpFromCore wait env cid sig op a off buf len modeled counted st = Inr (w, out, st') \<longrightarrow> caches_ok L st') \<and>
    (\<forall>st'. handleMsgFromDramDirectory n wait env cid sender m st = Inr st' \<longrightarrow> caches_ok L st')"
  using processMemOpFromCore_ok [OF assms, of env cid sig op a off buf len modeled counted] handleMsg_ok [OF assms, of n env cid sender m]
  by (auto simp: lands_def)

theorem accesses_and_messages_keep_caches_witness: "\<exists>st. demo_inv = Inr st \<and> caches_ok 1 st"
proof -
  obtain st where st: "demo_inv = Inr st" using not_isl_Inr [OF demo_inv_returns] by blast
  have "wait_ok 1 (\<lambda>_ _. Inr)" by (simp add: wait_ok_def lands_def)
  from accesses_and_messages_keep_caches [OF this demo_excl_ok] st show ?thesis unfolding demo_inv_def by blast
qed

subsection \<open>Requests to the directory and replies\<close>

lemma getCacheBlockInfo_absent:
  assumes "caches_ok L st" "drop_bit L a \<notin> lines_of env cid st"
  shows "getCacheBlockInfo env cid a st = Inr None"
proof -
  note ok = caches_ok_cache [OF assms(1), of env cid]
  obtain p where "peekSingleLine a (cache_of env cid st) = Inr p" "p \<noteq> None \<longleftrightarrow> drop_bit L a \<in> lines_of env cid st"
    using peekSingleLine_iff [OF cache_okD(1) [OF ok], of a] by (auto simp: lines_of_def cache_okD(4) [OF ok])
  moreover from this assms(2) have "p = None" by blast
  ultimately show ?thesis by (simp add: getCacheBlockInfo_def)
qed

text \<open>C18. A cache that has lost its shared copy while it waited for an upgrade cannot use the directory's answer: whether or not
  UPGRADE_REP carries the line's data, its handler does not return.\<close>

theorem upgrade_of_lost_line_fails:
  assumes "getCacheState env cid (msg_address m) st = Inr INVALID" "caches_ok L st" "msg_type m = UPGRADE_REP"
  shows "\<exists>e. handleMsgFromDramDirectory rounds wake env cid sender m st = Inl e"
proof (rule ccontr)
  let ?a = "msg_address m"
  assume "\<not> ?thesis"
  then obtain st' where "handleMsgFromDramDirectory rounds wake env cid sender m st = Inr st'"
    by (cases "handleMsgFromDramDirectory rounds wake env cid sender m st") auto
  then obtain st2 where "processUpgradeRepFromDramDirectory env cid m st = Inr st2"
    using assms(3) by (auto simp: handleMsgFromDramDirectory_def bindE_Inr_iff)
  then obtain d l s out where d: "msg_data m = Some d" and u: "updateCacheBlock (ev_fuel env) env cid ?a MODIFIED (Some d) st = Inr (l, s, out, st2)"
    using assms(1) by (auto simp: processUpgradeRepFromDramDirectory_def bindE_Inr_iff)
  obtain n where n: "ev_fuel env = Suc n" using u by (cases "ev_fuel env") simp_all
  obtain l1 s1 st1 where v: "snoop (\<lambda>p. updateCacheBlock n env p ?a MODIFIED None) (prev_of env cid) 0 False st = Inr (l1, s1, st1)"
      "update_here env cid ?a MODIFIED (Some d) s1 st1 = Inr (l, s, out, st2)"
    by (rule updateCacheBlock_Suc [OF u [unfolded n]])
  have "steady st st1" by (rule steadily.snoop [OF _ v(1)]) (rule updateCacheBlock_steady, assumption, simp)
  with assms(2) have ok: "caches_ok L st1" and "lines_of env cid st1 = lines_of env cid st"
    using steady_lines by (simp_all add: steady_caches_ok lines_of_def cache_of_def master_of_def)
  then have "drop_bit L ?a \<notin> lines_of env cid st1" using getCacheState_iff [OF assms(2,1)] by simp
  from getCacheBlockInfo_absent [OF ok this] v(2) show False
    by (simp add: update_here_def update_own_def getCacheState_def ptr_state_def)
qed

theorem upgrade_of_lost_line_fails_witness:
  "\<exists>e. handleMsgFromDramDirectory 1 (\<lambda>_ _. Inr) stack_env 1 0 (stack_msg UPGRADE_REP (Some [3, 4])) demo_excl = Inl e"
proof (rule upgrade_of_lost_line_fails [of _ _ _ _ 1])
  show "getCacheState stack_env 1 (msg_address (stack_msg UPGRADE_REP (Some [3, 4]))) demo_excl = Inr INVALID" by code_simp
  show "msg_type (stack_msg UPGRADE_REP (Some [3, 4])) = UPGRADE_REP" by (simp add: stack_msg_def ShmemMsg_def)
qed (rule demo_excl_ok)

lemma getCacheState_cong: "cache_of env cid st' = cache_of env cid st \<Longrightarrow> getCacheState env cid a st' = getCacheState env cid a st"
  unfolding getCacheState_def getCacheBlockInfo_def ptr_state_def block_of_def by (simp only:)

lemma request_directory_sends:
  assumes "request_directory env cid ty a k st = Inr st'"
  shows "waiters_of env cid a st' = waiters_of env cid a st \<and>
    (\<exists>home r u. getHome (ev_home env) a = Inr home \<and> st_out st' = st_out st @ [(home, r, u)] \<and> msg_address r = a \<and> msg_type r = ty)"
proof -
  from assms obtain home where h: "getHome (ev_home env) a = Inr home"
      "cc_sendMsg env cid ty (cc_core_master (ev_cntlr env cid)) home a None 0 (Some k) USER_THREAD st = Inr st'"
    by (auto simp: request_directory_def bindE_Inr_iff)
  from cc_sendMsg_Inr [OF h(2)] h(1) show ?thesis by (auto simp: waiters_of_def master_of_def ShmemMsg_def)
qed

lemma setCacheState_waiters:
  "setCacheState env cid a z st = Inr (p, st') \<Longrightarrow> waiters_of env cid a st' = waiters_of env cid a st \<and> st_out st' = st_out st"
  by (auto simp: setCacheState_def bindE_Inr_iff set_cstate_def set_block_def set_cache_def set_master_def waiters_of_def
      master_of_def split: option.splits)

lemma asks_directory:
  assumes "(if op \<noteq> MEM_READ then bindE (getCacheState env cid a st) (\<lambda>s.
       if s = SHARED then processUpgradeReqToDirectory env cid a k st else processExReqToDirectory env cid a st)
     else processShReqToDirectory env cid a st) = Inr st'"
    "getCacheState env cid a st = Inr s"
  shows "waiters_of env cid a st' = waiters_of env cid a st \<and>
    (\<exists>home r u. getHome (ev_home env) a = Inr home \<and> st_out st' = st_out st @ [(home, r, u)] \<and> msg_address r = a \<and>
       msg_type r = (if op = MEM_READ then SH_REQ else if s = SHARED then UPGRADE_REQ else EX_REQ))"
proof -
  let ?ty = "if op = MEM_READ then SH_REQ else if s = SHARED then UPGRADE_REQ else EX_REQ"
  have "\<exists>k s3. request_directory env cid ?ty a k s3 = Inr st' \<and> waiters_of env cid a s3 = waiters_of env cid a st \<and> st_out s3 = st_out st"
  proof (cases "op \<noteq> MEM_READ \<and> s = SHARED")
    case True
    with assms obtain p s3 where u: "setCacheState env cid a SHARED_UPGRADING st = Inr (p, s3)"
        "request_directory env cid UPGRADE_REQ a k s3 = Inr st'"
      by (auto simp: processUpgradeReqToDirectory_def bindE_Inr_iff)
    from setCacheState_waiters [OF u(1)] u(2) True show ?thesis by auto
  next
    case False
    with assms have "\<exists>k. request_directory env cid ?ty a k st = Inr st'"
      by (cases "op = MEM_READ") (auto simp: processShReqToDirectory_def processExReqToDirectory_def bindE_Inr_iff)
    then show ?thesis by blast
  qed
  then obtain k s3 where "request_directory env cid ?ty a k s3 = Inr st'" "waiters_of env cid a s3 = waiters_of env cid a st" "st_out s3 = st_out st"
    by blast
  with request_directory_sends [OF this(1)] show ?thesis by simp
qed

text \<open>C19. A miss in the last level makes its thread the last to wait for the line; only if nobody waited before, one message goes
  to the line's home: a shared, an upgrade or an exclusive request, as the operation and the state of the line demand.\<close>

theorem first_waiter_asks_directory:
  assumes "initiateDirectoryAccess env cid op a pf t st = Inr st'" "getCacheState env cid a st = Inr s"
  shows "waiters_of env cid a st' = waiters_of env cid a st @
      [\<lparr>wt_exclusive = (op \<noteq> MEM_READ), wt_isPrefetch = pf, wt_cntlr = cid, wt_t_issue = t\<rparr>] \<and>
    (if waiters_of env cid a st = []
     then \<exists>home r u. getHome (ev_home env) a = Inr home \<and> st_out st' = st_out st @ [(home, r, u)] \<and> msg_address r = a \<and>
       msg_type r = (if op = MEM_READ then SH_REQ else if s = SHARED then UPGRADE_REQ else EX_REQ)
     else st_out st' = st_out st)"
proof -
  define w where "w = \<lparr>wt_exclusive = (op \<noteq> MEM_READ), wt_isPrefetch = pf, wt_cntlr = cid, wt_t_issue = t\<rparr>"
  define s1 where "s1 = enqueue_waiter env cid a w st"
  define s2 where "s2 = s1\<lparr>st_perf := (st_perf s1)(cc_perf (ev_cntlr env cid) :=
      perf_reset (elapsed env cid USER_THREAD s1) (st_perf s1 (cc_perf (ev_cntlr env cid))))\<rparr>"
  have q: "waiters_of env cid a s1 = waiters_of env cid a st @ [w]" "st_out s1 = st_out st"
    by (simp_all add: s1_def waiters_of_def enqueue_waiter_def Let_def set_master_def master_of_def q_enqueue_def)
  have "cache_of env cid s2 = cache_of env cid st"
    by (simp add: s2_def s1_def enqueue_waiter_def Let_def set_master_def master_of_def cache_of_def)
  from getCacheState_cong [OF this] assms(2) have cs: "getCacheState env cid a s2 = Inr s" by simp
  have "waiters_of env cid a s2 = waiters_of env cid a s1" "st_out s2 = st_out s1"
    by (simp_all add: s2_def waiters_of_def master_of_def)
  note s2 = this cs
  have size: "q_size a (mc_waiters (master_of env cid s1)) = 1 \<longleftrightarrow> waiters_of env cid a st = []"
    using q(1) by (auto simp: q_size_def waiters_of_def)
  show ?thesis
  proof (cases "waiters_of env cid a st = []")
    case False
    with assms(1) size have "st' = s1" by (simp add: initiateDirectoryAccess_def Let_def s1_def w_def)
    with q False show ?thesis by (simp add: w_def)
  next
    case True
    with assms(1) size have "(if op \<noteq> MEM_READ then bindE (getCacheState env cid a s2) (\<lambda>s.
         if s = SHARED then processUpgradeReqToDirectory env cid a (cc_perf (ev_cntlr env cid)) s2 else processExReqToDirectory env cid a s2)
       else processShReqToDirectory env cid a s2) = Inr st'"
      by (simp add: initiateDirectoryAccess_def Let_def s1_def w_def s2_def cong: if_cong)
    from asks_directory [OF this cs] q s2(1,2) True show ?thesis by (simp add: w_def)
  qed
qed

definition demo_miss :: "cc_state res" where
  "demo_miss = initiateDirectoryAccess stack_env 3 MEM_WRITE 10 False 100 demo_top"

lemma demo_miss_returns: "\<not> isl demo_miss"
  by code_simp

theorem first_waiter_asks_directory_witness:
  "\<exists>st home r t. demo_miss = Inr st \<and> st_out st = [(home, r, t)] \<and> msg_type r = UPGRADE_REQ \<and> length (waiters_of stack_env 3 10 st) = 1"
proof -
  obtain st where st: "demo_miss = Inr st" using not_isl_Inr [OF demo_miss_returns] by blast
  have s: "getCacheState stack_env 3 10 demo_top = Inr SHARED" by code_simp
  have n: "waiters_of stack_env 3 10 demo_top = []" "st_out demo_top = []"
    by (simp_all add: waiters_of_def master_of_def demo_top_def demo_stack_def CacheMasterCntlr_def)
  from first_waiter_asks_directory [OF st [unfolded demo_miss_def] s] n st show ?thesis by auto
qed

subsection \<open>Perfect caches\<close>


definition perfect_env :: cc_env where
  "perfect_env = stack_env\<lparr>ev_cntlr := \<lambda>cid. (demo_cntlr cid)\<lparr>cc_perfect := True\<rparr>\<rparr>"


subsection \<open>Bounds\<close>

text \<open>The addresses a prefetch would bring in.\<close>

definition not_here :: "cc_env \<Rightarrow> nat \<Rightarrow> addr \<Rightarrow> cc_state \<Rightarrow> bool" where
  "not_here env cid a st \<longleftrightarrow> (case operationPermissibleinCache env cid a MEM_READ st of Inr (ok, _) \<Rightarrow> \<not> ok | Inl _ \<Rightarrow> True)"

lemma queue_prefetches_from:
  assumes "queue_prefetches env cid as q st = Inr q'" "length q \<le> Suc PREFETCH_MAX_QUEUE_LENGTH"
  shows "q' = take (Suc PREFETCH_MAX_QUEUE_LENGTH) (q @ filter (\<lambda>a. not_here env cid a st) as)"
  using assms
proof (induction as arbitrary: q)
  case (Cons a as)
  show ?case
  proof (cases "length q > PREFETCH_MAX_QUEUE_LENGTH")
    case True
    with Cons.prems show ?thesis by simp
  next
    case False
    with Cons.prems(1) obtain ok p where p: "operationPermissibleinCache env cid a MEM_READ st = Inr (ok, p)"
        "queue_prefetches env cid as (if ok then q else q @ [a]) st = Inr q'"
      by (auto simp: bindE_Inr_iff)
    from Cons.IH [OF p(2)] False p(1) show ?thesis by (cases ok) (simp_all add: not_here_def)
  qed
qed simp

text \<open>C21. The queue of prefetches a training leaves holds the first 33 of the prefetcher's addresses that are not in the cache:
  one more than PREFETCH_MAX_QUEUE_LENGTH.\<close>

theorem prefetch_queue_holds_33:
  assumes "queue_prefetches env cid as [] st = Inr q"
  shows "q = take 33 (filter (\<lambda>a. not_here env cid a st) as)"
  using queue_prefetches_from [OF assms] by (simp add: PREFETCH_MAX_QUEUE_LENGTH_def)

definition demo_queue :: "addr list res" where
  "demo_queue = queue_prefetches stack_env 0 (replicate 40 8) [] demo_top"

lemma demo_peek_8: "operationPermissibleinCache stack_env 0 8 MEM_READ demo_top = Inr (False, None)"
  by code_simp

lemma queue_prefetches_same:
  "operationPermissibleinCache env cid a MEM_READ st = Inr (False, p) \<Longrightarrow> \<exists>q'. queue_prefetches env cid (replicate n a) q st = Inr q'"
  by (induction n arbitrary: q) simp_all

theorem prefetch_queue_holds_33_witness:
  "\<exists>q. demo_queue = Inr q \<and> length q = 33"
proof -
  obtain q where q: "demo_queue = Inr q"
    unfolding demo_queue_def using queue_prefetches_same [OF demo_peek_8] by blast
  from prefetch_queue_holds_33 [OF q [unfolded demo_queue_def]] have "length q = 33"
    by (simp add: not_here_def demo_peek_8)
  with q show ?thesis by blast
qed

text \<open>At most eight outstanding misses are remembered.\<close>

lemma cleanup_loop_length: "cleanup_loop n m = Inr m' \<Longrightarrow> length m' \<le> 8 \<and> set m' \<subseteq> set m"
proof (induction n arbitrary: m)
  case (Suc n)
  show ?case
  proof (cases "length m > 8")
    case True
    with Suc.prems have "cleanup_loop n (filter (\<lambda>(b, _). b \<noteq> mshr_min m) m) = Inr m'" by (simp add: Let_def split: if_splits)
    from Suc.IH [OF this] show ?thesis by auto
  qed (use Suc.prems in simp)
qed (simp split: if_splits)

theorem outstanding_misses_bounded:
  "cleanupMshr env cid st = Inr st' \<Longrightarrow> length (mc_mshr (master_of env cid st')) \<le> 8"
  by (auto simp: cleanupMshr_def bindE_Inr_iff Let_def master_of_def set_master_def dest: cleanup_loop_length)

subsection \<open>The depth of the calls between levels\<close>

lemma snoop_cong: "(\<And>p. p \<in> set ps \<Longrightarrow> f p = g p) \<Longrightarrow> snoop f ps l s st = snoop g ps l s st"
  by (induction ps arbitrary: l s st) simp_all

lemma updateCacheBlock_depth:
  assumes "\<And>c p. p \<in> set (prev_of env c) \<Longrightarrow> r p < r c"
  shows "r cid < n \<Longrightarrow> r cid < m \<Longrightarrow> updateCacheBlock n env cid a new ob st = updateCacheBlock m env cid a new ob st"
proof (induction n arbitrary: m cid ob st)
  case (Suc n)
  then obtain k where m: "m = Suc k" by (cases m) auto
  have "snoop (\<lambda>p. updateCacheBlock n env p a new None) (prev_of env cid) 0 False st =
      snoop (\<lambda>p. updateCacheBlock k env p a new None) (prev_of env cid) 0 False st"
  proof (rule snoop_cong, rule ext)
    fix p st assume "p \<in> set (prev_of env cid)"
    from assms [OF this] Suc.prems m show "updateCacheBlock n env p a new None st = updateCacheBlock k env p a new None st"
      by (intro Suc.IH) simp_all
  qed
  then show ?case by (simp add: m)
qed simp

lemma writeCacheBlock_depth:
  assumes "\<And>c nx. cc_next (ev_cntlr env c) = Some nx \<Longrightarrow> h nx < h c"
  shows "h cid < n \<Longrightarrow> h cid < m \<Longrightarrow> writeCacheBlock n env cid a off data len st = writeCacheBlock m env cid a off data len st"
proof (induction n arbitrary: m cid st)
  case (Suc n)
  then obtain k where m: "m = Suc k" by (cases m) auto
  have "writeCacheBlock n env nx a off data len s = writeCacheBlock k env nx a off data len s" if "cc_next (ev_cntlr env cid) = Some nx" for nx s
    using assms [OF that] Suc.prems m by (intro Suc.IH) simp_all
  then show ?case by (simp add: m cong: option.case_cong if_cong)
qed simp

lemma request_depth:
  assumes "\<And>c nx. cc_next (ev_cntlr env c) = Some nx \<Longrightarrow> h nx < h c"
  shows "h cid < n \<Longrightarrow> h cid < m \<Longrightarrow> processShmemReqFromPrevCache n env cid rq op a modeled counted pf t st =
    processShmemReqFromPrevCache m env cid rq op a modeled counted pf t st"
proof (induction n arbitrary: m cid rq pf st)
  case (Suc n)
  then obtain k where m: "m = Suc k" by (cases m) auto
  let ?ask = "\<lambda>n nx pf st. processShmemReqFromPrevCache n env nx cid op a modeled counted pf t st"
  have ask: "?ask n nx pf s = ?ask k nx pf s" if "cc_next (ev_cntlr env cid) = Some nx" for nx pf s
    using assms [OF that] Suc.prems m by (intro Suc.IH) simp_all
  then have "serve_miss (?ask n) env cid rq op a modeled pf t info s = serve_miss (?ask k) env cid rq op a modeled pf t info s" for info s
    by (simp add: serve_miss_def miss_to_next_def cong: option.case_cong)
  then show ?case by (simp only: m processShmemReqFromPrevCache.simps)
qed simp


definition demo_level :: "nat \<Rightarrow> nat" where
  "demo_level c = (if c < 2 then 0 else if c = 2 then 1 else 2)"


end
