(* ===== verification/Spec2Isabelle.thy ===== *)
theory Spec2Isabelle
  imports Tlb_Lru Queue_Props Branch_Props Nuca Directory_Cntlr_Reach Region_Props Thread_Props Prefetch_Props Cache_Request_Props
begin

text \<open>
  A model of the Sniper multi-core simulator (version 5.2, in eecs583-pjct/sniper-5.2) as this repository has it, with
  its additions for atomic regions of instructions ("block chop"). The simulator runs the threads of a program on
  simulated cores: a core model charges time for each instruction, memory accesses go through caches that a
  tag directory keeps coherent, and the synchronization of the program's threads is simulated on the
  side. File names below are relative to common/.

  Parts, and the theories that model them:

  \<^item> Prelude: types (machine words for the C++ integers, 64-bit femtoseconds for time), errors as values
    (\<open>sim_error\<close>: assertions, logged errors, null pointers, indexes out of range, loops that do not return), the error
    monad \<open>bindE\<close>, list lemmas. Sim_Utils: misc/utils, rng. Sim_Time: misc/subsecond_time.h. Moving_Average:
    misc/moving_average.h.
  \<^item> Caches: Cache_Base (core/memory_subsystem/cache/cache_base.cc, address_home_lookup.cc), Cache_Block (the block
    info classes), Replacement, Replacement_Policies, Replacement_Pointer (cache_set_*.cc: the eight policies),
    Cache_Set (cache_set.cc), Cache_Model (cache.cc), Fault_Injection, Tlb. Properties: Replacement_Props, Cache_Set_Props,
    Cache_Set_LRU, Cache_Props, Cache_Store, Tlb_Lru.
  \<^item> Coherence: Directory_Store (directory_schemes, dram_directory_cache.cc), Directory_Cntlr
    (pr_l1_pr_l2_dram_directory_msi/dram_directory_cntlr.cc: every message handler), Shmem (messages, requests, queues
    by address, latency breakdown), Nuca (nuca_cache.cc). Properties: Directory_Store_Props, Directory_Map,
    Directory_Cntlr_Fuel, Directory_Cntlr_Inv, Directory_Cntlr_Reach.
  \<^item> Cache controllers (parametric_dram_directory_msi/cache_cntlr.cc): Cache_Stack (the levels with their masters and shared
    caches as one state, \<open>cc_state\<close>; time, counters, data, messages), Cache_Update (updates of the previous levels,
    insertions, evictions), Cache_Request (waiting threads, requests to the directory, prefetching, MSHRs), Cache_Levels
    (requests between levels and accesses of the core), Cache_Messages (every message of the directory). A level is a number; what is fixed
    at construction (neighbours, sizes, timing) is the environment \<open>cc_env\<close>, what changes is the state. A thread that waits for
    the directory, or wakes one that waits, calls a parameter for what the others do meanwhile. Properties: Cache_Stack_Inv,
    Cache_Update_Inv, Cache_Cntlr_Inv, Cache_Insert_Inv, Cache_Stack_Type, Cache_Cntlr_Props, Cache_Request_Props.
  \<^item> Beside the caches: Prefetchers (simple_prefetcher.cc, ghb_prefetcher.cc), Cache_Atd (cache_atd.cc) with
    Prefetch_Props; Dram (dram_cntlr.cc, dram/dram_cache.cc, the three DRAM performance models) with Dram_Props.
  \<^item> Contention: Queue_Models and Queue_Props (performance_model/queue_model*.cc, contention_model.cc).
  \<^item> Cores: Branch_Predictors, Branch_Props; Perf_Instr, Perf_Model (performance_model.cc, instruction.cc), Perf_Cores (the
    simple, magic, one-IPC and in-order models), Iterate (the loop over basic blocks). Regions: Squash
    (core_manager.cc's conflict check, squash actions and handlers), Commit (commitAtomicRegion). Properties:
    Perf_Props, Commit_Props, Iterate_Props, Region_Props.
  \<^item> Threads: Sync_State (the threads and the shared state), Sync_Server (system/sync_server.cc), Futex
    (system/syscall_server.cc), Thread_Manager (system/thread_manager.cc, core/thread.cc). Properties: Sync_Inv,
    Sync_Steps, Sync_Reach, Sync_Fifo, Sync_Props, Thread_Props.

  How the state corresponds: a C++ object is a record with the names of its members, objects that point to each
  other are maps from the key that stands for the pointer, lists that are updated in place are lists, and an
  operation takes the state and returns it changed, with \<open>Inl\<close> an error where the code asserts, logs an error or leaves
  the defined behaviour of C++. A call that goes to another component is a call of that component's
  definition; what comes from outside (floating-point formulas, the memory behind a core model, the other cores
  at the time of a commit, host addresses, callbacks) is an argument.

  What the lemmas show: replacement policies pick valid victims, and LRU and TLBs are the lists of their textbook
  descriptions; insertion and invalidation change the set of lines by what they should; the directory's states fit its
  sharers in every reachable state, its recursion returns within the fuel that the queued requests bound, and its cache is
  a map; a request of the directory leaves no copy of the line in the caches, insertions and updates keep the caches of a stack
  inclusive and well-formed, a first waiter asks the directory once; DRAM is a memory of lines; prefetchers return what they
  should within their bounds; queue models never serve two requests at once; commits of a region end and take the time they
  should, and regions conflict exactly when they overlap; threads wait in one queue each, mutexes are first-in-first-out,
  barriers release all.

  Locales state the interfaces: of replacement policies to sets, of queues, of core models to the loop over basic
  blocks (interpreted for the four core models), of relations between states of a stack of caches that every operation on a line
  keeps (Cache_Update_Inv, Cache_Cntlr_Inv, Cache_Stack_Type) and others; each is interpreted where its provider is modelled.

  Bounds and fuel: the recursion of the directory controller takes fuel, and Directory_Cntlr_Fuel proves that one
  more than the number of queued requests is enough. Calls between levels of a stack of caches take as much fuel as there are levels,
  which is enough for any stack without cycles (levels_bound_recursion in Cache_Request_Props); the waiting
  threads that a reply wakes are served in as many rounds as an argument says. The loops that might not end (the round-robin scan, the loop over
  basic blocks, the requeueing of futexes) are partial functions, with theorems on when they return.

  Not modelled: of the cache controllers, statistics, host locks, and the tracking of transitions and sharers that is compiled
  out; the network, the interval
  core model and the micro-operation decoder (which reads an external library), schedulers, the clock-skew barrier,
  traces, statistics, configuration and start-up, bindings and instrumentation. Host
  concurrency is not modelled: operations under the thread lock, and messages to the directory, are atomic steps.
\<close>

subsection \<open>Concrete instances for the witnesses\<close>

definition demo_env :: cache_env where
  "demo_env = \<lparr>env_fault = False, env_srrip_bits = 2, env_seed = (\<lambda>k. 42)\<rparr>"

lemma floorLog2_demo: "floorLog2 2 = 1" "floorLog2 4096 = 12"
  using floorLog2_page by (simp_all add: floorLog2_def [of 2] SIM_PAGE_SIZE_def)

text \<open>A TLB of 16 KB of pages: two sets of two entries.\<close>

definition demo_base :: cache_base where
  "demo_base = \<lparr>cb_name = ''tlb_cache'', m_cache_size = 16384, m_associativity = 2, m_blocksize = 4096,
     m_hash = HASH_MASK, m_num_sets = 2, m_ahl = None, m_log_blocksize = 12\<rparr>"

lemma demo_base_eq: "CacheBase ''tlb_cache'' 16 2 4096 HASH_MASK None = Inr demo_base"
  by (simp add: CacheBase_def demo_base_def k_KILO_def Let_def floorLog2_demo)

lemma demo_tlb: "\<exists>t. TLB demo_env ''tlb'' 16 2 = Inr t \<and> m_num_sets (c_base (tlb_cache t)) = 2"
  by (simp add: TLB_def Cache_def SIM_PAGE_SIZE_def demo_base_eq demo_base_def createCacheSet_def
      parsePolicyType_def CacheSet_def demo_env_def upt_rec)

lemma demo_tlb_ok:
  "\<exists>t. TLB demo_env ''tlb'' 16 2 = Inr t \<and> tlb_ok t \<and> tlb_ready t \<and> cache_wf (tlb_cache t) \<and>
     cache_unique (tlb_cache t) \<and> tlb_pages t = {}"
proof -
  obtain t where t: "TLB demo_env ''tlb'' 16 2 = Inr t" "m_num_sets (c_base (tlb_cache t)) = 2"
    using demo_tlb by blast
  have "\<not> env_fault demo_env" by (simp add: demo_env_def)
  with TLB_ok [OF t(1)] TLB_ready [OF t(1)] t show ?thesis by (auto simp: tlb_ok_def)
qed

text \<open>Its cache: empty, and an insertion of the page of any address succeeds.\<close>

lemma demo_cache:
  "\<exists>c e ea evb buf c'. cache_wf c \<and> cache_unique c \<and> cache_lines c = {} \<and> blk_tag c = page \<and>
     insertSingleLine a None (CacheBlockInfo BaseBlock (-1) INVALID 0) False c = Inr (e, ea, evb, buf, c')"
proof -
  obtain t where t: "tlb_ok t" "cache_wf (tlb_cache t)" "cache_unique (tlb_cache t)" "tlb_pages t = {}"
    using demo_tlb_ok by blast
  obtain e c' where "tag_fill a (tlb_cache t) = Inr (e, c')" by (rule tlb_fill_live [OF t(1), of a])
  then obtain ev ea evb buf where
    "insertSingleLine a None (CacheBlockInfo BaseBlock (-1) INVALID 0) False (tlb_cache t) = Inr (ev, ea, evb, buf, c')"
    unfolding tag_fill_of by blast
  with t tlb_ok_page [OF t(1)] show ?thesis unfolding tlb_pages_def by blast
qed

lemma demo_access:
  "\<exists>c p x c'. cache_wf c \<and> cache_lines c = {} \<and> accessSingleLine a LOAD None 0 True c = Inr (p, x, c')"
proof -
  obtain t where t: "tlb_ok t" "cache_wf (tlb_cache t)" "tlb_pages t = {}" using demo_tlb_ok by blast
  obtain p x where "accessSingleLine a LOAD None 0 True (tlb_cache t) = Inr (p, x)" by (rule tlb_access_live [OF t(1), of a])
  with t(2,3) show ?thesis unfolding tlb_pages_def by (cases x) blast
qed

subsection \<open>TLBs and caches\<close>

text \<open>C32. A TLB that starts well-formed and runs any sequence of page lookups with allocation on a
  miss answers exactly as one least-recently-used list of pages per set does: the 8-bit LRU
  counters, the tags and the search order of the ways implement true LRU, and no lookup fails.\<close>

theorem tlb_refines_lru_lists:
  assumes "tlb_ready t"
  shows "\<exists>t'. tlb_run as t = Inr (lru_run (unat (m_associativity (c_base (tlb_cache t))))
      (home (c_base (tlb_cache t))) as (set_order (tlb_cache t)), t') \<and> tlb_ready t'"
  using assms by (rule tlb_run_refines)

theorem tlb_refines_lru_lists_witness:
  "\<exists>t t' hits. TLB demo_env ''tlb'' 16 2 = Inr t \<and> tlb_run [0x1000, 0x3000, 0x1040] t = Inr (hits, t') \<and> tlb_ready t'"
  using demo_tlb_ok tlb_refines_lru_lists [of _ "[0x1000, 0x3000, 0x1040]"] by metis

text \<open>C33. A chain of TLB levels answers a lookup with a hit exactly when some level holds the page,
  and never fails; with allocation on a miss the page is in the first level afterwards, no page
  appears out of nowhere, and the levels together lose at most one page.\<close>

theorem tlb_chain_lookup:
  assumes "list_all tlb_ok ts" and "ts \<noteq> []"
  shows "\<exists>ts'. tlb_lookup a alloc ts = Inr (page a \<in> pages ts, ts') \<and> list_all tlb_ok ts' \<and> length ts' = length ts \<and>
    (if alloc then page a \<in> tlb_pages (hd ts') \<and> pages ts' \<subseteq> insert (page a) (pages ts) \<and>
        pages (butlast ts) \<subseteq> pages ts' \<and> (\<exists>x. pages ts \<subseteq> insert x (pages ts'))
      else map tlb_pages ts' = map tlb_pages ts)"
  using tlb_lookup_spec [OF assms] by (simp add: lookup_post_def)

theorem tlb_chain_lookup_witness:
  "\<exists>t ts'. TLB demo_env ''tlb'' 16 2 = Inr t \<and> tlb_lookup 0x1000 True [t, t] = Inr (False, ts') \<and>
     page 0x1000 \<in> tlb_pages (hd ts')"
proof -
  obtain t where t: "TLB demo_env ''tlb'' 16 2 = Inr t" "tlb_ok t" "tlb_pages t = {}"
    using demo_tlb_ok by blast
  then show ?thesis
    using tlb_chain_lookup [of "[t, t]" "0x1000" True] by (auto simp: pages_def simp del: tlb_lookup.simps)
qed

text \<open>C36. Inserting a line that is not there, under any policy and hash: the cache stays well-formed with
  no tag held twice, the line is there afterwards, and exactly the line handed back as evicted is
  gone.\<close>

theorem insert_adds_one_line:
  assumes "cache_wf c" and "cache_unique c" and "blk_tag c a \<notin> cache_lines c"
    and "insertSingleLine a fill evb want c = Inr (ev, ea, evb', buf, c')"
  shows "cache_wf c' \<and> cache_unique c' \<and>
    cache_lines c' = insert (blk_tag c a) (cache_lines c - (if ev then {blk_tag c ea} else {})) \<and>
    (ev \<longrightarrow> blk_tag c ea \<in> cache_lines c)"
  using insertSingleLine_wf [OF assms(1,4)] insertSingleLine_unique [OF assms(1,2,4,3)] by auto

theorem insert_adds_one_line_witness:
  "\<exists>c e ea evb buf c'. insertSingleLine 0x1000 None (CacheBlockInfo BaseBlock (-1) INVALID 0) False c = Inr (e, ea, evb, buf, c') \<and>
     cache_lines c' = {1}"
proof -
  obtain c e ea evb buf c' where c: "cache_wf c" "cache_unique c" "cache_lines c = {}" "blk_tag c = page"
    "insertSingleLine 0x1000 None (CacheBlockInfo BaseBlock (-1) INVALID 0) False c = Inr (e, ea, evb, buf, c')"
    using demo_cache by blast
  have "page 0x1000 = 1" by (simp add: page_def)
  with insert_adds_one_line [OF c(1,2) _ c(5)] c(3,4) have "cache_lines c' = {1}" by auto
  with c(5) show ?thesis by blast
qed

text \<open>An access to a line, load or store, hits exactly when the line is in the cache and leaves the
  set of lines as it was.\<close>

theorem access_hits_present_lines:
  assumes "cache_wf c" and "accessSingleLine a ty buff bytes upd c = Inr (p, out, c')"
  shows "(p \<noteq> None \<longleftrightarrow> blk_tag c a \<in> cache_lines c) \<and> cache_wf c' \<and> cache_lines c' = cache_lines c"
  using accessSingleLine_spec [OF assms] by simp

theorem access_hits_present_lines_witness:
  "\<exists>c out c'. accessSingleLine 0x1000 LOAD None 0 True c = Inr (None, out, c') \<and> cache_lines c' = {}"
  using demo_access [of "0x1000"] access_hits_present_lines by (metis empty_iff)

text \<open>Invalidating a line never fails, reports whether the line was there and removes exactly it.\<close>

theorem invalidate_removes_line:
  assumes "cache_wf c" and "cache_unique c"
  shows "\<exists>c'. invalidateSingleLine a c = Inr (blk_tag c a \<in> cache_lines c, c') \<and> cache_wf c' \<and> cache_unique c' \<and>
    cache_lines c' = cache_lines c - {blk_tag c a}"
  using invalidateSingleLine_spec [OF assms(1), of a] assms(2) by auto

theorem invalidate_removes_line_witness: "\<exists>c c'. invalidateSingleLine 0x1000 c = Inr (False, c') \<and> cache_lines c' = {}"
  using demo_cache [of "0x1000"] invalidate_removes_line [of _ "0x1000"] by fastforce

text \<open>Every replacement policy but round robin, in a well-formed state and with no line in the
  middle of an upgrade, returns a way of the set and stays well-formed, and takes an invalid way
  while there is one.\<close>

theorem policies_pick_victims:
  assumes "repl_ok (length bs) r" and "\<not> is_rr r" and "all_replaceable bs"
  shows "\<exists>i r'. getReplacementIndex bs r = Inr (i, r') \<and> i < length bs \<and> repl_ok (length bs) r' \<and>
    (isValid (bs ! i) \<longrightarrow> all_valid bs)"
proof -
  have ok: "repl_step_ok (length bs) (None, r)" using assms(1,2) by (simp add: repl_step_ok_def)
  from repl.victim_obtains [OF this assms(3)] obtain i r' where v: "repl_victim bs (None, r) = Inr (i, None, r')"
    "i < length bs" "repl_step_ok (length bs) (None, r')"
    by (auto simp: repl_victim_def bindE_Inr_iff)
  from repl.no_early_eviction [OF ok v(1)] v show ?thesis
    by (auto simp: repl_victim_def bindE_Inr_iff repl_step_ok_def)
qed

theorem policies_pick_victims_witness:
  "\<exists>i r'. getReplacementIndex [CacheBlockInfo BaseBlock 1 MODIFIED 0, CacheBlockInfo BaseBlock 2 SHARED 0] (Lru [0, 1]) = Inr (i, r') \<and> i < 2"
  using policies_pick_victims [of "[CacheBlockInfo BaseBlock 1 MODIFIED 0, CacheBlockInfo BaseBlock 2 SHARED 0]" "Lru [0, 1]"]
  by (auto simp: stack_ok_def all_replaceable_def CacheBlockInfo_def)



text \<open>Inserting a line into a set with the LRU policy puts it in front of the lines in order of last
  use and drops the last one exactly when the set was full, which is then the evicted one.\<close>

theorem lru_set_insert:
  assumes "set_ok n s" and "cs_repl s = Lru bits" and "all_replaceable (cs_blocks s)" and "isValid b"
    and "set_insert b fill evb want s = Inr (ev, evb', buf, s')"
  shows "lru_order s' = take n (m_tag b # lru_order s) \<and> (ev \<longleftrightarrow> length (lru_order s) = n) \<and>
    (ev \<longrightarrow> m_tag evb' = last (lru_order s))"
  using lru_order_insert [OF assms(1,2,3,5,4)] .

definition demo_set :: cache_set where
  "demo_set = \<lparr>cs_blocks = [CacheBlockInfo BaseBlock 5 SHARED 0, CacheBlockInfo BaseBlock 7 SHARED 0], cs_data = None,
     cs_blocksize = 64, cs_repl = Lru [0, 1]\<rparr>"

lemma demo_set_ok: "set_ok 2 demo_set"
  by (simp add: set_ok_def set_wf_def stack_ok_def tags_unique_def demo_set_def CacheBlockInfo_def
      All_less_Suc numeral_2_eq_2)

theorem lru_set_insert_witness:
  "\<exists>evb buf s'. set_insert (CacheBlockInfo BaseBlock 9 SHARED 0) None (CacheBlockInfo BaseBlock (-1) INVALID 0) False demo_set =
     Inr (True, evb, buf, s') \<and> lru_order s' = [9, 5]"
proof -
  let ?b = "CacheBlockInfo BaseBlock 9 SHARED 0"
  have r: "cs_repl demo_set = Lru [0, 1]" "all_replaceable (cs_blocks demo_set)" "isValid ?b" "cs_data demo_set = None"
    by (simp_all add: demo_set_def all_replaceable_def isValid_def CacheBlockInfo_def)
  obtain ev evb s' where i: "set_insert ?b None (CacheBlockInfo BaseBlock (-1) INVALID 0) False demo_set = Inr (ev, evb, None, s')"
    using lru_insert_live [of 2 demo_set ?b None "CacheBlockInfo BaseBlock (-1) INVALID 0" False] demo_set_ok r set_ok_wf by fastforce
  have "lru_order demo_set = [5, 7]"
    by (simp add: lru_order_def demo_set_def recency_def CacheBlockInfo_def isValid_def upt_rec)
  with lru_set_insert [OF demo_set_ok r(1,2,3) i] i show ?thesis
    by (simp add: numeral_2_eq_2) (simp add: CacheBlockInfo_def)
qed

text \<open>A line written through the data array reads back as written, and no other line of the set
  changes, for any offset and length within the block.\<close>

theorem line_data_roundtrip:
  assumes "cs_data s = Some m" and "write_line i off (Some xs) n upd (info, s) = Inr (info', s')"
    and "read_line j off' True k upd' (info', s') = Inr (out, info'', s'')"
  shows "(j = i \<and> off' = off \<and> k = n \<longrightarrow> out = Some (take n xs)) \<and>
    (j \<noteq> i \<and> off + n \<le> cs_blocksize s \<and> off' + k \<le> cs_blocksize s \<longrightarrow>
      map_option Inr out = Some (mem_read m (j * cs_blocksize s + off') k))"
  using read_after_write [OF assms(2,1,3)] by metis

theorem line_data_roundtrip_witness:
  "\<exists>info s'. write_line 1 1 (Some [7]) 1 False (None, demo_set\<lparr>cs_data := Some (replicate 4 0), cs_blocksize := 2\<rparr>) = Inr (info, s') \<and>
     (\<forall>out st. read_line 1 1 True 1 False (info, s') = Inr (out, st) \<longrightarrow> out = Some [7])"
proof -
  let ?s = "demo_set\<lparr>cs_data := Some (replicate 4 0), cs_blocksize := 2\<rparr>"
  have "\<exists>x. write_line 1 1 (Some [7]) 1 False (None, ?s) = Inr x"
    by (simp add: write_line_def mem_write_def)
  then obtain info s' where w: "write_line 1 1 (Some [7]) 1 False (None, ?s) = Inr (info, s')" by auto
  have "out = Some [7]" if "read_line 1 1 True 1 False (info, s') = Inr (out, st)" for out st
    using line_data_roundtrip [OF _ w, of "replicate 4 0" 1 1 1 False out] that by (cases st) simp
  with w show ?thesis by blast
qed

text \<open>Tree PLRU, associativity four or eight, never chooses the way that was used last.\<close>

theorem plru_protects_last_used:
  assumes "n = 4 \<or> n = 8" and "length b = 8" and "a < n" and "plru_updateReplacementIndex n a b = Inr b'"
  shows "plru_victim n b' \<noteq> Inr a"
  using assms by (intro plru_touch_protects [of n b]) (simp_all add: plru_ok_def)

theorem plru_protects_last_used_witness:
  "\<exists>b'. plru_updateReplacementIndex 4 2 (replicate 8 0) = Inr b' \<and> plru_victim 4 b' \<noteq> Inr 2"
  using plru_protects_last_used [of 4 "replicate 8 0" 2] by (simp add: plru_updateReplacementIndex_def)

text \<open>SRRIP takes an invalid way if there is one, and otherwise a way whose re-reference value was the
  largest of the set, which is replaceable; the values stay at most their maximum.\<close>

theorem srrip_picks_oldest:
  assumes "srrip_ok (length bs) s" and "srrip_getReplacementIndex bs s = Inr (i, s')"
  shows "srrip_ok (length bs) s' \<and> i < length bs \<and> (if all_valid bs
    then isValidReplacement bs i \<and> (\<forall>j<length bs. unat (rrip_bits s ! j) \<le> unat (rrip_bits s ! i))
    else first_free bs = Some i)"
proof (cases "all_valid bs")
  case True
  then have "first_free bs = None" by (simp add: first_free_None_iff)
  with True srrip_get_cases [OF assms] show ?thesis by simp
qed (use srrip_get_cases [OF assms] in simp)

theorem srrip_picks_oldest_witness:
  "\<exists>i s'. srrip_getReplacementIndex [CacheBlockInfo BaseBlock 1 MODIFIED 0, CacheBlockInfo BaseBlock (-1) INVALID 0]
     (srrip_init 2 2) = Inr (i, s') \<and> i = 1"
proof -
  let ?bs = "[CacheBlockInfo BaseBlock 1 MODIFIED 0, CacheBlockInfo BaseBlock (-1) INVALID 0]"
  have ok: "srrip_ok (length ?bs) (srrip_init 2 2)" using srrip_ok_init [of 2 2] by (simp flip: numeral_2_eq_2)
  have f: "first_free ?bs = Some 1" "\<not> all_valid ?bs"
    by (simp_all add: first_free_def all_valid_def isValid_def CacheBlockInfo_def)
  obtain i s' where r: "srrip_getReplacementIndex ?bs (srrip_init 2 2) = Inr (i, s')"
    by (simp add: srrip_getReplacementIndex_def f(1))
  from srrip_picks_oldest [OF ok r] f r show ?thesis by auto
qed

text \<open>The recursion of round robin returns exactly when some way of the set is replaceable, and then
  with a way of the set.\<close>

theorem rr_returns:
  assumes "r < length bs"
  shows "((\<exists>x. rr_getReplacementIndex bs r = Some x) \<longleftrightarrow> (\<exists>j<length bs. isValidReplacement bs j)) \<and>
    (\<forall>i r'. rr_getReplacementIndex bs r = Some (i, r') \<longrightarrow> i < length bs \<and> r' < length bs)"
  using rr_returns_iff [OF assms] rr_get_SomeD [of bs r] rr_prev_less assms by fastforce

theorem rr_returns_witness:
  "\<exists>x. rr_getReplacementIndex [CacheBlockInfo BaseBlock 1 SHARED_UPGRADING 0, CacheBlockInfo BaseBlock 2 SHARED 0] 1 = Some x"
  using rr_returns [of 1 "[CacheBlockInfo BaseBlock 1 SHARED_UPGRADING 0, CacheBlockInfo BaseBlock 2 SHARED 0]"]
  by (fastforce simp: isValidReplacement_def CacheBlockInfo_def)

subsection \<open>Time, averages and queues\<close>



text \<open>The list of free intervals never grows beyond its configured size.\<close>

theorem history_list_bounded:
  assumes "computeUsingHistoryList p d q = Inr (delay, q')"
  shows "length (qh_free q') \<le> qh_max_list_size q \<and> qh_max_list_size q' = qh_max_list_size q"
  using assms by (rule computeUsingHistoryList_length)

theorem history_list_bounded_witness:
  "\<exists>q' delay. computeUsingHistoryList 10 5 (QueueModelHistoryList 1 False 10) = Inr (delay, q') \<and> length (qh_free q') \<le> 10"
proof -
  obtain x where "computeUsingHistoryList 10 5 (QueueModelHistoryList 1 False 10) = Inr x"
    by (simp add: QueueModelHistoryList_def computeUsingHistoryList_def MaxTime_def)
  moreover obtain delay q' where "x = (delay, q')" by (cases x)
  ultimately show ?thesis
    using history_list_bounded [of 10 5 "QueueModelHistoryList 1 False 10" delay q'] by (auto simp: QueueModelHistoryList_def)
qed

text \<open>The windowed M/G/1 model keeps its running sums of service times equal to the sums over the
  requests of its window, the window sorted by time and free of the requests that fell out of it, and
  never charges more than one window length.\<close>

theorem mg1_window_sums:
  assumes "mg1_ok q" and "mg1_computeQueueDelay mg1 g p s q = (delay, q')"
  shows "mg1_ok q' \<and> delay \<le> qm_window_size q \<and> qm_window_size q' = qm_window_size q \<and>
    mset (qm_window q') = add_mset (p, s)
      (mset (filter (\<lambda>(t, _). max (g - qm_window_size q) (p - 10 * qm_window_size q) \<le> t) (qm_window q)))"
  using assms by (rule mg1_computeQueueDelay_spec)

theorem mg1_window_sums_witness:
  "\<exists>delay q'. mg1_computeQueueDelay (\<lambda>_ _ _ _. 0) 0 50 3 (QueueModelWindowedMG1 1000) = (delay, q') \<and> mg1_ok q' \<and>
     delay \<le> 1000 * NS_1"
proof -
  have ok: "mg1_ok (QueueModelWindowedMG1 1000)" by (simp add: mg1_ok_def QueueModelWindowedMG1_def)
  obtain delay q' where c: "mg1_computeQueueDelay (\<lambda>_ _ _ _. 0) 0 50 3 (QueueModelWindowedMG1 1000) = (delay, q')"
    by (cases "mg1_computeQueueDelay (\<lambda>_ _ _ _. 0) 0 50 3 (QueueModelWindowedMG1 1000)")
  from mg1_window_sums [OF ok c] c show ?thesis by (auto simp: QueueModelWindowedMG1_def TimeNS_def)
qed

subsection \<open>Branch prediction\<close>

text \<open>A loop branch that repeats n times in one direction and once in the other is learnt in its
  first pass through an empty predictor of the Pentium M's size: in every later pass every execution
  hits, and is predicted correctly, the exit included.\<close>

theorem loop_branch_learnt:
  assumes "0 < n" and "n < 2 ^ 32"
  shows "\<exists>first. length first = n + 1 \<and>
    fst (lpb_run ip (concat (replicate (Suc k) (replicate n b @ [\<not> b]))) (LoopBranchPredictor 128 2)) =
      first @ map (Pair True) (concat (replicate k (replicate n b @ [\<not> b])))"
  using assms by (rule lpb_learns_loop)

theorem loop_branch_learnt_witness:
  "\<exists>first. length first = 3 \<and> fst (lpb_run 0x40 [True, True, False, True, True, False] (LoopBranchPredictor 128 2)) =
     first @ [(True, True), (True, True), (True, False)]"
proof -
  have "concat (replicate (Suc 1) (replicate 2 True @ [\<not> True])) = [True, True, False, True, True, False]"
    and "concat (replicate 1 (replicate 2 True @ [\<not> True])) = [True, True, False]"
    and replicate_2: "replicate 2 x = [x, x]" for x :: "bool \<times> bool"
    by (simp_all add: numeral_2_eq_2)
  with loop_branch_learnt [of 2 "0x40" 1 True] show ?thesis
    by (simp add: replicate_2 del: lpb_run.simps)
qed

subsection \<open>Messages and the NUCA cache\<close>

text \<open>The latency breakdown of an access always adds up: after a reset, any sequence of updates by
  components and packets keeps the sum of the components equal to the time since the start.\<close>

theorem latency_breakdown_adds_up:
  "perf_accounted (fold (\<lambda>x. case x of Inl (t, r) \<Rightarrow> perf_updateTime t r | Inr (t, d) \<Rightarrow> perf_updatePacket t d) xs (perf_reset t p))"
proof -
  have "perf_accounted (fold (\<lambda>x. case x of Inl (t, r) \<Rightarrow> perf_updateTime t r | Inr (t, d) \<Rightarrow> perf_updatePacket t d) xs p)"
    if "perf_accounted p" for p
    using that by (induction xs arbitrary: p)
      (auto simp: perf_accounted_updateTime perf_accounted_updatePacket split: sum.splits)
  then show ?thesis using perf_accounted_reset by blast
qed

text \<open>A read of the NUCA cache reports a hit exactly for the lines it holds and keeps them.\<close>

theorem nuca_read_hits:
  assumes "cache_wf (nu_cache nu)" and "nuca_read qenv gt a now perf (nu, ps) = Inr ((t, w, out), nu', ps')"
  shows "w = (if nuca_line nu a \<in> nuca_lines nu then HW_NUCA_CACHE else HW_MISS) \<and>
    cache_wf (nu_cache nu') \<and> nuca_lines nu' = nuca_lines nu"
  using nuca_read_spec [OF assms] by simp

definition demo_qenv :: queue_env where
  "demo_qenv = \<lparr>qe_moving_avg_enabled = False, qe_moving_avg_window_size = 8, qe_moving_avg_type = ''arithmetic_mean'',
     qe_analytical = False, qe_max_list_size = 100, qe_mg1_window = 1000, qe_core_period = 1, qe_root = (\<lambda>x n. x),
     qe_mg1 = (\<lambda>_ _ _ _. 0)\<rparr>"

lemma demo_nuca:
  "\<exists>nu. cache_wf (nu_cache nu) \<and> nuca_lines nu = {} \<and> nuca_line nu = page \<and> nu_queue nu = None \<and> lru_live (nu_cache nu)"
proof -
  obtain t where t: "tlb_ok t" "cache_wf (tlb_cache t)" "tlb_pages t = {}" using demo_tlb_ok by blast
  let ?nu = "\<lparr>nu_core_id = 0, nu_block_size = 4096, nu_data_access_time = \<lparr>lat_period = 1, lat_cycles = 8\<rparr>,
    nu_tags_access_time = \<lparr>lat_period = 1, lat_cycles = 2\<rparr>, nu_bandwidth = 1, nu_cache = tlb_cache t, nu_queue = None,
    nu_reads = 0, nu_writes = 0, nu_read_misses = 0, nu_write_misses = 0\<rparr>"
  from t tlb_ok_page [OF t(1)] show ?thesis
    by (intro exI [of _ ?nu]) (simp add: nuca_lines_def nuca_line_def tlb_pages_def tlb_ok_def)
qed

theorem nuca_read_hits_witness:
  "\<exists>nu t out nu'. nuca_read demo_qenv 0 0x1000 0 None (nu, \<lambda>_. ShmemPerf) = Inr ((t, HW_MISS, out), nu', \<lambda>_. ShmemPerf) \<and>
     nuca_lines nu' = {}"
proof -
  obtain nu where n: "cache_wf (nu_cache nu)" "nuca_lines nu = {}" using demo_nuca by blast
  from peekSingleLine_iff [OF n(1), of "0x1000"] n(2) have "peekSingleLine 0x1000 (nu_cache nu) = Inr None"
    unfolding nuca_lines_def by (metis empty_iff)
  then obtain t out nu' where r: "nuca_read demo_qenv 0 0x1000 0 None (nu, \<lambda>_. ShmemPerf) = Inr ((t, HW_MISS, out), nu', \<lambda>_. ShmemPerf)"
    by (simp add: nuca_read_def Let_def updateTime_def)
  with nuca_read_hits [OF n(1) r] n(2) show ?thesis by blast
qed

subsection \<open>The tag directory\<close>

text \<open>A directory of four entries in two sets, without NUCA cache, under MESI.\<close>

definition demo_cf :: dd_conf where
  "demo_cf = \<lparr>cf_core_id = 0, cf_home = \<lparr>m_ahl_param = 6, m_core_list = [0], m_cache_block_size = 64\<rparr>, cf_block_size = 64,
     cf_protocol = MESI, cf_qenv = demo_qenv, cf_global_time = 0, cf_junk_eviction = (False, 0), cf_junk_buf = [],
     cf_freed_buf = []\<rparr>"

definition demo_dir :: "dd_state res" where
  "demo_dir = DramDirectoryCntlr 0 None 4 2 64 4 4 ''full_map'' \<lparr>lat_period = 1, lat_cycles = 10\<rparr> 200 0 0"

definition demo_msg :: "msg_t \<Rightarrow> core_id \<Rightarrow> u8 list option \<Rightarrow> u32 \<Rightarrow> shmem_msg" where
  "demo_msg ty r buf len = ShmemMsg ty L2_CACHE TAG_DIR r 0x1000 buf len None"

text \<open>Core 1 reads a line and gets it exclusively; core 2 asks to write it, and core 1 flushes it.\<close>

definition demo_trace :: "dd_state res" where
  "demo_trace = bindE demo_dir (dd_run demo_cf
     [From_L2 1 (demo_msg SH_REQ 1 None 0) 0, From_DRAM 0 (demo_msg DRAM_READ_REP 1 (Some [7]) 64) 50,
      From_L2 2 (demo_msg EX_REQ 2 None 0) 100])"

definition demo_flush :: "dd_state \<Rightarrow> dd_state res" where
  "demo_flush d = handleMsgFromL2Cache demo_cf 1 (demo_msg FLUSH_REP 1 (Some [7]) 64) (d\<lparr>dd_time := 150\<rparr>)"

definition out_kinds :: "dd_state \<Rightarrow> (core_id option \<times> msg_t) list" where
  "out_kinds d = map (\<lambda>(r, m, t). (r, msg_type m)) (dd_out d)"

lemma demo_trace_runs:
  "case demo_trace of Inl _ \<Rightarrow> False | Inr d \<Rightarrow>
     out_kinds d = [(Some 0, DRAM_READ_REQ), (Some 1, EX_REP), (Some 1, FLUSH_REQ)] \<and>
     map_option de_state (dc_entry (Slot 0) (dd_cache d)) = Some D_EXCLUSIVE \<and>
     map_option de_address (dc_entry (Slot 0) (dd_cache d)) = Some 0x1000 \<and>
     (case demo_flush d of Inl _ \<Rightarrow> False | Inr d' \<Rightarrow>
        out_kinds d' = [(Some 0, DRAM_READ_REQ), (Some 1, EX_REP), (Some 1, FLUSH_REQ), (Some 2, EX_REP)])"
  by code_simp

lemma case_res: "(case m of Inl _ \<Rightarrow> False | Inr x \<Rightarrow> P x) \<Longrightarrow> \<exists>x. m = Inr x \<and> P x"
  by (cases m) simp_all

lemma demo_run:
  obtains d0 d d' where "demo_dir = Inr d0" and "dd_reach demo_cf d0 d" and "demo_flush d = Inr d'"
    and "map_option de_state (dc_entry (Slot 0) (dd_cache d)) = Some D_EXCLUSIVE"
    and "map_option de_address (dc_entry (Slot 0) (dd_cache d)) = Some 0x1000"
    and "out_kinds d' = out_kinds d @ [(Some 2, EX_REP)]"
proof -
  from case_res [OF demo_trace_runs] obtain d where d: "demo_trace = Inr d"
    and k: "map_option de_state (dc_entry (Slot 0) (dd_cache d)) = Some D_EXCLUSIVE"
      "map_option de_address (dc_entry (Slot 0) (dd_cache d)) = Some 0x1000"
      "out_kinds d = [(Some 0, DRAM_READ_REQ), (Some 1, EX_REP), (Some 1, FLUSH_REQ)]"
    and fl: "case demo_flush d of Inl _ \<Rightarrow> False | Inr d' \<Rightarrow>
        out_kinds d' = [(Some 0, DRAM_READ_REQ), (Some 1, EX_REP), (Some 1, FLUSH_REQ), (Some 2, EX_REP)]" by blast
  from case_res [OF fl] obtain d' where d': "demo_flush d = Inr d'" "out_kinds d' = out_kinds d @ [(Some 2, EX_REP)]"
    using k(3) by auto
  from d obtain d0 where d0: "demo_dir = Inr d0" and run: "dd_run demo_cf
     [From_L2 1 (demo_msg SH_REQ 1 None 0) 0, From_DRAM 0 (demo_msg DRAM_READ_REP 1 (Some [7]) 64) 50,
      From_L2 2 (demo_msg EX_REQ 2 None 0) 100] d0 = Inr d" unfolding demo_trace_def by (elim bindE_InrE)
  have "0x1000 \<noteq> INVALID_ADDRESS" by (simp add: INVALID_ADDRESS_def)
  then have "dd_reach demo_cf d0 d"
    by (intro dd_run_reach [OF run _ dd_reach.start]) (simp add: demo_msg_def ShmemMsg_def)
  from that [OF d0 this d'(1) k(1,2) d'(2)] show ?thesis .
qed

text \<open>C7. In every reachable state the sharers of each directory entry fit its state: none when it is uncached,
  at least one when shared, exactly the owner when modified or exclusive; the owned state never occurs.\<close>

theorem directory_states_fit_sharers:
  assumes "DramDirectoryCntlr core nuca entries assoc bs num hw ty acc pen junk fwd = Inr d0" and "assoc \<le> entries"
    and "dd_reach cf d0 d" and "dc_entry p (dd_cache d) = Some e" and "de_address e \<noteq> INVALID_ADDRESS"
  shows "(de_state e = D_UNCACHED \<longrightarrow> snd (getSharersList e) = []) \<and>
    (de_state e = D_SHARED \<longrightarrow> snd (getSharersList e) \<noteq> []) \<and>
    (de_state e = D_MODIFIED \<or> de_state e = D_EXCLUSIVE \<longrightarrow> snd (getSharersList e) = [de_owner e]) \<and>
    de_state e \<noteq> D_OWNED"
  by (rule entry_ok_states [OF entry_in_map [OF reach_ok [OF assms(3) cntlr_init [OF assms(1,2)]] assms(4,5)]])

theorem directory_states_fit_sharers_witness:
  "\<exists>d0 d e. demo_dir = Inr d0 \<and> dd_reach demo_cf d0 d \<and> dc_entry (Slot 0) (dd_cache d) = Some e \<and>
     de_state e = D_EXCLUSIVE \<and> snd (getSharersList e) = [de_owner e]"
proof (rule demo_run)
  fix d0 d d' assume d0: "demo_dir = Inr d0" and r: "dd_reach demo_cf d0 d"
    and s: "map_option de_state (dc_entry (Slot 0) (dd_cache d)) = Some D_EXCLUSIVE"
      "map_option de_address (dc_entry (Slot 0) (dd_cache d)) = Some 0x1000"
  then obtain e where e: "dc_entry (Slot 0) (dd_cache d) = Some e" "de_state e = D_EXCLUSIVE" "de_address e = 0x1000"
    by (cases "dc_entry (Slot 0) (dd_cache d)") auto
  have "de_address e \<noteq> INVALID_ADDRESS" using e(3) by (simp add: INVALID_ADDRESS_def)
  from directory_states_fit_sharers [OF d0 [unfolded demo_dir_def] _ r e(1) this] d0 r e show ?thesis by auto
qed



text \<open>C9. The recursion of the controller ends: processing the next request satisfies the equation of the code,
  and as many nested calls as requests are queued give its value, whatever a deeper call would do.\<close>

theorem next_request_returns:
  assumes "\<forall>r \<in> set (dd_queue d a). rq_address r = a"
  shows "nextReq cf a d = next_step cf (nextReq cf) a d \<and>
    (\<forall>n f. 1 \<le> n \<longrightarrow> q_size a (dd_queue d) \<le> n \<longrightarrow> next_calls cf f n a d = nextReq cf a d)"
  using assms nextReq_unfold [of a d cf] nextReq_calls [of a d _ cf] by (simp add: queue_addr_def)

theorem next_request_returns_witness:
  "\<exists>d r. dd_queue d 0x1000 = [r] \<and> nextReq demo_cf 0x1000 d = Inr (d\<lparr>dd_queue := (dd_queue d)(0x1000 := [])\<rparr>)"
proof (rule demo_run)
  fix d0 d d' assume "demo_dir = Inr d0"
  obtain r where r: "ShmemReq (demo_msg EX_REQ 2 None 0) 0 = Inr r" and ra: "rq_address r = 0x1000"
    by (simp add: ShmemReq_def demo_msg_def ShmemMsg_def)
  let ?d = "d0\<lparr>dd_queue := (dd_queue d0)(0x1000 := [r])\<rparr>" and ?f = "\<lambda>_ _. Inl (No_Return ''deep'')"
  have q: "dd_queue ?d 0x1000 = [r]" by simp
  have "next_calls demo_cf ?f 1 0x1000 ?d = nextReq demo_cf 0x1000 ?d"
    using next_request_returns [of ?d "0x1000" demo_cf] ra by (simp add: q_size_def)
  moreover have "next_calls demo_cf ?f 1 0x1000 ?d = Inr (?d\<lparr>dd_queue := (dd_queue ?d)(0x1000 := [])\<rparr>)"
    using next_calls_last [of 1 demo_cf ?f] by (simp add: next_last_def q_size_def)
  ultimately show ?thesis using q by metis
qed


definition demo_dc :: "dir_cache res" where
  "demo_dc = DramDirectoryCache ''full_map'' 1 1 64 4 4 \<lparr>lat_period = 1, lat_cycles = 10\<rparr> 200 0"

lemma demo_dc: obtains dc where "demo_dc = Inr dc" and "dc_wf dc" and "dc_look dc = (\<lambda>_. None)"
proof -
  have "case demo_dc of Inl _ \<Rightarrow> False | Inr dc \<Rightarrow> True" by code_simp
  from case_res [OF this] obtain dc where dc: "demo_dc = Inr dc" by blast
  note init = init_wf [OF dc [unfolded demo_dc_def]]
  have "dc_look dc a = None" for a using init(2) dc_look_entry [of dc a] init(1) by (cases "dc_look dc a") auto
  with that [OF dc] init(1) show ?thesis by auto
qed


text \<open>C11. A replacement in full: the chosen candidate's slot gets a fresh entry for the new line, the old entry
  stays in the directory with its state until it is invalidated, and then only it is gone.\<close>

theorem directory_replacement_cycle:
  assumes "dc_wf dc" and "a \<noteq> INVALID_ADDRESS" and "getReplacementCandidates a dc = Inr (ps, dc1)" and "p \<in> set ps"
    and "dc_entry p dc1 = Some c"
  shows "\<exists>dc2 dc3 e. replaceDirectoryEntry (de_address c) a dc1 = Inr (p, dc2) \<and> dc_wf dc2 \<and>
    dc_entry p dc2 = Some e \<and> de_state e = D_UNCACHED \<and> dc_look dc2 = (dc_look dc)(a := Some e) \<and>
    dc_look dc (de_address c) = Some c \<and>
    invalidateDirectoryEntry (de_address c) dc2 = Inr dc3 \<and> dc_wf dc3 \<and> dc_look dc3 = (dc_look dc2)(de_address c := None)"
  using replacement_cycle [OF assms] by (force simp: fresh_at_def)

theorem directory_replacement_cycle_witness:
  "\<exists>dc dc1 dc2 dc3. getReplacementCandidates 0x80 dc = Inr ([Slot 0], dc1) \<and>
     replaceDirectoryEntry 0x40 0x80 dc1 = Inr (Slot 0, dc2) \<and> invalidateDirectoryEntry 0x40 dc2 = Inr dc3"
proof (rule demo_dc)
  fix dc0 assume dc0: "demo_dc = Inr dc0" "dc_wf dc0"
  have n: "0x40 \<noteq> INVALID_ADDRESS" "0x80 \<noteq> INVALID_ADDRESS" by (simp_all add: INVALID_ADDRESS_def)
  have "case bindE demo_dc (dc_getEntry 0x40) of Inl _ \<Rightarrow> False | Inr x \<Rightarrow>
      (case getReplacementCandidates 0x80 (snd x) of Inl _ \<Rightarrow> False | Inr y \<Rightarrow> fst y = [Slot 0] \<and>
         map_option de_address (dc_entry (Slot 0) (snd y)) = Some 0x40)" by code_simp
  from case_res [OF this, unfolded dc0(1) bindE_simps] obtain x dc where g: "dc_getEntry 0x40 dc0 = Inr (x, dc)"
    and c: "case getReplacementCandidates 0x80 dc of Inl _ \<Rightarrow> False | Inr y \<Rightarrow> fst y = [Slot 0] \<and>
         map_option de_address (dc_entry (Slot 0) (snd y)) = Some 0x40" by auto
  from case_res [OF c] obtain dc1 c0 where r: "getReplacementCandidates 0x80 dc = Inr ([Slot 0], dc1)"
    "dc_entry (Slot 0) dc1 = Some c0" "de_address c0 = 0x40" by fastforce
  have "dc_wf dc" using dc_getEntry_spec [OF dc0(2) n(1)] g by (auto simp: dc_found_def)
  from directory_replacement_cycle [OF this n(2) r(1) _ r(2)] r show ?thesis by auto
qed

text \<open>C12. An exclusive request for a line that caches share invalidates every sharer, each with one message and
  in the order of the sharer list, and waits: entries and queues stay as they are.\<close>

theorem exclusive_request_invalidates_sharers:
  assumes "DramDirectoryCntlr core nuca entries assoc bs num hw ty acc pen junk fwd = Inr d0" and "assoc \<le> entries"
    and "dd_reach cf d0 d" and "dc_look (dd_cache d) (rq_address req) = Some e" and "de_state e = D_SHARED"
    and "processExReqFromL2Cache cf (nextReq cf) None req d = Inr d'"
  shows "dc_look (dd_cache d') = dc_look (dd_cache d) \<and> dd_queue d' = dd_queue d \<and> snd (getSharersList e) \<noteq> [] \<and>
    (\<exists>out. dd_out d' = dd_out d @ out \<and>
      map (\<lambda>x. (fst x, msg_type (fst (snd x)), msg_address (fst (snd x)))) out =
      map (\<lambda>x. (Some x, INV_REQ, rq_address req)) (snd (getSharersList e)))"
proof -
  have ok: "dd_ok d" using reach_ok [OF assms(3) cntlr_init [OF assms(1,2)]] .
  have "entry_ok e" using ok assms(4) by (auto simp: dd_ok_def dd_look_def)
  from entry_ok_states [OF this] exReq_shared [OF ok _ assms(5,6)] assms(4,5) show ?thesis by (simp add: dd_look_def)
qed

text \<open>Core 2 reads the line that core 1 has exclusively.\<close>

definition demo_share :: "dd_state res" where
  "demo_share = bindE demo_dir (dd_run demo_cf
     [From_L2 1 (demo_msg SH_REQ 1 None 0) 0, From_DRAM 0 (demo_msg DRAM_READ_REP 1 (Some [7]) 64) 50,
      From_L2 2 (demo_msg SH_REQ 2 None 0) 100, From_L2 1 (demo_msg WB_REP 1 (Some [7]) 64) 150])"

theorem exclusive_request_invalidates_sharers_witness:
  "\<exists>d req d'. demo_share = Inr d \<and> processExReqFromL2Cache demo_cf (nextReq demo_cf) None req d = Inr d' \<and>
     length (dd_out d') = length (dd_out d) + 2"
proof -
  define req where "req = \<lparr>rq_type = EX_REQ, rq_requester = 3, rq_address = 0x1000, rq_data = None, rq_perf = None,
    rq_time = 200, rq_wait = False, rq_forwarding = INVALID_CORE_ID\<rparr>"
  have "case demo_share of Inl _ \<Rightarrow> False | Inr d \<Rightarrow>
      (case processExReqFromL2Cache demo_cf (nextReq demo_cf) None req d of Inl _ \<Rightarrow> False | Inr d' \<Rightarrow> True) \<and>
      map_option (\<lambda>e. (de_state e, de_address e, snd (getSharersList e))) (dc_entry (Slot 0) (dd_cache d)) = Some (D_SHARED, 0x1000, [1, 2])"
    unfolding req_def by code_simp
  from case_res [OF this] obtain d d' e where d: "demo_share = Inr d" "processExReqFromL2Cache demo_cf (nextReq demo_cf) None req d = Inr d'"
    "dc_entry (Slot 0) (dd_cache d) = Some e" "de_state e = D_SHARED" "de_address e = 0x1000" "snd (getSharersList e) = [1, 2]"
    by (auto dest: case_res)
  from d(1) obtain d0 where d0: "demo_dir = Inr d0" and run: "dd_run demo_cf
     [From_L2 1 (demo_msg SH_REQ 1 None 0) 0, From_DRAM 0 (demo_msg DRAM_READ_REP 1 (Some [7]) 64) 50,
      From_L2 2 (demo_msg SH_REQ 2 None 0) 100, From_L2 1 (demo_msg WB_REP 1 (Some [7]) 64) 150] d0 = Inr d"
    unfolding demo_share_def by (elim bindE_InrE)
  have n: "(0x1000 :: addr) \<noteq> INVALID_ADDRESS" by (simp add: INVALID_ADDRESS_def)
  then have r: "dd_reach demo_cf d0 d"
    by (intro dd_run_reach [OF run _ dd_reach.start]) (simp add: demo_msg_def ShmemMsg_def)
  have "dd_ok d" using reach_ok [OF r] cntlr_init [OF d0 [unfolded demo_dir_def]] by simp
  then have "dc_look (dd_cache d) (rq_address req) = Some e"
    using dc_entry_look [of "dd_cache d" "Slot 0" e] d(3,5) n by (simp add: dd_ok_def req_def)
  from exclusive_request_invalidates_sharers [OF d0 [unfolded demo_dir_def] _ r this d(4,2)] d(6)
  obtain out where "dd_out d' = dd_out d @ out" "length out = 2" using map_eq_imp_length_eq by fastforce
  then have "length (dd_out d') = length (dd_out d) + 2" by simp
  with d(1,2) show ?thesis by blast
qed

end
